(* ===== verification/Prelude.thy ===== *)
theory Prelude
  imports Complex_Main "HOL-Library.Word" "HOL-Library.AList"
begin

text \<open>
  Shared material of the development: the theorem collections the component proofs draw on, generic
  facts about lists, big-endian bit strings of machine words, and the transition-system interface
  that every stateful component (controller, daemon, scheduler, latency and ping statistics)
  instantiates to lift a one-step invariant to whole runs.
\<close>

section \<open>Collections\<close>

named_theorems bits_simps \<open>bit-string views of words and byte arrays\<close>
named_theorems frame_simps \<open>fields an operation leaves alone\<close>
named_theorems inv_intros \<open>operations that keep a component's invariant\<close>

section \<open>Transition systems\<close>

text \<open>
  A component is a set of initial states, a step function over a type of events and an invariant.
  The laws ask for the invariant initially and after one step; the lemmas give it for runs and for
  every reachable state.
\<close>

locale transition_system =
  fixes init :: "'s \<Rightarrow> bool"
    and step :: "'s \<Rightarrow> 'e \<Rightarrow> 's"
    and guard :: "'s \<Rightarrow> 'e \<Rightarrow> bool"
    and inv :: "'s \<Rightarrow> bool"
  assumes inv_init: "init s \<Longrightarrow> inv s"
    and inv_step: "inv s \<Longrightarrow> guard s e \<Longrightarrow> inv (step s e)"
begin

fun enabled_run :: "'s \<Rightarrow> 'e list \<Rightarrow> bool" where
  "enabled_run s [] = True"
| "enabled_run s (e # es) = (guard s e \<and> enabled_run (step s e) es)"

inductive reach :: "'s \<Rightarrow> bool" where
  reach_init: "init s \<Longrightarrow> reach s"
| reach_step: "reach s \<Longrightarrow> guard s e \<Longrightarrow> reach (step s e)"

lemma run_inv: "inv s \<Longrightarrow> enabled_run s es \<Longrightarrow> inv (fold (\<lambda>e t. step t e) es s)"
  by (induction es arbitrary: s) (auto intro: inv_step)

lemma reach_inv: "reach s \<Longrightarrow> inv s"
  by (induction rule: reach.induct) (auto intro: inv_init inv_step)

lemma run_init_inv:
  "init s \<Longrightarrow> enabled_run s es \<Longrightarrow> inv (fold (\<lambda>e t. step t e) es s)"
  by (rule run_inv) (rule inv_init)

end

section \<open>Lists\<close>

lemma take_eq_iff_nth:
  "length xs = length ys \<Longrightarrow>
   (take n xs = take n ys) = (\<forall>i < min n (length xs). xs ! i = ys ! i)"
  by (auto simp: list_eq_iff_nth_eq)

lemma take_list_update_ge [simp]: "n \<le> i \<Longrightarrow> take n (xs[i := v]) = take n xs"
  by (simp add: list_eq_iff_nth_eq nth_list_update)

lemma take_le_eq: "take n xs = take n ys \<Longrightarrow> m \<le> n \<Longrightarrow> take m xs = take m ys"
  by (metis min.absorb1 take_take)

lemma concat_take_uniform:
  assumes "\<forall>x \<in> set xs. length x = k" and "0 < k" and "n \<le> k * length xs"
  shows "take n (concat xs) =
    concat (take (n div k) xs) @
      (if n mod k = 0 then [] else take (n mod k) (xs ! (n div k)))"
  using assms
proof (induction xs arbitrary: n)
  case Nil
  then show ?case by simp
next
  case (Cons x xs)
  show ?case
  proof (cases "n < k")
    case True
    then show ?thesis using Cons.prems by (cases "n = 0") simp_all
  next
    case False
    then obtain m where m: "n = k + m" by (metis add_diff_inverse_nat)
    have len: "length x = k" and "m \<le> k * length xs" using Cons.prems m by auto
    have "(k + m) div k = Suc (m div k)" using Cons.prems(2) by (simp add: div_add_self1)
    with Cons.IH [of m] Cons.prems(1,2) len \<open>m \<le> k * length xs\<close> show ?thesis
      using m by simp
  qed
qed

lemma concat_uniform_inj:
  assumes "\<forall>x \<in> set xs. length x = k" "\<forall>y \<in> set ys. length y = k"
    and "length xs = length ys" "concat xs = concat ys"
  shows "xs = ys"
  using assms(3,1,2,4)
  by (induction xs ys rule: list_induct2) auto

lemma nth_concat_uniform:
  assumes "\<forall>x \<in> set xs. length x = k" and "i < k * length xs"
  shows "concat xs ! i = xs ! (i div k) ! (i mod k)"
  using assms
proof (induction xs arbitrary: i)
  case Nil
  then show ?case by simp
next
  case (Cons x xs)
  then have "0 < k" by (cases k) auto
  show ?case
  proof (cases "i < k")
    case True
    then show ?thesis using Cons.prems by (simp add: nth_append)
  next
    case False
    then obtain m where m: "i = k + m" by (metis add_diff_inverse_nat)
    with Cons have "concat xs ! m = xs ! (m div k) ! (m mod k)" by simp
    moreover have "(k + m) div k = Suc (m div k)" using \<open>0 < k\<close> by (simp add: div_add_self1)
    ultimately show ?thesis using m Cons.prems by (simp add: nth_append)
  qed
qed

section \<open>Integers as the source divides them\<close>

text \<open>C++ division truncates towards zero.\<close>

definition cdiv :: "int \<Rightarrow> int \<Rightarrow> int" where
  "cdiv a b = sgn a * sgn b * (\<bar>a\<bar> div \<bar>b\<bar>)"

lemma cdiv_nonneg [simp]: "0 \<le> a \<Longrightarrow> 0 < b \<Longrightarrow> cdiv a b = a div b"
  by (cases "a = 0") (simp_all add: cdiv_def)

text \<open>\<^verbatim>\<open>(sum + n - 1) / n\<close> is the quotient rounded up.\<close>

lemma ceil_div:
  assumes "0 \<le> a" "0 < n"
  shows "cdiv (a + n - 1) n = \<lceil>of_int a / (of_int n :: real)\<rceil>"
proof -
  let ?q = "(a + n - 1) div n"
  have "a + n - 1 = n * ?q + (a + n - 1) mod n" by simp
  moreover have "0 \<le> (a + n - 1) mod n" "(a + n - 1) mod n < n" using assms(2) by simp_all
  ultimately have le: "a \<le> n * ?q" and less: "n * (?q - 1) < a"
    unfolding right_diff_distrib by linarith+
  have "real_of_int a \<le> real_of_int n * real_of_int ?q"
    using le by (metis of_int_le_iff of_int_mult)
  moreover have "real_of_int n * (real_of_int ?q - 1) < real_of_int a"
    using less by (metis of_int_1 of_int_diff of_int_less_iff of_int_mult)
  ultimately have "\<lceil>real_of_int a / real_of_int n\<rceil> = ?q"
    using assms(2) by (auto simp: ceiling_eq_iff field_simps)
  then show ?thesis using assms by simp
qed

section \<open>Words as big-endian bit strings\<close>

text \<open>\<open>wbits w\<close> lists the bits of \<open>w\<close>, most significant first: the order of a network prefix.\<close>

definition wbits :: "'a::len word \<Rightarrow> bool list" where
  "wbits w = map (bit w) (rev [0..<LENGTH('a)])"

lemma length_wbits [simp]: "length (wbits (w :: 'a::len word)) = LENGTH('a)"
  by (simp add: wbits_def)

lemma nth_wbits [bits_simps]:
  "i < LENGTH('a) \<Longrightarrow> wbits (w :: 'a::len word) ! i = bit w (LENGTH('a) - Suc i)"
  by (simp add: wbits_def rev_nth)

lemma wbits_eqI:
  assumes "\<And>i. i < LENGTH('a) \<Longrightarrow> bit w (LENGTH('a) - Suc i) = bs ! i"
    and "length bs = LENGTH('a)"
  shows "wbits (w :: 'a::len word) = bs"
  using assms by (auto simp: list_eq_iff_nth_eq nth_wbits)

lemma wbits_inject: "wbits a = wbits b \<Longrightarrow> a = (b :: 'a::len word)"
proof (rule bit_word_eqI)
  fix n assume eq: "wbits a = wbits b" and n: "n < LENGTH('a)"
  then have "wbits a ! (LENGTH('a) - Suc n) = wbits b ! (LENGTH('a) - Suc n)" by simp
  then show "bit a n = bit b n" using n by (simp add: nth_wbits)
qed

lemma wbits_inject_iff [simp]: "wbits a = wbits b \<longleftrightarrow> a = b"
  by (auto dest: wbits_inject)

lemma drop_bit_eq_0_iff_bits:
  "drop_bit k w = 0 \<longleftrightarrow> (\<forall>i < LENGTH('a). k \<le> i \<longrightarrow> \<not> bit (w :: 'a::len word) i)"
proof
  assume z: "drop_bit k w = 0"
  show "\<forall>i < LENGTH('a). k \<le> i \<longrightarrow> \<not> bit w i"
  proof (intro allI impI)
    fix i assume "k \<le> i"
    then have "bit w i = bit (drop_bit k w) (i - k)" by (simp add: bit_drop_bit_eq)
    then show "\<not> bit w i" using z by simp
  qed
next
  assume h: "\<forall>i < LENGTH('a). k \<le> i \<longrightarrow> \<not> bit w i"
  show "drop_bit k w = 0"
  proof (rule bit_word_eqI)
    fix n assume "n < LENGTH('a)"
    show "bit (drop_bit k w) n = bit 0 n"
      using h by (simp add: bit_drop_bit_eq) (meson bit_imp_le_length le_add1 linorder_not_le)
  qed
qed

lemma drop_bit_xor_eq_0_iff:
  fixes a b :: "'a::len word"
  assumes "n \<le> LENGTH('a)"
  shows "drop_bit (LENGTH('a) - n) (xor a b) = 0 \<longleftrightarrow> take n (wbits a) = take n (wbits b)"
proof -
  have "drop_bit (LENGTH('a) - n) (xor a b) = 0 \<longleftrightarrow>
      (\<forall>i < LENGTH('a). LENGTH('a) - n \<le> i \<longrightarrow> bit a i = bit b i)"
    by (subst drop_bit_eq_0_iff_bits) (simp add: bit_xor_iff)
  also have "\<dots> \<longleftrightarrow> (\<forall>j < n. bit a (LENGTH('a) - Suc j) = bit b (LENGTH('a) - Suc j))"
  proof (rule iffI; intro allI impI)
    fix j assume "\<forall>i < LENGTH('a). LENGTH('a) - n \<le> i \<longrightarrow> bit a i = bit b i" "j < n"
    then show "bit a (LENGTH('a) - Suc j) = bit b (LENGTH('a) - Suc j)"
      using assms by auto
  next
    fix i assume h: "\<forall>j < n. bit a (LENGTH('a) - Suc j) = bit b (LENGTH('a) - Suc j)"
      and i: "i < LENGTH('a)" "LENGTH('a) - n \<le> i"
    from i have "LENGTH('a) - Suc i < n" "LENGTH('a) - Suc (LENGTH('a) - Suc i) = i"
      using assms by auto
    with h show "bit a i = bit b i" by metis
  qed
  also have "\<dots> \<longleftrightarrow> take n (wbits a) = take n (wbits b)"
    using assms by (auto simp: take_eq_iff_nth nth_wbits)
  finally show ?thesis .
qed

end
