(* ===== verification/Json.thy ===== *)
theory Json
  imports Prelude
begin

text \<open>
  The JSON values the client and the daemon exchange and store: the accessors of
  \<^verbatim>\<open>QJsonValue\<close> and \<^verbatim>\<open>QJsonObject\<close> that the sources call, with the defaults they return
  for a value of another kind.  Numbers are reals (a double without its rounding).  Text to value
  parsing (\<^verbatim>\<open>QJsonDocument::fromJson\<close>) is a parameter wherever it is used.
\<close>

datatype json =
    JUndefined
  | JNull
  | JBool bool
  | JDouble real
  | JString string
  | JArray "json list"
  | JObject "(string \<times> json) list"

type_synonym json_object = "(string \<times> json) list"

text \<open>
  A \<^verbatim>\<open>QString\<close> that can be null: \<open>None\<close>.  Comparison and emptiness do not tell null from
  empty, \<^verbatim>\<open>isNull\<close> does.
\<close>

type_synonym qstring = "string option"

definition qchars :: "qstring \<Rightarrow> string" where
  "qchars q = (case q of None \<Rightarrow> [] | Some s \<Rightarrow> s)"

definition isNull :: "qstring \<Rightarrow> bool" where
  "isNull q = (q = None)"

definition qeq :: "qstring \<Rightarrow> qstring \<Rightarrow> bool" where
  "qeq a b = (qchars a = qchars b)"

lemma qchars_simps [simp]: "qchars None = []" "qchars (Some s) = s"
  by (simp_all add: qchars_def)

lemma isNull_simps [simp]: "isNull None" "\<not> isNull (Some s)"
  by (simp_all add: isNull_def)

definition obj_value :: "json_object \<Rightarrow> string \<Rightarrow> json" where
  "obj_value obj k = (case map_of obj k of None \<Rightarrow> JUndefined | Some v \<Rightarrow> v)"

definition obj_contains :: "json_object \<Rightarrow> string \<Rightarrow> bool" where
  "obj_contains obj k = (map_of obj k \<noteq> None)"

definition obj_insert :: "string \<Rightarrow> json \<Rightarrow> json_object \<Rightarrow> json_object" where
  "obj_insert k v obj = AList.update k v obj"

fun isString :: "json \<Rightarrow> bool" where
  "isString (JString _) = True"
| "isString _ = False"

fun isDouble :: "json \<Rightarrow> bool" where
  "isDouble (JDouble _) = True"
| "isDouble _ = False"

fun isBool :: "json \<Rightarrow> bool" where
  "isBool (JBool _) = True"
| "isBool _ = False"

fun isArray :: "json \<Rightarrow> bool" where
  "isArray (JArray _) = True"
| "isArray _ = False"

fun isObject :: "json \<Rightarrow> bool" where
  "isObject (JObject _) = True"
| "isObject _ = False"

fun toQString :: "json \<Rightarrow> qstring" where
  "toQString (JString s) = Some s"
| "toQString _ = None"

definition toString :: "json \<Rightarrow> string" where
  "toString v = qchars (toQString v)"

fun toBool :: "json \<Rightarrow> bool" where
  "toBool (JBool b) = b"
| "toBool _ = False"

fun toArray :: "json \<Rightarrow> json list" where
  "toArray (JArray xs) = xs"
| "toArray _ = []"

fun toObject :: "json \<Rightarrow> json_object" where
  "toObject (JObject obj) = obj"
| "toObject _ = []"

fun toDouble :: "json \<Rightarrow> real" where
  "toDouble (JDouble d) = d"
| "toDouble _ = 0"

text \<open>\<^verbatim>\<open>QJsonValue::toInt\<close>: an integral double in the range of \<^verbatim>\<open>int\<close>, otherwise 0.\<close>

definition toInt :: "json \<Rightarrow> int" where
  "toInt v =
    (case v of
       JDouble d \<Rightarrow>
         if of_int \<lfloor>d\<rfloor> = d \<and> - (2 ^ 31) \<le> \<lfloor>d\<rfloor> \<and> \<lfloor>d\<rfloor> < 2 ^ 31 then \<lfloor>d\<rfloor> else 0
     | _ \<Rightarrow> 0)"

text \<open>Conversion of a double to \<^verbatim>\<open>int\<close>: truncation towards zero.\<close>

definition double_to_int :: "real \<Rightarrow> int" where
  "double_to_int d = (if 0 \<le> d then \<lfloor>d\<rfloor> else - \<lfloor>- d\<rfloor>)"

text \<open>\<^verbatim>\<open>QString::contains\<close> for a substring.\<close>

fun str_contains :: "string \<Rightarrow> string \<Rightarrow> bool" where
  "str_contains [] pat = (pat = [])"
| "str_contains (c # cs) pat = (take (length pat) (c # cs) = pat \<or> str_contains cs pat)"

text \<open>
  \<^verbatim>\<open>std::sort\<close> with a comparison callback, as the stable insertion sort: one of the orders the
  standard allows, and the one it gives when the callback is a linear order.
\<close>

fun insort_by :: "('a \<Rightarrow> 'a \<Rightarrow> bool) \<Rightarrow> 'a \<Rightarrow> 'a list \<Rightarrow> 'a list" where
  "insort_by lt x [] = [x]"
| "insort_by lt x (y # ys) = (if lt y x then y # insort_by lt x ys else x # y # ys)"

definition std_sort :: "('a \<Rightarrow> 'a \<Rightarrow> bool) \<Rightarrow> 'a list \<Rightarrow> 'a list" where
  "std_sort lt xs = foldr (insort_by lt) xs []"

lemma set_insort_by [simp]: "set (insort_by lt x ys) = insert x (set ys)"
  by (induction ys) auto

lemma set_std_sort [simp]: "set (std_sort lt xs) = set xs"
  by (induction xs) (simp_all add: std_sort_def)

lemma length_insort_by [simp]: "length (insort_by lt x ys) = Suc (length ys)"
  by (induction ys) auto

lemma length_std_sort [simp]: "length (std_sort lt xs) = length xs"
  by (induction xs) (simp_all add: std_sort_def)

lemma std_sort_Nil_iff [simp]: "std_sort lt xs = [] \<longleftrightarrow> xs = []"
  by (metis length_0_conv length_std_sort)

lemma toString_JString [simp]: "toString (JString s) = s"
  by (simp add: toString_def)

lemma toInt_of_int [simp]: "- (2 ^ 31) \<le> i \<Longrightarrow> i < 2 ^ 31 \<Longrightarrow> toInt (JDouble (of_int i)) = i"
  by (simp add: toInt_def)

lemma double_to_int_of_int [simp]: "double_to_int (of_int i) = i"
  by (auto simp: double_to_int_def)

lemma obj_value_insert [simp]:
  "obj_value (obj_insert k v obj) k' = (if k' = k then v else obj_value obj k')"
  by (simp add: obj_value_def obj_insert_def update_conv)

lemma obj_contains_insert [simp]:
  "obj_contains (obj_insert k v obj) k' \<longleftrightarrow> k' = k \<or> obj_contains obj k'"
  by (simp add: obj_contains_def obj_insert_def update_conv)

lemma obj_value_Nil [simp]: "obj_value [] k = JUndefined"
  by (simp add: obj_value_def)

lemma obj_contains_Nil [simp]: "\<not> obj_contains [] k"
  by (simp add: obj_contains_def)

lemma isString_iff: "isString v \<longleftrightarrow> (\<exists>s. v = JString s)"
  by (cases v) auto

lemma isArray_iff: "isArray v \<longleftrightarrow> (\<exists>xs. v = JArray xs)"
  by (cases v) auto

lemma isObject_iff: "isObject v \<longleftrightarrow> (\<exists>obj. v = JObject obj)"
  by (cases v) auto

lemma isDouble_iff: "isDouble v \<longleftrightarrow> (\<exists>d. v = JDouble d)"
  by (cases v) auto

end
