(* ===== verification/Server.thy ===== *)
theory Server
  imports Json
begin

text \<open>
  Model of \<^verbatim>\<open>src/src/models/server.cpp\<close>: one relay, read from JSON, the weighted choice among
  relays and the choice of a port.  Weights and ports are 32-bit words, so the sums wrap as in the
  source; a draw of the random generator is an argument, and a remainder by zero is \<open>None\<close>.
\<close>

type_synonym u32 = "32 word"

record server =
  m_hostname :: string
  m_ipv4AddrIn :: string
  m_ipv4Gateway :: string
  m_ipv6AddrIn :: string
  m_ipv6Gateway :: string
  m_portRanges :: "(u32 \<times> u32) list"
  m_publicKey :: string
  m_socksName :: string
  m_weight :: u32
  m_multihopPort :: u32
  m_countryCode :: string
  m_cityName :: string

definition emptyServer :: server where
  "emptyServer = \<lparr>m_hostname = [], m_ipv4AddrIn = [], m_ipv4Gateway = [], m_ipv6AddrIn = [],
     m_ipv6Gateway = [], m_portRanges = [], m_publicKey = [], m_socksName = [], m_weight = 0,
     m_multihopPort = 0, m_countryCode = [], m_cityName = []\<rparr>"

definition Server_of_place :: "string \<Rightarrow> string \<Rightarrow> server" where
  "Server_of_place countryCode cityName =
     emptyServer\<lparr>m_countryCode := countryCode, m_cityName := cityName\<rparr>"

definition server_initialized :: "server \<Rightarrow> bool" where
  "server_initialized s = (m_hostname s \<noteq> [])"

fun parse_port_ranges :: "json list \<Rightarrow> (u32 \<times> u32) list option" where
  "parse_port_ranges [] = Some []"
| "parse_port_ranges (v # vs) =
    (case v of
       JArray [a, b] \<Rightarrow>
         if isDouble a \<and> isDouble b
         then map_option ((#) (word_of_int (toInt a), word_of_int (toInt b))) (parse_port_ranges vs)
         else None
     | _ \<Rightarrow> None)"

text \<open>
  \<^verbatim>\<open>Server::fromJson\<close>: the host name is reset first, the other fields are written only when
  every check has passed.
\<close>

definition Server_fromJson :: "json_object \<Rightarrow> server \<Rightarrow> bool \<times> server" where
  "Server_fromJson obj s0 =
    (let s = s0\<lparr>m_hostname := []\<rparr>;
         hostname = obj_value obj ''hostname'';
         ipv4AddrIn = obj_value obj ''ipv4_addr_in'';
         ipv4Gateway = obj_value obj ''ipv4_gateway'';
         ipv6AddrIn = obj_value obj ''ipv6_addr_in'';
         ipv6Gateway = obj_value obj ''ipv6_gateway'';
         publicKey = obj_value obj ''public_key'';
         weight = obj_value obj ''weight'';
         portRanges = obj_value obj ''port_ranges'';
         socks5_name = obj_value obj ''socks5_name'';
         multihop_port = obj_value obj ''multihop_port''
     in if \<not> isString hostname then (False, s)
        else if \<not> isString ipv4AddrIn then (False, s)
        else if \<not> isString ipv4Gateway then (False, s)
        else if \<not> isString publicKey then (False, s)
        else if \<not> isDouble weight then (False, s)
        else if \<not> isArray portRanges then (False, s)
        else
          (case parse_port_ranges (toArray portRanges) of
             None \<Rightarrow> (False, s)
           | Some prList \<Rightarrow>
               (True,
                s\<lparr>m_hostname := toString hostname,
                  m_ipv4AddrIn := toString ipv4AddrIn,
                  m_ipv4Gateway := toString ipv4Gateway,
                  m_ipv6AddrIn := toString ipv6AddrIn,
                  m_ipv6Gateway := toString ipv6Gateway,
                  m_portRanges := prList,
                  m_publicKey := toString publicKey,
                  m_weight := word_of_int (toInt weight),
                  m_socksName := toString socks5_name,
                  m_multihopPort := word_of_int (toInt multihop_port)\<rparr>)))"

definition forcePort :: "u32 \<Rightarrow> server \<Rightarrow> server" where
  "forcePort port s = s\<lparr>m_portRanges := [(port, port)]\<rparr>"

definition fromMultihop :: "server \<Rightarrow> server \<Rightarrow> server \<Rightarrow> server" where
  "fromMultihop exitS entry s =
     forcePort (m_multihopPort exitS)
       (s\<lparr>m_hostname := m_hostname exitS,
          m_ipv4Gateway := m_ipv4Gateway exitS,
          m_ipv6Gateway := m_ipv6Gateway exitS,
          m_publicKey := m_publicKey exitS,
          m_socksName := m_socksName exitS,
          m_multihopPort := m_multihopPort exitS,
          m_ipv4AddrIn := m_ipv4AddrIn entry,
          m_ipv6AddrIn := m_ipv6AddrIn entry\<rparr>)"

definition weightSum :: "server list \<Rightarrow> u32" where
  "weightSum servers = foldl (\<lambda>acc s. acc + m_weight s) 0 servers"

fun weight_loop :: "u32 \<Rightarrow> server list \<Rightarrow> server" where
  "weight_loop r [] = emptyServer"
| "weight_loop r (s # ss) = (if m_weight s \<ge> r then s else weight_loop (r - m_weight s) ss)"

definition weightChooser :: "u32 \<Rightarrow> server list \<Rightarrow> server option" where
  "weightChooser rnd servers =
    (if servers = [] then Some emptyServer
     else if weightSum servers + 1 = 0 then None
     else Some (weight_loop (rnd mod (weightSum servers + 1)) servers))"

definition ports_length :: "(u32 \<times> u32) list \<Rightarrow> u32" where
  "ports_length ranges = foldl (\<lambda>acc (a, b). acc + (b - a + 1)) 0 ranges"

fun port_loop :: "u32 \<Rightarrow> (u32 \<times> u32) list \<Rightarrow> u32" where
  "port_loop r [] = 0"
| "port_loop r ((a, b) # rs) = (if r \<le> b - a then r + a else port_loop (r - (b - a + 1)) rs)"

definition choosePort :: "u32 \<Rightarrow> server \<Rightarrow> u32 option" where
  "choosePort rnd s =
    (if m_portRanges s = [] then Some 0
     else if ports_length (m_portRanges s) = 0 then None
     else Some (port_loop (rnd mod ports_length (m_portRanges s)) (m_portRanges s)))"

section \<open>The weighted choice\<close>

lemma foldl_plus: "foldl (\<lambda>acc x. acc + f x) a xs = a + (\<Sum>x\<leftarrow>xs. f x)"
  for a :: "'a::ab_group_add"
  by (induction xs arbitrary: a) (simp_all add: add.assoc)

lemma weightSum_Cons: "weightSum (s # ss) = m_weight s + weightSum ss"
  by (simp add: weightSum_def foldl_plus)

lemma weightSum_le: "unat (weightSum ss) \<le> (\<Sum>s\<leftarrow>ss. unat (m_weight s))"
proof (induction ss)
  case Nil
  then show ?case by (simp add: weightSum_def)
next
  case (Cons s ss)
  have "unat (m_weight s + weightSum ss) \<le> unat (m_weight s) + unat (weightSum ss)"
    by (simp add: unat_word_ariths)
  with Cons show ?case by (simp add: weightSum_Cons)
qed

lemma weightSum_unat:
  assumes "(\<Sum>s\<leftarrow>ss. unat (m_weight s)) < 2 ^ 32"
  shows "unat (weightSum ss) = (\<Sum>s\<leftarrow>ss. unat (m_weight s))"
  using assms
  by (induction ss) (simp_all add: weightSum_def [of "[]"] weightSum_Cons unat_word_ariths)

lemma unat_sub_less: "a < b \<Longrightarrow> unat (b - a) = unat b - unat (a :: 'a::len word)"
  by (simp add: unat_sub order_less_imp_le)

lemma weight_loop_mem:
  "ss \<noteq> [] \<Longrightarrow> unat r \<le> (\<Sum>s\<leftarrow>ss. unat (m_weight s)) \<Longrightarrow> weight_loop r ss \<in> set ss"
proof (induction r ss rule: weight_loop.induct)
  case (1 r)
  then show ?case by simp
next
  case (2 r s ss)
  show ?case
  proof (cases "m_weight s \<ge> r")
    case False
    then have "m_weight s < r" by simp
    then have "unat (r - m_weight s) = unat r - unat (m_weight s)"
      and "unat (m_weight s) < unat r"
      by (rule unat_sub_less) (use \<open>m_weight s < r\<close> in \<open>simp add: word_less_nat_alt\<close>)
    with "2.prems" have le: "unat (r - m_weight s) \<le> (\<Sum>s\<leftarrow>ss. unat (m_weight s))"
      and "0 < unat (r - m_weight s)" by simp_all
    then have "ss \<noteq> []" by auto
    with "2.IH" False le show ?thesis by simp
  qed simp
qed

lemma mod_Suc_le:
  assumes "w + 1 \<noteq> 0"
  shows "unat (rnd mod (w + 1)) \<le> unat (w :: u32)"
proof -
  have "unat (w + 1) = unat w + 1" using unatSuc [of w] assms by (simp add: add.commute)
  moreover have "unat rnd mod (unat w + 1) \<le> unat w" by (simp add: less_Suc_eq_le [symmetric])
  ultimately show ?thesis by (simp add: unat_mod)
qed

text \<open>Position of the draw against the partial sums of the weights.\<close>

lemma weight_loop_index:
  assumes "unat r \<le> (\<Sum>s\<leftarrow>ss. unat (m_weight s))" "ss \<noteq> []"
  shows "\<exists>i < length ss. weight_loop r ss = ss ! i \<and>
    unat r \<le> (\<Sum>s\<leftarrow>take (Suc i) ss. unat (m_weight s)) \<and>
    (i \<noteq> 0 \<longrightarrow> (\<Sum>s\<leftarrow>take i ss. unat (m_weight s)) < unat r)"
  using assms
proof (induction r ss rule: weight_loop.induct)
  case (1 r)
  then show ?case by simp
next
  case (2 r s ss)
  show ?case
  proof (cases "m_weight s \<ge> r")
    case True
    then show ?thesis by (intro exI [of _ 0]) (simp add: word_le_nat_alt)
  next
    case False
    then have lt: "m_weight s < r" by simp
    then have sub: "unat (r - m_weight s) = unat r - unat (m_weight s)"
      and less: "unat (m_weight s) < unat r"
      by (rule unat_sub_less) (use lt in \<open>simp add: word_less_nat_alt\<close>)
    with "2.prems"(1) have le: "unat (r - m_weight s) \<le> (\<Sum>s\<leftarrow>ss. unat (m_weight s))" by simp
    moreover have "ss \<noteq> []" using le sub less by auto
    ultimately obtain i where i: "i < length ss" "weight_loop (r - m_weight s) ss = ss ! i"
      "unat (r - m_weight s) \<le> (\<Sum>s\<leftarrow>take (Suc i) ss. unat (m_weight s))"
      "i \<noteq> 0 \<longrightarrow> (\<Sum>s\<leftarrow>take i ss. unat (m_weight s)) < unat (r - m_weight s)"
      using "2.IH" False by blast
    then have "(\<Sum>s\<leftarrow>take i ss. unat (m_weight s)) < unat (r - m_weight s)"
      using sub less by (cases "i = 0") simp_all
    then have "unat (m_weight s) + (\<Sum>s\<leftarrow>take i ss. unat (m_weight s)) < unat r"
      "unat r \<le> unat (m_weight s) + (\<Sum>s\<leftarrow>take (Suc i) ss. unat (m_weight s))"
      using i(3) sub by arith+
    with i False show ?thesis by (intro exI [of _ "Suc i"]) simp
  qed
qed

section \<open>The choice of a port\<close>

definition wf_ranges :: "(u32 \<times> u32) list \<Rightarrow> bool" where
  "wf_ranges rs \<longleftrightarrow> (\<forall>(a, b) \<in> set rs. a \<le> b \<and> unat b < 65536) \<and>
     (\<Sum>(a, b)\<leftarrow>rs. unat b - unat a + 1) < 65536"

lemma range_size:
  fixes a b :: u32
  assumes "a \<le> b" "unat b < 65536"
  shows "unat (b - a + 1) = unat b - unat a + 1" "unat (b - a) = unat b - unat a"
  using assms by (simp_all add: unat_word_ariths unat_sub)

lemma ports_length_Cons: "ports_length ((a, b) # rs) = (b - a + 1) + ports_length rs"
proof -
  have "ports_length xs = (\<Sum>(a, b)\<leftarrow>xs. b - a + 1)" for xs
    using foldl_plus [of "\<lambda>(a, b). b - a + 1" 0 xs]
    by (simp add: ports_length_def case_prod_unfold)
  then show ?thesis by simp
qed

lemma ports_length_unat:
  "wf_ranges rs \<Longrightarrow> unat (ports_length rs) = (\<Sum>(a, b)\<leftarrow>rs. unat b - unat a + 1)"
proof (induction rs)
  case Nil
  then show ?case by (simp add: ports_length_def)
next
  case (Cons x rs)
  obtain a b where x: "x = (a, b)" by fastforce
  from Cons.prems x have wf: "wf_ranges rs" and ab: "a \<le> b" "unat b < 65536"
    and tot: "unat b - unat a + 1 + (\<Sum>(a, b)\<leftarrow>rs. unat b - unat a + 1) < 65536"
    by (auto simp: wf_ranges_def)
  show ?case
    using Cons.IH [OF wf] tot
    by (simp add: x ports_length_Cons unat_word_ariths(1) range_size [OF ab])
qed

lemma port_loop_mem:
  assumes "wf_ranges rs" "unat r < (\<Sum>(a, b)\<leftarrow>rs. unat b - unat a + 1)"
  shows "\<exists>(a, b) \<in> set rs. a \<le> port_loop r rs \<and> port_loop r rs \<le> b"
  using assms
proof (induction r rs rule: port_loop.induct)
  case (1 r)
  then show ?case by simp
next
  case (2 r a b rs)
  from "2.prems" have wf: "wf_ranges rs" and ab: "a \<le> b" "unat b < 65536"
    by (auto simp: wf_ranges_def)
  show ?case
  proof (cases "r \<le> b - a")
    case True
    then have "unat r \<le> unat b - unat a" by (simp add: word_le_nat_alt range_size [OF ab])
    moreover have "unat a \<le> unat b" using ab by (simp add: word_le_nat_alt)
    ultimately have "unat (r + a) = unat r + unat a" "unat r + unat a \<le> unat b"
      using ab by (auto simp: unat_word_ariths)
    then have "a \<le> r + a" "r + a \<le> b" by (simp_all add: word_le_nat_alt)
    with True show ?thesis by auto
  next
    case False
    then have "b - a < r" by simp
    then have lt: "unat b - unat a < unat r" by (simp add: word_less_nat_alt range_size [OF ab])
    then have "b - a + 1 \<le> r" by (simp add: word_le_nat_alt range_size [OF ab])
    then have "unat (r - (b - a + 1)) = unat r - (unat b - unat a + 1)"
      by (simp only: unat_sub range_size [OF ab])
    then have "unat (r - (b - a + 1)) < (\<Sum>(a, b)\<leftarrow>rs. unat b - unat a + 1)"
      using "2.prems"(2) lt by simp
    from "2.IH" [OF False wf this] False show ?thesis by auto
  qed
qed

lemma port_loop_surj:
  assumes "wf_ranges rs" "(a, b) \<in> set rs" "a \<le> p" "p \<le> b"
  shows "\<exists>r. unat r < (\<Sum>(a, b)\<leftarrow>rs. unat b - unat a + 1) \<and>
     (\<exists>(c, d) \<in> set rs. c \<le> p \<and> p \<le> d) \<and> port_loop r rs = p"
  using assms
proof (induction rs)
  case Nil
  then show ?case by simp
next
  case (Cons x rs)
  obtain c d where x: "x = (c, d)" by fastforce
  from Cons.prems x have wf: "wf_ranges rs" and cd: "c \<le> d" "unat d < 65536"
    and tot: "unat d - unat c + 1 + (\<Sum>(a, b)\<leftarrow>rs. unat b - unat a + 1) < 65536"
    by (auto simp: wf_ranges_def)
  have mem: "\<exists>(c, d) \<in> set (x # rs). c \<le> p \<and> p \<le> d" using Cons.prems by blast
  show ?case
  proof (cases "(a, b) = x")
    case True
    with Cons.prems x have p: "c \<le> p" "p \<le> d" by simp_all
    then have "p - c \<le> d - c" and "unat (p - c) \<le> unat d - unat c"
      using cd by (simp_all add: word_le_nat_alt unat_sub)
    then show ?thesis using mem by (intro exI [of _ "p - c"]) (auto simp: x)
  next
    case False
    with Cons.prems have "(a, b) \<in> set rs" by auto
    from Cons.IH [OF wf this Cons.prems(3,4)] obtain r
      where r: "unat r < (\<Sum>(a, b)\<leftarrow>rs. unat b - unat a + 1)" "port_loop r rs = p" by blast
    let ?r = "r + (d - c + 1)"
    have u: "unat ?r = unat r + (unat d - unat c + 1)"
      using r(1) tot by (simp add: unat_word_ariths(1) range_size [OF cd])
    then have "\<not> ?r \<le> d - c" by (simp add: word_le_nat_alt range_size [OF cd])
    then have "port_loop ?r (x # rs) = p" using r(2) by (simp add: x)
    then show ?thesis using mem u r(1) by (intro exI [of _ ?r]) (simp add: x)
  qed
qed

lemma choosePort_defined:
  assumes "wf_ranges (m_portRanges s)" "m_portRanges s \<noteq> []"
  shows "ports_length (m_portRanges s) \<noteq> 0"
proof -
  from assms(2) obtain x rs where "m_portRanges s = x # rs" by (cases "m_portRanges s") auto
  then have "0 < unat (ports_length (m_portRanges s))"
    using ports_length_unat [OF assms(1)] by (cases x) simp
  then show ?thesis by auto
qed

lemma parse_port_ranges_length:
  "parse_port_ranges vs = Some rs \<Longrightarrow> length rs = length vs"
  by (induction vs arbitrary: rs) (auto split: json.splits list.splits if_splits)

section \<open>Properties\<close>

text \<open>
  \<^verbatim>\<open>Server::weightChooser\<close>: for a non-empty list whose 32-bit weight sum is not the all-ones
  word, every draw of the generator selects a member of the list (the closing assertion of the loop is
  unreachable even when the sum wraps), namely the one whose interval of the partial sums of
  weights holds the reduced draw; only in the remaining case is the divisor zero.\<close>

theorem weightChooser_interval:
  assumes "servers \<noteq> []"
  shows "case weightChooser rnd servers of
      None \<Rightarrow> weightSum servers = - 1
    | Some s \<Rightarrow> weightSum servers \<noteq> - 1 \<and>
       (\<exists>i < length servers. s = servers ! i \<and>
         unat (rnd mod (weightSum servers + 1)) \<le> (\<Sum>s\<leftarrow>take (Suc i) servers. unat (m_weight s)) \<and>
         (i = 0 \<or>
          (\<Sum>s\<leftarrow>take i servers. unat (m_weight s)) < unat (rnd mod (weightSum servers + 1))))"
proof (cases "weightSum servers + 1 = 0")
  case True
  then show ?thesis using assms by (simp add: weightChooser_def add_eq_0_iff2)
next
  case False
  then have "unat (rnd mod (weightSum servers + 1)) \<le> (\<Sum>s\<leftarrow>servers. unat (m_weight s))"
    using mod_Suc_le weightSum_le order_trans by blast
  from weight_loop_index [OF this assms] False assms show ?thesis
    by (auto simp: weightChooser_def)
qed

theorem weightChooser_interval_witness:
  "\<exists>i < 2. weightChooser 9
     [emptyServer\<lparr>m_weight := 3\<rparr>, emptyServer\<lparr>m_weight := 4\<rparr>] =
     Some ([emptyServer\<lparr>m_weight := 3\<rparr>, emptyServer\<lparr>m_weight := 4\<rparr>] ! i)"
proof -
  let ?ss = "[emptyServer\<lparr>m_weight := 3\<rparr>, emptyServer\<lparr>m_weight := 4\<rparr>]"
  have "weightSum ?ss \<noteq> - 1" by (simp add: weightSum_def)
  with weightChooser_interval [of ?ss 9] obtain i
    where "i < length ?ss" "weightChooser 9 ?ss = Some (?ss ! i)"
    by (auto split: option.splits)
  then show ?thesis by (intro exI [of _ i]) simp
qed

text \<open>
  \<^verbatim>\<open>Server::choosePort\<close>: on non-empty ranges of ordered 16-bit bounds with fewer than 65536 ports
  in all (the assertions of the source), every draw gives a port of one of the ranges, and every
  port of every range is given by some draw.\<close>

theorem choosePort_exact:
  assumes "wf_ranges (m_portRanges s)" "m_portRanges s \<noteq> []"
  shows "((\<exists>rnd. choosePort rnd s = Some p) \<longleftrightarrow>
           (\<exists>(a, b) \<in> set (m_portRanges s). a \<le> p \<and> p \<le> b)) \<and>
         choosePort rnd s \<noteq> None"
proof (intro conjI)
  let ?rs = "m_portRanges s"
  let ?n = "ports_length ?rs"
  have n: "?n \<noteq> 0" by (rule choosePort_defined [OF assms])
  then have def: "choosePort rnd s = Some (port_loop (rnd mod ?n) ?rs)" for rnd
    using assms(2) by (simp add: choosePort_def)
  then show "choosePort rnd s \<noteq> None" by simp
  have len: "unat ?n = (\<Sum>(a, b)\<leftarrow>?rs. unat b - unat a + 1)" by (rule ports_length_unat [OF assms(1)])
  show "(\<exists>rnd. choosePort rnd s = Some p) \<longleftrightarrow> (\<exists>(a, b) \<in> set ?rs. a \<le> p \<and> p \<le> b)"
  proof
    assume "\<exists>rnd. choosePort rnd s = Some p"
    then obtain rnd where p: "p = port_loop (rnd mod ?n) ?rs" using def by auto
    have "rnd mod ?n < ?n" using n by (simp add: word_mod_less_divisor word_gt_0)
    then have "unat (rnd mod ?n) < unat ?n" by (simp add: word_less_nat_alt)
    then show "\<exists>(a, b) \<in> set ?rs. a \<le> p \<and> p \<le> b"
      unfolding p len by (rule port_loop_mem [OF assms(1)])
  next
    assume "\<exists>(a, b) \<in> set ?rs. a \<le> p \<and> p \<le> b"
    then obtain r where r: "unat r < unat ?n" "port_loop r ?rs = p"
      unfolding len using port_loop_surj [OF assms(1)] by fast
    then have "r mod ?n = r" by (simp add: word_less_nat_alt mod_word_less)
    with r(2) def show "\<exists>rnd. choosePort rnd s = Some p" by metis
  qed
qed

theorem choosePort_exact_witness:
  "choosePort 7 (emptyServer\<lparr>m_portRanges := [(53, 53), (4000, 33433)]\<rparr>) \<noteq> None \<and>
   (\<exists>rnd. choosePort rnd (emptyServer\<lparr>m_portRanges := [(53, 53), (4000, 33433)]\<rparr>) = Some 53)"
  using choosePort_exact [of "emptyServer\<lparr>m_portRanges := [(53, 53), (4000, 33433)]\<rparr>"]
  by (simp add: wf_ranges_def)

end
