(* ===== verification/ServerCountryModel.thy ===== *)
theory ServerCountryModel
  imports Server
begin

text \<open>
  Model of \<^verbatim>\<open>servercity.cpp\<close> (parsing and hash keys), \<^verbatim>\<open>servercountry.cpp\<close> and
  \<^verbatim>\<open>servercountrymodel.cpp\<close> under \<^verbatim>\<open>src/src/models\<close>: the tree of countries and cities and the two
  hash tables, read from the JSON document of the server list.  The hash tables are association
  lists written with \<^const>\<open>AList.update\<close>.  A failing read returns the partly filled
  tables it leaves behind, as the source does.  Parameters: \<open>parseDoc\<close> (text to JSON), \<open>inProd\<close>
  (\<^verbatim>\<open>Constants::inProduction\<close>), \<open>ltCity\<close> and \<open>ltCountry\<close> (collation of the localised names).
\<close>

section \<open>Cities\<close>

record server_city =
  c_country :: string
  c_name :: string
  c_code :: string
  c_hashKey :: string
  c_latitude :: real
  c_longitude :: real
  c_servers :: "string list"

definition emptyCity :: server_city where
  "emptyCity = \<lparr>c_country = [], c_name = [], c_code = [], c_hashKey = [], c_latitude = 0,
     c_longitude = 0, c_servers = []\<rparr>"

definition city_initialized :: "server_city \<Rightarrow> bool" where
  "city_initialized c = (c_name c \<noteq> [])"

definition hashKey :: "string \<Rightarrow> string \<Rightarrow> string" where
  "hashKey country cityName = cityName @ '','' @ country"

text \<open>\<^verbatim>\<open>ServerCity::operator=\<close>: every field but the hash key.\<close>

definition city_assign :: "server_city \<Rightarrow> server_city \<Rightarrow> server_city" where
  "city_assign this other =
     this\<lparr>c_name := c_name other, c_code := c_code other, c_country := c_country other,
          c_latitude := c_latitude other, c_longitude := c_longitude other,
          c_servers := c_servers other\<rparr>"

fun city_pubkeys :: "json list \<Rightarrow> string list option" where
  "city_pubkeys [] = Some []"
| "city_pubkeys (v # vs) =
    (if \<not> isObject v then None
     else let pubkeyValue = obj_value (toObject v) ''public_key''
          in if \<not> isString pubkeyValue then None
             else map_option ((#) (toString pubkeyValue)) (city_pubkeys vs))"

definition ServerCity_fromJson ::
    "bool \<Rightarrow> json_object \<Rightarrow> string \<Rightarrow> server_city \<Rightarrow> bool \<times> server_city" where
  "ServerCity_fromJson inProd obj country c =
    (let name = obj_value obj ''name'';
         code = obj_value obj ''code'';
         latitude = obj_value obj ''latitude'';
         longitude = obj_value obj ''longitude'';
         serversValue = obj_value obj ''servers''
     in if \<not> isString name then (False, c)
        else if \<not> isString code then (False, c)
        else if \<not> isDouble latitude then (False, c)
        else if \<not> isDouble longitude then (False, c)
        else if \<not> isArray serversValue then (False, c)
        else
          (case (if \<not> inProd \<or> \<not> str_contains (toString name) ''BETA''
                 then city_pubkeys (toArray serversValue) else Some []) of
             None \<Rightarrow> (False, c)
           | Some servers \<Rightarrow>
               (True,
                c\<lparr>c_name := toString name, c_code := toString code, c_country := country,
                  c_hashKey := hashKey country (toString name),
                  c_latitude := toDouble latitude, c_longitude := toDouble longitude,
                  c_servers := servers\<rparr>)))"

section \<open>Countries\<close>

record server_country =
  k_name :: string
  k_code :: string
  k_cities :: "string list"

definition emptyCountry :: server_country where
  "emptyCountry = \<lparr>k_name = [], k_code = [], k_cities = []\<rparr>"

fun country_cityNames :: "json list \<Rightarrow> string list option" where
  "country_cityNames [] = Some []"
| "country_cityNames (v # vs) =
    (if \<not> isObject v then None
     else let cityName = toString (obj_value (toObject v) ''name'')
          in if cityName = [] then None
             else map_option ((#) cityName) (country_cityNames vs))"

definition sortCities :: "(string \<Rightarrow> string \<Rightarrow> bool) \<Rightarrow> server_country \<Rightarrow> server_country" where
  "sortCities ltCity k = k\<lparr>k_cities := std_sort ltCity (k_cities k)\<rparr>"

definition ServerCountry_fromJson ::
    "(string \<Rightarrow> string \<Rightarrow> bool) \<Rightarrow> json_object \<Rightarrow> server_country \<Rightarrow> bool \<times> server_country" where
  "ServerCountry_fromJson ltCity countryObj k =
    (let countryName = obj_value countryObj ''name'';
         countryCode = obj_value countryObj ''code'';
         cities = obj_value countryObj ''cities''
     in if \<not> isString countryName then (False, k)
        else if \<not> isString countryCode then (False, k)
        else if \<not> isArray cities then (False, k)
        else
          (case country_cityNames (toArray cities) of
             None \<Rightarrow> (False, k)
           | Some cityNames \<Rightarrow>
               (True, sortCities ltCity
                  (k\<lparr>k_name := toString countryName, k_code := toString countryCode,
                     k_cities := cityNames\<rparr>))))"

section \<open>The model of the server list\<close>

record server_country_model =
  m_rawJson :: string
  m_countries :: "server_country list"
  m_cities :: "(string \<times> server_city) list"
  m_servers :: "(string \<times> server) list"

definition emptyModel :: server_country_model where
  "emptyModel = \<lparr>m_rawJson = [], m_countries = [], m_cities = [], m_servers = []\<rparr>"

definition scm_initialized :: "server_country_model \<Rightarrow> bool" where
  "scm_initialized scm = (m_rawJson scm \<noteq> [])"

text \<open>The three nested loops of \<^verbatim>\<open>fromJsonInternal\<close>, innermost first.\<close>

fun load_servers ::
    "string \<Rightarrow> string \<Rightarrow> json list \<Rightarrow> server_country_model \<Rightarrow> bool \<times> server_country_model" where
  "load_servers code cityName [] scm = (True, scm)"
| "load_servers code cityName (v # vs) scm =
    (let (ok, server) = Server_fromJson (toObject v) (Server_of_place code cityName)
     in if \<not> ok then (False, scm)
        else load_servers code cityName vs
               (scm\<lparr>m_servers := AList.update (m_publicKey server) server (m_servers scm)\<rparr>))"

text \<open>\<^verbatim>\<open>m_cities[city.hashKey()] = city\<close>: a missing entry is default-constructed, then assigned.\<close>

definition put_city :: "server_city \<Rightarrow> server_country_model \<Rightarrow> server_country_model" where
  "put_city city scm =
    (let slot = (case map_of (m_cities scm) (c_hashKey city) of None \<Rightarrow> emptyCity | Some c \<Rightarrow> c)
     in scm\<lparr>m_cities := AList.update (c_hashKey city) (city_assign slot city) (m_cities scm)\<rparr>)"

fun load_cities ::
    "bool \<Rightarrow> string \<Rightarrow> json list \<Rightarrow> server_country_model \<Rightarrow> bool \<times> server_country_model" where
  "load_cities inProd code [] scm = (True, scm)"
| "load_cities inProd code (v # vs) scm =
    (if \<not> isObject v then (False, scm)
     else let servers = obj_value (toObject v) ''servers''
          in if \<not> isArray servers then (False, scm)
             else let (ok, city) = ServerCity_fromJson inProd (toObject v) code emptyCity
                  in if \<not> ok then (False, scm)
                     else let (ok', scm') = load_servers code (c_name city) (toArray servers)
                                              (put_city city scm)
                          in if \<not> ok' then (False, scm') else load_cities inProd code vs scm')"

fun load_countries ::
    "bool \<Rightarrow> (string \<Rightarrow> string \<Rightarrow> bool) \<Rightarrow> json list \<Rightarrow> server_country_model \<Rightarrow>
     bool \<times> server_country_model" where
  "load_countries inProd ltCity [] scm = (True, scm)"
| "load_countries inProd ltCity (v # vs) scm =
    (if \<not> isObject v then (False, scm)
     else let (ok, country) = ServerCountry_fromJson ltCity (toObject v) emptyCountry
          in if \<not> ok then (False, scm)
             else if k_cities country = [] then load_countries inProd ltCity vs scm
             else let scm' = scm\<lparr>m_countries := m_countries scm @ [country]\<rparr>;
                      cities = obj_value (toObject v) ''cities''
                  in if \<not> isArray cities then (False, scm')
                     else let (ok', scm'') = load_cities inProd (k_code country) (toArray cities) scm'
                          in if \<not> ok' then (False, scm'')
                             else load_countries inProd ltCity vs scm'')"

definition sortCountries ::
    "(string \<Rightarrow> string \<Rightarrow> bool) \<Rightarrow> (server_country \<Rightarrow> server_country \<Rightarrow> bool) \<Rightarrow>
     server_country_model \<Rightarrow> server_country_model" where
  "sortCountries ltCity ltCountry scm =
     scm\<lparr>m_countries := map (sortCities ltCity) (std_sort ltCountry (m_countries scm))\<rparr>"

definition fromJsonInternal ::
    "(string \<Rightarrow> json) \<Rightarrow> bool \<Rightarrow> (string \<Rightarrow> string \<Rightarrow> bool) \<Rightarrow>
     (server_country \<Rightarrow> server_country \<Rightarrow> bool) \<Rightarrow> string \<Rightarrow> bool \<times> server_country_model" where
  "fromJsonInternal parseDoc inProd ltCity ltCountry s =
    (let doc = parseDoc s
     in if \<not> isObject doc then (False, emptyModel)
        else let countries = obj_value (toObject doc) ''countries''
             in if \<not> isArray countries then (False, emptyModel)
                else let (ok, scm) = load_countries inProd ltCity (toArray countries) emptyModel
                     in if \<not> ok then (False, scm) else (True, sortCountries ltCity ltCountry scm))"

text \<open>
  \<^verbatim>\<open>fromJson\<close> returns its result, whether \<^verbatim>\<open>changed\<close> was emitted, and the model;
  \<^verbatim>\<open>fromSettings\<close> reads the stored document and emits nothing.
\<close>

definition scm_fromJson ::
    "(string \<Rightarrow> json) \<Rightarrow> bool \<Rightarrow> (string \<Rightarrow> string \<Rightarrow> bool) \<Rightarrow>
     (server_country \<Rightarrow> server_country \<Rightarrow> bool) \<Rightarrow> string \<Rightarrow> server_country_model \<Rightarrow>
     bool \<times> bool \<times> server_country_model" where
  "scm_fromJson parseDoc inProd ltCity ltCountry s scm =
    (if s \<noteq> [] \<and> m_rawJson scm = s then (True, False, scm)
     else let (ok, scm') = fromJsonInternal parseDoc inProd ltCity ltCountry s
          in if \<not> ok then (False, False, scm')
             else (True, True, scm'\<lparr>m_rawJson := s\<rparr>))"

definition scm_fromSettings ::
    "(string \<Rightarrow> json) \<Rightarrow> bool \<Rightarrow> (string \<Rightarrow> string \<Rightarrow> bool) \<Rightarrow>
     (server_country \<Rightarrow> server_country \<Rightarrow> bool) \<Rightarrow> string \<Rightarrow> server_country_model \<Rightarrow>
     bool \<times> server_country_model" where
  "scm_fromSettings parseDoc inProd ltCity ltCountry stored scm =
    (if stored = [] then (False, scm)
     else let (ok, scm') = fromJsonInternal parseDoc inProd ltCity ltCountry stored
          in if \<not> ok then (False, scm') else (True, scm'\<lparr>m_rawJson := stored\<rparr>))"

definition scm_exists :: "server_country_model \<Rightarrow> string \<Rightarrow> string \<Rightarrow> bool" where
  "scm_exists scm countryCode cityName =
     (map_of (m_cities scm) (hashKey countryCode cityName) \<noteq> None)"

definition findCity :: "server_country_model \<Rightarrow> string \<Rightarrow> string \<Rightarrow> server_city" where
  "findCity scm countryCode cityName =
     (case map_of (m_cities scm) (hashKey countryCode cityName) of
        None \<Rightarrow> emptyCity | Some c \<Rightarrow> c)"

definition scm_server :: "server_country_model \<Rightarrow> string \<Rightarrow> server" where
  "scm_server scm pubkey =
     (case map_of (m_servers scm) pubkey of None \<Rightarrow> emptyServer | Some s \<Rightarrow> s)"

definition countryName :: "server_country_model \<Rightarrow> string \<Rightarrow> string" where
  "countryName scm countryCode =
     (case find (\<lambda>k. k_code k = countryCode) (m_countries scm) of None \<Rightarrow> [] | Some k \<Rightarrow> k_name k)"

definition pickBest :: "server_city list \<Rightarrow> string list" where
  "pickBest recommended =
     (case recommended of [] \<Rightarrow> [] | city # _ \<Rightarrow> [c_country city, c_name city])"

text \<open>\<^verbatim>\<open>CitiesRole\<close> of \<^verbatim>\<open>data\<close>: the cities of a country that the table still knows.\<close>

definition data_cities :: "server_country_model \<Rightarrow> nat \<Rightarrow> server_city list option" where
  "data_cities scm row =
    (if row \<ge> length (m_countries scm) then None
     else let country = m_countries scm ! row
          in Some (filter city_initialized (map (findCity scm (k_code country)) (k_cities country))))"

text \<open>
  \<^verbatim>\<open>setCooldownForAllServersInACity\<close>, with the cooldown operation of the latency component as an
  argument.  Cities are selected by their code alone; the country code is not consulted.
\<close>

definition setCooldownForAllServersInACity ::
    "(string \<Rightarrow> 'l \<Rightarrow> 'l) \<Rightarrow> string \<Rightarrow> string \<Rightarrow> server_country_model \<Rightarrow> 'l \<Rightarrow> 'l" where
  "setCooldownForAllServersInACity setCooldown countryCode cityCode scm l =
     fold (\<lambda>(_, city) l.
        if c_code city \<noteq> cityCode then l else fold setCooldown (c_servers city) l)
       (m_cities scm) l"

section \<open>Consistency of the tables\<close>

text \<open>
  The tables refer to each other by keys: servers and cities are filed under their own key, the
  public keys a city lists are in the server table, and every country lists at least one city,
  all of them in the city table.
\<close>

definition servers_filed :: "server_country_model \<Rightarrow> bool" where
  "servers_filed scm \<longleftrightarrow> (\<forall>pk s. map_of (m_servers scm) pk = Some s \<longrightarrow> m_publicKey s = pk)"

definition cities_filed :: "server_country_model \<Rightarrow> bool" where
  "cities_filed scm \<longleftrightarrow>
     (\<forall>key c. map_of (m_cities scm) key = Some c \<longrightarrow> key = hashKey (c_country c) (c_name c))"

definition pubkeys_known :: "server_country_model \<Rightarrow> bool" where
  "pubkeys_known scm \<longleftrightarrow>
     (\<forall>key c. map_of (m_cities scm) key = Some c \<longrightarrow>
        (\<forall>pk \<in> set (c_servers c). map_of (m_servers scm) pk \<noteq> None))"

definition countries_known :: "server_country_model \<Rightarrow> bool" where
  "countries_known scm \<longleftrightarrow>
     (\<forall>k \<in> set (m_countries scm). k_cities k \<noteq> [] \<and>
        (\<forall>n \<in> set (k_cities k). n \<noteq> [] \<and> scm_exists scm (k_code k) n))"

lemmas consistency_defs = servers_filed_def cities_filed_def pubkeys_known_def countries_known_def

lemma Server_fromJson_pubkey:
  "Server_fromJson obj s = (True, s') \<Longrightarrow>
     isString (obj_value obj ''public_key'') \<and> m_publicKey s' = toString (obj_value obj ''public_key'') \<and>
     m_countryCode s' = m_countryCode s \<and> m_cityName s' = m_cityName s"
  by (auto simp: Server_fromJson_def Let_def split: if_splits option.splits)

lemma load_servers_frame [frame_simps]:
  "load_servers code cn vs scm = (ok, scm') \<Longrightarrow>
     m_cities scm' = m_cities scm \<and> m_countries scm' = m_countries scm \<and> m_rawJson scm' = m_rawJson scm"
  by (induction code cn vs scm rule: load_servers.induct)
    (auto simp: Let_def split: prod.splits if_splits)

lemma load_servers_keys:
  "load_servers code cn vs scm = (ok, scm') \<Longrightarrow>
     fst ` set (m_servers scm) \<subseteq> fst ` set (m_servers scm')"
  by (induction code cn vs scm rule: load_servers.induct)
    (auto simp: Let_def dom_update split: prod.splits if_splits)

lemma load_servers_dom:
  "load_servers code cn vs scm = (ok, scm') \<Longrightarrow> map_of (m_servers scm) pk \<noteq> None \<Longrightarrow>
     map_of (m_servers scm') pk \<noteq> None"
  using load_servers_keys [of code cn vs scm ok scm'] unfolding map_of_eq_None_iff by blast

lemma servers_filed_update [inv_intros]:
  "servers_filed scm \<Longrightarrow>
     servers_filed (scm\<lparr>m_servers := AList.update (m_publicKey s) s (m_servers scm)\<rparr>)"
  by (simp add: servers_filed_def update_conv)

lemma load_servers_filed:
  "load_servers code cn vs scm = (ok, scm') \<Longrightarrow> servers_filed scm \<Longrightarrow> servers_filed scm'"
  by (induction code cn vs scm rule: load_servers.induct)
    (auto simp: Let_def intro: inv_intros split: prod.splits if_splits)

lemma load_servers_pubkeys:
  "load_servers code cn vs scm = (True, scm') \<Longrightarrow> city_pubkeys vs = Some pks \<Longrightarrow> pk \<in> set pks \<Longrightarrow>
     map_of (m_servers scm') pk \<noteq> None"
proof (induction code cn vs scm arbitrary: pks rule: load_servers.induct)
  case (1 code cn scm)
  then show ?case by simp
next
  case (2 code cn v vs scm)
  obtain ok s where s: "Server_fromJson (toObject v) (Server_of_place code cn) = (ok, s)" by fastforce
  from "2.prems"(1) s have ok: ok by (auto split: if_splits)
  let ?scm = "scm\<lparr>m_servers := AList.update (m_publicKey s) s (m_servers scm)\<rparr>"
  from "2.prems"(1) s ok have rest: "load_servers code cn vs ?scm = (True, scm')" by simp
  from "2.prems"(2) obtain pks' where pks: "city_pubkeys vs = Some pks'"
    "pks = toString (obj_value (toObject v) ''public_key'') # pks'"
    by (auto simp: Let_def split: if_splits)
  show ?case
  proof (cases "pk \<in> set pks'")
    case True
    then show ?thesis using "2.IH" [OF s [symmetric] refl] ok rest pks(1) by blast
  next
    case False
    then have "pk = m_publicKey s"
      using "2.prems"(3) pks(2) Server_fromJson_pubkey [of "toObject v" _ s] s ok by auto
    then show ?thesis using load_servers_dom [OF rest, of pk] by (simp add: update_conv)
  qed
qed

lemma ServerCity_fromJson_ok:
  assumes "ServerCity_fromJson inProd obj country c = (True, c')"
  shows "c_country c' = country" "c_name c' = toString (obj_value obj ''name'')"
    "c_hashKey c' = hashKey country (c_name c')"
    "c_servers c' = [] \<or> city_pubkeys (toArray (obj_value obj ''servers'')) = Some (c_servers c')"
  using assms
  by (auto simp: ServerCity_fromJson_def Let_def split: if_splits option.splits)

lemma put_city_frame [simp]:
  "m_servers (put_city c scm) = m_servers scm" "m_countries (put_city c scm) = m_countries scm"
  "m_rawJson (put_city c scm) = m_rawJson scm"
  by (simp_all add: put_city_def Let_def)

lemma put_city_lookup:
  "map_of (m_cities (put_city c scm)) key =
     (if key = c_hashKey c
      then Some (city_assign (case map_of (m_cities scm) key of None \<Rightarrow> emptyCity | Some c \<Rightarrow> c) c)
      else map_of (m_cities scm) key)"
  by (simp add: put_city_def Let_def update_conv)

lemma city_assign_simps [simp]:
  "c_name (city_assign a b) = c_name b" "c_code (city_assign a b) = c_code b"
  "c_country (city_assign a b) = c_country b" "c_servers (city_assign a b) = c_servers b"
  "c_hashKey (city_assign a b) = c_hashKey a"
  by (simp_all add: city_assign_def)

definition tables_ok :: "server_country_model \<Rightarrow> bool" where
  "tables_ok scm \<longleftrightarrow> servers_filed scm \<and> cities_filed scm \<and> pubkeys_known scm"

text \<open>One city: filed under its key, with all its servers.\<close>

lemma load_city_step:
  assumes city: "ServerCity_fromJson inProd obj code emptyCity = (True, city)"
    and servers: "load_servers code (c_name city) (toArray (obj_value obj ''servers'')) (put_city city scm)
        = (True, scm')"
    and ok: "tables_ok scm"
  shows "tables_ok scm'"
proof -
  note c = ServerCity_fromJson_ok [OF city]
  note fr = load_servers_frame [OF servers]
  have "servers_filed scm'"
    using ok by (intro load_servers_filed [OF servers]) (simp add: tables_ok_def servers_filed_def)
  moreover have "cities_filed scm'"
    using ok c(1,3) by (auto simp: tables_ok_def cities_filed_def fr put_city_lookup)
  moreover have "pubkeys_known scm'"
    unfolding pubkeys_known_def
  proof (intro allI impI ballI)
    fix key d pk
    assume d: "map_of (m_cities scm') key = Some d" and pk: "pk \<in> set (c_servers d)"
    show "map_of (m_servers scm') pk \<noteq> None"
    proof (cases "key = c_hashKey city")
      case True
      then have "c_servers d = c_servers city" using d by (auto simp: fr put_city_lookup)
      then have "city_pubkeys (toArray (obj_value obj ''servers'')) = Some (c_servers d)"
        using c(4) pk by auto
      then show ?thesis using load_servers_pubkeys [OF servers] pk by blast
    next
      case False
      then have "map_of (m_servers scm) pk \<noteq> None"
        using ok d pk by (auto simp: tables_ok_def pubkeys_known_def fr put_city_lookup)
      then show ?thesis using load_servers_dom [OF servers] by simp
    qed
  qed
  ultimately show ?thesis by (simp add: tables_ok_def)
qed

lemma load_cities_ok:
  "load_cities inProd code vs scm = (True, scm') \<Longrightarrow> tables_ok scm \<Longrightarrow>
     tables_ok scm' \<and> m_countries scm' = m_countries scm \<and> m_rawJson scm' = m_rawJson scm \<and>
     (\<forall>key. map_of (m_cities scm) key \<noteq> None \<longrightarrow> map_of (m_cities scm') key \<noteq> None) \<and>
     (\<forall>v \<in> set vs. scm_exists scm' code (toString (obj_value (toObject v) ''name'')))"
proof (induction inProd code vs scm rule: load_cities.induct)
  case (1 inProd code scm)
  then show ?case by simp
next
  case (2 inProd code v vs scm)
  obtain ok city where city: "ServerCity_fromJson inProd (toObject v) code emptyCity = (ok, city)"
    by fastforce
  obtain ok' scm1 where servers: "load_servers code (c_name city)
      (toArray (obj_value (toObject v) ''servers'')) (put_city city scm) = (ok', scm1)" by fastforce
  from "2.prems"(1) city servers have oks: ok ok' "isObject v" "isArray (obj_value (toObject v) ''servers'')"
    and rest: "load_cities inProd code vs scm1 = (True, scm')"
    by (auto simp: Let_def split: if_splits)
  note c = ServerCity_fromJson_ok [OF city [unfolded eqTrueI [OF oks(1)]]]
  note fr = load_servers_frame [OF servers]
  have "tables_ok scm1" using load_city_step [of inProd "toObject v" code city scm scm1] city servers oks "2.prems"(2)
    by simp
  with "2.IH" [OF _ refl _ city [symmetric] refl _ servers [symmetric] refl] oks rest
  have IH: "tables_ok scm' \<and> m_countries scm' = m_countries scm1 \<and> m_rawJson scm' = m_rawJson scm1 \<and>
     (\<forall>key. map_of (m_cities scm1) key \<noteq> None \<longrightarrow> map_of (m_cities scm') key \<noteq> None) \<and>
     (\<forall>v \<in> set vs. scm_exists scm' code (toString (obj_value (toObject v) ''name'')))" by blast
  have dom: "map_of (m_cities scm1) key \<noteq> None \<longleftrightarrow> key = c_hashKey city \<or> map_of (m_cities scm) key \<noteq> None" for key
    by (simp add: fr put_city_lookup)
  have "scm_exists scm' code (toString (obj_value (toObject v) ''name''))"
    using IH dom c(2,3) by (simp add: scm_exists_def)
  with IH dom fr show ?case by simp
qed

lemma country_cityNames_ok:
  "country_cityNames vs = Some ns \<Longrightarrow>
     [] \<notin> set ns \<and> ns = map (\<lambda>v. toString (obj_value (toObject v) ''name'')) vs"
  by (induction vs arbitrary: ns) (auto simp: Let_def split: if_splits)

lemma ServerCountry_fromJson_ok:
  assumes "ServerCountry_fromJson ltCity obj k = (True, k')"
  shows "isArray (obj_value obj ''cities'')"
    "set (k_cities k') =
       (\<lambda>v. toString (obj_value (toObject v) ''name'')) ` set (toArray (obj_value obj ''cities''))"
    "[] \<notin> set (k_cities k')"
  using assms
  by (auto simp: ServerCountry_fromJson_def Let_def sortCities_def dest: country_cityNames_ok
      split: if_splits option.splits)

lemma countries_known_mono:
  assumes "countries_known scm"
    and "\<forall>key. map_of (m_cities scm) key \<noteq> None \<longrightarrow> map_of (m_cities scm') key \<noteq> None"
  shows "\<forall>k \<in> set (m_countries scm). k_cities k \<noteq> [] \<and>
        (\<forall>n \<in> set (k_cities k). n \<noteq> [] \<and> scm_exists scm' (k_code k) n)"
  using assms by (auto simp: countries_known_def scm_exists_def)

lemma load_countries_ok:
  "load_countries inProd ltCity vs scm = (True, scm') \<Longrightarrow> tables_ok scm \<Longrightarrow> countries_known scm \<Longrightarrow>
     tables_ok scm' \<and> countries_known scm' \<and> m_rawJson scm' = m_rawJson scm"
proof (induction inProd ltCity vs scm rule: load_countries.induct)
  case (1 inProd ltCity scm)
  then show ?case by simp
next
  case (2 inProd ltCity v vs scm)
  obtain ok k where k: "ServerCountry_fromJson ltCity (toObject v) emptyCountry = (ok, k)" by fastforce
  from "2.prems"(1) k have ok: ok and obj: "isObject v" by (auto split: if_splits)
  note kk = ServerCountry_fromJson_ok [OF k [unfolded eqTrueI [OF ok]]]
  show ?case
  proof (cases "k_cities k = []")
    case True
    then show ?thesis using "2.IH"(1) [OF _ k [symmetric] refl] "2.prems" k ok obj by simp
  next
    case False
    let ?scm = "scm\<lparr>m_countries := m_countries scm @ [k]\<rparr>"
    obtain ok' scm1 where cities: "load_cities inProd (k_code k)
        (toArray (obj_value (toObject v) ''cities'')) ?scm = (ok', scm1)" by fastforce
    from "2.prems"(1) k ok obj False kk(1) cities have ok': ok'
      and rest: "load_countries inProd ltCity vs scm1 = (True, scm')"
      by (auto simp: Let_def split: if_splits)
    have "tables_ok ?scm" using "2.prems"(2) by (simp add: tables_ok_def consistency_defs)
    from load_cities_ok [OF cities [unfolded eqTrueI [OF ok']] this]
    have c: "tables_ok scm1" "m_countries scm1 = m_countries scm @ [k]" "m_rawJson scm1 = m_rawJson scm"
      "\<forall>key. map_of (m_cities scm) key \<noteq> None \<longrightarrow> map_of (m_cities scm1) key \<noteq> None"
      "\<forall>n \<in> set (k_cities k). scm_exists scm1 (k_code k) n"
      by (simp_all add: kk(2))
    have "countries_known scm1"
      using countries_known_mono [OF "2.prems"(3) c(4)] c(2,5) False kk(3)
      by (auto simp: countries_known_def)
    with "2.IH"(2) [OF _ k [symmetric] refl _ _ refl refl _ cities [symmetric] refl] ok ok' obj False kk(1) rest c(1,3)
    show ?thesis by simp
  qed
qed

lemma sortCountries_known: "countries_known scm \<Longrightarrow> countries_known (sortCountries ltCity ltCountry scm)"
  by (auto simp: countries_known_def sortCountries_def sortCities_def scm_exists_def)

lemma fromJsonInternal_ok:
  assumes "fromJsonInternal parseDoc inProd ltCity ltCountry s = (True, scm)"
  shows "tables_ok scm \<and> countries_known scm"
proof -
  have e: "tables_ok emptyModel" "countries_known emptyModel"
    by (simp_all add: tables_ok_def consistency_defs emptyModel_def)
  from assms obtain scm0 where l: "load_countries inProd ltCity
      (toArray (obj_value (toObject (parseDoc s)) ''countries'')) emptyModel = (True, scm0)"
    and scm: "scm = sortCountries ltCity ltCountry scm0"
    by (auto simp: fromJsonInternal_def Let_def split: prod.splits if_splits)
  from load_countries_ok [OF l e] show ?thesis
    by (auto simp: scm sortCountries_known)
      (simp add: tables_ok_def consistency_defs sortCountries_def)
qed

text \<open>City keys are unambiguous when country codes hold no comma.\<close>

lemma append_sep_inject:
  "\<lbrakk>c \<notin> set ys; c \<notin> set ys'; xs @ c # ys = xs' @ c # ys'\<rbrakk> \<Longrightarrow> xs = xs' \<and> ys = ys'"
  by (auto simp: append_eq_append_conv2 append_eq_Cons_conv Cons_eq_append_conv)

lemma hashKey_inject:
  assumes "CHR '','' \<notin> set k" "CHR '','' \<notin> set k'" "hashKey k n = hashKey k' n'"
  shows "k = k' \<and> n = n'"
  using append_sep_inject [OF assms(1,2), of n n'] assms(3) by (auto simp: hashKey_def)

section \<open>Runs of the model\<close>

text \<open>The operations that write the model: a fresh document, the stored one, a language change.\<close>

datatype scm_event = ReadJson string | ReadSettings string | Retranslate

definition retranslate ::
    "(string \<Rightarrow> string \<Rightarrow> bool) \<Rightarrow> (server_country \<Rightarrow> server_country \<Rightarrow> bool) \<Rightarrow>
     server_country_model \<Rightarrow> server_country_model" where
  "retranslate ltCity ltCountry scm = sortCountries ltCity ltCountry scm"

fun scm_step ::
    "(string \<Rightarrow> json) \<Rightarrow> bool \<Rightarrow> (string \<Rightarrow> string \<Rightarrow> bool) \<Rightarrow>
     (server_country \<Rightarrow> server_country \<Rightarrow> bool) \<Rightarrow> server_country_model \<Rightarrow> scm_event \<Rightarrow>
     server_country_model" where
  "scm_step parseDoc inProd ltCity ltCountry scm (ReadJson s) =
     snd (snd (scm_fromJson parseDoc inProd ltCity ltCountry s scm))"
| "scm_step parseDoc inProd ltCity ltCountry scm (ReadSettings s) =
     snd (scm_fromSettings parseDoc inProd ltCity ltCountry s scm)"
| "scm_step parseDoc inProd ltCity ltCountry scm Retranslate = retranslate ltCity ltCountry scm"

definition scm_consistent :: "server_country_model \<Rightarrow> bool" where
  "scm_consistent scm \<longleftrightarrow> (scm_initialized scm \<longrightarrow> tables_ok scm \<and> countries_known scm)"

lemma tables_ok_cong [simp]:
  "tables_ok (scm\<lparr>m_rawJson := s\<rparr>) = tables_ok scm"
  "countries_known (scm\<lparr>m_rawJson := s\<rparr>) = countries_known scm"
  "tables_ok (sortCountries ltCity ltCountry scm) = tables_ok scm"
  by (simp_all add: tables_ok_def consistency_defs scm_exists_def sortCountries_def)

lemma load_cities_raw: "load_cities inProd code vs scm = (ok, scm') \<Longrightarrow> m_rawJson scm' = m_rawJson scm"
  by (induction inProd code vs scm rule: load_cities.induct)
    (auto simp: Let_def dest: load_servers_frame split: prod.splits if_splits)

lemma load_countries_raw:
  "load_countries inProd ltCity vs scm = (ok, scm') \<Longrightarrow> m_rawJson scm' = m_rawJson scm"
  by (induction inProd ltCity vs scm rule: load_countries.induct)
    (auto simp: Let_def dest: load_cities_raw split: prod.splits if_splits)

lemma fromJsonInternal_raw:
  "fromJsonInternal parseDoc inProd ltCity ltCountry s = (ok, scm) \<Longrightarrow> \<not> scm_initialized scm"
  by (auto simp: fromJsonInternal_def Let_def scm_initialized_def emptyModel_def sortCountries_def
      dest: load_countries_raw split: prod.splits if_splits)

interpretation scm: transition_system "\<lambda>scm. scm = emptyModel"
    "scm_step parseDoc inProd ltCity ltCountry" "\<lambda>_ _. True" scm_consistent
  for parseDoc inProd ltCity ltCountry
proof
  fix s :: server_country_model
  assume "s = emptyModel"
  then show "scm_consistent s" by (simp add: scm_consistent_def scm_initialized_def emptyModel_def)
next
  fix scm e
  assume "scm_consistent scm"
  then show "scm_consistent (scm_step parseDoc inProd ltCity ltCountry scm e)"
    by (cases e)
      (auto simp: scm_fromJson_def scm_fromSettings_def scm_consistent_def retranslate_def
        sortCountries_known scm_initialized_def sortCountries_def [THEN arg_cong, of m_rawJson]
        dest: fromJsonInternal_ok fromJsonInternal_raw split: prod.splits if_splits)
qed

lemma scm_fromJson_result:
  assumes "scm_consistent scm" "scm_fromJson parseDoc inProd ltCity ltCountry s scm = (ok, ch, scm')"
  shows "(ok \<longrightarrow> tables_ok scm' \<and> countries_known scm' \<and> m_rawJson scm' = s) \<and>
         (\<not> ok \<longrightarrow> \<not> scm_initialized scm')"
  using assms
  by (auto simp: scm_fromJson_def scm_consistent_def scm_initialized_def
      dest: fromJsonInternal_ok fromJsonInternal_raw split: prod.splits if_splits)

lemma tables_ok_lookup:
  assumes "tables_ok scm" "countries_known scm" "k \<in> set (m_countries scm)" "n \<in> set (k_cities k)"
  shows "scm_exists scm (k_code k) n \<and>
    (\<forall>pk \<in> set (c_servers (findCity scm (k_code k) n)).
       map_of (m_servers scm) pk = Some (scm_server scm pk) \<and> m_publicKey (scm_server scm pk) = pk)"
proof -
  have ex: "scm_exists scm (k_code k) n" using assms by (auto simp: countries_known_def)
  then obtain c where c: "map_of (m_cities scm) (hashKey (k_code k) n) = Some c"
    by (auto simp: scm_exists_def)
  show ?thesis
  proof (intro conjI ballI)
    fix pk assume "pk \<in> set (c_servers (findCity scm (k_code k) n))"
    then have "pk \<in> set (c_servers c)" by (simp add: findCity_def c)
    then obtain s where s: "map_of (m_servers scm) pk = Some s"
      using assms(1) c unfolding tables_ok_def pubkeys_known_def by blast
    then show "map_of (m_servers scm) pk = Some (scm_server scm pk)" by (simp add: scm_server_def)
    show "m_publicKey (scm_server scm pk) = pk"
      using assms(1) s by (simp add: tables_ok_def servers_filed_def scm_server_def)
  qed (rule ex)
qed

section \<open>Properties\<close>

text \<open>
  C40: \<^verbatim>\<open>ServerCountryModel::fromJson\<close>: started on a consistent model, a successful read leaves a model
  in which every city a country lists is in the city table and every public key that city lists
  is in the server table, under its own key; a failed read leaves the model uninitialised; and
  reading the same non-empty document again succeeds, emits nothing and changes nothing.\<close>

theorem scm_fromJson_consistent:
  assumes "scm_consistent scm"
    and "scm_fromJson parseDoc inProd ltCity ltCountry s scm = (ok, ch, scm')"
  shows "(if ok
          then (\<forall>k \<in> set (m_countries scm'). k_cities k \<noteq> [] \<and>
                 (\<forall>n \<in> set (k_cities k). scm_exists scm' (k_code k) n \<and>
                   (\<forall>pk \<in> set (c_servers (findCity scm' (k_code k) n)).
                      map_of (m_servers scm') pk = Some (scm_server scm' pk) \<and>
                      m_publicKey (scm_server scm' pk) = pk))) \<and>
               (s \<noteq> [] \<longrightarrow>
                 scm_fromJson parseDoc inProd ltCity ltCountry s scm' = (True, False, scm'))
          else \<not> scm_initialized scm') \<and> scm_consistent scm'"
proof (cases ok)
  case True
  with scm_fromJson_result [OF assms] have r: "tables_ok scm'" "countries_known scm'" "m_rawJson scm' = s"
    by simp_all
  from r(2) have "\<forall>k \<in> set (m_countries scm'). k_cities k \<noteq> []" by (simp add: countries_known_def)
  with True r tables_ok_lookup [OF r(1,2)] show ?thesis
    by (auto simp: scm_consistent_def scm_fromJson_def)
next
  case False
  with scm_fromJson_result [OF assms] show ?thesis by (simp add: scm_consistent_def)
qed

definition sample_server :: json where
  "sample_server = JObject [(''hostname'', JString ''h''), (''ipv4_addr_in'', JString ''1.2.3.4''),
     (''ipv4_gateway'', JString ''10.64.0.1''), (''public_key'', JString ''pk''),
     (''weight'', JDouble 1), (''port_ranges'', JArray [JArray [JDouble 53, JDouble 53]])]"

definition sample_doc :: json where
  "sample_doc = JObject [(''countries'', JArray [JObject
     [(''name'', JString ''Norway''), (''code'', JString ''no''),
      (''cities'', JArray [JObject
        [(''name'', JString ''Oslo''), (''code'', JString ''osl''), (''latitude'', JDouble 59),
         (''longitude'', JDouble 10), (''servers'', JArray [sample_server])]])]])]"

definition sample_model :: server_country_model where
  "sample_model = snd (snd (scm_fromJson (\<lambda>_. sample_doc) True (\<lambda>_ _. False) (\<lambda>_ _. False) ''x'' emptyModel))"

lemma sample_read:
  "scm_fromJson (\<lambda>_. sample_doc) True (\<lambda>_ _. False) (\<lambda>_ _. False) ''x'' emptyModel =
     (True, True, \<lparr>m_rawJson = ''x'',
        m_countries = [\<lparr>k_name = ''Norway'', k_code = ''no'', k_cities = [''Oslo'']\<rparr>],
        m_cities = [(''Oslo,no'', \<lparr>c_country = ''no'', c_name = ''Oslo'', c_code = ''osl'',
           c_hashKey = [], c_latitude = 59, c_longitude = 10, c_servers = [''pk'']\<rparr>)],
        m_servers = [(''pk'', \<lparr>m_hostname = ''h'', m_ipv4AddrIn = ''1.2.3.4'',
           m_ipv4Gateway = ''10.64.0.1'', m_ipv6AddrIn = [], m_ipv6Gateway = [],
           m_portRanges = [(53, 53)], m_publicKey = ''pk'', m_socksName = [], m_weight = 1,
           m_multihopPort = 0, m_countryCode = ''no'', m_cityName = ''Oslo''\<rparr>)]\<rparr>)"
  by (simp add: scm_fromJson_def fromJsonInternal_def emptyModel_def sample_doc_def sample_server_def
      obj_value_def ServerCountry_fromJson_def emptyCountry_def sortCities_def std_sort_def
      ServerCity_fromJson_def emptyCity_def hashKey_def put_city_def city_assign_def Let_def
      Server_fromJson_def Server_of_place_def emptyServer_def sortCountries_def toString_def toInt_def)

theorem scm_fromJson_consistent_witness:
  "scm_exists sample_model ''no'' ''Oslo'' \<and> m_publicKey (scm_server sample_model ''pk'') = ''pk''"
proof -
  have "scm_consistent emptyModel"
    by (simp add: scm_consistent_def scm_initialized_def emptyModel_def)
  from scm_fromJson_consistent [OF this sample_read] show ?thesis
    unfolding sample_model_def sample_read by (simp add: findCity_def hashKey_def)
qed

end
