(* ===== verification/Location.thy ===== *)
theory Location
  imports Json
begin

text \<open>
  Model of \<^verbatim>\<open>src/src/models/location.cpp\<close>: where the user is, and the great-circle distance to a
  city.  A coordinate that may be NaN is an option; the arithmetic is that of the reals.  Host
  address and number parsing are the parameters \<open>parseHost\<close> and \<open>parseDouble\<close>.
\<close>

record 'h location =
  l_cityName :: string
  l_countryCode :: string
  l_subdivision :: string
  l_ipAddress :: "'h option"
  l_latitude :: "real option"
  l_longitude :: "real option"
  l_latSin :: "real option"
  l_latCos :: "real option"
  l_initialized :: bool

definition emptyLocation :: "'h location" where
  "emptyLocation = \<lparr>l_cityName = [], l_countryCode = [], l_subdivision = [], l_ipAddress = None,
     l_latitude = None, l_longitude = None, l_latSin = None, l_latCos = None, l_initialized = False\<rparr>"

definition radians :: "real \<Rightarrow> real" where
  "radians d = d * pi / 180"

text \<open>\<^verbatim>\<open>QString::split\<close> at one character: always at least one piece.\<close>

fun split_on :: "char \<Rightarrow> string \<Rightarrow> string list" where
  "split_on c [] = [[]]"
| "split_on c (x # xs) =
    (if x = c then [] # split_on c xs
     else case split_on c xs of [] \<Rightarrow> [[x]] | p # ps \<Rightarrow> (x # p) # ps)"

definition set_coordinates :: "(string \<Rightarrow> real option) \<Rightarrow> string list \<Rightarrow> 'h location \<Rightarrow> 'h location" where
  "set_coordinates parseDouble latlong loc =
    (case latlong of
       lat # long # _ \<Rightarrow>
         (case (parseDouble lat, parseDouble long) of
            (Some la, Some lo) \<Rightarrow>
              loc\<lparr>l_latitude := Some la, l_longitude := Some lo,
                  l_latSin := Some (sin (radians la)), l_latCos := Some (cos (radians la))\<rparr>
          | _ \<Rightarrow> loc\<lparr>l_latitude := None, l_longitude := None, l_latSin := None, l_latCos := None\<rparr>)
     | _ \<Rightarrow> loc\<lparr>l_latitude := None, l_longitude := None, l_latSin := None, l_latCos := None\<rparr>)"

definition Location_fromJson ::
    "(string \<Rightarrow> json) \<Rightarrow> (string \<Rightarrow> 'h option) \<Rightarrow> (string \<Rightarrow> real option) \<Rightarrow> string \<Rightarrow> 'h location \<Rightarrow>
     bool \<times> 'h location" where
  "Location_fromJson parseDoc parseHost parseDouble s loc0 =
    (let loc = loc0\<lparr>l_initialized := False\<rparr>;
         doc = parseDoc s;
         obj = toObject doc;
         cityName = obj_value obj ''city'';
         countryCode = obj_value obj ''country'';
         subdivision = obj_value obj ''subdivision'';
         ipString = obj_value obj ''ip''
     in if \<not> isObject doc then (False, loc)
        else if \<not> isString cityName then (False, loc)
        else if \<not> isString countryCode then (False, loc)
        else if \<not> isString subdivision then (False, loc)
        else if \<not> isString ipString then (False, loc)
        else
          (case parseHost (toString ipString) of
             None \<Rightarrow> (False, loc)
           | Some ipAddress \<Rightarrow>
               (True,
                (set_coordinates parseDouble
                   (split_on (CHR '','') (toString (obj_value obj ''lat_long''))) loc)
                  \<lparr>l_cityName := toString cityName, l_countryCode := toString countryCode,
                   l_subdivision := toString subdivision, l_ipAddress := Some ipAddress,
                   l_initialized := True\<rparr>)))"

text \<open>
  \<^verbatim>\<open>distance(latitude, longitude)\<close>, from the cached sine and cosine of the user's latitude, and
  the static \<^verbatim>\<open>distance(a, b)\<close> between two objects with coordinates.
\<close>

definition loc_distance :: "'h location \<Rightarrow> real option \<Rightarrow> real option \<Rightarrow> real" where
  "loc_distance loc latitude longitude =
    (case (latitude, longitude, l_latitude loc, l_longitude loc, l_latSin loc, l_latCos loc) of
       (Some lat, Some long, Some mlat, Some mlong, Some msin, Some mcos) \<Rightarrow>
         arccos (msin * sin (radians lat) + mcos * cos (radians lat) * cos (radians (long - mlong)))
     | _ \<Rightarrow> 0)"

definition obj_distance :: "real option \<times> real option \<Rightarrow> real option \<times> real option \<Rightarrow> real" where
  "obj_distance a b =
    (case (a, b) of
       ((Some aLat, Some aLong), (Some bLat, Some bLong)) \<Rightarrow>
         arccos (sin (radians aLat) * sin (radians bLat) +
                 cos (radians aLat) * cos (radians bLat) * cos (radians (aLong - bLong)))
     | _ \<Rightarrow> 0)"

text \<open>The cached sine and cosine are those of the latitude.\<close>

definition loc_wf :: "'h location \<Rightarrow> bool" where
  "loc_wf loc \<longleftrightarrow>
     l_latSin loc = map_option (\<lambda>la. sin (radians la)) (l_latitude loc) \<and>
     l_latCos loc = map_option (\<lambda>la. cos (radians la)) (l_latitude loc)"

lemma loc_wf_empty: "loc_wf emptyLocation"
  by (simp add: loc_wf_def emptyLocation_def)

lemma loc_wf_fromJson [inv_intros]:
  "loc_wf loc \<Longrightarrow> loc_wf (snd (Location_fromJson parseDoc parseHost parseDouble s loc))"
  by (auto simp: Location_fromJson_def loc_wf_def set_coordinates_def Let_def
      split: option.splits list.splits)

text \<open>The argument of the arc cosine is the cosine of an angle: it lies between -1 and 1.\<close>

lemma great_circle_arg:
  fixes a b c :: real
  shows "\<bar>sin a * sin b + cos a * cos b * cos c\<bar> \<le> 1"
proof -
  have "(sin a * sin b + cos a * cos b * cos c)\<^sup>2 \<le>
        ((sin a)\<^sup>2 + (cos a * cos c)\<^sup>2) * ((sin b)\<^sup>2 + (cos b)\<^sup>2)"
  proof -
    have "((sin a)\<^sup>2 + (cos a * cos c)\<^sup>2) * ((sin b)\<^sup>2 + (cos b)\<^sup>2) -
          (sin a * sin b + cos a * cos b * cos c)\<^sup>2 = (sin a * cos b - cos a * cos c * sin b)\<^sup>2"
      by algebra
    then show ?thesis by (smt (verit) zero_le_power2)
  qed
  also have "\<dots> = (sin a)\<^sup>2 + (cos a)\<^sup>2 * (cos c)\<^sup>2"
    by (simp add: power_mult_distrib)
  also have "\<dots> \<le> (sin a)\<^sup>2 + (cos a)\<^sup>2"
    using abs_cos_le_one [of c] by (intro add_left_mono mult_left_le) (simp_all add: abs_square_le_1)
  finally show ?thesis by (simp add: abs_square_le_1)
qed

lemma arccos_great_circle:
  "0 \<le> arccos (sin a * sin b + cos a * cos b * cos c) \<and>
   arccos (sin a * sin b + cos a * cos b * cos c) \<le> pi"
  using great_circle_arg [of a b c] by (auto intro!: arccos_lbound arccos_ubound)

lemma obj_distance_bounds: "0 \<le> obj_distance a b \<and> obj_distance a b \<le> pi"
  by (auto simp: obj_distance_def arccos_great_circle split: prod.splits option.splits)

lemma loc_distance_obj:
  assumes "loc_wf loc"
  shows "loc_distance loc lat long = obj_distance (l_latitude loc, l_longitude loc) (lat, long)"
proof -
  have "cos (radians (x - y)) = cos (radians (y - x))" for x y
    by (metis cos_minus minus_diff_eq minus_mult_left minus_divide_left radians_def)
  then show ?thesis using assms
    by (auto simp: loc_distance_def obj_distance_def loc_wf_def split: option.splits)
qed

text \<open>
  The two distances of \<^verbatim>\<open>Location\<close> agree, are symmetric and lie between 0 and pi, the range
  the comment of the source promises.\<close>

theorem distance_bounds:
  assumes "loc_wf loc"
  shows "loc_distance loc lat long = obj_distance (l_latitude loc, l_longitude loc) (lat, long) \<and>
    0 \<le> obj_distance a b \<and> obj_distance a b \<le> pi \<and> obj_distance a b = obj_distance b a"
proof (intro conjI)
  have cos: "cos (radians (x - y)) = cos (radians (y - x))" for x y
    by (metis cos_minus minus_diff_eq minus_mult_left minus_divide_left radians_def)
  show "obj_distance a b = obj_distance b a"
    using cos by (auto simp: obj_distance_def mult.commute split: prod.splits option.splits)
qed (use assms in \<open>simp_all add: loc_distance_obj obj_distance_bounds\<close>)

theorem distance_bounds_witness:
  "loc_distance (emptyLocation\<lparr>l_latitude := Some 0, l_longitude := Some 0, l_latSin := Some 0,
      l_latCos := Some 1\<rparr> :: unit location) (Some 0) (Some 90) =
   obj_distance (Some 0, Some 0) (Some 0, Some 90)"
  using distance_bounds [of "emptyLocation\<lparr>l_latitude := Some 0, l_longitude := Some 0,
      l_latSin := Some 0, l_latCos := Some 1\<rparr> :: unit location" "Some 0" "Some 90"]
  by (simp add: loc_wf_def radians_def)

end
