(* ===== verification/ServerLatency.thy ===== *)
theory ServerLatency
  imports ServerCountryModel Location
begin

text \<open>
  Model of \<^verbatim>\<open>src/src/serverlatency.cpp\<close> and of the score functions of \<^verbatim>\<open>servercity.cpp\<close>: the
  measurement of server round trips by at most eight parallel pings with two retries, the
  latency table with its running sum, the cooldown table and the connection scores.

  One handler is one step; the clock does not advance inside a handler.  Timers are the state of
  their interval: \<open>Some msec\<close> when running.  Signals and pings sent are appended to a log.
\<close>

section \<open>State\<close>

record ping_record =
  p_publicKey :: string
  p_countryCode :: string
  p_cityName :: string
  p_timestamp :: int
  p_sequence :: "16 word"
  p_distance :: real
  p_retries :: nat

datatype ping_sender = IcmpPing | TcpPing

datatype latency_out =
    SendPing string "16 word"
  | ProgressChanged
  | ScoreChanged string string

record server_latency =
  sl_sequence :: "16 word"
  sl_pingSender :: "ping_sender option"
  sl_sendQueue :: "ping_record list"
  sl_replyList :: "ping_record list"
  sl_sendTotal :: nat
  sl_latency :: "(string \<times> int) list"
  sl_cooldown :: "(string \<times> int) list"
  sl_sum :: int
  sl_lastUpdateTime :: "int option"
  sl_pingTimeout :: "int option"
  sl_refreshTimer :: "int option"
  sl_progressDelay :: "int option"
  sl_wantRefresh :: bool
  sl_out :: "latency_out list"

definition emptyLatency :: server_latency where
  "emptyLatency = \<lparr>sl_sequence = 0, sl_pingSender = None, sl_sendQueue = [], sl_replyList = [],
     sl_sendTotal = 0, sl_latency = [], sl_cooldown = [], sl_sum = 0, sl_lastUpdateTime = None,
     sl_pingTimeout = None, sl_refreshTimer = None, sl_progressDelay = None, sl_wantRefresh = False,
     sl_out = []\<rparr>"

text \<open>What the handlers read of the rest of the client.\<close>

record latency_env =
  le_now :: int
  le_scm :: server_country_model
  le_location :: "string location"
  le_scoreSupported :: bool
  le_stateOff :: bool
  le_icmpValid :: bool
  le_ios :: bool
  le_appActive :: bool

definition now_sec :: "latency_env \<Rightarrow> int" where
  "now_sec env = le_now env div 1000"

definition SERVER_LATENCY_MAX_PARALLEL :: nat where
  "SERVER_LATENCY_MAX_PARALLEL = 8"

definition SERVER_LATENCY_MAX_RETRIES :: nat where
  "SERVER_LATENCY_MAX_RETRIES = 2"

definition SERVER_LATENCY_TIMEOUT :: int where
  "SERVER_LATENCY_TIMEOUT = 5000"

definition SERVER_LATENCY_INITIAL :: int where
  "SERVER_LATENCY_INITIAL = 1000"

definition SERVER_LATENCY_REFRESH :: int where
  "SERVER_LATENCY_REFRESH = 1800000"

definition SERVER_LATENCY_PROGRESS_DELAY :: int where
  "SERVER_LATENCY_PROGRESS_DELAY = 500"

definition lat_emit :: "latency_out \<Rightarrow> server_latency \<Rightarrow> server_latency" where
  "lat_emit x s = s\<lparr>sl_out := sl_out s @ [x]\<rparr>"

section \<open>Measurements and cooldowns\<close>

definition getLatency :: "server_latency \<Rightarrow> string \<Rightarrow> int" where
  "getLatency s pubkey = (case map_of (sl_latency s) pubkey of None \<Rightarrow> 0 | Some l \<Rightarrow> l)"

definition setLatency :: "string \<Rightarrow> int \<Rightarrow> server_latency \<Rightarrow> server_latency" where
  "setLatency pubkey msec s =
     s\<lparr>sl_sum := sl_sum s - getLatency s pubkey + msec,
       sl_latency := AList.update pubkey msec (sl_latency s)\<rparr>"

definition avgLatency :: "server_latency \<Rightarrow> int" where
  "avgLatency s =
    (if sl_latency s = [] then 0
     else cdiv (sl_sum s + int (length (sl_latency s)) - 1) (int (length (sl_latency s))))"

definition getCooldown :: "server_latency \<Rightarrow> string \<Rightarrow> int" where
  "getCooldown s pubkey = (case map_of (sl_cooldown s) pubkey of None \<Rightarrow> 0 | Some t \<Rightarrow> t)"

definition emit_score :: "latency_env \<Rightarrow> string \<Rightarrow> string \<Rightarrow> server_latency \<Rightarrow> server_latency" where
  "emit_score env countryCode cityName s =
    (if city_initialized (findCity (le_scm env) countryCode cityName)
     then lat_emit (ScoreChanged countryCode cityName) s else s)"

definition setCooldown :: "latency_env \<Rightarrow> string \<Rightarrow> int \<Rightarrow> server_latency \<Rightarrow> server_latency" where
  "setCooldown env publicKey timeout s =
    (let s' = (if timeout \<le> 0
               then s\<lparr>sl_cooldown := AList.delete publicKey (sl_cooldown s)\<rparr>
               else s\<lparr>sl_cooldown :=
                        AList.update publicKey (now_sec env + timeout) (sl_cooldown s)\<rparr>);
         server = scm_server (le_scm env) publicKey
     in emit_score env (m_countryCode server) (m_cityName server) s')"

definition lat_clear :: "server_latency \<Rightarrow> server_latency" where
  "lat_clear s = lat_emit ProgressChanged (s\<lparr>sl_latency := [], sl_sum := 0\<rparr>)"

section \<open>The ping loops\<close>

definition ping_expired :: "int \<Rightarrow> ping_record \<Rightarrow> bool" where
  "ping_expired now r = (p_timestamp r + SERVER_LATENCY_TIMEOUT \<le> now)"

definition send_ping :: "latency_env \<Rightarrow> ping_record \<Rightarrow> server_latency \<Rightarrow> server_latency" where
  "send_ping env r s =
     lat_emit (SendPing (m_ipv4AddrIn (scm_server (le_scm env) (p_publicKey r))) (p_sequence r)) s"

text \<open>One expired record at the head: resent at the back while it has retries left, then removed.\<close>

definition retry_first :: "latency_env \<Rightarrow> ping_record \<Rightarrow> ping_record list \<Rightarrow> server_latency \<Rightarrow> server_latency" where
  "retry_first env r rs s =
    (if p_retries r < SERVER_LATENCY_MAX_RETRIES
     then let retry = r\<lparr>p_retries := p_retries r + 1, p_sequence := sl_sequence s,
                        p_timestamp := le_now env\<rparr>
          in send_ping env retry
               (s\<lparr>sl_sequence := sl_sequence s + 1, sl_replyList := rs @ [retry]\<rparr>)
     else s\<lparr>sl_replyList := rs\<rparr>)"

lemma retry_first_reply:
  "sl_replyList (retry_first env r rs s) =
    (if p_retries r < SERVER_LATENCY_MAX_RETRIES
     then rs @ [r\<lparr>p_retries := p_retries r + 1, p_sequence := sl_sequence s,
                  p_timestamp := le_now env\<rparr>]
     else rs)"
  by (simp add: retry_first_def send_ping_def lat_emit_def Let_def)

function timeout_loop :: "latency_env \<Rightarrow> server_latency \<Rightarrow> server_latency" where
  "timeout_loop env s =
    (case sl_replyList s of
       [] \<Rightarrow> s
     | r # rs \<Rightarrow> if \<not> ping_expired (le_now env) r then s
                 else timeout_loop env (retry_first env r rs s))"
  by pat_completeness auto
termination
  by (relation "measure (\<lambda>(env, s). length (filter (ping_expired (le_now env)) (sl_replyList s)))")
    (auto simp: retry_first_reply ping_expired_def SERVER_LATENCY_TIMEOUT_def)

declare timeout_loop.simps [simp del]

function send_loop :: "latency_env \<Rightarrow> server_latency \<Rightarrow> server_latency" where
  "send_loop env s =
    (if length (sl_replyList s) < SERVER_LATENCY_MAX_PARALLEL
     then case sl_sendQueue s of
            [] \<Rightarrow> s
          | r # q \<Rightarrow>
              let record = r\<lparr>p_sequence := sl_sequence s, p_timestamp := le_now env, p_retries := 0\<rparr>
              in send_loop env (send_ping env record
                   (s\<lparr>sl_sequence := sl_sequence s + 1, sl_sendQueue := q,
                      sl_replyList := sl_replyList s @ [record]\<rparr>))
     else s)"
  by pat_completeness auto
termination
  by (relation "measure (\<lambda>(env, s). length (sl_sendQueue s))")
    (auto simp: send_ping_def lat_emit_def)

declare send_loop.simps [simp del]

definition lat_stop :: "server_latency \<Rightarrow> server_latency" where
  "lat_stop s =
    (let s1 = lat_emit ProgressChanged
                (s\<lparr>sl_pingTimeout := None, sl_sendQueue := [], sl_replyList := [], sl_sendTotal := 0,
                   sl_pingSender := None\<rparr>);
         s2 = s1\<lparr>sl_progressDelay := None\<rparr>
     in if sl_refreshTimer s2 = None then s2\<lparr>sl_refreshTimer := Some SERVER_LATENCY_REFRESH\<rparr> else s2)"

definition maybeSendPings :: "latency_env \<Rightarrow> server_latency \<Rightarrow> server_latency" where
  "maybeSendPings env s =
    (if sl_pingSender s = None then s
     else let s1 = send_loop env (timeout_loop env s);
              s2 = s1\<lparr>sl_lastUpdateTime := Some (le_now env),
                      sl_progressDelay :=
                        (case sl_progressDelay s1 of
                           None \<Rightarrow> Some SERVER_LATENCY_PROGRESS_DELAY | Some d \<Rightarrow> Some d)\<rparr>
          in case sl_replyList s2 of
               [] \<Rightarrow> lat_stop s2
             | r # _ \<Rightarrow>
                 s2\<lparr>sl_pingTimeout := Some (SERVER_LATENCY_TIMEOUT - (le_now env - p_timestamp r))\<rparr>)"

section \<open>Handlers\<close>

text \<open>
  The queue of \<^verbatim>\<open>start\<close>: each city's servers go in front of the first entry at least as far away,
  one after the other at the same place, so in reverse order.
\<close>

fun insert_by_distance :: "real \<Rightarrow> ping_record list \<Rightarrow> ping_record list \<Rightarrow> ping_record list" where
  "insert_by_distance d recs [] = rev recs"
| "insert_by_distance d recs (r # rs) =
    (if p_distance r \<ge> d then rev recs @ r # rs else r # insert_by_distance d recs rs)"

definition city_records :: "real \<Rightarrow> server_city \<Rightarrow> ping_record list" where
  "city_records distance city =
     map (\<lambda>pubkey. \<lparr>p_publicKey = pubkey, p_countryCode = c_country city, p_cityName = c_name city,
            p_timestamp = 0, p_sequence = 0, p_distance = distance, p_retries = 0\<rparr>) (c_servers city)"

definition enqueue_city :: "latency_env \<Rightarrow> string \<Rightarrow> string \<Rightarrow> ping_record list \<Rightarrow> ping_record list" where
  "enqueue_city env countryCode cityName queue =
    (let city = findCity (le_scm env) countryCode cityName;
         distance = loc_distance (le_location env) (Some (c_latitude city)) (Some (c_longitude city))
     in insert_by_distance distance (city_records distance city) queue)"

definition enqueue_all :: "latency_env \<Rightarrow> ping_record list \<Rightarrow> ping_record list" where
  "enqueue_all env queue =
     fold (\<lambda>country. fold (enqueue_city env (k_code country)) (k_cities country))
       (m_countries (le_scm env)) queue"

definition lat_start :: "latency_env \<Rightarrow> server_latency \<Rightarrow> server_latency" where
  "lat_start env s =
    (if \<not> le_scoreSupported env then lat_clear s
     else if \<not> le_stateOff env then s\<lparr>sl_wantRefresh := True\<rparr>
     else if sl_pingSender s \<noteq> None then s
     else let s1 = s\<lparr>sl_sequence := 0, sl_wantRefresh := False,
                     sl_pingSender := Some (if le_icmpValid env then IcmpPing else TcpPing),
                     sl_sendQueue := enqueue_all env (sl_sendQueue s)\<rparr>;
              s2 = lat_emit ProgressChanged
                     (s1\<lparr>sl_sendTotal := length (sl_sendQueue s1), sl_progressDelay := None\<rparr>)
          in maybeSendPings env (s2\<lparr>sl_refreshTimer := None\<rparr>))"

definition lat_initialize :: "latency_env \<Rightarrow> server_latency \<Rightarrow> server_latency" where
  "lat_initialize env s =
    (if le_scoreSupported env then s\<lparr>sl_refreshTimer := Some SERVER_LATENCY_INITIAL\<rparr> else s)"

definition lat_refresh :: "latency_env \<Rightarrow> server_latency \<Rightarrow> server_latency" where
  "lat_refresh env s = (if sl_pingSender s \<noteq> None then s else lat_start env (lat_clear s))"

definition lat_stateChanged :: "latency_env \<Rightarrow> server_latency \<Rightarrow> server_latency" where
  "lat_stateChanged env s =
    (if \<not> le_stateOff env then lat_stop s
     else if sl_wantRefresh s then lat_start env s else s)"

definition applicationStateChanged :: "latency_env \<Rightarrow> server_latency \<Rightarrow> server_latency" where
  "applicationStateChanged env s =
    (if \<not> le_ios env then s
     else if \<not> le_appActive env
     then (if sl_pingSender s \<noteq> None then lat_stop (s\<lparr>sl_wantRefresh := True\<rparr>) else s)
     else (if sl_wantRefresh s then lat_refresh env s else s))"

fun take_reply :: "16 word \<Rightarrow> ping_record list \<Rightarrow> (ping_record \<times> ping_record list) option" where
  "take_reply seq [] = None"
| "take_reply seq (r # rs) =
    (if p_sequence r = seq then Some (r, rs)
     else map_option (\<lambda>(x, ys). (x, r # ys)) (take_reply seq rs))"

definition lat_recvPing :: "latency_env \<Rightarrow> 16 word \<Rightarrow> server_latency \<Rightarrow> server_latency" where
  "lat_recvPing env seq s =
    (case take_reply seq (sl_replyList s) of
       None \<Rightarrow> s
     | Some (record, rest) \<Rightarrow>
         let latency = le_now env - p_timestamp record;
             s1 = (if latency \<le> 4294967295
                   then emit_score env (p_countryCode record) (p_cityName record)
                          (setLatency (p_publicKey record) latency s)
                   else s)
         in maybeSendPings env (s1\<lparr>sl_replyList := rest\<rparr>))"

definition progress :: "server_latency \<Rightarrow> real" where
  "progress s =
    (if sl_pingSender s = None \<or> sl_sendTotal s = 0 then 1
     else 1 - real (length (sl_replyList s) + length (sl_sendQueue s)) / real (sl_sendTotal s))"

section \<open>Scores\<close>

definition sc_Unavailable :: int where "sc_Unavailable = -1"
definition sc_NoData :: int where "sc_NoData = 0"
definition sc_Poor :: int where "sc_Poor = 1"
definition sc_Excellent :: int where "sc_Excellent = 4"

definition SCORE_SERVER_REDUNDANCY_THRESHOLD :: nat where
  "SCORE_SERVER_REDUNDANCY_THRESHOLD = 3"

definition SCORE_EXCELLENT_LATENCY_THRESHOLD :: int where
  "SCORE_EXCELLENT_LATENCY_THRESHOLD = 30"

text \<open>Case-insensitive comparison of country codes, which are ASCII.\<close>

definition ascii_lower :: "char \<Rightarrow> char" where
  "ascii_lower c =
    (if 65 \<le> (of_char c :: nat) \<and> (of_char c :: nat) \<le> 90 then char_of ((of_char c :: nat) + 32) else c)"

definition ci_equal :: "string \<Rightarrow> string \<Rightarrow> bool" where
  "ci_equal a b = (map ascii_lower a = map ascii_lower b)"

definition activeServers :: "int \<Rightarrow> server_latency \<Rightarrow> server_city \<Rightarrow> string list" where
  "activeServers now s city = filter (\<lambda>pubkey. getCooldown s pubkey \<le> now) (c_servers city)"

definition baseCityScore :: "int \<Rightarrow> server_latency \<Rightarrow> server_city \<Rightarrow> string \<Rightarrow> int" where
  "baseCityScore now s city originCountry =
    (let activeServerCount = length (activeServers now s city)
     in if activeServerCount = 0 then sc_Unavailable
        else let score = sc_Poor;
                 score = (if activeServerCount \<ge> SCORE_SERVER_REDUNDANCY_THRESHOLD
                          then score + 1 else score);
                 score = (if originCountry \<noteq> [] \<and> ci_equal originCountry (c_country city)
                          then score + 1 else score)
             in if score > sc_Excellent then sc_Excellent else score)"

definition city_latency :: "server_latency \<Rightarrow> server_city \<Rightarrow> int" where
  "city_latency s city =
    (let samples = filter (\<lambda>rtt. rtt > 0) (map (getLatency s) (c_servers city));
         numLatencySamples = int (length samples)
     in if numLatencySamples = 0 then 0
        else cdiv (sum_list samples + numLatencySamples - 1) numLatencySamples)"

definition connectionScore :: "int \<Rightarrow> server_latency \<Rightarrow> string \<Rightarrow> server_city \<Rightarrow> int" where
  "connectionScore now s userCountry city =
    (let score = baseCityScore now s city userCountry;
         cityLatencyMsec = city_latency s city
     in if score \<le> sc_Unavailable then score
        else if cityLatencyMsec = 0 then score
        else let score = (if cityLatencyMsec < avgLatency s
                          then (if cityLatencyMsec < SCORE_EXCELLENT_LATENCY_THRESHOLD
                                then score + 2 else score + 1)
                          else score)
             in if score > sc_Excellent then sc_Excellent else score)"

definition multiHopScore ::
    "int \<Rightarrow> server_latency \<Rightarrow> server_country_model \<Rightarrow> string \<Rightarrow> string \<Rightarrow> server_city \<Rightarrow> int" where
  "multiHopScore now s scm country cityName city =
    (let score = baseCityScore now s city country;
         entryCity = findCity scm country cityName
     in if score \<le> sc_Unavailable then score
        else if \<not> city_initialized entryCity then sc_NoData
        else let score = (if obj_distance (Some (c_latitude city), Some (c_longitude city))
                                 (Some (c_latitude entryCity), Some (c_longitude entryCity)) < pi / 4
                          then score + 1 else score)
             in if score > sc_Excellent then sc_Excellent else score)"

section \<open>Steps\<close>

datatype latency_event =
    LInitialize
  | LStart
  | LPingTimeout
  | LRefreshTimeout
  | LProgressTimeout
  | LRecvPing "16 word"
  | LStateChanged
  | LAppStateChanged
  | LRefresh
  | LSetCooldown string int

fun lat_step :: "server_latency \<Rightarrow> latency_env \<times> latency_event \<Rightarrow> server_latency" where
  "lat_step s (env, LInitialize) = lat_initialize env s"
| "lat_step s (env, LStart) = lat_start env s"
| "lat_step s (env, LPingTimeout) = maybeSendPings env s"
| "lat_step s (env, LRefreshTimeout) = lat_start env (s\<lparr>sl_refreshTimer := None\<rparr>)"
| "lat_step s (env, LProgressTimeout) = lat_emit ProgressChanged (s\<lparr>sl_progressDelay := None\<rparr>)"
| "lat_step s (env, LRecvPing seq) = lat_recvPing env seq s"
| "lat_step s (env, LStateChanged) = lat_stateChanged env s"
| "lat_step s (env, LAppStateChanged) = applicationStateChanged env s"
| "lat_step s (env, LRefresh) = lat_refresh env s"
| "lat_step s (env, LSetCooldown pubkey t) = setCooldown env pubkey t s"

section \<open>Invariant\<close>

text \<open>
  The latency table has one entry per server, not negative, and \<^verbatim>\<open>m_sumLatencyMsec\<close> is the sum of its entries.
  While no ping sender exists nothing is queued.  While one exists, at most eight pings are
  outstanding, none retried more than twice and none overdue at the last update, in order of
  transmission, and the timeout timer runs for what is left of the oldest.
\<close>

definition latency_sum_ok :: "server_latency \<Rightarrow> bool" where
  "latency_sum_ok s \<longleftrightarrow>
     distinct (map fst (sl_latency s)) \<and> sl_sum s = sum_list (map snd (sl_latency s)) \<and>
     (\<forall>l \<in> snd ` set (sl_latency s). 0 \<le> l)"

definition window_ok :: "int \<Rightarrow> server_latency \<Rightarrow> bool" where
  "window_ok now s \<longleftrightarrow>
     length (sl_replyList s) \<le> SERVER_LATENCY_MAX_PARALLEL \<and>
     (\<forall>r \<in> set (sl_replyList s). p_retries r \<le> SERVER_LATENCY_MAX_RETRIES \<and> p_timestamp r \<le> now) \<and>
     sorted (map p_timestamp (sl_replyList s)) \<and>
     length (sl_replyList s) + length (sl_sendQueue s) \<le> sl_sendTotal s"

definition lat_inv :: "server_latency \<Rightarrow> bool" where
  "lat_inv s \<longleftrightarrow> latency_sum_ok s \<and>
     (case sl_pingSender s of
        None \<Rightarrow> sl_replyList s = [] \<and> sl_sendQueue s = [] \<and> sl_sendTotal s = 0 \<and> sl_pingTimeout s = None
      | Some _ \<Rightarrow>
          (case sl_lastUpdateTime s of
             None \<Rightarrow> False
           | Some t \<Rightarrow> window_ok t s \<and> sl_replyList s \<noteq> [] \<and>
               (\<forall>r \<in> set (sl_replyList s). \<not> ping_expired t r) \<and>
               sl_pingTimeout s =
                 Some (SERVER_LATENCY_TIMEOUT - (t - p_timestamp (hd (sl_replyList s))))))"

text \<open>The clock does not run backwards between two updates.\<close>

fun lat_guard :: "server_latency \<Rightarrow> latency_env \<times> latency_event \<Rightarrow> bool" where
  "lat_guard s (env, e) = (case sl_lastUpdateTime s of None \<Rightarrow> True | Some t \<Rightarrow> t \<le> le_now env)"

lemma window_ok_mono: "window_ok t s \<Longrightarrow> t \<le> t' \<Longrightarrow> window_ok t' s"
  by (auto simp: window_ok_def dest: order_trans)

lemma lat_emit_frame [simp]:
  "sl_sequence (lat_emit x s) = sl_sequence s" "sl_pingSender (lat_emit x s) = sl_pingSender s"
  "sl_sendQueue (lat_emit x s) = sl_sendQueue s" "sl_replyList (lat_emit x s) = sl_replyList s"
  "sl_sendTotal (lat_emit x s) = sl_sendTotal s" "sl_latency (lat_emit x s) = sl_latency s"
  "sl_cooldown (lat_emit x s) = sl_cooldown s" "sl_sum (lat_emit x s) = sl_sum s"
  "sl_lastUpdateTime (lat_emit x s) = sl_lastUpdateTime s"
  "sl_pingTimeout (lat_emit x s) = sl_pingTimeout s"
  "sl_refreshTimer (lat_emit x s) = sl_refreshTimer s"
  "sl_wantRefresh (lat_emit x s) = sl_wantRefresh s"
  by (simp_all add: lat_emit_def)

lemma emit_score_frame [simp]:
  "sl_pingSender (emit_score env a b s) = sl_pingSender s"
  "sl_sendQueue (emit_score env a b s) = sl_sendQueue s"
  "sl_replyList (emit_score env a b s) = sl_replyList s"
  "sl_sendTotal (emit_score env a b s) = sl_sendTotal s"
  "sl_latency (emit_score env a b s) = sl_latency s"
  "sl_cooldown (emit_score env a b s) = sl_cooldown s"
  "sl_sum (emit_score env a b s) = sl_sum s"
  "sl_lastUpdateTime (emit_score env a b s) = sl_lastUpdateTime s"
  "sl_pingTimeout (emit_score env a b s) = sl_pingTimeout s"
  by (simp_all add: emit_score_def)

lemma retry_first_frame [simp]:
  "sl_pingSender (retry_first env r rs s) = sl_pingSender s"
  "sl_sendQueue (retry_first env r rs s) = sl_sendQueue s"
  "sl_sendTotal (retry_first env r rs s) = sl_sendTotal s"
  "sl_latency (retry_first env r rs s) = sl_latency s"
  "sl_sum (retry_first env r rs s) = sl_sum s"
  by (simp_all add: retry_first_def send_ping_def Let_def)

lemma timeout_loop_frame:
  "sl_pingSender (timeout_loop env s) = sl_pingSender s \<and>
   sl_sendQueue (timeout_loop env s) = sl_sendQueue s \<and>
   sl_sendTotal (timeout_loop env s) = sl_sendTotal s \<and>
   sl_latency (timeout_loop env s) = sl_latency s \<and> sl_sum (timeout_loop env s) = sl_sum s"
proof (induction env s rule: timeout_loop.induct)
  case (1 env s)
  then show ?case by (subst (1 2 3 4 5) timeout_loop.simps) (auto split: list.splits)
qed

lemma retry_first_window:
  assumes "window_ok (le_now env) s" "sl_replyList s = r # rs"
  shows "window_ok (le_now env) (retry_first env r rs s)"
  using assms
  by (auto simp: window_ok_def retry_first_reply sorted_append SERVER_LATENCY_MAX_RETRIES_def)

lemma timeout_loop_window:
  "window_ok (le_now env) s \<Longrightarrow>
     window_ok (le_now env) (timeout_loop env s) \<and>
     (\<forall>r \<in> set (sl_replyList (timeout_loop env s)). \<not> ping_expired (le_now env) r)"
proof (induction env s rule: timeout_loop.induct)
  case (1 env s)
  show ?case
  proof (cases "sl_replyList s")
    case Nil
    then show ?thesis using "1.prems" by (simp add: timeout_loop.simps)
  next
    case (Cons r rs)
    show ?thesis
    proof (cases "ping_expired (le_now env) r")
      case True
      then have "timeout_loop env s = timeout_loop env (retry_first env r rs s)"
        using Cons by (subst timeout_loop.simps) simp
      then show ?thesis using "1.IH" [OF Cons] True retry_first_window [OF "1.prems" Cons] by simp
    next
      case False
      then have "timeout_loop env s = s" using Cons by (subst timeout_loop.simps) simp
      moreover have "\<forall>x \<in> set rs. p_timestamp r \<le> p_timestamp x"
        using "1.prems" Cons by (simp add: window_ok_def)
      ultimately show ?thesis using False "1.prems" Cons by (auto simp: ping_expired_def)
    qed
  qed
qed

lemma send_loop_frame:
  "sl_pingSender (send_loop env s) = sl_pingSender s \<and>
   sl_sendTotal (send_loop env s) = sl_sendTotal s \<and>
   sl_latency (send_loop env s) = sl_latency s \<and> sl_sum (send_loop env s) = sl_sum s"
proof (induction env s rule: send_loop.induct)
  case (1 env s)
  then show ?case
    by (subst (1 2 3 4) send_loop.simps) (auto simp: Let_def send_ping_def split: list.splits)
qed

lemma send_loop_window:
  "window_ok (le_now env) s \<Longrightarrow> \<forall>r \<in> set (sl_replyList s). \<not> ping_expired (le_now env) r \<Longrightarrow>
     window_ok (le_now env) (send_loop env s) \<and>
     (\<forall>r \<in> set (sl_replyList (send_loop env s)). \<not> ping_expired (le_now env) r) \<and>
     (sl_replyList (send_loop env s) = [] \<longrightarrow> sl_sendQueue (send_loop env s) = [])"
proof (induction env s rule: send_loop.induct)
  case (1 env s)
  show ?case
  proof (cases "length (sl_replyList s) < SERVER_LATENCY_MAX_PARALLEL \<and> sl_sendQueue s \<noteq> []")
    case True
    then obtain r q where q: "sl_sendQueue s = r # q" by (cases "sl_sendQueue s") auto
    let ?r = "r\<lparr>p_sequence := sl_sequence s, p_timestamp := le_now env, p_retries := 0\<rparr>"
    let ?s = "send_ping env ?r (s\<lparr>sl_sequence := sl_sequence s + 1, sl_sendQueue := q,
                sl_replyList := sl_replyList s @ [?r]\<rparr>)"
    have eq: "send_loop env s = send_loop env ?s" using True q by (subst send_loop.simps) (simp add: Let_def)
    have "window_ok (le_now env) ?s"
      using "1.prems"(1) True q by (auto simp: window_ok_def send_ping_def sorted_append)
    moreover have "\<forall>r \<in> set (sl_replyList ?s). \<not> ping_expired (le_now env) r"
      using "1.prems"(2) by (simp add: send_ping_def ping_expired_def SERVER_LATENCY_TIMEOUT_def)
    ultimately show ?thesis using "1.IH" [OF _ q refl] True unfolding eq by blast
  next
    case False
    then have "send_loop env s = s"
      by (subst send_loop.simps) (auto split: list.splits)
    then show ?thesis using "1.prems" False by (auto simp: SERVER_LATENCY_MAX_PARALLEL_def)
  qed
qed

lemma latency_sum_stop [simp]: "latency_sum_ok (lat_stop s) = latency_sum_ok s"
  by (simp add: latency_sum_ok_def lat_stop_def Let_def)

lemma lat_inv_stop [inv_intros]: "latency_sum_ok s \<Longrightarrow> lat_inv (lat_stop s)"
  by (simp add: lat_inv_def) (simp add: lat_stop_def Let_def)

lemma maybeSendPings_inv [inv_intros]:
  assumes "latency_sum_ok s" "window_ok (le_now env) s" "sl_pingSender s \<noteq> None"
  shows "lat_inv (maybeSendPings env s)"
proof -
  let ?s = "send_loop env (timeout_loop env s)"
  have fr: "sl_pingSender ?s = sl_pingSender s" "sl_latency ?s = sl_latency s" "sl_sum ?s = sl_sum s"
    using send_loop_frame timeout_loop_frame by simp_all
  have w: "window_ok (le_now env) ?s" "\<forall>r \<in> set (sl_replyList ?s). \<not> ping_expired (le_now env) r"
    using send_loop_window timeout_loop_window [OF assms(2)] by blast+
  show ?thesis
  proof (cases "sl_replyList ?s")
    case Nil
    then show ?thesis using assms(1,3) fr
      by (auto simp: maybeSendPings_def Let_def latency_sum_ok_def intro!: lat_inv_stop)
  next
    case (Cons r rs)
    with w assms(1,3) fr show ?thesis
      by (auto simp: maybeSendPings_def Let_def lat_inv_def latency_sum_ok_def window_ok_def)
  qed
qed

lemma sum_update:
  "distinct (map fst al) \<Longrightarrow>
   sum_list (map snd (AList.update k v al)) =
     sum_list (map snd al) - (case map_of al k of None \<Rightarrow> 0 | Some x \<Rightarrow> x) + (v :: int)"
proof (induction al)
  case Nil
  then show ?case by simp
next
  case (Cons x al)
  then show ?case by (cases x) (auto simp: map_of_eq_None_iff [THEN iffD2])
qed

lemma snd_set_update: "snd ` set (AList.update k v al) \<subseteq> insert v (snd ` set al)"
  by (induction al) auto

lemma setLatency_sum [inv_intros]:
  assumes "latency_sum_ok s" "0 \<le> l"
  shows "latency_sum_ok (setLatency pk l s)"
proof -
  have "\<forall>x \<in> snd ` set (AList.update pk l (sl_latency s)). 0 \<le> x"
    using snd_set_update [of pk l "sl_latency s"] assms unfolding latency_sum_ok_def by fast
  then show ?thesis using assms(1)
    by (simp add: latency_sum_ok_def setLatency_def distinct_update sum_update getLatency_def)
qed

lemma take_reply_split:
  "take_reply seq rs = Some (r, rest) \<Longrightarrow> \<exists>us vs. rs = us @ r # vs \<and> rest = us @ vs \<and> p_sequence r = seq"
proof (induction rs arbitrary: rest)
  case (Cons x rs)
  show ?case
  proof (cases "p_sequence x = seq")
    case True
    with Cons.prems show ?thesis by (intro exI [of _ "[]"] exI [of _ rs]) auto
  next
    case False
    with Cons obtain rest' us vs where "rest = x # rest'" "rs = us @ r # vs" "rest' = us @ vs"
      "p_sequence r = seq" by fastforce
    then show ?thesis by (intro exI [of _ "x # us"] exI [of _ vs]) simp
  qed
qed simp

lemma lat_recvPing_inv:
  assumes "lat_inv s" "lat_guard s (env, LRecvPing seq)"
  shows "lat_inv (lat_recvPing env seq s)"
proof (cases "take_reply seq (sl_replyList s)")
  case None
  then show ?thesis using assms by (simp add: lat_recvPing_def)
next
  case (Some x)
  then obtain r rest where x: "take_reply seq (sl_replyList s) = Some (r, rest)" by (cases x) auto
  then obtain us vs where uv: "sl_replyList s = us @ r # vs" "rest = us @ vs"
    using take_reply_split by blast
  then obtain t where t: "sl_pingSender s \<noteq> None" "sl_lastUpdateTime s = Some t" "window_ok t s"
    using assms(1) by (auto simp: lat_inv_def split: option.splits)
  then have le: "t \<le> le_now env" using assms(2) by simp
  define s1 where "s1 = (if le_now env - p_timestamp r \<le> 4294967295
     then emit_score env (p_countryCode r) (p_cityName r) (setLatency (p_publicKey r) (le_now env - p_timestamp r) s)
     else s)"
  have "latency_sum_ok (s1\<lparr>sl_replyList := rest\<rparr>)"
    using assms(1) setLatency_sum [of s "le_now env - p_timestamp r" "p_publicKey r"] t(3) le uv
    by (simp add: s1_def lat_inv_def latency_sum_ok_def window_ok_def)
  moreover have "window_ok (le_now env) (s1\<lparr>sl_replyList := rest\<rparr>)"
    using window_ok_mono [OF t(3) le] uv by (auto simp: s1_def window_ok_def setLatency_def sorted_append)
  moreover have "sl_pingSender (s1\<lparr>sl_replyList := rest\<rparr>) \<noteq> None"
    using t(1) by (simp add: s1_def setLatency_def)
  ultimately have "lat_inv (maybeSendPings env (s1\<lparr>sl_replyList := rest\<rparr>))"
    by (rule maybeSendPings_inv)
  then show ?thesis by (simp add: lat_recvPing_def x s1_def Let_def)
qed

lemma lat_clear_inv [inv_intros]: "lat_inv s \<Longrightarrow> lat_inv (lat_clear s)"
  by (auto simp: lat_inv_def lat_clear_def latency_sum_ok_def window_ok_def split: option.splits)

lemma lat_start_inv [inv_intros]:
  assumes "lat_inv s"
  shows "lat_inv (lat_start env s)"
proof (cases "le_scoreSupported env \<and> le_stateOff env \<and> sl_pingSender s = None")
  case True
  with assms have e: "sl_replyList s = []" "sl_sendQueue s = []" and sum: "latency_sum_ok s"
    by (auto simp: lat_inv_def)
  then show ?thesis using True
    by (auto simp: lat_start_def Let_def window_ok_def latency_sum_ok_def intro!: maybeSendPings_inv)
next
  case False
  then show ?thesis using assms lat_clear_inv [OF assms]
    by (auto simp: lat_start_def lat_inv_def latency_sum_ok_def window_ok_def split: option.splits)
qed

lemma lat_inv_timers [simp]:
  "lat_inv (s\<lparr>sl_refreshTimer := x\<rparr>) = lat_inv s"
  "lat_inv (s\<lparr>sl_progressDelay := x\<rparr>) = lat_inv s"
  "lat_inv (s\<lparr>sl_wantRefresh := b\<rparr>) = lat_inv s"
  "lat_inv (lat_emit y s) = lat_inv s"
  by (simp_all add: lat_inv_def latency_sum_ok_def window_ok_def cong: option.case_cong)

lemma lat_refresh_inv [inv_intros]: "lat_inv s \<Longrightarrow> lat_inv (lat_refresh env s)"
  by (simp add: lat_refresh_def inv_intros)

lemma setCooldown_inv [inv_intros]: "lat_inv s \<Longrightarrow> lat_inv (setCooldown env pk t s)"
  by (simp add: setCooldown_def Let_def emit_score_def)
    (simp add: lat_inv_def latency_sum_ok_def window_ok_def cong: option.case_cong)

interpretation lat: transition_system "\<lambda>s. s = emptyLatency" lat_step lat_guard lat_inv
proof
  fix s assume "s = emptyLatency"
  then show "lat_inv s" by (simp add: lat_inv_def emptyLatency_def latency_sum_ok_def)
next
  fix s :: server_latency and e :: "latency_env \<times> latency_event"
  assume inv: "lat_inv s" and g: "lat_guard s e"
  obtain env ev where e: "e = (env, ev)" by fastforce
  have sum: "latency_sum_ok s" using inv by (simp add: lat_inv_def)
  show "lat_inv (lat_step s e)"
  proof (cases ev)
    case LPingTimeout
    show ?thesis
    proof (cases "sl_pingSender s")
      case None
      then show ?thesis using inv e LPingTimeout by (simp add: maybeSendPings_def)
    next
      case (Some p)
      then have "window_ok (le_now env) s"
        using inv g e by (auto simp: lat_inv_def intro: window_ok_mono split: option.splits)
      then show ?thesis using sum Some e LPingTimeout by (simp add: maybeSendPings_inv)
    qed
  qed (use inv g e sum in \<open>auto simp: lat_initialize_def lat_stateChanged_def
        applicationStateChanged_def latency_sum_ok_def intro!: inv_intros lat_recvPing_inv\<close>)
qed

section \<open>The cooldown interface\<close>

text \<open>
  What the server list and the controller rely on: putting a server in cooldown is seen by the
  next query, and only for that server.  The client lemmas are about putting whole lists of
  servers, and all servers of a city code, in cooldown.
\<close>

locale cooldown_store =
  fixes setC :: "string \<Rightarrow> 'l \<Rightarrow> 'l"
    and getC :: "'l \<Rightarrow> string \<Rightarrow> int"
    and until :: int
  assumes get_set: "getC (setC pk l) pk' = (if pk' = pk then until else getC l pk')"
begin

lemma get_fold_set: "getC (fold setC pks l) pk = (if pk \<in> set pks then until else getC l pk)"
  by (induction pks arbitrary: l) (auto simp: get_set)

lemma get_city_fold:
  "getC (fold (\<lambda>(_, city) l. if c_code city \<noteq> code then l else fold setC (c_servers city) l) cs l) pk =
     (if \<exists>c \<in> snd ` set cs. c_code c = code \<and> pk \<in> set (c_servers c) then until else getC l pk)"
  by (induction cs arbitrary: l) (auto simp: get_fold_set split: if_splits)

lemma get_setCooldownForAllServersInACity:
  "getC (setCooldownForAllServersInACity setC country code scm l) pk =
     (if \<exists>c \<in> snd ` set (m_cities scm). c_code c = code \<and> pk \<in> set (c_servers c)
      then until else getC l pk)"
  unfolding setCooldownForAllServersInACity_def by (rule get_city_fold)

end

definition SERVER_UNRESPONSIVE_COOLDOWN_SEC :: int where
  "SERVER_UNRESPONSIVE_COOLDOWN_SEC = 300"

lemma getCooldown_setCooldown:
  "getCooldown (setCooldown env pk t s) pk' =
    (if pk' = pk then (if t \<le> 0 then 0 else now_sec env + t) else getCooldown s pk')"
  by (simp add: getCooldown_def setCooldown_def Let_def update_conv delete_conv)

interpretation cd: cooldown_store "\<lambda>pk. setCooldown env pk SERVER_UNRESPONSIVE_COOLDOWN_SEC"
    getCooldown "now_sec env + SERVER_UNRESPONSIVE_COOLDOWN_SEC" for env
  by unfold_locales (simp add: getCooldown_setCooldown SERVER_UNRESPONSIVE_COOLDOWN_SEC_def)

section \<open>Averages and scores\<close>

lemma avgLatency_ceiling:
  assumes "latency_sum_ok s" "sl_latency s \<noteq> []"
  shows "avgLatency s =
    \<lceil>real_of_int (sum_list (map snd (sl_latency s))) / real (length (sl_latency s))\<rceil>"
proof -
  have "0 \<le> sl_sum s"
    using assms(1) by (auto simp: latency_sum_ok_def intro!: sum_list_nonneg)
  moreover have "0 < int (length (sl_latency s))" using assms(2) by simp
  ultimately have "cdiv (sl_sum s + int (length (sl_latency s)) - 1) (int (length (sl_latency s))) =
      \<lceil>real_of_int (sl_sum s) / real_of_int (int (length (sl_latency s)))\<rceil>" by (rule ceil_div)
  then show ?thesis using assms by (simp add: avgLatency_def latency_sum_ok_def)
qed

lemma baseCityScore_bounds:
  "baseCityScore now s city origin = -1 \<and> activeServers now s city = [] \<or>
   1 \<le> baseCityScore now s city origin \<and> baseCityScore now s city origin \<le> 3 \<and>
   activeServers now s city \<noteq> []"
  by (auto simp: baseCityScore_def Let_def sc_Unavailable_def sc_Poor_def sc_Excellent_def)

lemma connectionScore_bounds:
  "connectionScore now s uc city = -1 \<and> activeServers now s city = [] \<or>
   1 \<le> connectionScore now s uc city \<and> connectionScore now s uc city \<le> 4 \<and>
   activeServers now s city \<noteq> []"
  using baseCityScore_bounds [of now s city uc]
  by (auto simp: connectionScore_def Let_def sc_Unavailable_def sc_Excellent_def)

lemma multiHopScore_bounds:
  "multiHopScore now s scm country cityName city = -1 \<and> activeServers now s city = [] \<or>
   0 \<le> multiHopScore now s scm country cityName city \<and>
   multiHopScore now s scm country cityName city \<le> 4 \<and> activeServers now s city \<noteq> []"
  using baseCityScore_bounds [of now s city country]
  by (auto simp: multiHopScore_def Let_def sc_Unavailable_def sc_Excellent_def sc_NoData_def)

section \<open>Properties\<close>

text \<open>
  In every state the latency component reaches from its initial one by any sequence of its
  handlers (under a clock that does not run backwards), the latency table has distinct keys and
  non-negative entries and \<^verbatim>\<open>m_sumLatencyMsec\<close> is their sum; at most eight pings are outstanding,
  none retried more than twice; the progress lies between 0 and 1; and a measurement in progress
  always has an outstanding ping and a running timeout of at most five seconds, so it cannot
  stall.\<close>

theorem latency_reachable:
  assumes "lat.enabled_run emptyLatency es"
  defines "s \<equiv> fold (\<lambda>e t. lat_step t e) es emptyLatency"
  shows "distinct (map fst (sl_latency s)) \<and> (\<forall>l \<in> snd ` set (sl_latency s). 0 \<le> l) \<and>
    sl_sum s = sum_list (map snd (sl_latency s)) \<and>
    length (sl_replyList s) \<le> 8 \<and> (\<forall>r \<in> set (sl_replyList s). p_retries r \<le> 2) \<and>
    0 \<le> progress s \<and> progress s \<le> 1 \<and>
    (if sl_pingSender s = None
     then sl_replyList s = [] \<and> sl_sendQueue s = []
     else sl_replyList s \<noteq> [] \<and> (\<exists>t. sl_pingTimeout s = Some t \<and> 0 < t \<and> t \<le> 5000))"
proof -
  have inv: "lat_inv s" unfolding s_def by (rule lat.run_init_inv [OF refl assms(1)])
  show ?thesis
  proof (cases "sl_pingSender s")
    case None
    with inv show ?thesis by (simp add: lat_inv_def latency_sum_ok_def progress_def)
  next
    case (Some p)
    with inv obtain t where t: "window_ok t s" "sl_replyList s \<noteq> []"
      "\<forall>r \<in> set (sl_replyList s). \<not> ping_expired t r"
      "sl_pingTimeout s = Some (SERVER_LATENCY_TIMEOUT - (t - p_timestamp (hd (sl_replyList s))))"
      by (auto simp: lat_inv_def split: option.splits)
    have "hd (sl_replyList s) \<in> set (sl_replyList s)" using t(2) by simp
    then have hd: "p_timestamp (hd (sl_replyList s)) \<le> t" "\<not> ping_expired t (hd (sl_replyList s))"
      using t(1,3) by (auto simp: window_ok_def)
    have "real (length (sl_replyList s) + length (sl_sendQueue s)) \<le> real (sl_sendTotal s)"
      using t(1) by (simp add: window_ok_def del: of_nat_add)
    then have "0 \<le> progress s \<and> progress s \<le> 1"
      by (simp add: progress_def divide_le_eq_1)
    moreover have "\<exists>d. sl_pingTimeout s = Some d \<and> 0 < d \<and> d \<le> 5000"
      using t(4) hd by (simp add: ping_expired_def SERVER_LATENCY_TIMEOUT_def)
    ultimately show ?thesis using inv t(1,2) Some
      by (simp add: lat_inv_def latency_sum_ok_def window_ok_def SERVER_LATENCY_MAX_PARALLEL_def
          SERVER_LATENCY_MAX_RETRIES_def)
  qed
qed

definition sample_env :: "int \<Rightarrow> latency_env" where
  "sample_env now = \<lparr>le_now = now, le_scm = sample_model, le_location = emptyLocation,
     le_scoreSupported = True, le_stateOff = True, le_icmpValid = True, le_ios = False,
     le_appActive = True\<rparr>"

theorem latency_reachable_witness:
  "let s = fold (\<lambda>e t. lat_step t e) [(sample_env 0, LSetCooldown ''pk'' 300), (sample_env 1, LRefresh)] emptyLatency
   in length (sl_replyList s) \<le> 8 \<and> sl_sum s = sum_list (map snd (sl_latency s))"
proof -
  have "lat.enabled_run emptyLatency
      [(sample_env 0, LSetCooldown ''pk'' 300), (sample_env 1, LRefresh)]"
    by (simp add: lat.enabled_run.simps setCooldown_def Let_def emptyLatency_def)
  from latency_reachable [OF this] show ?thesis by (simp add: Let_def)
qed

text \<open>
  \<^verbatim>\<open>avgLatency\<close> in every reachable state with measurements is the mean of the table rounded
  up; with no measurement it is 0.\<close>

theorem avgLatency_mean:
  assumes "lat.enabled_run emptyLatency es"
  defines "s \<equiv> fold (\<lambda>e t. lat_step t e) es emptyLatency"
  shows "avgLatency s =
    (if sl_latency s = [] then 0
     else \<lceil>real_of_int (sum_list (map snd (sl_latency s))) / real (length (sl_latency s))\<rceil>)"
proof -
  have "latency_sum_ok s"
    using lat.run_init_inv [OF refl assms(1)] by (simp add: s_def lat_inv_def)
  then show ?thesis using avgLatency_ceiling by (simp add: avgLatency_def)
qed

theorem avgLatency_mean_witness:
  "avgLatency (fold (\<lambda>e t. lat_step t e) [(sample_env 0, LInitialize)] emptyLatency) = 0"
proof -
  have "lat.enabled_run emptyLatency [(sample_env 0, LInitialize)]"
    by (simp add: lat.enabled_run.simps emptyLatency_def)
  from avgLatency_mean [OF this] show ?thesis
    by (simp add: lat_initialize_def sample_env_def emptyLatency_def)
qed

text \<open>
  Connection scores: \<^verbatim>\<open>connectionScore\<close> is \<^verbatim>\<open>Unavailable\<close> exactly for a city all of whose
  servers are in cooldown and otherwise lies between \<^verbatim>\<open>Poor\<close> and \<^verbatim>\<open>Excellent\<close>;
  \<^verbatim>\<open>multiHopScore\<close> likewise, with \<^verbatim>\<open>NoData\<close> for an unknown entry city.\<close>

theorem scores_range:
  "(if \<forall>pk \<in> set (c_servers city). now < getCooldown s pk
    then connectionScore now s uc city = -1 \<and> multiHopScore now s scm k n city = -1
    else connectionScore now s uc city \<in> {1..4} \<and> multiHopScore now s scm k n city \<in> {0..4} \<and>
      (multiHopScore now s scm k n city = 0 \<longleftrightarrow> \<not> city_initialized (findCity scm k n)))"
proof -
  have none: "activeServers now s city = [] \<longleftrightarrow> (\<forall>pk \<in> set (c_servers city). now < getCooldown s pk)"
    by (auto simp: activeServers_def filter_empty_conv)
  have "activeServers now s city \<noteq> [] \<Longrightarrow>
      multiHopScore now s scm k n city = 0 \<longleftrightarrow> \<not> city_initialized (findCity scm k n)"
    using baseCityScore_bounds [of now s city k]
    by (auto simp: multiHopScore_def Let_def sc_Unavailable_def sc_Excellent_def sc_NoData_def)
  then show ?thesis
    using none connectionScore_bounds [of now s uc city] multiHopScore_bounds [of now s scm k n city]
    by auto
qed

theorem scores_range_witness:
  "connectionScore 5 (setCooldown (sample_env 5000) ''pk'' 300 emptyLatency) ''no''
     (emptyCity\<lparr>c_servers := [''pk'']\<rparr>) = -1"
  using scores_range [where city = "emptyCity\<lparr>c_servers := [''pk'']\<rparr>" and now = 5
      and s = "setCooldown (sample_env 5000) ''pk'' 300 emptyLatency" and uc = "''no''"]
  by (simp add: getCooldown_setCooldown now_sec_def sample_env_def)

text \<open>
  \<^verbatim>\<open>setCooldownForAllServersInACity\<close> puts exactly the servers of the cities with the given code
  in cooldown for five minutes and changes no other cooldown, so each such city scores
  \<^verbatim>\<open>Unavailable\<close> until then; the country code plays no part.\<close>

theorem city_cooldown_exact:
  fixes s :: server_latency and country :: string
  assumes "(key, city) \<in> set (m_cities scm)" "c_code city = code" "now < now_sec env + 300"
  defines "s' \<equiv> setCooldownForAllServersInACity
                  (\<lambda>pk. setCooldown env pk SERVER_UNRESPONSIVE_COOLDOWN_SEC) country code scm s"
  shows "connectionScore now s' uc city = -1 \<and>
    getCooldown s' pk =
      (if \<exists>c \<in> snd ` set (m_cities scm). c_code c = code \<and> pk \<in> set (c_servers c)
       then now_sec env + 300 else getCooldown s pk)"
proof -
  have g: "getCooldown s' pk =
      (if \<exists>c \<in> snd ` set (m_cities scm). c_code c = code \<and> pk \<in> set (c_servers c)
       then now_sec env + 300 else getCooldown s pk)" for pk
    using cd.get_setCooldownForAllServersInACity [of env country code scm s pk]
    by (simp only: s'_def SERVER_UNRESPONSIVE_COOLDOWN_SEC_def)
  then have "activeServers now s' city = []"
    using assms(1,2,3) by (force simp: activeServers_def filter_empty_conv)
  with g show ?thesis using connectionScore_bounds by blast
qed

theorem city_cooldown_exact_witness:
  "getCooldown (setCooldownForAllServersInACity
      (\<lambda>pk. setCooldown (sample_env 0) pk SERVER_UNRESPONSIVE_COOLDOWN_SEC) ''no'' ''osl'' sample_model
      emptyLatency) ''pk'' = 300"
proof -
  have m: "m_cities sample_model = [(''Oslo,no'', \<lparr>c_country = ''no'', c_name = ''Oslo'',
      c_code = ''osl'', c_hashKey = [], c_latitude = 59, c_longitude = 10, c_servers = [''pk'']\<rparr>)]"
    by (simp add: sample_model_def sample_read)
  show ?thesis
    using city_cooldown_exact [where scm = sample_model and env = "sample_env 0" and now = 0
        and key = "''Oslo,no''" and code = "''osl''" and pk = "''pk''"]
    by (simp add: m now_sec_def sample_env_def)
qed

end
