(* ===== verification/RecommendedLocationModel.thy ===== *)
theory RecommendedLocationModel
  imports ServerLatency "HOL-Library.Multiset"
begin

text \<open>
  Model of \<^verbatim>\<open>src/src/models/recommendedlocationmodel.cpp\<close>: the ranking of the cities and the
  bounded insertion that keeps the best of them, with the refresh timer of the list model.  The
  two vectors of the source, ranks and cities, are kept as two lists.
\<close>

definition DEFAULT_ENTRIES :: nat where
  "DEFAULT_ENTRIES = 5"

definition REFRESH_TIMER_MSEC :: int where
  "REFRESH_TIMER_MSEC = 2000"

definition latencyScale :: "server_latency \<Rightarrow> real" where
  "latencyScale sl = (if real_of_int (avgLatency sl) < 100 then 100 else real_of_int (avgLatency sl))"

definition cityRanking :: "latency_env \<Rightarrow> server_latency \<Rightarrow> server_city \<Rightarrow> real" where
  "cityRanking env sl city =
     real_of_int (connectionScore (now_sec env) sl (l_countryCode (le_location env)) city) * 256
     - real_of_int (city_latency sl city) / latencyScale sl
     - loc_distance (le_location env) (Some (c_latitude city)) (Some (c_longitude city))"

fun rank_position :: "real \<Rightarrow> real list \<Rightarrow> nat" where
  "rank_position r [] = 0"
| "rank_position r (x # xs) = (if x < r then 0 else Suc (rank_position r xs))"

definition insert_at :: "nat \<Rightarrow> 'a \<Rightarrow> 'a list \<Rightarrow> 'a list" where
  "insert_at i x xs = take i xs @ x # drop i xs"

definition rank_insert ::
    "nat \<Rightarrow> (server_city \<Rightarrow> real) \<Rightarrow> server_city \<Rightarrow> real list \<times> server_city list \<Rightarrow>
     real list \<times> server_city list" where
  "rank_insert maxResults rank city = (\<lambda>(rankResults, cityResults).
    (let i = rank_position (rank city) rankResults;
         (rs, cs) = (if i < maxResults
                     then (insert_at i (rank city) rankResults, insert_at i city cityResults)
                     else (rankResults, cityResults))
     in if length rs > maxResults then (take maxResults rs, take maxResults cs) else (rs, cs)))"

definition recommendedLocations ::
    "latency_env \<Rightarrow> server_latency \<Rightarrow> nat \<Rightarrow> server_city list" where
  "recommendedLocations env sl maxResults =
     snd (fold (rank_insert maxResults (cityRanking env sl)) (map snd (m_cities (le_scm env))) ([], []))"

datatype rlm_out = ModelReset | DataChanged nat

record recommended_model =
  rl_cities :: "server_city list"
  rl_timer :: "int option"
  rl_out :: "rlm_out list"

definition refreshModel :: "latency_env \<Rightarrow> server_latency \<Rightarrow> recommended_model \<Rightarrow> recommended_model" where
  "refreshModel env sl m =
    (let cities = recommendedLocations env sl DEFAULT_ENTRIES
     in m\<lparr>rl_cities := cities,
          rl_out := rl_out m @ [if length (rl_cities m) \<noteq> length cities then ModelReset
                                else DataChanged (length cities)]\<rparr>)"

definition maybeRefreshModel :: "latency_env \<Rightarrow> server_latency \<Rightarrow> recommended_model \<Rightarrow> recommended_model" where
  "maybeRefreshModel env sl m =
    (if sl_pingSender sl = None
     then (if rl_timer m \<noteq> None then refreshModel env sl (m\<lparr>rl_timer := None\<rparr>) else m)
     else (if rl_timer m = None then m\<lparr>rl_timer := Some REFRESH_TIMER_MSEC\<rparr> else m))"

section \<open>Bounded insertion and sorting\<close>

text \<open>Insertion behind the elements ranked at least as high, without a bound.\<close>

definition ins_desc :: "('a \<Rightarrow> real) \<Rightarrow> 'a \<Rightarrow> 'a list \<Rightarrow> 'a list" where
  "ins_desc f x ys = takeWhile (\<lambda>y. f x \<le> f y) ys @ x # dropWhile (\<lambda>y. f x \<le> f y) ys"

lemma rank_position_takeWhile:
  "rank_position (f x) (map f ys) = length (takeWhile (\<lambda>y. f x \<le> f y) ys)"
  by (induction ys) auto

lemma insert_at_takeWhile:
  "insert_at (length (takeWhile (\<lambda>y. f x \<le> f y) ys)) x ys = ins_desc f x ys"
  by (simp add: insert_at_def ins_desc_def takeWhile_eq_take [symmetric] dropWhile_eq_drop [symmetric])

lemma map_ins_desc: "map f (ins_desc f x ys) = insert_at (length (takeWhile (\<lambda>y. f x \<le> f y) ys)) (f x) (map f ys)"
  by (simp add: insert_at_takeWhile [symmetric] insert_at_def take_map drop_map)

lemma length_ins_desc [simp]: "length (ins_desc f x ys) = Suc (length ys)"
  by (simp add: ins_desc_def) (metis length_append takeWhile_dropWhile_id)

lemma takeWhile_take_length:
  "length (takeWhile P (take k ys)) = min k (length (takeWhile P ys))"
  by (induction ys arbitrary: k) (auto simp: take_Cons split: nat.splits)

lemma take_ins_desc:
  "take k (ins_desc f x ys) =
    (if length (takeWhile (\<lambda>y. f x \<le> f y) (take k ys)) < k
     then take k (ins_desc f x (take k ys)) else take k ys)"
proof -
  let ?P = "\<lambda>y. f x \<le> f y"
  let ?n = "length (takeWhile ?P ys)"
  have ins: "ins_desc f x zs = take (length (takeWhile ?P zs)) zs @ x # drop (length (takeWhile ?P zs)) zs" for zs
    by (simp add: insert_at_takeWhile [symmetric] insert_at_def)
  show ?thesis
  proof (cases "?n < k")
    case True
    then have "length (takeWhile ?P (take k ys)) = ?n" by (simp add: takeWhile_take_length)
    with True show ?thesis
      by (simp add: ins take_Cons' drop_take min_def) 
  next
    case False
    then have "length (takeWhile ?P (take k ys)) = k" by (simp add: takeWhile_take_length)
    moreover have "k \<le> length ys" using False length_takeWhile_le [of ?P ys] by linarith
    ultimately show ?thesis using False by (simp add: ins)
  qed
qed

lemma rank_insert_take:
  "rank_insert k f x (map f (take k ys), take k ys) =
     (map f (take k (ins_desc f x ys)), take k (ins_desc f x ys))"
proof -
  let ?zs = "take k ys"
  let ?i = "length (takeWhile (\<lambda>y. f x \<le> f y) ?zs)"
  show ?thesis
  proof (cases "?i < k")
    case True
    then have "rank_insert k f x (map f ?zs, ?zs) =
        (map f (take k (ins_desc f x ?zs)), take k (ins_desc f x ?zs))"
      by (auto simp: rank_insert_def Let_def rank_position_takeWhile insert_at_takeWhile
          map_ins_desc [symmetric] take_map)
    with True show ?thesis by (simp add: take_ins_desc [of k f x ys])
  next
    case False
    then show ?thesis
      by (simp add: rank_insert_def rank_position_takeWhile take_ins_desc [of k f x ys])
  qed
qed

lemma fold_rank_insert:
  "fold (rank_insert k f) xs (map f (take k ys), take k ys) =
     (map f (take k (fold (ins_desc f) xs ys)), take k (fold (ins_desc f) xs ys))"
  by (induction xs arbitrary: ys) (simp_all add: rank_insert_take)

lemma ins_desc_sort_key:
  "ins_desc f x (sort_key (\<lambda>y. - f y) xs) = sort_key (\<lambda>y. - f y) (xs @ [x])"
proof (rule properties_for_sort_key [symmetric])
  let ?g = "\<lambda>y. - f y" and ?P = "\<lambda>y. f x \<le> f y"
  let ?ys = "sort_key ?g xs"
  have split: "takeWhile ?P ?ys @ dropWhile ?P ?ys = ?ys" by simp
  have sorted: "sorted (map ?g ?ys)" by simp
  then have sorted_parts: "sorted (map ?g (takeWhile ?P ?ys) @ map ?g (dropWhile ?P ?ys))"
    using split by (metis map_append)
  have low: "\<forall>y \<in> set (dropWhile ?P ?ys). f y < f x"
  proof (cases "dropWhile ?P ?ys")
    case Nil
    then show ?thesis by (simp only: list.set ball_empty)
  next
    case (Cons y zs)
    then have "f y < f x" using hd_dropWhile [of ?P ?ys] by simp
    moreover have "\<forall>z \<in> set zs. f z \<le> f y" using sorted_parts Cons by (simp add: sorted_append)
    ultimately show ?thesis using Cons by fastforce
  qed
  show "mset (ins_desc f x ?ys) = mset (xs @ [x])"
    by (simp add: ins_desc_def) (metis mset_append mset_sort split)
  show "sorted (map ?g (ins_desc f x ?ys))"
    using sorted_parts low by (auto simp: ins_desc_def sorted_append dest: set_takeWhileD intro: less_imp_le)
  fix k
  have "filter (\<lambda>y. ?g k = ?g y) ?ys = filter (\<lambda>y. ?g k = ?g y) xs"
    using sort_key_stable [of ?g "?g k" xs] by (simp add: eq_commute)
  moreover have "filter (\<lambda>y. ?g k = ?g y) ?ys =
      filter (\<lambda>y. ?g k = ?g y) (takeWhile ?P ?ys) @ filter (\<lambda>y. ?g k = ?g y) (dropWhile ?P ?ys)"
    using split by (metis filter_append)
  moreover have "f k = f x \<Longrightarrow> filter (\<lambda>y. ?g k = ?g y) (dropWhile ?P ?ys) = []"
    using low by (auto simp: filter_empty_conv)
  ultimately show "filter (\<lambda>y. ?g k = ?g y) (ins_desc f x ?ys) = filter (\<lambda>y. ?g k = ?g y) (xs @ [x])"
    by (auto simp: ins_desc_def)
qed

lemma fold_ins_desc: "fold (ins_desc f) xs [] = sort_key (\<lambda>y. - f y) xs"
  by (induction xs rule: rev_induct) (simp_all add: ins_desc_sort_key)

text \<open>
  \<^verbatim>\<open>recommendedLocations(n)\<close>, which inserts each city into a vector cut to \<open>n\<close> entries,
  returns the first \<open>n\<close> cities of the whole list sorted by descending ranking, cities of equal
  ranking in table order.\<close>

theorem recommendedLocations_best:
  "recommendedLocations env sl n =
     take n (sort_key (\<lambda>c. - cityRanking env sl c) (map snd (m_cities (le_scm env))))"
  using fold_rank_insert [of n "cityRanking env sl" "map snd (m_cities (le_scm env))" "[]"]
  by (simp add: recommendedLocations_def fold_ins_desc)

end
