(* ===== verification/IPAddress.thy ===== *)
theory IPAddress
  imports Prelude
begin

text \<open>
  Model of \<^verbatim>\<open>src/src/ipaddress.cpp\<close>: addresses with a prefix length, their masks, containment,
  overlap, subnet order, splitting and exclusion.  The operations follow the source branch by branch
  (32-bit words for IPv4, sixteen bytes for IPv6).  Their meaning is stated over the big-endian bit
  string of an address: \<open>addrs ip\<close> is the set of addresses that share the first
  \<open>m_prefixLength\<close> bits.  The exclusion loop may fail to return in the source, so it is a
  \<open>partial_function (option)\<close>; that it returns on network addresses is a theorem.
\<close>

unbundle bit_operations_syntax

section \<open>Host addresses\<close>

text \<open>
  The part of \<^verbatim>\<open>QHostAddress\<close> the source uses: a protocol tag and the raw address.  Any
  protocol other than IPv4 and IPv6 is \<open>NullAddress\<close>.
\<close>

datatype protocol = IPv4Protocol | IPv6Protocol | UnknownNetworkLayerProtocol

datatype host_address = NullAddress | IPv4 "32 word" | IPv6 "8 word list"

fun protocol_of :: "host_address \<Rightarrow> protocol" where
  "protocol_of NullAddress = UnknownNetworkLayerProtocol"
| "protocol_of (IPv4 _) = IPv4Protocol"
| "protocol_of (IPv6 _) = IPv6Protocol"

fun wf_host :: "host_address \<Rightarrow> bool" where
  "wf_host NullAddress = False"
| "wf_host (IPv4 _) = True"
| "wf_host (IPv6 bs) = (length bs = 16)"

fun width_of :: "host_address \<Rightarrow> nat" where
  "width_of NullAddress = 0"
| "width_of (IPv4 _) = 32"
| "width_of (IPv6 _) = 128"

definition bytes_bits :: "8 word list \<Rightarrow> bool list" where
  "bytes_bits bs = concat (map wbits bs)"

fun host_bits :: "host_address \<Rightarrow> bool list" where
  "host_bits NullAddress = []"
| "host_bits (IPv4 w) = wbits w"
| "host_bits (IPv6 bs) = bytes_bits bs"

section \<open>The class and its operations\<close>

record ip_address =
  m_address :: host_address
  m_prefixLength :: int

abbreviation pfx :: "ip_address \<Rightarrow> nat" where
  "pfx ip \<equiv> nat (m_prefixLength ip)"

definition memset :: "'a list \<Rightarrow> nat \<Rightarrow> 'a \<Rightarrow> nat \<Rightarrow> 'a list" where
  "memset buf off v n = take off buf @ replicate n v @ drop (off + n) buf"

text \<open>
  \<^verbatim>\<open>IPAddress(const QString&)\<close>; \<open>parseSubnet\<close> and \<open>parseHost\<close> stand for the two Qt
  parsers (\<^verbatim>\<open>QHostAddress::parseSubnet\<close>, \<^verbatim>\<open>QHostAddress(QString)\<close>).
\<close>

definition IPAddress_of_string ::
  "(string \<Rightarrow> host_address \<times> int) \<Rightarrow> (string \<Rightarrow> host_address) \<Rightarrow> string \<Rightarrow> ip_address" where
  "IPAddress_of_string parseSubnet parseHost ip =
    (let (address, prefixLength) =
           (if CHR ''/'' \<in> set ip then parseSubnet ip else (parseHost ip, 999999))
     in case protocol_of address of
          IPv4Protocol \<Rightarrow>
            \<lparr>m_address = address, m_prefixLength = if prefixLength \<ge> 32 then 32 else prefixLength\<rparr>
        | IPv6Protocol \<Rightarrow>
            \<lparr>m_address = address, m_prefixLength = if prefixLength \<ge> 128 then 128 else prefixLength\<rparr>
        | UnknownNetworkLayerProtocol \<Rightarrow>
            \<lparr>m_address = address, m_prefixLength = prefixLength\<rparr>)"

definition IPAddress_of_host :: "host_address \<Rightarrow> ip_address" where
  "IPAddress_of_host address =
    \<lparr>m_address = address,
     m_prefixLength = if protocol_of address = IPv4Protocol then 32 else 128\<rparr>"

definition IPAddress_of_prefix :: "host_address \<Rightarrow> int \<Rightarrow> ip_address" where
  "IPAddress_of_prefix address prefixLength =
    \<lparr>m_address = address, m_prefixLength = prefixLength\<rparr>"

definition netmask4 :: "nat \<Rightarrow> 32 word" where
  "netmask4 n = (if n < 32 then 0xffffffff XOR drop_bit n 0xffffffff else 0xffffffff)"

definition netmask6 :: "nat \<Rightarrow> 8 word list" where
  "netmask6 n =
    (let raw = memset (replicate 16 0) 0 0xff (n div 8)
     in if n mod 8 \<noteq> 0 then raw[n div 8 := 0xFF XOR drop_bit (n mod 8) 0xFF] else raw)"

definition netmask :: "ip_address \<Rightarrow> host_address" where
  "netmask ip =
    (case m_address ip of
       IPv6 _ \<Rightarrow> IPv6 (netmask6 (pfx ip))
     | IPv4 _ \<Rightarrow> IPv4 (netmask4 (pfx ip))
     | NullAddress \<Rightarrow> NullAddress)"

definition hostmask4 :: "nat \<Rightarrow> 32 word" where
  "hostmask4 n = (if n < 32 then drop_bit n 0xffffffff else 0)"

definition hostmask6 :: "nat \<Rightarrow> 8 word list" where
  "hostmask6 n =
    (let offset = (n + 7) div 8;
         raw = memset (replicate 16 0) offset 0xff (16 - offset)
     in if n mod 8 \<noteq> 0 then raw[n div 8 := drop_bit (n mod 8) 0xFF] else raw)"

definition hostmask :: "ip_address \<Rightarrow> host_address" where
  "hostmask ip =
    (case m_address ip of
       IPv6 _ \<Rightarrow> IPv6 (hostmask6 (pfx ip))
     | IPv4 _ \<Rightarrow> IPv4 (hostmask4 (pfx ip))
     | NullAddress \<Rightarrow> NullAddress)"

definition broadcast4 :: "32 word \<Rightarrow> nat \<Rightarrow> 32 word" where
  "broadcast4 raw n = (if n < 32 then raw OR drop_bit n 0xffffffff else raw)"

definition broadcast6 :: "8 word list \<Rightarrow> nat \<Rightarrow> 8 word list" where
  "broadcast6 raw0 n =
    (let offset = (n + 7) div 8;
         raw = memset raw0 offset 0xff (16 - offset)
     in if n mod 8 \<noteq> 0
        then raw[n div 8 := raw ! (n div 8) OR drop_bit (n mod 8) 0xFF] else raw)"

definition broadcastAddress :: "ip_address \<Rightarrow> host_address" where
  "broadcastAddress ip =
    (case m_address ip of
       IPv6 bs \<Rightarrow> IPv6 (broadcast6 bs (pfx ip))
     | IPv4 w \<Rightarrow> IPv4 (broadcast4 w (pfx ip))
     | NullAddress \<Rightarrow> NullAddress)"

definition contains4 :: "32 word \<Rightarrow> nat \<Rightarrow> 32 word \<Rightarrow> bool" where
  "contains4 a n b =
    (let diff = a XOR b;
         diff' = (if n < 32 then drop_bit (32 - n) diff else diff)
     in diff' = 0)"

definition contains6 :: "8 word list \<Rightarrow> nat \<Rightarrow> 8 word list \<Rightarrow> bool" where
  "contains6 a n b =
    (let bytes = n div 8
     in if bytes > 0 \<and> take bytes a \<noteq> take bytes b then False
        else if n mod 8 \<noteq> 0 then drop_bit (8 - n mod 8) (a ! bytes XOR b ! bytes) = 0
        else True)"

definition contains :: "ip_address \<Rightarrow> host_address \<Rightarrow> bool" where
  "contains ip address =
    (if protocol_of address \<noteq> protocol_of (m_address ip) then False
     else if m_prefixLength ip = 0 then True
     else case (m_address ip, address) of
            (IPv6 a, IPv6 b) \<Rightarrow> contains6 a (pfx ip) b
          | (IPv4 a, IPv4 b) \<Rightarrow> contains4 a (pfx ip) b
          | _ \<Rightarrow> False)"

definition overlaps :: "ip_address \<Rightarrow> ip_address \<Rightarrow> bool" where
  "overlaps ip other =
    (if m_prefixLength ip < m_prefixLength other then contains ip (m_address other)
     else contains other (m_address ip))"

definition subnetOf :: "ip_address \<Rightarrow> ip_address \<Rightarrow> bool" where
  "subnetOf ip other =
    (if protocol_of (m_address other) \<noteq> protocol_of (m_address ip) then False
     else if m_prefixLength ip < m_prefixLength other then False
     else contains other (m_address ip))"

definition setbit4 :: "32 word \<Rightarrow> nat \<Rightarrow> 32 word" where
  "setbit4 raw n = raw OR drop_bit n 0x80000000"

definition setbit6 :: "8 word list \<Rightarrow> nat \<Rightarrow> 8 word list" where
  "setbit6 raw n = raw[n div 8 := raw ! (n div 8) OR drop_bit (n mod 8) 0x80]"

definition subnets :: "ip_address \<Rightarrow> ip_address list" where
  "subnets ip =
    (case m_address ip of
       IPv4 raw \<Rightarrow>
         if m_prefixLength ip \<ge> 32 then [ip]
         else [IPAddress_of_prefix (IPv4 raw) (m_prefixLength ip + 1),
               IPAddress_of_prefix (IPv4 (setbit4 raw (pfx ip))) (m_prefixLength ip + 1)]
     | IPv6 raw \<Rightarrow>
         if m_prefixLength ip \<ge> 128 then [ip]
         else [IPAddress_of_prefix (IPv6 raw) (m_prefixLength ip + 1),
               IPAddress_of_prefix (IPv6 (setbit6 raw (pfx ip))) (m_prefixLength ip + 1)]
     | NullAddress \<Rightarrow> [])"

text \<open>
  \<^verbatim>\<open>IPAddress::excludeAddresses(const IPAddress&)\<close>: the loop keeps the half that holds \<open>ip\<close>.
  Where neither half holds it the source has \<^verbatim>\<open>Q_ASSERT(false)\<close>, a no-op in release builds, and
  loops on the same pair for ever; a list of fewer than two halves is an out-of-range read.  Both
  are \<open>None\<close>.
\<close>

partial_function (option) exclude_loop ::
  "ip_address \<Rightarrow> ip_address list \<Rightarrow> ip_address list \<Rightarrow> ip_address list option" where
  "exclude_loop ip sn result =
    (case sn of
       sn0 # sn1 # _ \<Rightarrow>
         if sn0 \<noteq> ip \<and> sn1 \<noteq> ip then
           if subnetOf ip sn0 then exclude_loop ip (subnets sn0) (result @ [sn1])
           else if subnetOf ip sn1 then exclude_loop ip (subnets sn1) (result @ [sn0])
           else exclude_loop ip sn result
         else if sn0 = ip then Some (result @ [sn1])
         else Some (result @ [sn0])
     | _ \<Rightarrow> None)"

definition excludeAddress :: "ip_address \<Rightarrow> ip_address \<Rightarrow> ip_address list option" where
  "excludeAddress self ip = exclude_loop ip (subnets self) []"

fun exclude_one :: "ip_address \<Rightarrow> ip_address list \<Rightarrow> ip_address list option" where
  "exclude_one ex [] = Some []"
| "exclude_one ex (ip # ips) =
    (if \<not> overlaps ip ex then map_option (\<lambda>rest. ip # rest) (exclude_one ex ips)
     else if subnetOf ex ip \<and> ex \<noteq> ip then
       (case excludeAddress ip ex of
          None \<Rightarrow> None
        | Some rng \<Rightarrow> map_option (\<lambda>rest. rng @ rest) (exclude_one ex ips))
     else exclude_one ex ips)"

fun excludeAddresses :: "ip_address list \<Rightarrow> ip_address list \<Rightarrow> ip_address list option" where
  "excludeAddresses results [] = Some results"
| "excludeAddresses results (ex # exs) =
    (case exclude_one ex results of
       None \<Rightarrow> None
     | Some newResults \<Rightarrow> excludeAddresses newResults exs)"

section \<open>The contract both address families implement\<close>

text \<open>
  IPv4 and IPv6 use different code for the same operations.  The contract states each of them on
  the bit string of an address; what follows from it is proved once, and both families
  interpret it.
\<close>

locale prefix_family =
  fixes bits :: "'a \<Rightarrow> bool list"
    and valid :: "'a \<Rightarrow> bool"
    and width :: nat
    and cont :: "'a \<Rightarrow> nat \<Rightarrow> 'a \<Rightarrow> bool"
    and setb :: "'a \<Rightarrow> nat \<Rightarrow> 'a"
    and nmask :: "nat \<Rightarrow> 'a"
    and hmask :: "nat \<Rightarrow> 'a"
    and bcast :: "'a \<Rightarrow> nat \<Rightarrow> 'a"
  assumes bits_length: "valid a \<Longrightarrow> length (bits a) = width"
    and bits_inj: "valid a \<Longrightarrow> valid b \<Longrightarrow> bits a = bits b \<Longrightarrow> a = b"
    and bits_surj: "length xs = width \<Longrightarrow> \<exists>a. valid a \<and> bits a = xs"
    and cont_bits: "valid a \<Longrightarrow> valid b \<Longrightarrow> n \<le> width \<Longrightarrow>
          cont a n b \<longleftrightarrow> take n (bits a) = take n (bits b)"
    and setb_valid: "valid a \<Longrightarrow> n < width \<Longrightarrow> valid (setb a n)"
    and setb_bits: "valid a \<Longrightarrow> n < width \<Longrightarrow> bits (setb a n) = (bits a)[n := True]"
    and nmask_bits: "n \<le> width \<Longrightarrow> bits (nmask n) = replicate n True @ replicate (width - n) False"
    and hmask_bits: "n \<le> width \<Longrightarrow> bits (hmask n) = replicate n False @ replicate (width - n) True"
    and bcast_valid: "valid a \<Longrightarrow> n \<le> width \<Longrightarrow> valid (bcast a n)"
    and bcast_bits: "valid a \<Longrightarrow> n \<le> width \<Longrightarrow>
          bits (bcast a n) = take n (bits a) @ replicate (width - n) True"
begin

lemma masks_complement:
  assumes "n \<le> width"
  shows "bits (hmask n) = map Not (bits (nmask n))"
  using assms by (simp add: nmask_bits hmask_bits)

lemma cont_bcast:
  assumes "valid a" "n \<le> width"
  shows "cont a n (bcast a n)"
  using assms by (simp add: cont_bits bcast_valid bcast_bits bits_length)

lemma cont_split:
  assumes "valid a" "valid b" "n < width" "\<not> bits a ! n"
  shows "cont a n b \<longleftrightarrow> cont a (Suc n) b \<or> cont (setb a n) (Suc n) b"
proof -
  have la: "length (bits a) = width" and lb: "length (bits b) = width"
    using assms by (simp_all add: bits_length)
  have "take (Suc n) ((bits a)[n := True]) = take n (bits a) @ [True]"
    using la assms(3) by (simp add: take_Suc_conv_app_nth)
  moreover have "take (Suc n) (bits a) = take n (bits a) @ [False]"
    using la assms(3,4) by (simp add: take_Suc_conv_app_nth)
  moreover have "take (Suc n) (bits b) = take n (bits b) @ [bits b ! n]"
    using lb assms(3) by (simp add: take_Suc_conv_app_nth)
  ultimately show ?thesis
    using assms by (auto simp: cont_bits setb_valid setb_bits)
qed

lemma cont_split_disjoint:
  assumes "valid a" "valid b" "n < width" "\<not> bits a ! n"
  shows "\<not> (cont a (Suc n) b \<and> cont (setb a n) (Suc n) b)"
proof -
  have la: "length (bits a) = width" using assms by (simp add: bits_length)
  have "take (Suc n) ((bits a)[n := True]) = take n (bits a) @ [True]"
    "take (Suc n) (bits a) = take n (bits a) @ [False]"
    using la assms(3,4) by (simp_all add: take_Suc_conv_app_nth)
  then have "take (Suc n) ((bits a)[n := True]) \<noteq> take (Suc n) (bits a)" by simp
  then show ?thesis using assms by (auto simp: cont_bits setb_valid setb_bits)
qed

lemma cont_trans:
  assumes "valid a" "valid b" "valid c" "n \<le> m" "m \<le> width" "cont a n b" "cont b m c"
  shows "cont a n c"
  using assms by (simp add: cont_bits) (metis take_le_eq)

lemma cont_common:
  assumes "valid a" "valid b" "valid c" "n \<le> m" "m \<le> width" "cont a n c" "cont b m c"
  shows "cont a n b"
  using assms by (simp add: cont_bits) (metis take_le_eq)

end

subsection \<open>IPv4 implements the contract\<close>

lemma all_ones32: "(0xffffffff :: 32 word) = - 1"
  by simp

lemma all_ones8: "(0xFF :: 8 word) = - 1"
  by simp

lemma bit_top32: "bit (0x80000000 :: 32 word) i \<longleftrightarrow> i = 31"
proof -
  have eq: "(0x80000000 :: 32 word) = 2 ^ 31" by simp
  show ?thesis unfolding eq bit_exp_iff by auto
qed

lemma bit_top8: "bit (0x80 :: 8 word) i \<longleftrightarrow> i = 7"
proof -
  have eq: "(0x80 :: 8 word) = 2 ^ 7" by simp
  show ?thesis unfolding eq bit_exp_iff by auto
qed

lemma wbits_surj: "length xs = LENGTH('a) \<Longrightarrow> \<exists>w :: 'a::len word. wbits w = xs"
  by (rule exI [of _ "horner_sum of_bool 2 (rev xs)"], rule wbits_eqI)
    (auto simp: bit_horner_sum_bit_word_iff rev_nth)

lemma contains4_bits:
  assumes "n \<le> 32"
  shows "contains4 a n b \<longleftrightarrow> take n (wbits a) = take n (wbits b)"
proof (cases "n < 32")
  case True
  have "drop_bit (LENGTH(32) - n) (xor a b) = 0 \<longleftrightarrow> take n (wbits a) = take n (wbits b)"
    by (rule drop_bit_xor_eq_0_iff) (use True in simp)
  with True show ?thesis by (simp add: contains4_def Let_def)
next
  case False
  with assms have "n = 32" by simp
  then show ?thesis
    using drop_bit_xor_eq_0_iff [of 32 a b] by (simp add: contains4_def)
qed

interpretation v4: prefix_family wbits "\<lambda>_. True" 32 contains4 setbit4 netmask4 hostmask4 broadcast4
proof
  fix a b :: "32 word" and n :: nat
  show "length (wbits a) = 32" by simp
  show "wbits a = wbits b \<Longrightarrow> a = b" by simp
  show "length xs = 32 \<Longrightarrow> \<exists>a :: 32 word. True \<and> wbits a = xs" for xs
    using wbits_surj [where 'a = 32, of xs] by simp
  show "n \<le> 32 \<Longrightarrow> contains4 a n b = (take n (wbits a) = take n (wbits b))"
    by (rule contains4_bits)
  show "n < 32 \<Longrightarrow> wbits (setbit4 a n) = (wbits a)[n := True]"
    by (rule wbits_eqI) (auto simp: setbit4_def nth_list_update nth_wbits bit_or_iff bit_drop_bit_eq bit_top32
        simp del: bit_numeral_word_iff)
  show "n \<le> 32 \<Longrightarrow> wbits (netmask4 n) = replicate n True @ replicate (32 - n) False"
    by (rule wbits_eqI)
      (auto simp: netmask4_def nth_append all_ones32 bit_xor_iff bit_not_iff bit_drop_bit_eq bit_mask_iff)
  show "n \<le> 32 \<Longrightarrow> wbits (hostmask4 n) = replicate n False @ replicate (32 - n) True"
    by (rule wbits_eqI) (auto simp: hostmask4_def nth_append all_ones32 bit_drop_bit_eq bit_mask_iff)
  show "n \<le> 32 \<Longrightarrow> wbits (broadcast4 a n) = take n (wbits a) @ replicate (32 - n) True"
    by (rule wbits_eqI)
      (auto simp: broadcast4_def nth_append nth_wbits all_ones32 bit_or_iff bit_drop_bit_eq bit_mask_iff)
qed simp_all

subsection \<open>IPv6 implements the contract\<close>

lemma length_bytes_bits [simp]: "length (bytes_bits bs) = 8 * length bs"
  by (induction bs) (simp_all add: bytes_bits_def)

lemma nth_bytes_bits:
  assumes "i < 8 * length bs"
  shows "bytes_bits bs ! i = bit (bs ! (i div 8)) (7 - i mod 8)"
proof -
  have "bytes_bits bs ! i = map wbits bs ! (i div 8) ! (i mod 8)"
    unfolding bytes_bits_def by (rule nth_concat_uniform) (use assms in auto)
  also have "\<dots> = bit (bs ! (i div 8)) (7 - i mod 8)"
    using assms by (simp add: nth_wbits less_mult_imp_div_less mult.commute)
  finally show ?thesis .
qed

lemma bytes_bits_eqI:
  assumes "length bs = 16" "length xs = 128"
    and "\<And>k j. k < 16 \<Longrightarrow> j < 8 \<Longrightarrow> bit (bs ! k) (7 - j) = xs ! (8 * k + j)"
  shows "bytes_bits bs = xs"
proof (rule nth_equalityI)
  show "length (bytes_bits bs) = length xs" using assms by simp
next
  fix i assume "i < length (bytes_bits bs)"
  then have i: "i < 128" using assms(1) by simp
  have "bit (bs ! (i div 8)) (7 - i mod 8) = xs ! (8 * (i div 8) + i mod 8)"
    by (rule assms(3)) (use i in auto)
  then show "bytes_bits bs ! i = xs ! i"
    using i assms(1) by (simp add: nth_bytes_bits)
qed

lemma index_less_iff:
  fixes k j n :: nat
  assumes "j < 8"
  shows "8 * k + j < n \<longleftrightarrow> k < n div 8 \<or> (k = n div 8 \<and> j < n mod 8)"
proof -
  have "n = 8 * (n div 8) + n mod 8" "n mod 8 < 8" by simp_all
  with assms show ?thesis by linarith
qed

lemma ceil_div8: "(n + 7) div 8 = (if n mod 8 = 0 then n div 8 else Suc (n div 8))" for n :: nat
  by presburger

lemma bytes_bits_inject:
  assumes "length a = length b" "bytes_bits a = bytes_bits b"
  shows "a = b"
proof -
  have "map wbits a = map wbits b"
    by (rule concat_uniform_inj [of _ 8]) (use assms in \<open>auto simp: bytes_bits_def\<close>)
  moreover have "inj (wbits :: 8 word \<Rightarrow> bool list)" by (auto intro: injI)
  ultimately show ?thesis by (simp add: inj_map_eq_map)
qed

lemma contains6_bits:
  assumes "length a = 16" "length b = 16" "n \<le> 128"
  shows "contains6 a n b \<longleftrightarrow> take n (bytes_bits a) = take n (bytes_bits b)"
proof -
  define k where "k = n div 8"
  define m where "m = n mod 8"
  have bound: "m = 0 \<or> k < 16" and "m < 8" using assms(3) unfolding k_def m_def by presburger+
  have tk: "take n (bytes_bits c) =
      bytes_bits (take k c) @ (if m = 0 then [] else take m (wbits (c ! k)))"
    if "length c = 16" for c :: "8 word list"
  proof -
    have "take n (concat (map wbits c)) = concat (take k (map wbits c)) @
        (if m = 0 then [] else take m (map wbits c ! k))"
      unfolding k_def m_def by (rule concat_take_uniform) (use assms that in auto)
    with bound that show ?thesis by (auto simp: bytes_bits_def take_map)
  qed
  have inj: "bytes_bits (take k a) = bytes_bits (take k b) \<longleftrightarrow> take k a = take k b"
    using bytes_bits_inject [of "take k a" "take k b"] assms by auto
  have byte: "drop_bit (8 - m) (x XOR y) = 0 \<longleftrightarrow> take m (wbits x) = take m (wbits y)"
    for x y :: "8 word"
    using drop_bit_xor_eq_0_iff [of m x y] \<open>m < 8\<close> by simp
  have "length (bytes_bits (take k a)) = length (bytes_bits (take k b))"
    using assms by simp
  then show ?thesis
    unfolding contains6_def Let_def k_def [symmetric] m_def [symmetric]
    by (auto simp: tk assms inj byte simp del: drop_bit_xor)
qed

lemma length_memset [simp]: "off + n \<le> length buf \<Longrightarrow> length (memset buf off v n) = length buf"
  by (simp add: memset_def)

lemma nth_memset:
  assumes "off + n \<le> length buf" "i < length buf"
  shows "memset buf off v n ! i = (if off \<le> i \<and> i < off + n then v else buf ! i)"
  using assms by (auto simp: memset_def nth_append)

lemma netmask6_nth:
  assumes "n \<le> 128" "k < 16" "j < 8"
  shows "bit (netmask6 n ! k) (7 - j) \<longleftrightarrow> 8 * k + j < n"
proof -
  have "netmask6 n ! k =
      (if k < n div 8 then - 1
       else if k = n div 8 \<and> n mod 8 \<noteq> 0 then - 1 XOR drop_bit (n mod 8) (- 1) else 0)"
    using assms unfolding netmask6_def Let_def all_ones8 by (auto simp: nth_memset nth_list_update)
  then show ?thesis
    using assms unfolding index_less_iff [OF assms(3)]
    by (auto simp: bit_xor_iff bit_not_iff bit_drop_bit_eq bit_mask_iff)
qed

lemma hostmask6_nth:
  assumes "n \<le> 128" "k < 16" "j < 8"
  shows "bit (hostmask6 n ! k) (7 - j) \<longleftrightarrow> n \<le> 8 * k + j"
proof -
  have len16: "n mod 8 = 0 \<or> n div 8 < 16" using assms(1) by presburger
  have "hostmask6 n ! k =
      (if k = n div 8 \<and> n mod 8 \<noteq> 0 then drop_bit (n mod 8) (- 1)
       else if n div 8 \<le> k then - 1 else 0)"
    using assms len16 unfolding hostmask6_def Let_def all_ones8 ceil_div8
    by (auto simp: nth_memset nth_list_update)
  then show ?thesis
    using assms unfolding not_less [symmetric] index_less_iff [OF assms(3)]
    by (auto simp: bit_drop_bit_eq bit_mask_iff)
qed

lemma broadcast6_nth:
  assumes "n \<le> 128" "k < 16" "j < 8" "length bs = 16"
  shows "bit (broadcast6 bs n ! k) (7 - j) \<longleftrightarrow> n \<le> 8 * k + j \<or> bit (bs ! k) (7 - j)"
proof -
  have len16: "n mod 8 = 0 \<or> n div 8 < 16" using assms(1) by presburger
  have "broadcast6 bs n ! k =
      (if k = n div 8 \<and> n mod 8 \<noteq> 0 then bs ! k OR drop_bit (n mod 8) (- 1)
       else if n div 8 \<le> k then - 1 else bs ! k)"
    using assms len16 unfolding broadcast6_def Let_def all_ones8 ceil_div8
    by (auto simp: nth_memset nth_list_update)
  then show ?thesis
    using assms unfolding not_less [symmetric] index_less_iff [OF assms(3)]
    by (auto simp: bit_or_iff bit_drop_bit_eq bit_mask_iff)
qed

lemma setbit6_nth:
  assumes "n < 128" "k < 16" "j < 8" "length bs = 16"
  shows "bit (setbit6 bs n ! k) (7 - j) \<longleftrightarrow> 8 * k + j = n \<or> bit (bs ! k) (7 - j)"
proof -
  have "8 * k + j = n \<longleftrightarrow> k = n div 8 \<and> j = n mod 8"
    using assms(3) by (metis div_mult_self4 mod_less div_less mod_mult_self4 mult_div_mod_eq
        add.right_neutral zero_neq_numeral mult.commute)
  then show ?thesis
    using assms unfolding setbit6_def
    by (auto simp: nth_list_update bit_or_iff bit_drop_bit_eq bit_top8 simp del: bit_numeral_word_iff)
qed

lemma bytes_bits_surj:
  assumes "length xs = 128"
  shows "\<exists>bs. length bs = 16 \<and> bytes_bits bs = xs"
proof -
  define byte where "byte k = (SOME w :: 8 word. wbits w = take 8 (drop (8 * k) xs))" for k
  have byte: "wbits (byte k) = take 8 (drop (8 * k) xs)" if "k < 16" for k
    unfolding byte_def by (rule someI_ex, rule wbits_surj) (use assms that in simp)
  let ?bs = "map byte [0..<16]"
  have "bytes_bits ?bs = xs"
  proof (rule bytes_bits_eqI)
    fix k j :: nat assume kj: "k < 16" "j < 8"
    have "bit (?bs ! k) (7 - j) = wbits (byte k) ! j" using kj by (simp add: nth_wbits)
    also have "\<dots> = xs ! (8 * k + j)" using byte [of k] kj assms by simp
    finally show "bit (?bs ! k) (7 - j) = xs ! (8 * k + j)" .
  qed (use assms in simp_all)
  then show ?thesis by (intro exI [of _ ?bs]) simp
qed

lemma length_setbit6 [simp]: "length (setbit6 bs n) = length bs"
  by (simp add: setbit6_def)

lemma length_netmask6 [simp]:
  "length (netmask6 n) = 16" if "n \<le> 128" for n
  using that by (simp add: netmask6_def Let_def)

lemma length_hostmask6 [simp]: "length (hostmask6 n) = 16" if "n \<le> 128" for n
proof -
  have "(n + 7) div 8 \<le> 16" using that by simp
  then show ?thesis by (simp add: hostmask6_def Let_def)
qed

lemma length_broadcast6 [simp]:
  "length (broadcast6 bs n) = 16" if "n \<le> 128" "length bs = 16" for n
proof -
  have "(n + 7) div 8 \<le> 16" using that by simp
  then show ?thesis using that by (simp add: broadcast6_def Let_def)
qed

interpretation v6: prefix_family bytes_bits "\<lambda>bs. length bs = 16" 128
  contains6 setbit6 netmask6 hostmask6 broadcast6
proof
  fix a b :: "8 word list" and n :: nat
  show "length a = 16 \<Longrightarrow> length (bytes_bits a) = 128" by simp
  show "length a = 16 \<Longrightarrow> length b = 16 \<Longrightarrow> bytes_bits a = bytes_bits b \<Longrightarrow> a = b"
    by (simp add: bytes_bits_inject)
  show "length xs = 128 \<Longrightarrow> \<exists>a. length a = 16 \<and> bytes_bits a = xs" for xs
    by (rule bytes_bits_surj)
  show "length a = 16 \<Longrightarrow> length b = 16 \<Longrightarrow> n \<le> 128 \<Longrightarrow>
      contains6 a n b = (take n (bytes_bits a) = take n (bytes_bits b))"
    by (rule contains6_bits)
  show "length a = 16 \<Longrightarrow> n < 128 \<Longrightarrow> length (setbit6 a n) = 16"
    by simp
  show "length a = 16 \<Longrightarrow> n < 128 \<Longrightarrow> bytes_bits (setbit6 a n) = (bytes_bits a)[n := True]"
    by (rule bytes_bits_eqI)
      (auto simp: setbit6_nth nth_list_update nth_bytes_bits)
  show "n \<le> 128 \<Longrightarrow> bytes_bits (netmask6 n) = replicate n True @ replicate (128 - n) False"
    by (rule bytes_bits_eqI) (auto simp: netmask6_nth nth_append)
  show "n \<le> 128 \<Longrightarrow> bytes_bits (hostmask6 n) = replicate n False @ replicate (128 - n) True"
    by (rule bytes_bits_eqI) (auto simp: hostmask6_nth nth_append)
  show "length a = 16 \<Longrightarrow> n \<le> 128 \<Longrightarrow> length (broadcast6 a n) = 16" by simp
  show "length a = 16 \<Longrightarrow> n \<le> 128 \<Longrightarrow>
      bytes_bits (broadcast6 a n) = take n (bytes_bits a) @ replicate (128 - n) True"
    by (rule bytes_bits_eqI) (auto simp: broadcast6_nth nth_append nth_bytes_bits)
qed

section \<open>Meaning of an address with prefix\<close>

definition wf_ip :: "ip_address \<Rightarrow> bool" where
  "wf_ip ip \<longleftrightarrow> wf_host (m_address ip) \<and> 0 \<le> m_prefixLength ip \<and>
     m_prefixLength ip \<le> int (width_of (m_address ip))"

text \<open>A network address: no bit is set behind the prefix.\<close>

definition network :: "ip_address \<Rightarrow> bool" where
  "network ip \<longleftrightarrow> wf_ip ip \<and> list_all Not (drop (pfx ip) (host_bits (m_address ip)))"

definition addrs :: "ip_address \<Rightarrow> host_address set" where
  "addrs ip = {a. wf_host a \<and> protocol_of a = protocol_of (m_address ip) \<and>
     take (pfx ip) (host_bits a) = take (pfx ip) (host_bits (m_address ip))}"

lemma wf_host_cases [consumes 1, case_names v4 v6]:
  assumes "wf_host a"
  obtains w where "a = IPv4 w" | bs where "a = IPv6 bs" "length bs = 16"
  using assms by (cases a) auto

lemma length_host_bits: "wf_host a \<Longrightarrow> length (host_bits a) = width_of a"
  by (cases a) auto

lemma width_protocol: "protocol_of a = protocol_of b \<Longrightarrow> width_of a = width_of b"
  by (cases a; cases b) auto

lemma host_bits_inject:
  assumes "wf_host a" "wf_host b" "protocol_of a = protocol_of b" "host_bits a = host_bits b"
  shows "a = b"
  using assms by (cases a; cases b) (auto dest: v6.bits_inj)

lemma host_bits_surj:
  assumes "wf_host a" "length xs = width_of a"
  obtains b where "wf_host b" "protocol_of b = protocol_of a" "host_bits b = xs"
  using assms(1)
proof (cases rule: wf_host_cases)
  case (v4 w)
  then obtain w' :: "32 word" where "wbits w' = xs" using assms(2) v4.bits_surj [of xs] by auto
  with v4 that [of "IPv4 w'"] show ?thesis by simp
next
  case (v6 bs)
  then obtain bs' where "length bs' = 16" "bytes_bits bs' = xs"
    using assms(2) v6.bits_surj [of xs] by auto
  with v6 that [of "IPv6 bs'"] show ?thesis by simp
qed

lemma wf_ip_pfx: "wf_ip ip \<Longrightarrow> pfx ip \<le> width_of (m_address ip)"
  by (auto simp: wf_ip_def)

lemma self_in_addrs: "wf_ip ip \<Longrightarrow> m_address ip \<in> addrs ip"
  by (simp add: addrs_def wf_ip_def)

lemma contains_iff:
  assumes "wf_ip ip" "wf_host a"
  shows "contains ip a \<longleftrightarrow> a \<in> addrs ip"
proof -
  have "wf_host (m_address ip)" using assms by (simp add: wf_ip_def)
  then show ?thesis
  proof (cases rule: wf_host_cases)
    case (v4 w)
    then show ?thesis using assms
      by (cases a) (auto simp: contains_def addrs_def wf_ip_def v4.cont_bits)
  next
    case (v6 bs)
    then show ?thesis using assms
      by (cases a) (auto simp: contains_def addrs_def wf_ip_def v6.cont_bits)
  qed
qed

lemma contains_wrong_protocol:
  "protocol_of a \<noteq> protocol_of (m_address ip) \<Longrightarrow> \<not> contains ip a"
  by (simp add: contains_def)

lemma addrs_disjoint_protocol:
  "protocol_of (m_address a) \<noteq> protocol_of (m_address b) \<Longrightarrow> addrs a \<inter> addrs b = {}"
  by (auto simp: addrs_def)

lemma addrs_mono:
  assumes "pfx b \<le> pfx a" "m_address a \<in> addrs b"
  shows "addrs a \<subseteq> addrs b"
  using assms by (auto simp: addrs_def) (metis take_le_eq)

lemma addrs_meet:
  assumes "wf_ip a" "wf_ip b" "pfx b \<le> pfx a" "addrs a \<inter> addrs b \<noteq> {}"
  shows "m_address a \<in> addrs b"
  using assms by (auto simp: addrs_def wf_ip_def) (metis take_le_eq)

lemma addrs_subset_pfx:
  assumes "wf_ip a" "wf_ip b" "addrs a \<subseteq> addrs b"
  shows "pfx b \<le> pfx a"
proof (rule ccontr)
  let ?A = "m_address a" and ?n = "pfx a"
  assume "\<not> pfx b \<le> pfx a"
  then have less: "?n < pfx b" by (simp only: not_le)
  have pr: "protocol_of ?A = protocol_of (m_address b)"
    using self_in_addrs [OF assms(1)] assms(3) by (auto simp: addrs_def)
  have wfA: "wf_host ?A" using assms by (simp add: wf_ip_def)
  have len: "length (host_bits ?A) = width_of ?A" by (rule length_host_bits) fact
  have n: "?n < width_of ?A"
    using less wf_ip_pfx [OF assms(2)] width_protocol [OF pr] by linarith
  let ?flip = "(host_bits ?A)[?n := \<not> host_bits ?A ! ?n]"
  obtain c where c: "wf_host c" "protocol_of c = protocol_of ?A" "host_bits c = ?flip"
    using host_bits_surj [OF wfA, of ?flip] len by auto
  have "c \<in> addrs a" using c by (simp add: addrs_def)
  then have "c \<in> addrs b" "?A \<in> addrs b" using assms(3) self_in_addrs [OF assms(1)] by blast+
  then have "take (pfx b) ?flip = take (pfx b) (host_bits ?A)"
    using c(3) by (simp add: addrs_def)
  then have "take (pfx b) ?flip ! ?n = take (pfx b) (host_bits ?A) ! ?n" by simp
  then show False using less n len by simp
qed

lemma subnetOf_iff_subset:
  assumes "wf_ip a" "wf_ip b"
  shows "subnetOf a b \<longleftrightarrow> addrs a \<subseteq> addrs b"
proof -
  have "m_prefixLength a < m_prefixLength b \<longleftrightarrow> \<not> pfx b \<le> pfx a"
    using assms by (auto simp: wf_ip_def)
  moreover have "contains b (m_address a) \<longleftrightarrow> m_address a \<in> addrs b"
    using assms by (simp add: contains_iff wf_ip_def)
  ultimately have "subnetOf a b \<longleftrightarrow> pfx b \<le> pfx a \<and> m_address a \<in> addrs b"
    unfolding subnetOf_def using contains_wrong_protocol [of "m_address a" b] by auto
  then show ?thesis
    using addrs_mono [of b a] addrs_subset_pfx [OF assms] self_in_addrs [OF assms(1)] by blast
qed

lemma overlaps_iff_meet:
  assumes "wf_ip a" "wf_ip b"
  shows "overlaps a b \<longleftrightarrow> addrs a \<inter> addrs b \<noteq> {}"
proof (cases "m_prefixLength a < m_prefixLength b")
  case True
  then have le: "pfx a \<le> pfx b" by simp
  have "contains a (m_address b) \<longleftrightarrow> m_address b \<in> addrs a"
    using assms by (simp add: contains_iff wf_ip_def)
  with True show ?thesis
    using addrs_meet [OF assms(2,1) le] self_in_addrs [OF assms(2)]
    by (auto simp: overlaps_def)
next
  case False
  then have le: "pfx b \<le> pfx a" by simp
  have "contains b (m_address a) \<longleftrightarrow> m_address a \<in> addrs b"
    using assms by (simp add: contains_iff wf_ip_def)
  with False show ?thesis
    using addrs_meet [OF assms le] self_in_addrs [OF assms(1)]
    by (auto simp: overlaps_def)
qed

section \<open>Splitting and excluding\<close>

lemma network_wf [simp]: "network ip \<Longrightarrow> wf_ip ip"
  by (simp add: network_def)

lemma network_bit:
  assumes "network ip" "pfx ip \<le> i" "i < width_of (m_address ip)"
  shows "\<not> host_bits (m_address ip) ! i"
proof -
  let ?d = "drop (pfx ip) (host_bits (m_address ip))"
  have len: "length (host_bits (m_address ip)) = width_of (m_address ip)"
    using assms(1) by (simp add: network_def wf_ip_def length_host_bits)
  then have "?d ! (i - pfx ip) \<in> set ?d" using assms by (intro nth_mem) simp
  then have "\<not> ?d ! (i - pfx ip)" using assms(1) unfolding network_def list_all_iff by blast
  then show ?thesis using assms len by simp
qed

lemma networkI:
  assumes "wf_ip ip" "\<And>i. pfx ip \<le> i \<Longrightarrow> i < width_of (m_address ip) \<Longrightarrow> \<not> host_bits (m_address ip) ! i"
  shows "network ip"
proof -
  have "length (host_bits (m_address ip)) = width_of (m_address ip)"
    using assms(1) by (simp add: wf_ip_def length_host_bits)
  then show ?thesis using assms by (auto simp: network_def list_all_iff in_set_conv_nth)
qed

lemma network_eqI:
  assumes "network a" "network b" "m_prefixLength a = m_prefixLength b" "m_address a \<in> addrs b"
  shows "a = b"
proof -
  have pr: "protocol_of (m_address a) = protocol_of (m_address b)"
    and wf: "wf_host (m_address a)" "wf_host (m_address b)"
    using assms by (auto simp: addrs_def network_def wf_ip_def)
  have len: "length (host_bits (m_address a)) = width_of (m_address a)"
    "length (host_bits (m_address b)) = width_of (m_address a)"
    using wf width_protocol [OF pr] by (simp_all add: length_host_bits)
  have tk: "take (pfx b) (host_bits (m_address a)) = take (pfx b) (host_bits (m_address b))"
    using assms(4) by (simp add: addrs_def)
  have "host_bits (m_address a) = host_bits (m_address b)"
  proof (rule nth_equalityI)
    fix i assume "i < length (host_bits (m_address a))"
    then show "host_bits (m_address a) ! i = host_bits (m_address b) ! i"
      using network_bit [OF assms(1), of i] network_bit [OF assms(2), of i] assms(3) len
        width_protocol [OF pr] arg_cong [OF tk, of "\<lambda>xs. xs ! i"]
      by (cases "i < pfx b") auto
  qed (simp add: len)
  then have "m_address a = m_address b" using wf pr by (intro host_bits_inject)
  then show ?thesis using assms(3) by simp
qed

text \<open>The two halves of a network that is not a single host.\<close>

lemma subnets_halves:
  assumes net: "network ip" and less: "m_prefixLength ip < int (width_of (m_address ip))"
  obtains l r where "subnets ip = [l, r]" "network l" "network r"
    "m_prefixLength l = m_prefixLength ip + 1" "m_prefixLength r = m_prefixLength ip + 1"
    "addrs ip = addrs l \<union> addrs r" "addrs l \<inter> addrs r = {}"
proof -
  let ?A = "m_address ip" and ?n = "pfx ip"
  have wf: "wf_host ?A" and n0: "0 \<le> m_prefixLength ip" using net by (simp_all add: network_def wf_ip_def)
  have n: "?n < width_of ?A" using less n0 by (simp add: nat_less_iff)
  have len: "length (host_bits ?A) = width_of ?A" by (rule length_host_bits) fact
  obtain B where B: "subnets ip = [IPAddress_of_prefix ?A (m_prefixLength ip + 1),
        IPAddress_of_prefix B (m_prefixLength ip + 1)]"
    "wf_host B" "protocol_of B = protocol_of ?A" "host_bits B = (host_bits ?A)[?n := True]"
    using wf
  proof (cases rule: wf_host_cases)
    case (v4 w)
    with that [of "IPv4 (setbit4 w ?n)"] less n show ?thesis
      by (simp add: subnets_def v4.setb_bits)
  next
    case (v6 bs)
    with that [of "IPv6 (setbit6 bs ?n)"] less n show ?thesis
      by (simp add: subnets_def v6.setb_bits)
  qed
  let ?l = "IPAddress_of_prefix ?A (m_prefixLength ip + 1)"
  let ?r = "IPAddress_of_prefix B (m_prefixLength ip + 1)"
  have sp: "pfx ?l = Suc ?n" "pfx ?r = Suc ?n"
    using n0 by (simp_all add: IPAddress_of_prefix_def nat_add_distrib)
  have wB: "width_of B = width_of ?A" using B(3) by (rule width_protocol)
  have bit: "\<not> host_bits ?A ! ?n" using network_bit [OF net, of ?n] n by simp
  have wfl: "wf_ip ?l" and wfr: "wf_ip ?r"
    using n0 less wf B(2) wB by (auto simp: wf_ip_def IPAddress_of_prefix_def)
  have netl: "network ?l"
  proof (rule networkI [OF wfl])
    fix i assume "pfx ?l \<le> i" "i < width_of (m_address ?l)"
    then show "\<not> host_bits (m_address ?l) ! i"
      using network_bit [OF net, of i] sp by (simp add: IPAddress_of_prefix_def)
  qed
  have netr: "network ?r"
  proof (rule networkI [OF wfr])
    fix i assume "pfx ?r \<le> i" "i < width_of (m_address ?r)"
    then show "\<not> host_bits (m_address ?r) ! i"
      using network_bit [OF net, of i] sp wB B(4) by (simp add: IPAddress_of_prefix_def)
  qed
  have tl: "take (Suc ?n) (host_bits ?A) = take ?n (host_bits ?A) @ [False]"
    "take (Suc ?n) (host_bits B) = take ?n (host_bits ?A) @ [True]"
    using n len bit B(4) by (simp_all add: take_Suc_conv_app_nth)
  have tc: "take (Suc ?n) (host_bits c) = take ?n (host_bits c) @ [host_bits c ! ?n]"
    if "wf_host c" "protocol_of c = protocol_of ?A" for c
    using that n length_host_bits [of c] width_protocol [of c ?A]
    by (simp add: take_Suc_conv_app_nth)
  have al: "addrs ?l = {c. wf_host c \<and> protocol_of c = protocol_of ?A \<and>
      take ?n (host_bits c) = take ?n (host_bits ?A) \<and> \<not> host_bits c ! ?n}"
    unfolding addrs_def sp by (auto simp: IPAddress_of_prefix_def tl tc)
  have ar: "addrs ?r = {c. wf_host c \<and> protocol_of c = protocol_of ?A \<and>
      take ?n (host_bits c) = take ?n (host_bits ?A) \<and> host_bits c ! ?n}"
    unfolding addrs_def sp using B(3) by (auto simp: IPAddress_of_prefix_def tl tc)
  have "addrs ip = addrs ?l \<union> addrs ?r" "addrs ?l \<inter> addrs ?r = {}"
    unfolding al ar by (auto simp: addrs_def)
  then show ?thesis
    using that [of ?l ?r] B(1) netl netr by (simp add: IPAddress_of_prefix_def)
qed

lemma proper_subnet_pfx:
  assumes "network a" "network b" "subnetOf a b" "a \<noteq> b"
  shows "m_prefixLength b < m_prefixLength a"
proof -
  have "addrs a \<subseteq> addrs b" using assms by (simp add: subnetOf_iff_subset)
  moreover have "m_prefixLength b \<le> m_prefixLength a"
    using assms(3) by (auto simp: subnetOf_def split: if_splits)
  ultimately show ?thesis
    using network_eqI [OF assms(1,2)] self_in_addrs [of a] assms(1,4) by fastforce
qed

lemma subnet_one_half:
  assumes "network ip" "network ex" "addrs ip = addrs l \<union> addrs r" "network l" "network r"
    "m_prefixLength l = m_prefixLength ip + 1" "m_prefixLength r = m_prefixLength ip + 1"
    "subnetOf ex ip" "m_prefixLength ip < m_prefixLength ex"
  shows "subnetOf ex l \<or> subnetOf ex r"
proof -
  have ex: "m_address ex \<in> addrs l \<union> addrs r"
    using self_in_addrs [of ex] assms by (auto simp: subnetOf_iff_subset)
  have le: "pfx l \<le> pfx ex" "pfx r \<le> pfx ex" using assms by auto
  show ?thesis
    using ex addrs_mono [OF le(1)] addrs_mono [OF le(2)] assms by (auto simp: subnetOf_iff_subset)
qed

definition all_addrs :: "ip_address list \<Rightarrow> host_address set" where
  "all_addrs xs = (\<Union>x \<in> set xs. addrs x)"

abbreviation disj_list :: "ip_address list \<Rightarrow> bool" where
  "disj_list \<equiv> sorted_wrt (\<lambda>x y. addrs x \<inter> addrs y = {})"

lemma all_addrs_simps [simp]:
  "all_addrs [] = {}" "all_addrs (x # xs) = addrs x \<union> all_addrs xs"
  "all_addrs (xs @ ys) = all_addrs xs \<union> all_addrs ys"
  by (auto simp: all_addrs_def)

lemma disjoint_all_addrs:
  "B \<inter> all_addrs xs = {} \<longleftrightarrow> (\<forall>x \<in> set xs. B \<inter> addrs x = {})"
  by (auto simp: all_addrs_def)

text \<open>What a successful exclusion returns, with the number of pieces.\<close>

definition exclusion :: "ip_address \<Rightarrow> ip_address \<Rightarrow> ip_address list \<Rightarrow> bool" where
  "exclusion ip ex r \<longleftrightarrow> all_addrs r = addrs ip - addrs ex \<and> list_all network r \<and> disj_list r \<and>
     int (length r) = m_prefixLength ex - m_prefixLength ip"

lemma exclusion_half:
  assumes "exclusion h ex r" "addrs ip = addrs h \<union> addrs k" "addrs h \<inter> addrs k = {}"
    "network k" "addrs ex \<subseteq> addrs h" "m_prefixLength h = m_prefixLength ip + 1"
  shows "exclusion ip ex (k # r)"
proof -
  have "addrs k \<inter> all_addrs r = {}" using assms by (auto simp: exclusion_def)
  then show ?thesis using assms by (auto simp: exclusion_def disjoint_all_addrs)
qed

lemma exclude_loop_stop:
  "l = ex \<or> r = ex \<Longrightarrow> exclude_loop ex [l, r] acc = Some (acc @ [if l = ex then r else l])"
  by (subst exclude_loop.simps) auto

lemma exclude_loop_left:
  "l \<noteq> ex \<Longrightarrow> r \<noteq> ex \<Longrightarrow> subnetOf ex l \<Longrightarrow>
   exclude_loop ex [l, r] acc = exclude_loop ex (subnets l) (acc @ [r])"
  by (subst exclude_loop.simps) simp

lemma exclude_loop_right:
  "l \<noteq> ex \<Longrightarrow> r \<noteq> ex \<Longrightarrow> \<not> subnetOf ex l \<Longrightarrow> subnetOf ex r \<Longrightarrow>
   exclude_loop ex [l, r] acc = exclude_loop ex (subnets r) (acc @ [l])"
  by (subst exclude_loop.simps) simp

lemma exclude_loop_network:
  assumes "network ip" "network ex" "subnetOf ex ip" "m_prefixLength ip < m_prefixLength ex"
  shows "\<exists>r. exclude_loop ex (subnets ip) acc = Some (acc @ r) \<and> exclusion ip ex r"
  using assms
proof (induction "nat (m_prefixLength ex - m_prefixLength ip)" arbitrary: ip acc rule: less_induct)
  case less
  have "protocol_of (m_address ex) = protocol_of (m_address ip)"
    using less.prems(3) by (auto simp: subnetOf_def split: if_splits)
  then have "m_prefixLength ip < int (width_of (m_address ip))"
    using less.prems(2,4) width_protocol [of "m_address ex" "m_address ip"]
    by (auto simp: network_def wf_ip_def)
  from subnets_halves [OF less.prems(1) this]
  obtain l r where sn: "subnets ip = [l, r]" and nets: "network l" "network r"
    and pl: "m_prefixLength l = m_prefixLength ip + 1" "m_prefixLength r = m_prefixLength ip + 1"
    and un: "addrs ip = addrs l \<union> addrs r" "addrs l \<inter> addrs r = {}" by metis
  have self: "m_address ex \<in> addrs ex" using less.prems by (simp add: self_in_addrs)
  have step: "\<exists>r'. exclude_loop ex (subnets h) (acc @ [k]) = Some (acc @ [k] @ r') \<and>
      exclusion ip ex (k # r')"
    if h: "subnetOf ex h" "h \<noteq> ex" "network h" "network k" "m_prefixLength h = m_prefixLength ip + 1"
      "addrs ip = addrs h \<union> addrs k" "addrs h \<inter> addrs k = {}" for h k
  proof -
    have "m_prefixLength h < m_prefixLength ex"
      using proper_subnet_pfx [of ex h] h less.prems by auto
    then obtain r' where "exclude_loop ex (subnets h) (acc @ [k]) = Some ((acc @ [k]) @ r')"
      "exclusion h ex r'"
      using less.hyps [of h "acc @ [k]"] h less.prems by auto
    moreover have "addrs ex \<subseteq> addrs h" using h less.prems by (simp add: subnetOf_iff_subset)
    ultimately show ?thesis using exclusion_half [of h ex r' ip k] h by auto
  qed
  have stop: "exclusion ip h [k]" if "network k" "m_prefixLength h = m_prefixLength ip + 1"
      "addrs ip = addrs h \<union> addrs k" "addrs h \<inter> addrs k = {}" for h k
    using that by (auto simp: exclusion_def)
  have half: "subnetOf ex l \<or> subnetOf ex r"
    using subnet_one_half [of ip ex l r] less.prems nets pl un by simp
  have un': "addrs ip = addrs r \<union> addrs l" "addrs r \<inter> addrs l = {}" using un by auto
  show ?case
  proof (cases "l = ex \<or> r = ex")
    case True
    then have "exclude_loop ex [l, r] acc = Some (acc @ [if l = ex then r else l])"
      by (auto simp: exclude_loop_stop)
    moreover have "exclusion ip ex [if l = ex then r else l]"
      using True stop [of r l] stop [of l r] nets pl un un' by auto
    ultimately show ?thesis unfolding sn by blast
  next
    case False
    show ?thesis
    proof (cases "subnetOf ex l")
      case True
      with False have "exclude_loop ex [l, r] acc = exclude_loop ex (subnets l) (acc @ [r])"
        by (simp add: exclude_loop_left)
      then show ?thesis unfolding sn using step [of l r] True False nets pl un by force
    next
      case right: False
      with False half have "exclude_loop ex [l, r] acc = exclude_loop ex (subnets r) (acc @ [l])"
        by (simp add: exclude_loop_right)
      then show ?thesis unfolding sn using step [of r l] right half False nets pl un' by force
    qed
  qed
qed

lemma excludeAddress_network:
  assumes "network ip" "network ex" "subnetOf ex ip" "ex \<noteq> ip"
  shows "\<exists>r. excludeAddress ip ex = Some r \<and> exclusion ip ex r"
  using exclude_loop_network [of ip ex "[]"] proper_subnet_pfx [of ex ip] assms
  by (auto simp: excludeAddress_def)

text \<open>One pass over the list removes one exclusion; the outer loop removes them all.\<close>

lemma exclude_one_network:
  assumes "list_all network ips" "network ex"
  shows "\<exists>r. exclude_one ex ips = Some r \<and> list_all network r \<and>
    all_addrs r = all_addrs ips - addrs ex \<and> (disj_list ips \<longrightarrow> disj_list r)"
  using assms
proof (induction ips)
  case Nil
  then show ?case by simp
next
  case (Cons ip ips)
  then obtain r where r: "exclude_one ex ips = Some r" "list_all network r"
    "all_addrs r = all_addrs ips - addrs ex" "disj_list ips \<longrightarrow> disj_list r" by auto
  have net: "network ip" "network ex" using Cons.prems by auto
  have sep: "addrs y \<inter> addrs x = {}"
    if "disj_list (ip # ips)" "x \<in> set r" "addrs y \<subseteq> addrs ip" for x y
  proof -
    have "addrs x \<subseteq> all_addrs ips" using that(2) r(3) by (auto simp: all_addrs_def)
    moreover have "addrs ip \<inter> all_addrs ips = {}" using that(1) by (simp add: disjoint_all_addrs)
    ultimately show ?thesis using that(3) by auto
  qed
  have meet: "overlaps ip ex \<longleftrightarrow> addrs ip \<inter> addrs ex \<noteq> {}" using net by (simp add: overlaps_iff_meet)
  show ?case
  proof (cases "overlaps ip ex")
    case False
    then have "exclude_one ex (ip # ips) = Some (ip # r)" using r(1) by simp
    moreover have "all_addrs (ip # r) = all_addrs (ip # ips) - addrs ex"
      using r(3) False meet by auto
    moreover have "disj_list (ip # ips) \<longrightarrow> disj_list (ip # r)"
    proof
      assume d: "disj_list (ip # ips)"
      then show "disj_list (ip # r)" using r(4) sep [OF d _ subset_refl] by simp
    qed
    ultimately show ?thesis using r(2) net by (intro exI [of _ "ip # r"]) simp
  next
    case True
    show ?thesis
    proof (cases "subnetOf ex ip \<and> ex \<noteq> ip")
      case True
      then obtain q where q: "excludeAddress ip ex = Some q" "exclusion ip ex q"
        using excludeAddress_network net by blast
      have sub: "addrs y \<subseteq> addrs ip" if "y \<in> set q" for y
        using that q(2) by (auto simp: exclusion_def all_addrs_def)
      have "disj_list (ip # ips) \<longrightarrow> disj_list (q @ r)"
      proof
        assume d: "disj_list (ip # ips)"
        then show "disj_list (q @ r)"
          using r(4) q(2) sep [OF d _ sub] by (simp add: sorted_wrt_append exclusion_def)
      qed
      moreover have "exclude_one ex (ip # ips) = Some (q @ r)"
        using True \<open>overlaps ip ex\<close> r(1) q(1) by simp
      moreover have "all_addrs (q @ r) = all_addrs (ip # ips) - addrs ex" "list_all network (q @ r)"
        using r(2,3) q(2) by (auto simp: exclusion_def)
      ultimately show ?thesis by blast
    next
      case False
      have "addrs ip \<subseteq> addrs ex"
      proof (cases "ex = ip")
        case True
        then show ?thesis by simp
      next
        case neq: False
        with False have "\<not> subnetOf ex ip" by simp
        then have "\<not> (pfx ip \<le> pfx ex)"
          using True meet net addrs_meet [of ex ip] addrs_mono [of ip ex]
          by (auto simp: subnetOf_iff_subset inf_commute)
        then have "pfx ex \<le> pfx ip" by linarith
        then show ?thesis
          using True meet net addrs_meet [of ip ex] addrs_mono [of ex ip] by auto
      qed
      with False \<open>overlaps ip ex\<close> r show ?thesis by auto
    qed
  qed
qed

lemma excludeAddresses_network:
  assumes "list_all network src" "list_all network exs"
  shows "\<exists>r. excludeAddresses src exs = Some r \<and> list_all network r \<and>
    all_addrs r = all_addrs src - all_addrs exs \<and> (disj_list src \<longrightarrow> disj_list r)"
  using assms
proof (induction exs arbitrary: src)
  case Nil
  then show ?case by simp
next
  case (Cons ex exs)
  then obtain m where m: "exclude_one ex src = Some m" "list_all network m"
    "all_addrs m = all_addrs src - addrs ex" "disj_list src \<longrightarrow> disj_list m"
    using exclude_one_network [of src ex] by auto
  have "list_all network exs" using Cons.prems by simp
  from Cons.IH [OF m(2) this] obtain r where r: "excludeAddresses m exs = Some r" "list_all network r"
    "all_addrs r = all_addrs m - all_addrs exs" "disj_list m \<longrightarrow> disj_list r" by blast
  have "excludeAddresses src (ex # exs) = Some r" using m(1) r(1) by simp
  moreover have "all_addrs r = all_addrs src - all_addrs (ex # exs)" using m(3) r(3) by auto
  ultimately show ?case using m(4) r(2,4) by blast
qed

section \<open>Where the exclusion loop does not return\<close>

lemma exclude_loop_stuck:
  assumes "l \<noteq> ex" "r \<noteq> ex" "\<not> subnetOf ex l" "\<not> subnetOf ex r"
  shows "exclude_loop ex [l, r] acc = None"
proof (rule ccontr)
  assume "exclude_loop ex [l, r] acc \<noteq> None"
  then obtain y where ret: "exclude_loop ex [l, r] acc = Some y" by blast
  have "\<not> (ex = ex \<and> [l, r] = [l, r])"
  proof (rule exclude_loop.raw_induct
      [where P = "\<lambda>ip sn res y. \<not> (ip = ex \<and> sn = [l, r])", OF _ ret])
    fix f ip sn res z
    assume IH: "\<And>ip sn res y. f ip sn res = Some y \<Longrightarrow> \<not> (ip = ex \<and> sn = [l, r])"
      and eq: "(case sn of [] \<Rightarrow> None | [sn0] \<Rightarrow> None
        | sn0 # sn1 # _ \<Rightarrow>
            if sn0 \<noteq> ip \<and> sn1 \<noteq> ip then
              if subnetOf ip sn0 then f ip (subnets sn0) (res @ [sn1])
              else if subnetOf ip sn1 then f ip (subnets sn1) (res @ [sn0])
              else f ip sn res
            else if sn0 = ip then Some (res @ [sn1]) else Some (res @ [sn0])) = Some z"
    show "\<not> (ip = ex \<and> sn = [l, r])"
    proof
      assume "ip = ex \<and> sn = [l, r]"
      with eq assms have "f ex [l, r] res = Some z" by simp
      from IH [OF this] show False by simp
    qed
  qed
  then show False by simp
qed

lemma subnets_bit_set:
  assumes wf: "wf_ip ip" and less: "pfx ip < width_of (m_address ip)"
    and bit: "host_bits (m_address ip) ! pfx ip"
  shows "subnets ip =
    [IPAddress_of_prefix (m_address ip) (m_prefixLength ip + 1),
     IPAddress_of_prefix (m_address ip) (m_prefixLength ip + 1)]"
proof -
  have "wf_host (m_address ip)" "0 \<le> m_prefixLength ip" using wf by (simp_all add: wf_ip_def)
  from this(1) show ?thesis
  proof (cases rule: wf_host_cases)
    case (v4 w)
    have "wbits (setbit4 w (pfx ip)) = wbits w"
      using v4 less bit list_update_id [of "wbits w" "pfx ip"] by (simp add: v4.setb_bits)
    then show ?thesis using v4 less by (simp add: subnets_def)
  next
    case (v6 bs)
    have "bytes_bits (setbit6 bs (pfx ip)) = bytes_bits bs"
      using v6 less bit list_update_id [of "bytes_bits bs" "pfx ip"] by (simp add: v6.setb_bits)
    then have "setbit6 bs (pfx ip) = bs" using v6 less by (intro v6.bits_inj) simp_all
    then show ?thesis using v6 less by (simp add: subnets_def)
  qed
qed

section \<open>Properties\<close>

text \<open>
  on network addresses \<^verbatim>\<open>IPAddress::excludeAddresses\<close> returns, and the ranges it returns
  cover exactly the source addresses outside the excluded ranges, are network addresses, and are
  pairwise disjoint whenever the source ranges are.
\<close>

theorem excludeAddresses_exact:
  assumes "list_all network src" "list_all network exs"
  shows "\<exists>r. excludeAddresses src exs = Some r \<and> list_all network r \<and>
    all_addrs r = all_addrs src - all_addrs exs \<and> (disj_list src \<longrightarrow> disj_list r)"
  using assms by (rule excludeAddresses_network)

theorem excludeAddresses_exact_witness:
  "\<exists>r. excludeAddresses
      [\<lparr>m_address = IPv4 0, m_prefixLength = 0\<rparr>] [\<lparr>m_address = IPv4 0x0A000000, m_prefixLength = 8\<rparr>]
      = Some r \<and> list_all network r \<and>
    all_addrs r = all_addrs [\<lparr>m_address = IPv4 0, m_prefixLength = 0\<rparr>]
      - all_addrs [\<lparr>m_address = IPv4 0x0A000000, m_prefixLength = 8\<rparr>] \<and>
    (disj_list [\<lparr>m_address = IPv4 0, m_prefixLength = 0\<rparr>] \<longrightarrow> disj_list r)"
  by (rule excludeAddresses_exact)
    (simp_all add: network_def wf_ip_def wbits_def upt_rec numeral_nat)

text \<open>
  \<^verbatim>\<open>IPAddress::contains\<close>, with its word arithmetic for IPv4 and its byte comparison for
  IPv6, decides that the address is of the same family and agrees on the first
  \<open>m_prefixLength\<close> bits.
\<close>

theorem contains_prefix_bits:
  assumes "wf_ip ip" "wf_host a"
  shows "contains ip a \<longleftrightarrow> protocol_of a = protocol_of (m_address ip) \<and>
    take (pfx ip) (host_bits a) = take (pfx ip) (host_bits (m_address ip))"
  using assms by (simp add: contains_iff addrs_def)

theorem contains_prefix_bits_witness:
  "contains \<lparr>m_address = IPv4 0x0A000000, m_prefixLength = 8\<rparr> (IPv4 0x0A7C0001) \<longleftrightarrow>
    protocol_of (IPv4 0x0A7C0001) = protocol_of (IPv4 0x0A000000) \<and>
    take 8 (host_bits (IPv4 0x0A7C0001)) = take 8 (host_bits (IPv4 0x0A000000))"
  using contains_prefix_bits
    [of "\<lparr>m_address = IPv4 0x0A000000, m_prefixLength = 8\<rparr>" "IPv4 0x0A7C0001"]
  by (simp add: wf_ip_def)

text \<open>
  \<^verbatim>\<open>IPAddress::subnetOf\<close> is inclusion of the address sets, and \<^verbatim>\<open>IPAddress::overlaps\<close>
  is that they meet, for any two well-formed ranges of either family.
\<close>

theorem subnetOf_overlaps_sets:
  assumes "wf_ip a" "wf_ip b"
  shows "(subnetOf a b \<longleftrightarrow> addrs a \<subseteq> addrs b) \<and> (overlaps a b \<longleftrightarrow> addrs a \<inter> addrs b \<noteq> {})"
  using assms by (simp add: subnetOf_iff_subset overlaps_iff_meet)

theorem subnetOf_overlaps_sets_witness:
  "(subnetOf \<lparr>m_address = IPv4 0x0A7C0000, m_prefixLength = 20\<rparr> \<lparr>m_address = IPv4 0x0A000000, m_prefixLength = 8\<rparr>
      \<longleftrightarrow> addrs \<lparr>m_address = IPv4 0x0A7C0000, m_prefixLength = 20\<rparr>
          \<subseteq> addrs \<lparr>m_address = IPv4 0x0A000000, m_prefixLength = 8\<rparr>) \<and>
   (overlaps \<lparr>m_address = IPv4 0x0A7C0000, m_prefixLength = 20\<rparr> \<lparr>m_address = IPv4 0x0A000000, m_prefixLength = 8\<rparr>
      \<longleftrightarrow> addrs \<lparr>m_address = IPv4 0x0A7C0000, m_prefixLength = 20\<rparr>
          \<inter> addrs \<lparr>m_address = IPv4 0x0A000000, m_prefixLength = 8\<rparr> \<noteq> {})"
  by (rule subnetOf_overlaps_sets) (simp_all add: wf_ip_def)

text \<open>
  \<^verbatim>\<open>netmask\<close> is ones then zeros split at the prefix length, \<^verbatim>\<open>hostmask\<close> is its
  complement, and \<^verbatim>\<open>broadcastAddress\<close> keeps the prefix, sets every host bit and lies in the
  range, for both families and every prefix length.
\<close>

theorem masks_and_broadcast:
  assumes "wf_ip ip"
  shows "host_bits (netmask ip) = replicate (pfx ip) True @
      replicate (width_of (m_address ip) - pfx ip) False \<and>
    host_bits (hostmask ip) = map Not (host_bits (netmask ip)) \<and>
    host_bits (broadcastAddress ip) = take (pfx ip) (host_bits (m_address ip)) @
      replicate (width_of (m_address ip) - pfx ip) True \<and>
    contains ip (broadcastAddress ip)"
proof -
  have le: "pfx ip \<le> width_of (m_address ip)" using assms by (rule wf_ip_pfx)
  have wf: "wf_host (m_address ip)" using assms by (simp add: wf_ip_def)
  then show ?thesis
  proof (cases rule: wf_host_cases)
    case (v4 w)
    with le v4.cont_bcast [where a = w and n = "pfx ip"] show ?thesis
      by (simp add: netmask_def hostmask_def broadcastAddress_def contains_def v4.nmask_bits
          v4.hmask_bits v4.bcast_bits)
  next
    case (v6 bs)
    with le v6.cont_bcast [where a = bs and n = "pfx ip"] show ?thesis
      by (simp add: netmask_def hostmask_def broadcastAddress_def contains_def v6.nmask_bits
          v6.hmask_bits v6.bcast_bits)
  qed
qed

theorem masks_and_broadcast_witness:
  "contains \<lparr>m_address = IPv6 (replicate 16 0), m_prefixLength = 7\<rparr>
     (broadcastAddress \<lparr>m_address = IPv6 (replicate 16 0), m_prefixLength = 7\<rparr>)"
  using masks_and_broadcast [of "\<lparr>m_address = IPv6 (replicate 16 0), m_prefixLength = 7\<rparr>"]
  by (simp add: wf_ip_def)

text \<open>
  splitting an address whose first host bit is set gives the upper half twice, so excluding a
  range of the lower half never returns: the loop finds it in neither half and, with
  \<^verbatim>\<open>Q_ASSERT\<close> compiled out, repeats for ever.
\<close>

theorem exclude_unnormalised_diverges:
  assumes "wf_ip ip" "wf_ip ex" "m_prefixLength ip < m_prefixLength ex"
    and "protocol_of (m_address ex) = protocol_of (m_address ip)"
    and "host_bits (m_address ip) ! pfx ip" "\<not> host_bits (m_address ex) ! pfx ip"
  shows "excludeAddress ip ex = None"
proof -
  let ?h = "IPAddress_of_prefix (m_address ip) (m_prefixLength ip + 1)"
  have less: "pfx ip < width_of (m_address ip)" and p0: "0 \<le> m_prefixLength ip"
    using assms(1-3) width_protocol [OF assms(4)] by (auto simp: wf_ip_def)
  have wfh: "wf_ip ?h"
    using assms(1) less by (auto simp: wf_ip_def IPAddress_of_prefix_def)
  have sp: "pfx ?h = Suc (pfx ip)" using p0 by (simp add: IPAddress_of_prefix_def nat_add_distrib)
  have "m_address ex \<notin> addrs ?h"
  proof
    assume "m_address ex \<in> addrs ?h"
    then have "take (Suc (pfx ip)) (host_bits (m_address ex)) =
        take (Suc (pfx ip)) (host_bits (m_address ip))"
      unfolding addrs_def sp by (simp add: IPAddress_of_prefix_def)
    then have "take (Suc (pfx ip)) (host_bits (m_address ex)) ! pfx ip =
        take (Suc (pfx ip)) (host_bits (m_address ip)) ! pfx ip" by simp
    then show False using assms(5,6) by simp
  qed
  then have "\<not> subnetOf ex ?h" "?h \<noteq> ex"
    using self_in_addrs [OF assms(2)] wfh assms(2) by (auto simp: subnetOf_iff_subset)
  then show ?thesis
    unfolding excludeAddress_def subnets_bit_set [OF assms(1) less assms(5)]
    by (intro exclude_loop_stuck)
qed

theorem exclude_unnormalised_diverges_witness:
  "excludeAddress \<lparr>m_address = IPv4 0x0A800000, m_prefixLength = 8\<rparr>
     \<lparr>m_address = IPv4 0x0A000000, m_prefixLength = 9\<rparr> = None"
  by (rule exclude_unnormalised_diverges) (simp_all add: wf_ip_def wbits_def upt_rec numeral_nat)

end
