(* ===== verification/DnsHelper.thy ===== *)
theory DnsHelper
  imports Json
begin

text \<open>
  Model of \<^verbatim>\<open>src/src/dnshelper.cpp\<close>: which DNS server a connection uses, from the provider flags
  of the settings, and the migration of the older setting.  \<open>hostInfo\<close> stands for
  \<^verbatim>\<open>QHostAddress(dns)\<close>: \<open>None\<close> for a null address, otherwise whether it is IPv6 and whether it
  is a loopback address.  \<open>mobile\<close> is set in the Android and iOS builds.
\<close>

unbundle bit_operations_syntax

definition dns_Gateway :: int where "dns_Gateway = 0"
definition dns_Custom :: int where "dns_Custom = 1"
definition dns_BlockAds :: int where "dns_BlockAds = 2"
definition dns_BlockTrackers :: int where "dns_BlockTrackers = 4"
definition dns_BlockMalware :: int where "dns_BlockMalware = 8"

lemmas dns_flag_defs = dns_Gateway_def dns_Custom_def dns_BlockAds_def dns_BlockTrackers_def
  dns_BlockMalware_def

record dns_settings =
  ds_dnsProviderFlags :: int
  ds_userDNS :: string
  ds_dnsProviderDeprecated :: "int option"

record dns_data =
  dns_ipAddress :: string
  dns_type :: string

definition BLOCK_ADS_DNS :: string where "BLOCK_ADS_DNS = ''100.64.0.1''"
definition BLOCK_TRACKERS_DNS :: string where "BLOCK_TRACKERS_DNS = ''100.64.0.2''"
definition BLOCK_ADS_TRACKERS_DNS :: string where "BLOCK_ADS_TRACKERS_DNS = ''100.64.0.3''"
definition BLOCK_MALWARE_DNS :: string where "BLOCK_MALWARE_DNS = ''100.64.0.4''"
definition BLOCK_MALWARE_ADS_DNS :: string where "BLOCK_MALWARE_ADS_DNS = ''100.64.0.5''"
definition BLOCK_MALWARE_TRACKERS_DNS :: string where "BLOCK_MALWARE_TRACKERS_DNS = ''100.64.0.6''"
definition BLOCK_MALWARE_ADS_TRACKERS_DNS :: string where
  "BLOCK_MALWARE_ADS_TRACKERS_DNS = ''100.64.0.7''"

lemmas dns_address_defs = BLOCK_ADS_DNS_def BLOCK_TRACKERS_DNS_def BLOCK_ADS_TRACKERS_DNS_def
  BLOCK_MALWARE_DNS_def BLOCK_MALWARE_ADS_DNS_def BLOCK_MALWARE_TRACKERS_DNS_def
  BLOCK_MALWARE_ADS_TRACKERS_DNS_def

definition dnsMap :: "(int \<times> dns_data) list" where
  "dnsMap =
    [(dns_BlockAds, \<lparr>dns_ipAddress = BLOCK_ADS_DNS, dns_type = ''BlockAds''\<rparr>),
     (dns_BlockTrackers, \<lparr>dns_ipAddress = BLOCK_TRACKERS_DNS, dns_type = ''BlockTrackers''\<rparr>),
     (dns_BlockAds + dns_BlockTrackers,
      \<lparr>dns_ipAddress = BLOCK_ADS_TRACKERS_DNS, dns_type = ''BlockAdsAndTrackers''\<rparr>),
     (dns_BlockMalware, \<lparr>dns_ipAddress = BLOCK_MALWARE_DNS, dns_type = ''BlockMalware''\<rparr>),
     (dns_BlockMalware + dns_BlockAds,
      \<lparr>dns_ipAddress = BLOCK_MALWARE_ADS_DNS, dns_type = ''BlockMalwareAndAds''\<rparr>),
     (dns_BlockMalware + dns_BlockTrackers,
      \<lparr>dns_ipAddress = BLOCK_MALWARE_TRACKERS_DNS, dns_type = ''BlockMalwareAndTrackers''\<rparr>),
     (dns_BlockMalware + dns_BlockAds + dns_BlockTrackers,
      \<lparr>dns_ipAddress = BLOCK_MALWARE_ADS_TRACKERS_DNS, dns_type = ''BlockMalwareAndAdsAndTrackers''\<rparr>)]"

definition validateUserDNS :: "bool \<Rightarrow> (string \<Rightarrow> (bool \<times> bool) option) \<Rightarrow> string \<Rightarrow> bool" where
  "validateUserDNS mobile hostInfo dns =
    (case hostInfo dns of
       None \<Rightarrow> False
     | Some (isIPv6, isLoopback) \<Rightarrow>
         if isIPv6 then False else if mobile \<and> isLoopback then False else True)"

text \<open>\<^verbatim>\<open>dnsMap[flags]\<close> of a missing key is a default-constructed entry: both strings empty.\<close>

definition getDNSDetails ::
    "bool \<Rightarrow> (string \<Rightarrow> (bool \<times> bool) option) \<Rightarrow> bool \<Rightarrow> dns_settings \<Rightarrow> string \<Rightarrow> dns_data" where
  "getDNSDetails mobile hostInfo customSupported st fallback =
    (if \<not> customSupported then \<lparr>dns_ipAddress = fallback, dns_type = ''NoCustomDNSAvailable''\<rparr>
     else let flags = ds_dnsProviderFlags st in
       if flags = dns_Gateway then \<lparr>dns_ipAddress = fallback, dns_type = ''Default''\<rparr>
       else if flags = dns_Custom then
         let dns = ds_userDNS st in
           if dns = [] \<or> \<not> validateUserDNS mobile hostInfo dns
           then \<lparr>dns_ipAddress = fallback, dns_type = ''Default''\<rparr>
           else \<lparr>dns_ipAddress = dns, dns_type = ''Custom''\<rparr>
       else (case map_of dnsMap flags of
               Some data \<Rightarrow> data | None \<Rightarrow> \<lparr>dns_ipAddress = [], dns_type = []\<rparr>))"

definition getDNS ::
    "bool \<Rightarrow> (string \<Rightarrow> (bool \<times> bool) option) \<Rightarrow> bool \<Rightarrow> dns_settings \<Rightarrow> string \<Rightarrow> string" where
  "getDNS mobile hostInfo customSupported st fallback =
     dns_ipAddress (getDNSDetails mobile hostInfo customSupported st fallback)"

definition getDNSType ::
    "bool \<Rightarrow> (string \<Rightarrow> (bool \<times> bool) option) \<Rightarrow> bool \<Rightarrow> dns_settings \<Rightarrow> string" where
  "getDNSType mobile hostInfo customSupported st =
     dns_type (getDNSDetails mobile hostInfo customSupported st ''IMPOSSIBLE'')"

definition maybeMigrateDNSProviderFlags :: "dns_settings \<Rightarrow> dns_settings" where
  "maybeMigrateDNSProviderFlags st =
    (case ds_dnsProviderDeprecated st of
       None \<Rightarrow> st
     | Some v \<Rightarrow>
         (if v = 1 then st\<lparr>ds_dnsProviderFlags := dns_BlockAds AND dns_BlockTrackers\<rparr>
          else if v = 2 then st\<lparr>ds_dnsProviderFlags := dns_BlockAds\<rparr>
          else if v = 3 then st\<lparr>ds_dnsProviderFlags := dns_BlockTrackers\<rparr>
          else if v = 4 then st\<lparr>ds_dnsProviderFlags := dns_Custom\<rparr>
          else st)\<lparr>ds_dnsProviderDeprecated := None\<rparr>)"

section \<open>Properties\<close>

definition flag :: "bool \<Rightarrow> int \<Rightarrow> int" where
  "flag b v = (if b then v else 0)"

lemma dnsMap_lookup:
  "map_of dnsMap (flag ads dns_BlockAds + flag trackers dns_BlockTrackers + flag malware dns_BlockMalware) =
    (if ads \<or> trackers \<or> malware
     then Some \<lparr>dns_ipAddress = ''100.64.0.'' @ [char_of (48 + of_bool ads + 2 * of_bool trackers + 4 * of_bool malware :: nat)],
       dns_type = ''Block'' @
         (if malware then ''Malware'' @ (if ads \<or> trackers then ''And'' else []) else []) @
         (if ads then ''Ads'' @ (if trackers then ''And'' else []) else []) @
         (if trackers then ''Trackers'' else [])\<rparr>
     else None)"
  by (cases ads; cases trackers; cases malware)
    (simp_all add: flag_def dnsMap_def dns_flag_defs dns_address_defs char_of_def bit_Suc_0_iff)

lemma getDNS_map:
  assumes "f \<noteq> dns_Gateway" "f \<noteq> dns_Custom"
  shows "getDNS mobile hostInfo True (st\<lparr>ds_dnsProviderFlags := f\<rparr>) fallback =
    (case map_of dnsMap f of None \<Rightarrow> [] | Some data \<Rightarrow> dns_ipAddress data)"
  using assms by (simp add: getDNS_def getDNSDetails_def split: option.split)

text \<open>
  \<^verbatim>\<open>getDNSDetails\<close> with the custom-DNS feature: any combination of the three block flags gives
  the resolver 100.64.0.n whose last digit has one bit per flag, no flag gives the gateway; the
  custom flag gives the user's server exactly when it parses as an IPv4 address (on mobile, not a
  loopback one) and the gateway otherwise; without the feature it is always the gateway.\<close>

theorem getDNS_selection:
  "getDNS mobile hostInfo True
     (st\<lparr>ds_dnsProviderFlags := flag ads dns_BlockAds + flag trackers dns_BlockTrackers + flag malware dns_BlockMalware\<rparr>)
     fallback =
   (if ads \<or> trackers \<or> malware
    then ''100.64.0.'' @ [char_of (48 + of_bool ads + 2 * of_bool trackers + 4 * of_bool malware :: nat)]
    else fallback) \<and>
   getDNS mobile hostInfo True (st\<lparr>ds_dnsProviderFlags := dns_Custom\<rparr>) fallback =
   (case hostInfo (ds_userDNS st) of
      Some (False, isLoopback) \<Rightarrow>
        if ds_userDNS st \<noteq> [] \<and> \<not> (mobile \<and> isLoopback) then ds_userDNS st else fallback
    | _ \<Rightarrow> fallback) \<and>
   getDNS mobile hostInfo False st fallback = fallback"
proof (intro conjI)
  let ?flags = "flag ads dns_BlockAds + flag trackers dns_BlockTrackers + flag malware dns_BlockMalware"
  show "getDNS mobile hostInfo True (st\<lparr>ds_dnsProviderFlags := ?flags\<rparr>) fallback =
    (if ads \<or> trackers \<or> malware
     then ''100.64.0.'' @ [char_of (48 + of_bool ads + 2 * of_bool trackers + 4 * of_bool malware :: nat)]
     else fallback)"
  proof (cases "ads \<or> trackers \<or> malware")
    case True
    then have "?flags \<noteq> dns_Gateway" "?flags \<noteq> dns_Custom" by (auto simp: flag_def dns_flag_defs)
    from getDNS_map [OF this] True show ?thesis by (simp only: dnsMap_lookup if_True option.case dns_data.simps)
  qed (simp add: flag_def dns_flag_defs getDNS_def getDNSDetails_def)
  show "getDNS mobile hostInfo True (st\<lparr>ds_dnsProviderFlags := dns_Custom\<rparr>) fallback =
   (case hostInfo (ds_userDNS st) of
      Some (False, isLoopback) \<Rightarrow>
        if ds_userDNS st \<noteq> [] \<and> \<not> (mobile \<and> isLoopback) then ds_userDNS st else fallback
    | _ \<Rightarrow> fallback)"
  proof (cases "hostInfo (ds_userDNS st)")
    case (Some x)
    moreover obtain v6 lo where "x = (v6, lo)" by fastforce
    ultimately show ?thesis
      by (cases v6) (simp_all add: getDNS_def getDNSDetails_def dns_flag_defs validateUserDNS_def)
  qed (simp add: getDNS_def getDNSDetails_def dns_flag_defs validateUserDNS_def)
qed (simp add: getDNS_def getDNSDetails_def)

text \<open>
  The migration of the deprecated provider value drops it; it keeps the meaning of the values
  2, 3 and 4, but the value 1 (block everything, that is ads and trackers) ends as the gateway:
  the two flags are combined by a bitwise and, which is 0.\<close>

theorem migration_drops_block_all:
  "maybeMigrateDNSProviderFlags (st\<lparr>ds_dnsProviderDeprecated := Some 1\<rparr>) =
     st\<lparr>ds_dnsProviderFlags := dns_Gateway, ds_dnsProviderDeprecated := None\<rparr> \<and>
   maybeMigrateDNSProviderFlags (st\<lparr>ds_dnsProviderDeprecated := Some 2\<rparr>) =
     st\<lparr>ds_dnsProviderFlags := dns_BlockAds, ds_dnsProviderDeprecated := None\<rparr> \<and>
   maybeMigrateDNSProviderFlags (st\<lparr>ds_dnsProviderDeprecated := Some 3\<rparr>) =
     st\<lparr>ds_dnsProviderFlags := dns_BlockTrackers, ds_dnsProviderDeprecated := None\<rparr> \<and>
   maybeMigrateDNSProviderFlags (st\<lparr>ds_dnsProviderDeprecated := Some 4\<rparr>) =
     st\<lparr>ds_dnsProviderFlags := dns_Custom, ds_dnsProviderDeprecated := None\<rparr> \<and>
   getDNS mobile hostInfo True
     (maybeMigrateDNSProviderFlags (st\<lparr>ds_dnsProviderDeprecated := Some 1\<rparr>)) fallback = fallback"
  by (simp add: maybeMigrateDNSProviderFlags_def dns_flag_defs getDNS_def getDNSDetails_def)

end
