(* ===== verification/RoutingPolicy.thy ===== *)
theory RoutingPolicy
  imports IPAddress Server DnsHelper
begin

text \<open>
  Model of the address blocks under \<^verbatim>\<open>src/src/rfc\<close>, of the three static functions of
  \<^verbatim>\<open>controller.cpp\<close> that compute what goes through the tunnel, and of the route computation of
  \<^verbatim>\<open>AndroidController::activate\<close>, the caller of \<^const>\<open>excludeAddresses\<close>.  The literals of the source
  are given in parsed form; \<open>parseHost\<close> is \<^verbatim>\<open>QHostAddress(QString)\<close>.
\<close>

section \<open>Address blocks\<close>

abbreviation v4net :: "32 word \<Rightarrow> int \<Rightarrow> ip_address" where
  "v4net a n \<equiv> \<lparr>m_address = IPv4 a, m_prefixLength = n\<rparr>"

abbreviation v6net :: "8 word list \<Rightarrow> int \<Rightarrow> ip_address" where
  "v6net bs n \<equiv> \<lparr>m_address = IPv6 bs, m_prefixLength = n\<rparr>"

definition v6bytes :: "8 word list \<Rightarrow> 8 word list" where
  "v6bytes bs = bs @ replicate (16 - length bs) 0"

definition RFC1918_ipv4 :: "ip_address list" where
  "RFC1918_ipv4 = [v4net 0x0A000000 8, v4net 0xAC100000 12, v4net 0xC0A80000 16]"

definition RFC1918_contains :: "host_address \<Rightarrow> bool" where
  "RFC1918_contains ip = list_ex (\<lambda>addr. contains addr ip) RFC1918_ipv4"

definition RFC1112_ipv4MulticastAddressBlock :: ip_address where
  "RFC1112_ipv4MulticastAddressBlock = v4net 0xE0000000 4"

definition RFC4193_ipv6 :: "ip_address list" where
  "RFC4193_ipv6 = [v6net (v6bytes [0xFC]) 7]"

definition RFC4193_contains :: "host_address \<Rightarrow> bool" where
  "RFC4193_contains ip = list_ex (\<lambda>addr. contains addr ip) RFC4193_ipv6"

definition RFC4291_ipv6LoopbackAddressBlock :: ip_address where
  "RFC4291_ipv6LoopbackAddressBlock = v6net (replicate 15 0 @ [1]) 128"

definition RFC4291_ipv6MulticastAddressBlock :: ip_address where
  "RFC4291_ipv6MulticastAddressBlock = v6net (v6bytes [0xFF]) 8"

definition RFC4291_ipv6LinkLocalAddressBlock :: ip_address where
  "RFC4291_ipv6LinkLocalAddressBlock = v6net (v6bytes [0xFE, 0x80]) 10"

definition RFC5735_ipv4LoopbackAddressBlock :: ip_address where
  "RFC5735_ipv4LoopbackAddressBlock = v4net 0x7F000000 8"

section \<open>What goes through the tunnel\<close>

record ip_address_list =
  ial_v6 :: "ip_address list"
  ial_v4 :: "ip_address list"

definition flatten :: "ip_address_list \<Rightarrow> ip_address list" where
  "flatten l = ial_v6 l @ ial_v4 l"

definition getExcludedIPAddressRanges :: ip_address_list where
  "getExcludedIPAddressRanges =
    \<lparr>ial_v6 = RFC4193_ipv6 @ [RFC4291_ipv6LinkLocalAddressBlock] @ [RFC4291_ipv6MulticastAddressBlock],
     ial_v4 = RFC1918_ipv4 @ [RFC1112_ipv4MulticastAddressBlock]\<rparr>"

definition MULLVAD_PROXY_RANGE :: "32 word" where
  "MULLVAD_PROXY_RANGE = 0x0A7C0000"

definition MULLVAD_PROXY_RANGE_LENGTH :: int where
  "MULLVAD_PROXY_RANGE_LENGTH = 20"

definition getAllowedIPAddressRanges :: "(string \<Rightarrow> host_address) \<Rightarrow> server \<Rightarrow> ip_address list" where
  "getAllowedIPAddressRanges parseHost exitServer =
     [v4net 0 0, v6net (replicate 16 0) 0,
      IPAddress_of_prefix (parseHost (m_ipv4Gateway exitServer)) 32] @
     (if m_ipv6Gateway exitServer \<noteq> []
      then [IPAddress_of_prefix (parseHost (m_ipv6Gateway exitServer)) 128] else []) @
     [IPAddress_of_prefix (IPv4 MULLVAD_PROXY_RANGE) MULLVAD_PROXY_RANGE_LENGTH]"

definition getExtensionProxyAddressRanges ::
    "(string \<Rightarrow> host_address) \<Rightarrow> (string \<Rightarrow> dns_data) \<Rightarrow> server \<Rightarrow> ip_address list" where
  "getExtensionProxyAddressRanges parseHost dnsDetails exitServer =
    (let dns = dnsDetails (m_ipv4Gateway exitServer) in
     [IPAddress_of_prefix (parseHost (m_ipv4Gateway exitServer)) 32,
      IPAddress_of_prefix (IPv4 MULLVAD_PROXY_RANGE) MULLVAD_PROXY_RANGE_LENGTH] @
     (if m_ipv6Gateway exitServer \<noteq> []
      then [IPAddress_of_prefix (parseHost (m_ipv6Gateway exitServer)) 128] else []) @
     (if dns_type dns \<noteq> ''Default'' \<and> dns_type dns \<noteq> ''Custom''
      then [IPAddress_of_prefix (parseHost (dns_ipAddress dns)) 32] else []))"

text \<open>
  The \<^verbatim>\<open>allowedIPs\<close> loop of \<^verbatim>\<open>AndroidController::activate\<close>: only catch-all entries are cut.  The
  result is \<open>None\<close> when \<^const>\<open>excludeAddresses\<close> does not return.
\<close>

fun android_allowedIPs :: "ip_address list \<Rightarrow> ip_address list option" where
  "android_allowedIPs [] = Some []"
| "android_allowedIPs (item # items) =
    (let here =
       (if m_prefixLength item > 0 then Some [item]
        else if protocol_of (m_address item) = IPv4Protocol
        then excludeAddresses [item] (ial_v4 getExcludedIPAddressRanges)
        else if protocol_of (m_address item) = IPv6Protocol
        then excludeAddresses [item] (ial_v6 getExcludedIPAddressRanges)
        else Some [])
     in case here of
          None \<Rightarrow> None
        | Some xs \<Rightarrow> map_option (\<lambda>ys. xs @ ys) (android_allowedIPs items))"

section \<open>Lemmas\<close>

lemmas rfc_defs = RFC1918_ipv4_def RFC1112_ipv4MulticastAddressBlock_def RFC4193_ipv6_def
  RFC4291_ipv6LinkLocalAddressBlock_def RFC4291_ipv6MulticastAddressBlock_def v6bytes_def

lemma bytes_bits_zeros: "list_all Not (bytes_bits (replicate n 0))"
  by (auto simp: bytes_bits_def wbits_def list_all_iff)

lemma excluded_v4_networks: "list_all network (ial_v4 getExcludedIPAddressRanges)"
  by (simp add: getExcludedIPAddressRanges_def rfc_defs network_def wf_ip_def wbits_def upt_rec numeral_nat)

lemma excluded_v6_networks: "list_all network (ial_v6 getExcludedIPAddressRanges)"
  by (simp add: getExcludedIPAddressRanges_def rfc_defs network_def wf_ip_def bytes_bits_def
      wbits_def upt_rec numeral_nat)

lemma catch_all_networks: "network (v4net 0 0)" "network (v6net (replicate 16 0) 0)"
  using bytes_bits_zeros [of 16] by (simp_all add: network_def wf_ip_def list_all_iff wbits_def)

lemma addrs_catch_all:
  "addrs (v4net a 0) = {h. wf_host h \<and> protocol_of h = IPv4Protocol}"
  "addrs (v6net bs 0) = {h. wf_host h \<and> protocol_of h = IPv6Protocol}"
  by (simp_all add: addrs_def)

lemma android_allowedIPs_append:
  "android_allowedIPs (xs @ ys) =
    (case android_allowedIPs xs of
       None \<Rightarrow> None
     | Some as \<Rightarrow> map_option (\<lambda>bs. as @ bs) (android_allowedIPs ys))"
  by (induction xs) (auto simp: Let_def map_option_case split: option.splits)

lemma android_allowedIPs_positive:
  "list_all (\<lambda>ip. m_prefixLength ip > 0) xs \<Longrightarrow> android_allowedIPs xs = Some xs"
  by (induction xs) auto

lemma addrs_single4: "addrs (IPAddress_of_prefix (IPv4 w) 32) = {IPv4 w}"
proof -
  have "a = IPv4 w" if "wf_host a" "protocol_of a = IPv4Protocol" "take 32 (host_bits a) = wbits w" for a
    using that by (cases a) auto
  then show ?thesis by (auto simp: addrs_def IPAddress_of_prefix_def)
qed

lemma addrs_single6: "length bs = 16 \<Longrightarrow> addrs (IPAddress_of_prefix (IPv6 bs) 128) = {IPv6 bs}"
proof -
  assume len: "length bs = 16"
  have "a = IPv6 bs" if "wf_host a" "protocol_of a = IPv6Protocol" "take 128 (host_bits a) = bytes_bits bs" for a
    using that len by (cases a) (auto intro: bytes_bits_inject)
  then show ?thesis using len by (auto simp: addrs_def IPAddress_of_prefix_def)
qed

lemma excluded_families:
  "all_addrs (ial_v4 getExcludedIPAddressRanges) \<subseteq> {h. protocol_of h = IPv4Protocol}"
  "all_addrs (ial_v6 getExcludedIPAddressRanges) \<subseteq> {h. protocol_of h = IPv6Protocol}"
  by (auto simp: getExcludedIPAddressRanges_def rfc_defs addrs_def)

lemma catch_all_cut:
  "\<exists>r. android_allowedIPs [v4net 0 0, v6net (replicate 16 0) 0] = Some r \<and>
     all_addrs r = {h. wf_host h} - all_addrs (flatten getExcludedIPAddressRanges)"
proof -
  obtain r4 where r4: "excludeAddresses [v4net 0 0] (ial_v4 getExcludedIPAddressRanges) = Some r4"
    "all_addrs r4 = addrs (v4net 0 0) - all_addrs (ial_v4 getExcludedIPAddressRanges)"
    using excludeAddresses_network [of "[v4net 0 0]", OF _ excluded_v4_networks] catch_all_networks
    by auto
  obtain r6 where r6: "excludeAddresses [v6net (replicate 16 0) 0] (ial_v6 getExcludedIPAddressRanges) = Some r6"
    "all_addrs r6 = addrs (v6net (replicate 16 0) 0) - all_addrs (ial_v6 getExcludedIPAddressRanges)"
    using excludeAddresses_network [of "[v6net (replicate 16 0) 0]", OF _ excluded_v6_networks] catch_all_networks
    by auto
  have fam: "wf_host h \<Longrightarrow> protocol_of h = IPv4Protocol \<or> protocol_of h = IPv6Protocol" for h
    by (cases h) auto
  have "{h. wf_host h} - all_addrs (flatten getExcludedIPAddressRanges) = all_addrs r4 \<union> all_addrs r6"
    unfolding r4(2) r6(2) addrs_catch_all flatten_def all_addrs_simps
    using excluded_families fam by fastforce
  then show ?thesis using r4(1) r6(1) by (intro exI [of _ "r4 @ r6"]) simp
qed

section \<open>Properties\<close>

text \<open>
  The routes the Android client hands to the system for a server whose gateways are addresses:
  the computation returns, and the routes cover exactly every IPv4 and IPv6 address outside the
  excluded local, link-local and multicast blocks, plus the server's own gateways and the proxy
  range, which lie inside those blocks and are kept.\<close>

theorem android_routes_exact:
  assumes "parseHost (m_ipv4Gateway s) = IPv4 g"
    and "m_ipv6Gateway s \<noteq> [] \<Longrightarrow> parseHost (m_ipv6Gateway s) = IPv6 bs \<and> length bs = 16"
  shows "\<exists>r. android_allowedIPs (getAllowedIPAddressRanges parseHost s) = Some r \<and>
    all_addrs r =
      ({h. wf_host h} - all_addrs (flatten getExcludedIPAddressRanges)) \<union>
      {IPv4 g} \<union> (if m_ipv6Gateway s \<noteq> [] then {IPv6 bs} else {}) \<union> addrs (v4net 0x0A7C0000 20)"
proof -
  let ?rest = "IPAddress_of_prefix (IPv4 g) 32 #
     (if m_ipv6Gateway s \<noteq> [] then [IPAddress_of_prefix (IPv6 bs) 128] else []) @
     [IPAddress_of_prefix (IPv4 MULLVAD_PROXY_RANGE) MULLVAD_PROXY_RANGE_LENGTH]"
  have split: "getAllowedIPAddressRanges parseHost s = [v4net 0 0, v6net (replicate 16 0) 0] @ ?rest"
    using assms by (simp add: getAllowedIPAddressRanges_def)
  have rest: "android_allowedIPs ?rest = Some ?rest"
    by (rule android_allowedIPs_positive)
      (simp add: IPAddress_of_prefix_def MULLVAD_PROXY_RANGE_LENGTH_def)
  have addrs_rest: "all_addrs ?rest =
      {IPv4 g} \<union> (if m_ipv6Gateway s \<noteq> [] then {IPv6 bs} else {}) \<union> addrs (v4net 0x0A7C0000 20)"
    using assms(2)
    by (simp add: addrs_single4 addrs_single6)
      (simp add: IPAddress_of_prefix_def MULLVAD_PROXY_RANGE_LENGTH_def MULLVAD_PROXY_RANGE_def)
  obtain r where "android_allowedIPs [v4net 0 0, v6net (replicate 16 0) 0] = Some r"
    "all_addrs r = {h. wf_host h} - all_addrs (flatten getExcludedIPAddressRanges)"
    using catch_all_cut by blast
  then show ?thesis
    unfolding split android_allowedIPs_append rest using addrs_rest
    by (intro exI [of _ "r @ ?rest"]) (simp add: Un_assoc)
qed

theorem android_routes_exact_witness:
  "\<exists>r. android_allowedIPs (getAllowedIPAddressRanges (\<lambda>_. IPv4 0x0A400001)
      (emptyServer\<lparr>m_ipv4Gateway := ''10.64.0.1''\<rparr>)) = Some r \<and> IPv4 0x0A400001 \<in> all_addrs r"
  using android_routes_exact [of "\<lambda>_. IPv4 0x0A400001" "emptyServer\<lparr>m_ipv4Gateway := ''10.64.0.1''\<rparr>"
      "0x0A400001"]
  by (auto simp: emptyServer_def)

end
