(* ===== verification/InterfaceConfig.thy ===== *)
theory InterfaceConfig
  imports Location RoutingPolicy
begin

text \<open>
  Model of \<^verbatim>\<open>src/src/interfaceconfig.cpp\<close> (the tunnel configuration, its JSON form and its
  WireGuard configuration file) and of the parser of that JSON in \<^verbatim>\<open>src/src/daemon/daemon.cpp\<close>.
  Parameters: \<open>valueToKey\<close> and \<open>keyToValue\<close> (\<^verbatim>\<open>QMetaEnum\<close>), \<open>printHost\<close> and \<open>parseHost\<close>
  (\<^verbatim>\<open>QHostAddress\<close>), \<open>printIP\<close> (\<^verbatim>\<open>IPAddress::toString\<close>), \<open>printInt\<close> (decimal printing).
\<close>

datatype hop_type = SingleHop | MultiHopEntry | MultiHopExit

record interface_config =
  ic_hopType :: hop_type
  ic_privateKey :: qstring
  ic_deviceIpv4Address :: qstring
  ic_deviceIpv6Address :: qstring
  ic_serverIpv4Gateway :: qstring
  ic_serverIpv6Gateway :: qstring
  ic_serverPublicKey :: qstring
  ic_serverIpv4AddrIn :: qstring
  ic_serverIpv6AddrIn :: qstring
  ic_dnsServer :: qstring
  ic_serverPort :: int
  ic_allowedIPAddressRanges :: "ip_address list"
  ic_vpnDisabledApps :: "string list"

text \<open>A default-constructed configuration; its hop type is not initialised by the source.\<close>

definition emptyConfig :: interface_config where
  "emptyConfig = \<lparr>ic_hopType = SingleHop, ic_privateKey = None, ic_deviceIpv4Address = None,
     ic_deviceIpv6Address = None, ic_serverIpv4Gateway = None, ic_serverIpv6Gateway = None,
     ic_serverPublicKey = None, ic_serverIpv4AddrIn = None, ic_serverIpv6AddrIn = None,
     ic_dnsServer = None, ic_serverPort = 0, ic_allowedIPAddressRanges = [], ic_vpnDisabledApps = []\<rparr>"

section \<open>JSON\<close>

definition JQString :: "qstring \<Rightarrow> json" where
  "JQString q = JString (qchars q)"

definition range_toJson :: "(host_address \<Rightarrow> string) \<Rightarrow> ip_address \<Rightarrow> json" where
  "range_toJson printHost i =
     JObject (obj_insert ''isIpv6'' (JBool (protocol_of (m_address i) = IPv6Protocol))
       (obj_insert ''range'' (JDouble (real_of_int (m_prefixLength i)))
         (obj_insert ''address'' (JString (printHost (m_address i))) [])))"

definition config_toJson ::
    "(hop_type \<Rightarrow> string) \<Rightarrow> (host_address \<Rightarrow> string) \<Rightarrow> interface_config \<Rightarrow> json_object" where
  "config_toJson valueToKey printHost c =
    (let json = obj_insert ''serverPort'' (JDouble (real_of_int (ic_serverPort c)))
         (obj_insert ''serverIpv6AddrIn'' (JQString (ic_serverIpv6AddrIn c))
         (obj_insert ''serverIpv4AddrIn'' (JQString (ic_serverIpv4AddrIn c))
         (obj_insert ''serverPublicKey'' (JQString (ic_serverPublicKey c))
         (obj_insert ''deviceIpv6Address'' (JQString (ic_deviceIpv6Address c))
         (obj_insert ''deviceIpv4Address'' (JQString (ic_deviceIpv4Address c))
         (obj_insert ''privateKey'' (JQString (ic_privateKey c))
         (obj_insert ''hopType'' (JString (valueToKey (ic_hopType c))) [])))))));
         json = (if ic_hopType c = MultiHopExit \<or> ic_hopType c = SingleHop
                 then obj_insert ''dnsServer'' (JQString (ic_dnsServer c))
                       (obj_insert ''serverIpv6Gateway'' (JQString (ic_serverIpv6Gateway c))
                         (obj_insert ''serverIpv4Gateway'' (JQString (ic_serverIpv4Gateway c)) json))
                 else json)
     in obj_insert ''vpnDisabledApps'' (JArray (map JString (ic_vpnDisabledApps c)))
          (obj_insert ''allowedIPAddressRanges''
             (JArray (map (range_toJson printHost) (ic_allowedIPAddressRanges c))) json))"

fun string_items :: "json list \<Rightarrow> string list option" where
  "string_items [] = Some []"
| "string_items (v # vs) =
    (if \<not> isString v then None else map_option ((#) (toString v)) (string_items vs))"

definition parseStringList :: "json_object \<Rightarrow> string \<Rightarrow> string list \<Rightarrow> string list option" where
  "parseStringList obj name lst =
    (if obj_contains obj name
     then let value = obj_value obj name
          in if \<not> isArray value then None
             else map_option (\<lambda>xs. lst @ xs) (string_items (toArray value))
     else Some lst)"

fun parse_ranges :: "(string \<Rightarrow> host_address) \<Rightarrow> json list \<Rightarrow> ip_address list option" where
  "parse_ranges parseHost [] = Some []"
| "parse_ranges parseHost (i # is) =
    (if \<not> isObject i then None
     else let ipObj = toObject i;
              address = obj_value ipObj ''address'';
              range = obj_value ipObj ''range'';
              isIpv6 = obj_value ipObj ''isIpv6''
          in if \<not> isString address then None
             else if \<not> isDouble range then None
             else if \<not> isBool isIpv6 then None
             else map_option ((#) (IPAddress_of_prefix (parseHost (toString address)) (toInt range)))
                    (parse_ranges parseHost is))"

definition longer_prefix :: "ip_address \<Rightarrow> ip_address \<Rightarrow> bool" where
  "longer_prefix a b = (m_prefixLength a > m_prefixLength b)"

text \<open>The last part of \<^verbatim>\<open>parseConfig\<close>: address ranges, sorted, and the disabled applications.\<close>

definition parse_lists ::
    "(string \<Rightarrow> host_address) \<Rightarrow> json_object \<Rightarrow> interface_config \<Rightarrow> interface_config option" where
  "parse_lists parseHost obj config =
    (let value = obj_value obj ''allowedIPAddressRanges'' in
     if \<not> obj_contains obj ''allowedIPAddressRanges'' then None
     else if \<not> isArray value then None
     else case parse_ranges parseHost (toArray value) of
       None \<Rightarrow> None
     | Some ranges \<Rightarrow>
         (case parseStringList obj ''vpnDisabledApps'' (ic_vpnDisabledApps config) of
            None \<Rightarrow> None
          | Some apps \<Rightarrow>
              Some (config\<lparr>ic_allowedIPAddressRanges :=
                       std_sort longer_prefix (ic_allowedIPAddressRanges config @ ranges),
                      ic_vpnDisabledApps := apps\<rparr>)))"

definition parse_hopType :: "(string \<Rightarrow> hop_type option) \<Rightarrow> json_object \<Rightarrow> hop_type option" where
  "parse_hopType keyToValue obj =
    (if \<not> obj_contains obj ''hopType'' then Some SingleHop
     else let value = obj_value obj ''hopType''
          in if \<not> isString value then None else keyToValue (toString value))"

definition parse_dnsServer :: "json_object \<Rightarrow> qstring option" where
  "parse_dnsServer obj =
    (if \<not> obj_contains obj ''dnsServer'' then Some None
     else let value = obj_value obj ''dnsServer''
          in if \<not> isString value then None else Some (toQString value))"

definition parseConfig ::
    "(string \<Rightarrow> hop_type option) \<Rightarrow> (string \<Rightarrow> host_address) \<Rightarrow> json_object \<Rightarrow> interface_config \<Rightarrow>
     interface_config option" where
  "parseConfig keyToValue parseHost obj config =
    (let privateKey = obj_value obj ''privateKey'';
         serverPublicKey = obj_value obj ''serverPublicKey'';
         serverPort = obj_value obj ''serverPort'';
         deviceIpv4Address = toQString (obj_value obj ''deviceIpv4Address'');
         deviceIpv6Address = toQString (obj_value obj ''deviceIpv6Address'');
         serverIpv4AddrIn = toQString (obj_value obj ''serverIpv4AddrIn'');
         serverIpv6AddrIn = toQString (obj_value obj ''serverIpv6AddrIn'')
     in if \<not> obj_contains obj ''privateKey'' \<or> \<not> isString privateKey then None
        else if \<not> obj_contains obj ''serverPublicKey'' \<or> \<not> isString serverPublicKey then None
        else if \<not> obj_contains obj ''serverPort'' \<or> \<not> isDouble serverPort then None
        else if isNull deviceIpv4Address \<and> isNull deviceIpv6Address then None
        else if isNull serverIpv4AddrIn \<and> isNull serverIpv6AddrIn then None
        else
          (case parse_dnsServer obj of
             None \<Rightarrow> None
           | Some dnsServer \<Rightarrow>
               (case parse_hopType keyToValue obj of
                  None \<Rightarrow> None
                | Some hopType \<Rightarrow>
                    parse_lists parseHost obj
                      (config\<lparr>ic_privateKey := toQString privateKey,
                        ic_serverPublicKey := toQString serverPublicKey,
                        ic_serverPort := double_to_int (toDouble serverPort),
                        ic_deviceIpv4Address := deviceIpv4Address,
                        ic_deviceIpv6Address := deviceIpv6Address,
                        ic_serverIpv4AddrIn := serverIpv4AddrIn,
                        ic_serverIpv6AddrIn := serverIpv6AddrIn,
                        ic_serverIpv4Gateway := toQString (obj_value obj ''serverIpv4Gateway''),
                        ic_serverIpv6Gateway := toQString (obj_value obj ''serverIpv6Gateway''),
                        ic_dnsServer := dnsServer,
                        ic_hopType := hopType\<rparr>))))"

section \<open>The WireGuard configuration file\<close>

definition newline :: char where
  "newline = CHR 0x0A"

fun join :: "string \<Rightarrow> string list \<Rightarrow> string" where
  "join sep [] = []"
| "join sep [x] = x"
| "join sep (x # y # ys) = x @ sep @ join sep (y # ys)"

definition wg_addresses :: "interface_config \<Rightarrow> string list" where
  "wg_addresses c =
     (if \<not> isNull (ic_deviceIpv4Address c) then [qchars (ic_deviceIpv4Address c)] else []) @
     (if \<not> isNull (ic_deviceIpv6Address c) then [qchars (ic_deviceIpv6Address c)] else [])"

definition wg_lines ::
    "(int \<Rightarrow> string) \<Rightarrow> (ip_address \<Rightarrow> string) \<Rightarrow> (string \<times> string) list \<Rightarrow> interface_config \<Rightarrow> string list" where
  "wg_lines printInt printIP extra c =
     [''[Interface]'', ''PrivateKey = '' @ qchars (ic_privateKey c),
      ''Address = '' @ join '', '' (wg_addresses c)] @
     (if \<not> isNull (ic_dnsServer c)
      then [''DNS = '' @ join '', '' (qchars (ic_dnsServer c) #
              (if qeq (ic_dnsServer c) (ic_serverIpv4Gateway c)
               then [qchars (ic_serverIpv6Gateway c)] else []))]
      else []) @
     map (\<lambda>(key, val). key @ '' = '' @ val) extra @
     [[], ''[Peer]'', ''PublicKey = '' @ qchars (ic_serverPublicKey c),
      ''Endpoint = '' @ qchars (ic_serverIpv4AddrIn c) @ '':'' @ printInt (ic_serverPort c),
      ''AllowedIPs = '' @ join '', '' (map printIP (ic_allowedIPAddressRanges c))]"

text \<open>The fields \<^verbatim>\<open>toWgConf\<close> validates.  The DNS server and the extra entries are not among them.\<close>

definition wg_validated :: "interface_config \<Rightarrow> qstring list" where
  "wg_validated c = [ic_privateKey c, ic_deviceIpv4Address c, ic_deviceIpv6Address c,
     ic_serverIpv4Gateway c, ic_serverIpv6Gateway c, ic_serverPublicKey c, ic_serverIpv4AddrIn c,
     ic_serverIpv6AddrIn c]"

definition toWgConf ::
    "(int \<Rightarrow> string) \<Rightarrow> (ip_address \<Rightarrow> string) \<Rightarrow> (string \<times> string) list \<Rightarrow> interface_config \<Rightarrow> string" where
  "toWgConf printInt printIP extra c =
    (if list_ex (\<lambda>q. newline \<in> set (qchars q)) (wg_validated c) then []
     else if wg_addresses c = [] then []
     else concat (map (\<lambda>l. l @ [newline]) (wg_lines printInt printIP extra c)))"

section \<open>Round trip\<close>

lemma JQString_simps [simp]:
  "isString (JQString q)" "toQString (JQString q) = Some (qchars q)" "toString (JQString q) = qchars q"
  by (simp_all add: JQString_def)

lemma string_items_map [simp]: "string_items (map JString xs) = Some xs"
  by (induction xs) simp_all

definition printable :: "(host_address \<Rightarrow> string) \<Rightarrow> (string \<Rightarrow> host_address) \<Rightarrow> ip_address list \<Rightarrow> bool" where
  "printable printHost parseHost ips \<longleftrightarrow>
     (\<forall>i \<in> set ips. parseHost (printHost (m_address i)) = m_address i \<and>
        - (2 ^ 31) \<le> m_prefixLength i \<and> m_prefixLength i < 2 ^ 31)"

lemma parse_ranges_toJson:
  "printable printHost parseHost ips \<Longrightarrow>
     parse_ranges parseHost (map (range_toJson printHost) ips) = Some ips"
  by (induction ips) (simp_all add: printable_def range_toJson_def Let_def IPAddress_of_prefix_def)

lemma config_toJson_lookup:
  assumes "has_exit = (ic_hopType c = MultiHopExit \<or> ic_hopType c = SingleHop)"
  shows
    "obj_value (config_toJson vk ph c) ''hopType'' = JString (vk (ic_hopType c))"
    "obj_value (config_toJson vk ph c) ''privateKey'' = JQString (ic_privateKey c)"
    "obj_value (config_toJson vk ph c) ''serverPublicKey'' = JQString (ic_serverPublicKey c)"
    "obj_value (config_toJson vk ph c) ''serverPort'' = JDouble (real_of_int (ic_serverPort c))"
    "obj_value (config_toJson vk ph c) ''deviceIpv4Address'' = JQString (ic_deviceIpv4Address c)"
    "obj_value (config_toJson vk ph c) ''deviceIpv6Address'' = JQString (ic_deviceIpv6Address c)"
    "obj_value (config_toJson vk ph c) ''serverIpv4AddrIn'' = JQString (ic_serverIpv4AddrIn c)"
    "obj_value (config_toJson vk ph c) ''serverIpv6AddrIn'' = JQString (ic_serverIpv6AddrIn c)"
    "obj_value (config_toJson vk ph c) ''serverIpv4Gateway'' =
       (if has_exit then JQString (ic_serverIpv4Gateway c) else JUndefined)"
    "obj_value (config_toJson vk ph c) ''serverIpv6Gateway'' =
       (if has_exit then JQString (ic_serverIpv6Gateway c) else JUndefined)"
    "obj_value (config_toJson vk ph c) ''dnsServer'' =
       (if has_exit then JQString (ic_dnsServer c) else JUndefined)"
    "obj_value (config_toJson vk ph c) ''allowedIPAddressRanges'' =
       JArray (map (range_toJson ph) (ic_allowedIPAddressRanges c))"
    "obj_value (config_toJson vk ph c) ''vpnDisabledApps'' = JArray (map JString (ic_vpnDisabledApps c))"
    "obj_contains (config_toJson vk ph c) ''hopType''"
    "obj_contains (config_toJson vk ph c) ''privateKey''"
    "obj_contains (config_toJson vk ph c) ''serverPublicKey''"
    "obj_contains (config_toJson vk ph c) ''serverPort''"
    "obj_contains (config_toJson vk ph c) ''dnsServer'' = has_exit"
    "obj_contains (config_toJson vk ph c) ''allowedIPAddressRanges''"
    "obj_contains (config_toJson vk ph c) ''vpnDisabledApps''"
  using assms by (simp_all add: config_toJson_def Let_def)

text \<open>What the daemon reads: null strings become empty, an entry hop loses gateways and DNS.\<close>

definition transported :: "interface_config \<Rightarrow> interface_config" where
  "transported c =
    (let keep = (\<lambda>q. Some (qchars q)); exit_only = (\<lambda>q. if ic_hopType c = MultiHopEntry then None else keep q)
     in c\<lparr>ic_privateKey := keep (ic_privateKey c),
          ic_deviceIpv4Address := keep (ic_deviceIpv4Address c),
          ic_deviceIpv6Address := keep (ic_deviceIpv6Address c),
          ic_serverPublicKey := keep (ic_serverPublicKey c),
          ic_serverIpv4AddrIn := keep (ic_serverIpv4AddrIn c),
          ic_serverIpv6AddrIn := keep (ic_serverIpv6AddrIn c),
          ic_serverIpv4Gateway := exit_only (ic_serverIpv4Gateway c),
          ic_serverIpv6Gateway := exit_only (ic_serverIpv6Gateway c),
          ic_dnsServer := exit_only (ic_dnsServer c),
          ic_allowedIPAddressRanges := std_sort longer_prefix (ic_allowedIPAddressRanges c)\<rparr>)"

lemma insort_by_sorted:
  assumes "sorted_wrt (\<lambda>a b. f b \<le> (f a :: int)) xs"
  shows "sorted_wrt (\<lambda>a b. f b \<le> f a) (insort_by (\<lambda>a b. f a > f b) x xs)"
  using assms by (induction xs) (auto simp: not_less dest: order_trans)

lemma std_sort_sorted: "sorted_wrt (\<lambda>a b. m_prefixLength b \<le> m_prefixLength a) (std_sort longer_prefix xs)"
  unfolding std_sort_def longer_prefix_def [abs_def]
  by (induction xs) (simp_all add: insort_by_sorted)

lemma parseConfig_toJson:
  assumes "keyToValue (valueToKey (ic_hopType c)) = Some (ic_hopType c)"
    and "printable printHost parseHost (ic_allowedIPAddressRanges c)"
  shows "parseConfig keyToValue parseHost (config_toJson valueToKey printHost c) emptyConfig = Some (transported c)"
proof -
  have hop: "(ic_hopType c = MultiHopExit \<or> ic_hopType c = SingleHop) = (ic_hopType c \<noteq> MultiHopEntry)"
    by (cases "ic_hopType c") auto
  show ?thesis
    using assms(1) parse_ranges_toJson [OF assms(2)]
    by (cases "ic_hopType c = MultiHopEntry")
      (simp_all add: parseConfig_def parse_dnsServer_def parse_hopType_def parse_lists_def
        parseStringList_def config_toJson_lookup [OF refl] hop transported_def emptyConfig_def Let_def)
qed

text \<open>The type field the client adds to the object does not matter to the parser.\<close>

lemma typed_lookup:
  "obj_value (obj_insert ''type'' t obj) ''privateKey'' = obj_value obj ''privateKey''"
  "obj_value (obj_insert ''type'' t obj) ''serverPublicKey'' = obj_value obj ''serverPublicKey''"
  "obj_value (obj_insert ''type'' t obj) ''serverPort'' = obj_value obj ''serverPort''"
  "obj_value (obj_insert ''type'' t obj) ''deviceIpv4Address'' = obj_value obj ''deviceIpv4Address''"
  "obj_value (obj_insert ''type'' t obj) ''deviceIpv6Address'' = obj_value obj ''deviceIpv6Address''"
  "obj_value (obj_insert ''type'' t obj) ''serverIpv4AddrIn'' = obj_value obj ''serverIpv4AddrIn''"
  "obj_value (obj_insert ''type'' t obj) ''serverIpv6AddrIn'' = obj_value obj ''serverIpv6AddrIn''"
  "obj_value (obj_insert ''type'' t obj) ''serverIpv4Gateway'' = obj_value obj ''serverIpv4Gateway''"
  "obj_value (obj_insert ''type'' t obj) ''serverIpv6Gateway'' = obj_value obj ''serverIpv6Gateway''"
  "obj_value (obj_insert ''type'' t obj) ''dnsServer'' = obj_value obj ''dnsServer''"
  "obj_value (obj_insert ''type'' t obj) ''hopType'' = obj_value obj ''hopType''"
  "obj_value (obj_insert ''type'' t obj) ''allowedIPAddressRanges'' = obj_value obj ''allowedIPAddressRanges''"
  "obj_value (obj_insert ''type'' t obj) ''vpnDisabledApps'' = obj_value obj ''vpnDisabledApps''"
  "obj_contains (obj_insert ''type'' t obj) ''privateKey'' = obj_contains obj ''privateKey''"
  "obj_contains (obj_insert ''type'' t obj) ''serverPublicKey'' = obj_contains obj ''serverPublicKey''"
  "obj_contains (obj_insert ''type'' t obj) ''serverPort'' = obj_contains obj ''serverPort''"
  "obj_contains (obj_insert ''type'' t obj) ''dnsServer'' = obj_contains obj ''dnsServer''"
  "obj_contains (obj_insert ''type'' t obj) ''hopType'' = obj_contains obj ''hopType''"
  "obj_contains (obj_insert ''type'' t obj) ''allowedIPAddressRanges'' = obj_contains obj ''allowedIPAddressRanges''"
  "obj_contains (obj_insert ''type'' t obj) ''vpnDisabledApps'' = obj_contains obj ''vpnDisabledApps''"
  by (simp_all add: obj_value_def obj_contains_def obj_insert_def update_conv)

lemma parseConfig_typed:
  "parseConfig keyToValue parseHost (obj_insert ''type'' t obj) base = parseConfig keyToValue parseHost obj base"
  unfolding parseConfig_def parse_dnsServer_def parse_hopType_def parse_lists_def parseStringList_def typed_lookup
  by (rule refl)

text \<open>
  C31: Configuration transport from client to daemon: parsing what \<^verbatim>\<open>InterfaceConfig::toJson\<close> writes
  succeeds and gives back every field of the configuration as \<open>transported\<close> states: strings as
  they were (null read as empty), the hop type, port and applications unchanged, the same address
  ranges sorted by decreasing prefix length; only a multi-hop entry is read without gateways and
  DNS server.\<close>

theorem config_roundtrip:
  assumes "keyToValue (valueToKey (ic_hopType c)) = Some (ic_hopType c)"
    and "printable printHost parseHost (ic_allowedIPAddressRanges c)"
  shows "parseConfig keyToValue parseHost (config_toJson valueToKey printHost c) emptyConfig =
      Some (transported c) \<and>
    set (ic_allowedIPAddressRanges (transported c)) = set (ic_allowedIPAddressRanges c) \<and>
    sorted_wrt (\<lambda>a b. m_prefixLength b \<le> m_prefixLength a) (ic_allowedIPAddressRanges (transported c))"
  using parseConfig_toJson [of keyToValue valueToKey c printHost parseHost] assms by (simp add: transported_def Let_def std_sort_sorted)

definition sample_valueToKey :: "hop_type \<Rightarrow> string" where
  "sample_valueToKey h = (case h of SingleHop \<Rightarrow> ''SingleHop'' | MultiHopEntry \<Rightarrow> ''MultiHopEntry''
     | MultiHopExit \<Rightarrow> ''MultiHopExit'')"

definition sample_keyToValue :: "string \<Rightarrow> hop_type option" where
  "sample_keyToValue k = (if k = ''SingleHop'' then Some SingleHop
     else if k = ''MultiHopEntry'' then Some MultiHopEntry
     else if k = ''MultiHopExit'' then Some MultiHopExit else None)"

lemma sample_keys: "sample_keyToValue (sample_valueToKey h) = Some h"
  by (cases h) (simp_all add: sample_keyToValue_def sample_valueToKey_def)

theorem config_roundtrip_witness:
  "parseConfig sample_keyToValue (\<lambda>s. if s = ''0.0.0.0'' then IPv4 0 else NullAddress)
     (config_toJson sample_valueToKey (\<lambda>_. ''0.0.0.0'')
        (emptyConfig\<lparr>ic_hopType := MultiHopExit, ic_allowedIPAddressRanges := [v4net 0 0]\<rparr>)) emptyConfig
   = Some (transported (emptyConfig\<lparr>ic_hopType := MultiHopExit, ic_allowedIPAddressRanges := [v4net 0 0]\<rparr>))"
  by (rule config_roundtrip [THEN conjunct1]) (simp_all add: sample_keys printable_def)

section \<open>Lines of the configuration file\<close>

lemma split_on_nonempty: "split_on c xs \<noteq> []"
  by (induction xs) (auto split: list.splits)

lemma split_on_clean: "c \<notin> set xs \<Longrightarrow> split_on c xs = [xs]"
  by (induction xs) auto

lemma split_on_append: "split_on c (xs @ c # ys) = split_on c xs @ split_on c ys"
  by (induction xs) (auto simp: split_on_nonempty split: list.splits)

lemma split_lines:
  "split_on c (concat (map (\<lambda>l. l @ [c]) ls)) = concat (map (split_on c) ls) @ [[]]"
  by (induction ls) (simp_all add: split_on_append)

lemma concat_split_clean: "\<forall>l \<in> set ls. c \<notin> set l \<Longrightarrow> concat (map (split_on c) ls) = ls"
  by (induction ls) (simp_all add: split_on_clean)

lemma join_clean: "c \<notin> set sep \<Longrightarrow> \<forall>x \<in> set xs. c \<notin> set x \<Longrightarrow> c \<notin> set (join sep xs)"
  by (induction sep xs rule: join.induct) auto

lemma newline_char [simp]:
  "newline = Char b0 b1 b2 b3 b4 b5 b6 b7 \<longleftrightarrow>
     \<not> b0 \<and> b1 \<and> \<not> b2 \<and> b3 \<and> \<not> b4 \<and> \<not> b5 \<and> \<not> b6 \<and> \<not> b7"
  by (auto simp: newline_def)

lemma wg_lines_clean:
  assumes "\<forall>q \<in> set (wg_validated c). newline \<notin> set (qchars q)"
    and "newline \<notin> set (qchars (ic_dnsServer c))"
    and "\<forall>(k, v) \<in> set extra. newline \<notin> set k \<and> newline \<notin> set v"
    and "newline \<notin> set (printInt (ic_serverPort c))"
    and "\<forall>ip \<in> set (ic_allowedIPAddressRanges c). newline \<notin> set (printIP ip)"
  shows "\<forall>l \<in> set (wg_lines printInt printIP extra c). newline \<notin> set l"
proof -
  have v: "newline \<notin> set (qchars (ic_privateKey c))" "newline \<notin> set (qchars (ic_deviceIpv4Address c))"
    "newline \<notin> set (qchars (ic_deviceIpv6Address c))" "newline \<notin> set (qchars (ic_serverIpv6Gateway c))"
    "newline \<notin> set (qchars (ic_serverPublicKey c))" "newline \<notin> set (qchars (ic_serverIpv4AddrIn c))"
    using assms(1) by (simp_all add: wg_validated_def)
  have sep: "newline \<noteq> CHR '',''" "newline \<noteq> CHR '' ''" "newline \<noteq> CHR ''=''" by (simp_all add: newline_def)
  have addr: "newline \<notin> set (join '', '' (wg_addresses c))"
    by (rule join_clean) (auto simp: wg_addresses_def v sep)
  have dns: "newline \<notin> set (join '', '' (qchars (ic_dnsServer c) # (if b then [qchars (ic_serverIpv6Gateway c)] else [])))" for b
    by (rule join_clean) (auto simp: v assms(2) sep)
  have ips: "newline \<notin> set (join '', '' (map printIP (ic_allowedIPAddressRanges c)))"
    by (rule join_clean) (use assms(5) sep in auto)
  have ex: "\<forall>l \<in> set (map (\<lambda>(key, val). key @ '' = '' @ val) extra). newline \<notin> set l"
    using assms(3) sep by auto
  show ?thesis
    unfolding wg_lines_def set_append ball_Un
    using v addr dns ips ex assms(4) by (simp del: map_append join.simps)
qed

text \<open>
  \<^verbatim>\<open>toWgConf\<close> either returns nothing or a file whose lines are exactly the expected ones, so no
  validated field can add a line to the file, provided the DNS server, the extra entries and the
  printed numbers and ranges, which the function does not check, hold no newline.\<close>

theorem wgconf_lines:
  assumes "newline \<notin> set (qchars (ic_dnsServer c))"
    and "\<forall>(k, v) \<in> set extra. newline \<notin> set k \<and> newline \<notin> set v"
    and "newline \<notin> set (printInt (ic_serverPort c))"
    and "\<forall>ip \<in> set (ic_allowedIPAddressRanges c). newline \<notin> set (printIP ip)"
  shows "if list_ex (\<lambda>q. newline \<in> set (qchars q)) (wg_validated c) \<or> wg_addresses c = []
    then toWgConf printInt printIP extra c = []
    else split_on newline (toWgConf printInt printIP extra c) = wg_lines printInt printIP extra c @ [[]]"
proof (cases "list_ex (\<lambda>q. newline \<in> set (qchars q)) (wg_validated c) \<or> wg_addresses c = []")
  case True
  then show ?thesis by (auto simp: toWgConf_def)
next
  case False
  then have "\<forall>l \<in> set (wg_lines printInt printIP extra c). newline \<notin> set l"
    by (intro wg_lines_clean assms) (auto simp: list_ex_iff)
  with False show ?thesis by (simp add: toWgConf_def split_lines concat_split_clean)
qed

theorem wgconf_lines_witness:
  "split_on newline (toWgConf (\<lambda>_. ''51820'') (\<lambda>_. ''0.0.0.0/0'') [] 
     (emptyConfig\<lparr>ic_privateKey := Some ''k'', ic_deviceIpv4Address := Some ''10.0.0.2/32''\<rparr>)) =
   wg_lines (\<lambda>_. ''51820'') (\<lambda>_. ''0.0.0.0/0'') []
     (emptyConfig\<lparr>ic_privateKey := Some ''k'', ic_deviceIpv4Address := Some ''10.0.0.2/32''\<rparr>) @ [[]]"
  using wgconf_lines [of "emptyConfig\<lparr>ic_privateKey := Some ''k'', ic_deviceIpv4Address := Some ''10.0.0.2/32''\<rparr>"
      "[]" "\<lambda>_. ''51820''" "\<lambda>_. ''0.0.0.0/0''"]
  by (simp add: emptyConfig_def newline_def wg_validated_def wg_addresses_def)

text \<open>
  A DNS server string with a newline passes the validation of \<^verbatim>\<open>toWgConf\<close>: what follows the
  newline becomes a line of its own of the \<^verbatim>\<open>[Interface]\<close> section.\<close>

theorem wgconf_dns_injection:
  assumes "\<forall>q \<in> set (wg_validated c). newline \<notin> set (qchars q)" "wg_addresses c \<noteq> []"
    and "ic_dnsServer c = Some (dns @ newline # injected)" "newline \<notin> set injected"
  shows "injected \<in> set (split_on newline (toWgConf printInt printIP extra c))"
proof -
  have "ic_serverIpv4Gateway c \<noteq> Some (dns @ newline # injected)"
    using assms(1) by (auto simp: wg_validated_def)
  moreover have "qchars (ic_serverIpv4Gateway c) \<noteq> dns @ newline # injected"
    using assms(1) by (auto simp: wg_validated_def)
  ultimately have "''DNS = '' @ dns @ newline # injected \<in> set (wg_lines printInt printIP extra c)"
    using assms(3) by (simp add: wg_lines_def qeq_def)
  moreover have "injected \<in> set (split_on newline (''DNS = '' @ dns @ newline # injected))"
    using split_on_append [of newline "''DNS = '' @ dns" injected] split_on_clean [OF assms(4)] by simp
  moreover have text_eq: "toWgConf printInt printIP extra c =
      concat (map (\<lambda>l. l @ [newline]) (wg_lines printInt printIP extra c))"
    using assms(1,2) by (auto simp: toWgConf_def list_ex_iff)
  ultimately have "injected \<in> set (concat (map (split_on newline) (wg_lines printInt printIP extra c)))"
    unfolding set_concat set_map by blast
  then show ?thesis using text_eq by (simp add: split_lines)
qed

theorem wgconf_dns_injection_witness:
  "''PostUp = x'' \<in> set (split_on newline (toWgConf (\<lambda>_. ''1'') (\<lambda>_. ''0.0.0.0/0'') []
     (emptyConfig\<lparr>ic_deviceIpv4Address := Some ''10.0.0.2/32'', ic_dnsServer := Some (''1.1.1.1'' @ newline # ''PostUp = x'')\<rparr>)))"
  by (rule wgconf_dns_injection)
    (auto simp: emptyConfig_def wg_validated_def wg_addresses_def newline_def)

end
