(* ===== verification/Daemon.thy ===== *)
theory Daemon
  imports InterfaceConfig
begin

text \<open>
  Model of \<^verbatim>\<open>src/src/daemon/daemon.cpp\<close>, the privileged process that owns the WireGuard interface,
  over an abstract backend (\<^verbatim>\<open>wireguardutils.h\<close>, \<^verbatim>\<open>dnsutils.h\<close>, \<^verbatim>\<open>iputils.h\<close> and the virtual
  methods of \<^verbatim>\<open>daemon.h\<close>), and of the mock backend of \<^verbatim>\<open>src/src/daemon/mock\<close>.

  A backend operation returns its success and the new backend state.  \<open>m_connections\<close>, a
  \<^verbatim>\<open>QMap\<close> keyed by hop type, is a partial map iterated in key order.  Emitted signals are logged.
\<close>

section \<open>Backend interface\<close>

datatype daemon_op = OpUp | OpDown | OpSwitch

record peer_status =
  ps_pubkey :: string
  ps_handshake :: int
  ps_rxBytes :: int
  ps_txBytes :: int

type_synonym 'b backend_op = "'b \<Rightarrow> bool \<times> 'b"

record 'b backend =
  be_interfaceExists :: "'b \<Rightarrow> bool"
  be_addInterface :: "interface_config \<Rightarrow> 'b backend_op"
  be_deleteInterface :: "'b backend_op"
  be_updatePeer :: "interface_config \<Rightarrow> 'b backend_op"
  be_deletePeer :: "interface_config \<Rightarrow> 'b backend_op"
  be_getPeerStatus :: "'b \<Rightarrow> peer_status list"
  be_updateRoutePrefix :: "ip_address \<Rightarrow> 'b backend_op"
  be_deleteRoutePrefix :: "ip_address \<Rightarrow> 'b backend_op"
  be_excludeLocalNetworks :: "ip_address list \<Rightarrow> 'b backend_op"
  be_updateResolvers :: "host_address list \<Rightarrow> 'b backend_op"
  be_restoreResolvers :: "'b backend_op"
  be_supportIPUtils :: bool
  be_addInterfaceIPs :: "interface_config \<Rightarrow> 'b backend_op"
  be_setMTUAndUp :: "interface_config \<Rightarrow> 'b backend_op"
  be_run :: "daemon_op \<Rightarrow> interface_config \<Rightarrow> 'b backend_op"
  be_prepareActivation :: "interface_config \<Rightarrow> 'b \<Rightarrow> 'b"

section \<open>State\<close>

record connection =
  cn_date :: "int option"
  cn_config :: interface_config

definition ConnectionState :: "interface_config \<Rightarrow> connection" where
  "ConnectionState config = \<lparr>cn_date = None, cn_config = config\<rparr>"

datatype daemon_out = DConnected string | DActivationFailure | DDisconnected

record 'b daemon =
  dm_connections :: "hop_type \<rightharpoonup> connection"
  dm_handshakeTimer :: bool
  dm_out :: "daemon_out list"
  dm_backend :: 'b

definition hops :: "hop_type list" where
  "hops = [SingleHop, MultiHopEntry, MultiHopExit]"

definition conn_list :: "(hop_type \<rightharpoonup> connection) \<Rightarrow> connection list" where
  "conn_list m = concat (map (\<lambda>h. case m h of None \<Rightarrow> [] | Some c \<Rightarrow> [c]) hops)"

definition dm_emit :: "daemon_out \<Rightarrow> 'b daemon \<Rightarrow> 'b daemon" where
  "dm_emit x s = s\<lparr>dm_out := dm_out s @ [x]\<rparr>"

definition backend_call :: "'b backend_op \<Rightarrow> 'b daemon \<Rightarrow> bool \<times> 'b daemon" where
  "backend_call f s = (let (ok, b) = f (dm_backend s) in (ok, s\<lparr>dm_backend := b\<rparr>))"

text \<open>A sequence of calls, each with an early \<^verbatim>\<open>return false\<close>; and one whose results are ignored.\<close>

fun try_all :: "('s \<Rightarrow> bool \<times> 's) list \<Rightarrow> 's \<Rightarrow> bool \<times> 's" where
  "try_all [] s = (True, s)"
| "try_all (f # fs) s = (let (ok, s') = f s in if ok then try_all fs s' else (False, s'))"

definition run_all :: "('s \<Rightarrow> bool \<times> 's) list \<Rightarrow> 's \<Rightarrow> 's" where
  "run_all fs s = fold (\<lambda>f s. snd (f s)) fs s"

section \<open>Operations\<close>

definition maybeUpdateResolvers ::
    "'b backend \<Rightarrow> (string \<Rightarrow> host_address) \<Rightarrow> interface_config \<Rightarrow> 'b daemon \<Rightarrow> bool \<times> 'b daemon" where
  "maybeUpdateResolvers B parseHost config s =
    (if ic_hopType config = MultiHopExit \<or> ic_hopType config = SingleHop
     then let resolvers = parseHost (qchars (ic_dnsServer config)) #
                (if qeq (ic_dnsServer config) (ic_serverIpv4Gateway config)
                 then [parseHost (qchars (ic_serverIpv6Gateway config))] else [])
          in backend_call (be_updateResolvers B resolvers) s
     else (True, s))"

definition supportServerSwitching :: "interface_config \<Rightarrow> 'b daemon \<Rightarrow> bool" where
  "supportServerSwitching config s =
    (case dm_connections s (ic_hopType config) of
       None \<Rightarrow> False
     | Some conn \<Rightarrow>
         let current = cn_config conn
         in qeq (ic_privateKey current) (ic_privateKey config) \<and>
            qeq (ic_deviceIpv4Address current) (ic_deviceIpv4Address config) \<and>
            qeq (ic_deviceIpv6Address current) (ic_deviceIpv6Address config) \<and>
            qeq (ic_serverIpv4Gateway current) (ic_serverIpv4Gateway config) \<and>
            qeq (ic_serverIpv6Gateway current) (ic_serverIpv6Gateway config))"

definition set_connection :: "interface_config \<Rightarrow> 'b daemon \<Rightarrow> 'b daemon" where
  "set_connection config s =
     s\<lparr>dm_connections := (dm_connections s)(ic_hopType config \<mapsto> ConnectionState config)\<rparr>"

text \<open>
  \<^verbatim>\<open>switchServer\<close>: a failing route update only ends the loop; the old routes that the new
  configuration does not have and, if it is another one, the old peer are removed.
\<close>

definition switchServer :: "'b backend \<Rightarrow> interface_config \<Rightarrow> 'b daemon \<Rightarrow> bool \<times> 'b daemon" where
  "switchServer B config s =
    (let lastConfig = (case dm_connections s (ic_hopType config) of
                         None \<Rightarrow> emptyConfig | Some conn \<Rightarrow> cn_config conn);
         (ok, s1) = backend_call (be_updatePeer B config) s
     in if \<not> ok then (False, s1)
        else let s2 = snd (try_all (map (\<lambda>ip. backend_call (be_updateRoutePrefix B ip))
                             (ic_allowedIPAddressRanges config)) s1);
                 s3 = run_all (map (\<lambda>ip. backend_call (be_deleteRoutePrefix B ip))
                        (filter (\<lambda>ip. ip \<notin> set (ic_allowedIPAddressRanges config))
                          (ic_allowedIPAddressRanges lastConfig))) s2;
                 (ok', s4) = (if \<not> qeq (ic_serverPublicKey config) (ic_serverPublicKey lastConfig)
                              then backend_call (be_deletePeer B lastConfig) s3 else (True, s3))
             in if \<not> ok' then (False, s4) else (True, set_connection config s4))"

text \<open>Recording the connection and starting the handshake timer, the end of both ways to activate.\<close>

definition commit_connection :: "interface_config \<Rightarrow> 'b daemon \<Rightarrow> bool \<times> 'b daemon" where
  "commit_connection config s = (True, (set_connection config s)\<lparr>dm_handshakeTimer := True\<rparr>)"

definition activate_switch ::
    "'b backend \<Rightarrow> (string \<Rightarrow> host_address) \<Rightarrow> interface_config \<Rightarrow> 'b daemon \<Rightarrow> bool \<times> 'b daemon" where
  "activate_switch B parseHost config =
     try_all [switchServer B config,
              backend_call (be_restoreResolvers B),
              maybeUpdateResolvers B parseHost config,
              backend_call (be_run B OpSwitch config),
              commit_connection config]"

definition bring_up :: "'b backend \<Rightarrow> interface_config \<Rightarrow> 'b daemon \<Rightarrow> bool \<times> 'b daemon" where
  "bring_up B config s =
    (if be_interfaceExists B (dm_backend s) then (True, s)
     else try_all
       ([backend_call (be_addInterface B config)] @
        (if be_supportIPUtils B
         then [backend_call (be_addInterfaceIPs B config), backend_call (be_setMTUAndUp B config)]
         else []) @
        [backend_call (be_excludeLocalNetworks B (flatten getExcludedIPAddressRanges))]) s)"

definition activate_up ::
    "'b backend \<Rightarrow> (string \<Rightarrow> host_address) \<Rightarrow> interface_config \<Rightarrow> 'b daemon \<Rightarrow> bool \<times> 'b daemon" where
  "activate_up B parseHost config s =
     try_all
       ([bring_up B config,
         backend_call (be_updatePeer B config),
         maybeUpdateResolvers B parseHost config] @
        map (\<lambda>ip. backend_call (be_updateRoutePrefix B ip)) (ic_allowedIPAddressRanges config) @
        [backend_call (be_run B OpUp config), commit_connection config])
       (s\<lparr>dm_backend := be_prepareActivation B config (dm_backend s)\<rparr>)"

definition cleanup_connection :: "'b backend \<Rightarrow> interface_config \<Rightarrow> 'b daemon \<Rightarrow> bool \<times> 'b daemon" where
  "cleanup_connection B config s =
     backend_call (be_deletePeer B config)
       (run_all (map (\<lambda>ip. backend_call (be_deleteRoutePrefix B ip)) (ic_allowedIPAddressRanges config)) s)"

definition deactivate :: "'b backend \<Rightarrow> bool \<Rightarrow> 'b daemon \<Rightarrow> bool \<times> 'b daemon" where
  "deactivate B emitSignals s =
    (let (ok, s1) = (case conn_list (dm_connections s) of
                       [] \<Rightarrow> (True, s)
                     | state # _ \<Rightarrow> backend_call (be_run B OpDown (cn_config state)) s)
     in if \<not> ok then (False, s1)
        else let s2 = snd (backend_call (be_restoreResolvers B) s1);
                 s3 = run_all (map (\<lambda>conn. cleanup_connection B (cn_config conn))
                        (conn_list (dm_connections s2))) s2;
                 (ok', s4) = backend_call (be_deleteInterface B) (s3\<lparr>dm_connections := Map.empty\<rparr>)
             in (ok', if emitSignals then dm_emit DDisconnected s4 else s4))"

text \<open>The scope guard of \<^verbatim>\<open>activate\<close>: any return without success emits \<^verbatim>\<open>activationFailure\<close>.\<close>

definition failure_guard :: "bool \<times> 'b daemon \<Rightarrow> bool \<times> 'b daemon" where
  "failure_guard r = (case r of (ok, s) \<Rightarrow> (ok, if ok then s else dm_emit DActivationFailure s))"

lemma backend_call_frame:
  "backend_call f s = (ok, s') \<Longrightarrow>
     dm_connections s' = dm_connections s \<and> dm_handshakeTimer s' = dm_handshakeTimer s \<and> dm_out s' = dm_out s"
  by (auto simp: backend_call_def split: prod.splits)

lemma deactivate_connections:
  "deactivate B e s = (ok, s') \<Longrightarrow> s' = snd (deactivate B e s) \<and> (ok \<longrightarrow> dm_connections s' = Map.empty)"
  by (auto simp: deactivate_def Let_def dm_emit_def dest: backend_call_frame split: prod.splits if_splits)

lemma conn_list_empty [simp]: "conn_list Map.empty = []"
  by (simp add: conn_list_def hops_def)

lemma conn_list_eq_Nil: "m h = Some c \<Longrightarrow> conn_list m \<noteq> []"
  by (cases h) (auto simp: conn_list_def hops_def)

function activate ::
    "'b backend \<Rightarrow> (string \<Rightarrow> host_address) \<Rightarrow> interface_config \<Rightarrow> 'b daemon \<Rightarrow> bool \<times> 'b daemon" where
  "activate B parseHost config s =
     failure_guard
       (if dm_connections s (ic_hopType config) \<noteq> None
        then (if supportServerSwitching config s
              then activate_switch B parseHost config s
              else (let (ok, s') = deactivate B False s
                    in if \<not> ok then (False, s') else activate B parseHost config s'))
        else activate_up B parseHost config s)"
  by pat_completeness auto
termination
  by (relation "measure (\<lambda>(B, ph, config, s). length (conn_list (dm_connections s)))")
    (auto dest!: deactivate_connections [OF sym] dest: conn_list_eq_Nil)

declare activate.simps [simp del]

definition insert_all :: "(string \<times> json) list \<Rightarrow> json_object \<Rightarrow> json_object" where
  "insert_all kvs json = fold (\<lambda>(k, v). obj_insert k v) kvs json"

definition getStatus :: "'b backend \<Rightarrow> (int \<Rightarrow> string) \<Rightarrow> 'b daemon \<Rightarrow> json_object" where
  "getStatus B printDate s =
    (if \<not> be_interfaceExists B (dm_backend s) then insert_all [(''connected'', JBool False)] []
     else case conn_list (dm_connections s) of
       [] \<Rightarrow> insert_all [(''connected'', JBool False)] []
     | conn # _ \<Rightarrow>
         (case find (\<lambda>status. ps_pubkey status = qchars (ic_serverPublicKey (cn_config conn)))
                 (be_getPeerStatus B (dm_backend s)) of
            None \<Rightarrow> insert_all [(''connected'', JBool False)] []
          | Some status \<Rightarrow>
              insert_all
                [(''connected'', JBool True),
                 (''serverIpv4Gateway'', JQString (ic_serverIpv4Gateway (cn_config conn))),
                 (''deviceIpv4Address'', JQString (ic_deviceIpv4Address (cn_config conn))),
                 (''date'', JString (case cn_date conn of None \<Rightarrow> [] | Some d \<Rightarrow> printDate d)),
                 (''txBytes'', JDouble (real_of_int (ps_txBytes status))),
                 (''rxBytes'', JDouble (real_of_int (ps_rxBytes status)))] []))"

text \<open>
  \<^verbatim>\<open>checkHandshake\<close>: for each connection without a date, every peer entry with its key and a
  handshake sets the date and emits \<^verbatim>\<open>connected\<close>.
\<close>

definition check_connection :: "peer_status list \<Rightarrow> connection \<Rightarrow> connection \<times> daemon_out list" where
  "check_connection peers conn =
    (if cn_date conn \<noteq> None then (conn, [])
     else fold (\<lambda>status (conn, out).
            if qchars (ic_serverPublicKey (cn_config conn)) = ps_pubkey status \<and> ps_handshake status \<noteq> 0
            then (conn\<lparr>cn_date := Some (ps_handshake status)\<rparr>, out @ [DConnected (ps_pubkey status)])
            else (conn, out)) peers (conn, []))"

definition checkHandshake :: "'b backend \<Rightarrow> 'b daemon \<Rightarrow> 'b daemon" where
  "checkHandshake B s =
    (let peers = be_getPeerStatus B (dm_backend s);
         conns' = (\<lambda>h. map_option (\<lambda>c. fst (check_connection peers c)) (dm_connections s h));
         out' = concat (map (\<lambda>c. snd (check_connection peers c)) (conn_list (dm_connections s)));
         pendingHandshakes = length (filter (\<lambda>c. cn_date c = None) (conn_list conns'))
     in s\<lparr>dm_connections := conns', dm_out := dm_out s @ out',
          dm_handshakeTimer := pendingHandshakes > 0\<rparr>)"

section \<open>The mock backend\<close>

definition MOCK_HANDSHAKE_DELAY_MSEC :: int where
  "MOCK_HANDSHAKE_DELAY_MSEC = 1500"

definition mock_updatePeer :: "int \<Rightarrow> interface_config \<Rightarrow> (string \<times> int) list backend_op" where
  "mock_updatePeer now config m =
     (True, AList.update (qchars (ic_serverPublicKey config)) (now + MOCK_HANDSHAKE_DELAY_MSEC) m)"

definition mock_deletePeer :: "interface_config \<Rightarrow> (string \<times> int) list backend_op" where
  "mock_deletePeer config m =
    (let key = qchars (ic_serverPublicKey config)
     in (map_of m key \<noteq> None, AList.delete key m))"

definition mock_getPeerStatus :: "int \<Rightarrow> (string \<times> int) list \<Rightarrow> peer_status list" where
  "mock_getPeerStatus now m =
     map (\<lambda>(pubkey, hsTime).
       if now > hsTime
       then \<lparr>ps_pubkey = pubkey, ps_handshake = hsTime, ps_rxBytes = (now - hsTime) * 7,
             ps_txBytes = (now - hsTime) * 3\<rparr>
       else \<lparr>ps_pubkey = pubkey, ps_handshake = 0, ps_rxBytes = 0, ps_txBytes = 0\<rparr>) m"

definition mock_backend :: "int \<Rightarrow> (string \<times> int) list backend" where
  "mock_backend now = \<lparr>
     be_interfaceExists = (\<lambda>_. True),
     be_addInterface = (\<lambda>_ m. (True, m)),
     be_deleteInterface = (\<lambda>m. (True, m)),
     be_updatePeer = mock_updatePeer now,
     be_deletePeer = mock_deletePeer,
     be_getPeerStatus = mock_getPeerStatus now,
     be_updateRoutePrefix = (\<lambda>_ m. (True, m)),
     be_deleteRoutePrefix = (\<lambda>_ m. (True, m)),
     be_excludeLocalNetworks = (\<lambda>_ m. (True, m)),
     be_updateResolvers = (\<lambda>_ m. (True, m)),
     be_restoreResolvers = (\<lambda>m. (True, m)),
     be_supportIPUtils = False,
     be_addInterfaceIPs = (\<lambda>_ m. (True, m)),
     be_setMTUAndUp = (\<lambda>_ m. (True, m)),
     be_run = (\<lambda>_ _ m. (True, m)),
     be_prepareActivation = (\<lambda>_ m. m)\<rparr>"

definition mock_activate ::
    "int \<Rightarrow> (string \<Rightarrow> host_address) \<Rightarrow> interface_config \<Rightarrow> (string \<times> int) list daemon \<Rightarrow>
     bool \<times> (string \<times> int) list daemon" where
  "mock_activate now parseHost config =
     activate (mock_backend now) parseHost
       (config\<lparr>ic_serverIpv4Gateway := Some ''127.0.0.1'', ic_serverIpv6Gateway := Some ''::1'',
               ic_deviceIpv4Address := Some ''127.0.0.1'', ic_deviceIpv6Address := Some ''::1''\<rparr>)"

section \<open>Frames\<close>

text \<open>The connections, the timer and the log of emitted signals, which backend calls do not touch.\<close>

definition same_front :: "'b daemon \<Rightarrow> 'b daemon \<Rightarrow> bool" where
  "same_front s s' \<longleftrightarrow> dm_connections s' = dm_connections s \<and>
     dm_handshakeTimer s' = dm_handshakeTimer s \<and> dm_out s' = dm_out s"

lemma same_front_refl [simp]: "same_front s s"
  by (simp add: same_front_def)

lemma same_front_trans: "same_front s t \<Longrightarrow> same_front t u \<Longrightarrow> same_front s u"
  by (simp add: same_front_def)

definition front_keeping :: "('b daemon \<Rightarrow> bool \<times> 'b daemon) \<Rightarrow> bool" where
  "front_keeping f \<longleftrightarrow> (\<forall>s. same_front s (snd (f s)))"

lemma front_keeping_call [simp]: "front_keeping (backend_call f)"
  by (auto simp: front_keeping_def same_front_def backend_call_def split: prod.splits)

lemma call_front: "same_front s (snd (backend_call f s))"
  using front_keeping_call unfolding front_keeping_def by blast

lemma front_keeping_try_all:
  "list_all front_keeping fs \<Longrightarrow> front_keeping (try_all fs)"
proof (induction fs)
  case (Cons f fs)
  then have "front_keeping f" "front_keeping (try_all fs)" by simp_all
  then show ?case
    by (auto simp: front_keeping_def split: prod.splits) (metis same_front_trans snd_conv)+
qed (simp add: front_keeping_def)

lemma front_keeping_run_all: "list_all front_keeping fs \<Longrightarrow> same_front s (run_all fs s)"
  unfolding run_all_def
proof (induction fs arbitrary: s)
  case (Cons f fs)
  then have "same_front s (snd (f s))" by (simp add: front_keeping_def)
  with Cons show ?case by (auto intro: same_front_trans)
qed simp

lemma front_keeping_resolvers [simp]: "front_keeping (maybeUpdateResolvers B ph c)"
  using front_keeping_call by (auto simp: front_keeping_def maybeUpdateResolvers_def Let_def)

lemma front_keeping_if:
  "front_keeping f \<Longrightarrow> front_keeping (\<lambda>s. if P s then (True, s) else f s)"
  by (simp add: front_keeping_def)

lemma front_keeping_bring_up [simp]: "front_keeping (bring_up B c)"
  unfolding bring_up_def [abs_def]
  by (rule front_keeping_if, rule front_keeping_try_all) simp

lemma front_keeping_cleanup [simp]: "front_keeping (cleanup_connection B c)"
proof -
  have "same_front s (run_all (map (\<lambda>ip. backend_call (be_deleteRoutePrefix B ip)) (ic_allowedIPAddressRanges c)) s)" for s
    by (rule front_keeping_run_all) (simp add: list_all_iff)
  then show ?thesis
    using front_keeping_call unfolding front_keeping_def cleanup_connection_def
    by (meson same_front_trans)
qed

lemma try_all_append:
  "try_all (fs @ gs) s = (let (ok, s') = try_all fs s in if ok then try_all gs s' else (False, s'))"
  by (induction fs arbitrary: s) (auto split: prod.splits)

text \<open>A chain of calls that keep the front and ends with the commit.\<close>

lemma try_all_commit:
  assumes "list_all front_keeping fs" "try_all (fs @ [commit_connection c]) s = (ok, s')"
  shows "if ok then dm_connections s' = (dm_connections s)(ic_hopType c \<mapsto> ConnectionState c) \<and>
        dm_handshakeTimer s' \<and> dm_out s' = dm_out s
      else same_front s s'"
proof -
  obtain ok1 s1 where s1: "try_all fs s = (ok1, s1)" by fastforce
  have "same_front s s1"
    using front_keeping_try_all [OF assms(1)] s1 by (metis front_keeping_def snd_conv)
  with assms(2) s1 show ?thesis
    by (auto simp: try_all_append commit_connection_def set_connection_def same_front_def
        split: if_splits)
qed

lemma activate_up_front:
  assumes "activate_up B ph c s = (ok, s')"
  shows "if ok then dm_connections s' = (dm_connections s)(ic_hopType c \<mapsto> ConnectionState c) \<and>
        dm_handshakeTimer s' \<and> dm_out s' = dm_out s
      else same_front s s'"
proof -
  let ?fs = "[bring_up B c, backend_call (be_updatePeer B c), maybeUpdateResolvers B ph c] @
        map (\<lambda>ip. backend_call (be_updateRoutePrefix B ip)) (ic_allowedIPAddressRanges c) @
        [backend_call (be_run B OpUp c)]"
  have "list_all front_keeping ?fs" by (simp add: list_all_iff)
  from try_all_commit [OF this] assms show ?thesis
    by (fastforce simp: activate_up_def same_front_def)
qed

lemma switchServer_front:
  assumes "switchServer B c s = (ok, s')"
  shows "if ok then dm_connections s' = (dm_connections s)(ic_hopType c \<mapsto> ConnectionState c) \<and>
        dm_handshakeTimer s' = dm_handshakeTimer s \<and> dm_out s' = dm_out s
      else same_front s s'"
proof -
  let ?last = "case dm_connections s (ic_hopType c) of None \<Rightarrow> emptyConfig | Some conn \<Rightarrow> cn_config conn"
  let ?upd = "map (\<lambda>ip. backend_call (be_updateRoutePrefix B ip)) (ic_allowedIPAddressRanges c)"
  let ?del = "map (\<lambda>ip. backend_call (be_deleteRoutePrefix B ip))
        (filter (\<lambda>ip. ip \<notin> set (ic_allowedIPAddressRanges c)) (ic_allowedIPAddressRanges ?last))"
  obtain ok1 s1 where s1: "backend_call (be_updatePeer B c) s = (ok1, s1)" by fastforce
  then have f1: "same_front s s1" using backend_call_frame by (fastforce simp: same_front_def)
  have "front_keeping (try_all ?upd)" by (rule front_keeping_try_all) (simp add: list_all_iff)
  then have f2: "same_front s1 (snd (try_all ?upd s1))" by (simp add: front_keeping_def)
  have f3: "same_front (snd (try_all ?upd s1)) (run_all ?del (snd (try_all ?upd s1)))"
    by (rule front_keeping_run_all) (simp add: list_all_iff)
  define s3 where "s3 = run_all ?del (snd (try_all ?upd s1))"
  have f: "same_front s s3" using f1 f2 f3 same_front_trans unfolding s3_def by blast
  obtain ok2 s4 where s4: "(if \<not> qeq (ic_serverPublicKey c) (ic_serverPublicKey ?last)
      then backend_call (be_deletePeer B ?last) s3 else (True, s3)) = (ok2, s4)" by fastforce
  then have "same_front s3 s4" using backend_call_frame
    by (cases "qeq (ic_serverPublicKey c) (ic_serverPublicKey ?last)") (fastforce simp: same_front_def)+
  with f have f4: "same_front s s4" by (rule same_front_trans)
  have "switchServer B c s = (if \<not> ok1 then (False, s1)
      else if \<not> ok2 then (False, s4) else (True, set_connection c s4))"
    unfolding switchServer_def Let_def s1 prod.case s3_def [symmetric] s4 by simp
  with assms f1 f4 show ?thesis by (auto simp: set_connection_def same_front_def split: if_splits)
qed

lemma activate_switch_front:
  assumes "activate_switch B ph c s = (ok, s')"
  shows "dm_out s' = dm_out s \<and>
    (ok \<longrightarrow> dm_connections s' = (dm_connections s)(ic_hopType c \<mapsto> ConnectionState c) \<and> dm_handshakeTimer s')"
proof -
  obtain ok1 s1 where s1: "switchServer B c s = (ok1, s1)" by fastforce
  note f1 = switchServer_front [OF s1]
  let ?fs = "[backend_call (be_restoreResolvers B), maybeUpdateResolvers B ph c,
      backend_call (be_run B OpSwitch c)]"
  show ?thesis
  proof (cases ok1)
    case True
    then have rest: "try_all (?fs @ [commit_connection c]) s1 = (ok, s')"
      using assms s1 by (simp add: activate_switch_def)
    have "list_all front_keeping ?fs" by simp
    from try_all_commit [OF this rest] f1 True show ?thesis
      by (auto simp: same_front_def split: if_splits)
  next
    case False
    then show ?thesis using assms s1 f1 by (simp add: activate_switch_def same_front_def)
  qed
qed

text \<open>Whether \<^verbatim>\<open>deactivate\<close> gets past the \<^verbatim>\<open>Down\<close> script.\<close>

definition torn_down :: "'b backend \<Rightarrow> 'b daemon \<Rightarrow> bool" where
  "torn_down B s =
    (case conn_list (dm_connections s) of
       [] \<Rightarrow> True | conn # _ \<Rightarrow> fst (be_run B OpDown (cn_config conn) (dm_backend s)))"

lemma deactivate_front:
  assumes "deactivate B e s = (ok, s')"
  shows "if torn_down B s
    then dm_connections s' = Map.empty \<and> dm_handshakeTimer s' = dm_handshakeTimer s \<and>
      dm_out s' = dm_out s @ (if e then [DDisconnected] else [])
    else \<not> ok \<and> same_front s s'"
proof -
  obtain ok1 s1 where s1: "(case conn_list (dm_connections s) of [] \<Rightarrow> (True, s)
      | state # _ \<Rightarrow> backend_call (be_run B OpDown (cn_config state)) s) = (ok1, s1)" by fastforce
  then have f1: "same_front s s1" and ok1: "ok1 = torn_down B s"
    using backend_call_frame
    by (auto simp: same_front_def torn_down_def backend_call_def Let_def split: list.splits prod.splits)
  define s2 where "s2 = snd (backend_call (be_restoreResolvers B) s1)"
  define s3 where "s3 = run_all (map (\<lambda>conn. cleanup_connection B (cn_config conn)) (conn_list (dm_connections s2))) s2"
  have "same_front s1 s2" unfolding s2_def by (rule call_front)
  moreover have "same_front s2 s3" unfolding s3_def by (rule front_keeping_run_all) (simp add: list_all_iff)
  ultimately have f3: "same_front s s3" using f1 same_front_trans by blast
  obtain ok4 s4 where s4: "backend_call (be_deleteInterface B) (s3\<lparr>dm_connections := Map.empty\<rparr>) = (ok4, s4)"
    by fastforce
  have "deactivate B e s = (if \<not> ok1 then (False, s1) else (ok4, if e then dm_emit DDisconnected s4 else s4))"
    unfolding deactivate_def Let_def s1 prod.case s2_def [symmetric] s3_def [symmetric] s4 by simp
  with assms ok1 f1 f3 backend_call_frame [OF s4] show ?thesis
    by (auto simp: same_front_def dm_emit_def split: if_splits)
qed

lemma activate_unfold:
  "activate B ph c s =
    (if dm_connections s (ic_hopType c) \<noteq> None
     then (if supportServerSwitching c s then failure_guard (activate_switch B ph c s)
           else let (ok, s') = deactivate B False s
                in if ok then failure_guard (failure_guard (activate_up B ph c s'))
                   else failure_guard (False, s'))
     else failure_guard (activate_up B ph c s))"
proof -
  have "activate B ph c s' = failure_guard (activate_up B ph c s')"
    if "deactivate B False s = (True, s')" for s'
  proof -
    have "dm_connections s' = Map.empty" using deactivate_connections [OF that] by blast
    then show ?thesis by (subst activate.simps) simp
  qed
  then show ?thesis by (subst activate.simps) (auto split: prod.splits)
qed

section \<open>Handshakes\<close>

definition key_of :: "interface_config \<Rightarrow> string" where
  "key_of c = qchars (ic_serverPublicKey c)"

definition peer_up :: "peer_status list \<Rightarrow> string \<Rightarrow> bool" where
  "peer_up peers pk \<longleftrightarrow> (\<exists>p \<in> set peers. ps_pubkey p = pk \<and> ps_handshake p \<noteq> 0)"

lemma check_fold:
  "fold (\<lambda>status (conn, out).
      if qchars (ic_serverPublicKey (cn_config conn)) = ps_pubkey status \<and> ps_handshake status \<noteq> 0
      then (conn\<lparr>cn_date := Some (ps_handshake status)\<rparr>, out @ [DConnected (ps_pubkey status)])
      else (conn, out)) peers (conn, out) = (conn', out') \<Longrightarrow>
   cn_config conn' = cn_config conn \<and>
   (cn_date conn' = None \<longleftrightarrow> cn_date conn = None \<and> \<not> peer_up peers (key_of (cn_config conn))) \<and>
   set out' = set out \<union> (if peer_up peers (key_of (cn_config conn)) then {DConnected (key_of (cn_config conn))} else {})"
proof (induction peers arbitrary: conn out)
  case Nil
  then show ?case by (simp add: peer_up_def)
next
  case (Cons p peers)
  show ?case
  proof (cases "qchars (ic_serverPublicKey (cn_config conn)) = ps_pubkey p \<and> ps_handshake p \<noteq> 0")
    case True
    with Cons.prems have "fold (\<lambda>status (conn, out).
      if qchars (ic_serverPublicKey (cn_config conn)) = ps_pubkey status \<and> ps_handshake status \<noteq> 0
      then (conn\<lparr>cn_date := Some (ps_handshake status)\<rparr>, out @ [DConnected (ps_pubkey status)])
      else (conn, out)) peers (conn\<lparr>cn_date := Some (ps_handshake p)\<rparr>, out @ [DConnected (ps_pubkey p)]) = (conn', out')"
      by simp
    from Cons.IH [OF this] True show ?thesis by (auto simp: peer_up_def key_of_def)
  next
    case False
    with Cons.prems Cons.IH [of conn out] show ?thesis by (auto simp: peer_up_def key_of_def)
  qed
qed

lemma check_connection_spec:
  "cn_config (fst (check_connection peers c)) = cn_config c"
  "cn_date (fst (check_connection peers c)) = None \<longleftrightarrow> cn_date c = None \<and> \<not> peer_up peers (key_of (cn_config c))"
  "set (snd (check_connection peers c)) =
     (if cn_date c = None \<and> peer_up peers (key_of (cn_config c)) then {DConnected (key_of (cn_config c))} else {})"
proof -
  obtain c' out' where "fold (\<lambda>status (conn, out).
      if qchars (ic_serverPublicKey (cn_config conn)) = ps_pubkey status \<and> ps_handshake status \<noteq> 0
      then (conn\<lparr>cn_date := Some (ps_handshake status)\<rparr>, out @ [DConnected (ps_pubkey status)])
      else (conn, out)) peers (c, []) = (c', out')" by fastforce
  from check_fold [OF this] this
  show "cn_config (fst (check_connection peers c)) = cn_config c"
    and "cn_date (fst (check_connection peers c)) = None \<longleftrightarrow> cn_date c = None \<and> \<not> peer_up peers (key_of (cn_config c))"
    and "set (snd (check_connection peers c)) =
     (if cn_date c = None \<and> peer_up peers (key_of (cn_config c)) then {DConnected (key_of (cn_config c))} else {})"
    by (auto simp: check_connection_def)
qed

lemma set_conn_list: "set (conn_list m) = ran m"
proof -
  have "h \<in> set hops" for h by (cases h) (simp_all add: hops_def)
  then have "set hops = UNIV" by auto
  moreover have "set (case m h of None \<Rightarrow> [] | Some c \<Rightarrow> [c]) = set_option (m h)" for h
    by (cases "m h") simp_all
  ultimately show ?thesis by (auto simp: conn_list_def ran_def)
qed

section \<open>The backend contract\<close>

text \<open>
  What the daemon relies on: the backend holds a set of peers, which only adding and deleting a
  peer (and dropping the interface) change.  Under it every recorded connection has its peer.
\<close>

definition keeps :: "('b \<Rightarrow> string set) \<Rightarrow> 'b backend_op \<Rightarrow> bool" where
  "keeps peers f \<longleftrightarrow> (\<forall>b. peers (snd (f b)) = peers b)"

locale wg_backend =
  fixes B :: "'b backend" and peers :: "'b \<Rightarrow> string set"
  assumes update_peer: "be_updatePeer B c b = (ok, b') \<Longrightarrow>
        peers b' = (if ok then insert (key_of c) (peers b) else peers b)"
    and delete_peer: "be_deletePeer B c b = (ok, b') \<Longrightarrow>
        peers b' = (if ok then peers b - {key_of c} else peers b)"
    and keeps_ops: "keeps peers (be_addInterface B c)" "keeps peers (be_updateRoutePrefix B ip)"
        "keeps peers (be_deleteRoutePrefix B ip)" "keeps peers (be_excludeLocalNetworks B ips)"
        "keeps peers (be_updateResolvers B hs)" "keeps peers (be_restoreResolvers B)"
        "keeps peers (be_addInterfaceIPs B c)" "keeps peers (be_setMTUAndUp B c)"
        "keeps peers (be_run B op c)"
    and prepare_peers: "peers (be_prepareActivation B c b) = peers b"
    and delete_interface: "peers (snd (be_deleteInterface B b)) \<subseteq> peers b"
begin

abbreviation dpeers :: "'b daemon \<Rightarrow> string set" where
  "dpeers s \<equiv> peers (dm_backend s)"

definition kept :: "('b daemon \<Rightarrow> bool \<times> 'b daemon) \<Rightarrow> bool" where
  "kept f \<longleftrightarrow> (\<forall>s. dpeers (snd (f s)) = dpeers s)"

definition conn_ok :: "'b daemon \<Rightarrow> bool" where
  "conn_ok s \<longleftrightarrow>
     (\<forall>h c. dm_connections s h = Some c \<longrightarrow> key_of (cn_config c) \<in> dpeers s) \<and>
     (\<forall>h h' c c'. dm_connections s h = Some c \<longrightarrow> dm_connections s h' = Some c' \<longrightarrow>
        key_of (cn_config c) = key_of (cn_config c') \<longrightarrow> h = h')"

definition key_free :: "interface_config \<Rightarrow> 'b daemon \<Rightarrow> bool" where
  "key_free config s \<longleftrightarrow>
     (\<forall>h c. dm_connections s h = Some c \<longrightarrow> key_of (cn_config c) = key_of config \<longrightarrow> h = ic_hopType config)"

lemma keptD: "kept f \<Longrightarrow> f s = (ok, s') \<Longrightarrow> dpeers s' = dpeers s"
  unfolding kept_def by (metis snd_conv)

lemma kept_call: "keeps peers f \<Longrightarrow> kept (backend_call f)"
  by (auto simp: kept_def keeps_def backend_call_def split: prod.splits) (metis snd_conv)+

lemma kept_try_all: "list_all kept fs \<Longrightarrow> kept (try_all fs)"
proof (induction fs)
  case (Cons f fs)
  then have "kept f" "kept (try_all fs)" by simp_all
  then show ?case by (auto simp: kept_def split: prod.splits) (metis snd_conv)+
qed (simp add: kept_def)

lemma kept_run_all: "list_all kept fs \<Longrightarrow> dpeers (run_all fs s) = dpeers s"
  unfolding run_all_def
proof (induction fs arbitrary: s)
  case (Cons f fs)
  then have "dpeers (snd (f s)) = dpeers s" by (simp add: kept_def)
  with Cons show ?case by simp
qed simp

lemma kept_resolvers: "kept (maybeUpdateResolvers B ph c)"
  using kept_call [OF keeps_ops(5)] by (simp add: kept_def maybeUpdateResolvers_def Let_def)

lemma kept_if: "kept f \<Longrightarrow> kept (\<lambda>s. if P s then (True, s) else f s)"
  by (simp add: kept_def)

lemma kept_bring_up: "kept (bring_up B c)"
  unfolding bring_up_def [abs_def]
  by (rule kept_if, rule kept_try_all) (simp add: kept_call keeps_ops)

lemma kept_commit: "kept (commit_connection c)"
  by (simp add: kept_def commit_connection_def set_connection_def)

lemma call_update:
  "backend_call (be_updatePeer B c) s = (ok, s') \<Longrightarrow>
     dpeers s' = (if ok then insert (key_of c) (dpeers s) else dpeers s)"
  by (auto simp: backend_call_def dest: update_peer split: prod.splits if_splits)

lemma call_delete:
  "backend_call (be_deletePeer B c) s = (ok, s') \<Longrightarrow>
     dpeers s' = (if ok then dpeers s - {key_of c} else dpeers s)"
  by (auto simp: backend_call_def dest: delete_peer split: prod.splits if_splits)

lemma activate_up_peers:
  assumes "activate_up B ph c s = (ok, s')"
  shows "dpeers s \<subseteq> dpeers s' \<and> (ok \<longrightarrow> key_of c \<in> dpeers s')"
proof -
  let ?s0 = "s\<lparr>dm_backend := be_prepareActivation B c (dm_backend s)\<rparr>"
  let ?rest = "maybeUpdateResolvers B ph c #
      map (\<lambda>ip. backend_call (be_updateRoutePrefix B ip)) (ic_allowedIPAddressRanges c) @
      [backend_call (be_run B OpUp c), commit_connection c]"
  have rest: "kept (try_all ?rest)"
    by (rule kept_try_all) (simp add: kept_resolvers kept_call keeps_ops kept_commit list_all_iff)
  obtain ok1 s1 where s1: "bring_up B c ?s0 = (ok1, s1)" by fastforce
  obtain ok2 s2 where s2: "backend_call (be_updatePeer B c) s1 = (ok2, s2)" by fastforce
  have "dpeers (snd (bring_up B c ?s0)) = dpeers ?s0" using kept_bring_up unfolding kept_def by blast
  then have p1: "dpeers s1 = dpeers s" using s1 prepare_peers [of c "dm_backend s"] by simp
  obtain ok3 s3 where s3: "try_all ?rest s2 = (ok3, s3)" by (cases "try_all ?rest s2")
  have "activate_up B ph c s = (if ok1 then if ok2 then (ok3, s3) else (False, s2) else (False, s1))"
    using s1 s2 by (simp add: activate_up_def s3 [symmetric])
  moreover have "dpeers s3 = dpeers s2" using rest s3 unfolding kept_def by (metis snd_conv)
  ultimately show ?thesis using assms p1 call_update [OF s2]
    by (auto split: if_splits)
qed

lemma conn_okI_up:
  assumes "activate_up B ph c s = (ok, s')" "conn_ok s" "key_free c s"
  shows "conn_ok s'"
proof -
  note p = activate_up_peers [OF assms(1)]
  note f = activate_up_front [OF assms(1)]
  show ?thesis
  proof (cases ok)
    case True
    with f have conns: "dm_connections s' = (dm_connections s)(ic_hopType c \<mapsto> ConnectionState c)" by simp
    show ?thesis unfolding conn_ok_def conns
      using p True assms(2,3) by (auto simp: conn_ok_def key_free_def ConnectionState_def split: if_splits)
  next
    case False
    with f p assms(2) show ?thesis by (auto simp: same_front_def conn_ok_def)
  qed
qed

lemma switchServer_conn_ok:
  assumes "switchServer B c s = (ok, s')" "dm_connections s (ic_hopType c) = Some conn"
    and "conn_ok s" "key_free c s"
  shows "conn_ok s' \<and> key_free c s'"
proof -
  let ?last = "cn_config conn"
  let ?upd = "map (\<lambda>ip. backend_call (be_updateRoutePrefix B ip)) (ic_allowedIPAddressRanges c)"
  let ?del = "map (\<lambda>ip. backend_call (be_deleteRoutePrefix B ip))
        (filter (\<lambda>ip. ip \<notin> set (ic_allowedIPAddressRanges c)) (ic_allowedIPAddressRanges ?last))"
  obtain ok1 s1 where s1: "backend_call (be_updatePeer B c) s = (ok1, s1)" by fastforce
  define s3 where "s3 = run_all ?del (snd (try_all ?upd s1))"
  have "kept (try_all ?upd)" by (rule kept_try_all) (simp add: kept_call keeps_ops list_all_iff)
  moreover have "dpeers s3 = dpeers (snd (try_all ?upd s1))" unfolding s3_def
    by (rule kept_run_all) (simp add: kept_call keeps_ops list_all_iff)
  ultimately have p3: "dpeers s3 = dpeers s1" by (simp add: kept_def)
  obtain ok2 s4 where s4: "(if \<not> qeq (ic_serverPublicKey c) (ic_serverPublicKey ?last)
      then backend_call (be_deletePeer B ?last) s3 else (True, s3)) = (ok2, s4)" by fastforce
  have p4: "dpeers s4 = (if key_of c \<noteq> key_of ?last \<and> ok2 then dpeers s3 - {key_of ?last} else dpeers s3)"
    using s4 call_delete [of ?last s3 ok2 s4] by (auto simp: qeq_def key_of_def split: if_splits)
  have eq: "switchServer B c s = (if \<not> ok1 then (False, s1)
      else if \<not> ok2 then (False, s4) else (True, set_connection c s4))"
    unfolding switchServer_def Let_def s1 prod.case assms(2) option.case s3_def [symmetric] s4 by simp
  note f = switchServer_front [OF assms(1)]
  show ?thesis
  proof (cases ok)
    case True
    with eq assms(1) have oks: ok1 ok2 and s': "s' = set_connection c s4" by (auto split: if_splits)
    have conns: "dm_connections s' = (dm_connections s)(ic_hopType c \<mapsto> ConnectionState c)" using f True by simp
    have P: "dpeers s' = insert (key_of c) (dpeers s) - (if key_of c \<noteq> key_of ?last then {key_of ?last} else {})"
      using p3 p4 call_update [OF s1] oks s' by (auto simp: set_connection_def)
    have other: "key_of (cn_config d) \<noteq> key_of ?last" "key_of (cn_config d) \<noteq> key_of c"
      if "h \<noteq> ic_hopType c" "dm_connections s h = Some d" for h d
      using that assms(2-4) by (auto simp: conn_ok_def key_free_def)
    have "key_of (cn_config d) \<in> dpeers s" if "dm_connections s h = Some d" for h d
      using that assms(3) by (auto simp: conn_ok_def)
    with other P conns have "\<forall>h d. dm_connections s' h = Some d \<longrightarrow> key_of (cn_config d) \<in> dpeers s'"
      by (auto simp: ConnectionState_def split: if_splits)
    moreover have "\<forall>h h' d d'. dm_connections s' h = Some d \<longrightarrow> dm_connections s' h' = Some d' \<longrightarrow>
        key_of (cn_config d) = key_of (cn_config d') \<longrightarrow> h = h'"
      using other assms(3) unfolding conns
      by (auto simp: ConnectionState_def conn_ok_def split: if_splits) metis
    moreover have "key_free c s'" using assms(4) conns by (auto simp: key_free_def)
    ultimately show ?thesis by (simp add: conn_ok_def)
  next
    case False
    have "dpeers s \<subseteq> dpeers s'"
      using eq assms(1) False p3 p4 call_update [OF s1] by (auto split: if_splits)
    then show ?thesis using f False assms(3,4) by (auto simp: same_front_def conn_ok_def key_free_def)
  qed
qed

lemma deactivate_peers:
  assumes "deactivate B e s = (ok, s')"
  shows "dpeers s' \<subseteq> dpeers s" "\<not> torn_down B s \<Longrightarrow> dpeers s' = dpeers s"
proof -
  obtain ok1 s1 where s1: "(case conn_list (dm_connections s) of [] \<Rightarrow> (True, s)
      | state # _ \<Rightarrow> backend_call (be_run B OpDown (cn_config state)) s) = (ok1, s1)" by fastforce
  have p1: "dpeers s1 = dpeers s"
    using s1 keptD [OF kept_call [OF keeps_ops(9)]] by (auto split: list.splits)
  have ok1: "ok1 = torn_down B s"
    using s1 by (auto simp: torn_down_def backend_call_def Let_def split: list.splits prod.splits)
  define s2 where "s2 = snd (backend_call (be_restoreResolvers B) s1)"
  define s3 where "s3 = run_all (map (\<lambda>conn. cleanup_connection B (cn_config conn)) (conn_list (dm_connections s2))) s2"
  have p2: "dpeers s2 = dpeers s1" using kept_call [OF keeps_ops(6)] by (simp add: s2_def kept_def)
  have one: "dpeers (snd (cleanup_connection B c t)) \<subseteq> dpeers t" for c t
  proof -
    let ?t = "run_all (map (\<lambda>ip. backend_call (be_deleteRoutePrefix B ip)) (ic_allowedIPAddressRanges c)) t"
    have "dpeers ?t = dpeers t" by (rule kept_run_all) (simp add: kept_call keeps_ops list_all_iff)
    moreover obtain ok' t' where "backend_call (be_deletePeer B c) ?t = (ok', t')" by fastforce
    ultimately show ?thesis using call_delete [of c ?t ok' t'] by (auto simp: cleanup_connection_def)
  qed
  have "dpeers (run_all (map (\<lambda>conn. cleanup_connection B (cn_config conn)) cs) t) \<subseteq> dpeers t" for cs t
    unfolding run_all_def by (induction cs arbitrary: t) (use one in fastforce)+
  then have p3: "dpeers s3 \<subseteq> dpeers s2" unfolding s3_def .
  obtain ok4 s4 where s4: "backend_call (be_deleteInterface B) (s3\<lparr>dm_connections := Map.empty\<rparr>) = (ok4, s4)"
    by fastforce
  then have p4: "dpeers s4 \<subseteq> dpeers s3"
    using delete_interface by (auto simp: backend_call_def split: prod.splits) (metis snd_conv subsetD)
  have "deactivate B e s = (if \<not> ok1 then (False, s1) else (ok4, if e then dm_emit DDisconnected s4 else s4))"
    unfolding deactivate_def Let_def s1 prod.case s2_def [symmetric] s3_def [symmetric] s4 by simp
  with assms p1 p2 p3 p4 ok1 show "dpeers s' \<subseteq> dpeers s" "\<not> torn_down B s \<Longrightarrow> dpeers s' = dpeers s"
    by (auto simp: dm_emit_def split: if_splits)
qed

lemma deactivate_conn_ok:
  assumes "deactivate B e s = (ok, s')" "conn_ok s"
  shows "conn_ok s'"
  using deactivate_front [OF assms(1)] deactivate_peers [OF assms(1)] assms(2)
  by (auto simp: conn_ok_def same_front_def split: if_splits)

lemma conn_ok_emit [simp]: "conn_ok (dm_emit x s) = conn_ok s"
  by (simp add: conn_ok_def dm_emit_def)

lemma conn_ok_guard [simp]: "conn_ok (snd (failure_guard r)) = conn_ok (snd r)"
  by (simp add: failure_guard_def split: prod.splits)

lemma activate_switch_conn_ok:
  assumes "activate_switch B ph c s = (ok, s')" "dm_connections s (ic_hopType c) = Some conn"
    and "conn_ok s" "key_free c s"
  shows "conn_ok s'"
proof -
  let ?fs = "[backend_call (be_restoreResolvers B), maybeUpdateResolvers B ph c,
      backend_call (be_run B OpSwitch c)]"
  obtain ok1 s1 where s1: "switchServer B c s = (ok1, s1)" by fastforce
  note c1 = switchServer_conn_ok [OF s1 assms(2-4)]
  show ?thesis
  proof (cases ok1)
    case False
    then show ?thesis using assms(1) s1 c1 by (simp add: activate_switch_def)
  next
    case True
    then have rest: "try_all (?fs @ [commit_connection c]) s1 = (ok, s')"
      using assms(1) s1 by (simp add: activate_switch_def)
    have fk: "list_all front_keeping ?fs" by simp
    have "kept (try_all (?fs @ [commit_connection c]))"
      by (rule kept_try_all) (simp add: kept_resolvers kept_call keeps_ops kept_commit)
    then have p: "dpeers s' = dpeers s1" using rest unfolding kept_def by (metis snd_conv)
    have conn1: "dm_connections s1 (ic_hopType c) = Some (ConnectionState c)"
      using switchServer_front [OF s1] True by simp
    then have "dm_connections s' = dm_connections s1"
      using try_all_commit [OF fk rest]
      by (cases ok) (auto simp: same_front_def map_upd_triv)
    then show ?thesis using c1 p by (simp add: conn_ok_def)
  qed
qed

lemma activate_conn_ok:
  assumes "activate B ph c s = (ok, s')" "conn_ok s" "key_free c s"
  shows "conn_ok s'"
proof (cases "dm_connections s (ic_hopType c)")
  case None
  then have "s' = snd (failure_guard (activate_up B ph c s))" using assms(1) by (simp add: activate_unfold)
  then show ?thesis using conn_okI_up [of ph c s "fst (activate_up B ph c s)" "snd (activate_up B ph c s)"]
      assms(2,3) by simp
next
  case (Some conn)
  show ?thesis
  proof (cases "supportServerSwitching c s")
    case True
    then have "s' = snd (failure_guard (activate_switch B ph c s))" using assms(1) Some by (simp add: activate_unfold)
    then show ?thesis
      using activate_switch_conn_ok [of ph c s "fst (activate_switch B ph c s)" "snd (activate_switch B ph c s)"]
        Some assms(2,3) by simp
  next
    case False
    obtain ok1 s1 where s1: "deactivate B False s = (ok1, s1)" by fastforce
    have c1: "conn_ok s1" by (rule deactivate_conn_ok [OF s1 assms(2)])
    have "ok1 \<Longrightarrow> dm_connections s1 = Map.empty" using deactivate_connections [OF s1] by blast
    then have "ok1 \<Longrightarrow> key_free c s1" by (simp add: key_free_def)
    then have "ok1 \<Longrightarrow> conn_ok (snd (activate_up B ph c s1))"
      using conn_okI_up [of ph c s1 "fst (activate_up B ph c s1)" "snd (activate_up B ph c s1)"] c1 by simp
    moreover have "s' = snd (activate B ph c s)" using assms(1) by simp
    ultimately show ?thesis using Some False s1 c1 by (cases ok1) (simp_all add: activate_unfold)
  qed
qed

lemma checkHandshake_conn_ok: "conn_ok s \<Longrightarrow> conn_ok (checkHandshake B s)"
  unfolding conn_ok_def checkHandshake_def Let_def
  by (auto simp: check_connection_spec)

end

text \<open>
  A backend whose scripts, resolvers and peer deletions do not fail: on it a connection that waits
  for its handshake always has the timer running.
\<close>

locale reliable_backend = wg_backend +
  assumes run_ok: "fst (be_run B op c b)"
    and update_resolvers_ok: "fst (be_updateResolvers B hs b)"
    and restore_resolvers_ok: "fst (be_restoreResolvers B b)"
begin

definition polling :: "'b daemon \<Rightarrow> bool" where
  "polling s \<longleftrightarrow> (\<forall>h c. dm_connections s h = Some c \<longrightarrow> cn_date c = None \<longrightarrow> dm_handshakeTimer s)"

lemma call_ok: "fst (f (dm_backend s)) \<Longrightarrow> fst (backend_call f s)"
  by (cases "f (dm_backend s)") (simp add: backend_call_def)

lemma reliable_chain:
  assumes "\<forall>f \<in> set fs. \<forall>s. fst (f s)"
  shows "fst (try_all fs s)"
  using assms by (induction fs arbitrary: s) (auto split: prod.splits, metis fst_conv)

lemma activate_switch_polling:
  assumes "activate_switch B ph c s = (ok, s')" "polling s"
  shows "polling s'"
proof -
  let ?fs = "[backend_call (be_restoreResolvers B), maybeUpdateResolvers B ph c,
      backend_call (be_run B OpSwitch c), commit_connection c]"
  obtain ok1 s1 where s1: "switchServer B c s = (ok1, s1)" by fastforce
  obtain ok2 s2 where s2: "try_all ?fs s1 = (ok2, s2)" by (cases "try_all ?fs s1")
  have "fst (try_all ?fs s1)"
    by (rule reliable_chain)
      (auto simp: call_ok run_ok update_resolvers_ok restore_resolvers_ok maybeUpdateResolvers_def
        commit_connection_def Let_def)
  then have ok2 by (simp only: s2 fst_conv)
  have "activate_switch B ph c s = (if ok1 then (ok2, s2) else (False, s1))"
    unfolding activate_switch_def by (simp only: try_all.simps(2) [of "switchServer B c"] s1 Let_def prod.case s2)
  with assms(1) \<open>ok2\<close> have r: "ok = ok1" "\<not> ok1 \<Longrightarrow> s' = s1" by (auto split: if_splits)
  show ?thesis
  proof (cases ok1)
    case True
    then show ?thesis using activate_switch_front [OF assms(1)] r(1) by (simp add: polling_def)
  next
    case False
    then show ?thesis using switchServer_front [OF s1] r(2) assms(2) by (auto simp: polling_def same_front_def)
  qed
qed

lemma polling_guard [simp]: "polling (snd (failure_guard r)) = polling (snd r)"
  by (simp add: failure_guard_def polling_def dm_emit_def split: prod.splits)

lemma activate_up_polling: "polling s \<Longrightarrow> polling (snd (activate_up B ph c s))"
  using activate_up_front [of B ph c s "fst (activate_up B ph c s)" "snd (activate_up B ph c s)"]
  by (auto simp: polling_def same_front_def split: if_splits)

lemma deactivate_polling: "polling s \<Longrightarrow> polling (snd (deactivate B e s))"
  using deactivate_front [of B e s "fst (deactivate B e s)" "snd (deactivate B e s)"]
  by (auto simp: polling_def same_front_def split: if_splits)

lemma activate_polling: "polling s \<Longrightarrow> polling (snd (activate B ph c s))"
  using activate_switch_polling [of ph c s "fst (activate_switch B ph c s)" "snd (activate_switch B ph c s)"]
    deactivate_polling [of s False]
  by (auto simp: activate_unfold activate_up_polling split: prod.splits)

lemma checkHandshake_polling: "polling (checkHandshake B s)"
proof -
  have "c \<in> set (conn_list m)" if "m h = Some c" for m h c
    using that by (auto simp: set_conn_list ran_def)
  then show ?thesis
    by (force simp: polling_def checkHandshake_def Let_def filter_empty_conv)
qed

end

definition mock_peers :: "(string \<times> int) list \<Rightarrow> string set" where
  "mock_peers m = fst ` set m"

lemma keys_delete: "fst ` set (AList.delete k al) = fst ` set al - {k}"
  by (induction al) auto

interpretation mock: reliable_backend "mock_backend now" mock_peers for now
  by unfold_locales
    (auto simp: mock_backend_def mock_updatePeer_def mock_deletePeer_def mock_peers_def keeps_def
      key_of_def dom_update keys_delete Let_def map_of_eq_None_iff)

datatype mock_event = MActivate interface_config | MDeactivate bool | MHandshake

fun mock_step :: "(string \<Rightarrow> host_address) \<Rightarrow> (string \<times> int) list daemon \<Rightarrow> int \<times> mock_event \<Rightarrow>
    (string \<times> int) list daemon" where
  "mock_step ph s (now, MActivate c) = snd (mock_activate now ph c s)"
| "mock_step ph s (now, MDeactivate e) = snd (deactivate (mock_backend now) e s)"
| "mock_step ph s (now, MHandshake) = checkHandshake (mock_backend now) s"

definition mock_init :: "(string \<times> int) list daemon" where
  "mock_init = \<lparr>dm_connections = Map.empty, dm_handshakeTimer = False, dm_out = [], dm_backend = []\<rparr>"

text \<open>
  An activation whose key no other recorded hop uses. \<^verbatim>\<open>Daemon::activate\<close> does not check this: it is a
  condition on the client's commands, not on the daemon.
\<close>

fun own_key :: "(string \<times> int) list daemon \<Rightarrow> int \<times> mock_event \<Rightarrow> bool" where
  "own_key s (now, MActivate c) =
     (\<forall>h \<in> set hops. case dm_connections s h of None \<Rightarrow> True
        | Some d \<Rightarrow> key_of (cn_config d) = key_of c \<longrightarrow> h = ic_hopType c)"
| "own_key s (now, e) = True"

text \<open>The sequences of commands that keep the keys of the hops apart.\<close>

fun keys_apart :: "(string \<Rightarrow> host_address) \<Rightarrow> (string \<times> int) list daemon \<Rightarrow> (int \<times> mock_event) list \<Rightarrow> bool" where
  "keys_apart ph s [] = True"
| "keys_apart ph s (e # es) = (own_key s e \<and> keys_apart ph (mock_step ph s e) es)"

lemma own_key_free:
  assumes "own_key s (now, MActivate c)"
  shows "mock.key_free c s"
  unfolding mock.key_free_def
proof (intro allI impI)
  fix h d
  assume d: "dm_connections s h = Some d" "key_of (cn_config d) = key_of c"
  have "h \<in> set hops" by (cases h) (simp_all add: hops_def)
  with assms have "case dm_connections s h of None \<Rightarrow> True
      | Some d \<Rightarrow> key_of (cn_config d) = key_of c \<longrightarrow> h = ic_hopType c" by (simp only: own_key.simps)
  with d show "h = ic_hopType c" by simp
qed

text \<open>Every connection is recorded under the hop of its configuration.\<close>

definition own_hop :: "'b daemon \<Rightarrow> bool" where
  "own_hop s \<longleftrightarrow> (\<forall>h c. dm_connections s h = Some c \<longrightarrow> ic_hopType (cn_config c) = h)"

lemma own_hop_front: "same_front s s' \<Longrightarrow> own_hop s \<Longrightarrow> own_hop s'"
  by (simp add: own_hop_def same_front_def)

lemma own_hop_set:
  "dm_connections s' = (dm_connections s)(ic_hopType c \<mapsto> ConnectionState c) \<Longrightarrow> own_hop s \<Longrightarrow> own_hop s'"
  by (simp add: own_hop_def ConnectionState_def)

lemma own_hop_guard [simp]: "own_hop (snd (failure_guard r)) = own_hop (snd r)"
  by (simp add: failure_guard_def own_hop_def dm_emit_def split: prod.splits)

lemma deactivate_own_hop: "own_hop s \<Longrightarrow> own_hop (snd (deactivate B e s))"
  using deactivate_front [of B e s "fst (deactivate B e s)" "snd (deactivate B e s)"]
  by (auto simp: own_hop_def same_front_def split: if_splits)

lemma activate_up_own_hop: "own_hop s \<Longrightarrow> own_hop (snd (activate_up B ph c s))"
  using activate_up_front [of B ph c s "fst (activate_up B ph c s)" "snd (activate_up B ph c s)"]
  by (auto intro: own_hop_set own_hop_front split: if_splits)

lemma activate_switch_own_hop:
  assumes "own_hop s"
  shows "own_hop (snd (activate_switch B ph c s))"
proof -
  let ?fs = "[backend_call (be_restoreResolvers B), maybeUpdateResolvers B ph c,
      backend_call (be_run B OpSwitch c)]"
  obtain ok1 s1 where s1: "switchServer B c s = (ok1, s1)" by fastforce
  note f1 = switchServer_front [OF s1]
  have o1: "own_hop s1" using f1 assms by (auto intro: own_hop_set own_hop_front split: if_splits)
  obtain ok s' where r: "activate_switch B ph c s = (ok, s')" by fastforce
  show ?thesis
  proof (cases ok1)
    case True
    then have rest: "try_all (?fs @ [commit_connection c]) s1 = (ok, s')"
      using r s1 by (simp add: activate_switch_def)
    have "list_all front_keeping ?fs" by simp
    from try_all_commit [OF this rest] o1 show ?thesis
      by (auto simp: r intro: own_hop_set own_hop_front split: if_splits)
  next
    case False
    then show ?thesis using r s1 o1 by (simp add: activate_switch_def)
  qed
qed

lemma activate_own_hop: "own_hop s \<Longrightarrow> own_hop (snd (activate B ph c s))"
  using deactivate_own_hop [of s B False]
  by (auto simp: activate_unfold activate_up_own_hop activate_switch_own_hop split: prod.splits)

lemma checkHandshake_own_hop: "own_hop s \<Longrightarrow> own_hop (checkHandshake B s)"
  by (auto simp: own_hop_def checkHandshake_def Let_def check_connection_spec)

text \<open>Every sequence of commands and polls, and the sequences that keep the keys apart.\<close>

interpretation mockd: transition_system "\<lambda>s. s = mock_init" "mock_step ph" "\<lambda>_ _. True"
    "\<lambda>s. own_hop s \<and> mock.polling s" for ph
proof
  fix s :: "(string \<times> int) list daemon" and e :: "int \<times> mock_event"
  assume inv: "own_hop s \<and> mock.polling s"
  obtain now ev where e: "e = (now, ev)" by fastforce
  show "own_hop (mock_step ph s e) \<and> mock.polling (mock_step ph s e)"
    using inv by (cases ev) (simp_all add: e mock_activate_def activate_own_hop deactivate_own_hop
        checkHandshake_own_hop mock.activate_polling mock.deactivate_polling mock.checkHandshake_polling)
qed (simp add: mock_init_def own_hop_def mock.polling_def)

interpretation apart: transition_system "\<lambda>s. s = mock_init" "mock_step ph" own_key mock.conn_ok for ph
proof
  fix s e
  assume inv: "mock.conn_ok s" and g: "own_key s e"
  obtain now ev where e: "e = (now, ev)" by fastforce
  show "mock.conn_ok (mock_step ph s e)"
  proof (cases ev)
    case (MActivate c)
    let ?c = "c\<lparr>ic_serverIpv4Gateway := Some ''127.0.0.1'', ic_serverIpv6Gateway := Some ''::1'',
               ic_deviceIpv4Address := Some ''127.0.0.1'', ic_deviceIpv6Address := Some ''::1''\<rparr>"
    have "mock.key_free ?c s"
      using own_key_free [of s now c] g e MActivate by (simp add: mock.key_free_def key_of_def)
    then show ?thesis
      using inv mock.activate_conn_ok [of now ph ?c s "fst (activate (mock_backend now) ph ?c s)"
          "snd (activate (mock_backend now) ph ?c s)"]
      by (simp add: e MActivate mock_activate_def)
  next
    case (MDeactivate b)
    then show ?thesis
      using inv mock.deactivate_conn_ok [of now b s "fst (deactivate (mock_backend now) b s)"
          "snd (deactivate (mock_backend now) b s)"]
      by (simp add: e)
  next
    case MHandshake
    then show ?thesis using inv mock.checkHandshake_conn_ok by (simp add: e)
  qed
qed (simp add: mock_init_def mock.conn_ok_def)

lemma keys_apart_run: "keys_apart ph s es \<Longrightarrow> apart.enabled_run ph s es"
  by (induction es arbitrary: s) (simp_all add: apart.enabled_run.simps)

lemma mockd_any_run: "mockd.enabled_run ph s es"
  by (induction es arbitrary: s) (simp_all add: mockd.enabled_run.simps)

section \<open>Properties\<close>

text \<open>
  C18: \<^verbatim>\<open>Daemon::activate\<close>, on any backend: success means the requested hop is recorded with the new
  configuration, without a handshake date, the handshake timer runs and no signal was emitted;
  failure emits \<^verbatim>\<open>activationFailure\<close> and nothing else, once, or twice when the call first had to
  tear down a connection it could not switch.\<close>

theorem activate_outcome:
  assumes "activate B parseHost config s = (ok, s')"
  shows "if ok
    then dm_connections s' (ic_hopType config) = Some (ConnectionState config) \<and>
      dm_handshakeTimer s' \<and> dm_out s' = dm_out s
    else dm_out s' = dm_out s @ replicate
      (if dm_connections s (ic_hopType config) \<noteq> None \<and> \<not> supportServerSwitching config s \<and>
          fst (deactivate B False s) then 2 else 1) DActivationFailure"
proof (cases "dm_connections s (ic_hopType config) \<noteq> None \<and> \<not> supportServerSwitching config s")
  case True
  obtain ok1 s1 where s1: "deactivate B False s = (ok1, s1)" by fastforce
  have out1: "dm_out s1 = dm_out s"
    using deactivate_front [OF s1] by (auto simp: same_front_def split: if_splits)
  obtain ok2 s2 where s2: "activate_up B parseHost config s1 = (ok2, s2)" by fastforce
  from assms True s1 s2 out1 activate_up_front [OF s2] show ?thesis
    by (cases ok1; cases ok2)
      (auto simp: activate_unfold failure_guard_def dm_emit_def same_front_def numeral_2_eq_2)
next
  case False
  then have "(ok, s') = failure_guard
      (if dm_connections s (ic_hopType config) \<noteq> None then activate_switch B parseHost config s
       else activate_up B parseHost config s)"
    using assms by (auto simp: activate_unfold)
  moreover obtain ok2 s2 where s2: "(if dm_connections s (ic_hopType config) \<noteq> None
      then activate_switch B parseHost config s else activate_up B parseHost config s) = (ok2, s2)" by fastforce
  moreover have "dm_out s2 = dm_out s \<and> (ok2 \<longrightarrow> dm_handshakeTimer s2 \<and>
      dm_connections s2 = (dm_connections s)(ic_hopType config \<mapsto> ConnectionState config))"
    using s2 activate_up_front [of B parseHost config s ok2 s2]
      activate_switch_front [of B parseHost config s ok2 s2]
    by (auto simp: same_front_def split: if_splits)
  ultimately show ?thesis using False
    by (cases ok2) (auto simp: failure_guard_def dm_emit_def)
qed

theorem activate_outcome_witness:
  "dm_connections (snd (activate (mock_backend 0) (\<lambda>_. IPv4 0)
      (emptyConfig\<lparr>ic_serverPublicKey := Some ''k''\<rparr>)
      \<lparr>dm_connections = Map.empty, dm_handshakeTimer = False, dm_out = [], dm_backend = []\<rparr>)) SingleHop
   = Some (ConnectionState (emptyConfig\<lparr>ic_serverPublicKey := Some ''k''\<rparr>))"
proof -
  let ?c = "emptyConfig\<lparr>ic_serverPublicKey := Some ''k''\<rparr>"
  let ?s = "\<lparr>dm_connections = Map.empty, dm_handshakeTimer = False, dm_out = [], dm_backend = []\<rparr>"
  have ok: "fst (activate (mock_backend 0) (\<lambda>_. IPv4 0) ?c ?s)"
    by (simp add: activate_unfold activate_up_def bring_up_def mock_backend_def backend_call_def
        mock_updatePeer_def maybeUpdateResolvers_def commit_connection_def failure_guard_def
        emptyConfig_def qeq_def)
  obtain s' where "activate (mock_backend 0) (\<lambda>_. IPv4 0) ?c ?s = (True, s')"
    using ok by (cases "activate (mock_backend 0) (\<lambda>_. IPv4 0) ?c ?s") auto
  from activate_outcome [OF this] this show ?thesis by (simp add: emptyConfig_def)
qed

text \<open>
  \<^verbatim>\<open>Daemon::deactivate\<close>: unless the \<^verbatim>\<open>Down\<close> step fails, in which case nothing changes and no
  signal is emitted, every connection is dropped and \<^verbatim>\<open>disconnected\<close> is emitted exactly once when
  asked for, whatever becomes of the resolvers, routes, peers and the interface.\<close>

theorem deactivate_outcome:
  assumes "deactivate B emitSignals s = (ok, s')"
  shows "if torn_down B s
    then dm_connections s' = Map.empty \<and> dm_out s' = dm_out s @ (if emitSignals then [DDisconnected] else [])
    else \<not> ok \<and> dm_connections s' = dm_connections s \<and> dm_out s' = dm_out s"
  using deactivate_front [OF assms] by (auto simp: same_front_def split: if_splits)

theorem deactivate_outcome_witness:
  "dm_connections (snd (deactivate (mock_backend 0) True
      \<lparr>dm_connections = [SingleHop \<mapsto> ConnectionState emptyConfig], dm_handshakeTimer = True, dm_out = [],
       dm_backend = []\<rparr>)) = Map.empty"
proof -
  let ?s = "\<lparr>dm_connections = [SingleHop \<mapsto> ConnectionState emptyConfig], dm_handshakeTimer = True,
      dm_out = [], dm_backend = []\<rparr>"
  have "torn_down (mock_backend 0) ?s"
    by (simp add: torn_down_def conn_list_def hops_def mock_backend_def)
  then show ?thesis
    using deactivate_outcome [of "mock_backend 0" True ?s "fst (deactivate (mock_backend 0) True ?s)"
        "snd (deactivate (mock_backend 0) True ?s)"] by simp
qed

text \<open>
  \<^verbatim>\<open>Daemon::checkHandshake\<close> keeps every configuration, marks as established exactly the waiting
  connections whose peer reports a handshake, announces exactly those, and keeps polling exactly
  while some connection is still waiting: no pending handshake is forgotten.\<close>

theorem checkHandshake_exact:
  "\<exists>out'. dm_out (checkHandshake B s) = dm_out s @ out' \<and>
    set out' = {DConnected (key_of (cn_config c)) | c. c \<in> ran (dm_connections s) \<and> cn_date c = None \<and>
      peer_up (be_getPeerStatus B (dm_backend s)) (key_of (cn_config c))} \<and>
    map_option cn_config \<circ> dm_connections (checkHandshake B s) = map_option cn_config \<circ> dm_connections s \<and>
    dm_handshakeTimer (checkHandshake B s) = (\<exists>c \<in> ran (dm_connections (checkHandshake B s)). cn_date c = None) \<and>
    (\<exists>c \<in> ran (dm_connections (checkHandshake B s)). cn_date c = None) =
    (\<exists>c \<in> ran (dm_connections s). cn_date c = None \<and>
       \<not> peer_up (be_getPeerStatus B (dm_backend s)) (key_of (cn_config c)))"
proof -
  let ?peers = "be_getPeerStatus B (dm_backend s)"
  let ?out = "concat (map (\<lambda>c. snd (check_connection ?peers c)) (conn_list (dm_connections s)))"
  have 1: "dm_out (checkHandshake B s) = dm_out s @ ?out" by (simp add: checkHandshake_def Let_def)
  have 2: "set ?out = {DConnected (key_of (cn_config c)) | c. c \<in> ran (dm_connections s) \<and> cn_date c = None \<and>
      peer_up ?peers (key_of (cn_config c))}"
    by (auto simp: set_conn_list check_connection_spec split: if_splits)
  have 3: "map_option cn_config \<circ> dm_connections (checkHandshake B s) = map_option cn_config \<circ> dm_connections s"
    by (auto simp: checkHandshake_def Let_def check_connection_spec fun_eq_iff option.map_comp comp_def)
  have ran: "ran (dm_connections (checkHandshake B s)) = (\<lambda>c. fst (check_connection ?peers c)) ` ran (dm_connections s)"
    by (auto simp: checkHandshake_def Let_def ran_def)
  have 4: "dm_handshakeTimer (checkHandshake B s) = (\<exists>c \<in> ran (dm_connections (checkHandshake B s)). cn_date c = None)"
    by (auto simp: checkHandshake_def Let_def set_conn_list [symmetric] filter_empty_conv)
  have 5: "(\<exists>c \<in> ran (dm_connections (checkHandshake B s)). cn_date c = None) =
      (\<exists>c \<in> ran (dm_connections s). cn_date c = None \<and> \<not> peer_up ?peers (key_of (cn_config c)))"
    unfolding ran by (simp add: check_connection_spec)
  show ?thesis using 1 2 3 4 5 by blast
qed

text \<open>
  C21: The daemon on the mock backend, over every sequence of activations, deactivations and
  handshake polls: each connection is recorded under the hop of its configuration, and while one
  waits for its handshake the poll timer runs.  If besides no activation used the server key of
  another recorded hop, which \<^verbatim>\<open>Daemon::activate\<close> does not check, then each recorded connection has its
  peer in the backend and no two connections share one.\<close>

theorem mock_daemon_reachable:
  "let s = fold (\<lambda>e t. mock_step ph t e) es mock_init in
    (dm_connections s h = Some c \<longrightarrow>
      ic_hopType (cn_config c) = h \<and> (cn_date c = None \<longrightarrow> dm_handshakeTimer s)) \<and>
    (keys_apart ph mock_init es \<longrightarrow>
      (dm_connections s h = Some c \<longrightarrow> key_of (cn_config c) \<in> fst ` set (dm_backend s)) \<and>
      (dm_connections s h = Some c \<longrightarrow> dm_connections s h' = Some c' \<longrightarrow>
        key_of (cn_config c) = key_of (cn_config c') \<longrightarrow> h = h'))"
  using mockd.run_init_inv [OF refl mockd_any_run, of ph es] apart.run_init_inv [OF refl keys_apart_run, of ph es]
  by (auto simp: Let_def own_hop_def mock.conn_ok_def mock.polling_def mock_peers_def)

lemma mock_first_run:
  "mock_step ph mock_init (0, MActivate emptyConfig) =
     \<lparr>dm_connections = [SingleHop \<mapsto> ConnectionState (emptyConfig\<lparr>ic_serverIpv4Gateway := Some ''127.0.0.1'',
          ic_serverIpv6Gateway := Some ''::1'', ic_deviceIpv4Address := Some ''127.0.0.1'',
          ic_deviceIpv6Address := Some ''::1''\<rparr>)],
      dm_handshakeTimer = True, dm_out = [], dm_backend = [([], 1500)]\<rparr>"
  by (simp add: mock_init_def mock_activate_def activate_unfold activate_up_def bring_up_def mock_backend_def
      backend_call_def mock_updatePeer_def maybeUpdateResolvers_def commit_connection_def failure_guard_def
      set_connection_def emptyConfig_def qeq_def MOCK_HANDSHAKE_DELAY_MSEC_def)

theorem mock_daemon_reachable_witness:
  "let s = fold (\<lambda>e t. mock_step (\<lambda>_. IPv4 0) t e) [(0, MActivate emptyConfig)] mock_init
   in [] \<in> fst ` set (dm_backend s) \<and> dm_handshakeTimer s"
proof -
  have key: "ic_serverPublicKey emptyConfig = None" by (simp add: emptyConfig_def)
  have "keys_apart (\<lambda>_. IPv4 0) mock_init [(0, MActivate emptyConfig)]"
    by (simp add: mock_init_def hops_def)
  with mock_daemon_reachable [where h = SingleHop and es = "[(0, MActivate emptyConfig)]" and ph = "\<lambda>_. IPv4 0"]
  show ?thesis
    by (simp add: mock_first_run ConnectionState_def key_of_def key del: mock_step.simps)
qed

text \<open>
  The condition on the keys is needed: with both hops on one server, switching one of them to another
  server removes the peer the other hop still uses.
\<close>

definition mock_hop :: "hop_type \<Rightarrow> string \<Rightarrow> interface_config" where
  "mock_hop h k = emptyConfig\<lparr>ic_hopType := h, ic_serverPublicKey := Some k\<rparr>"

lemma shared_key_loses_peer:
  "let s = fold (\<lambda>e t. mock_step (\<lambda>_. IPv4 0) t e)
       [(0, MActivate (mock_hop MultiHopEntry ''k'')), (0, MActivate (mock_hop MultiHopExit ''k'')),
        (0, MActivate (mock_hop MultiHopEntry ''m''))] mock_init
   in map_option (\<lambda>c. key_of (cn_config c)) (dm_connections s MultiHopExit) = Some ''k'' \<and>
      ''k'' \<notin> fst ` set (dm_backend s)"
  by code_simp

text \<open>The mock backend with a routing table that refuses every new route.\<close>

definition no_route_backend :: "int \<Rightarrow> (string \<times> int) list backend" where
  "no_route_backend now = (mock_backend now)\<lparr>be_updateRoutePrefix := (\<lambda>_ m. (False, m))\<rparr>"

text \<open>
  A failing route update makes a first activation fail, but not a server switch: on a backend
  that refuses every route, activating a configuration with routes returns false when nothing is
  connected, and true, with the connection recorded as the new one and no signal, when the same
  device is already connected to a known peer.\<close>

theorem switch_ignores_route_failure:
  assumes "ic_allowedIPAddressRanges config \<noteq> []"
    and "supportServerSwitching config s" "dm_connections s (ic_hopType config) = Some conn"
    and "key_of (cn_config conn) \<in> fst ` set (dm_backend s)"
    and "dm_connections s0 = Map.empty"
  shows "fst (activate (no_route_backend now) parseHost config s) \<and>
    \<not> fst (activate (no_route_backend now) parseHost config s0)"
proof
  let ?B = "no_route_backend now"
  obtain ip ips where ips: "ic_allowedIPAddressRanges config = ip # ips"
    using assms(1) by (cases "ic_allowedIPAddressRanges config") auto
  have upd: "try_all (map (\<lambda>ip. backend_call (be_updateRoutePrefix ?B ip)) (ip # ips)) t = (False, t)" for t
    by (simp add: no_route_backend_def backend_call_def)
  have run: "run_all (map (\<lambda>ip. backend_call (be_deleteRoutePrefix ?B ip)) xs) t = t" for xs t
    unfolding run_all_def by (induction xs) (simp_all add: no_route_backend_def mock_backend_def backend_call_def)
  obtain m where m: "backend_call (be_updatePeer ?B config) s = (True, s\<lparr>dm_backend := m\<rparr>)"
    "fst ` set m = insert (key_of config) (fst ` set (dm_backend s))"
    by (simp add: no_route_backend_def mock_backend_def backend_call_def mock_updatePeer_def dom_update key_of_def)
  have "map_of m (key_of (cn_config conn)) \<noteq> None"
    using m(2) assms(4) by (simp add: map_of_eq_None_iff)
  then have "fst (switchServer ?B config s)"
    unfolding switchServer_def Let_def m(1) prod.case assms(3) option.case ips upd run snd_conv
    by (simp add: no_route_backend_def mock_backend_def backend_call_def mock_deletePeer_def Let_def key_of_def)
  then obtain s1 where "switchServer ?B config s = (True, s1)" by (cases "switchServer ?B config s") auto
  then show "fst (activate ?B parseHost config s)"
    using assms(2,3)
    by (simp add: activate_unfold activate_switch_def failure_guard_def backend_call_def commit_connection_def
        maybeUpdateResolvers_def no_route_backend_def mock_backend_def)
  show "\<not> fst (activate ?B parseHost config s0)"
    using assms(5) ips
    by (simp add: activate_unfold activate_up_def failure_guard_def backend_call_def bring_up_def
        maybeUpdateResolvers_def no_route_backend_def mock_backend_def mock_updatePeer_def)
qed

theorem switch_ignores_route_failure_witness:
  "fst (activate (no_route_backend 0) (\<lambda>_. IPv4 0) (emptyConfig\<lparr>ic_allowedIPAddressRanges := [v4net 0 0]\<rparr>)
     \<lparr>dm_connections = [SingleHop \<mapsto> ConnectionState emptyConfig], dm_handshakeTimer = True, dm_out = [],
      dm_backend = [([], 0)]\<rparr>)"
  by (rule switch_ignores_route_failure [where ?s0.0 = mock_init, THEN conjunct1])
    (auto simp: emptyConfig_def supportServerSwitching_def ConnectionState_def qeq_def key_of_def mock_init_def)

text \<open>
  \<^verbatim>\<open>getStatus\<close> describes the first connection in hop order: in a multi-hop tunnel that is the
  entry hop, whose configuration was transported without gateways, so a connected multi-hop
  tunnel is reported with an empty \<^verbatim>\<open>serverIpv4Gateway\<close>.\<close>

theorem multihop_status_without_gateway:
  assumes "dm_connections s SingleHop = None"
    and "dm_connections s MultiHopEntry = Some (ConnectionState (transported entry))"
    and "ic_hopType entry = MultiHopEntry"
    and "obj_value (getStatus B printDate s) ''connected'' = JBool True"
  shows "obj_value (getStatus B printDate s) ''serverIpv4Gateway'' = JString []"
proof -
  obtain cs where "conn_list (dm_connections s) = ConnectionState (transported entry) # cs"
    using assms(1,2) by (simp add: conn_list_def hops_def)
  with assms(3,4) show ?thesis
    by (auto simp: getStatus_def insert_all_def ConnectionState_def transported_def Let_def JQString_def
        split: if_splits option.splits)
qed

theorem multihop_status_without_gateway_witness:
  "obj_value (getStatus (mock_backend 9000) (\<lambda>_. [])
     \<lparr>dm_connections = [MultiHopEntry \<mapsto> ConnectionState (transported (emptyConfig\<lparr>ic_hopType := MultiHopEntry,
        ic_serverIpv4Gateway := Some ''10.64.0.1'', ic_serverPublicKey := Some ''k''\<rparr>))],
      dm_handshakeTimer = True, dm_out = [], dm_backend = [(''k'', 0)]\<rparr>) ''serverIpv4Gateway'' = JString []"
  by (rule multihop_status_without_gateway
      [where entry = "emptyConfig\<lparr>ic_hopType := MultiHopEntry,
        ic_serverIpv4Gateway := Some ''10.64.0.1'', ic_serverPublicKey := Some ''k''\<rparr>"])
    (simp_all add: getStatus_def mock_backend_def mock_getPeerStatus_def conn_list_def hops_def insert_all_def
      ConnectionState_def transported_def emptyConfig_def)

end
