(* ===== verification/DaemonConnection.thy ===== *)
theory DaemonConnection
  imports Daemon
begin

text \<open>
  Model of \<^verbatim>\<open>src/src/daemon/daemonaccesscontrol.cpp\<close> (sessions) and of
  \<^verbatim>\<open>src/src/daemon/daemonlocalserverconnection.cpp\<close> (the command protocol of the daemon's socket).
  A command line arrives from a peer whose user id the platform reports, -1 when it cannot
  (\<^verbatim>\<open>getPeerId\<close>, a parameter of each command).  JSON text conversion is a parameter.
\<close>

section \<open>Access control\<close>

record access_control =
  ac_sessionOwner :: int

definition noSession :: access_control where
  "noSession = \<lparr>ac_sessionOwner = -1\<rparr>"

definition isSessionActive :: "access_control \<Rightarrow> bool" where
  "isSessionActive ac = (ac_sessionOwner ac \<noteq> -1)"

definition startSession :: "int \<Rightarrow> access_control \<Rightarrow> bool \<times> access_control" where
  "startSession peerId ac =
    (if isSessionActive ac then (False, ac)
     else if peerId = -1 then (False, ac)
     else (True, ac\<lparr>ac_sessionOwner := peerId\<rparr>))"

definition resetSession :: "access_control \<Rightarrow> access_control" where
  "resetSession ac = (if \<not> isSessionActive ac then ac else ac\<lparr>ac_sessionOwner := -1\<rparr>)"

definition isPeerAuthorized :: "int \<Rightarrow> access_control \<Rightarrow> bool" where
  "isPeerAuthorized uid ac =
    (if \<not> isSessionActive ac then False
     else if uid = -1 then False
     else if uid = 0 then True
     else ac_sessionOwner ac = uid)"

definition isCommandAuthorizedForPeer :: "string \<Rightarrow> int \<Rightarrow> access_control \<Rightarrow> bool \<times> access_control" where
  "isCommandAuthorizedForPeer command uid ac =
    (if \<not> isSessionActive ac
     then (if command = ''activate''
           then (let (ok, ac') = startSession uid ac in (ok, ac'))
           else if command = ''status'' then (True, ac)
           else (False, ac))
     else (isPeerAuthorized uid ac, ac))"

section \<open>Commands\<close>

text \<open>
  The state a command works on: the session, the daemon, and the objects written to the socket.
  Signals the daemon emits during a command are written by the slots of the connection as they
  are emitted.
\<close>

record 'b server_conn =
  sc_access :: access_control
  sc_daemon :: "'b daemon"
  sc_written :: "json_object list"
  sc_logsCleaned :: bool

definition conn_write :: "json_object \<Rightarrow> 'b server_conn \<Rightarrow> 'b server_conn" where
  "conn_write obj s = s\<lparr>sc_written := sc_written s @ [obj]\<rparr>"

definition connected_msg :: "string \<Rightarrow> json_object" where
  "connected_msg pubkey = insert_all [(''type'', JString ''connected''), (''pubkey'', JString pubkey)] []"

definition disconnected_msg :: json_object where
  "disconnected_msg = insert_all [(''type'', JString ''disconnected'')] []"

fun signal_msg :: "daemon_out \<Rightarrow> json_object list" where
  "signal_msg (DConnected pubkey) = [connected_msg pubkey]"
| "signal_msg DDisconnected = [disconnected_msg]"
| "signal_msg DActivationFailure = []"

text \<open>A daemon operation: its new signals go to the socket.\<close>

definition with_daemon :: "('b daemon \<Rightarrow> 'b daemon) \<Rightarrow> 'b server_conn \<Rightarrow> 'b server_conn" where
  "with_daemon f s =
    (let d = f (sc_daemon s);
         new = drop (length (dm_out (sc_daemon s))) (dm_out d)
     in s\<lparr>sc_daemon := d, sc_written := sc_written s @ concat (map signal_msg new)\<rparr>)"

record 'b conn_env =
  ce_backend :: "'b backend"
  ce_parseHost :: "string \<Rightarrow> host_address"
  ce_keyToValue :: "string \<Rightarrow> hop_type option"
  ce_printDate :: "int \<Rightarrow> string"
  ce_parseDoc :: "string \<Rightarrow> json"
  ce_logs :: string

definition cmd_activate :: "'b conn_env \<Rightarrow> json_object \<Rightarrow> 'b server_conn \<Rightarrow> 'b server_conn" where
  "cmd_activate env obj s =
    (case parseConfig (ce_keyToValue env) (ce_parseHost env) obj emptyConfig of
       None \<Rightarrow> conn_write disconnected_msg s
     | Some config \<Rightarrow>
         let ok = fst (activate (ce_backend env) (ce_parseHost env) config (sc_daemon s));
             s' = with_daemon (\<lambda>d. snd (activate (ce_backend env) (ce_parseHost env) config d)) s
         in if ok then s' else conn_write disconnected_msg s')"

definition run_command :: "'b conn_env \<Rightarrow> string \<Rightarrow> json_object \<Rightarrow> 'b server_conn \<Rightarrow> 'b server_conn" where
  "run_command env type obj s =
    (if type = ''activate'' then cmd_activate env obj s
     else if type = ''deactivate''
     then with_daemon (\<lambda>d. snd (deactivate (ce_backend env) True d))
            (s\<lparr>sc_access := resetSession (sc_access s)\<rparr>)
     else if type = ''status''
     then conn_write (obj_insert ''type'' (JString ''status'')
            (getStatus (ce_backend env) (ce_printDate env) (sc_daemon s))) s
     else if type = ''logs''
     then conn_write (insert_all [(''type'', JString ''logs''),
            (''logs'', JString (map (\<lambda>c. if c = newline then CHR ''|'' else c) (ce_logs env)))] []) s
     else if type = ''cleanlogs'' then s\<lparr>sc_logsCleaned := True\<rparr>
     else s)"

definition parseCommand :: "'b conn_env \<Rightarrow> int \<Rightarrow> string \<Rightarrow> 'b server_conn \<Rightarrow> 'b server_conn" where
  "parseCommand env uid data s =
    (let json = ce_parseDoc env data; obj = toObject json; typeValue = obj_value obj ''type'';
         type = toString typeValue
     in if \<not> isObject json then s
        else if \<not> isString typeValue then s
        else let (ok, ac) = isCommandAuthorizedForPeer type uid (sc_access s);
                 s' = s\<lparr>sc_access := ac\<rparr>
             in if \<not> ok
                then (if type = ''logs''
                      then conn_write (insert_all [(''type'', JString ''logs''), (''logs'', JString [])] []) s'
                      else s')
                else run_command env type obj s')"

text \<open>
  \<^verbatim>\<open>readData\<close>: with the input available on the socket appended to the buffer, the lines before
  each newline are trimmed and, unless empty, executed; what follows the last newline stays.
\<close>

definition is_blank :: "char \<Rightarrow> bool" where
  "is_blank c = (c = CHR '' '' \<or> (9 \<le> (of_char c :: nat) \<and> (of_char c :: nat) \<le> 13))"

definition trimmed :: "string \<Rightarrow> string" where
  "trimmed s = rev (dropWhile is_blank (rev (dropWhile is_blank s)))"

function read_loop :: "(string \<Rightarrow> 's \<Rightarrow> 's) \<Rightarrow> string \<Rightarrow> string \<Rightarrow> 's \<Rightarrow> string \<times> 's" where
  "read_loop cmd input buffer s =
    (let line = takeWhile (\<lambda>c. c \<noteq> newline) buffer in
     if length line = length buffer
     then (if input = [] then (buffer, s) else read_loop cmd [] (buffer @ input) s)
     else let rest = drop (length line + 1) buffer; command = trimmed line
          in read_loop cmd input rest (if command = [] then s else cmd command s))"
  by pat_completeness auto
termination
proof (relation "measures [\<lambda>(cmd, input, buffer, s). length input, \<lambda>(cmd, input, buffer, s). length buffer]")
  show "wf (measures [\<lambda>(cmd, input, buffer, s). length input, \<lambda>(cmd, input, buffer, s). length buffer])"
    by simp
next
  fix cmd :: "string \<Rightarrow> 'c \<Rightarrow> 'c" and input buffer line rest command :: string and s :: 'c
  assume "line = takeWhile (\<lambda>c. c \<noteq> newline) buffer" "length line \<noteq> length buffer"
    "rest = drop (length line + 1) buffer"
  then have "length rest < length buffer" by (cases buffer) auto
  then show "((cmd, input, rest, if command = [] then s else cmd command s), cmd, input, buffer, s)
      \<in> measures [\<lambda>(cmd, input, buffer, s). length input, \<lambda>(cmd, input, buffer, s). length buffer]"
    by simp
qed simp

declare read_loop.simps [simp del]

definition readData :: "'b conn_env \<Rightarrow> int \<Rightarrow> string \<Rightarrow> string \<Rightarrow> 'b server_conn \<Rightarrow> string \<times> 'b server_conn" where
  "readData env uid input buffer s = read_loop (parseCommand env uid) input buffer s"

section \<open>Framing\<close>

definition exec_line :: "(string \<Rightarrow> 's \<Rightarrow> 's) \<Rightarrow> string \<Rightarrow> 's \<Rightarrow> 's" where
  "exec_line cmd line s = (if trimmed line = [] then s else cmd (trimmed line) s)"

lemma buffer_split:
  assumes "length (takeWhile (\<lambda>c. c \<noteq> n) buffer) \<noteq> length buffer"
  shows "buffer = takeWhile (\<lambda>c. c \<noteq> n) buffer @ n # drop (Suc (length (takeWhile (\<lambda>c. c \<noteq> n) buffer))) buffer"
proof -
  have "dropWhile (\<lambda>c. c \<noteq> n) buffer \<noteq> []"
    using assms by (metis append_Nil2 takeWhile_dropWhile_id)
  then obtain r rs where r: "dropWhile (\<lambda>c. c \<noteq> n) buffer = r # rs" by (cases "dropWhile (\<lambda>c. c \<noteq> n) buffer") auto
  then have "r = n" using hd_dropWhile [of "\<lambda>c. c \<noteq> n" buffer] by simp
  moreover have "drop (Suc (length (takeWhile (\<lambda>c. c \<noteq> n) buffer))) buffer = rs"
    using r by (metis dropWhile_eq_drop drop_Suc list.sel(3) tl_drop)
  ultimately show ?thesis using r by (metis takeWhile_dropWhile_id)
qed

lemma read_loop_split:
  "read_loop cmd input buffer s =
    (last (split_on newline (buffer @ input)),
     fold (exec_line cmd) (butlast (split_on newline (buffer @ input))) s)"
proof (induction cmd input buffer s rule: read_loop.induct)
  case (1 cmd input buffer s)
  let ?line = "takeWhile (\<lambda>c. c \<noteq> newline) buffer"
  let ?rest = "drop (length ?line + 1) buffer"
  have clean: "newline \<notin> set ?line" using set_takeWhileD by fastforce
  show ?case
  proof (cases "length ?line = length buffer")
    case True
    then have "?line = buffer" by (metis takeWhile_eq_take take_all_iff order_refl)
    then have "split_on newline buffer = [buffer]" using clean split_on_clean by metis
    then show ?thesis using True "1.IH"(1) by (subst read_loop.simps) (simp add: Let_def)
  next
    case False
    then have "buffer @ input = ?line @ newline # (?rest @ input)"
      using buffer_split [OF False] by (metis Suc_eq_plus1 append.assoc append_Cons)
    then have split: "split_on newline (buffer @ input) = ?line # split_on newline (?rest @ input)"
      using split_on_append [of newline ?line "?rest @ input"] split_on_clean [OF clean]
      by (metis append_Cons append_Nil)
    have "read_loop cmd input buffer s = read_loop cmd input ?rest (exec_line cmd ?line s)"
      using False by (subst read_loop.simps) (simp add: Let_def exec_line_def)
    also have "\<dots> = (last (split_on newline (?rest @ input)),
        fold (exec_line cmd) (butlast (split_on newline (?rest @ input))) (exec_line cmd ?line s))"
      unfolding exec_line_def [of cmd ?line s] by (rule "1.IH"(2) [OF refl False refl refl])
    also have "\<dots> = (last (split_on newline (buffer @ input)),
        fold (exec_line cmd) (butlast (split_on newline (buffer @ input))) s)"
      unfolding split using split_on_nonempty by simp
    finally show ?thesis .
  qed
qed

lemma split_on_chunks:
  "split_on c (x @ y) = butlast (split_on c x) @ split_on c (last (split_on c x) @ y)"
proof (induction x)
  case (Cons a x)
  obtain p ps where ps: "split_on c x = p # ps" using split_on_nonempty [of c x] by (cases "split_on c x") auto
  with Cons split_on_nonempty [of c] show ?case by (cases "a = c"; cases ps) simp_all
qed simp

section \<open>Properties\<close>

lemma unauthorized_peer:
  assumes "isSessionActive (sc_access s)" "uid \<noteq> 0" "uid \<noteq> ac_sessionOwner (sc_access s)"
  shows "sc_daemon (parseCommand env uid data s) = sc_daemon s \<and>
    sc_access (parseCommand env uid data s) = sc_access s \<and>
    sc_logsCleaned (parseCommand env uid data s) = sc_logsCleaned s"
  using assms
  by (simp add: parseCommand_def Let_def isCommandAuthorizedForPeer_def isPeerAuthorized_def conn_write_def)

lemma unauthorized_lines:
  assumes "isSessionActive (sc_access s)" "uid \<noteq> 0" "uid \<noteq> ac_sessionOwner (sc_access s)"
  shows "sc_daemon (fold (exec_line (parseCommand env uid)) ls s) = sc_daemon s \<and>
    sc_access (fold (exec_line (parseCommand env uid)) ls s) = sc_access s \<and>
    sc_logsCleaned (fold (exec_line (parseCommand env uid)) ls s) = sc_logsCleaned s"
  using assms
proof (induction ls arbitrary: s)
  case (Cons l ls)
  then show ?case using unauthorized_peer [of s uid env "trimmed l"] by (simp add: exec_line_def)
qed simp

text \<open>
  C16: While a session is active, whatever bytes a peer that is neither the session owner nor root
  sends (in any framing, valid commands or not), the daemon, the session and the logs stay as they
  are; and when no session is active, a peer whose id cannot be determined changes nothing
  either.\<close>

theorem foreign_peer_powerless:
  assumes "if isSessionActive (sc_access s) then uid \<noteq> 0 \<and> uid \<noteq> ac_sessionOwner (sc_access s) else uid = -1"
  shows "case readData env uid input buffer s of (_, s') \<Rightarrow>
    sc_daemon s' = sc_daemon s \<and> sc_access s' = sc_access s \<and> sc_logsCleaned s' = sc_logsCleaned s"
proof (cases "isSessionActive (sc_access s)")
  case True
  then show ?thesis using assms unauthorized_lines [of s uid env]
    by (simp add: readData_def read_loop_split)
next
  case False
  have one: "sc_daemon (parseCommand env (-1) d t) = sc_daemon t \<and> sc_access (parseCommand env (-1) d t) = sc_access t \<and>
      sc_logsCleaned (parseCommand env (-1) d t) = sc_logsCleaned t" if "\<not> isSessionActive (sc_access t)" for d t
    using that by (auto simp: parseCommand_def Let_def isCommandAuthorizedForPeer_def startSession_def
        conn_write_def run_command_def)
  have "sc_daemon (fold (exec_line (parseCommand env (-1))) ls t) = sc_daemon t \<and>
    sc_access (fold (exec_line (parseCommand env (-1))) ls t) = sc_access t \<and>
    sc_logsCleaned (fold (exec_line (parseCommand env (-1))) ls t) = sc_logsCleaned t"
    if "\<not> isSessionActive (sc_access t)" for ls t
    using that
  proof (induction ls arbitrary: t)
    case (Cons l ls)
    then show ?case using one [of t "trimmed l"] by (simp add: exec_line_def)
  qed simp
  then show ?thesis using assms False by (simp add: readData_def read_loop_split)
qed

definition sample_conn_env :: "(string \<Rightarrow> json) \<Rightarrow> (string \<times> int) list conn_env" where
  "sample_conn_env parseDoc = \<lparr>ce_backend = mock_backend 0, ce_parseHost = (\<lambda>_. IPv4 0),
     ce_keyToValue = sample_keyToValue, ce_printDate = (\<lambda>_. []), ce_parseDoc = parseDoc, ce_logs = []\<rparr>"

definition sample_conn :: "int \<Rightarrow> (string \<times> int) list server_conn" where
  "sample_conn owner = \<lparr>sc_access = \<lparr>ac_sessionOwner = owner\<rparr>,
     sc_daemon = mock_init\<lparr>dm_connections := [SingleHop \<mapsto> ConnectionState emptyConfig]\<rparr>,
     sc_written = [], sc_logsCleaned = False\<rparr>"

theorem foreign_peer_powerless_witness:
  "sc_daemon (snd (readData (sample_conn_env (\<lambda>_. JObject [(''type'', JString ''deactivate'')])) 1001
      (''deactivate'' @ [newline]) [] (sample_conn 1000))) = sc_daemon (sample_conn 1000)"
  using foreign_peer_powerless [of "sample_conn 1000" 1001
      "sample_conn_env (\<lambda>_. JObject [(''type'', JString ''deactivate'')])" "''deactivate'' @ [newline]" "[]"]
  by (simp add: sample_conn_def isSessionActive_def case_prod_unfold)

text \<open>
  The command reader does not depend on how the byte stream is cut: reading two chunks one
  after the other leaves the same buffer and executes the same commands as reading their
  concatenation, and each complete non-blank line is executed once, in order.\<close>

theorem readData_chunks:
  "readData env uid (a @ b) buffer s =
     (case readData env uid a buffer s of (buffer', s') \<Rightarrow> readData env uid b buffer' s') \<and>
   readData env uid a buffer s =
     (last (split_on newline (buffer @ a)),
      fold (parseCommand env uid) (filter (\<lambda>c. c \<noteq> []) (map trimmed (butlast (split_on newline (buffer @ a))))) s)"
proof
  show "readData env uid (a @ b) buffer s =
     (case readData env uid a buffer s of (buffer', s') \<Rightarrow> readData env uid b buffer' s')"
    using split_on_chunks [of newline "buffer @ a" b] split_on_nonempty
    by (simp add: readData_def read_loop_split butlast_append)
  have "fold (exec_line cmd) ls s = fold cmd (filter (\<lambda>c. c \<noteq> []) (map trimmed ls)) s" for cmd ls
    by (induction ls arbitrary: s) (simp_all add: exec_line_def)
  then show "readData env uid a buffer s =
     (last (split_on newline (buffer @ a)),
      fold (parseCommand env uid) (filter (\<lambda>c. c \<noteq> []) (map trimmed (butlast (split_on newline (buffer @ a))))) s)"
    by (simp add: readData_def read_loop_split)
qed

text \<open>
  The session is given up before the tunnel is: when the owner sends \<^verbatim>\<open>deactivate\<close> and the
  \<^verbatim>\<open>Down\<close> step fails, the connections stay but the session is gone, so that another user's next
  \<^verbatim>\<open>activate\<close> is authorised and makes that user the owner of the running tunnel.\<close>

theorem failed_deactivate_frees_session:
  assumes "ce_parseDoc env data = JObject obj" "obj_value obj ''type'' = JString ''deactivate''"
    and "isPeerAuthorized owner (sc_access s)"
    and "\<not> torn_down (ce_backend env) (sc_daemon s)" "uid \<noteq> -1"
  defines "s' \<equiv> parseCommand env owner data s"
  shows "dm_connections (sc_daemon s') = dm_connections (sc_daemon s) \<and>
    isCommandAuthorizedForPeer ''activate'' uid (sc_access s') = (True, \<lparr>ac_sessionOwner = uid\<rparr>)"
proof -
  have active: "isSessionActive (sc_access s)" using assms(3) by (auto simp: isPeerAuthorized_def split: if_splits)
  then have s': "s' = with_daemon (\<lambda>d. snd (deactivate (ce_backend env) True d)) (s\<lparr>sc_access := resetSession (sc_access s)\<rparr>)"
    using assms by (simp add: s'_def parseCommand_def Let_def isCommandAuthorizedForPeer_def run_command_def)
  obtain ok d where d: "deactivate (ce_backend env) True (sc_daemon s) = (ok, d)" by fastforce
  have "dm_connections d = dm_connections (sc_daemon s)"
    using deactivate_front [OF d] assms(4) by (simp add: same_front_def)
  moreover have "sc_access s' = \<lparr>ac_sessionOwner = -1\<rparr>"
    using active by (simp add: s' with_daemon_def Let_def resetSession_def)
  ultimately show ?thesis using assms(5) d
    by (simp add: s' with_daemon_def Let_def isCommandAuthorizedForPeer_def isSessionActive_def startSession_def)
qed

definition stuck_conn_env :: "(string \<times> int) list conn_env" where
  "stuck_conn_env = (sample_conn_env (\<lambda>_. JObject [(''type'', JString ''deactivate'')]))
     \<lparr>ce_backend := (mock_backend 0)\<lparr>be_run := (\<lambda>_ _ m. (False, m))\<rparr>\<rparr>"

theorem failed_deactivate_frees_session_witness:
  "isCommandAuthorizedForPeer ''activate'' 1001
     (sc_access (parseCommand stuck_conn_env 1000 ''x'' (sample_conn 1000))) = (True, \<lparr>ac_sessionOwner = 1001\<rparr>)"
  by (rule failed_deactivate_frees_session [where obj = "[(''type'', JString ''deactivate'')]", THEN conjunct2])
    (simp_all add: stuck_conn_env_def sample_conn_env_def sample_conn_def isPeerAuthorized_def isSessionActive_def
      obj_value_def torn_down_def conn_list_def hops_def)

end
