(* ===== verification/ServerData.thy ===== *)
theory ServerData
  imports ServerLatency
begin

text \<open>
  Model of \<^verbatim>\<open>src/src/models/serverdata.cpp\<close>: the selected exit and entry locations, their round
  trip through the stored setting, and the lists of usable servers.  The stored setting follows
  \<^verbatim>\<open>Setting::set\<close>: it emits \<^verbatim>\<open>changed\<close>, and so calls \<^verbatim>\<open>settingsChanged\<close>, only when the value
  differs.  Parameters: \<open>parseDoc\<close> and \<open>printDoc\<close>, the JSON text conversions of Qt.
\<close>

record server_data =
  sd_exitCountryCode :: string
  sd_exitCountryName :: string
  sd_exitCityName :: string
  sd_entryCountryCode :: string
  sd_entryCountryName :: string
  sd_entryCityName :: string
  sd_previousExitCountryCode :: string
  sd_previousExitCountryName :: string
  sd_previousExitCityName :: string
  sd_exitServerPublicKey :: string
  sd_entryServerPublicKey :: string

text \<open>
  The settings the component reads and writes: the current one, and the four it replaced
  (exit country, exit city, entry country, entry city; the getters of unset ones give the empty
  string).
\<close>

record server_settings =
  st_serverData :: "string option"
  st_currentCountryDeprecated :: "string option"
  st_currentCityDeprecated :: "string option"
  st_entryCountryDeprecated :: "string option"
  st_entryCityDeprecated :: "string option"

datatype sd_out = SdChanged | SdRetranslationNeeded | GeoMetric string

type_synonym sd_state = "server_data \<times> server_settings \<times> sd_out list"

definition emptyServerData :: server_data where
  "emptyServerData = \<lparr>sd_exitCountryCode = [], sd_exitCountryName = [], sd_exitCityName = [],
     sd_entryCountryCode = [], sd_entryCountryName = [], sd_entryCityName = [],
     sd_previousExitCountryCode = [], sd_previousExitCountryName = [],
     sd_previousExitCityName = [], sd_exitServerPublicKey = [], sd_entryServerPublicKey = []\<rparr>"

definition settingsChanged ::
    "(string \<Rightarrow> json) \<Rightarrow> server_country_model \<Rightarrow> sd_state \<Rightarrow> bool \<times> sd_state" where
  "settingsChanged parseDoc scm = (\<lambda>(d, st, out).
    (case st_serverData st of
       None \<Rightarrow> (False, (d, st, out))
     | Some s \<Rightarrow>
         let doc = parseDoc s; obj = toObject doc;
             exitCode = toString (obj_value obj ''exit_country_code'');
             entryCode = toString (obj_value obj ''enter_country_code'')
         in if \<not> isObject doc then (False, (d, st, out))
            else (True,
              (d\<lparr>sd_exitCountryCode := exitCode,
                 sd_exitCityName := toString (obj_value obj ''exit_city_name''),
                 sd_exitCountryName :=
                   (if \<not> obj_contains obj ''exit_country_name'' then countryName scm exitCode
                    else toString (obj_value obj ''exit_country_name'')),
                 sd_entryCountryCode := entryCode,
                 sd_entryCityName := toString (obj_value obj ''enter_city_name''),
                 sd_entryCountryName :=
                   (if \<not> obj_contains obj ''enter_country_name'' then countryName scm entryCode
                    else toString (obj_value obj ''enter_country_name''))\<rparr>,
               st, out @ [SdChanged, SdRetranslationNeeded]))))"

definition setServerData ::
    "(string \<Rightarrow> json) \<Rightarrow> server_country_model \<Rightarrow> string \<Rightarrow> sd_state \<Rightarrow> sd_state" where
  "setServerData parseDoc scm v = (\<lambda>(d, st, out).
    (if st_serverData st \<noteq> Some v
     then snd (settingsChanged parseDoc scm (d, st\<lparr>st_serverData := Some v\<rparr>, out))
     else (d, st, out)))"

definition update_object ::
    "server_country_model \<Rightarrow> string \<Rightarrow> string \<Rightarrow> string \<Rightarrow> string \<Rightarrow> json_object" where
  "update_object scm exitCountryCode exitCityName entryCountryCode entryCityName =
     obj_insert ''enter_city_name'' (JString entryCityName)
      (obj_insert ''enter_country_name'' (JString (countryName scm entryCountryCode))
       (obj_insert ''enter_country_code'' (JString entryCountryCode)
        (obj_insert ''exit_city_name'' (JString exitCityName)
         (obj_insert ''exit_country_name'' (JString (countryName scm exitCountryCode))
          (obj_insert ''exit_country_code'' (JString exitCountryCode) [])))))"

definition sd_update ::
    "(string \<Rightarrow> json) \<Rightarrow> (json \<Rightarrow> string) \<Rightarrow> server_country_model \<Rightarrow> string \<Rightarrow> string \<Rightarrow> string \<Rightarrow>
     string \<Rightarrow> sd_state \<Rightarrow> sd_state" where
  "sd_update parseDoc printDoc scm exitCountryCode exitCityName entryCountryCode entryCityName =
    (\<lambda>(d, st, out).
      setServerData parseDoc scm
        (printDoc (JObject (update_object scm exitCountryCode exitCityName entryCountryCode entryCityName)))
        (d\<lparr>sd_previousExitCountryCode := sd_exitCountryCode d,
           sd_previousExitCountryName := countryName scm exitCountryCode,
           sd_previousExitCityName := sd_exitCityName d\<rparr>, st, out))"

definition sd_fromSettings ::
    "(string \<Rightarrow> json) \<Rightarrow> (json \<Rightarrow> string) \<Rightarrow> server_country_model \<Rightarrow> sd_state \<Rightarrow> bool \<times> sd_state" where
  "sd_fromSettings parseDoc printDoc scm = (\<lambda>(d, st, out).
    (case (st_currentCountryDeprecated st, st_currentCityDeprecated st) of
       (Some country, Some city) \<Rightarrow>
         (let (d', st', out') =
                sd_update parseDoc printDoc scm country city
                  (qchars (st_entryCountryDeprecated st)) (qchars (st_entryCityDeprecated st))
                  (d, st, out)
          in (True,
              (d', st'\<lparr>st_currentCountryDeprecated := None, st_currentCityDeprecated := None,
                       st_entryCountryDeprecated := None, st_entryCityDeprecated := None\<rparr>, out')))
     | _ \<Rightarrow> settingsChanged parseDoc scm (d, st, out)))"

definition changeServer ::
    "(string \<Rightarrow> json) \<Rightarrow> (json \<Rightarrow> string) \<Rightarrow> server_country_model \<Rightarrow> string \<Rightarrow> string \<Rightarrow> string \<Rightarrow>
     string \<Rightarrow> sd_state \<Rightarrow> sd_state" where
  "changeServer parseDoc printDoc scm countryCode cityName entryCountryCode entryCityName =
    (\<lambda>(d, st, out).
      (if sd_exitCountryCode d = countryCode \<and> sd_exitCityName d = cityName \<and>
          sd_entryCountryCode d = entryCountryCode \<and> sd_entryCityName d = entryCityName
       then (d, st, out)
       else
         let metrics =
               (if entryCountryCode = [] \<and> entryCityName = [] then [GeoMetric ''SingleHop'']
                else (if sd_exitCountryCode d \<noteq> countryCode \<or> sd_exitCityName d \<noteq> cityName \<or>
                         (sd_entryCountryCode d = [] \<and> sd_entryCityName d = [])
                      then [GeoMetric ''MultiHopExit''] else []) @
                     (if sd_entryCountryCode d \<noteq> entryCountryCode \<or> sd_entryCityName d \<noteq> entryCityName
                      then [GeoMetric ''MultiHopEntry''] else []))
         in sd_update parseDoc printDoc scm countryCode cityName entryCountryCode entryCityName
              (d, st, out @ metrics)))"

definition forget :: "server_data \<Rightarrow> server_data" where
  "forget d = d\<lparr>sd_exitCountryCode := [], sd_exitCityName := [], sd_exitCountryName := [],
     sd_entryCountryCode := [], sd_entryCityName := [], sd_entryCountryName := [],
     sd_previousExitCountryCode := [], sd_previousExitCountryName := [],
     sd_previousExitCityName := []\<rparr>"

definition hasServerData :: "server_data \<Rightarrow> bool" where
  "hasServerData d = (sd_exitCountryCode d \<noteq> [])"

definition multihop :: "server_data \<Rightarrow> bool" where
  "multihop d = (sd_entryCountryCode d \<noteq> [] \<and> sd_entryCityName d \<noteq> [])"

definition getServerList ::
    "int \<Rightarrow> server_country_model \<Rightarrow> server_latency \<Rightarrow> string \<Rightarrow> string \<Rightarrow> server list" where
  "getServerList now scm sl countryCode cityName =
     concat (map (\<lambda>pubkey.
        let server = scm_server scm pubkey
        in if server_initialized server \<and> getCooldown sl pubkey \<le> now then [server] else [])
       (c_servers (findCity scm countryCode cityName)))"

definition exitServers :: "int \<Rightarrow> server_country_model \<Rightarrow> server_latency \<Rightarrow> server_data \<Rightarrow> server list" where
  "exitServers now scm sl d = getServerList now scm sl (sd_exitCountryCode d) (sd_exitCityName d)"

definition entryServers :: "int \<Rightarrow> server_country_model \<Rightarrow> server_latency \<Rightarrow> server_data \<Rightarrow> server list" where
  "entryServers now scm sl d =
    (if \<not> multihop d then exitServers now scm sl d
     else getServerList now scm sl (sd_entryCountryCode d) (sd_entryCityName d))"

definition setEntryServerPublicKey :: "string \<Rightarrow> server_data \<Rightarrow> server_data" where
  "setEntryServerPublicKey publicKey d = d\<lparr>sd_entryServerPublicKey := publicKey\<rparr>"

definition setExitServerPublicKey :: "string \<Rightarrow> server_data \<Rightarrow> server_data" where
  "setExitServerPublicKey publicKey d = d\<lparr>sd_exitServerPublicKey := publicKey\<rparr>"

text \<open>
  \<^verbatim>\<open>operator=\<close>, which the copy constructor uses as well: it leaves the three country names of the target
  as they are.
\<close>

definition assignServerData :: "server_data \<Rightarrow> server_data \<Rightarrow> server_data" where
  "assignServerData other d =
     d\<lparr>sd_exitCountryCode := sd_exitCountryCode other, sd_exitCityName := sd_exitCityName other,
       sd_entryCountryCode := sd_entryCountryCode other, sd_entryCityName := sd_entryCityName other,
       sd_previousExitCountryCode := sd_previousExitCountryCode other,
       sd_previousExitCityName := sd_previousExitCityName other,
       sd_exitServerPublicKey := sd_exitServerPublicKey other,
       sd_entryServerPublicKey := sd_entryServerPublicKey other\<rparr>"

lemma assignServerData_fields [simp]:
  "sd_exitCountryCode (assignServerData other d) = sd_exitCountryCode other"
  "sd_exitCityName (assignServerData other d) = sd_exitCityName other"
  "sd_entryCountryCode (assignServerData other d) = sd_entryCountryCode other"
  "sd_entryCityName (assignServerData other d) = sd_entryCityName other"
  "sd_exitServerPublicKey (assignServerData other d) = sd_exitServerPublicKey other"
  "sd_entryServerPublicKey (assignServerData other d) = sd_entryServerPublicKey other"
  by (simp_all add: assignServerData_def)

text \<open>The loop of \<^verbatim>\<open>backupServers\<close> with its accumulator and its early exit.\<close>

fun backup_loop :: "string \<Rightarrow> server list \<Rightarrow> server list \<Rightarrow> server list" where
  "backup_loop current [] acc = acc"
| "backup_loop current (item # items) acc =
    (if m_publicKey item \<noteq> current
     then (if length (acc @ [item]) \<ge> 3 then acc @ [item] else backup_loop current items (acc @ [item]))
     else backup_loop current items acc)"

definition backupServers ::
    "int \<Rightarrow> server_country_model \<Rightarrow> server_latency \<Rightarrow> server_data \<Rightarrow> string \<Rightarrow> server list" where
  "backupServers now scm sl d currentPublicKey =
     backup_loop currentPublicKey (exitServers now scm sl d) []"

section \<open>The stored setting\<close>

text \<open>The fields agree with the stored document, when it is one.\<close>

definition sd_synced :: "(string \<Rightarrow> json) \<Rightarrow> sd_state \<Rightarrow> bool" where
  "sd_synced parseDoc = (\<lambda>(d, st, out).
    (case st_serverData st of
       None \<Rightarrow> True
     | Some s \<Rightarrow> isObject (parseDoc s) \<longrightarrow>
         (let obj = toObject (parseDoc s)
          in sd_exitCountryCode d = toString (obj_value obj ''exit_country_code'') \<and>
             sd_exitCityName d = toString (obj_value obj ''exit_city_name'') \<and>
             sd_entryCountryCode d = toString (obj_value obj ''enter_country_code'') \<and>
             sd_entryCityName d = toString (obj_value obj ''enter_city_name''))))"

lemma settingsChanged_synced: "sd_synced parseDoc (snd (settingsChanged parseDoc scm x))"
  by (cases x) (auto simp: settingsChanged_def sd_synced_def Let_def split: option.splits)

lemma setServerData_synced [inv_intros]:
  "sd_synced parseDoc x \<Longrightarrow> sd_synced parseDoc (setServerData parseDoc scm v x)"
  by (cases x) (simp add: setServerData_def settingsChanged_synced)

lemma sd_synced_frame:
  "sd_synced parseDoc (d\<lparr>sd_previousExitCountryCode := x, sd_previousExitCountryName := y,
      sd_previousExitCityName := z\<rparr>, st, out') = sd_synced parseDoc (d, st, out)"
  by (simp add: sd_synced_def Let_def split: option.split)

lemma sd_synced_out: "sd_synced parseDoc (d, st, out') = sd_synced parseDoc (d, st, out)"
  by (simp add: sd_synced_def)

lemma sd_update_synced [inv_intros]:
  assumes "sd_synced parseDoc x"
  shows "sd_synced parseDoc (sd_update parseDoc printDoc scm a b c e x)"
proof -
  obtain d st out where x: "x = (d, st, out)" by (cases x)
  show ?thesis
    unfolding x sd_update_def prod.case
    by (rule setServerData_synced) (use assms x sd_synced_frame in blast)
qed

lemma changeServer_synced [inv_intros]:
  assumes "sd_synced parseDoc x"
  shows "sd_synced parseDoc (changeServer parseDoc printDoc scm a b c e x)"
proof -
  obtain d st out where x: "x = (d, st, out)" by (cases x)
  have "sd_synced parseDoc (d, st, out @ ms)" for ms using assms x sd_synced_out by blast
  then show ?thesis using assms by (simp add: x changeServer_def Let_def sd_update_synced)
qed

lemma update_object_values:
  "toString (obj_value (update_object scm a b c e) ''exit_country_code'') = a"
  "toString (obj_value (update_object scm a b c e) ''exit_city_name'') = b"
  "toString (obj_value (update_object scm a b c e) ''enter_country_code'') = c"
  "toString (obj_value (update_object scm a b c e) ''enter_city_name'') = e"
  by (simp_all add: update_object_def)

lemma setServerData_stored: "st_serverData (fst (snd (setServerData parseDoc scm v x))) = Some v"
  by (cases x) (auto simp: setServerData_def settingsChanged_def Let_def split: option.splits)

lemma sd_update_fields:
  assumes "parseDoc (printDoc (JObject (update_object scm a b c e))) = JObject (update_object scm a b c e)"
    and "sd_synced parseDoc x"
  shows "case sd_update parseDoc printDoc scm a b c e x of (d, st, out) \<Rightarrow>
    sd_exitCountryCode d = a \<and> sd_exitCityName d = b \<and> sd_entryCountryCode d = c \<and> sd_entryCityName d = e"
proof -
  have "st_serverData (fst (snd (sd_update parseDoc printDoc scm a b c e x))) =
      Some (printDoc (JObject (update_object scm a b c e)))"
    by (cases x) (simp add: sd_update_def setServerData_stored)
  then show ?thesis using sd_update_synced [OF assms(2), of printDoc scm a b c e]
    by (auto simp: sd_synced_def assms(1) update_object_values Let_def split: prod.splits)
qed

section \<open>Server lists\<close>

lemma getServerList_mem:
  "s \<in> set (getServerList now scm sl country city) \<longleftrightarrow>
    (\<exists>pk \<in> set (c_servers (findCity scm country city)).
       s = scm_server scm pk \<and> server_initialized s \<and> getCooldown sl pk \<le> now)"
  by (auto simp: getServerList_def Let_def split: if_splits)

lemma backup_loop_take:
  "length acc < 3 \<Longrightarrow> backup_loop current xs acc =
     acc @ take (3 - length acc) (filter (\<lambda>s. m_publicKey s \<noteq> current) xs)"
proof (induction current xs acc rule: backup_loop.induct)
  case (1 current acc)
  then show ?case by simp
next
  case (2 current item items acc)
  show ?case
  proof (cases "m_publicKey item \<noteq> current \<and> length acc \<noteq> 2")
    case True
    then have "3 - length acc = Suc (2 - length acc)" using "2.prems" by simp
    then show ?thesis using "2.IH"(1) True "2.prems" by simp
  next
    case False
    then show ?thesis using "2.IH"(2) "2.prems" by auto
  qed
qed

lemma backupServers_take:
  "backupServers now scm sl d current =
     take 3 (filter (\<lambda>s. m_publicKey s \<noteq> current) (exitServers now scm sl d))"
  by (simp add: backupServers_def backup_loop_take)

section \<open>Properties\<close>

text \<open>
  \<^verbatim>\<open>changeServer\<close>: with JSON printing that parses back, starting from fields in agreement with
  the stored setting, the selected exit and entry locations afterwards are the ones asked for and
  still agree with what is stored, so reading the settings again gives the same selection.\<close>

theorem changeServer_roundtrip:
  fixes scm country city entryCountry entryCity
  defines "doc \<equiv> JObject (update_object scm country city entryCountry entryCity)"
  assumes "parseDoc (printDoc doc) = doc"
    and "sd_synced parseDoc x"
  shows "case changeServer parseDoc printDoc scm country city entryCountry entryCity x of (d, st, out) \<Rightarrow>
    sd_exitCountryCode d = country \<and> sd_exitCityName d = city \<and>
    sd_entryCountryCode d = entryCountry \<and> sd_entryCityName d = entryCity \<and>
    sd_synced parseDoc (d, st, out) \<and>
    multihop d = (entryCountry \<noteq> [] \<and> entryCity \<noteq> [])"
proof -
  obtain d st out where x: "x = (d, st, out)" by (cases x)
  have sync: "sd_synced parseDoc (changeServer parseDoc printDoc scm country city entryCountry entryCity x)"
    by (rule changeServer_synced [OF assms(3)])
  have "sd_synced parseDoc (d, st, out @ ms)" for ms
    using assms(3) x sd_synced_out by blast
  then have "case changeServer parseDoc printDoc scm country city entryCountry entryCity x of (d, st, out) \<Rightarrow>
    sd_exitCountryCode d = country \<and> sd_exitCityName d = city \<and>
    sd_entryCountryCode d = entryCountry \<and> sd_entryCityName d = entryCity"
    using sd_update_fields [of parseDoc printDoc scm country city entryCountry entryCity] assms(2)
    by (simp add: doc_def)
      (simp add: changeServer_def x Let_def)
  with sync show ?thesis by (auto simp: multihop_def split: prod.splits)
qed

definition sample_sd_settings :: server_settings where
  "sample_sd_settings = \<lparr>st_serverData = None, st_currentCountryDeprecated = None,
     st_currentCityDeprecated = None, st_entryCountryDeprecated = None, st_entryCityDeprecated = None\<rparr>"

theorem changeServer_roundtrip_witness:
  "sd_exitCountryCode (fst (changeServer
      (\<lambda>_. JObject (update_object sample_model ''no'' ''Oslo'' [] [])) (\<lambda>_. ''text'') sample_model
      ''no'' ''Oslo'' [] [] (emptyServerData, sample_sd_settings, []))) = ''no''"
proof -
  have "sd_synced (\<lambda>_. JObject (update_object sample_model ''no'' ''Oslo'' [] []))
      (emptyServerData, sample_sd_settings, [])"
    by (simp add: sd_synced_def sample_sd_settings_def)
  from changeServer_roundtrip [OF refl this, where printDoc = "\<lambda>_. ''text''"] show ?thesis
    by (simp add: case_prod_unfold)
qed

text \<open>
  The server lists hold exactly the known servers of the selected city that are not in
  cooldown; without an entry location the entry list is the exit list; and \<^verbatim>\<open>backupServers\<close>, with
  its early exit, is the first three exit servers other than the current one.\<close>

theorem server_lists_exact:
  "(s \<in> set (exitServers now scm sl d) \<longleftrightarrow>
     (\<exists>pk \<in> set (c_servers (findCity scm (sd_exitCountryCode d) (sd_exitCityName d))).
        s = scm_server scm pk \<and> server_initialized s \<and> getCooldown sl pk \<le> now)) \<and>
   (s \<in> set (entryServers now scm sl d) \<longleftrightarrow>
     (\<exists>pk \<in> set (c_servers (if multihop d
            then findCity scm (sd_entryCountryCode d) (sd_entryCityName d)
            else findCity scm (sd_exitCountryCode d) (sd_exitCityName d))).
        s = scm_server scm pk \<and> server_initialized s \<and> getCooldown sl pk \<le> now)) \<and>
   backupServers now scm sl d current =
     take 3 (filter (\<lambda>s. m_publicKey s \<noteq> current) (exitServers now scm sl d))"
  by (auto simp: exitServers_def entryServers_def getServerList_mem backupServers_take)

text \<open>
  \<^verbatim>\<open>update\<close> remembers the previous exit by its old country code and city, but files under
  \<^verbatim>\<open>m_previousExitCountryName\<close> the name of the country being switched to.\<close>

theorem previous_country_name_is_new:
  "case sd_update parseDoc printDoc scm newCountry newCity ec en (d, st, out) of (d', _, _) \<Rightarrow>
     sd_previousExitCountryCode d' = sd_exitCountryCode d \<and>
     sd_previousExitCityName d' = sd_exitCityName d \<and>
     sd_previousExitCountryName d' = countryName scm newCountry"
  by (auto simp: sd_update_def setServerData_def settingsChanged_def Let_def
      split: option.splits prod.splits)

end
