(* ===== verification/PingHelper.thy ===== *)
theory PingHelper
  imports Prelude
begin

text \<open>
  Model of \<^verbatim>\<open>src/src/pinghelper.cpp\<close>: the circular buffer of the last 32 pings through the tunnel,
  indexed by the 16-bit sequence number, and the statistics over it.  Replies are matched by
  sequence number; the clock is an argument.  Which of the three ping senders is used depends on
  the platform, given by two flags.
\<close>

definition PING_STATS_WINDOW :: nat where
  "PING_STATS_WINDOW = 32"

definition PING_TIMEOUT :: int where
  "PING_TIMEOUT = 1000"

record ping_send_data =
  pd_timestamp :: int
  pd_latency :: int
  pd_sequence :: "16 word"

definition PingSendData :: ping_send_data where
  "PingSendData = \<lparr>pd_timestamp = -1, pd_latency = -1, pd_sequence = 0\<rparr>"

datatype ping_sender_kind = PlatformSender | DnsSender | DummySender

datatype ping_out = PingTo string "16 word" | PingSentAndReceived int

record ping_helper =
  ph_gateway :: string
  ph_source :: string
  ph_sequence :: "16 word"
  ph_data :: "ping_send_data list"
  ph_timer :: bool
  ph_sender :: "ping_sender_kind option"
  ph_out :: "ping_out list"

definition emptyPingHelper :: ping_helper where
  "emptyPingHelper = \<lparr>ph_gateway = [], ph_source = [], ph_sequence = 0,
     ph_data = replicate PING_STATS_WINDOW PingSendData, ph_timer = False, ph_sender = None, ph_out = []\<rparr>"

definition ping_index :: "16 word \<Rightarrow> nat" where
  "ping_index seq = unat seq mod PING_STATS_WINDOW"

definition ph_start :: "bool \<Rightarrow> bool \<Rightarrow> string \<Rightarrow> string \<Rightarrow> ping_helper \<Rightarrow> ping_helper" where
  "ph_start icmpValid dnsValid serverIpv4Gateway deviceIpv4Address s =
     s\<lparr>ph_gateway := serverIpv4Gateway,
       ph_source := takeWhile (\<lambda>c. c \<noteq> CHR ''/'') deviceIpv4Address,
       ph_sender := Some (if icmpValid then PlatformSender else if dnsValid then DnsSender else DummySender),
       ph_sequence := 0,
       ph_data := replicate PING_STATS_WINDOW PingSendData,
       ph_timer := True\<rparr>"

definition ph_stop :: "ping_helper \<Rightarrow> ping_helper" where
  "ph_stop s = s\<lparr>ph_sender := None, ph_timer := False\<rparr>"

definition nextPing :: "int \<Rightarrow> ping_helper \<Rightarrow> ping_helper" where
  "nextPing now s =
    (let index = ping_index (ph_sequence s)
     in s\<lparr>ph_data := (ph_data s)[index :=
            \<lparr>pd_timestamp = now, pd_latency = -1, pd_sequence = ph_sequence s\<rparr>],
          ph_out := ph_out s @ [PingTo (ph_gateway s) (ph_sequence s)],
          ph_sequence := ph_sequence s + 1\<rparr>)"

definition ph_pingReceived :: "int \<Rightarrow> 16 word \<Rightarrow> ping_helper \<Rightarrow> ping_helper" where
  "ph_pingReceived now seq s =
    (let index = ping_index seq; slot = ph_data s ! index
     in if pd_sequence slot = seq
        then let lat = now - pd_timestamp slot
             in s\<lparr>ph_data := (ph_data s)[index := slot\<lparr>pd_latency := lat\<rparr>],
                  ph_out := ph_out s @ [PingSentAndReceived lat]\<rparr>
        else s)"

definition received :: "ping_helper \<Rightarrow> int list" where
  "received s = filter (\<lambda>l. \<not> l < 0) (map pd_latency (ph_data s))"

definition ph_latency :: "ping_helper \<Rightarrow> 32 word" where
  "ph_latency s =
    (let recvCount = int (length (received s)); totalMsec = sum_list (received s)
     in if recvCount \<le> 0 then 0
        else word_of_int (cdiv (totalMsec + cdiv recvCount 2) recvCount))"

definition ph_stddev :: "ping_helper \<Rightarrow> 32 word" where
  "ph_stddev s =
    (let recvCount = int (length (received s)); average = uint (ph_latency s);
         totalVariance = sum_list (map (\<lambda>l. (average - l) * (average - l)) (received s))
     in if recvCount \<le> 0 then 0
        else word_of_int \<lfloor>sqrt (real_of_int totalVariance / real_of_int recvCount)\<rfloor>)"

definition ph_maximum :: "ping_helper \<Rightarrow> 32 word" where
  "ph_maximum s =
     foldl (\<lambda>maxRtt l. if l > uint maxRtt \<and> l < 4294967295 then word_of_int l else maxRtt) 0 (received s)"

definition ph_sent :: "int \<Rightarrow> ping_send_data \<Rightarrow> bool" where
  "ph_sent now d =
     (pd_latency d \<ge> 0 \<or> (pd_timestamp d > 0 \<and> pd_timestamp d < now - PING_TIMEOUT))"

definition lost :: "int \<Rightarrow> ping_helper \<Rightarrow> nat" where
  "lost now s =
     length (filter (ph_sent now) (ph_data s)) - length (filter (\<lambda>d. pd_latency d \<ge> 0) (ph_data s))"

definition ph_loss :: "int \<Rightarrow> ping_helper \<Rightarrow> real" where
  "ph_loss now s =
    (let sendCount = length (filter (ph_sent now) (ph_data s))
     in if sendCount = 0 then 0 else real (lost now s) / real PING_STATS_WINDOW)"

section \<open>Invariant\<close>

datatype ping_event =
    PStart bool bool string string
  | PStop
  | PNext int
  | PReceived int "16 word"

fun ping_step :: "ping_helper \<Rightarrow> ping_event \<Rightarrow> ping_helper" where
  "ping_step s (PStart icmp dns gw dev) = ph_start icmp dns gw dev s"
| "ping_step s PStop = ph_stop s"
| "ping_step s (PNext now) = nextPing now s"
| "ping_step s (PReceived now seq) = ph_pingReceived now seq s"

text \<open>
  Every slot written since the start (its timestamp is not -1) holds, at the index of its sequence
  number, one of the last 32 sequence numbers, also after the 16-bit counter has wrapped.  Times
  are positive.
\<close>

definition slot_ok :: "16 word \<Rightarrow> nat \<Rightarrow> ping_send_data \<Rightarrow> bool" where
  "slot_ok next i d \<longleftrightarrow>
     pd_timestamp d \<noteq> -1 \<longrightarrow> ping_index (pd_sequence d) = i \<and>
        1 \<le> unat (next - pd_sequence d) \<and> unat (next - pd_sequence d) \<le> PING_STATS_WINDOW"

definition ping_inv :: "ping_helper \<Rightarrow> bool" where
  "ping_inv s \<longleftrightarrow> length (ph_data s) = PING_STATS_WINDOW \<and>
     (\<forall>i < PING_STATS_WINDOW. slot_ok (ph_sequence s) i (ph_data s ! i))"

text \<open>The window divides the range of the counter, so indices survive its wrap.\<close>

lemma ping_index_diff:
  fixes a b :: "16 word"
  assumes "unat (a - b) = 32"
  shows "ping_index b = ping_index a"
proof -
  have "unat a = unat (b + (a - b))" by simp
  also have "\<dots> = (unat b + 32) mod 65536" unfolding unat_word_ariths(1) assms by simp
  finally show ?thesis by (simp add: ping_index_def PING_STATS_WINDOW_def mod_mod_cancel)
qed

lemma unat_step:
  fixes a b :: "16 word"
  assumes "unat (a - b) \<le> 32"
  shows "unat (a + 1 - b) = unat (a - b) + 1"
proof -
  have "unat ((a - b) + 1) = unat (a - b) + 1"
    by (subst unat_word_ariths(1)) (use assms in simp)
  moreover have "a + 1 - b = (a - b) + 1" by simp
  ultimately show ?thesis by metis
qed

lemma ping_index_less: "ping_index seq < PING_STATS_WINDOW"
  by (simp add: ping_index_def PING_STATS_WINDOW_def)

lemma nextPing_inv: "ping_inv s \<Longrightarrow> ping_inv (nextPing now s)"
proof -
  assume inv: "ping_inv s"
  let ?n = "ph_sequence s"
  let ?i = "ping_index ?n"
  have i: "?i < PING_STATS_WINDOW" by (simp add: ping_index_def PING_STATS_WINDOW_def)
  have "slot_ok (?n + 1) j (ph_data s ! j)" if j: "j < PING_STATS_WINDOW" "j \<noteq> ?i" for j
  proof (cases "pd_timestamp (ph_data s ! j) = -1")
    case False
    let ?q = "pd_sequence (ph_data s ! j)"
    from inv j False have q: "ping_index ?q = j" "1 \<le> unat (?n - ?q)" "unat (?n - ?q) \<le> 32"
      by (auto simp: ping_inv_def slot_ok_def PING_STATS_WINDOW_def)
    have "unat (?n - ?q) \<noteq> 32" using ping_index_diff [of ?n ?q] q(1) j(2) by auto
    then show ?thesis using q unat_step [OF q(3)] by (simp add: slot_ok_def PING_STATS_WINDOW_def)
  qed (simp add: slot_ok_def)
  then show ?thesis using inv i
    by (auto simp: ping_inv_def nextPing_def Let_def nth_list_update slot_ok_def PING_STATS_WINDOW_def)
qed

lemma received_inv: "ping_inv s \<Longrightarrow> ping_inv (ph_pingReceived now seq s)"
proof -
  assume inv: "ping_inv s"
  have "slot_ok (ph_sequence s) i
      ((ph_data s)[ping_index seq := (ph_data s ! ping_index seq)\<lparr>pd_latency := l\<rparr>] ! i)"
    if "i < PING_STATS_WINDOW" for i l
    using inv that ping_index_less [of seq]
    by (cases "i = ping_index seq") (auto simp: ping_inv_def slot_ok_def)
  then show ?thesis using inv by (simp add: ping_inv_def ph_pingReceived_def Let_def)
qed

interpretation ping: transition_system "\<lambda>s. s = emptyPingHelper" ping_step "\<lambda>_ _. True" ping_inv
proof
  fix s assume "s = emptyPingHelper"
  then show "ping_inv s" by (simp add: ping_inv_def emptyPingHelper_def slot_ok_def PingSendData_def)
next
  fix s e assume "ping_inv s"
  then show "ping_inv (ping_step s e)"
    by (cases e) (auto simp: nextPing_inv received_inv,
        auto simp: ping_inv_def ph_start_def ph_stop_def slot_ok_def PingSendData_def)
qed

section \<open>Statistics\<close>

lemma received_nonneg: "l \<in> set (received s) \<Longrightarrow> 0 \<le> l"
  by (auto simp: received_def)

lemma lost_le: "length (ph_data s) = PING_STATS_WINDOW \<Longrightarrow> lost now s \<le> 32"
  using length_filter_le [of "ph_sent now" "ph_data s"] by (simp add: lost_def PING_STATS_WINDOW_def)

lemma maximum_fold:
  fixes m :: "32 word"
  assumes "\<forall>l \<in> set ls. 0 \<le> l"
  shows "uint (foldl (\<lambda>maxRtt l. if l > uint maxRtt \<and> l < 4294967295 then word_of_int l else maxRtt) m ls) =
    Max (insert (uint m) {l \<in> set ls. l < 4294967295})"
  using assms
proof (induction ls arbitrary: m)
  case Nil
  then show ?case by simp
next
  case (Cons x ls)
  let ?m' = "if x > uint m \<and> x < 4294967295 then word_of_int x else m"
  have eq: "uint ?m' = (if x < 4294967295 then max (uint m) x else uint m)"
    using Cons.prems by (auto simp: uint_word_of_int max_def)
  have "Max (insert (uint ?m') {l \<in> set ls. l < 4294967295}) = Max (insert (uint m) {l \<in> set (x # ls). l < 4294967295})"
  proof (cases "x < 4294967295")
    case True
    then have "{l \<in> set (x # ls). l < 4294967295} = insert x {l \<in> set ls. l < 4294967295}" by auto
    then have "Max (insert (uint m) {l \<in> set (x # ls). l < 4294967295}) =
        Max (insert (uint m) (insert x {l \<in> set ls. l < 4294967295}))" by simp
    also have "\<dots> = Max (insert (max (uint m) x) {l \<in> set ls. l < 4294967295})"
    proof (cases "{l \<in> set ls. l < 4294967295} = {}")
      case False
      then show ?thesis by (simp add: Max_insert max.assoc)
    qed (metis Max_insert Max_singleton empty_not_insert finite.emptyI finite_insert)
    finally show ?thesis using eq True by simp
  next
    case False
    then have "{l \<in> set (x # ls). l < 4294967295} = {l \<in> set ls. l < 4294967295}" by auto
    then show ?thesis using eq False by simp
  qed
  with Cons show ?case by simp
qed


text \<open>Adding half the divisor rounds the quotient to the nearest integer.\<close>

lemma nearest_div:
  fixes t n :: int
  assumes "0 < n"
  shows "2 * \<bar>n * ((t + n div 2) div n) - t\<bar> \<le> n"
proof -
  let ?q = "(t + n div 2) div n" and ?r = "(t + n div 2) mod n"
  have "n * ?q = t + n div 2 - ?r" by (simp add: minus_mod_eq_mult_div [symmetric])
  moreover have "0 \<le> ?r" "?r < n" using assms by simp_all
  moreover have "2 * (n div 2) \<le> n" "n \<le> 2 * (n div 2) + 1" by presburger+
  moreover have "2 * \<bar>x - t\<bar> \<le> n" if "x = t + h - r" "0 \<le> r" "r < n" "2 * h \<le> n" "n \<le> 2 * h + 1" for x h r
    using that by (cases "r \<le> h") auto
  ultimately show ?thesis by blast
qed

lemma latency_value:
  assumes "received s \<noteq> []" "sum_list (received s) < 2 ^ 31"
  shows "uint (ph_latency s) =
    (sum_list (received s) + int (length (received s)) div 2) div int (length (received s))"
proof -
  let ?n = "int (length (received s))" and ?t = "sum_list (received s)"
  have n: "0 < ?n" using assms(1) by simp
  have t: "0 \<le> ?t" by (rule sum_list_nonneg) (rule received_nonneg)
  let ?q = "(?t + ?n div 2) div ?n"
  have q: "0 \<le> ?q" using n t by (simp add: pos_imp_zdiv_nonneg_iff)
  have "?q \<le> ?t + 1"
  proof -
    have "?n * ?q \<le> ?t + ?n div 2" using n by (metis mult_div_mod_eq add_le_cancel_left add.right_neutral pos_mod_sign)
    moreover have "?t + ?n div 2 < ?n * (?t + 1 + 1)"
    proof -
      have "?n div 2 \<le> ?n" using n by linarith
      moreover have "?t * 1 \<le> ?t * ?n" by (rule mult_left_mono) (use n t in linarith)+
      ultimately have "?t + ?n div 2 < ?t * ?n + ?n + ?n" using n by linarith
      then show ?thesis by (simp add: distrib_left mult.commute)
    qed
    ultimately have "?n * ?q < ?n * (?t + 1 + 1)" by linarith
    then have "?q < ?t + 1 + 1" using n by (metis mult_less_cancel_left_pos)
    then show ?thesis by linarith
  qed
  then have "?q < 2 ^ 32" using assms(2) by simp
  then have "uint (word_of_int ?q :: 32 word) = ?q" using q by (simp add: uint_word_of_int)
  moreover have "ph_latency s = word_of_int ?q"
    using n t by (simp add: ph_latency_def Let_def)
  ultimately show ?thesis by simp
qed

lemma loss_threshold:
  assumes "length (ph_data s) = PING_STATS_WINDOW"
  shows "0 \<le> ph_loss now s" "ph_loss now s \<le> 1" "ph_loss now s > 1 / 10 \<longleftrightarrow> 4 \<le> lost now s"
proof -
  have "lost now s = 0" if "length (filter (ph_sent now) (ph_data s)) = 0" using that by (simp add: lost_def)
  then have v: "ph_loss now s = real (lost now s) / 32"
    by (auto simp: ph_loss_def Let_def PING_STATS_WINDOW_def)
  have "lost now s \<le> 32" using assms by (rule lost_le)
  then show "0 \<le> ph_loss now s" "ph_loss now s \<le> 1" unfolding v by simp_all
  show "ph_loss now s > 1 / 10 \<longleftrightarrow> 4 \<le> lost now s" unfolding v by (simp add: field_simps) linarith
qed

section \<open>The window of a session\<close>

lemma ping_index_of_nat: "ping_index (of_nat k) = k mod 32"
  by (simp add: ping_index_def PING_STATS_WINDOW_def unat_of_nat mod_mod_cancel)

lemma mod_window_inj: "k < n \<Longrightarrow> n < k + 32 \<Longrightarrow> k mod 32 \<noteq> n mod (32 :: nat)"
  using mod_eq_dvd_iff_nat [of k n 32] dvd_imp_le [of 32 "n - k"] by (auto simp: eq_commute)

lemma session_frame:
  "length (ph_data (fold nextPing ts s)) = length (ph_data s)"
  "ph_sequence (fold nextPing ts s) = ph_sequence s + of_nat (length ts)"
  by (induction ts arbitrary: s) (simp_all add: nextPing_def Let_def)

lemma session_window:
  assumes "length (ph_data s) = 32" "ph_sequence s = 0" "k < length ts" "length ts \<le> k + 32"
  shows "ph_data (fold nextPing ts s) ! (k mod 32) =
    \<lparr>pd_timestamp = ts ! k, pd_latency = -1, pd_sequence = of_nat k\<rparr>"
  using assms(3,4)
proof (induction ts arbitrary: k rule: rev_induct)
  case Nil
  then show ?case by simp
next
  case (snoc t ts)
  let ?s = "fold nextPing ts s"
  have seq: "ph_sequence ?s = of_nat (length ts)" and len: "length (ph_data ?s) = 32"
    using session_frame [of ts s] assms(1,2) by simp_all
  have data: "ph_data (fold nextPing (ts @ [t]) s) =
      (ph_data ?s)[length ts mod 32 := \<lparr>pd_timestamp = t, pd_latency = -1, pd_sequence = of_nat (length ts)\<rparr>]"
    by (simp add: nextPing_def Let_def seq ping_index_of_nat)
  show ?case
  proof (cases "k = length ts")
    case True
    then show ?thesis unfolding data using len by simp
  next
    case False
    with snoc.prems have k: "k < length ts" "length ts < k + 32" by auto
    then have "ph_data ?s ! (k mod 32) = \<lparr>pd_timestamp = ts ! k, pd_latency = -1, pd_sequence = of_nat k\<rparr>"
      by (intro snoc.IH) auto
    then show ?thesis unfolding data using mod_window_inj [OF k] k(1) by (simp add: nth_append)
  qed
qed

text \<open>
  After a start and any number of pings sent (up to the period of the 16-bit sequence
  counter), a reply to ping \<open>k\<close> is credited with exactly the time since ping \<open>k\<close> was sent when it
  is among the last 32 pings, and is ignored otherwise: the circular buffer never credits a reply
  to another ping.
\<close>

theorem ping_reply_matched:
  assumes "k < length ts" "length ts \<le> 65536"
    and "s = fold nextPing ts (ph_start icmp dns gw dev s0)"
  shows "ph_pingReceived now (of_nat k) s =
    (if length ts \<le> k + 32
     then s\<lparr>ph_data := (ph_data s)[k mod 32 := \<lparr>pd_timestamp = ts ! k, pd_latency = now - ts ! k, pd_sequence = of_nat k\<rparr>],
            ph_out := ph_out s @ [PingSentAndReceived (now - ts ! k)]\<rparr>
     else s)"
proof -
  let ?s = "ph_start icmp dns gw dev s0"
  have init: "length (ph_data ?s) = 32" "ph_sequence ?s = 0"
    by (simp_all add: ph_start_def PING_STATS_WINDOW_def)
  note win = session_window [OF init, of _ ts, folded assms(3)]
  show ?thesis
  proof (cases "length ts \<le> k + 32")
    case True
    with win [of k] assms(1) show ?thesis by (simp add: ph_pingReceived_def Let_def ping_index_of_nat)
  next
    case False
    define d where "d = length ts - 1 - k"
    define j where "j = k + 32 * (d div 32)"
    have "32 * (d div 32) + d mod 32 = d" "d mod 32 < 32" by simp_all
    then have d: "32 * (d div 32) \<le> d" "d < 32 * (d div 32) + 32" by linarith+
    have j: "j < length ts" "length ts \<le> j + 32" "k < j"
      using False assms(1) d unfolding j_def d_def by simp_all
    have "j mod 32 = k mod 32" by (simp add: j_def)
    with win [of j] j have slot: "pd_sequence (ph_data s ! (k mod 32)) = of_nat j" by simp
    have "(of_nat j :: 16 word) \<noteq> of_nat k"
    proof
      assume "(of_nat j :: 16 word) = of_nat k"
      then have "unat (of_nat j :: 16 word) = unat (of_nat k :: 16 word)" by simp
      then have "j mod 65536 = k mod 65536" unfolding unat_of_nat by simp
      then show False using j assms(2) by simp
    qed
    with slot False show ?thesis by (simp add: ph_pingReceived_def Let_def ping_index_of_nat)
  qed
qed

theorem ping_reply_matched_witness:
  "ph_out (ph_pingReceived 130 1 (fold nextPing [50, 100] (ph_start True False ''10.0.0.1'' ''10.0.0.2/32'' emptyPingHelper))) =
    [PingTo ''10.0.0.1'' 0, PingTo ''10.0.0.1'' 1, PingSentAndReceived 30]"
  using ping_reply_matched [of 1 "[50, 100]" _ True False "''10.0.0.1''" "''10.0.0.2/32''" emptyPingHelper 130, OF _ _ refl]
  by (simp add: nextPing_def Let_def ph_start_def emptyPingHelper_def)

text \<open>
  Statistics over the window: the average is the mean of the received round trips rounded to
  the nearest integer, the maximum is the largest one below the limit of the 32-bit type, the loss
  is a fraction between 0 and 1, and it exceeds the 10 % threshold of the health check exactly when
  at least 4 of the 32 pings are lost.
\<close>

theorem ping_statistics:
  assumes "ping.reach s" "received s \<noteq> []" "sum_list (received s) < 2 ^ 31"
  defines "n \<equiv> int (length (received s))" and "t \<equiv> sum_list (received s)"
  shows "2 * \<bar>n * uint (ph_latency s) - t\<bar> \<le> n \<and>
    uint (ph_maximum s) = Max (insert 0 {l \<in> set (received s). l < 2 ^ 32 - 1}) \<and>
    0 \<le> ph_loss now s \<and> ph_loss now s \<le> 1 \<and> (ph_loss now s > 1 / 10 \<longleftrightarrow> 4 \<le> lost now s)"
proof -
  have len: "length (ph_data s) = PING_STATS_WINDOW"
    using ping.reach_inv [OF assms(1)] by (simp add: ping_inv_def)
  have "0 < n" using assms(2) by (simp add: n_def)
  then have "2 * \<bar>n * uint (ph_latency s) - t\<bar> \<le> n"
    unfolding latency_value [OF assms(2,3)] n_def t_def by (rule nearest_div)
  moreover have "uint (ph_maximum s) = Max (insert 0 {l \<in> set (received s). l < 2 ^ 32 - 1})"
    unfolding ph_maximum_def using maximum_fold [of "received s" 0] received_nonneg [of _ s] by simp
  ultimately show ?thesis using loss_threshold [OF len, of now] by blast
qed

definition sampleHelper :: ping_helper where
  "sampleHelper = ph_pingReceived 130 1 (nextPing 100 (nextPing 50
     (ph_start True False ''10.0.0.1'' ''10.0.0.2/32'' emptyPingHelper)))"

lemma sampleHelper_reach: "ping.reach sampleHelper"
proof -
  have "ping.reach emptyPingHelper" by (rule ping.reach_init) simp
  from ping.reach_step [OF ping.reach_step [OF ping.reach_step [OF ping.reach_step [OF this,
      of "PStart True False ''10.0.0.1'' ''10.0.0.2/32''"], of "PNext 50"], of "PNext 100"], of "PReceived 130 1"]
  show ?thesis by (simp add: sampleHelper_def)
qed

lemma sampleHelper_data: "ph_data sampleHelper =
    [\<lparr>pd_timestamp = 50, pd_latency = -1, pd_sequence = 0\<rparr>, \<lparr>pd_timestamp = 100, pd_latency = 30, pd_sequence = 1\<rparr>]
      @ replicate 30 PingSendData"
proof -
  have r: "replicate 32 PingSendData = PingSendData # PingSendData # replicate 30 PingSendData"
    by (simp add: eval_nat_numeral)
  show ?thesis
    by (simp add: sampleHelper_def ph_pingReceived_def nextPing_def ph_start_def Let_def ping_index_def
        PING_STATS_WINDOW_def r)
qed

lemma sampleHelper_received: "received sampleHelper = [30]"
  unfolding received_def sampleHelper_data by (simp add: PingSendData_def)

theorem ping_statistics_witness:
  "2 * \<bar>1 * uint (ph_latency sampleHelper) - 30\<bar> \<le> 1 \<and>
    uint (ph_maximum sampleHelper) = Max (insert 0 {l \<in> {30}. l < 2 ^ 32 - 1})"
  using ping_statistics [OF sampleHelper_reach, of 0] unfolding sampleHelper_received by simp

end
