(* ===== verification/Controller.thy ===== *)
theory Controller
  imports ServerData InterfaceConfig RoutingPolicy PingHelper
begin

text \<open>
  Model of \<^verbatim>\<open>src/src/controller.cpp\<close> and \<^verbatim>\<open>controller.h\<close>: the client-side VPN state machine.  Each
  handler is a function on the controller's record; the platform controller (\<^verbatim>\<open>ControllerImpl\<close>) is
  seen through the calls made to it, which are appended to the output log, and through its signals,
  which are events.  The emission of \<^verbatim>\<open>disconnected\<close> from inside \<^verbatim>\<open>ControllerImpl::deactivate\<close>
  (quick server switching) is the event following that call: the call is the last action of every
  handler that makes it.  The latency component is part of the state, since timeouts write its
  cooldowns.
\<close>

section \<open>Data\<close>

datatype controller_state =
    StateInitializing | StateOff | StateConnecting | StateConfirming | StateOn | StateOnPartial
  | StateDisconnecting | StateSilentSwitching | StateSwitching

datatype reason = ReasonNone | ReasonSwitching | ReasonConfirming

datatype principal = NullPrincipal | ExtensionUser | ClientUser

text \<open>\<^verbatim>\<open>deactivate\<close> compares principals by the integers of the enumeration.\<close>

fun principal_rank :: "principal \<Rightarrow> nat" where
  "principal_rank NullPrincipal = 0"
| "principal_rank ExtensionUser = 1"
| "principal_rank ClientUser = 2"

lemma principal_rank_inj: "principal_rank a = principal_rank b \<longleftrightarrow> a = b"
  by (cases a; cases b) simp_all

instantiation principal :: linorder
begin

definition less_eq_principal :: "principal \<Rightarrow> principal \<Rightarrow> bool" where
  "less_eq_principal a b = (principal_rank a \<le> principal_rank b)"

definition less_principal :: "principal \<Rightarrow> principal \<Rightarrow> bool" where
  "less_principal a b = (principal_rank a < principal_rank b)"

instance
  by standard (auto simp: less_eq_principal_def less_principal_def principal_rank_inj)

end

lemma ClientUser_top [simp]: "p \<le> ClientUser"
  by (cases p) (simp_all add: less_eq_principal_def)

lemma not_above_ClientUser [simp]: "\<not> ClientUser < p"
  by (simp add: not_less)

datatype selection_policy = RandomizeServerSelection | DoNotRandomizeServerSelection

datatype cooldown_policy = ServerCoolDownNeeded | ServerCoolDownNotNeeded

datatype next_step = NoStep | Quit | Update | Disconnect

datatype dns_port_policy = ForceDNSPort | DoNotForceDNSPort

datatype platform = Linux | Flatpak | MacOS | Windows | Android | Ios | Wasm

definition CONNECTION_MAX_RETRY :: int where
  "CONNECTION_MAX_RETRY = 9"

text \<open>Signals, calls to the platform controller and to the rest of the client.\<close>

datatype ctl_out =
    StateChanged controller_state
  | TimeChanged
  | EnableDisconnectInConfirmingChanged
  | ConnectionRetryChanged
  | ConnectionStartTelemetry
  | ConnectionEndTelemetry
  | DataTransferTelemetry
  | ReadyToQuit
  | ReadyToUpdate
  | ReadyToServerUnavailable bool
  | ActivationBlockedForCaptivePortal
  | ScreenCaptivePortal
  | IsDeviceConnectedChanged
  | CurrentServerChanged
  | ImplInitialize
  | ImplActivate interface_config reason
  | ImplDeactivate reason
  | ImplCheckStatus
  | ImplGetBackendLogs
  | ImplCleanupBackendLogs
  | ImplForceDaemonCrash
  | ImplDeleteOSTunnelConfig
  | ImplSilentServerSwitch
  | LogsCallback string
  | StatusCallback nat string string "64 word" "64 word"
  | ControllerError
  | AuthenticationError
  | VpnReset
  | AccountRequest
  | AccountChecked string
  | DeleteTasks
  | ScheduleSwitchTask
  | UndefinedRandom

record controller =
  ct_state :: controller_state
  ct_initiator :: principal
  ct_nextStep :: next_step
  ct_enableDisconnectInConfirming :: bool
  ct_activationQueue :: "interface_config list"
  ct_connectionRetry :: int
  ct_impl :: bool
  ct_initializations :: nat
  ct_portalDetected :: bool
  ct_isDeviceConnected :: bool
  ct_serverData :: server_data
  ct_nextServerData :: server_data
  ct_isSwitchingServer :: bool
  ct_pingCanary :: ping_helper
  ct_pingReceived :: bool
  ct_nextServerSelectionPolicy :: selection_policy
  ct_getStatusCallbacks :: "nat list"
  ct_timer :: bool
  ct_connectingTimer :: bool
  ct_handshakeTimer :: bool
  ct_connectedTime :: "int option"
  ct_requests :: "(selection_policy \<times> principal) list"
  ct_latency :: server_latency
  ct_out :: "ctl_out list"

text \<open>
  The controller as constructed.  \<^verbatim>\<open>isSwitchingServer\<close> has no initialiser in \<^verbatim>\<open>controller.h\<close>, so its
  value is a parameter.  \<^const>\<open>ct_requests\<close> are the account requests in flight, with what their
  callbacks captured; \<^const>\<open>ct_initializations\<close> counts the calls of \<^verbatim>\<open>initialize\<close>, each of which
  connects the state signal once more.
\<close>

definition emptyController :: "bool \<Rightarrow> controller" where
  "emptyController uninitialised =
    \<lparr>ct_state = StateInitializing, ct_initiator = NullPrincipal, ct_nextStep = NoStep,
     ct_enableDisconnectInConfirming = False, ct_activationQueue = [], ct_connectionRetry = 0,
     ct_impl = False, ct_initializations = 0, ct_portalDetected = False, ct_isDeviceConnected = True,
     ct_serverData = emptyServerData, ct_nextServerData = emptyServerData,
     ct_isSwitchingServer = uninitialised, ct_pingCanary = emptyPingHelper, ct_pingReceived = False,
     ct_nextServerSelectionPolicy = RandomizeServerSelection, ct_getStatusCallbacks = [],
     ct_timer = False, ct_connectingTimer = False, ct_handshakeTimer = False, ct_connectedTime = None,
     ct_requests = [], ct_latency = emptyLatency, ct_out = []\<rparr>"

text \<open>
  What the handlers read of the rest of the client: clock and server list (in the environment of
  the latency component), the device and the keys, the random numbers drawn in one handler (exit
  server, exit port, entry server, entry port), settings, features and the Qt parsers.
\<close>

record ctl_env =
  ce_lat :: latency_env
  ce_platform :: platform
  ce_device :: "(string \<times> string) option"
  ce_privateKey :: string
  ce_rndExit :: u32
  ce_rndExitPort :: u32
  ce_rndEntry :: u32
  ce_rndEntryPort :: u32
  ce_dns :: "string \<Rightarrow> dns_data"
  ce_parseHost :: "string \<Rightarrow> host_address"
  ce_parseSubnet :: "string \<Rightarrow> host_address \<times> int"
  ce_splitTunnel :: bool
  ce_vpnDisabledApps :: "string list"
  ce_alwaysPort53 :: bool
  ce_multiHop :: bool
  ce_multihopSupported :: bool
  ce_checkConnectivity :: bool
  ce_reachable :: bool
  ce_appMainOrOnboarding :: bool
  ce_icmpValid :: bool
  ce_dnsValid :: bool
  ce_appActive :: bool

abbreviation ce_now :: "ctl_env \<Rightarrow> int" where
  "ce_now env \<equiv> le_now (ce_lat env)"

abbreviation ce_scm :: "ctl_env \<Rightarrow> server_country_model" where
  "ce_scm env \<equiv> le_scm (ce_lat env)"

definition ctl_emit :: "ctl_out \<Rightarrow> controller \<Rightarrow> controller" where
  "ctl_emit x s = s\<lparr>ct_out := ct_out s @ [x]\<rparr>"

section \<open>Small operations\<close>

definition stateToReason :: "controller_state \<Rightarrow> reason" where
  "stateToReason st =
    (if st = StateSwitching \<or> st = StateSilentSwitching then ReasonSwitching
     else if st = StateConfirming then ReasonConfirming else ReasonNone)"

definition WINDOWS_DAEMON_PATH :: string where
  "WINDOWS_DAEMON_PATH = [CHR 0x5C, CHR 0x5C, CHR ''.'', CHR 0x5C] @ ''pipe'' @ [CHR 0x5C] @ ''mozillavpn''"

definition MACOS_DAEMON_TMP_PATH :: string where
  "MACOS_DAEMON_TMP_PATH = ''/tmp/mozillavpn.socket''"

definition MACOS_DAEMON_VAR_PATH :: string where
  "MACOS_DAEMON_VAR_PATH = ''/var/run/mozillavpn/daemon.socket''"

definition useLocalSocketPath :: "platform \<Rightarrow> bool \<Rightarrow> string \<Rightarrow> (string \<Rightarrow> bool) \<Rightarrow> string" where
  "useLocalSocketPath pf inProduction control_socket fileExists =
    (if pf \<noteq> Wasm \<and> \<not> inProduction \<and> control_socket \<noteq> [] then control_socket
     else if pf = MacOS then
       (if fileExists MACOS_DAEMON_VAR_PATH then MACOS_DAEMON_VAR_PATH else MACOS_DAEMON_TMP_PATH)
     else if pf = Windows then WINDOWS_DAEMON_PATH
     else [])"

definition maybeEnableDisconnectInConfirming :: "controller \<Rightarrow> controller" where
  "maybeEnableDisconnectInConfirming s =
    (if ct_state s = StateConfirming
     then (ctl_emit EnableDisconnectInConfirmingChanged (s\<lparr>ct_enableDisconnectInConfirming := False\<rparr>))
            \<lparr>ct_connectingTimer := True\<rparr>
     else (ctl_emit EnableDisconnectInConfirmingChanged (s\<lparr>ct_enableDisconnectInConfirming := False\<rparr>))
            \<lparr>ct_connectingTimer := False\<rparr>)"

definition setState :: "controller_state \<Rightarrow> controller \<Rightarrow> controller" where
  "setState st s =
    (if ct_state s = st then s
     else (maybeEnableDisconnectInConfirming ^^ ct_initializations s)
            (ctl_emit (StateChanged st) (s\<lparr>ct_state := st\<rparr>)))"

definition connectingTimeout :: "controller \<Rightarrow> controller" where
  "connectingTimeout s = ctl_emit EnableDisconnectInConfirmingChanged
     (s\<lparr>ct_connectingTimer := False, ct_enableDisconnectInConfirming := True\<rparr>)"

definition ctl_initialize :: "server_data \<Rightarrow> controller \<Rightarrow> controller" where
  "ctl_initialize sd s =
    (let s1 = setState StateInitializing s
     in ctl_emit ImplInitialize
          (s1\<lparr>ct_serverData := assignServerData sd (ct_serverData s1),
              ct_nextServerData := assignServerData sd (ct_nextServerData s1), ct_impl := True,
              ct_initializations := ct_initializations s1 + 1\<rparr>))"

definition clearConnectedTime :: "controller \<Rightarrow> controller" where
  "clearConnectedTime s =
    (let s1 = (if \<not> ct_isSwitchingServer s
               then ctl_emit TimeChanged (s\<lparr>ct_connectedTime := None\<rparr>) else s)
     in s1\<lparr>ct_timer := False\<rparr>)"

definition resetConnectedTime :: "ctl_env \<Rightarrow> controller \<Rightarrow> controller" where
  "resetConnectedTime env s =
    (let s1 = (if \<not> ct_isSwitchingServer s then s\<lparr>ct_connectedTime := Some (ce_now env)\<rparr> else s)
     in (ctl_emit TimeChanged s1)\<lparr>ct_timer := True\<rparr>)"

definition clearRetryCounter :: "controller \<Rightarrow> controller" where
  "clearRetryCounter s = ctl_emit ConnectionRetryChanged (s\<lparr>ct_connectionRetry := 0\<rparr>)"

definition stopCanary :: "controller \<Rightarrow> controller" where
  "stopCanary s = s\<lparr>ct_pingCanary := ph_stop (ct_pingCanary s)\<rparr>"

definition startHandshakeTimer :: "controller \<Rightarrow> controller" where
  "startHandshakeTimer s = s\<lparr>ct_handshakeTimer := True\<rparr>"

definition serverUnavailable :: "controller \<Rightarrow> controller" where
  "serverUnavailable s = ctl_emit (ReadyToServerUnavailable (ct_pingReceived s)) s"

definition processNextStep :: "controller \<Rightarrow> bool \<times> controller" where
  "processNextStep s =
    (let nextStep = ct_nextStep s; s1 = s\<lparr>ct_nextStep := NoStep\<rparr>
     in if nextStep = Quit then (True, ctl_emit ReadyToQuit s1)
        else if nextStep = Update then (True, ctl_emit ReadyToUpdate s1)
        else (False, s1))"

definition implInitialized ::
    "ctl_env \<Rightarrow> bool \<Rightarrow> bool \<Rightarrow> int option \<Rightarrow> controller \<Rightarrow> controller" where
  "implInitialized env status a_connected connectionDate s =
    (if \<not> status then setState StateOff (ctl_emit ControllerError s)
     else let (done, s1) = processNextStep s
       in if done then setState StateOff s1
          else let s2 = setState (if a_connected then StateOn else StateOff) s1
            in if a_connected
               then (ctl_emit TimeChanged
                      (s2\<lparr>ct_connectedTime := Some (case connectionDate of Some d \<Rightarrow> d | None \<Rightarrow> ce_now env)\<rparr>))
                      \<lparr>ct_timer := True\<rparr>
               else s2)"

definition ctl_time :: "ctl_env \<Rightarrow> controller \<Rightarrow> int" where
  "ctl_time env s = (case ct_connectedTime s of Some t \<Rightarrow> cdiv (ce_now env - t) 1000 | None \<Rightarrow> 0)"

definition timerTimeout :: "ctl_env \<Rightarrow> controller \<Rightarrow> controller" where
  "timerTimeout env s =
    (if ce_platform env = Ios then (if ce_appActive env then ctl_emit TimeChanged s else s)
     else ctl_emit TimeChanged s)"

definition connectionTimestamp :: "ctl_env \<Rightarrow> controller \<Rightarrow> int" where
  "connectionTimestamp env s =
    (if ct_state s \<in> {StateConfirming, StateConnecting, StateDisconnecting, StateInitializing, StateOff}
     then 0
     else case ct_connectedTime s of Some t \<Rightarrow> t | None \<Rightarrow> ce_now env)"

definition currentServerString :: "controller \<Rightarrow> string" where
  "currentServerString s =
    (let d = ct_serverData s
     in sd_exitCountryCode d @ ''-'' @ sd_exitCityName d @ ''-'' @ sd_entryCountryCode d @ ''-'' @ sd_entryCityName d)"


section \<open>Activation\<close>

text \<open>
  The server of a hop: the one named by \<open>key\<close> when the policy asks to keep it, otherwise a weighted
  choice in the list; \<open>None\<close> when the random number is drawn from an empty range.
\<close>

definition pick_server ::
    "ctl_env \<Rightarrow> selection_policy \<Rightarrow> string \<Rightarrow> u32 \<Rightarrow> server list \<Rightarrow> server option" where
  "pick_server env policy key rnd servers =
    (if policy = DoNotRandomizeServerSelection \<and> key \<noteq> []
     then Some (scm_server (ce_scm env) key) else weightChooser rnd servers)"

definition pick_exit :: "ctl_env \<Rightarrow> selection_policy \<Rightarrow> controller \<Rightarrow> server option" where
  "pick_exit env policy s =
     pick_server env policy (sd_exitServerPublicKey (ct_serverData s)) (ce_rndExit env)
       (exitServers (now_sec (ce_lat env)) (ce_scm env) (ct_latency s) (ct_serverData s))"

definition pick_entry :: "ctl_env \<Rightarrow> selection_policy \<Rightarrow> controller \<Rightarrow> server option" where
  "pick_entry env policy s =
     pick_server env policy (sd_entryServerPublicKey (ct_serverData s)) (ce_rndEntry env)
       (entryServers (now_sec (ce_lat env)) (ce_scm env) (ct_latency s) (ct_serverData s))"

definition exit_config ::
    "ctl_env \<Rightarrow> principal \<Rightarrow> string \<times> string \<Rightarrow> server \<Rightarrow> u32 \<Rightarrow> interface_config" where
  "exit_config env initiator device exitServer port =
     emptyConfig\<lparr>ic_privateKey := Some (ce_privateKey env),
       ic_deviceIpv4Address := Some (fst device),
       ic_deviceIpv6Address := Some (snd device),
       ic_serverIpv4Gateway := Some (m_ipv4Gateway exitServer),
       ic_serverIpv6Gateway := Some (m_ipv6Gateway exitServer),
       ic_serverPublicKey := Some (m_publicKey exitServer),
       ic_serverIpv4AddrIn := Some (m_ipv4AddrIn exitServer),
       ic_serverIpv6AddrIn := Some (m_ipv6AddrIn exitServer),
       ic_serverPort := sint port,
       ic_allowedIPAddressRanges :=
         (if initiator = ExtensionUser
          then getExtensionProxyAddressRanges (ce_parseHost env) (ce_dns env) exitServer
          else getAllowedIPAddressRanges (ce_parseHost env) exitServer),
       ic_dnsServer := Some (dns_ipAddress (ce_dns env (m_ipv4Gateway exitServer))),
       ic_vpnDisabledApps := (if ce_splitTunnel env then ce_vpnDisabledApps env else [])\<rparr>"

definition entry_config ::
    "ctl_env \<Rightarrow> string \<times> string \<Rightarrow> server \<Rightarrow> server \<Rightarrow> int \<Rightarrow> interface_config" where
  "entry_config env device exitServer entryServer port =
     emptyConfig\<lparr>ic_privateKey := Some (ce_privateKey env),
       ic_deviceIpv4Address := Some (fst device),
       ic_deviceIpv6Address := Some (snd device),
       ic_serverPublicKey := Some (m_publicKey entryServer),
       ic_serverIpv4AddrIn := Some (m_ipv4AddrIn entryServer),
       ic_serverIpv6AddrIn := Some (m_ipv6AddrIn entryServer),
       ic_serverPort := port,
       ic_hopType := MultiHopEntry,
       ic_allowedIPAddressRanges :=
         [IPAddress_of_string (ce_parseSubnet env) (ce_parseHost env) (m_ipv4AddrIn exitServer)] @
         (if m_ipv6AddrIn exitServer \<noteq> []
          then [IPAddress_of_string (ce_parseSubnet env) (ce_parseHost env) (m_ipv6AddrIn exitServer)]
          else [])\<rparr>"

text \<open>The four ways the preparation of the activation queue ends.\<close>

datatype queue_result =
    QReady "interface_config list" | QUnavailable | QNoDevice | QUndefined

definition forced_port :: "dns_port_policy \<Rightarrow> int \<Rightarrow> int" where
  "forced_port dnsPort port = (if dnsPort = ForceDNSPort then 53 else port)"

definition hop_queue ::
    "ctl_env \<Rightarrow> dns_port_policy \<Rightarrow> selection_policy \<Rightarrow> controller \<Rightarrow> string \<times> string \<Rightarrow>
     server \<Rightarrow> interface_config \<Rightarrow> queue_result" where
  "hop_queue env dnsPort policy s device exitServer exitConfig =
    (if \<not> ce_multiHop env \<or> \<not> multihop (ct_serverData s)
     then QReady [exitConfig\<lparr>ic_hopType := SingleHop,
                    ic_serverPort := forced_port dnsPort (ic_serverPort exitConfig)\<rparr>]
     else case pick_entry env policy s of
       None \<Rightarrow> QUndefined
     | Some entryServer \<Rightarrow>
         if \<not> server_initialized entryServer then QUnavailable
         else if ce_multihopSupported env then
           (case choosePort (ce_rndEntryPort env) entryServer of
              None \<Rightarrow> QUndefined
            | Some port \<Rightarrow>
                QReady [entry_config env device exitServer entryServer (forced_port dnsPort (sint port)),
                        exitConfig\<lparr>ic_hopType := MultiHopExit\<rparr>])
         else QReady [exitConfig\<lparr>ic_hopType := SingleHop,
                        ic_serverPort := sint (m_multihopPort exitServer),
                        ic_serverIpv4AddrIn := Some (m_ipv4AddrIn entryServer),
                        ic_serverIpv6AddrIn := Some (m_ipv6AddrIn entryServer)\<rparr>])"

definition build_queue ::
    "ctl_env \<Rightarrow> dns_port_policy \<Rightarrow> selection_policy \<Rightarrow> principal \<Rightarrow> controller \<Rightarrow> queue_result" where
  "build_queue env dnsPort policy initiator s =
    (case pick_exit env policy s of
       None \<Rightarrow> QUndefined
     | Some exitServer \<Rightarrow>
         if \<not> server_initialized exitServer then QUnavailable
         else case ce_device env of
           None \<Rightarrow> QNoDevice
         | Some device \<Rightarrow>
             (case choosePort (ce_rndExitPort env) exitServer of
                None \<Rightarrow> QUndefined
              | Some port \<Rightarrow>
                  hop_queue env (if ce_alwaysPort53 env then ForceDNSPort else dnsPort) policy s device
                    exitServer (exit_config env initiator device exitServer port)))"

definition activateNext :: "ctl_env \<Rightarrow> controller \<Rightarrow> controller" where
  "activateNext env s =
    (if ce_device env = None then ctl_emit VpnReset (ctl_emit AuthenticationError s)
     else
       let config = hd (ct_activationQueue s);
           s1 = (if ce_platform env \<in> {Linux, Flatpak, Windows, MacOS} then startHandshakeTimer s else s);
           s2 = ctl_emit (ImplActivate config (stateToReason (ct_state s1))) s1
       in if ct_initiator s2 = ExtensionUser then s2
          else if ct_state s2 \<noteq> StateSilentSwitching then setState StateConfirming s2 else s2)"

definition publicKey_of :: "interface_config \<Rightarrow> string" where
  "publicKey_of c = qchars (ic_serverPublicKey c)"

definition load_queue :: "ctl_env \<Rightarrow> interface_config list \<Rightarrow> controller \<Rightarrow> controller" where
  "load_queue env q s =
     s\<lparr>ct_activationQueue := q,
       ct_serverData := setExitServerPublicKey (publicKey_of (last q))
         (setEntryServerPublicKey (publicKey_of (hd q)) (ct_serverData s)),
       ct_pingReceived := False,
       ct_pingCanary := ph_start (ce_icmpValid env) (ce_dnsValid env) (qchars (ic_serverIpv4AddrIn (hd q)))
         ''0.0.0.0/0'' (ct_pingCanary s)\<rparr>"

definition activateInternal ::
    "ctl_env \<Rightarrow> dns_port_policy \<Rightarrow> selection_policy \<Rightarrow> principal \<Rightarrow> controller \<Rightarrow> controller" where
  "activateInternal env dnsPort policy initiator s =
    (let s1 = (clearConnectedTime (s\<lparr>ct_initiator := initiator\<rparr>))
                \<lparr>ct_handshakeTimer := False, ct_activationQueue := []\<rparr>
     in case build_queue env dnsPort policy initiator s1 of
          QUnavailable \<Rightarrow> serverUnavailable s1
        | QNoDevice \<Rightarrow> s1\<lparr>ct_nextStep := Disconnect\<rparr>
        | QUndefined \<Rightarrow> ctl_emit UndefinedRandom s1
        | QReady q \<Rightarrow> activateNext env (load_queue env q s1))"

definition deactivate :: "principal \<Rightarrow> controller \<Rightarrow> bool \<times> controller" where
  "deactivate user s =
    (if ct_initiator s > user then (False, s)
     else if ct_state s \<notin> {StateOn, StateOnPartial, StateSwitching, StateSilentSwitching,
                            StateConfirming, StateConnecting}
     then (False, s)
     else
       let s1 = (if ct_portalDetected s
                 then (ctl_emit ScreenCaptivePortal (ctl_emit ActivationBlockedForCaptivePortal s))
                        \<lparr>ct_portalDetected := False\<rparr> else s);
           s2 = (if ct_state s1 \<in> {StateOn, StateOnPartial, StateConfirming, StateConnecting}
                 then setState StateDisconnecting s1 else s1);
           s3 = stopCanary (ctl_emit DataTransferTelemetry s2);
           s4 = s3\<lparr>ct_handshakeTimer := False, ct_activationQueue := []\<rparr>;
           s5 = clearRetryCounter (clearConnectedTime s4)
       in (True, ctl_emit (ImplDeactivate (stateToReason (ct_state s5))) s5))"

definition account_reply ::
    "ctl_env \<Rightarrow> selection_policy \<Rightarrow> principal \<Rightarrow> controller \<Rightarrow> controller" where
  "account_reply env policy initiator s =
    (let s1 = (if initiator \<noteq> ExtensionUser then setState StateConnecting s else s)
     in activateInternal env DoNotForceDNSPort policy initiator (clearRetryCounter s1))"

definition accountRequestFailed ::
    "ctl_env \<Rightarrow> selection_policy \<Rightarrow> principal \<Rightarrow> controller \<Rightarrow> controller" where
  "accountRequestFailed env policy initiator s =
    (if \<not> ce_appMainOrOnboarding env then s else account_reply env policy initiator s)"

definition accountRequestCompleted ::
    "ctl_env \<Rightarrow> string \<Rightarrow> selection_policy \<Rightarrow> principal \<Rightarrow> controller \<Rightarrow> controller" where
  "accountRequestCompleted env data policy initiator s =
     account_reply env policy initiator (ctl_emit (AccountChecked data) s)"

definition activate ::
    "ctl_env \<Rightarrow> server_data \<Rightarrow> principal \<Rightarrow> selection_policy \<Rightarrow> controller \<Rightarrow> bool \<times> controller" where
  "activate env sd initiator policy s =
    (if ct_state s \<notin> {StateOff, StateOnPartial, StateSwitching, StateSilentSwitching} then (False, s)
     else
       let s1 = ctl_emit CurrentServerChanged
                  (s\<lparr>ct_isSwitchingServer := (ct_state s = StateSwitching \<or> ct_state s = StateSilentSwitching),
                     ct_serverData := assignServerData sd (ct_serverData s)\<rparr>)
       in if ct_state s1 = StateOff then
            if ct_portalDetected s1
            then (True, (ctl_emit ScreenCaptivePortal (ctl_emit ActivationBlockedForCaptivePortal s1))
                          \<lparr>ct_portalDetected := False\<rparr>)
            else if ce_checkConnectivity env \<and> \<not> ce_reachable env
            then (False, ctl_emit IsDeviceConnectedChanged (s1\<lparr>ct_isDeviceConnected := False\<rparr>))
            else
              let s2 = (if ce_checkConnectivity env \<and> \<not> ct_isDeviceConnected s1
                        then ctl_emit IsDeviceConnectedChanged (s1\<lparr>ct_isDeviceConnected := True\<rparr>) else s1)
              in (True, ctl_emit AccountRequest (s2\<lparr>ct_requests := ct_requests s2 @ [(policy, initiator)]\<rparr>))
          else
            let s2 = (if ce_platform env \<noteq> Ios \<and> initiator \<noteq> ExtensionUser
                      then setState StateConnecting s1 else s1)
            in (True, activateInternal env DoNotForceDNSPort policy initiator (clearRetryCounter s2)))"

section \<open>Handlers\<close>

definition stepPending :: "controller \<Rightarrow> bool" where
  "stepPending s = (ct_nextStep s = Quit \<or> ct_nextStep s = Disconnect \<or> ct_nextStep s = Update)"

definition handshakeTimeout :: "ctl_env \<Rightarrow> controller \<Rightarrow> controller" where
  "handshakeTimeout env s =
    (let s1 = s\<lparr>ct_latency := setCooldown (ce_lat env) (publicKey_of (hd (ct_activationQueue s)))
                   SERVER_UNRESPONSIVE_COOLDOWN_SEC (ct_latency s)\<rparr>
     in if stepPending s1 then snd (deactivate ClientUser s1)
        else
          let s2 = ctl_emit ConnectionRetryChanged (s1\<lparr>ct_connectionRetry := ct_connectionRetry s1 + 1\<rparr>)
          in if ct_connectionRetry s2 = 1
             then activateInternal env ForceDNSPort RandomizeServerSelection (ct_initiator s2) s2
             else if ct_connectionRetry s2 < CONNECTION_MAX_RETRY
             then activateInternal env DoNotForceDNSPort RandomizeServerSelection (ct_initiator s2) s2
             else serverUnavailable s2)"

definition quit :: "controller \<Rightarrow> controller" where
  "quit s =
    (if ct_state s = StateInitializing \<or> ct_state s = StateOff
     then ctl_emit ReadyToQuit (s\<lparr>ct_nextStep := Quit\<rparr>)
     else
       let s1 = s\<lparr>ct_nextStep := Quit\<rparr>
       in if ct_state s1 \<in> {StateOn, StateOnPartial, StateSwitching, StateSilentSwitching, StateConnecting}
          then snd (deactivate ClientUser s1) else s1)"

definition updateRequired :: "controller \<Rightarrow> controller" where
  "updateRequired s =
    (if ct_state s = StateOff then ctl_emit ReadyToUpdate s
     else
       let s1 = s\<lparr>ct_nextStep := Update\<rparr>
       in if ct_state s1 = StateOn \<or> ct_state s1 = StateOnPartial
          then snd (deactivate ClientUser s1) else s1)"

definition silentSwitchServers :: "ctl_env \<Rightarrow> cooldown_policy \<Rightarrow> controller \<Rightarrow> bool \<times> controller" where
  "silentSwitchServers env policy s =
    (if ct_state s \<noteq> StateOn then (False, s)
     else if policy = ServerCoolDownNeeded \<and>
             length (exitServers (now_sec (ce_lat env)) (ce_scm env) (ct_latency s) (ct_serverData s)) \<le> 1
     then (False, s)
     else
       let s1 = (if policy = ServerCoolDownNeeded
                 then s\<lparr>ct_latency := setCooldown (ce_lat env) (sd_exitServerPublicKey (ct_serverData s))
                          SERVER_UNRESPONSIVE_COOLDOWN_SEC (ct_latency s)\<rparr> else s);
           s2 = s1\<lparr>ct_isSwitchingServer := True,
                   ct_nextServerData := assignServerData (ct_serverData s1) (ct_nextServerData s1),
                   ct_nextServerSelectionPolicy :=
                     (if policy = ServerCoolDownNeeded then RandomizeServerSelection
                      else DoNotRandomizeServerSelection)\<rparr>;
           s3 = setState StateSilentSwitching (clearRetryCounter (clearConnectedTime s2))
       in (True, snd (deactivate ClientUser s3)))"

definition switchServers :: "server_data \<Rightarrow> controller \<Rightarrow> bool \<times> controller" where
  "switchServers sd s =
    (if ct_state s = StateOff then (False, s)
     else
       let s1 = s\<lparr>ct_isSwitchingServer := True, ct_nextServerData := assignServerData sd (ct_nextServerData s),
                  ct_nextServerSelectionPolicy := RandomizeServerSelection\<rparr>;
           s2 = setState StateSwitching (clearRetryCounter (clearConnectedTime s1))
       in (True, snd (deactivate ClientUser s2)))"

text \<open>The end of \<^verbatim>\<open>connected\<close>, once no hop is pending.\<close>

definition connected_all :: "ctl_env \<Rightarrow> controller \<Rightarrow> controller" where
  "connected_all env s =
    (let s1 = clearRetryCounter (stopCanary (s\<lparr>ct_handshakeTimer := False\<rparr>));
         s2 = (if ct_state s1 = StateOn \<or> ct_state s1 = StateOnPartial
               then s1\<lparr>ct_isSwitchingServer := True\<rparr> else s1);
         s3 = setState (if ct_initiator s2 = ExtensionUser then StateOnPartial else StateOn) s2;
         s4 = resetConnectedTime env s3;
         s5 = (if \<not> ct_isSwitchingServer s4 then ctl_emit ConnectionStartTelemetry s4 else s4)
     in if stepPending s5 then snd (deactivate ClientUser s5) else s5)"

definition connected :: "ctl_env \<Rightarrow> string \<Rightarrow> controller \<Rightarrow> controller" where
  "connected env pubkey s =
    (case ct_activationQueue s of
       [] \<Rightarrow> if sd_exitServerPublicKey (ct_serverData s) \<noteq> pubkey then s else connected_all env s
     | c # rest \<Rightarrow>
         if publicKey_of c \<noteq> pubkey then s
         else let s1 = s\<lparr>ct_activationQueue := rest\<rparr>
              in if rest \<noteq> [] then activateNext env s1 else connected_all env s1)"

definition disconnected :: "ctl_env \<Rightarrow> controller \<Rightarrow> controller" where
  "disconnected env s =
    (let s1 = (stopCanary s)\<lparr>ct_handshakeTimer := False, ct_activationQueue := []\<rparr>;
         s2 = clearRetryCounter (clearConnectedTime s1);
         nextStep = ct_nextStep s2;
         (done, s3) = processNextStep s2
     in if done then setState StateOff s3
        else if nextStep = NoStep \<and> (ct_state s3 = StateSilentSwitching \<or> ct_state s3 = StateSwitching)
        then snd (activate env (ct_nextServerData s3)
                   (if ct_state s3 = StateSilentSwitching then ct_initiator s3 else ClientUser)
                   (ct_nextServerSelectionPolicy s3) s3)
        else
          let s4 = (if ct_state s3 \<noteq> StateConfirming then ctl_emit ConnectionEndTelemetry s3 else s3)
          in setState StateOff (s4\<lparr>ct_initiator := NullPrincipal\<rparr>))"

definition canary_timer :: "ctl_env \<Rightarrow> controller \<Rightarrow> controller" where
  "canary_timer env s = s\<lparr>ct_pingCanary := nextPing (ce_now env) (ct_pingCanary s)\<rparr>"

text \<open>The canary's reply: the lambda connected in \<^verbatim>\<open>initialize\<close> runs when the ping helper emits.\<close>

definition canary_reply :: "ctl_env \<Rightarrow> 16 word \<Rightarrow> controller \<Rightarrow> controller" where
  "canary_reply env seq s =
    (let p = ph_pingReceived (ce_now env) seq (ct_pingCanary s)
     in if ph_out p = ph_out (ct_pingCanary s) then s\<lparr>ct_pingCanary := p\<rparr>
        else (stopCanary (s\<lparr>ct_pingCanary := p\<rparr>))\<lparr>ct_pingReceived := True\<rparr>)"

definition getStatus :: "nat \<Rightarrow> controller \<Rightarrow> controller" where
  "getStatus cb s =
    (let requestStatus = (ct_getStatusCallbacks s = []);
         s1 = s\<lparr>ct_getStatusCallbacks := ct_getStatusCallbacks s @ [cb]\<rparr>
     in if ct_impl s1 \<and> requestStatus then ctl_emit ImplCheckStatus s1 else s1)"

definition statusUpdated ::
    "string \<Rightarrow> string \<Rightarrow> 64 word \<Rightarrow> 64 word \<Rightarrow> controller \<Rightarrow> controller" where
  "statusUpdated gateway device txBytes rxBytes s =
     foldl (\<lambda>t cb. ctl_emit (StatusCallback cb gateway device txBytes rxBytes) t)
       (s\<lparr>ct_getStatusCallbacks := []\<rparr>) (ct_getStatusCallbacks s)"

definition captivePortalGone :: "controller \<Rightarrow> controller" where
  "captivePortalGone s = s\<lparr>ct_portalDetected := False\<rparr>"

definition captivePortalPresent :: "controller \<Rightarrow> controller" where
  "captivePortalPresent s = (if ct_portalDetected s then s else s\<lparr>ct_portalDetected := True\<rparr>)"

definition serverDataChanged :: "controller \<Rightarrow> controller" where
  "serverDataChanged s =
    (if ct_state s = StateOff then s else ctl_emit ScheduleSwitchTask (ctl_emit DeleteTasks s))"

definition serializeLogs :: "controller \<Rightarrow> controller" where
  "serializeLogs s = (if \<not> ct_impl s then ctl_emit (LogsCallback []) s else ctl_emit ImplGetBackendLogs s)"

definition cleanupBackendLogs :: "controller \<Rightarrow> controller" where
  "cleanupBackendLogs s = (if ct_impl s then ctl_emit ImplCleanupBackendLogs s else s)"

definition forceDaemonCrash :: "controller \<Rightarrow> controller" where
  "forceDaemonCrash s = (if ct_impl s then ctl_emit ImplForceDaemonCrash s else s)"

definition deleteOSTunnelConfig :: "controller \<Rightarrow> controller" where
  "deleteOSTunnelConfig s = (if ct_impl s then ctl_emit ImplDeleteOSTunnelConfig s else s)"

definition forceDaemonSilentServerSwitch :: "ctl_env \<Rightarrow> controller \<Rightarrow> controller" where
  "forceDaemonSilentServerSwitch env s =
    (if ce_platform env \<in> {Android, Ios} \<and> ct_impl s then ctl_emit ImplSilentServerSwitch s else s)"


section \<open>Events\<close>

datatype ctl_event =
    CInitialize server_data
  | CImplInitialized bool bool "int option"
  | CTimer
  | CConnectingTimer
  | CHandshakeTimeout
  | CStartHandshakeTimer
  | CQuit
  | CUpdateRequired
  | CActivate server_data principal selection_policy
  | CAccountFailed nat
  | CAccountCompleted nat string
  | CDeactivate principal
  | CSwitch server_data
  | CSilentSwitch cooldown_policy
  | CConnected string
  | CDisconnected
  | CCanaryTimer
  | CCanaryReply "16 word"
  | CGetStatus nat
  | CStatusUpdated string string "64 word" "64 word"
  | CPortalPresent
  | CPortalGone
  | CServerDataChanged
  | CSerializeLogs
  | CCleanupLogs
  | CForceCrash
  | CDeleteTunnelConfig
  | CForceSilentSwitch

definition take_request :: "nat \<Rightarrow> controller \<Rightarrow> controller" where
  "take_request i s = s\<lparr>ct_requests := take i (ct_requests s) @ drop (Suc i) (ct_requests s)\<rparr>"

fun ctl_step :: "controller \<Rightarrow> ctl_env \<times> ctl_event \<Rightarrow> controller" where
  "ctl_step s (env, CInitialize sd) = ctl_initialize sd s"
| "ctl_step s (env, CImplInitialized status conn date) = implInitialized env status conn date s"
| "ctl_step s (env, CTimer) = timerTimeout env s"
| "ctl_step s (env, CConnectingTimer) = connectingTimeout s"
| "ctl_step s (env, CHandshakeTimeout) = handshakeTimeout env (s\<lparr>ct_handshakeTimer := False\<rparr>)"
| "ctl_step s (env, CStartHandshakeTimer) = startHandshakeTimer s"
| "ctl_step s (env, CQuit) = quit s"
| "ctl_step s (env, CUpdateRequired) = updateRequired s"
| "ctl_step s (env, CActivate sd initiator policy) = snd (activate env sd initiator policy s)"
| "ctl_step s (env, CAccountFailed i) =
     accountRequestFailed env (fst (ct_requests s ! i)) (snd (ct_requests s ! i)) (take_request i s)"
| "ctl_step s (env, CAccountCompleted i data) =
     accountRequestCompleted env data (fst (ct_requests s ! i)) (snd (ct_requests s ! i)) (take_request i s)"
| "ctl_step s (env, CDeactivate user) = snd (deactivate user s)"
| "ctl_step s (env, CSwitch sd) = snd (switchServers sd s)"
| "ctl_step s (env, CSilentSwitch policy) = snd (silentSwitchServers env policy s)"
| "ctl_step s (env, CConnected pubkey) = connected env pubkey s"
| "ctl_step s (env, CDisconnected) = disconnected env s"
| "ctl_step s (env, CCanaryTimer) = canary_timer env s"
| "ctl_step s (env, CCanaryReply seq) = canary_reply env seq s"
| "ctl_step s (env, CGetStatus cb) = getStatus cb s"
| "ctl_step s (env, CStatusUpdated gw dev tx rx) = statusUpdated gw dev tx rx s"
| "ctl_step s (env, CPortalPresent) = captivePortalPresent s"
| "ctl_step s (env, CPortalGone) = captivePortalGone s"
| "ctl_step s (env, CServerDataChanged) = serverDataChanged s"
| "ctl_step s (env, CSerializeLogs) = serializeLogs s"
| "ctl_step s (env, CCleanupLogs) = cleanupBackendLogs s"
| "ctl_step s (env, CForceCrash) = forceDaemonCrash s"
| "ctl_step s (env, CDeleteTunnelConfig) = deleteOSTunnelConfig s"
| "ctl_step s (env, CForceSilentSwitch) = forceDaemonSilentServerSwitch env s"

text \<open>
  When an event can occur: a timer fires only while it runs, a reply answers a pending request, and
  \<^verbatim>\<open>initialize\<close> is called in the initial state only (\<^verbatim>\<open>mozillavpn.cpp\<close>, 141). Everything else, the
  signals of the platform controller included, can come at any time.
\<close>

fun ctl_guard :: "controller \<Rightarrow> ctl_env \<times> ctl_event \<Rightarrow> bool" where
  "ctl_guard s (env, CInitialize sd) = (ct_state s = StateInitializing)"
| "ctl_guard s (env, CTimer) = ct_timer s"
| "ctl_guard s (env, CConnectingTimer) = ct_connectingTimer s"
| "ctl_guard s (env, CHandshakeTimeout) = ct_handshakeTimer s"
| "ctl_guard s (env, CAccountFailed i) = (i < length (ct_requests s))"
| "ctl_guard s (env, CAccountCompleted i data) = (i < length (ct_requests s))"
| "ctl_guard s (env, e) = True"

text \<open>
  Two habits of the platform controllers on which assertions of the source rest and which nothing in
  the source enforces. A \<^emph>\<open>prompt\<close> platform restarts the handshake timer only while a hop is pending and
  retries are left: the desktop controllers never restart it, while the Android and iOS controllers
  do so whenever the request for the permission to use a VPN is answered, whatever became of the
  activation meanwhile (\<^verbatim>\<open>androidcontroller.cpp\<close>, 115; \<^verbatim>\<open>ioscontroller.mm\<close>, 207). A \<^emph>\<open>calm\<close> platform reports its
  initialisation only while no tunnel is up and no hop is pending: the local socket controller
  announces a disconnection before it connects to the daemon anew, but accepts an activation while
  it waits for the daemon's status.
\<close>

fun prompt_ok :: "controller \<Rightarrow> ctl_env \<times> ctl_event \<Rightarrow> bool" where
  "prompt_ok s (env, CStartHandshakeTimer) =
     (ct_activationQueue s \<noteq> [] \<and> ct_connectionRetry s < CONNECTION_MAX_RETRY)"
| "prompt_ok s (env, e) = True"

fun calm_ok :: "controller \<Rightarrow> ctl_env \<times> ctl_event \<Rightarrow> bool" where
  "calm_ok s (env, CImplInitialized status conn date) =
     (ct_state s \<notin> {StateOn, StateOnPartial} \<and> ct_activationQueue s = [])"
| "calm_ok s (env, e) = True"

definition prompt_guard :: "controller \<Rightarrow> ctl_env \<times> ctl_event \<Rightarrow> bool" where
  "prompt_guard s e = (ctl_guard s e \<and> prompt_ok s e)"

definition calm_guard :: "controller \<Rightarrow> ctl_env \<times> ctl_event \<Rightarrow> bool" where
  "calm_guard s e = (ctl_guard s e \<and> calm_ok s e)"

section \<open>Frames\<close>

lemma emit_frame [simp]:
  "ct_state (ctl_emit x s) = ct_state s"
  "ct_initiator (ctl_emit x s) = ct_initiator s"
  "ct_nextStep (ctl_emit x s) = ct_nextStep s"
  "ct_enableDisconnectInConfirming (ctl_emit x s) = ct_enableDisconnectInConfirming s"
  "ct_activationQueue (ctl_emit x s) = ct_activationQueue s"
  "ct_connectionRetry (ctl_emit x s) = ct_connectionRetry s"
  "ct_impl (ctl_emit x s) = ct_impl s"
  "ct_initializations (ctl_emit x s) = ct_initializations s"
  "ct_portalDetected (ctl_emit x s) = ct_portalDetected s"
  "ct_isDeviceConnected (ctl_emit x s) = ct_isDeviceConnected s"
  "ct_serverData (ctl_emit x s) = ct_serverData s"
  "ct_nextServerData (ctl_emit x s) = ct_nextServerData s"
  "ct_isSwitchingServer (ctl_emit x s) = ct_isSwitchingServer s"
  "ct_pingCanary (ctl_emit x s) = ct_pingCanary s"
  "ct_pingReceived (ctl_emit x s) = ct_pingReceived s"
  "ct_nextServerSelectionPolicy (ctl_emit x s) = ct_nextServerSelectionPolicy s"
  "ct_getStatusCallbacks (ctl_emit x s) = ct_getStatusCallbacks s"
  "ct_timer (ctl_emit x s) = ct_timer s"
  "ct_connectingTimer (ctl_emit x s) = ct_connectingTimer s"
  "ct_handshakeTimer (ctl_emit x s) = ct_handshakeTimer s"
  "ct_connectedTime (ctl_emit x s) = ct_connectedTime s"
  "ct_requests (ctl_emit x s) = ct_requests s"
  "ct_latency (ctl_emit x s) = ct_latency s"
  "ct_out (ctl_emit x s) = ct_out s @ [x]"
  by (simp_all add: ctl_emit_def)

lemma maybeEnable_frame [simp]:
  "ct_state (maybeEnableDisconnectInConfirming s) = ct_state s"
  "ct_initiator (maybeEnableDisconnectInConfirming s) = ct_initiator s"
  "ct_nextStep (maybeEnableDisconnectInConfirming s) = ct_nextStep s"
  "ct_activationQueue (maybeEnableDisconnectInConfirming s) = ct_activationQueue s"
  "ct_connectionRetry (maybeEnableDisconnectInConfirming s) = ct_connectionRetry s"
  "ct_impl (maybeEnableDisconnectInConfirming s) = ct_impl s"
  "ct_initializations (maybeEnableDisconnectInConfirming s) = ct_initializations s"
  "ct_portalDetected (maybeEnableDisconnectInConfirming s) = ct_portalDetected s"
  "ct_isDeviceConnected (maybeEnableDisconnectInConfirming s) = ct_isDeviceConnected s"
  "ct_serverData (maybeEnableDisconnectInConfirming s) = ct_serverData s"
  "ct_nextServerData (maybeEnableDisconnectInConfirming s) = ct_nextServerData s"
  "ct_isSwitchingServer (maybeEnableDisconnectInConfirming s) = ct_isSwitchingServer s"
  "ct_pingCanary (maybeEnableDisconnectInConfirming s) = ct_pingCanary s"
  "ct_pingReceived (maybeEnableDisconnectInConfirming s) = ct_pingReceived s"
  "ct_nextServerSelectionPolicy (maybeEnableDisconnectInConfirming s) = ct_nextServerSelectionPolicy s"
  "ct_getStatusCallbacks (maybeEnableDisconnectInConfirming s) = ct_getStatusCallbacks s"
  "ct_timer (maybeEnableDisconnectInConfirming s) = ct_timer s"
  "ct_handshakeTimer (maybeEnableDisconnectInConfirming s) = ct_handshakeTimer s"
  "ct_connectedTime (maybeEnableDisconnectInConfirming s) = ct_connectedTime s"
  "ct_requests (maybeEnableDisconnectInConfirming s) = ct_requests s"
  "ct_latency (maybeEnableDisconnectInConfirming s) = ct_latency s"
  by (simp_all add: maybeEnableDisconnectInConfirming_def)

lemma maybeEnable_pow_frame [simp]:
  "ct_state ((maybeEnableDisconnectInConfirming ^^ n) s) = ct_state s"
  "ct_initiator ((maybeEnableDisconnectInConfirming ^^ n) s) = ct_initiator s"
  "ct_nextStep ((maybeEnableDisconnectInConfirming ^^ n) s) = ct_nextStep s"
  "ct_activationQueue ((maybeEnableDisconnectInConfirming ^^ n) s) = ct_activationQueue s"
  "ct_connectionRetry ((maybeEnableDisconnectInConfirming ^^ n) s) = ct_connectionRetry s"
  "ct_impl ((maybeEnableDisconnectInConfirming ^^ n) s) = ct_impl s"
  "ct_initializations ((maybeEnableDisconnectInConfirming ^^ n) s) = ct_initializations s"
  "ct_portalDetected ((maybeEnableDisconnectInConfirming ^^ n) s) = ct_portalDetected s"
  "ct_isDeviceConnected ((maybeEnableDisconnectInConfirming ^^ n) s) = ct_isDeviceConnected s"
  "ct_serverData ((maybeEnableDisconnectInConfirming ^^ n) s) = ct_serverData s"
  "ct_nextServerData ((maybeEnableDisconnectInConfirming ^^ n) s) = ct_nextServerData s"
  "ct_isSwitchingServer ((maybeEnableDisconnectInConfirming ^^ n) s) = ct_isSwitchingServer s"
  "ct_pingCanary ((maybeEnableDisconnectInConfirming ^^ n) s) = ct_pingCanary s"
  "ct_pingReceived ((maybeEnableDisconnectInConfirming ^^ n) s) = ct_pingReceived s"
  "ct_nextServerSelectionPolicy ((maybeEnableDisconnectInConfirming ^^ n) s) = ct_nextServerSelectionPolicy s"
  "ct_getStatusCallbacks ((maybeEnableDisconnectInConfirming ^^ n) s) = ct_getStatusCallbacks s"
  "ct_timer ((maybeEnableDisconnectInConfirming ^^ n) s) = ct_timer s"
  "ct_handshakeTimer ((maybeEnableDisconnectInConfirming ^^ n) s) = ct_handshakeTimer s"
  "ct_connectedTime ((maybeEnableDisconnectInConfirming ^^ n) s) = ct_connectedTime s"
  "ct_requests ((maybeEnableDisconnectInConfirming ^^ n) s) = ct_requests s"
  "ct_latency ((maybeEnableDisconnectInConfirming ^^ n) s) = ct_latency s"
  by (induction n) simp_all

lemma setState_frame [simp]:
  "ct_initiator (setState st s) = ct_initiator s"
  "ct_nextStep (setState st s) = ct_nextStep s"
  "ct_activationQueue (setState st s) = ct_activationQueue s"
  "ct_connectionRetry (setState st s) = ct_connectionRetry s"
  "ct_impl (setState st s) = ct_impl s"
  "ct_initializations (setState st s) = ct_initializations s"
  "ct_portalDetected (setState st s) = ct_portalDetected s"
  "ct_isDeviceConnected (setState st s) = ct_isDeviceConnected s"
  "ct_serverData (setState st s) = ct_serverData s"
  "ct_nextServerData (setState st s) = ct_nextServerData s"
  "ct_isSwitchingServer (setState st s) = ct_isSwitchingServer s"
  "ct_pingCanary (setState st s) = ct_pingCanary s"
  "ct_pingReceived (setState st s) = ct_pingReceived s"
  "ct_nextServerSelectionPolicy (setState st s) = ct_nextServerSelectionPolicy s"
  "ct_getStatusCallbacks (setState st s) = ct_getStatusCallbacks s"
  "ct_timer (setState st s) = ct_timer s"
  "ct_handshakeTimer (setState st s) = ct_handshakeTimer s"
  "ct_connectedTime (setState st s) = ct_connectedTime s"
  "ct_requests (setState st s) = ct_requests s"
  "ct_latency (setState st s) = ct_latency s"
  "ct_state (setState st s) = st"
  by (simp_all add: setState_def)

lemma clearConnectedTime_frame [simp]:
  "ct_state (clearConnectedTime s) = ct_state s"
  "ct_initiator (clearConnectedTime s) = ct_initiator s"
  "ct_nextStep (clearConnectedTime s) = ct_nextStep s"
  "ct_enableDisconnectInConfirming (clearConnectedTime s) = ct_enableDisconnectInConfirming s"
  "ct_activationQueue (clearConnectedTime s) = ct_activationQueue s"
  "ct_connectionRetry (clearConnectedTime s) = ct_connectionRetry s"
  "ct_impl (clearConnectedTime s) = ct_impl s"
  "ct_initializations (clearConnectedTime s) = ct_initializations s"
  "ct_portalDetected (clearConnectedTime s) = ct_portalDetected s"
  "ct_isDeviceConnected (clearConnectedTime s) = ct_isDeviceConnected s"
  "ct_serverData (clearConnectedTime s) = ct_serverData s"
  "ct_nextServerData (clearConnectedTime s) = ct_nextServerData s"
  "ct_isSwitchingServer (clearConnectedTime s) = ct_isSwitchingServer s"
  "ct_pingCanary (clearConnectedTime s) = ct_pingCanary s"
  "ct_pingReceived (clearConnectedTime s) = ct_pingReceived s"
  "ct_nextServerSelectionPolicy (clearConnectedTime s) = ct_nextServerSelectionPolicy s"
  "ct_getStatusCallbacks (clearConnectedTime s) = ct_getStatusCallbacks s"
  "ct_connectingTimer (clearConnectedTime s) = ct_connectingTimer s"
  "ct_handshakeTimer (clearConnectedTime s) = ct_handshakeTimer s"
  "ct_requests (clearConnectedTime s) = ct_requests s"
  "ct_latency (clearConnectedTime s) = ct_latency s"
  "\<not> ct_timer (clearConnectedTime s)"
  "ct_connectedTime (clearConnectedTime s) = (if ct_isSwitchingServer s then ct_connectedTime s else None)"
  by (simp_all add: clearConnectedTime_def Let_def)

lemma resetConnectedTime_frame [simp]:
  "ct_state (resetConnectedTime env s) = ct_state s"
  "ct_initiator (resetConnectedTime env s) = ct_initiator s"
  "ct_nextStep (resetConnectedTime env s) = ct_nextStep s"
  "ct_enableDisconnectInConfirming (resetConnectedTime env s) = ct_enableDisconnectInConfirming s"
  "ct_activationQueue (resetConnectedTime env s) = ct_activationQueue s"
  "ct_connectionRetry (resetConnectedTime env s) = ct_connectionRetry s"
  "ct_impl (resetConnectedTime env s) = ct_impl s"
  "ct_initializations (resetConnectedTime env s) = ct_initializations s"
  "ct_portalDetected (resetConnectedTime env s) = ct_portalDetected s"
  "ct_isDeviceConnected (resetConnectedTime env s) = ct_isDeviceConnected s"
  "ct_serverData (resetConnectedTime env s) = ct_serverData s"
  "ct_nextServerData (resetConnectedTime env s) = ct_nextServerData s"
  "ct_isSwitchingServer (resetConnectedTime env s) = ct_isSwitchingServer s"
  "ct_pingCanary (resetConnectedTime env s) = ct_pingCanary s"
  "ct_pingReceived (resetConnectedTime env s) = ct_pingReceived s"
  "ct_nextServerSelectionPolicy (resetConnectedTime env s) = ct_nextServerSelectionPolicy s"
  "ct_getStatusCallbacks (resetConnectedTime env s) = ct_getStatusCallbacks s"
  "ct_connectingTimer (resetConnectedTime env s) = ct_connectingTimer s"
  "ct_handshakeTimer (resetConnectedTime env s) = ct_handshakeTimer s"
  "ct_requests (resetConnectedTime env s) = ct_requests s"
  "ct_latency (resetConnectedTime env s) = ct_latency s"
  "ct_timer (resetConnectedTime env s)"
  "ct_connectedTime (resetConnectedTime env s) =
     (if ct_isSwitchingServer s then ct_connectedTime s else Some (ce_now env))"
  by (simp_all add: resetConnectedTime_def Let_def)

lemma clearRetryCounter_frame [simp]:
  "ct_state (clearRetryCounter s) = ct_state s"
  "ct_initiator (clearRetryCounter s) = ct_initiator s"
  "ct_nextStep (clearRetryCounter s) = ct_nextStep s"
  "ct_enableDisconnectInConfirming (clearRetryCounter s) = ct_enableDisconnectInConfirming s"
  "ct_activationQueue (clearRetryCounter s) = ct_activationQueue s"
  "ct_impl (clearRetryCounter s) = ct_impl s"
  "ct_initializations (clearRetryCounter s) = ct_initializations s"
  "ct_portalDetected (clearRetryCounter s) = ct_portalDetected s"
  "ct_isDeviceConnected (clearRetryCounter s) = ct_isDeviceConnected s"
  "ct_serverData (clearRetryCounter s) = ct_serverData s"
  "ct_nextServerData (clearRetryCounter s) = ct_nextServerData s"
  "ct_isSwitchingServer (clearRetryCounter s) = ct_isSwitchingServer s"
  "ct_pingCanary (clearRetryCounter s) = ct_pingCanary s"
  "ct_pingReceived (clearRetryCounter s) = ct_pingReceived s"
  "ct_nextServerSelectionPolicy (clearRetryCounter s) = ct_nextServerSelectionPolicy s"
  "ct_getStatusCallbacks (clearRetryCounter s) = ct_getStatusCallbacks s"
  "ct_timer (clearRetryCounter s) = ct_timer s"
  "ct_connectingTimer (clearRetryCounter s) = ct_connectingTimer s"
  "ct_handshakeTimer (clearRetryCounter s) = ct_handshakeTimer s"
  "ct_connectedTime (clearRetryCounter s) = ct_connectedTime s"
  "ct_requests (clearRetryCounter s) = ct_requests s"
  "ct_latency (clearRetryCounter s) = ct_latency s"
  "ct_connectionRetry (clearRetryCounter s) = 0"
  by (simp_all add: clearRetryCounter_def)

lemma stopCanary_frame [simp]:
  "ct_state (stopCanary s) = ct_state s"
  "ct_initiator (stopCanary s) = ct_initiator s"
  "ct_nextStep (stopCanary s) = ct_nextStep s"
  "ct_enableDisconnectInConfirming (stopCanary s) = ct_enableDisconnectInConfirming s"
  "ct_activationQueue (stopCanary s) = ct_activationQueue s"
  "ct_connectionRetry (stopCanary s) = ct_connectionRetry s"
  "ct_impl (stopCanary s) = ct_impl s"
  "ct_initializations (stopCanary s) = ct_initializations s"
  "ct_portalDetected (stopCanary s) = ct_portalDetected s"
  "ct_isDeviceConnected (stopCanary s) = ct_isDeviceConnected s"
  "ct_serverData (stopCanary s) = ct_serverData s"
  "ct_nextServerData (stopCanary s) = ct_nextServerData s"
  "ct_isSwitchingServer (stopCanary s) = ct_isSwitchingServer s"
  "ct_pingReceived (stopCanary s) = ct_pingReceived s"
  "ct_nextServerSelectionPolicy (stopCanary s) = ct_nextServerSelectionPolicy s"
  "ct_getStatusCallbacks (stopCanary s) = ct_getStatusCallbacks s"
  "ct_timer (stopCanary s) = ct_timer s"
  "ct_connectingTimer (stopCanary s) = ct_connectingTimer s"
  "ct_handshakeTimer (stopCanary s) = ct_handshakeTimer s"
  "ct_connectedTime (stopCanary s) = ct_connectedTime s"
  "ct_requests (stopCanary s) = ct_requests s"
  "ct_latency (stopCanary s) = ct_latency s"
  "ct_out (stopCanary s) = ct_out s"
  by (simp_all add: stopCanary_def)

lemma startHandshakeTimer_frame [simp]:
  "ct_state (startHandshakeTimer s) = ct_state s"
  "ct_initiator (startHandshakeTimer s) = ct_initiator s"
  "ct_nextStep (startHandshakeTimer s) = ct_nextStep s"
  "ct_enableDisconnectInConfirming (startHandshakeTimer s) = ct_enableDisconnectInConfirming s"
  "ct_activationQueue (startHandshakeTimer s) = ct_activationQueue s"
  "ct_connectionRetry (startHandshakeTimer s) = ct_connectionRetry s"
  "ct_impl (startHandshakeTimer s) = ct_impl s"
  "ct_initializations (startHandshakeTimer s) = ct_initializations s"
  "ct_portalDetected (startHandshakeTimer s) = ct_portalDetected s"
  "ct_isDeviceConnected (startHandshakeTimer s) = ct_isDeviceConnected s"
  "ct_serverData (startHandshakeTimer s) = ct_serverData s"
  "ct_nextServerData (startHandshakeTimer s) = ct_nextServerData s"
  "ct_isSwitchingServer (startHandshakeTimer s) = ct_isSwitchingServer s"
  "ct_pingCanary (startHandshakeTimer s) = ct_pingCanary s"
  "ct_pingReceived (startHandshakeTimer s) = ct_pingReceived s"
  "ct_nextServerSelectionPolicy (startHandshakeTimer s) = ct_nextServerSelectionPolicy s"
  "ct_getStatusCallbacks (startHandshakeTimer s) = ct_getStatusCallbacks s"
  "ct_timer (startHandshakeTimer s) = ct_timer s"
  "ct_connectingTimer (startHandshakeTimer s) = ct_connectingTimer s"
  "ct_connectedTime (startHandshakeTimer s) = ct_connectedTime s"
  "ct_requests (startHandshakeTimer s) = ct_requests s"
  "ct_latency (startHandshakeTimer s) = ct_latency s"
  "ct_out (startHandshakeTimer s) = ct_out s"
  "ct_handshakeTimer (startHandshakeTimer s)"
  by (simp_all add: startHandshakeTimer_def)

lemma serverUnavailable_frame [simp]:
  "ct_state (serverUnavailable s) = ct_state s"
  "ct_initiator (serverUnavailable s) = ct_initiator s"
  "ct_nextStep (serverUnavailable s) = ct_nextStep s"
  "ct_enableDisconnectInConfirming (serverUnavailable s) = ct_enableDisconnectInConfirming s"
  "ct_activationQueue (serverUnavailable s) = ct_activationQueue s"
  "ct_connectionRetry (serverUnavailable s) = ct_connectionRetry s"
  "ct_impl (serverUnavailable s) = ct_impl s"
  "ct_initializations (serverUnavailable s) = ct_initializations s"
  "ct_portalDetected (serverUnavailable s) = ct_portalDetected s"
  "ct_isDeviceConnected (serverUnavailable s) = ct_isDeviceConnected s"
  "ct_serverData (serverUnavailable s) = ct_serverData s"
  "ct_nextServerData (serverUnavailable s) = ct_nextServerData s"
  "ct_isSwitchingServer (serverUnavailable s) = ct_isSwitchingServer s"
  "ct_pingCanary (serverUnavailable s) = ct_pingCanary s"
  "ct_pingReceived (serverUnavailable s) = ct_pingReceived s"
  "ct_nextServerSelectionPolicy (serverUnavailable s) = ct_nextServerSelectionPolicy s"
  "ct_getStatusCallbacks (serverUnavailable s) = ct_getStatusCallbacks s"
  "ct_timer (serverUnavailable s) = ct_timer s"
  "ct_connectingTimer (serverUnavailable s) = ct_connectingTimer s"
  "ct_handshakeTimer (serverUnavailable s) = ct_handshakeTimer s"
  "ct_connectedTime (serverUnavailable s) = ct_connectedTime s"
  "ct_requests (serverUnavailable s) = ct_requests s"
  "ct_latency (serverUnavailable s) = ct_latency s"
  by (simp_all add: serverUnavailable_def)

lemma processNextStep_frame [simp]:
  "ct_state (snd (processNextStep s)) = ct_state s"
  "ct_initiator (snd (processNextStep s)) = ct_initiator s"
  "ct_enableDisconnectInConfirming (snd (processNextStep s)) = ct_enableDisconnectInConfirming s"
  "ct_activationQueue (snd (processNextStep s)) = ct_activationQueue s"
  "ct_connectionRetry (snd (processNextStep s)) = ct_connectionRetry s"
  "ct_impl (snd (processNextStep s)) = ct_impl s"
  "ct_initializations (snd (processNextStep s)) = ct_initializations s"
  "ct_portalDetected (snd (processNextStep s)) = ct_portalDetected s"
  "ct_isDeviceConnected (snd (processNextStep s)) = ct_isDeviceConnected s"
  "ct_serverData (snd (processNextStep s)) = ct_serverData s"
  "ct_nextServerData (snd (processNextStep s)) = ct_nextServerData s"
  "ct_isSwitchingServer (snd (processNextStep s)) = ct_isSwitchingServer s"
  "ct_pingCanary (snd (processNextStep s)) = ct_pingCanary s"
  "ct_pingReceived (snd (processNextStep s)) = ct_pingReceived s"
  "ct_nextServerSelectionPolicy (snd (processNextStep s)) = ct_nextServerSelectionPolicy s"
  "ct_getStatusCallbacks (snd (processNextStep s)) = ct_getStatusCallbacks s"
  "ct_timer (snd (processNextStep s)) = ct_timer s"
  "ct_connectingTimer (snd (processNextStep s)) = ct_connectingTimer s"
  "ct_handshakeTimer (snd (processNextStep s)) = ct_handshakeTimer s"
  "ct_connectedTime (snd (processNextStep s)) = ct_connectedTime s"
  "ct_requests (snd (processNextStep s)) = ct_requests s"
  "ct_latency (snd (processNextStep s)) = ct_latency s"
  "ct_nextStep (snd (processNextStep s)) = NoStep"
  "fst (processNextStep s) = (ct_nextStep s = Quit \<or> ct_nextStep s = Update)"
  by (simp_all add: processNextStep_def Let_def)


section \<open>Invariant\<close>

text \<open>The queue of hops: at most an entry followed by the exit; only the first can be an entry.\<close>

definition hops_ok :: "interface_config list \<Rightarrow> bool" where
  "hops_ok q \<longleftrightarrow> q = [] \<or>
     length q \<le> 2 \<and> ic_hopType (last q) \<noteq> MultiHopEntry \<and>
     list_all (\<lambda>c. ic_hopType c = MultiHopEntry) (butlast q)"

text \<open>
  The invariant: \<open>h\<close> adds what holds of prompt platforms (the handshake timer waits for a hop, the
  retries are bounded), \<open>b\<close> what holds of calm ones (the connection timer runs only with the tunnel
  up).
\<close>

definition ctl_inv :: "bool \<Rightarrow> bool \<Rightarrow> controller \<Rightarrow> bool" where
  "ctl_inv h b s \<longleftrightarrow>
     hops_ok (ct_activationQueue s) \<and> 0 \<le> ct_connectionRetry s \<and>
     (b \<longrightarrow> ct_timer s \<longrightarrow>
        (ct_state s = StateOn \<or> ct_state s = StateOnPartial) \<and> ct_activationQueue s = []) \<and>
     (h \<longrightarrow> (ct_handshakeTimer s \<longrightarrow> ct_activationQueue s \<noteq> []) \<and>
        ct_connectionRetry s \<le> 10 \<and>
        ct_connectionRetry s + int (length (ct_activationQueue s)) \<le> 11 \<and>
        (ct_handshakeTimer s \<longrightarrow> ct_connectionRetry s + int (length (ct_activationQueue s)) \<le> 10))"

lemma hops_ok_Nil [simp]: "hops_ok []"
  by (simp add: hops_ok_def)

lemma hops_ok_length: "hops_ok q \<Longrightarrow> length q \<le> 2"
  by (auto simp: hops_ok_def)

lemma hops_ok_tl: "hops_ok (c # q) \<Longrightarrow> hops_ok q"
  by (cases q) (auto simp: hops_ok_def)

lemma hop_queue_ok:
  "hop_queue env dnsPort policy s device exitServer cfg = QReady q \<Longrightarrow> q \<noteq> [] \<and> hops_ok q"
  by (auto simp: hop_queue_def hops_ok_def entry_config_def emptyConfig_def split: if_splits option.splits)

lemma build_queue_ok: "build_queue env dnsPort policy initiator s = QReady q \<Longrightarrow> q \<noteq> [] \<and> hops_ok q"
  by (auto simp: build_queue_def split: if_splits option.splits dest: hop_queue_ok)

lemma build_queue_device: "build_queue env dnsPort policy initiator s = QReady q \<Longrightarrow> ce_device env \<noteq> None"
  by (auto simp: build_queue_def split: if_splits option.splits)

lemma load_queue_frame [simp]:
  "ct_state (load_queue env q s) = ct_state s"
  "ct_initiator (load_queue env q s) = ct_initiator s"
  "ct_nextStep (load_queue env q s) = ct_nextStep s"
  "ct_activationQueue (load_queue env q s) = q"
  "ct_connectionRetry (load_queue env q s) = ct_connectionRetry s"
  "ct_timer (load_queue env q s) = ct_timer s"
  "ct_handshakeTimer (load_queue env q s) = ct_handshakeTimer s"
  "ct_initializations (load_queue env q s) = ct_initializations s"
  "ct_isSwitchingServer (load_queue env q s) = ct_isSwitchingServer s"
  "ct_connectedTime (load_queue env q s) = ct_connectedTime s"
  "ct_latency (load_queue env q s) = ct_latency s"
  "ct_portalDetected (load_queue env q s) = ct_portalDetected s"
  "ct_out (load_queue env q s) = ct_out s"
  by (simp_all add: load_queue_def)

lemma activateNext_frame [simp]:
  "ct_activationQueue (activateNext env s) = ct_activationQueue s"
  "ct_connectionRetry (activateNext env s) = ct_connectionRetry s"
  "ct_timer (activateNext env s) = ct_timer s"
  "ct_initiator (activateNext env s) = ct_initiator s"
  "ct_nextStep (activateNext env s) = ct_nextStep s"
  "ct_serverData (activateNext env s) = ct_serverData s"
  "ct_isSwitchingServer (activateNext env s) = ct_isSwitchingServer s"
  "ct_connectedTime (activateNext env s) = ct_connectedTime s"
  "ct_latency (activateNext env s) = ct_latency s"
  "ct_initializations (activateNext env s) = ct_initializations s"
  by (simp_all add: activateNext_def Let_def)

lemma activateNext_inv:
  assumes "ct_activationQueue s \<noteq> []" "hops_ok (ct_activationQueue s)" "b \<Longrightarrow> \<not> ct_timer s"
    and "0 \<le> ct_connectionRetry s" "h \<Longrightarrow> ct_connectionRetry s + int (length (ct_activationQueue s)) \<le> 10"
  shows "ctl_inv h b (activateNext env s)"
  using assms by (cases h; simp add: ctl_inv_def)

lemma activateInternal_inv:
  assumes "0 \<le> ct_connectionRetry s" "h \<Longrightarrow> ct_connectionRetry s \<le> 8"
  shows "ctl_inv h b (activateInternal env dnsPort policy initiator s)"
proof -
  let ?s = "(clearConnectedTime (s\<lparr>ct_initiator := initiator\<rparr>))\<lparr>ct_handshakeTimer := False, ct_activationQueue := []\<rparr>"
  have "ctl_inv h b (activateNext env (load_queue env q ?s))" if "build_queue env dnsPort policy initiator ?s = QReady q" for q
    using build_queue_ok [OF that] hops_ok_length [of q] assms by (intro activateNext_inv) auto
  then show ?thesis using assms
    by (auto simp: activateInternal_def Let_def ctl_inv_def split: queue_result.splits)
qed

lemma deactivate_inv [intro]: "ctl_inv h b s \<Longrightarrow> ctl_inv h b (snd (deactivate user s))"
  by (auto simp: deactivate_def Let_def ctl_inv_def)

lemma deactivate_inv_weak:
  "hops_ok (ct_activationQueue s) \<Longrightarrow> ct_state s \<in> {StateOn, StateOnPartial, StateSwitching, StateSilentSwitching} \<Longrightarrow>
     ctl_inv h b (snd (deactivate ClientUser s))"
  by (auto simp: deactivate_def Let_def ctl_inv_def)

lemma setState_inv: "ctl_inv h b s \<Longrightarrow> \<not> ct_timer s \<Longrightarrow> ctl_inv h b (setState st s)"
  by (simp add: ctl_inv_def)

lemma account_reply_inv: "ctl_inv h b (account_reply env policy initiator s)"
  by (simp add: account_reply_def Let_def activateInternal_inv)

lemma activate_inv [intro]: "ctl_inv h b s \<Longrightarrow> ctl_inv h b (snd (activate env sd initiator policy s))"
proof -
  assume inv: "ctl_inv h b s"
  consider "ct_state s = StateOff" | "ct_state s \<in> {StateOnPartial, StateSwitching, StateSilentSwitching}"
    | "ct_state s \<notin> {StateOff, StateOnPartial, StateSwitching, StateSilentSwitching}" by blast
  then show ?thesis
  proof cases
    case 1
    then show ?thesis using inv by (auto simp: activate_def Let_def ctl_inv_def)
  next
    case 2
    then show ?thesis by (auto simp: activate_def Let_def intro!: activateInternal_inv)
  next
    case 3
    then show ?thesis using inv by (simp add: activate_def)
  qed
qed

lemma handshakeTimeout_inv:
  assumes "ctl_inv h b s" "ct_handshakeTimer s"
  shows "ctl_inv h b (handshakeTimeout env (s\<lparr>ct_handshakeTimer := False\<rparr>))"
proof -
  define s1 where "s1 = s\<lparr>ct_handshakeTimer := False,
    ct_latency := setCooldown (ce_lat env) (publicKey_of (hd (ct_activationQueue s)))
                   SERVER_UNRESPONSIVE_COOLDOWN_SEC (ct_latency s)\<rparr>"
  define s2 where "s2 = ctl_emit ConnectionRetryChanged (s1\<lparr>ct_connectionRetry := ct_connectionRetry s1 + 1\<rparr>)"
  have eq: "handshakeTimeout env (s\<lparr>ct_handshakeTimer := False\<rparr>) =
    (if stepPending s1 then snd (deactivate ClientUser s1)
     else if ct_connectionRetry s2 = 1
     then activateInternal env ForceDNSPort RandomizeServerSelection (ct_initiator s2) s2
     else if ct_connectionRetry s2 < CONNECTION_MAX_RETRY
     then activateInternal env DoNotForceDNSPort RandomizeServerSelection (ct_initiator s2) s2
     else serverUnavailable s2)"
    by (simp add: handshakeTimeout_def s2_def s1_def Let_def)
  have i1: "ctl_inv h b s1" using assms by (simp add: ctl_inv_def s1_def)
  have q: "0 \<le> ct_connectionRetry s" "hops_ok (ct_activationQueue s)"
    "h \<Longrightarrow> 1 \<le> int (length (ct_activationQueue s)) \<and>
       ct_connectionRetry s + int (length (ct_activationQueue s)) \<le> 10"
    using assms by (cases "ct_activationQueue s"; simp add: ctl_inv_def)+
  have r: "ct_connectionRetry s2 = ct_connectionRetry s + 1" by (simp add: s2_def s1_def)
  have i2: "ctl_inv h b s2" using assms q by (cases h; simp add: ctl_inv_def s2_def s1_def)
  have i3: "ctl_inv h b (serverUnavailable s2)" using i2 by (simp add: ctl_inv_def)
  have i4: "ctl_inv h b (activateInternal env p RandomizeServerSelection (ct_initiator s2) s2)"
    if "h \<Longrightarrow> ct_connectionRetry s2 \<le> 8" for p
    using that q(1) r by (intro activateInternal_inv) auto
  show ?thesis unfolding eq using i1 i3 i4 by (auto simp: CONNECTION_MAX_RETRY_def)
qed

lemma connected_all_inv: "hops_ok (ct_activationQueue s) \<Longrightarrow> ct_activationQueue s = [] \<Longrightarrow> ctl_inv h b (connected_all env s)"
  by (auto simp: connected_all_def Let_def intro!: deactivate_inv, auto simp: ctl_inv_def)

lemma connected_inv [intro]: "ctl_inv h b s \<Longrightarrow> ctl_inv h b (connected env pubkey s)"
proof -
  assume inv: "ctl_inv h b s"
  show ?thesis
  proof (cases "ct_activationQueue s")
    case Nil
    then show ?thesis using inv connected_all_inv [where s = s and env = env] by (simp add: connected_def)
  next
    case (Cons c rest)
    then have rest: "hops_ok rest" using inv hops_ok_tl by (auto simp: ctl_inv_def)
    have step: "ctl_inv h b (activateNext env (s\<lparr>ct_activationQueue := rest\<rparr>))" if "rest \<noteq> []"
      using inv Cons rest that by (intro activateNext_inv) (auto simp: ctl_inv_def)
    have all: "ctl_inv h b (connected_all env (s\<lparr>ct_activationQueue := []\<rparr>))"
      by (rule connected_all_inv) simp_all
    show ?thesis using Cons inv step all by (auto simp: connected_def Let_def)
  qed
qed

lemma disconnected_inv [intro]: "ctl_inv h b (disconnected env s)"
  by (auto simp: disconnected_def Let_def case_prod_beta intro!: activate_inv, auto simp: ctl_inv_def)

lemma switchServers_inv [intro]: "ctl_inv h b s \<Longrightarrow> ctl_inv h b (snd (switchServers sd s))"
  by (auto simp: switchServers_def Let_def intro!: deactivate_inv_weak, auto simp: ctl_inv_def)

lemma silentSwitchServers_inv [intro]: "ctl_inv h b s \<Longrightarrow> ctl_inv h b (snd (silentSwitchServers env policy s))"
  by (auto simp: silentSwitchServers_def Let_def intro!: deactivate_inv_weak, auto simp: ctl_inv_def)

lemma quit_inv [intro]: "ctl_inv h b s \<Longrightarrow> ctl_inv h b (quit s)"
  by (auto simp: quit_def Let_def intro!: deactivate_inv, auto simp: ctl_inv_def)

lemma updateRequired_inv [intro]: "ctl_inv h b s \<Longrightarrow> ctl_inv h b (updateRequired s)"
  by (auto simp: updateRequired_def Let_def intro!: deactivate_inv, auto simp: ctl_inv_def)

lemma statusUpdated_frame [simp]:
  "ct_state (foldl (\<lambda>t cb. ctl_emit (f cb) t) s cbs) = ct_state s"
  "ct_timer (foldl (\<lambda>t cb. ctl_emit (f cb) t) s cbs) = ct_timer s"
  "ct_handshakeTimer (foldl (\<lambda>t cb. ctl_emit (f cb) t) s cbs) = ct_handshakeTimer s"
  "ct_activationQueue (foldl (\<lambda>t cb. ctl_emit (f cb) t) s cbs) = ct_activationQueue s"
  "ct_connectionRetry (foldl (\<lambda>t cb. ctl_emit (f cb) t) s cbs) = ct_connectionRetry s"
  by (induction cbs arbitrary: s) simp_all

text \<open>The handlers that touch none of the fields the invariant speaks of.\<close>

lemma quiet_inv:
  assumes "ctl_inv h b s"
  shows "ctl_inv h b (timerTimeout env s)" "ctl_inv h b (connectingTimeout s)" "ctl_inv h b (canary_timer env s)"
    "ctl_inv h b (canary_reply env seq s)" "ctl_inv h b (getStatus cb s)" "ctl_inv h b (statusUpdated gw dev tx rx s)"
    "ctl_inv h b (captivePortalPresent s)" "ctl_inv h b (captivePortalGone s)" "ctl_inv h b (serverDataChanged s)"
    "ctl_inv h b (serializeLogs s)" "ctl_inv h b (cleanupBackendLogs s)" "ctl_inv h b (forceDaemonCrash s)"
    "ctl_inv h b (deleteOSTunnelConfig s)" "ctl_inv h b (forceDaemonSilentServerSwitch env s)" "ctl_inv h b (take_request i s)"
  using assms
  by (auto simp add: ctl_inv_def timerTimeout_def connectingTimeout_def canary_timer_def canary_reply_def Let_def
      getStatus_def statusUpdated_def captivePortalPresent_def captivePortalGone_def serverDataChanged_def
      serializeLogs_def cleanupBackendLogs_def forceDaemonCrash_def deleteOSTunnelConfig_def
      forceDaemonSilentServerSwitch_def take_request_def)

lemma implInitialized_inv:
  "ctl_inv h b s \<Longrightarrow> (b \<Longrightarrow> calm_ok s (env, CImplInitialized status conn date)) \<Longrightarrow> ctl_inv h b (implInitialized env status conn date s)"
  by (auto simp: implInitialized_def Let_def case_prod_beta ctl_inv_def)

lemma ctl_initialize_inv: "ctl_inv h b s \<Longrightarrow> ct_state s = StateInitializing \<Longrightarrow> ctl_inv h b (ctl_initialize sd s)"
  by (auto simp: ctl_initialize_def Let_def ctl_inv_def)

lemma startHandshakeTimer_inv:
  "ctl_inv h b s \<Longrightarrow> (h \<Longrightarrow> prompt_ok s (env, CStartHandshakeTimer)) \<Longrightarrow> ctl_inv h b (startHandshakeTimer s)"
  using hops_ok_length [of "ct_activationQueue s"] by (auto simp: ctl_inv_def CONNECTION_MAX_RETRY_def)

lemma account_inv:
  "ctl_inv h b s \<Longrightarrow> ctl_inv h b (accountRequestFailed env policy initiator (take_request i s))"
  "ctl_inv h b (accountRequestCompleted env data policy initiator s)"
  by (simp_all add: accountRequestFailed_def accountRequestCompleted_def account_reply_inv quiet_inv)

lemma ctl_step_inv:
  assumes inv: "ctl_inv h b s" and guard: "ctl_guard s e"
    and prompt: "h \<Longrightarrow> prompt_ok s e" and calm: "b \<Longrightarrow> calm_ok s e"
  shows "ctl_inv h b (ctl_step s e)"
proof -
  obtain env ev where e: "e = (env, ev)" by force
  show ?thesis using assms unfolding e
    by (cases ev) (simp_all add: quiet_inv account_inv handshakeTimeout_inv implInitialized_inv ctl_initialize_inv
        startHandshakeTimer_inv activate_inv deactivate_inv connected_inv disconnected_inv switchServers_inv
        silentSwitchServers_inv quit_inv updateRequired_inv)
qed

lemma emptyController_inv: "\<exists>c. s = emptyController c \<Longrightarrow> ctl_inv h b s"
  by (auto simp: ctl_inv_def emptyController_def)

text \<open>Every run, the runs of a prompt platform and the runs of a calm one.\<close>

interpretation ctl: transition_system "\<lambda>s. \<exists>c. s = emptyController c" ctl_step ctl_guard "ctl_inv False False"
  by unfold_locales (rule emptyController_inv, assumption, rule ctl_step_inv, simp_all)

interpretation prompt: transition_system "\<lambda>s. \<exists>c. s = emptyController c" ctl_step prompt_guard "ctl_inv True False"
  by unfold_locales (rule emptyController_inv, assumption, rule ctl_step_inv, simp_all add: prompt_guard_def)

interpretation calm: transition_system "\<lambda>s. \<exists>c. s = emptyController c" ctl_step calm_guard "ctl_inv False True"
  by unfold_locales (rule emptyController_inv, assumption, rule ctl_step_inv, simp_all add: calm_guard_def)

lemma prompt_is_run: "prompt.reach s \<Longrightarrow> ctl.reach s"
  by (induction rule: prompt.reach.induct) (auto simp: prompt_guard_def intro: ctl.reach_init ctl.reach_step)

lemma calm_is_run: "calm.reach s \<Longrightarrow> ctl.reach s"
  by (induction rule: calm.reach.induct) (auto simp: calm_guard_def intro: ctl.reach_init ctl.reach_step)

end
