(* ===== verification/ControllerProperties.thy ===== *)
theory ControllerProperties
  imports Controller
begin

text \<open>
  Properties of the controller: its assertions hold in every reachable state, an activation
  configures exactly the hops it should, retries avoid the servers that failed and end, a switch
  keeps the session, a pending quit completes, and what the extension may and may not do.
\<close>

section \<open>A sample installation\<close>

text \<open>One city with two servers, a device, the daemon of a desktop platform.\<close>

definition demo_server :: "string \<Rightarrow> server" where
  "demo_server k = emptyServer\<lparr>m_hostname := ''h-'' @ k, m_publicKey := k, m_weight := 1,
     m_countryCode := ''se'', m_cityName := ''Malmo''\<rparr>"

definition demo_scm :: "string list \<Rightarrow> server_country_model" where
  "demo_scm ks = emptyModel\<lparr>m_servers := map (\<lambda>k. (k, demo_server k)) ks,
     m_cities := [(hashKey ''se'' ''Malmo'', emptyCity\<lparr>c_country := ''se'', c_name := ''Malmo'', c_servers := ks\<rparr>)]\<rparr>"

definition demo_data :: server_data where
  "demo_data = emptyServerData\<lparr>sd_exitCountryCode := ''se'', sd_exitCityName := ''Malmo''\<rparr>"

definition demo_env :: "string list \<Rightarrow> int \<Rightarrow> ctl_env" where
  "demo_env ks now =
    \<lparr>ce_lat = \<lparr>le_now = now, le_scm = demo_scm ks, le_location = emptyLocation, le_scoreSupported = False,
       le_stateOff = False, le_icmpValid = True, le_ios = False, le_appActive = True\<rparr>,
     ce_platform = Linux, ce_device = Some (''10.0.0.2'', ''fc00::2''), ce_privateKey = ''key'',
     ce_rndExit = 1, ce_rndExitPort = 0, ce_rndEntry = 1, ce_rndEntryPort = 0,
     ce_dns = (\<lambda>gw. \<lparr>dns_ipAddress = gw, dns_type = ''Default''\<rparr>),
     ce_parseHost = (\<lambda>_. IPv4 0), ce_parseSubnet = (\<lambda>_. (IPv4 0, 0)),
     ce_splitTunnel = False, ce_vpnDisabledApps = [], ce_alwaysPort53 = False, ce_multiHop = False,
     ce_multihopSupported = True, ce_checkConnectivity = False, ce_reachable = True,
     ce_appMainOrOnboarding = True, ce_icmpValid = True, ce_dnsValid = True, ce_appActive = True\<rparr>"

text \<open>A run: initialisation, activation by the user, the reply of the account service.\<close>

definition demo_step :: "string list \<Rightarrow> controller \<Rightarrow> ctl_event \<Rightarrow> controller" where
  "demo_step ks s e = ctl_step s (demo_env ks 1000, e)"

definition demo_state :: "string list \<Rightarrow> controller" where
  "demo_state ks = foldl (demo_step ks) (emptyController False)
     [CInitialize demo_data, CImplInitialized True False None,
      CActivate demo_data ClientUser RandomizeServerSelection, CAccountCompleted 0 []]"

text \<open>A run whose events are all admitted by a guard stays in its reachable states.\<close>

fun admitted :: "(controller \<Rightarrow> ctl_env \<times> ctl_event \<Rightarrow> bool) \<Rightarrow> ctl_env \<Rightarrow> controller \<Rightarrow> ctl_event list \<Rightarrow> bool" where
  "admitted g env s [] = True"
| "admitted g env s (e # es) = (g s (env, e) \<and> admitted g env (ctl_step s (env, e)) es)"

definition ctl_run :: "ctl_env \<Rightarrow> controller \<Rightarrow> ctl_event list \<Rightarrow> controller" where
  "ctl_run env s es = foldl (\<lambda>t e. ctl_step t (env, e)) s es"

lemma run_reach:
  "admitted ctl_guard env s es \<Longrightarrow> ctl.reach s \<Longrightarrow> ctl.reach (ctl_run env s es)"
  "admitted prompt_guard env s es \<Longrightarrow> prompt.reach s \<Longrightarrow> prompt.reach (ctl_run env s es)"
  "admitted calm_guard env s es \<Longrightarrow> calm.reach s \<Longrightarrow> calm.reach (ctl_run env s es)"
  by (induction es arbitrary: s) (auto simp: ctl_run_def intro: ctl.reach_step prompt.reach_step calm.reach_step)

lemma demo_state_run: "demo_state ks = ctl_run (demo_env ks 1000) (emptyController False)
    [CInitialize demo_data, CImplInitialized True False None,
     CActivate demo_data ClientUser RandomizeServerSelection, CAccountCompleted 0 []]"
  by (simp add: demo_state_def ctl_run_def demo_step_def)

lemma demo_reach: "prompt.reach (demo_state [''a'', ''b''])" "calm.reach (demo_state [''a'', ''b''])"
  unfolding demo_state_run by (rule run_reach, code_simp, intro prompt.reach_init calm.reach_init exI, rule refl)+

section \<open>Reachable states\<close>

text \<open>
  C1: In every reachable state of the controller, whatever the platform controller reports and when,
  at most two hops are pending, all but the last of them are entry hops, the last never is one, and
  the retry counter is not negative.  In the runs of a platform that restarts the handshake timer
  only while a hop is pending and retries are left (the desktop platforms never restart it), the
  handshake timer runs only while a hop is pending, as \<^verbatim>\<open>handshakeTimeout\<close> asserts, and the retry
  counter stays at most 10 (9, and one more when an entry hop answers after the last retry).  In the
  runs of a platform that reports its initialisation only while no tunnel is up and no hop is
  pending, the connection timer runs only in the states On and OnPartial, as \<^verbatim>\<open>timerTimeout\<close> asserts.
\<close>

theorem controller_reachable:
  assumes "ctl.reach s"
  shows "length (ct_activationQueue s) \<le> 2 \<and>
    list_all (\<lambda>c. ic_hopType c = MultiHopEntry) (butlast (ct_activationQueue s)) \<and>
    (ct_activationQueue s \<noteq> [] \<longrightarrow> ic_hopType (last (ct_activationQueue s)) \<noteq> MultiHopEntry) \<and>
    0 \<le> ct_connectionRetry s \<and>
    (prompt.reach s \<longrightarrow>
       (ct_handshakeTimer s \<longrightarrow> ct_activationQueue s \<noteq> []) \<and> ct_connectionRetry s \<le> 10) \<and>
    (calm.reach s \<longrightarrow> ct_timer s \<longrightarrow>
       (ct_state s = StateOn \<or> ct_state s = StateOnPartial) \<and> ct_activationQueue s = [])"
  using ctl.reach_inv [OF assms] prompt.reach_inv [of s] calm.reach_inv [of s]
  by (auto simp: ctl_inv_def hops_ok_def)

theorem controller_reachable_witness:
  "let s = demo_state [''a'', ''b''] in ct_handshakeTimer s \<and> ct_activationQueue s \<noteq> [] \<and>
     ic_hopType (last (ct_activationQueue s)) \<noteq> MultiHopEntry \<and> length (ct_activationQueue s) \<le> 2 \<and>
     ct_connectionRetry s \<le> 10 \<and> \<not> ct_timer s"
proof -
  have "ct_handshakeTimer (demo_state [''a'', ''b''])" by code_simp
  then show ?thesis
    using controller_reachable [OF prompt_is_run [OF demo_reach(1)]] demo_reach by (auto simp: Let_def)
qed

text \<open>
  Both restrictions are needed.  On Android the user may disconnect while the system still asks for
  the permission to use a VPN: the late answer restarts the handshake timer with no hop pending, and
  its timeout asserts that there is one.
\<close>

definition android_env :: ctl_env where
  "android_env = (demo_env [''a'', ''b''] 1000)\<lparr>ce_platform := Android\<rparr>"

lemma late_permission_reply:
  "\<exists>s. ctl.reach s \<and> ct_handshakeTimer s \<and> ct_activationQueue s = []"
proof (intro exI conjI)
  let ?es = "[CInitialize demo_data, CImplInitialized True False None,
     CActivate demo_data ClientUser RandomizeServerSelection, CAccountCompleted 0 [],
     CDeactivate ClientUser, CStartHandshakeTimer]"
  let ?s = "ctl_run android_env (emptyController False) ?es"
  show "ctl.reach ?s" by (rule run_reach, code_simp, intro ctl.reach_init exI, rule refl)
  show "ct_handshakeTimer ?s" "ct_activationQueue ?s = []" by code_simp+
qed

text \<open>
  A status of the daemon that arrives between the handshakes of two hops starts the connection timer
  while the controller is still confirming.
\<close>

definition twohop_env :: ctl_env where
  "twohop_env = (demo_env [''a'', ''b''] 1000)\<lparr>ce_multiHop := True, ce_rndEntry := 2\<rparr>"

definition twohop_data :: server_data where
  "twohop_data = demo_data\<lparr>sd_entryCountryCode := ''se'', sd_entryCityName := ''Malmo''\<rparr>"

lemma stale_initialization:
  "\<exists>s. ctl.reach s \<and> ct_timer s \<and> ct_state s = StateConfirming"
proof (intro exI conjI)
  let ?es = "[CInitialize twohop_data, CImplInitialized True False None,
     CActivate twohop_data ClientUser RandomizeServerSelection, CAccountCompleted 0 [],
     CImplInitialized True True None, CConnected ''b'']"
  let ?s = "ctl_run twohop_env (emptyController False) ?es"
  show "ctl.reach ?s" by (rule run_reach, code_simp, intro ctl.reach_init exI, rule refl)
  show "ct_timer ?s" "ct_state ?s = StateConfirming" by code_simp+
qed

section \<open>Activation\<close>

lemma weight_loop_member: "weight_loop r ss \<in> set ss \<or> weight_loop r ss = emptyServer"
  by (induction ss arbitrary: r) auto

lemma emptyServer_uninit [simp]: "\<not> server_initialized emptyServer"
  by (simp add: server_initialized_def emptyServer_def)

lemma weightChooser_member:
  "weightChooser rnd ss = Some x \<Longrightarrow> server_initialized x \<Longrightarrow> x \<in> set ss"
  using weight_loop_member [of "rnd mod (weightSum ss + 1)" ss] by (auto simp: weightChooser_def split: if_splits)

lemma getServerList_active:
  assumes "servers_filed scm" "x \<in> set (getServerList now scm sl cc cn)"
  shows "getCooldown sl (m_publicKey x) \<le> now"
proof -
  from assms(2) obtain pk where x: "x = scm_server scm pk" "server_initialized x" "getCooldown sl pk \<le> now"
    by (auto simp: getServerList_def Let_def split: if_splits)
  then have "map_of (m_servers scm) pk = Some x"
    by (auto simp: scm_server_def split: option.splits)
  then show ?thesis using assms(1) x(3) by (simp add: servers_filed_def)
qed

lemma entryServers_active:
  "servers_filed scm \<Longrightarrow> x \<in> set (entryServers now scm sl d) \<Longrightarrow> getCooldown sl (m_publicKey x) \<le> now"
  "servers_filed scm \<Longrightarrow> x \<in> set (exitServers now scm sl d) \<Longrightarrow> getCooldown sl (m_publicKey x) \<le> now"
  by (auto simp: entryServers_def exitServers_def dest: getServerList_active split: if_splits)

lemma pick_random_active:
  assumes "servers_filed (ce_scm env)" "server_initialized x"
  shows "pick_exit env RandomizeServerSelection s = Some x \<Longrightarrow>
      getCooldown (ct_latency s) (m_publicKey x) \<le> now_sec (ce_lat env)"
    and "pick_entry env RandomizeServerSelection s = Some x \<Longrightarrow>
      getCooldown (ct_latency s) (m_publicKey x) \<le> now_sec (ce_lat env)"
  using assms entryServers_active [OF assms(1)]
  by (auto simp: pick_exit_def pick_entry_def pick_server_def dest!: weightChooser_member)

lemma publicKey_of_configs [simp]:
  "publicKey_of (exit_config env i dev x port) = m_publicKey x"
  "publicKey_of (entry_config env dev x y prt) = m_publicKey y"
  "publicKey_of (c\<lparr>ic_hopType := h\<rparr>) = publicKey_of c"
  "publicKey_of (c\<lparr>ic_serverPort := n\<rparr>) = publicKey_of c"
  "publicKey_of (c\<lparr>ic_serverIpv4AddrIn := a\<rparr>) = publicKey_of c"
  "publicKey_of (c\<lparr>ic_serverIpv6AddrIn := a\<rparr>) = publicKey_of c"
  by (simp_all add: publicKey_of_def exit_config_def entry_config_def qchars_def)

lemma hop_queue_keys:
  assumes "hop_queue env dnsPort policy s dev x cfg = QReady q" "c \<in> set q"
  shows "publicKey_of c = publicKey_of cfg \<or>
    (\<exists>y. pick_entry env policy s = Some y \<and> server_initialized y \<and> publicKey_of c = m_publicKey y)"
  using assms by (auto simp: hop_queue_def split: if_splits option.splits)

text \<open>A randomised activation only uses servers that are not in cooldown.\<close>

lemma build_queue_active:
  assumes "build_queue env dnsPort RandomizeServerSelection initiator s = QReady q"
    and "servers_filed (ce_scm env)" "c \<in> set q"
  shows "getCooldown (ct_latency s) (publicKey_of c) \<le> now_sec (ce_lat env)"
proof -
  from assms(1) obtain x dev port dp where
    x: "pick_exit env RandomizeServerSelection s = Some x" "server_initialized x"
    and q: "hop_queue env dp RandomizeServerSelection s dev x (exit_config env initiator dev x port) = QReady q"
    by (auto simp: build_queue_def split: option.splits if_splits)
  from hop_queue_keys [OF q assms(3)] show ?thesis
    using pick_random_active [OF assms(2)] x by auto
qed

lemma hop_queue_cong:
  "ct_serverData s = ct_serverData s' \<Longrightarrow> ct_latency s = ct_latency s' \<Longrightarrow>
     hop_queue env dnsPort policy s = hop_queue env dnsPort policy s'"
  by (intro ext) (simp add: hop_queue_def pick_entry_def)

lemma build_queue_cong:
  assumes "ct_serverData s = ct_serverData s'" "ct_latency s = ct_latency s'"
  shows "build_queue env dnsPort policy initiator s = build_queue env dnsPort policy initiator s'"
proof -
  have "pick_exit env policy s = pick_exit env policy s'" using assms by (simp add: pick_exit_def)
  moreover have "hop_queue env dp policy s = hop_queue env dp policy s'" for dp
    using assms by (rule hop_queue_cong)
  ultimately show ?thesis unfolding build_queue_def by presburger
qed

text \<open>The state in which \<^const>\<open>activateInternal\<close> prepares the queue.\<close>

definition cleared :: "principal \<Rightarrow> controller \<Rightarrow> controller" where
  "cleared initiator s =
     (clearConnectedTime (s\<lparr>ct_initiator := initiator\<rparr>))\<lparr>ct_handshakeTimer := False, ct_activationQueue := []\<rparr>"

lemma cleared_frame [simp]:
  "ct_serverData (cleared i s) = ct_serverData s" "ct_latency (cleared i s) = ct_latency s"
  "ct_state (cleared i s) = ct_state s" "ct_initiator (cleared i s) = i"
  "ct_connectionRetry (cleared i s) = ct_connectionRetry s" "ct_nextStep (cleared i s) = ct_nextStep s"
  "ct_isSwitchingServer (cleared i s) = ct_isSwitchingServer s"
  "ct_connectedTime (cleared i s) = (if ct_isSwitchingServer s then ct_connectedTime s else None)"
  "ct_pingReceived (cleared i s) = ct_pingReceived s"
  "ct_activationQueue (cleared i s) = []" "\<not> ct_handshakeTimer (cleared i s)" "\<not> ct_timer (cleared i s)"
  "ct_out (cleared i s) = ct_out s @ (if ct_isSwitchingServer s then [] else [TimeChanged])"
  by (simp_all add: cleared_def) (simp add: clearConnectedTime_def Let_def)

lemma activateInternal_cases:
  "activateInternal env dnsPort policy initiator s =
    (case build_queue env dnsPort policy initiator s of
       QUnavailable \<Rightarrow> serverUnavailable (cleared initiator s)
     | QNoDevice \<Rightarrow> (cleared initiator s)\<lparr>ct_nextStep := Disconnect\<rparr>
     | QUndefined \<Rightarrow> ctl_emit UndefinedRandom (cleared initiator s)
     | QReady q \<Rightarrow> activateNext env (load_queue env q (cleared initiator s)))"
  unfolding activateInternal_def Let_def cleared_def [symmetric]
  by (subst build_queue_cong [of "cleared initiator s" s]) simp_all

lemma activateInternal_queue:
  "ct_activationQueue (activateInternal env dnsPort policy initiator s) =
    (case build_queue env dnsPort policy initiator s of QReady q \<Rightarrow> q | _ \<Rightarrow> [])"
  by (simp add: activateInternal_cases split: queue_result.splits)

lemma activateInternal_retry:
  "ct_connectionRetry (activateInternal env dnsPort policy initiator s) = ct_connectionRetry s"
  by (simp add: activateInternal_cases split: queue_result.splits)

section \<open>Retries\<close>

definition timed_out :: "ctl_env \<Rightarrow> controller \<Rightarrow> controller" where
  "timed_out env s = ctl_emit ConnectionRetryChanged
    (s\<lparr>ct_latency := setCooldown (ce_lat env) (publicKey_of (hd (ct_activationQueue s)))
         SERVER_UNRESPONSIVE_COOLDOWN_SEC (ct_latency s),
       ct_connectionRetry := ct_connectionRetry s + 1\<rparr>)"

lemma timed_out_frame [simp]:
  "ct_state (timed_out env s) = ct_state s" "ct_initiator (timed_out env s) = ct_initiator s"
  "ct_nextStep (timed_out env s) = ct_nextStep s" "ct_serverData (timed_out env s) = ct_serverData s"
  "ct_connectionRetry (timed_out env s) = ct_connectionRetry s + 1"
  "ct_activationQueue (timed_out env s) = ct_activationQueue s"
  "ct_handshakeTimer (timed_out env s) = ct_handshakeTimer s"
  "ct_pingReceived (timed_out env s) = ct_pingReceived s"
  "ct_out (timed_out env s) = ct_out s @ [ConnectionRetryChanged]"
  "getCooldown (ct_latency (timed_out env s)) k =
     (if k = publicKey_of (hd (ct_activationQueue s)) then now_sec (ce_lat env) + 300
      else getCooldown (ct_latency s) k)"
  by (simp_all add: timed_out_def getCooldown_setCooldown SERVER_UNRESPONSIVE_COOLDOWN_SEC_def)

lemma handshakeTimeout_cases:
  "\<not> stepPending s \<Longrightarrow> handshakeTimeout env s =
    (if ct_connectionRetry s = 0
     then activateInternal env ForceDNSPort RandomizeServerSelection (ct_initiator s) (timed_out env s)
     else if ct_connectionRetry s < 8
     then activateInternal env DoNotForceDNSPort RandomizeServerSelection (ct_initiator s) (timed_out env s)
     else serverUnavailable (timed_out env s))"
  unfolding handshakeTimeout_def Let_def stepPending_def timed_out_def CONNECTION_MAX_RETRY_def by simp

text \<open>
  C4: When a handshake times out and retries are left, the unresponsive server is put in cooldown
  and every server of the next attempt, entry and exit, is one that is not in cooldown: no retry
  uses the server that just failed, nor one that failed in the last 300 seconds.
\<close>

theorem retry_avoids_failed_server:
  assumes "servers_filed (ce_scm env)" "ct_activationQueue s \<noteq> []" "\<not> stepPending s"
    and "ct_connectionRetry s < CONNECTION_MAX_RETRY - 1"
    and "c \<in> set (ct_activationQueue (handshakeTimeout env s))"
  shows "getCooldown (ct_latency s) (publicKey_of c) \<le> now_sec (ce_lat env) \<and>
    publicKey_of c \<noteq> publicKey_of (hd (ct_activationQueue s))"
proof -
  let ?dp = "if ct_connectionRetry s = 0 then ForceDNSPort else DoNotForceDNSPort"
  have "handshakeTimeout env s =
      activateInternal env ?dp RandomizeServerSelection (ct_initiator s) (timed_out env s)"
    using handshakeTimeout_cases [OF assms(3), of env] assms(4) by (simp add: CONNECTION_MAX_RETRY_def)
  then obtain q where "build_queue env ?dp RandomizeServerSelection (ct_initiator s) (timed_out env s) = QReady q"
      "c \<in> set q"
    using assms(5) by (cases "build_queue env ?dp RandomizeServerSelection (ct_initiator s) (timed_out env s)")
      (simp_all add: activateInternal_queue)
  from build_queue_active [OF this(1) assms(1) this(2)] show ?thesis by (simp split: if_splits)
qed


theorem retry_avoids_failed_server_witness:
  "let s = demo_state [''a'', ''b'']; env = demo_env [''a'', ''b''] 1000;
       c = hd (ct_activationQueue (handshakeTimeout env s))
   in publicKey_of c \<noteq> publicKey_of (hd (ct_activationQueue s)) \<and> publicKey_of c = ''b''"
proof -
  let ?s = "demo_state [''a'', ''b'']" and ?env = "demo_env [''a'', ''b''] 1000"
  have "servers_filed (ce_scm ?env)"
    by (simp add: servers_filed_def demo_env_def demo_scm_def emptyModel_def demo_server_def)
  moreover have "ct_activationQueue ?s \<noteq> []" "\<not> stepPending ?s" "ct_connectionRetry ?s < CONNECTION_MAX_RETRY - 1"
    by code_simp+
  moreover have "ct_activationQueue (handshakeTimeout ?env ?s) \<noteq> []" by code_simp
  ultimately have "publicKey_of (hd (ct_activationQueue (handshakeTimeout ?env ?s))) \<noteq>
      publicKey_of (hd (ct_activationQueue ?s))"
    using retry_avoids_failed_server [of ?env ?s "hd (ct_activationQueue (handshakeTimeout ?env ?s))"] by simp
  moreover have "publicKey_of (hd (ct_activationQueue (handshakeTimeout ?env ?s))) = ''b''" by code_simp
  ultimately show ?thesis by (simp add: Let_def)
qed


text \<open>The handshake timer fires: it is single shot, so the handler runs with the timer stopped.\<close>

definition handshake_fires :: "controller \<Rightarrow> ctl_env \<Rightarrow> controller" where
  "handshake_fires s env = ctl_step s (env, CHandshakeTimeout)"

definition desktop_ready :: "ctl_env \<Rightarrow> bool" where
  "desktop_ready env \<longleftrightarrow> ce_platform env \<in> {Linux, Flatpak, Windows, MacOS} \<and> ce_device env \<noteq> None"

definition gave_up :: "controller \<Rightarrow> bool" where
  "gave_up s \<longleftrightarrow> \<not> ct_handshakeTimer s \<and>
     (\<exists>b. last (ct_out s) = ReadyToServerUnavailable b \<or> last (ct_out s) = UndefinedRandom)"

lemma activateNext_starts_timer:
  "desktop_ready env \<Longrightarrow> ct_handshakeTimer (activateNext env s)"
  by (auto simp: desktop_ready_def activateNext_def Let_def)

lemma activateInternal_ends:
  assumes "desktop_ready env"
  shows "ct_handshakeTimer (activateInternal env dp policy i s) \<or> gave_up (activateInternal env dp policy i s)"
    and "ct_nextStep (activateInternal env dp policy i s) = ct_nextStep s"
proof -
  have "build_queue env dp policy i s \<noteq> QNoDevice"
    using assms by (auto simp: build_queue_def hop_queue_def desktop_ready_def split: option.splits)
  then show "ct_handshakeTimer (activateInternal env dp policy i s) \<or> gave_up (activateInternal env dp policy i s)"
    and "ct_nextStep (activateInternal env dp policy i s) = ct_nextStep s"
    using activateNext_starts_timer [OF assms]
    by (auto simp: activateInternal_cases gave_up_def serverUnavailable_def split: queue_result.splits)
qed

lemma handshake_fires_cases:
  assumes "desktop_ready env" "\<not> stepPending s"
  shows "ct_handshakeTimer (handshake_fires s env) \<or> gave_up (handshake_fires s env)"
    and "\<not> stepPending (handshake_fires s env)"
    and "ct_connectionRetry (handshake_fires s env) = ct_connectionRetry s + 1"
proof -
  have np: "\<not> stepPending (s\<lparr>ct_handshakeTimer := False\<rparr>)" using assms(2) by (simp add: stepPending_def)
  note cs = handshakeTimeout_cases [OF np, of env]
  show "ct_handshakeTimer (handshake_fires s env) \<or> gave_up (handshake_fires s env)"
    using activateInternal_ends(1) [OF assms(1)]
    by (auto simp: handshake_fires_def cs gave_up_def serverUnavailable_def)
  show "\<not> stepPending (handshake_fires s env)"
    using assms(2) by (simp add: handshake_fires_def cs stepPending_def activateInternal_ends(2) [OF assms(1)])
  show "ct_connectionRetry (handshake_fires s env) = ct_connectionRetry s + 1"
    by (simp add: handshake_fires_def cs activateInternal_retry)
qed

lemma retries_bounded:
  assumes "ctl_inv True False s" "ct_handshakeTimer s" "\<not> stepPending s" "list_all desktop_ready envs"
    and "10 \<le> ct_connectionRetry s + int (length envs)"
  shows "\<exists>n \<le> length envs. gave_up (foldl handshake_fires s (take n envs))"
  using assms
proof (induction envs arbitrary: s)
  case Nil
  from Nil.prems(1,2) have "0 < int (length (ct_activationQueue s))"
      "ct_connectionRetry s + int (length (ct_activationQueue s)) \<le> 10"
    by (simp_all add: ctl_inv_def)
  with Nil.prems(5) show ?case by simp
next
  case (Cons env envs)
  let ?t = "handshake_fires s env"
  from Cons.prems have ready: "desktop_ready env" by simp
  note fires = handshake_fires_cases [OF ready Cons.prems(3)]
  have "ctl_inv True False ?t" unfolding handshake_fires_def by (rule ctl_step_inv) (use Cons.prems in simp_all)
  then have "\<exists>n \<le> length envs. gave_up (foldl handshake_fires ?t (take n envs))" if "ct_handshakeTimer ?t"
    using that Cons.prems fires by (intro Cons.IH) auto
  then show ?case using fires(1) by (metis foldl_Cons foldl_Nil length_Cons Suc_le_mono take_Suc_Cons take_0 le0)
qed

text \<open>
  C3: Retries end.  In any run whose platform restarts the handshake timer only while a hop is
  pending and retries are left, and however servers answer, if handshakes keep timing out, the controller stops
  retrying after at most ten timeouts and reports the location as unavailable (or has drawn a
  random number from an empty range, which only weights summing to $2^{32} - 1$ or empty port
  ranges can cause); it never retries for ever.
\<close>

theorem retries_end:
  assumes "prompt.reach s" "ct_handshakeTimer s" "\<not> stepPending s"
    and "list_all desktop_ready envs" "10 \<le> length envs"
  shows "\<exists>n \<le> length envs. gave_up (foldl handshake_fires s (take n envs))"
proof -
  have "ctl_inv True False s" using assms(1) by (rule prompt.reach_inv)
  moreover from this have "10 \<le> ct_connectionRetry s + int (length envs)" using assms(5) by (simp add: ctl_inv_def)
  ultimately show ?thesis using assms by (intro retries_bounded) simp_all
qed

theorem retries_end_witness:
  "\<exists>n \<le> length (replicate 10 (demo_env [''a'', ''b''] 1000)).
     gave_up (foldl handshake_fires (demo_state [''a'', ''b'']) (take n (replicate 10 (demo_env [''a'', ''b''] 1000))))"
proof (rule retries_end [OF demo_reach(1)])
  show "ct_handshakeTimer (demo_state [''a'', ''b''])" "\<not> stepPending (demo_state [''a'', ''b''])" by code_simp+
  show "list_all desktop_ready (replicate 10 (demo_env [''a'', ''b''] 1000))"
    by (simp add: list_all_iff desktop_ready_def demo_env_def)
qed simp


section \<open>Sessions\<close>

text \<open>How often the start of a session was recorded.\<close>

definition session_starts :: "controller \<Rightarrow> nat" where
  "session_starts s = length (filter (\<lambda>x. x = ConnectionStartTelemetry) (ct_out s))"

lemma starts_emit [simp]:
  "session_starts (ctl_emit x s) = session_starts s + (if x = ConnectionStartTelemetry then 1 else 0)"
  by (simp add: session_starts_def)

lemma starts_cong: "ct_out s = ct_out s' \<Longrightarrow> session_starts s = session_starts s'"
  by (simp add: session_starts_def)

lemma starts_update [simp]:
  "session_starts (s\<lparr>ct_state := st\<rparr>) = session_starts s"
  "session_starts (s\<lparr>ct_activationQueue := q\<rparr>) = session_starts s"
  "session_starts (s\<lparr>ct_handshakeTimer := b\<rparr>) = session_starts s"
  "session_starts (s\<lparr>ct_nextStep := ns\<rparr>) = session_starts s"
  "session_starts (s\<lparr>ct_initiator := i\<rparr>) = session_starts s"
  "session_starts (s\<lparr>ct_isSwitchingServer := b\<rparr>) = session_starts s"
  "session_starts (s\<lparr>ct_nextServerData := d\<rparr>) = session_starts s"
  "session_starts (s\<lparr>ct_serverData := d\<rparr>) = session_starts s"
  "session_starts (s\<lparr>ct_nextServerSelectionPolicy := p\<rparr>) = session_starts s"
  "session_starts (s\<lparr>ct_portalDetected := b\<rparr>) = session_starts s"
  "session_starts (stopCanary s) = session_starts s"
  "session_starts (startHandshakeTimer s) = session_starts s"
  "session_starts (load_queue env q s) = session_starts s"
  by (simp_all add: session_starts_def)

lemma starts_maybeEnable [simp]: "session_starts (maybeEnableDisconnectInConfirming s) = session_starts s"
  by (simp add: session_starts_def maybeEnableDisconnectInConfirming_def)

lemma starts_ops [simp]:
  "session_starts (setState st s) = session_starts s"
  "session_starts (clearConnectedTime s) = session_starts s"
  "session_starts (resetConnectedTime env s) = session_starts s"
  "session_starts (clearRetryCounter s) = session_starts s"
  "session_starts (serverUnavailable s) = session_starts s"
  "session_starts (activateNext env s) = session_starts s"
  "session_starts (cleared i s) = session_starts s"
  "session_starts (snd (processNextStep s)) = session_starts s"
proof -
  have pow: "session_starts ((maybeEnableDisconnectInConfirming ^^ n) t) = session_starts t" for n t
    by (induction n) simp_all
  show st: "session_starts (setState st s) = session_starts s" for st s by (simp add: setState_def pow)
  show "session_starts (clearConnectedTime s) = session_starts s"
    by (simp add: session_starts_def clearConnectedTime_def Let_def)
  show "session_starts (resetConnectedTime env s) = session_starts s"
    by (simp add: session_starts_def resetConnectedTime_def Let_def)
  show "session_starts (clearRetryCounter s) = session_starts s" by (simp add: session_starts_def clearRetryCounter_def)
  show "session_starts (serverUnavailable s) = session_starts s" by (simp add: serverUnavailable_def)
  show "session_starts (activateNext env s) = session_starts s" by (simp add: activateNext_def Let_def st)
  show "session_starts (cleared i s) = session_starts s" by (simp add: session_starts_def)
  show "session_starts (snd (processNextStep s)) = session_starts s"
    by (simp add: processNextStep_def Let_def session_starts_def)
qed

lemma starts_activateInternal [simp]: "session_starts (activateInternal env dp p i s) = session_starts s"
  by (simp add: activateInternal_cases split: queue_result.splits)

lemma starts_deactivate [simp]: "session_starts (snd (deactivate u s)) = session_starts s"
  by (simp add: deactivate_def Let_def)

text \<open>An activation that got as far as a queue of hops.\<close>

lemma activateInternal_ready:
  assumes "ct_activationQueue (activateInternal env dp policy i s) \<noteq> []"
  defines "t \<equiv> activateInternal env dp policy i s"
  shows "ct_initiator t = i" "ct_nextStep t = ct_nextStep s" "ct_isSwitchingServer t = ct_isSwitchingServer s"
    and "ct_connectedTime t = (if ct_isSwitchingServer s then ct_connectedTime s else None)"
    and "ct_state t = (if i = ExtensionUser \<or> ct_state s = StateSilentSwitching then ct_state s else StateConfirming)"
    and "sd_exitCountryCode (ct_serverData t) = sd_exitCountryCode (ct_serverData s)"
    and "sd_exitCityName (ct_serverData t) = sd_exitCityName (ct_serverData s)"
    and "sd_exitServerPublicKey (ct_serverData t) = publicKey_of (last (ct_activationQueue t))"
    and "build_queue env dp policy i s = QReady (ct_activationQueue t)"
proof -
  from assms(1) obtain q where q: "build_queue env dp policy i s = QReady q"
    by (cases "build_queue env dp policy i s") (simp_all add: activateInternal_queue)
  have t: "t = activateNext env (load_queue env q (cleared i s))" by (simp add: t_def activateInternal_cases q)
  have dev: "ce_device env \<noteq> None" using build_queue_device [OF q] .
  show "ct_initiator t = i" "ct_nextStep t = ct_nextStep s" "ct_isSwitchingServer t = ct_isSwitchingServer s"
    "ct_connectedTime t = (if ct_isSwitchingServer s then ct_connectedTime s else None)"
    "sd_exitCountryCode (ct_serverData t) = sd_exitCountryCode (ct_serverData s)"
    "sd_exitCityName (ct_serverData t) = sd_exitCityName (ct_serverData s)"
    "sd_exitServerPublicKey (ct_serverData t) = publicKey_of (last (ct_activationQueue t))"
    "build_queue env dp policy i s = QReady (ct_activationQueue t)"
    by (simp_all add: t q load_queue_def setExitServerPublicKey_def setEntryServerPublicKey_def)
  show "ct_state t = (if i = ExtensionUser \<or> ct_state s = StateSilentSwitching then ct_state s else StateConfirming)"
    using dev by (auto simp: t activateNext_def Let_def)
qed


lemma connected_last:
  fixes env :: ctl_env
  assumes "ct_activationQueue s = [c]" "\<not> stepPending s"
  defines "t \<equiv> connected env (publicKey_of c) s"
  defines "fresh \<equiv> \<not> ct_isSwitchingServer s \<and> ct_state s \<noteq> StateOn \<and> ct_state s \<noteq> StateOnPartial"
  shows "ct_state t = (if ct_initiator s = ExtensionUser then StateOnPartial else StateOn)"
    and "ct_connectedTime t = (if fresh then Some (ce_now env) else ct_connectedTime s)"
    and "session_starts t = session_starts s + (if fresh then 1 else 0)"
    and "ct_timer t" "ct_serverData t = ct_serverData s" "ct_activationQueue t = []"
proof -
  define r where "r = clearRetryCounter (stopCanary (s\<lparr>ct_activationQueue := [], ct_handshakeTimer := False\<rparr>))"
  define r2 where "r2 = (if ct_state r = StateOn \<or> ct_state r = StateOnPartial then r\<lparr>ct_isSwitchingServer := True\<rparr> else r)"
  define r3 where "r3 = resetConnectedTime env
    (setState (if ct_initiator r2 = ExtensionUser then StateOnPartial else StateOn) r2)"
  define r4 where "r4 = (if \<not> ct_isSwitchingServer r3 then ctl_emit ConnectionStartTelemetry r3 else r3)"
  have np: "\<not> stepPending r4" using assms(2) by (simp add: stepPending_def r4_def r3_def r2_def r_def)
  have "t = (if stepPending r4 then snd (deactivate ClientUser r4) else r4)"
    using assms(1) by (simp add: t_def connected_def connected_all_def Let_def r4_def r3_def r2_def r_def)
  with np have t: "t = r4" by simp
  show "ct_state t = (if ct_initiator s = ExtensionUser then StateOnPartial else StateOn)"
    "ct_connectedTime t = (if fresh then Some (ce_now env) else ct_connectedTime s)"
    "session_starts t = session_starts s + (if fresh then 1 else 0)"
    "ct_timer t" "ct_serverData t = ct_serverData s" "ct_activationQueue t = []"
    by (auto simp: t r4_def r3_def r2_def r_def fresh_def)
qed

lemma disconnected_switching:
  assumes "ct_state s = StateSwitching" "ct_nextStep s = NoStep" "ct_isSwitchingServer s"
    and "ct_activationQueue (disconnected env s) \<noteq> []"
  defines "t \<equiv> disconnected env s"
  shows "ct_state t = StateConfirming" "ct_initiator t = ClientUser" "ct_nextStep t = NoStep"
    and "ct_isSwitchingServer t" "ct_connectedTime t = ct_connectedTime s"
    and "session_starts t = session_starts s"
    and "sd_exitCountryCode (ct_serverData t) = sd_exitCountryCode (ct_nextServerData s)"
    and "sd_exitCityName (ct_serverData t) = sd_exitCityName (ct_nextServerData s)"
proof -
  define r where "r = snd (processNextStep
    (clearRetryCounter (clearConnectedTime ((stopCanary s)\<lparr>ct_handshakeTimer := False, ct_activationQueue := []\<rparr>))))"
  define r2 where "r2 = ctl_emit CurrentServerChanged
    (r\<lparr>ct_isSwitchingServer := True, ct_serverData := assignServerData (ct_nextServerData s) (ct_serverData r)\<rparr>)"
  define r3 where "r3 = clearRetryCounter (if ce_platform env \<noteq> Ios then setState StateConnecting r2 else r2)"
  have r: "ct_state r = StateSwitching" "ct_nextServerData r = ct_nextServerData s" using assms by (simp_all add: r_def)
  have t: "t = activateInternal env DoNotForceDNSPort (ct_nextServerSelectionPolicy r) ClientUser r3"
    using assms(1,2) r
    by (simp add: t_def disconnected_def Let_def case_prod_beta r_def activate_def r3_def r2_def)
  have r3: "ct_state r3 \<noteq> StateSilentSwitching" "ct_nextStep r3 = NoStep" "ct_isSwitchingServer r3"
      "ct_connectedTime r3 = ct_connectedTime s" "session_starts r3 = session_starts s"
      "ct_serverData r3 = assignServerData (ct_nextServerData s) (ct_serverData r)"
    using assms by (simp_all add: r3_def r2_def r_def)
  note ready = activateInternal_ready [OF assms(4) [folded t_def, unfolded t], folded t]
  show "ct_state t = StateConfirming" "ct_initiator t = ClientUser" "ct_nextStep t = NoStep"
    "ct_isSwitchingServer t" "ct_connectedTime t = ct_connectedTime s"
    "sd_exitCountryCode (ct_serverData t) = sd_exitCountryCode (ct_nextServerData s)"
    "sd_exitCityName (ct_serverData t) = sd_exitCityName (ct_nextServerData s)"
    using ready r3 by simp_all
  show "session_starts t = session_starts s" using r3 by (simp add: t)
qed

text \<open>The states from which a switch tears the tunnel down.\<close>

definition switchable :: "controller_state set" where
  "switchable = {StateConnecting, StateConfirming, StateOn, StateOnPartial, StateSilentSwitching, StateSwitching}"

lemma switchServers_state:
  fixes sd :: server_data
  assumes "ct_state s \<in> switchable"
  defines "t \<equiv> snd (switchServers sd s)"
  shows "fst (switchServers sd s)" "ct_state t = StateSwitching" "ct_nextStep t = ct_nextStep s"
    and "ct_isSwitchingServer t" "ct_connectedTime t = ct_connectedTime s" "ct_nextServerData t = assignServerData sd (ct_nextServerData s)"
    and "session_starts t = session_starts s" "last (ct_out t) = ImplDeactivate ReasonSwitching"
  using assms(1)
  by (auto simp: t_def switchServers_def deactivate_def Let_def switchable_def stateToReason_def)

lemma switch_session:
  fixes env env' :: ctl_env and sd :: server_data
  assumes "ct_state s \<in> switchable" "ct_nextStep s = NoStep"
  defines "s1 \<equiv> snd (switchServers sd s)"
  defines "s2 \<equiv> disconnected env s1"
  assumes "ct_activationQueue s2 = [c]"
  defines "s3 \<equiv> connected env' (publicKey_of c) s2"
  shows "ct_state s3 = StateOn" "ct_connectedTime s3 = ct_connectedTime s" "session_starts s3 = session_starts s"
    and "sd_exitCountryCode (ct_serverData s3) = sd_exitCountryCode sd"
    and "sd_exitCityName (ct_serverData s3) = sd_exitCityName sd"
proof -
  note st1 = switchServers_state [OF assms(1), of sd, folded s1_def]
  have ne: "ct_activationQueue (disconnected env s1) \<noteq> []" using assms(5) by (simp add: s2_def)
  note st2 = disconnected_switching [OF st1(2) _ st1(4) ne, folded s2_def]
  have n1: "ct_nextStep s1 = NoStep" using st1(3) assms(2) by simp
  have np: "\<not> stepPending s2" using st2(3) [OF n1] by (simp add: stepPending_def)
  note st3 = connected_last [OF assms(5) np, of env', folded s3_def]
  show "ct_state s3 = StateOn" "ct_connectedTime s3 = ct_connectedTime s" "session_starts s3 = session_starts s"
    "sd_exitCountryCode (ct_serverData s3) = sd_exitCountryCode sd"
    "sd_exitCityName (ct_serverData s3) = sd_exitCityName sd"
    using st3 st2 [OF n1] st1 by simp_all
qed

text \<open>
  C8: Switching servers keeps the session.  From any state with a tunnel up or being set up and no
  other request pending, a switch asks the platform controller for a quick switch, and once it
  reports the disconnection, which makes the controller activate a location of a single hop, and
  that hop's handshake, the controller is on at the new location with the connection time of
  the session it had and without recording the start of another session.
\<close>

theorem switch_keeps_session:
  assumes "ct_state s \<in> switchable" "ct_nextStep s = NoStep"
    and "ct_activationQueue (disconnected env (snd (switchServers sd s))) = [c]"
  shows "last (ct_out (snd (switchServers sd s))) = ImplDeactivate ReasonSwitching \<and>
    (let s3 = connected env' (publicKey_of c) (disconnected env (snd (switchServers sd s)))
     in ct_state s3 = StateOn \<and> ct_connectedTime s3 = ct_connectedTime s \<and>
        session_starts s3 = session_starts s \<and>
        sd_exitCountryCode (ct_serverData s3) = sd_exitCountryCode sd \<and>
        sd_exitCityName (ct_serverData s3) = sd_exitCityName sd)"
  using switch_session [OF assms] switchServers_state(8) [OF assms(1)] by (simp add: Let_def)

theorem switch_keeps_session_witness:
  "let env = demo_env [''a'', ''b''] 1000; s = connected env ''a'' (demo_state [''a'', ''b'']);
       s2 = disconnected (demo_env [''a'', ''b''] 5000) (snd (switchServers demo_data s));
       s3 = connected (demo_env [''a'', ''b''] 9000) ''a'' s2
   in ct_connectedTime s = Some 1000 \<and> ct_state s3 = StateOn \<and> ct_connectedTime s3 = Some 1000"
proof -
  define s where "s = connected (demo_env [''a'', ''b''] 1000) ''a'' (demo_state [''a'', ''b''])"
  define s2 where "s2 = disconnected (demo_env [''a'', ''b''] 5000) (snd (switchServers demo_data s))"
  have 1: "ct_state s = StateOn" unfolding s_def by code_simp
  have 2: "ct_nextStep s = NoStep" unfolding s_def by code_simp
  have 3: "ct_connectedTime s = Some 1000" unfolding s_def by code_simp
  have "length (ct_activationQueue s2) = 1" unfolding s2_def s_def by code_simp
  then obtain c where 4: "ct_activationQueue s2 = [c]" by (auto simp: length_Suc_conv)
  have "publicKey_of (hd (ct_activationQueue s2)) = ''a''" unfolding s2_def s_def by code_simp
  then have "publicKey_of c = ''a''" by (simp add: 4)
  with switch_keeps_session [of s "demo_env [''a'', ''b''] 5000" demo_data c "demo_env [''a'', ''b''] 9000",
      folded s2_def, OF _ 2 4] 1 3
  show ?thesis unfolding s_def [symmetric] s2_def [symmetric] Let_def by (simp add: switchable_def)
qed


text \<open>
  A location changed while the first connection is still being confirmed loses the start of
  the session: the switch keeps the connection time of a session that has none, so the controller
  ends in the state On with no connection time (the displayed duration stays 0) and no session
  start was ever recorded.
\<close>

theorem switch_while_confirming_loses_time:
  assumes "ct_state s = StateConfirming" "ct_nextStep s = NoStep" "ct_connectedTime s = None"
    and "ct_activationQueue (disconnected env (snd (switchServers sd s))) = [c]"
  shows "let s3 = connected env' (publicKey_of c) (disconnected env (snd (switchServers sd s)))
    in ct_state s3 = StateOn \<and> ctl_time env'' s3 = 0 \<and> session_starts s3 = session_starts s"
  using switch_session [of s env sd c env'] assms by (simp add: Let_def ctl_time_def switchable_def)

theorem switch_while_confirming_loses_time_witness:
  "let env = demo_env [''a'', ''b''] 1000; s = demo_state [''a'', ''b''];
       s3 = connected env ''a'' (disconnected env (snd (switchServers demo_data s)))
   in ct_state s3 = StateOn \<and> ctl_time (demo_env [''a'', ''b''] 9000) s3 = 0 \<and> session_starts s3 = session_starts s"
proof -
  let ?env = "demo_env [''a'', ''b''] 1000"
  define s where "s = demo_state [''a'', ''b'']"
  define s2 where "s2 = disconnected ?env (snd (switchServers demo_data s))"
  have 1: "ct_state s = StateConfirming" "ct_nextStep s = NoStep" "ct_connectedTime s = None"
    unfolding s_def by code_simp+
  have "length (ct_activationQueue s2) = 1" unfolding s2_def s_def by code_simp
  then obtain c where 4: "ct_activationQueue s2 = [c]" by (auto simp: length_Suc_conv)
  have "publicKey_of (hd (ct_activationQueue s2)) = ''a''" unfolding s2_def s_def by code_simp
  then have "publicKey_of c = ''a''" by (simp add: 4)
  with switch_while_confirming_loses_time [OF 1, of ?env demo_data c ?env "demo_env [''a'', ''b''] 9000",
      folded s2_def, OF 4]
  show ?thesis unfolding s_def [symmetric] s2_def [symmetric] Let_def by simp
qed

section \<open>Quitting\<close>

lemma deactivate_on:
  assumes "ct_state s \<in> {StateOn, StateOnPartial, StateConfirming, StateConnecting}"
  shows "ct_state (snd (deactivate ClientUser s)) = StateDisconnecting \<and>
    ct_nextStep (snd (deactivate ClientUser s)) = ct_nextStep s \<and>
    last (ct_out (snd (deactivate ClientUser s))) = ImplDeactivate ReasonNone"
  using assms by (auto simp: deactivate_def Let_def stateToReason_def)

lemma disconnected_pending:
  assumes "ct_nextStep s = Quit"
  shows "ct_state (disconnected env s) = StateOff \<and> ReadyToQuit \<in> set (ct_out (disconnected env s)) \<and>
    ct_nextStep (disconnected env s) = NoStep"
proof -
  have pow: "x \<in> set (ct_out t) \<Longrightarrow> x \<in> set (ct_out ((maybeEnableDisconnectInConfirming ^^ n) t))" for x n t
    by (induction n) (auto simp: maybeEnableDisconnectInConfirming_def)
  have "ReadyToQuit \<in> set (ct_out (setState StateOff (ctl_emit ReadyToQuit t)))" for t
    by (auto simp: setState_def intro: pow)
  then show ?thesis using assms
    by (simp add: disconnected_def Let_def case_prod_beta processNextStep_def)
qed

text \<open>The handshakes of the pending hops, in the order of the queue.\<close>

definition confirm_hops :: "ctl_env list \<Rightarrow> controller \<Rightarrow> controller" where
  "confirm_hops envs s = foldl (\<lambda>t env. connected env (publicKey_of (hd (ct_activationQueue t))) t) s envs"

lemma connected_more_hops:
  fixes env :: ctl_env
  assumes "ct_state s = StateConfirming" "1 < length (ct_activationQueue s)"
  defines "t \<equiv> connected env (publicKey_of (hd (ct_activationQueue s))) s"
  shows "ct_state t = StateConfirming" "ct_nextStep t = ct_nextStep s"
    and "ct_activationQueue t = tl (ct_activationQueue s)"
  using assms(1,2)
  by (cases "ct_activationQueue s"; auto simp: t_def connected_def Let_def activateNext_def)+

lemma confirm_hops_pending:
  assumes "ct_state s = StateConfirming" "ct_nextStep s = Quit" "length envs < length (ct_activationQueue s)"
  shows "ct_state (confirm_hops envs s) = StateConfirming \<and> ct_nextStep (confirm_hops envs s) = Quit \<and>
    ct_activationQueue (confirm_hops envs s) = drop (length envs) (ct_activationQueue s)"
  using assms
proof (induction envs arbitrary: s)
  case (Cons env envs)
  then show ?case
    using connected_more_hops [of s env] by (simp add: confirm_hops_def drop_Suc)
qed (simp add: confirm_hops_def)

lemma connected_last_quits:
  fixes env :: ctl_env
  assumes "ct_nextStep s = Quit" "ct_activationQueue s = [c]"
  defines "t \<equiv> connected env (publicKey_of c) s"
  shows "ct_state t = StateDisconnecting \<and> ct_nextStep t = Quit \<and> last (ct_out t) = ImplDeactivate ReasonNone"
  using assms(1,2) by (auto simp: t_def connected_def connected_all_def Let_def stepPending_def deactivate_on)

lemma confirm_hops_quits:
  assumes "ct_state s = StateConfirming" "ct_nextStep s = Quit"
    and "envs \<noteq> []" "length envs = length (ct_activationQueue s)"
  defines "t \<equiv> confirm_hops envs s"
  shows "ct_state t = StateDisconnecting \<and> ct_nextStep t = Quit \<and> last (ct_out t) = ImplDeactivate ReasonNone"
proof -
  define u where "u = confirm_hops (butlast envs) s"
  obtain c where c: "drop (length (butlast envs)) (ct_activationQueue s) = [c]"
    using assms(3,4) by (metis append_butlast_last_id append_eq_conv_conj length_butlast snoc_eq_iff_butlast
        append_take_drop_id length_0_conv)
  have u: "ct_nextStep u = Quit" "ct_activationQueue u = [c]"
    using confirm_hops_pending [OF assms(1,2), of "butlast envs"] assms(3,4) c
    by (cases envs rule: rev_cases; simp add: u_def)+
  have "t = connected (last envs) (publicKey_of c) u"
    using assms(3) u(2) by (cases envs rule: rev_cases) (simp_all add: t_def u_def confirm_hops_def)
  then show ?thesis using connected_last_quits [OF u] by simp
qed

text \<open>
  C10: A quit requested outside the states Initializing and Off is carried out: the request stays
  pending until the platform controller reports the disconnection, which makes the controller
  ready to quit and off; in the states On, OnPartial and Connecting the tunnel is taken down at
  once; while handshakes are awaited, those of the hops before the last one only activate the next
  hop, with the request still pending, the handshake of the last pending hop takes the tunnel down,
  and so does any timeout while a hop is pending.
\<close>

theorem quit_completes:
  assumes "ct_state s \<notin> {StateInitializing, StateOff}"
  shows "ct_nextStep (quit s) = Quit \<and>
    ct_state (disconnected env (quit s)) = StateOff \<and> ReadyToQuit \<in> set (ct_out (disconnected env (quit s))) \<and>
    (ct_state s \<in> {StateOn, StateOnPartial, StateConnecting} \<longrightarrow>
       ct_state (quit s) = StateDisconnecting \<and> last (ct_out (quit s)) = ImplDeactivate ReasonNone) \<and>
    (ct_state s = StateConfirming \<and> envs \<noteq> [] \<and> length envs \<le> length (ct_activationQueue s) \<longrightarrow>
       (let t = confirm_hops envs (quit s) in
        ct_nextStep t = Quit \<and>
        (if length envs < length (ct_activationQueue s)
         then ct_state t = StateConfirming \<and> ct_activationQueue t = drop (length envs) (ct_activationQueue s)
         else ct_state t = StateDisconnecting \<and> last (ct_out t) = ImplDeactivate ReasonNone))) \<and>
    (ct_state s = StateConfirming \<and> length envs < length (ct_activationQueue s) \<longrightarrow>
       (let t = handshakeTimeout env (confirm_hops envs (quit s)) in
        ct_state t = StateDisconnecting \<and> last (ct_out t) = ImplDeactivate ReasonNone \<and> ct_nextStep t = Quit))"
proof -
  have quitting: "ct_nextStep (quit s) = Quit"
    using assms by (auto simp: quit_def deactivate_def Let_def)
  have now: "ct_state (quit s) = StateDisconnecting \<and> last (ct_out (quit s)) = ImplDeactivate ReasonNone"
    if "ct_state s \<in> {StateOn, StateOnPartial, StateConnecting}"
    using that deactivate_on [of "s\<lparr>ct_nextStep := Quit\<rparr>"] by (auto simp: quit_def Let_def)
  have conf: "quit s = s\<lparr>ct_nextStep := Quit\<rparr>" if "ct_state s = StateConfirming"
    using that by (simp add: quit_def Let_def)
  have hops: "ct_nextStep (confirm_hops envs (quit s)) = Quit \<and>
      (if length envs < length (ct_activationQueue s)
       then ct_state (confirm_hops envs (quit s)) = StateConfirming \<and>
         ct_activationQueue (confirm_hops envs (quit s)) = drop (length envs) (ct_activationQueue s)
       else ct_state (confirm_hops envs (quit s)) = StateDisconnecting \<and>
         last (ct_out (confirm_hops envs (quit s))) = ImplDeactivate ReasonNone)"
    if "ct_state s = StateConfirming" "envs \<noteq> []" "length envs \<le> length (ct_activationQueue s)"
    using confirm_hops_pending [of "quit s" envs] confirm_hops_quits [of "quit s" envs] that
    unfolding conf [OF that(1)] by (cases "length envs < length (ct_activationQueue s)") simp_all
  have tmo: "ct_state t = StateDisconnecting \<and> last (ct_out t) = ImplDeactivate ReasonNone \<and> ct_nextStep t = Quit"
    if "ct_state s = StateConfirming" "length envs < length (ct_activationQueue s)"
      "t = handshakeTimeout env (confirm_hops envs (quit s))" for t
    using that(3) confirm_hops_pending [of "quit s" envs] that(1,2) unfolding conf [OF that(1)]
    by (simp add: handshakeTimeout_def Let_def stepPending_def deactivate_on)
  from disconnected_pending [OF quitting] quitting now hops tmo show ?thesis unfolding Let_def by blast
qed

definition twohop_confirming :: controller where
  "twohop_confirming = ctl_run twohop_env (emptyController False)
     [CInitialize twohop_data, CImplInitialized True False None,
      CActivate twohop_data ClientUser RandomizeServerSelection, CAccountCompleted 0 []]"

theorem quit_completes_witness:
  "let t1 = confirm_hops [twohop_env] (quit twohop_confirming);
       t2 = confirm_hops [twohop_env, twohop_env] (quit twohop_confirming);
       t3 = handshakeTimeout twohop_env t1
   in ct_state t1 = StateConfirming \<and> length (ct_activationQueue t1) = 1 \<and>
      ct_state t2 = StateDisconnecting \<and> last (ct_out t2) = ImplDeactivate ReasonNone \<and>
      ct_state t3 = StateDisconnecting"
proof -
  have "ct_state twohop_confirming = StateConfirming" "length (ct_activationQueue twohop_confirming) = 2"
    by code_simp+
  with quit_completes [of twohop_confirming twohop_env "[twohop_env]"]
    quit_completes [of twohop_confirming twohop_env "[twohop_env, twohop_env]"]
  show ?thesis by (simp add: Let_def)
qed

section \<open>Principals\<close>

text \<open>
  C11: Who may deactivate: a request is refused, with nothing changed, exactly when the principal
  ranks below the one that activated (so the web extension cannot take down a tunnel set up by the
  user) or there is no tunnel up or being set up; otherwise the queue of hops is dropped, the
  timers are stopped and the platform controller is asked to take the tunnel down.
\<close>

theorem deactivate_permission:
  "if ct_initiator s > user \<or> ct_state s \<notin> switchable then deactivate user s = (False, s)
   else fst (deactivate user s) \<and>
     (let t = snd (deactivate user s) in
      ct_activationQueue t = [] \<and> \<not> ct_handshakeTimer t \<and> \<not> ct_timer t \<and> ct_connectionRetry t = 0 \<and>
      \<not> ct_portalDetected t \<and>
      last (ct_out t) = ImplDeactivate (stateToReason (ct_state t)) \<and>
      ct_state t = (if ct_state s \<in> {StateSwitching, StateSilentSwitching} then ct_state s else StateDisconnecting))"
  by (auto simp: deactivate_def switchable_def Let_def)

theorem deactivate_permission_witness:
  "deactivate ExtensionUser (demo_state [''a'', ''b'']) = (False, demo_state [''a'', ''b'']) \<and>
   fst (deactivate ClientUser (demo_state [''a'', ''b'']))"
proof -
  have "ct_initiator (demo_state [''a'', ''b'']) = ClientUser" "ct_state (demo_state [''a'', ''b'']) = StateConfirming"
    by code_simp+
  then show ?thesis
    using deactivate_permission [of ExtensionUser "demo_state [''a'', ''b'']"]
      deactivate_permission [of ClientUser "demo_state [''a'', ''b'']"]
    by (simp add: less_principal_def switchable_def)
qed

text \<open>
  C15: The check of the principal does not cover activation.  When the reply to an activation the
  extension had requested arrives while the user's tunnel is on, the tunnel is replaced: the new
  configuration only carries the extension's proxy ranges, and after its handshake the controller
  is in the state OnPartial with the extension as the initiator, full device protection being gone.
\<close>

theorem extension_reply_downgrades:
  assumes "ct_state s = StateOn" "ct_initiator s = ClientUser" "ct_nextStep s = NoStep"
    and "\<not> ce_multiHop env"
    and "ct_activationQueue (account_reply env policy ExtensionUser s) = [c]"
  shows "ct_state (account_reply env policy ExtensionUser s) = StateOn \<and>
    (\<exists>x. ic_allowedIPAddressRanges c = getExtensionProxyAddressRanges (ce_parseHost env) (ce_dns env) x) \<and>
    ct_state (connected env' (publicKey_of c) (account_reply env policy ExtensionUser s)) = StateOnPartial"
proof -
  define r where "r = clearRetryCounter s"
  define t where "t = activateInternal env DoNotForceDNSPort policy ExtensionUser r"
  have t: "account_reply env policy ExtensionUser s = t" by (simp add: account_reply_def t_def r_def)
  have q: "ct_activationQueue t = [c]" using assms(5) t by simp
  then have ne: "ct_activationQueue (activateInternal env DoNotForceDNSPort policy ExtensionUser r) \<noteq> []"
    by (simp add: t_def)
  note ready = activateInternal_ready [OF ne, folded t_def]
  have "\<exists>x. ic_allowedIPAddressRanges c = getExtensionProxyAddressRanges (ce_parseHost env) (ce_dns env) x"
    using ready(9) q assms(4)
    by (auto simp: build_queue_def hop_queue_def exit_config_def split: option.splits if_splits)
  moreover have "ct_state t = StateOn" using ready(5) assms(1) by (simp add: r_def)
  moreover have "\<not> stepPending t" using ready(2) assms(3) by (simp add: r_def stepPending_def)
  ultimately show ?thesis using connected_last(1) [OF q, of env'] ready(1) by (simp add: t)
qed


text \<open>Both the extension and the user ask for an activation; the user's request is answered first.\<close>

definition race_state :: controller where
  "race_state = foldl (demo_step [''a'', ''b'']) (emptyController False)
     [CInitialize demo_data, CImplInitialized True False None,
      CActivate demo_data ExtensionUser RandomizeServerSelection,
      CActivate demo_data ClientUser RandomizeServerSelection, CAccountCompleted 1 [], CConnected ''a'']"

theorem extension_reply_downgrades_witness:
  "let env = demo_env [''a'', ''b''] 1000; t = account_reply env RandomizeServerSelection ExtensionUser race_state
   in ct_requests race_state = [(RandomizeServerSelection, ExtensionUser)] \<and>
      ct_state race_state = StateOn \<and> ct_state (connected env ''a'' t) = StateOnPartial"
proof -
  let ?env = "demo_env [''a'', ''b''] 1000"
  define t where "t = account_reply ?env RandomizeServerSelection ExtensionUser race_state"
  have 1: "ct_state race_state = StateOn" "ct_initiator race_state = ClientUser" "ct_nextStep race_state = NoStep"
    "\<not> ce_multiHop ?env" by code_simp+
  have 2: "ct_requests race_state = [(RandomizeServerSelection, ExtensionUser)]" by code_simp
  have "length (ct_activationQueue t) = 1" unfolding t_def by code_simp
  then obtain c where 4: "ct_activationQueue t = [c]" by (auto simp: length_Suc_conv)
  have "publicKey_of (hd (ct_activationQueue t)) = ''a''" unfolding t_def by code_simp
  then have "publicKey_of c = ''a''" by (simp add: 4)
  with extension_reply_downgrades [OF 1, of RandomizeServerSelection c ?env, folded t_def, OF 4] 1 2
  show ?thesis unfolding Let_def t_def [symmetric] by simp
qed

section \<open>Locations with one server\<close>

text \<open>
  In a location with a single server the first retry, which the source means to try again on
  port 53, is never made: the timeout puts the only server in cooldown before the list of servers
  is computed, so the controller reports the location as unavailable at once, with nothing pending.
\<close>

theorem single_server_no_retry:
  assumes "ct_activationQueue s = [c]" "\<not> stepPending s" "ct_connectionRetry s = 0"
    and "c_servers (findCity (ce_scm env) (sd_exitCountryCode (ct_serverData s)) (sd_exitCityName (ct_serverData s)))
      = [publicKey_of c]"
  shows "last (ct_out (handshakeTimeout env s)) = ReadyToServerUnavailable (ct_pingReceived s) \<and>
    ct_activationQueue (handshakeTimeout env s) = [] \<and> \<not> ct_handshakeTimer (handshakeTimeout env s) \<and>
    ct_state (handshakeTimeout env s) = ct_state s"
proof -
  let ?t = "timed_out env s"
  have "getCooldown (ct_latency ?t) (publicKey_of c) > now_sec (ce_lat env)" using assms(1) by simp
  then have "exitServers (now_sec (ce_lat env)) (ce_scm env) (ct_latency ?t) (ct_serverData ?t) = []"
    using assms(4) by (simp add: exitServers_def getServerList_def)
  then have "pick_exit env RandomizeServerSelection ?t = Some emptyServer"
    by (simp add: pick_exit_def pick_server_def weightChooser_def)
  then have "build_queue env ForceDNSPort RandomizeServerSelection (ct_initiator s) ?t = QUnavailable"
    by (simp add: build_queue_def)
  then show ?thesis using assms(3)
    by (simp add: handshakeTimeout_cases [OF assms(2)] activateInternal_cases serverUnavailable_def)
qed

theorem single_server_no_retry_witness:
  "last (ct_out (handshakeTimeout (demo_env [''a''] 1000) (demo_state [''a'']))) = ReadyToServerUnavailable False"
proof -
  define s where "s = demo_state [''a'']"
  have "length (ct_activationQueue s) = 1" unfolding s_def by code_simp
  then obtain c where q: "ct_activationQueue s = [c]" by (auto simp: length_Suc_conv)
  have "publicKey_of (hd (ct_activationQueue s)) = ''a''" unfolding s_def by code_simp
  then have k: "publicKey_of c = ''a''" by (simp add: q)
  have 1: "\<not> stepPending s" "ct_connectionRetry s = 0" unfolding s_def by code_simp+
  have 2: "c_servers (findCity (ce_scm (demo_env [''a''] 1000)) (sd_exitCountryCode (ct_serverData s))
      (sd_exitCityName (ct_serverData s))) = [''a'']" "ct_pingReceived s = False" unfolding s_def by code_simp+
  from single_server_no_retry [OF q 1, of "demo_env [''a''] 1000"] show ?thesis
    using 2 by (simp add: k s_def [symmetric])
qed

section \<open>What an activation routes\<close>

lemma hop_queue_ranges:
  assumes "hop_queue env dp policy s dev x cfg = QReady q"
  shows "ic_allowedIPAddressRanges (last q) = ic_allowedIPAddressRanges cfg"
    and "length q = 2 \<Longrightarrow> ic_allowedIPAddressRanges (hd q) =
      IPAddress_of_string (ce_parseSubnet env) (ce_parseHost env) (m_ipv4AddrIn x) #
      (if m_ipv6AddrIn x \<noteq> []
       then [IPAddress_of_string (ce_parseSubnet env) (ce_parseHost env) (m_ipv6AddrIn x)] else [])"
  using assms by (auto simp: hop_queue_def entry_config_def split: if_splits option.splits)

lemma hop_queue_exit_address:
  assumes "hop_queue env dp policy s dev x cfg = QReady q" "length q = 2"
  shows "ic_serverIpv4AddrIn (last q) = ic_serverIpv4AddrIn cfg" "ic_serverIpv6AddrIn (last q) = ic_serverIpv6AddrIn cfg"
  using assms by (auto simp: hop_queue_def split: if_splits option.splits)

text \<open>
  C7: What an activation sends through the tunnel.  For the user the exit configuration allows
  every IPv4 and every IPv6 address, so nothing bypasses the tunnel by routing; and in a two-hop
  activation the entry hop allows exactly the addresses of the exit server, so the entry server
  only ever sees traffic for the exit server.
\<close>

theorem activation_routes:
  assumes "build_queue env dnsPort policy initiator s = QReady q"
  shows "(initiator \<noteq> ExtensionUser \<longrightarrow>
      (\<forall>a. protocol_of a \<noteq> UnknownNetworkLayerProtocol \<longrightarrow>
         list_ex (\<lambda>r. contains r a) (ic_allowedIPAddressRanges (last q)))) \<and>
    (length q = 2 \<longrightarrow> ic_allowedIPAddressRanges (hd q) =
      map (IPAddress_of_string (ce_parseSubnet env) (ce_parseHost env))
        (qchars (ic_serverIpv4AddrIn (last q)) #
         filter (\<lambda>x. x \<noteq> []) [qchars (ic_serverIpv6AddrIn (last q))]))"
proof -
  from assms obtain x dev port dp where
    q: "hop_queue env dp policy s dev x (exit_config env initiator dev x port) = QReady q"
    by (auto simp: build_queue_def split: option.splits if_splits)
  have "list_ex (\<lambda>r. contains r a) (getAllowedIPAddressRanges (ce_parseHost env) x)"
    if "protocol_of a \<noteq> UnknownNetworkLayerProtocol" for a
    using that by (cases a) (simp_all add: getAllowedIPAddressRanges_def contains_def)
  then show ?thesis
    using hop_queue_ranges [OF q] hop_queue_exit_address [OF q]
    by (auto simp: exit_config_def qchars_def)
qed


definition twohop_state :: controller where
  "twohop_state = (emptyController False)\<lparr>ct_serverData :=
     demo_data\<lparr>sd_entryCountryCode := ''se'', sd_entryCityName := ''Malmo''\<rparr>\<rparr>"

theorem activation_routes_witness:
  "\<exists>q. build_queue ((demo_env [''a'', ''b''] 1000)\<lparr>ce_multiHop := True\<rparr>) DoNotForceDNSPort
       RandomizeServerSelection ClientUser twohop_state = QReady q \<and> length q = 2 \<and>
     list_ex (\<lambda>r. contains r (IPv4 0x08080808)) (ic_allowedIPAddressRanges (last q)) \<and>
     length (ic_allowedIPAddressRanges (hd q)) = 1"
proof -
  let ?b = "build_queue ((demo_env [''a'', ''b''] 1000)\<lparr>ce_multiHop := True\<rparr>) DoNotForceDNSPort
       RandomizeServerSelection ClientUser twohop_state"
  have "case ?b of QReady q \<Rightarrow> length q = 2 \<and> qchars (ic_serverIpv6AddrIn (last q)) = [] | _ \<Rightarrow> False" by code_simp
  then obtain q where q: "?b = QReady q" "length q = 2" "qchars (ic_serverIpv6AddrIn (last q)) = []"
    by (cases ?b) auto
  then show ?thesis using activation_routes [OF q(1)] by auto
qed

end
