(* ===== verification/DnsPing.thy ===== *)
theory DnsPing
  imports Prelude
begin

text \<open>
  Model of \<^verbatim>\<open>src/src/dnspingsender.cpp\<close>: a ping is a DNS query for the root name whose identifier is
  the ping's sequence number; the reply is recognised by its header.  Packets are lists of bytes in
  network order; the UDP socket is seen through the datagrams sent and received (\<open>None\<close> is an
  invalid datagram).
\<close>

unbundle bit_operations_syntax

definition be16 :: "16 word \<Rightarrow> 8 word list" where
  "be16 w = [ucast (drop_bit 8 w), ucast w]"

definition read16 :: "8 word list \<Rightarrow> 16 word" where
  "read16 bs = push_bit 8 (ucast (bs ! 0)) OR ucast (bs ! 1)"

definition DNS_FLAG_QR :: "16 word" where "DNS_FLAG_QR = 0x8000"
definition DNS_FLAG_OPCODE :: "16 word" where "DNS_FLAG_OPCODE = 0x7800"
definition DNS_FLAG_OPCODE_QUERY :: "16 word" where "DNS_FLAG_OPCODE_QUERY = 0"

text \<open>The size of \<^verbatim>\<open>struct dnsHeader\<close>.\<close>

definition dnsHeader_size :: nat where "dnsHeader_size = 12"

definition dns_query :: "16 word \<Rightarrow> 8 word list" where
  "dns_query seq =
     be16 seq @ be16 DNS_FLAG_OPCODE_QUERY @ be16 1 @ be16 0 @ be16 0 @ be16 0 @ [0x00, 0x00, 0x01, 0x00, 0x01]"

datatype dns_out = DnsDatagram string "8 word list" | DnsCriticalPingError | DnsRecvPing "16 word"

definition dns_sendPing :: "bool \<Rightarrow> string option \<Rightarrow> 16 word \<Rightarrow> dns_out list" where
  "dns_sendPing socketValid dest seq =
    (case dest of
       None \<Rightarrow> [DnsCriticalPingError]
     | Some addr \<Rightarrow> if \<not> socketValid then [DnsCriticalPingError] else [DnsDatagram addr (dns_query seq)])"

definition dns_reply :: "8 word list \<Rightarrow> 16 word option" where
  "dns_reply payload =
    (if length payload < dnsHeader_size then None
     else let flags = read16 (drop 2 payload)
       in if flags AND DNS_FLAG_QR = 0 then None
          else if flags AND DNS_FLAG_OPCODE \<noteq> DNS_FLAG_OPCODE_QUERY then None
          else Some (read16 payload))"

fun dns_readData :: "8 word list option list \<Rightarrow> dns_out list" where
  "dns_readData [] = []"
| "dns_readData (None # _) = []"
| "dns_readData (Some payload # rest) =
    (case dns_reply payload of
       None \<Rightarrow> dns_readData rest
     | Some seq \<Rightarrow> DnsRecvPing seq # dns_readData rest)"

section \<open>Lemmas\<close>

lemma length_be16 [simp]: "length (be16 w) = 2"
  by (simp add: be16_def)

lemma read16_be16 [simp]: "read16 (be16 w @ rest) = w"
proof (rule bit_word_eqI)
  fix n assume "n < LENGTH(16)"
  then show "bit (read16 (be16 w @ rest)) n = bit w n"
    by (cases "n < 8") (auto simp: read16_def be16_def bit_or_iff bit_push_bit_iff bit_unsigned_iff bit_drop_bit_eq)
qed

lemma read16_second: "read16 (drop 2 (be16 v @ be16 w @ rest)) = w"
proof -
  have "drop 2 (be16 v @ be16 w @ rest) = be16 w @ rest" by (simp add: be16_def)
  then show ?thesis by simp
qed

text \<open>
  DNS pings.  A datagram whose header echoes the identifier of a query, with the reply bit set
  and the query opcode, is reported as the reply to the ping of that sequence number, whatever its
  other flags, counts and contents; without the reply bit (in particular the query itself,
  reflected) or with another opcode, and with a truncated header, nothing is reported.
\<close>

theorem dns_ping_roundtrip:
  "(length rest \<ge> 8 \<longrightarrow>
     dns_readData [Some (be16 seq @ be16 flags @ rest)] =
       (if bit flags 15 \<and> flags AND DNS_FLAG_OPCODE = 0 then [DnsRecvPing seq] else [])) \<and>
   dns_readData [Some (dns_query seq)] = [] \<and>
   (length short < 12 \<longrightarrow> dns_readData [Some short] = [])"
proof -
  have qr: "flags AND DNS_FLAG_QR = 0 \<longleftrightarrow> \<not> bit flags 15"
    using and_exp_eq_0_iff_not_bit [of flags 15] by (simp add: DNS_FLAG_QR_def)
  have "dns_reply (be16 seq @ be16 flags @ rest) =
      (if bit flags 15 \<and> flags AND DNS_FLAG_OPCODE = 0 then Some seq else None)" if "length rest \<ge> 8"
    using that by (simp add: dns_reply_def dnsHeader_size_def read16_second Let_def qr DNS_FLAG_OPCODE_QUERY_def)
  moreover have "dns_reply (dns_query seq) = None"
    unfolding dns_reply_def dns_query_def read16_second Let_def DNS_FLAG_OPCODE_QUERY_def by simp
  moreover have "dns_reply short = None" if "length short < 12"
    using that by (simp add: dns_reply_def dnsHeader_size_def)
  ultimately show ?thesis by (auto split: option.splits)
qed

theorem dns_ping_roundtrip_witness:
  "dns_readData [Some (be16 7 @ be16 0x8180 @ replicate 8 0)] = [DnsRecvPing 7]"
  using dns_ping_roundtrip [of "replicate 8 0" 7 "0x8180" "[]"] by (simp add: DNS_FLAG_OPCODE_def)

end
