(* ===== verification/ConnectionHealth.thy ===== *)
theory ConnectionHealth
  imports Controller DnsPing
begin

text \<open>
  Model of \<^verbatim>\<open>src/src/connectionhealth.cpp\<close>: the stability of the tunnel, judged from the ping
  statistics of \<^verbatim>\<open>PingHelper\<close>, a no-signal timer and a baseline latency measured by DNS pings while
  the VPN is off.  Timers are flags with their expiry as events; the controller's state, the clock
  and the random number are in the environment; signals, telemetry and the request for a silent
  server switch are an output log.
\<close>

datatype stability = Stable | Unstable | NoSignal

definition PING_BASELINE_EWMA_DIVISOR :: "64 word" where
  "PING_BASELINE_EWMA_DIVISOR = 8"

text \<open>Milliseconds.\<close>

definition PING_TIME_UNSTABLE :: "64 word" where
  "PING_TIME_UNSTABLE = 1000"

definition PING_LOSS_UNSTABLE_THRESHOLD :: real where
  "PING_LOSS_UNSTABLE_THRESHOLD = 1 / 10"

definition PING_WELL_KNOWN_ANYCAST_DNS :: string where
  "PING_WELL_KNOWN_ANYCAST_DNS = ''194.242.2.2''"

datatype health_out =
    StabilityChanged
  | UnsettledChanged
  | PingReceived
  | SilentSwitch
  | GetStatus
  | StartTiming stability
  | StopTiming stability
  | CountStability stability
  | ChangedTo stability
  | DnsPing dns_out

record connection_health =
  ch_stability :: stability
  ch_stabilityOverwritten :: bool
  ch_settlingTimer :: bool
  ch_noSignalTimer :: bool
  ch_healthCheckTimer :: bool
  ch_pingHelper :: ping_helper
  ch_dnsSocket :: bool
  ch_dnsPingTimer :: bool
  ch_dnsPingSequence :: "16 word"
  ch_dnsPingTimestamp :: "64 word"
  ch_dnsPingLatency :: "64 word"
  ch_dnsPingInitialized :: bool
  ch_suspended :: bool
  ch_currentGateway :: string
  ch_deviceAddress :: string
  ch_metricsTimerId :: int
  ch_out :: "health_out list"

text \<open>
  \<^const>\<open>ch_dnsSocket\<close>: the UDP socket of the DNS ping sender is open.  It is bound once, in the
  constructor (\<open>bound\<close> says whether that worked); \<^verbatim>\<open>DnsPingSender::stop\<close> closes it, and a closed
  \<^verbatim>\<open>QUdpSocket\<close> is not valid.
\<close>

definition emptyHealth :: "bool \<Rightarrow> connection_health" where
  "emptyHealth bound =
    \<lparr>ch_stability = Stable, ch_stabilityOverwritten = False, ch_settlingTimer = False,
     ch_noSignalTimer = False, ch_healthCheckTimer = False, ch_pingHelper = emptyPingHelper,
     ch_dnsSocket = bound, ch_dnsPingTimer = False, ch_dnsPingSequence = 0, ch_dnsPingTimestamp = 0,
     ch_dnsPingLatency = PING_TIME_UNSTABLE, ch_dnsPingInitialized = False, ch_suspended = False,
     ch_currentGateway = [], ch_deviceAddress = [], ch_metricsTimerId = -1, ch_out = []\<rparr>"

record health_env =
  he_now :: int
  he_state :: controller_state
  he_mobile :: bool
  he_icmpValid :: bool
  he_dnsValid :: bool
  he_random :: "16 word"
  he_timerId :: int

definition ch_emit :: "health_out \<Rightarrow> connection_health \<Rightarrow> connection_health" where
  "ch_emit x s = s\<lparr>ch_out := ch_out s @ [x]\<rparr>"

section \<open>Telemetry\<close>

definition startTimingDistributionMetric ::
    "health_env \<Rightarrow> stability \<Rightarrow> connection_health \<Rightarrow> connection_health" where
  "startTimingDistributionMetric env st s =
    (if he_mobile env then s else ch_emit (StartTiming st) (s\<lparr>ch_metricsTimerId := he_timerId env\<rparr>))"

definition stopTimingDistributionMetric ::
    "health_env \<Rightarrow> stability \<Rightarrow> connection_health \<Rightarrow> connection_health" where
  "stopTimingDistributionMetric env st s =
    (if he_mobile env \<or> ch_metricsTimerId s = -1 then s else ch_emit (StopTiming st) s)"

definition recordMetrics ::
    "health_env \<Rightarrow> stability \<Rightarrow> stability \<Rightarrow> connection_health \<Rightarrow> connection_health" where
  "recordMetrics env oldStability newStability s =
    (let s1 = ch_emit (CountStability newStability) s
     in if oldStability = newStability then s1
        else ch_emit (ChangedTo newStability)
               (startTimingDistributionMetric env newStability
                 (stopTimingDistributionMetric env oldStability s1)))"

section \<open>Operations\<close>

definition health_stop :: "health_env \<Rightarrow> connection_health \<Rightarrow> connection_health" where
  "health_stop env s =
     stopTimingDistributionMetric env (ch_stability s)
       (s\<lparr>ch_pingHelper := ph_stop (ch_pingHelper s), ch_noSignalTimer := False,
          ch_healthCheckTimer := False, ch_dnsSocket := False, ch_dnsPingTimer := False\<rparr>)"

definition startActive :: "health_env \<Rightarrow> string \<Rightarrow> string \<Rightarrow> connection_health \<Rightarrow> connection_health" where
  "startActive env serverIpv4Gateway deviceIpv4Address s =
    (let isNotOnOrOnPartial = (he_state env \<noteq> StateOn \<and> he_state env \<noteq> StateOnPartial)
     in if serverIpv4Gateway = [] \<or> isNotOnOrOnPartial then s
        else startTimingDistributionMetric env (ch_stability s)
          (s\<lparr>ch_currentGateway := serverIpv4Gateway, ch_deviceAddress := deviceIpv4Address,
             ch_pingHelper := ph_start (he_icmpValid env) (he_dnsValid env) serverIpv4Gateway
               deviceIpv4Address (ch_pingHelper s),
             ch_noSignalTimer := True, ch_healthCheckTimer := True, ch_dnsSocket := False, ch_dnsPingTimer := False\<rparr>))"

definition send_dns_ping :: "health_env \<Rightarrow> connection_health \<Rightarrow> connection_health" where
  "send_dns_ping env s =
    (let outs = dns_sendPing (ch_dnsSocket s) (Some PING_WELL_KNOWN_ANYCAST_DNS) (ch_dnsPingSequence s);
         s1 = s\<lparr>ch_dnsPingTimestamp := word_of_int (he_now env), ch_out := ch_out s @ map DnsPing outs\<rparr>
     in if DnsCriticalPingError \<in> set outs
        then s1\<lparr>ch_dnsPingInitialized := False, ch_dnsPingTimer := False\<rparr> else s1)"

definition dnsPingTimeout :: "health_env \<Rightarrow> connection_health \<Rightarrow> connection_health" where
  "dnsPingTimeout env s = send_dns_ping env (s\<lparr>ch_dnsPingSequence := ch_dnsPingSequence s + 1\<rparr>)"

definition startIdle :: "health_env \<Rightarrow> connection_health \<Rightarrow> connection_health" where
  "startIdle env s =
    (let s1 = s\<lparr>ch_pingHelper := ph_stop (ch_pingHelper s), ch_noSignalTimer := False,
                ch_healthCheckTimer := False, ch_dnsPingSequence := he_random env,
                ch_dnsPingInitialized := False, ch_dnsPingLatency := PING_TIME_UNSTABLE\<rparr>;
         s2 = (if ch_dnsSocket s1 then send_dns_ping env (s1\<lparr>ch_dnsPingTimer := True\<rparr>) else s1)
     in stopTimingDistributionMetric env (ch_stability s2) s2)"

definition setStability :: "health_env \<Rightarrow> stability \<Rightarrow> connection_health \<Rightarrow> connection_health" where
  "setStability env st s =
    (if ch_stabilityOverwritten s then s
     else
       let s1 = (if he_state env \<in> {StateOn, StateSwitching, StateSilentSwitching, StateOnPartial}
                 then recordMetrics env (ch_stability s) st s else s);
           s2 = (if he_state env \<noteq> StateOnPartial \<and> st = Unstable then ch_emit SilentSwitch s1 else s1)
       in if ch_stability s2 = st then s2 else ch_emit StabilityChanged (s2\<lparr>ch_stability := st\<rparr>))"

definition startUnsettledPeriod :: "connection_health \<Rightarrow> connection_health" where
  "startUnsettledPeriod s = (ch_emit UnsettledChanged s)\<lparr>ch_settlingTimer := True\<rparr>"

definition settlingTimeout :: "connection_health \<Rightarrow> connection_health" where
  "settlingTimeout s = ch_emit UnsettledChanged (s\<lparr>ch_settlingTimer := False\<rparr>)"

text \<open>
  \<^verbatim>\<open>connectionStateChanged\<close>: in the two connected states it asks the controller for the status;
  \<open>statusReply\<close> is the callback it passes.
\<close>

definition connectionStateChanged :: "health_env \<Rightarrow> connection_health \<Rightarrow> connection_health" where
  "connectionStateChanged env s =
    (let s1 = (if he_state env \<noteq> StateInitializing then startUnsettledPeriod s else s)
     in if he_state env = StateOnPartial \<or> he_state env = StateOn then ch_emit GetStatus s1
        else if he_state env = StateOff then startIdle env s1
        else health_stop env s1)"

definition statusReply :: "health_env \<Rightarrow> string \<Rightarrow> string \<Rightarrow> connection_health \<Rightarrow> connection_health" where
  "statusReply env gateway device s = startActive env gateway device (health_stop env s)"

text \<open>The four-way decision of \<^verbatim>\<open>healthCheckup\<close>.\<close>

definition health_verdict :: "health_env \<Rightarrow> connection_health \<Rightarrow> stability" where
  "health_verdict env s =
    (if \<not> ch_noSignalTimer s then NoSignal
     else if ph_loss (he_now env) (ch_pingHelper s) > PING_LOSS_UNSTABLE_THRESHOLD then Unstable
     else if ch_dnsPingInitialized s \<and>
             (ucast (ph_maximum (ch_pingHelper s)) :: 64 word) > PING_TIME_UNSTABLE + ch_dnsPingLatency s
     then Unstable
     else Stable)"

definition healthCheckup :: "health_env \<Rightarrow> connection_health \<Rightarrow> connection_health" where
  "healthCheckup env s = setStability env (health_verdict env s) s"

definition health_pingSentAndReceived :: "health_env \<Rightarrow> connection_health \<Rightarrow> connection_health" where
  "health_pingSentAndReceived env s =
     ch_emit PingReceived (healthCheckup env (s\<lparr>ch_noSignalTimer := True, ch_healthCheckTimer := True\<rparr>))"

text \<open>A reply reaches the ping helper; when it credits it, its signal runs the handler above.\<close>

definition health_pingReply :: "health_env \<Rightarrow> 16 word \<Rightarrow> connection_health \<Rightarrow> connection_health" where
  "health_pingReply env seq s =
    (let p = ph_pingReceived (he_now env) seq (ch_pingHelper s); s1 = s\<lparr>ch_pingHelper := p\<rparr>
     in if ph_out p = ph_out (ch_pingHelper s) then s1 else health_pingSentAndReceived env s1)"

definition updateDnsPingLatency :: "64 word \<Rightarrow> connection_health \<Rightarrow> connection_health" where
  "updateDnsPingLatency latency s =
    (if ch_dnsPingInitialized s
     then s\<lparr>ch_dnsPingLatency :=
              (ch_dnsPingLatency s * (PING_BASELINE_EWMA_DIVISOR - 1) + latency) div PING_BASELINE_EWMA_DIVISOR\<rparr>
     else s\<lparr>ch_dnsPingLatency := latency, ch_dnsPingInitialized := True\<rparr>)"

definition dnsPingReceived :: "health_env \<Rightarrow> 16 word \<Rightarrow> connection_health \<Rightarrow> connection_health" where
  "dnsPingReceived env seq s =
    (if seq \<noteq> ch_dnsPingSequence s then s
     else updateDnsPingLatency (word_of_int (he_now env) - ch_dnsPingTimestamp s) s)"

datatype app_state = ApplicationActive | ApplicationSuspended | ApplicationInactive | ApplicationHidden

definition health_applicationStateChanged ::
    "health_env \<Rightarrow> app_state \<Rightarrow> connection_health \<Rightarrow> connection_health" where
  "health_applicationStateChanged env st s =
    (if \<not> he_mobile env then s
     else if st = ApplicationActive
     then (if \<not> ch_suspended s then s
           else startActive env (ch_currentGateway s) (ch_deviceAddress s) (s\<lparr>ch_suspended := False\<rparr>))
     else (if ch_suspended s then s else health_stop env (s\<lparr>ch_suspended := True\<rparr>)))"

text \<open>\<open>None\<close>: the process aborts (\<^verbatim>\<open>qFatal\<close>).\<close>

definition overwriteStabilityForInspector ::
    "bool \<Rightarrow> stability \<Rightarrow> connection_health \<Rightarrow> connection_health option" where
  "overwriteStabilityForInspector inProduction st s =
    (if inProduction then None
     else Some (ch_emit StabilityChanged (s\<lparr>ch_stabilityOverwritten := True, ch_stability := st\<rparr>)))"


section \<open>Events\<close>

datatype health_event =
    HStateChanged
  | HStatusReply string string
  | HSettlingTimer
  | HNoSignalTimer
  | HHealthTimer
  | HPingTimer
  | HPingReply "16 word"
  | HDnsTimer
  | HDnsReply "16 word"
  | HAppState app_state
  | HOverwrite stability

fun health_step :: "connection_health \<Rightarrow> health_env \<times> health_event \<Rightarrow> connection_health" where
  "health_step s (env, HStateChanged) = connectionStateChanged env s"
| "health_step s (env, HStatusReply gw dev) = statusReply env gw dev s"
| "health_step s (env, HSettlingTimer) = settlingTimeout s"
| "health_step s (env, HNoSignalTimer) = s\<lparr>ch_noSignalTimer := False\<rparr>"
| "health_step s (env, HHealthTimer) = healthCheckup env s"
| "health_step s (env, HPingTimer) = s\<lparr>ch_pingHelper := nextPing (he_now env) (ch_pingHelper s)\<rparr>"
| "health_step s (env, HPingReply seq) = health_pingReply env seq s"
| "health_step s (env, HDnsTimer) = dnsPingTimeout env s"
| "health_step s (env, HDnsReply seq) = dnsPingReceived env seq s"
| "health_step s (env, HAppState st) = health_applicationStateChanged env st s"
| "health_step s (env, HOverwrite st) = the (overwriteStabilityForInspector False st s)"

text \<open>
  Timers fire while they run; a DNS reply is read from the open socket only; the inspector exists
  outside production only.
\<close>

fun health_guard :: "connection_health \<Rightarrow> health_env \<times> health_event \<Rightarrow> bool" where
  "health_guard s (env, HSettlingTimer) = ch_settlingTimer s"
| "health_guard s (env, HNoSignalTimer) = ch_noSignalTimer s"
| "health_guard s (env, HHealthTimer) = ch_healthCheckTimer s"
| "health_guard s (env, HPingTimer) = ph_timer (ch_pingHelper s)"
| "health_guard s (env, HDnsTimer) = ch_dnsPingTimer s"
| "health_guard s (env, HDnsReply seq) = ch_dnsSocket s"
| "health_guard s (env, e) = True"

section \<open>Frames\<close>

lemma ch_emit_frame [simp]:
  "ch_stability (ch_emit x s) = ch_stability s" "ch_stabilityOverwritten (ch_emit x s) = ch_stabilityOverwritten s"
  "ch_settlingTimer (ch_emit x s) = ch_settlingTimer s" "ch_noSignalTimer (ch_emit x s) = ch_noSignalTimer s"
  "ch_healthCheckTimer (ch_emit x s) = ch_healthCheckTimer s" "ch_pingHelper (ch_emit x s) = ch_pingHelper s"
  "ch_dnsSocket (ch_emit x s) = ch_dnsSocket s" "ch_dnsPingTimer (ch_emit x s) = ch_dnsPingTimer s"
  "ch_dnsPingSequence (ch_emit x s) = ch_dnsPingSequence s" "ch_dnsPingTimestamp (ch_emit x s) = ch_dnsPingTimestamp s"
  "ch_dnsPingLatency (ch_emit x s) = ch_dnsPingLatency s" "ch_dnsPingInitialized (ch_emit x s) = ch_dnsPingInitialized s"
  "ch_suspended (ch_emit x s) = ch_suspended s" "ch_currentGateway (ch_emit x s) = ch_currentGateway s"
  "ch_deviceAddress (ch_emit x s) = ch_deviceAddress s" "ch_out (ch_emit x s) = ch_out s @ [x]"
  by (simp_all add: ch_emit_def)

lemma metric_frame [simp]:
  "ch_stability (startTimingDistributionMetric env st s) = ch_stability s"
  "ch_pingHelper (startTimingDistributionMetric env st s) = ch_pingHelper s"
  "ch_noSignalTimer (startTimingDistributionMetric env st s) = ch_noSignalTimer s"
  "ch_healthCheckTimer (startTimingDistributionMetric env st s) = ch_healthCheckTimer s"
  "ch_dnsSocket (startTimingDistributionMetric env st s) = ch_dnsSocket s"
  "ch_dnsPingTimer (startTimingDistributionMetric env st s) = ch_dnsPingTimer s"
  "ch_dnsPingInitialized (startTimingDistributionMetric env st s) = ch_dnsPingInitialized s"
  "ch_stability (stopTimingDistributionMetric env st s) = ch_stability s"
  "ch_pingHelper (stopTimingDistributionMetric env st s) = ch_pingHelper s"
  "ch_noSignalTimer (stopTimingDistributionMetric env st s) = ch_noSignalTimer s"
  "ch_healthCheckTimer (stopTimingDistributionMetric env st s) = ch_healthCheckTimer s"
  "ch_dnsSocket (stopTimingDistributionMetric env st s) = ch_dnsSocket s"
  "ch_dnsPingTimer (stopTimingDistributionMetric env st s) = ch_dnsPingTimer s"
  "ch_dnsPingInitialized (stopTimingDistributionMetric env st s) = ch_dnsPingInitialized s"
  "ch_stability (recordMetrics env a b s) = ch_stability s"
  "ch_pingHelper (recordMetrics env a b s) = ch_pingHelper s"
  "ch_noSignalTimer (recordMetrics env a b s) = ch_noSignalTimer s"
  "ch_healthCheckTimer (recordMetrics env a b s) = ch_healthCheckTimer s"
  "ch_dnsSocket (recordMetrics env a b s) = ch_dnsSocket s"
  "ch_dnsPingTimer (recordMetrics env a b s) = ch_dnsPingTimer s"
  "ch_dnsPingInitialized (recordMetrics env a b s) = ch_dnsPingInitialized s"
  by (simp_all add: startTimingDistributionMetric_def stopTimingDistributionMetric_def recordMetrics_def Let_def)

lemma setStability_frame [simp]:
  "ch_pingHelper (setStability env st s) = ch_pingHelper s"
  "ch_noSignalTimer (setStability env st s) = ch_noSignalTimer s"
  "ch_healthCheckTimer (setStability env st s) = ch_healthCheckTimer s"
  "ch_dnsSocket (setStability env st s) = ch_dnsSocket s"
  "ch_dnsPingTimer (setStability env st s) = ch_dnsPingTimer s"
  "ch_dnsPingInitialized (setStability env st s) = ch_dnsPingInitialized s"
  "ch_stability (setStability env st s) = (if ch_stabilityOverwritten s then ch_stability s else st)"
  by (simp_all add: setStability_def Let_def)

section \<open>The invariant\<close>

text \<open>
  The ping window is always well-formed, the DNS timer runs only while its socket is open, and the
  two ways of measuring exclude each other: while the tunnel is pinged the idle DNS timer is off.
\<close>

definition health_inv :: "connection_health \<Rightarrow> bool" where
  "health_inv s \<longleftrightarrow> ping.reach (ch_pingHelper s) \<and> (ch_dnsPingTimer s \<longrightarrow> ch_dnsSocket s) \<and>
     (ph_timer (ch_pingHelper s) \<longrightarrow> \<not> ch_dnsPingTimer s)"

lemma ping_reach_ops:
  assumes "ping.reach p"
  shows "ping.reach (ph_stop p)" "ping.reach (ph_start a b c d p)" "ping.reach (nextPing n p)"
    "ping.reach (ph_pingReceived n q p)"
  using ping.reach_step [OF assms, of PStop] ping.reach_step [OF assms, of "PStart a b c d"]
    ping.reach_step [OF assms, of "PNext n"] ping.reach_step [OF assms, of "PReceived n q"] by simp_all

lemma ph_timer_ops [simp]:
  "\<not> ph_timer (ph_stop p)" "ph_timer (ph_start a b c d p)" "ph_timer (nextPing n p) = ph_timer p"
  "ph_timer (ph_pingReceived n q p) = ph_timer p"
  by (simp_all add: ph_stop_def ph_start_def nextPing_def ph_pingReceived_def Let_def)

lemma health_stop_inv: "health_inv s \<Longrightarrow> health_inv (health_stop env s)"
  by (simp add: health_inv_def health_stop_def ping_reach_ops)

lemma startActive_inv: "health_inv s \<Longrightarrow> health_inv (startActive env gw dev s)"
  by (simp add: health_inv_def startActive_def Let_def ping_reach_ops)

lemma send_dns_ping_frame [simp]:
  "ch_pingHelper (send_dns_ping env s) = ch_pingHelper s" "ch_dnsSocket (send_dns_ping env s) = ch_dnsSocket s"
  "ch_dnsPingTimer (send_dns_ping env s) = (ch_dnsPingTimer s \<and> ch_dnsSocket s)"
  by (simp_all add: send_dns_ping_def Let_def dns_sendPing_def)

lemma startIdle_inv: "health_inv s \<Longrightarrow> health_inv (startIdle env s)"
  by (auto simp: health_inv_def startIdle_def Let_def ping_reach_ops)

lemma healthCheckup_inv: "health_inv s \<Longrightarrow> health_inv (healthCheckup env s)"
  by (simp add: health_inv_def healthCheckup_def)

lemma health_pingReply_inv: "health_inv s \<Longrightarrow> health_inv (health_pingReply env seq s)"
  by (simp add: health_inv_def health_pingReply_def health_pingSentAndReceived_def healthCheckup_def Let_def ping_reach_ops)

lemma connectionStateChanged_inv: "health_inv s \<Longrightarrow> health_inv (connectionStateChanged env s)"
proof -
  assume "health_inv s"
  then have "health_inv (if he_state env \<noteq> StateInitializing then startUnsettledPeriod s else s)"
    by (simp add: health_inv_def startUnsettledPeriod_def)
  then show ?thesis
    by (auto simp: connectionStateChanged_def Let_def intro: health_stop_inv startIdle_inv)
      (auto simp: health_inv_def)
qed

lemma health_step_inv: "health_inv s \<Longrightarrow> health_guard s e \<Longrightarrow> health_inv (health_step s e)"
proof -
  assume inv: "health_inv s"
  obtain env ev where e: "e = (env, ev)" by force
  have upd: "health_inv (s\<lparr>ch_suspended := b\<rparr>)" for b using inv by (simp add: health_inv_def)
  show ?thesis using inv unfolding e
    by (cases ev)
      (auto simp: connectionStateChanged_inv statusReply_def startActive_inv health_stop_inv healthCheckup_inv
        health_pingReply_inv health_applicationStateChanged_def upd,
       auto simp: health_inv_def settlingTimeout_def dnsPingTimeout_def dnsPingReceived_def updateDnsPingLatency_def
        overwriteStabilityForInspector_def ping_reach_ops)
qed

interpretation health: transition_system "\<lambda>s. \<exists>b. s = emptyHealth b" health_step health_guard health_inv
proof
  fix s assume "\<exists>b. s = emptyHealth b"
  moreover have "ping.reach emptyPingHelper" by (rule ping.reach_init) simp
  ultimately show "health_inv s" by (auto simp: health_inv_def emptyHealth_def)
next
  fix s e assume "health_inv s" "health_guard s e"
  then show "health_inv (health_step s e)" by (rule health_step_inv)
qed


section \<open>Properties\<close>

definition sample_henv :: "controller_state \<Rightarrow> int \<Rightarrow> health_env" where
  "sample_henv st now = \<lparr>he_now = now, he_state = st, he_mobile = False, he_icmpValid = True,
     he_dnsValid = True, he_random = 0, he_timerId = 1\<rparr>"

lemma silentSwitch_requested:
  "SilentSwitch \<in> set (drop (length (ch_out s)) (ch_out (setStability env st s))) \<longleftrightarrow>
     \<not> ch_stabilityOverwritten s \<and> st = Unstable \<and> he_state env \<noteq> StateOnPartial"
  by (auto simp: setStability_def Let_def recordMetrics_def startTimingDistributionMetric_def
      stopTimingDistributionMetric_def)

text \<open>
  The health check, in every reachable state.  The connection is judged to have no signal
  exactly when no ping was answered within the no-signal period, otherwise unstable exactly when at
  least 4 of the last 32 pings are lost or, with a baseline measured, some recent round trip
  exceeds the baseline by more than a second, otherwise stable; a silent server switch is requested
  exactly for the unstable verdict outside partial protection; and a stability forced by the
  inspector is never changed.
\<close>

theorem health_check_exact:
  fixes env :: health_env
  assumes "health.reach s"
  defines "unstable \<equiv> 4 \<le> lost (he_now env) (ch_pingHelper s) \<or>
    (ch_dnsPingInitialized s \<and> uint (1000 + ch_dnsPingLatency s) < uint (ph_maximum (ch_pingHelper s)))"
  shows "ch_stability (healthCheckup env s) =
      (if ch_stabilityOverwritten s then ch_stability s
       else if \<not> ch_noSignalTimer s then NoSignal else if unstable then Unstable else Stable) \<and>
    (SilentSwitch \<in> set (drop (length (ch_out s)) (ch_out (healthCheckup env s))) \<longleftrightarrow>
       \<not> ch_stabilityOverwritten s \<and> ch_noSignalTimer s \<and> unstable \<and> he_state env \<noteq> StateOnPartial)"
proof -
  have len: "length (ph_data (ch_pingHelper s)) = PING_STATS_WINDOW"
    using health.reach_inv [OF assms(1)] ping.reach_inv by (auto simp: health_inv_def ping_inv_def)
  have "ph_loss (he_now env) (ch_pingHelper s) > PING_LOSS_UNSTABLE_THRESHOLD \<longleftrightarrow> 4 \<le> lost (he_now env) (ch_pingHelper s)"
    unfolding PING_LOSS_UNSTABLE_THRESHOLD_def by (rule loss_threshold(3) [OF len])
  moreover have "(ucast m :: 64 word) > PING_TIME_UNSTABLE + l \<longleftrightarrow> uint (1000 + l) < uint m" for m :: "32 word" and l
    by (simp add: PING_TIME_UNSTABLE_def word_less_def uint_up_ucast is_up)
  ultimately have "health_verdict env s =
      (if \<not> ch_noSignalTimer s then NoSignal else if unstable then Unstable else Stable)"
    by (auto simp: health_verdict_def unstable_def)
  then show ?thesis by (simp add: healthCheckup_def silentSwitch_requested)
qed

theorem health_check_exact_witness:
  "ch_stability (healthCheckup (sample_henv StateOff 0) (emptyHealth True)) = NoSignal"
proof -
  have "health.reach (emptyHealth True)" by (rule health.reach_init) blast
  from health_check_exact [OF this] show ?thesis by (simp add: emptyHealth_def)
qed

text \<open>
  The baseline is an exponentially weighted average computed in 64-bit arithmetic: as long as
  the measured latencies stay below $2^{60}$ milliseconds nothing wraps, and the new value lies
  between the old one and the measured one, within one eighth of their distance (rounded down).
\<close>

theorem baseline_ewma:
  fixes latency :: "64 word"
  assumes "ch_dnsPingInitialized s" "unat (ch_dnsPingLatency s) < 2 ^ 60" "unat latency < 2 ^ 60"
  defines "old \<equiv> unat (ch_dnsPingLatency s)" and "new \<equiv> unat (ch_dnsPingLatency (updateDnsPingLatency latency s))"
  shows "new = (7 * old + unat latency) div 8 \<and>
    min old (unat latency) \<le> new \<and> new \<le> max old (unat latency)"
proof -
  let ?w = "ch_dnsPingLatency s * 7 + latency"
  have b: "unat (ch_dnsPingLatency s) * 7 < 2 ^ 64" "unat (ch_dnsPingLatency s) * 7 + unat latency < 2 ^ 64"
    using assms(2,3) by simp_all
  have "unat (ch_dnsPingLatency s * 7) = unat (ch_dnsPingLatency s) * 7"
    using b(1) by (subst unat_word_ariths(2)) simp
  then have "unat ?w = unat (ch_dnsPingLatency s) * 7 + unat latency"
    using b(2) by (subst unat_word_ariths(1)) simp
  then have "new = (7 * old + unat latency) div 8"
    using assms(1) by (simp add: new_def old_def updateDnsPingLatency_def PING_BASELINE_EWMA_DIVISOR_def unat_div mult.commute)
  then show ?thesis by auto
qed

theorem baseline_ewma_witness:
  "unat (ch_dnsPingLatency (updateDnsPingLatency 20
     ((emptyHealth True)\<lparr>ch_dnsPingInitialized := True, ch_dnsPingLatency := 100\<rparr>))) = 90"
  using baseline_ewma [of "(emptyHealth True)\<lparr>ch_dnsPingInitialized := True, ch_dnsPingLatency := 100\<rparr>" 20]
  by simp

section \<open>The baseline after the first session\<close>

text \<open>No socket and no baseline: nothing gives either back.\<close>

definition no_baseline :: "connection_health \<Rightarrow> bool" where
  "no_baseline s \<longleftrightarrow> \<not> ch_dnsSocket s \<and> \<not> ch_dnsPingInitialized s"

lemma no_baseline_ops:
  assumes "no_baseline s"
  shows "no_baseline (health_stop env s)" "no_baseline (startActive env gw dev s)" "no_baseline (startIdle env s)"
    "no_baseline (healthCheckup env s)" "no_baseline (startUnsettledPeriod s)" "no_baseline (settlingTimeout s)"
    "no_baseline (ch_emit x s)" "no_baseline (s\<lparr>ch_suspended := b\<rparr>)" "no_baseline (s\<lparr>ch_noSignalTimer := b\<rparr>)"
    "no_baseline (s\<lparr>ch_pingHelper := p\<rparr>)" "no_baseline (health_pingReply env seq s)" "no_baseline (dnsPingTimeout env s)"
    "no_baseline (the (overwriteStabilityForInspector False st s))"
  using assms
  by (simp_all add: no_baseline_def health_stop_def startActive_def startIdle_def Let_def healthCheckup_def
      startUnsettledPeriod_def settlingTimeout_def health_pingReply_def health_pingSentAndReceived_def
      dnsPingTimeout_def send_dns_ping_def dns_sendPing_def overwriteStabilityForInspector_def)

lemma no_baseline_step: "no_baseline s \<Longrightarrow> health_guard s e \<Longrightarrow> no_baseline (health_step s e)"
proof -
  assume nb: "no_baseline s" and guard: "health_guard s e"
  obtain env ev where e: "e = (env, ev)" by force
  have open_needed: "ev \<noteq> HDnsReply q" for q using nb guard by (auto simp: e no_baseline_def)
  have st: "no_baseline (connectionStateChanged env s)"
    using nb by (auto simp: connectionStateChanged_def Let_def intro!: no_baseline_ops)
  have ap: "no_baseline (health_applicationStateChanged env a s)" for a
    using nb by (auto simp: health_applicationStateChanged_def intro!: no_baseline_ops)
  show ?thesis unfolding e using st ap no_baseline_ops [OF nb]
    by (cases ev) (simp_all add: statusReply_def no_baseline_ops nb open_needed)
qed

interpretation deaf: transition_system no_baseline health_step health_guard no_baseline
  by unfold_locales (auto intro: no_baseline_step)

text \<open>
  After the first session the latency baseline is gone for good.  Stopping the checks (as every
  connection attempt does) closes the socket of the DNS ping sender, which nothing opens again; the
  idle period that follows the disconnection discards the old baseline, and in no state reached from
  there is one ever measured, so slow round trips no longer make the connection unstable.
\<close>

theorem baseline_lost_after_session:
  assumes "health.enabled_run (startIdle env' (health_stop env s)) es"
  defines "t \<equiv> fold (\<lambda>e t. health_step t e) es (startIdle env' (health_stop env s))"
  shows "\<not> ch_dnsPingInitialized t \<and>
    (health_verdict e t = Unstable \<longrightarrow> ph_loss (he_now e) (ch_pingHelper t) > PING_LOSS_UNSTABLE_THRESHOLD)"
proof -
  have "no_baseline (startIdle env' (health_stop env s))"
    by (simp add: no_baseline_def startIdle_def health_stop_def Let_def)
  from deaf.run_init_inv [OF this assms(1)] have "\<not> ch_dnsPingInitialized t" by (simp add: no_baseline_def t_def)
  then show ?thesis by (auto simp: health_verdict_def split: if_splits)
qed

theorem baseline_lost_after_session_witness:
  "\<not> ch_dnsPingInitialized (health_step
     (startIdle (sample_henv StateOff 9) (health_stop (sample_henv StateConnecting 5) (emptyHealth True)))
     (sample_henv StateOff 9, HStateChanged))"
  using baseline_lost_after_session
    [of "sample_henv StateOff 9" "sample_henv StateConnecting 5" "emptyHealth True" "[(sample_henv StateOff 9, HStateChanged)]"]
  by (simp add: health.enabled_run.simps)

end
