(* ===== verification/LocalSocketController.thy ===== *)
theory LocalSocketController
  imports Controller DaemonConnection
begin

text \<open>
  Model of \<^verbatim>\<open>src/src/localsocketcontroller.cpp\<close> (and of \<^verbatim>\<open>ControllerImpl::emitStatusFromJson\<close>): the
  platform controller of the desktop clients, which talks to the daemon over a local socket, one
  JSON object per line, and reconnects with an exponential backoff.  The socket is seen through
  its signals (events) and through the calls made on it (outputs); JSON text conversion and date
  parsing are parameters.  \<^verbatim>\<open>clearTimeout\<close> is modelled as the removal of every timer waiting for the
  given response type.
\<close>

datatype daemon_state = LsUnknown | LsInitializing | LsReady | LsDisconnectedState

text \<open>The state of the \<^verbatim>\<open>QLocalSocket\<close>.\<close>

datatype socket_state = SockUnconnected | SockConnecting | SockConnected

datatype client_error = LsControllerError | LsSplitTunnelError

datatype ls_out =
    LsSocketConnect
  | LsWrite json_object
  | LsInitialized bool bool "int option"
  | LsConnected string
  | LsDisconnected
  | LsStatusUpdated string string "64 word" "64 word"
  | LsReportError client_error
  | LsLogs nat string

record local_socket =
  ls_daemonState :: daemon_state
  ls_socket :: socket_state
  ls_buffer :: string
  ls_logCallback :: "nat option"
  ls_initializingTimer :: "u32 option"
  ls_initializingInterval :: u32
  ls_responseTimeouts :: "string list"
  ls_out :: "ls_out list"

definition CONNECTION_RETRY_INITIAL_MSEC :: u32 where
  "CONNECTION_RETRY_INITIAL_MSEC = 500"

definition CONNECTION_RETRY_MAXIMUM_MSEC :: u32 where
  "CONNECTION_RETRY_MAXIMUM_MSEC = 16000"

definition emptyLocalSocket :: local_socket where
  "emptyLocalSocket = \<lparr>ls_daemonState = LsUnknown, ls_socket = SockUnconnected, ls_buffer = [], ls_logCallback = None,
     ls_initializingTimer = None, ls_initializingInterval = CONNECTION_RETRY_INITIAL_MSEC,
     ls_responseTimeouts = [], ls_out = []\<rparr>"

definition ls_emit :: "ls_out \<Rightarrow> local_socket \<Rightarrow> local_socket" where
  "ls_emit x s = s\<lparr>ls_out := ls_out s @ [x]\<rparr>"

section \<open>Operations\<close>

definition clearAllTimeouts :: "local_socket \<Rightarrow> local_socket" where
  "clearAllTimeouts s = s\<lparr>ls_responseTimeouts := []\<rparr>"

definition clearTimeout :: "string \<Rightarrow> local_socket \<Rightarrow> local_socket" where
  "clearTimeout responseType s =
     s\<lparr>ls_responseTimeouts := filter (\<lambda>t. t \<noteq> responseType) (ls_responseTimeouts s)\<rparr>"

definition ls_write :: "json_object \<Rightarrow> string \<Rightarrow> local_socket \<Rightarrow> local_socket" where
  "ls_write message expectedResponseType s =
     ls_emit (LsWrite message)
       (if expectedResponseType \<noteq> []
        then s\<lparr>ls_responseTimeouts := ls_responseTimeouts s @ [expectedResponseType]\<rparr> else s)"

definition errorOccurred :: "local_socket \<Rightarrow> local_socket" where
  "errorOccurred s =
    (let s1 = (if ls_daemonState s \<noteq> LsInitializing
               then ls_emit LsDisconnected (ls_emit (LsReportError LsControllerError) s) else s)
     in (clearAllTimeouts s1)\<lparr>ls_initializingTimer := Some (ls_initializingInterval s1)\<rparr>)"

definition disconnectInternal :: "local_socket \<Rightarrow> local_socket" where
  "disconnectInternal s =
     ls_emit LsDisconnected (s\<lparr>ls_daemonState := LsReady, ls_initializingTimer := None\<rparr>)"

text \<open>
  \<^verbatim>\<open>abort\<close> on a connected socket disconnects it; \<open>abortSignals\<close> says whether the socket emits
  \<^verbatim>\<open>disconnected\<close> for that, which calls \<^verbatim>\<open>errorOccurred\<close> on the spot.
\<close>

definition initializeInternal :: "bool \<Rightarrow> local_socket \<Rightarrow> local_socket" where
  "initializeInternal abortSignals s =
    (let s1 = (if ls_daemonState s \<noteq> LsInitializing
               then s\<lparr>ls_initializingInterval := CONNECTION_RETRY_INITIAL_MSEC\<rparr>
               else if ls_initializingInterval s < CONNECTION_RETRY_MAXIMUM_MSEC
               then s\<lparr>ls_initializingInterval := ls_initializingInterval s * 2\<rparr> else s);
         s2 = s1\<lparr>ls_daemonState := LsInitializing\<rparr>;
         s3 = (if abortSignals \<and> ls_socket s2 = SockConnected then errorOccurred s2 else s2)
     in ls_emit LsSocketConnect (s3\<lparr>ls_socket := SockConnecting\<rparr>))"

definition ls_initialize :: "bool \<Rightarrow> local_socket \<Rightarrow> local_socket" where
  "ls_initialize abortSignals s = initializeInternal abortSignals s"

definition ls_message :: "string \<Rightarrow> json_object" where
  "ls_message type = obj_insert ''type'' (JString type) []"

definition ls_checkStatus :: "local_socket \<Rightarrow> local_socket" where
  "ls_checkStatus s =
    (if ls_daemonState s = LsReady \<or> ls_daemonState s = LsInitializing
     then ls_write (ls_message ''status'') ''status'' s else s)"

definition daemonConnected :: "local_socket \<Rightarrow> local_socket" where
  "daemonConnected s = ls_checkStatus s"

definition ls_activate ::
    "(hop_type \<Rightarrow> string) \<Rightarrow> (host_address \<Rightarrow> string) \<Rightarrow> interface_config \<Rightarrow> local_socket \<Rightarrow> local_socket" where
  "ls_activate valueToKey printHost config s =
     ls_write (obj_insert ''type'' (JString ''activate'') (config_toJson valueToKey printHost config)) [] s"

definition ls_deactivate :: "reason \<Rightarrow> local_socket \<Rightarrow> local_socket" where
  "ls_deactivate reason s =
    (if ls_daemonState s \<noteq> LsReady then ls_emit LsDisconnected s
     else if reason = ReasonSwitching then ls_emit LsDisconnected s
     else ls_write (ls_message ''deactivate'') [] s)"

definition getBackendLogs :: "nat \<Rightarrow> local_socket \<Rightarrow> local_socket" where
  "getBackendLogs cb s =
    (let s1 = (case ls_logCallback s of
                 Some old \<Rightarrow> (ls_emit (LsLogs old []) s)\<lparr>ls_logCallback := None\<rparr> | None \<Rightarrow> s)
     in if ls_daemonState s1 \<noteq> LsReady then ls_emit (LsLogs cb []) s1
        else ls_write (ls_message ''logs'') [] (s1\<lparr>ls_logCallback := Some cb\<rparr>))"

definition ls_cleanupBackendLogs :: "local_socket \<Rightarrow> local_socket" where
  "ls_cleanupBackendLogs s =
    (if ls_daemonState s \<noteq> LsReady then s else ls_write (ls_message ''cleanlogs'') ''logs'' s)"

text \<open>\<^verbatim>\<open>static_cast<uint64_t>\<close> of a double: truncation towards zero.\<close>

definition double_to_u64 :: "real \<Rightarrow> 64 word" where
  "double_to_u64 d = word_of_int (if d < 0 then \<lceil>d\<rceil> else \<lfloor>d\<rfloor>)"

definition emitStatusFromJson :: "json_object \<Rightarrow> local_socket \<Rightarrow> local_socket" where
  "emitStatusFromJson obj s =
    (let gw = obj_value obj ''serverIpv4Gateway''; dev = obj_value obj ''deviceIpv4Address'';
         tx = obj_value obj ''txBytes''; rx = obj_value obj ''rxBytes''
     in if \<not> isString gw then s
        else if \<not> isString dev then s
        else if \<not> isDouble tx then s
        else if \<not> isDouble rx then s
        else ls_emit (LsStatusUpdated (toString gw) (toString dev) (double_to_u64 (toDouble tx))
               (double_to_u64 (toDouble rx))) s)"

text \<open>\<^verbatim>\<open>enum class DaemonError\<close>: codes up to 4; the first two and unknown ones are generic errors.\<close>

definition backendFailure :: "json_object \<Rightarrow> client_error" where
  "backendFailure obj =
    (if \<not> obj_contains obj ''errorCode'' then LsControllerError
     else let errorCode = (word_of_int (toInt (obj_value obj ''errorCode'')) :: 8 word)
       in if errorCode \<ge> 5 then LsControllerError
          else if errorCode \<in> {0, 1} then LsControllerError
          else LsSplitTunnelError)"

definition init_status :: "(string \<Rightarrow> int option) \<Rightarrow> json_object \<Rightarrow> local_socket \<Rightarrow> local_socket" where
  "init_status parseDate obj s =
    (let s1 = s\<lparr>ls_daemonState := LsReady\<rparr>; connected = obj_value obj ''connected''
     in if \<not> isBool connected then s1
        else if toBool connected then
          (let date = obj_value obj ''date''
           in if \<not> isString date then s1
              else case parseDate (toString date) of
                     None \<Rightarrow> s1
                   | Some d \<Rightarrow> ls_emit (LsInitialized True True (Some d)) s1)
        else ls_emit (LsInitialized True False None) s1)"

definition ls_parseCommand ::
    "(string \<Rightarrow> json) \<Rightarrow> (string \<Rightarrow> int option) \<Rightarrow> string \<Rightarrow> local_socket \<Rightarrow> local_socket" where
  "ls_parseCommand parseDoc parseDate command s =
    (let json = parseDoc command; obj = toObject json; typeValue = obj_value obj ''type'';
         type = toString typeValue
     in if \<not> isObject json then s
        else if \<not> isString typeValue then s
        else
          let s1 = clearTimeout type s
          in if ls_daemonState s1 = LsInitializing \<and> type = ''status'' then init_status parseDate obj s1
             else if ls_daemonState s1 \<noteq> LsReady then s1
             else if type = ''status'' then emitStatusFromJson obj s1
             else if type = ''disconnected'' then disconnectInternal s1
             else if type = ''connected'' then
               (if \<not> isString (obj_value obj ''pubkey'') then s1
                else ls_emit (LsConnected (toString (obj_value obj ''pubkey''))) s1)
             else if type = ''backendFailure'' then ls_emit (LsReportError (backendFailure obj)) s1
             else if type = ''logs'' then
               (case ls_logCallback s1 of
                  None \<Rightarrow> s1
                | Some cb \<Rightarrow>
                    (ls_emit (LsLogs cb
                       (if isString (obj_value obj ''logs'')
                        then map (\<lambda>c. if c = CHR ''|'' then newline else c) (toString (obj_value obj ''logs''))
                        else [])) s1)\<lparr>ls_logCallback := None\<rparr>)
             else s1)"

text \<open>\<^verbatim>\<open>readData\<close>: the loop of the daemon's side, on the whole input appended to the buffer.\<close>

definition ls_readData ::
    "(string \<Rightarrow> json) \<Rightarrow> (string \<Rightarrow> int option) \<Rightarrow> string \<Rightarrow> local_socket \<Rightarrow> local_socket" where
  "ls_readData parseDoc parseDate input s =
    (let (rest, s1) = read_loop (ls_parseCommand parseDoc parseDate) [] (ls_buffer s @ input) s
     in s1\<lparr>ls_buffer := rest\<rparr>)"


section \<open>Events\<close>

datatype ls_event =
    LInitialize bool
  | LSocketConnected
  | LSocketError
  | LTimer bool
  | LResponseTimeout
  | LRead string
  | LActivate interface_config
  | LDeactivate reason
  | LCheckStatus
  | LGetLogs nat
  | LCleanLogs

record ls_env =
  le_parseDoc :: "string \<Rightarrow> json"
  le_parseDate :: "string \<Rightarrow> int option"
  le_valueToKey :: "hop_type \<Rightarrow> string"
  le_printHost :: "host_address \<Rightarrow> string"

fun ls_step :: "local_socket \<Rightarrow> ls_env \<times> ls_event \<Rightarrow> local_socket" where
  "ls_step s (env, LInitialize b) = ls_initialize b s"
| "ls_step s (env, LSocketConnected) = daemonConnected (s\<lparr>ls_socket := SockConnected\<rparr>)"
| "ls_step s (env, LSocketError) = errorOccurred (s\<lparr>ls_socket := SockUnconnected\<rparr>)"
| "ls_step s (env, LTimer b) = initializeInternal b (s\<lparr>ls_initializingTimer := None\<rparr>)"
| "ls_step s (env, LResponseTimeout) = errorOccurred s"
| "ls_step s (env, LRead input) = ls_readData (le_parseDoc env) (le_parseDate env) input s"
| "ls_step s (env, LActivate config) = ls_activate (le_valueToKey env) (le_printHost env) config s"
| "ls_step s (env, LDeactivate reason) = ls_deactivate reason s"
| "ls_step s (env, LCheckStatus) = ls_checkStatus s"
| "ls_step s (env, LGetLogs cb) = getBackendLogs cb s"
| "ls_step s (env, LCleanLogs) = ls_cleanupBackendLogs s"

fun ls_guard :: "local_socket \<Rightarrow> ls_env \<times> ls_event \<Rightarrow> bool" where
  "ls_guard s (env, LInitialize b) = (ls_daemonState s = LsUnknown)"
| "ls_guard s (env, LSocketConnected) = (ls_socket s = SockConnecting)"
| "ls_guard s (env, LSocketError) = (ls_socket s \<noteq> SockUnconnected)"
| "ls_guard s (env, LTimer b) = (ls_initializingTimer s \<noteq> None)"
| "ls_guard s (env, LResponseTimeout) = (ls_responseTimeouts s \<noteq> [])"
| "ls_guard s (env, LRead input) = (ls_socket s = SockConnected)"
| "ls_guard s (env, e) = True"

section \<open>Invariant\<close>

definition backoff_values :: "u32 set" where
  "backoff_values = {500, 1000, 2000, 4000, 8000, 16000}"

text \<open>
  The controller is never stuck: while it initialises, a retry is scheduled, a connection is being
  made or a status reply is awaited with a timeout; once ready, it has its socket or a retry is
  scheduled.
\<close>

definition ls_inv :: "local_socket \<Rightarrow> bool" where
  "ls_inv s \<longleftrightarrow>
     ls_initializingInterval s \<in> backoff_values \<and>
     (\<forall>t. ls_initializingTimer s = Some t \<longrightarrow> t \<in> backoff_values) \<and>
     ls_daemonState s \<noteq> LsDisconnectedState \<and>
     (ls_daemonState s = LsUnknown \<longrightarrow>
        ls_socket s = SockUnconnected \<and> ls_initializingTimer s = None \<and> ls_responseTimeouts s = []) \<and>
     (ls_daemonState s = LsInitializing \<longrightarrow>
        ls_initializingTimer s \<noteq> None \<or> ls_socket s = SockConnecting \<or> ''status'' \<in> set (ls_responseTimeouts s)) \<and>
     (ls_daemonState s = LsReady \<longrightarrow> ls_socket s = SockConnected \<or> ls_initializingTimer s \<noteq> None)"

lemma ls_emit_frame [simp]:
  "ls_daemonState (ls_emit x s) = ls_daemonState s" "ls_socket (ls_emit x s) = ls_socket s"
  "ls_buffer (ls_emit x s) = ls_buffer s" "ls_logCallback (ls_emit x s) = ls_logCallback s"
  "ls_initializingTimer (ls_emit x s) = ls_initializingTimer s"
  "ls_initializingInterval (ls_emit x s) = ls_initializingInterval s"
  "ls_responseTimeouts (ls_emit x s) = ls_responseTimeouts s"
  "ls_out (ls_emit x s) = ls_out s @ [x]"
  by (simp_all add: ls_emit_def)

lemma ls_emit_inv [simp]: "ls_inv (ls_emit x s) = ls_inv s"
  by (simp add: ls_inv_def)

lemma ls_upd_inv [simp]:
  "ls_inv (s\<lparr>ls_buffer := b\<rparr>) = ls_inv s" "ls_inv (s\<lparr>ls_logCallback := c\<rparr>) = ls_inv s"
  by (simp_all add: ls_inv_def)

lemma ls_write_inv: "ls_inv s \<Longrightarrow> ls_daemonState s \<noteq> LsUnknown \<or> r = [] \<Longrightarrow> ls_inv (ls_write msg r s)"
  by (auto simp: ls_write_def) (auto simp: ls_inv_def)

lemma errorOccurred_inv:
  "ls_initializingInterval s \<in> backoff_values \<Longrightarrow> ls_daemonState s \<in> {LsInitializing, LsReady} \<Longrightarrow> ls_inv (errorOccurred s)"
  by (auto simp: errorOccurred_def clearAllTimeouts_def Let_def ls_inv_def)

lemma backoff_step: "i \<in> backoff_values \<Longrightarrow> i < 16000 \<Longrightarrow> i * 2 \<in> backoff_values"
  by (auto simp: backoff_values_def)

lemma initializeInternal_inv:
  assumes "ls_initializingInterval s \<in> backoff_values"
    and "\<forall>t. ls_initializingTimer s = Some t \<longrightarrow> t \<in> backoff_values"
  shows "ls_inv (initializeInternal b s)"
  using assms backoff_step [OF assms(1)]
  by (auto simp: initializeInternal_def Let_def ls_inv_def errorOccurred_def clearAllTimeouts_def
      CONNECTION_RETRY_INITIAL_MSEC_def CONNECTION_RETRY_MAXIMUM_MSEC_def, auto simp: backoff_values_def)

text \<open>A line from the daemon arrives on a connected socket and leaves it connected.\<close>

lemma parseCommand_inv:
  assumes "ls_inv s" "ls_socket s = SockConnected"
  shows "ls_inv (ls_parseCommand parseDoc parseDate command s) \<and>
    ls_socket (ls_parseCommand parseDoc parseDate command s) = SockConnected"
proof -
  let ?type = "toString (obj_value (toObject (parseDoc command)) ''type'')"
  define s1 where "s1 = clearTimeout ?type s"
  have fr: "ls_socket s1 = SockConnected" "ls_daemonState s1 = ls_daemonState s" "ls_logCallback s1 = ls_logCallback s"
    using assms(2) by (simp_all add: s1_def clearTimeout_def)
  have ready: "ls_inv s1" if "ls_daemonState s \<noteq> LsInitializing \<or> ?type \<noteq> ''status''"
    using assms that by (auto simp: s1_def clearTimeout_def ls_inv_def)
  have st: "ls_inv (init_status parseDate obj s1) \<and> ls_socket (init_status parseDate obj s1) = SockConnected" for obj
    using assms fr by (auto simp: init_status_def Let_def s1_def clearTimeout_def ls_inv_def split: option.splits)
  have em: "ls_inv (emitStatusFromJson obj s1) = ls_inv s1 \<and> ls_socket (emitStatusFromJson obj s1) = ls_socket s1" for obj
    by (simp add: emitStatusFromJson_def Let_def)
  have di: "ls_inv (disconnectInternal s1) \<and> ls_socket (disconnectInternal s1) = SockConnected" if "ls_inv s1"
    using that fr by (auto simp: disconnectInternal_def ls_inv_def)
  show ?thesis using assms ready st em di fr
    by (auto simp: ls_parseCommand_def Let_def s1_def [symmetric] split: option.splits)
qed

lemma lines_inv:
  assumes "ls_inv s" "ls_socket s = SockConnected"
  shows "ls_inv (fold (exec_line (ls_parseCommand parseDoc parseDate)) ls s) \<and>
    ls_socket (fold (exec_line (ls_parseCommand parseDoc parseDate)) ls s) = SockConnected"
  using assms
proof (induction ls arbitrary: s)
  case (Cons l ls)
  then show ?case using parseCommand_inv [of s parseDoc parseDate "trimmed l"] by (simp add: exec_line_def)
qed simp

lemma ls_readData_split:
  "ls_readData parseDoc parseDate input s =
    (fold (exec_line (ls_parseCommand parseDoc parseDate)) (butlast (split_on newline (ls_buffer s @ input))) s)
      \<lparr>ls_buffer := last (split_on newline (ls_buffer s @ input))\<rparr>"
  by (simp add: ls_readData_def read_loop_split)

lemma ls_step_inv: "ls_inv s \<Longrightarrow> ls_guard s e \<Longrightarrow> ls_inv (ls_step s e)"
proof -
  assume inv: "ls_inv s" and guard: "ls_guard s e"
  obtain env ev where e: "e = (env, ev)" by force
  have iv: "ls_initializingInterval s \<in> backoff_values" "\<forall>t. ls_initializingTimer s = Some t \<longrightarrow> t \<in> backoff_values"
    using inv by (simp_all add: ls_inv_def)
  have st: "ls_daemonState s \<in> {LsInitializing, LsReady}"
    if "ls_socket s \<noteq> SockUnconnected \<or> ls_responseTimeouts s \<noteq> []"
    using inv that by (cases "ls_daemonState s") (auto simp: ls_inv_def)
  show ?thesis
  proof (cases ev)
    case LSocketConnected
    then have "ls_socket s = SockConnecting" using guard by (simp add: e)
    then have "ls_daemonState s \<in> {LsInitializing, LsReady}" using st by simp
    then show ?thesis using inv LSocketConnected
      by (auto simp: e daemonConnected_def ls_checkStatus_def ls_write_def ls_inv_def)
  next
    case LSocketError
    then show ?thesis using iv st guard by (auto simp: e intro!: errorOccurred_inv)
  next
    case LResponseTimeout
    then show ?thesis using iv st guard by (auto simp: e intro!: errorOccurred_inv)
  next
    case (LRead input)
    then show ?thesis using lines_inv [OF inv] guard by (simp add: e ls_readData_split)
  next
    case (LActivate c)
    then show ?thesis using inv by (simp add: e ls_activate_def ls_write_inv)
  next
    case (LDeactivate r)
    then show ?thesis using inv by (auto simp: e ls_deactivate_def intro: ls_write_inv)
  next
    case (LGetLogs cb)
    then show ?thesis using inv by (auto simp: e getBackendLogs_def Let_def intro!: ls_write_inv split: option.splits)
  qed (use inv iv in \<open>auto simp: e ls_initialize_def ls_checkStatus_def ls_cleanupBackendLogs_def
         intro!: initializeInternal_inv ls_write_inv\<close>)
qed

interpretation lsock: transition_system "\<lambda>s. s = emptyLocalSocket" ls_step ls_guard ls_inv
proof
  fix s assume "s = emptyLocalSocket"
  then show "ls_inv s" by (simp add: ls_inv_def emptyLocalSocket_def backoff_values_def CONNECTION_RETRY_INITIAL_MSEC_def)
next
  fix s e assume "ls_inv s" "ls_guard s e"
  then show "ls_inv (ls_step s e)" by (rule ls_step_inv)
qed


section \<open>Properties\<close>

text \<open>
  C17: The local socket controller never gets stuck.  In every reachable state: while it initialises,
  a reconnection is scheduled, a connection attempt is under way, or a status reply is awaited under
  a timeout; once ready, it has its socket or a reconnection is scheduled; and every delay it uses
  is one of 0.5, 1, 2, 4, 8 or 16 seconds.
\<close>

theorem local_socket_reachable:
  assumes "lsock.reach s"
  shows "(ls_daemonState s = LsInitializing \<longrightarrow>
      ls_initializingTimer s \<noteq> None \<or> ls_socket s = SockConnecting \<or> ''status'' \<in> set (ls_responseTimeouts s)) \<and>
    (ls_daemonState s = LsReady \<longrightarrow> ls_socket s = SockConnected \<or> ls_initializingTimer s \<noteq> None) \<and>
    (\<forall>t. ls_initializingTimer s = Some t \<longrightarrow> t \<in> {500, 1000, 2000, 4000, 8000, 16000})"
  using lsock.reach_inv [OF assms] by (simp add: ls_inv_def backoff_values_def)

definition sample_lsenv :: ls_env where
  "sample_lsenv = \<lparr>le_parseDoc = (\<lambda>_. JNull), le_parseDate = (\<lambda>_. None), le_valueToKey = (\<lambda>_. []), le_printHost = (\<lambda>_. [])\<rparr>"

theorem local_socket_reachable_witness:
  "let s = ls_step (ls_step emptyLocalSocket (sample_lsenv, LInitialize False)) (sample_lsenv, LSocketError)
   in ls_daemonState s = LsInitializing \<and> ls_initializingTimer s \<noteq> None"
proof -
  let ?s = "ls_step (ls_step emptyLocalSocket (sample_lsenv, LInitialize False)) (sample_lsenv, LSocketError)"
  have "lsock.reach emptyLocalSocket" by (rule lsock.reach_init) simp
  then have "lsock.reach (ls_step emptyLocalSocket (sample_lsenv, LInitialize False))"
    by (rule lsock.reach_step) code_simp
  then have "lsock.reach ?s" by (rule lsock.reach_step) code_simp
  moreover have "ls_daemonState ?s = LsInitializing" "ls_socket ?s = SockUnconnected" "ls_responseTimeouts ?s = []"
    by code_simp+
  ultimately show ?thesis using local_socket_reachable [of ?s] by (simp add: Let_def)
qed

text \<open>An attempt that fails, and the next one when the retry timer fires.\<close>

definition failed_attempt :: "local_socket \<Rightarrow> local_socket" where
  "failed_attempt s =
     initializeInternal False ((errorOccurred (s\<lparr>ls_socket := SockUnconnected\<rparr>))\<lparr>ls_initializingTimer := None\<rparr>)"

lemma failed_attempt_frame:
  assumes "ls_daemonState s = LsInitializing"
  shows "ls_daemonState (failed_attempt s) = LsInitializing"
    and "ls_initializingInterval (failed_attempt s) =
      (if ls_initializingInterval s < 16000 then ls_initializingInterval s * 2 else ls_initializingInterval s)"
  using assms by (simp_all add: failed_attempt_def initializeInternal_def errorOccurred_def clearAllTimeouts_def
      Let_def CONNECTION_RETRY_MAXIMUM_MSEC_def)

lemma backoff_values_unat: "i \<in> backoff_values \<Longrightarrow> unat i \<in> {500, 1000, 2000, 4000, 8000, 16000}"
  by (auto simp: backoff_values_def)

text \<open>
  Exponential backoff.  After the $n$-th consecutive failed attempt to reach the daemon the
  client waits 500 ms times $2^n$, but never more than 16 seconds, however long the daemon stays
  away.
\<close>

theorem backoff_exponential:
  assumes "ls_daemonState s \<noteq> LsInitializing"
  shows "unat (ls_initializingInterval ((failed_attempt ^^ n) (ls_initialize False s))) = min (500 * 2 ^ n) 16000"
proof -
  let ?t = "\<lambda>n. (failed_attempt ^^ n) (ls_initialize False s)"
  have init: "ls_daemonState (?t 0) = LsInitializing" "ls_initializingInterval (?t 0) = 500"
    using assms by (simp_all add: ls_initialize_def initializeInternal_def Let_def CONNECTION_RETRY_INITIAL_MSEC_def)
  have "ls_daemonState (?t n) = LsInitializing \<and> ls_initializingInterval (?t n) \<in> backoff_values \<and>
      unat (ls_initializingInterval (?t n)) = min (500 * 2 ^ n) 16000"
  proof (induction n)
    case 0
    then show ?case using init by (simp add: backoff_values_def)
  next
    case (Suc n)
    let ?i = "ls_initializingInterval (?t n)"
    have step: "ls_daemonState (?t (Suc n)) = LsInitializing"
      "ls_initializingInterval (?t (Suc n)) = (if ?i < 16000 then ?i * 2 else ?i)"
      using failed_attempt_frame [of "?t n"] Suc by simp_all
    have "unat (if ?i < 16000 then ?i * 2 else ?i) = min (2 * unat ?i) 16000"
      using Suc by (auto simp: backoff_values_def)
    then show ?case using Suc step backoff_step [of ?i] by (auto simp: min_def)
  qed
  then show ?thesis by blast
qed

theorem backoff_exponential_witness:
  "unat (ls_initializingInterval ((failed_attempt ^^ 3) (ls_initialize False emptyLocalSocket))) = min (500 * 2 ^ 3) 16000"
  by (rule backoff_exponential) (simp add: emptyLocalSocket_def)

section \<open>Client and daemon\<close>

text \<open>A JSON text on one line that the receiving side parses back to the object.\<close>

definition line_of :: "(string \<Rightarrow> json) \<Rightarrow> string \<Rightarrow> json_object \<Rightarrow> bool" where
  "line_of parseDoc row obj \<longleftrightarrow> newline \<notin> set row \<and> trimmed row \<noteq> [] \<and> parseDoc (trimmed row) = JObject obj"

lemma one_line:
  assumes "newline \<notin> set row"
  shows "split_on newline (row @ [newline]) = [row, []]"
  using split_on_append [of newline row "[]"] split_on_clean [OF assms] by simp

lemma typed_value [simp]: "obj_value (obj_insert ''type'' t obj) ''type'' = t"
  by (simp add: obj_value_def obj_insert_def update_conv)

lemma protocol_facts:
  fixes l :: local_socket and valueToKey printHost and c :: interface_config
  defines "obj \<equiv> obj_insert ''type'' (JString ''activate'') (config_toJson valueToKey printHost c)"
  assumes "line_of (DaemonConnection.ce_parseDoc env) row obj"
    and "DaemonConnection.ce_keyToValue env (valueToKey (ic_hopType c)) = Some (ic_hopType c)"
    and "printable printHost (DaemonConnection.ce_parseHost env) (ic_allowedIPAddressRanges c)"
    and "\<not> isSessionActive (sc_access s)" "uid \<noteq> -1"
    and "ls_daemonState l = LsReady" "line_of parseDoc t1 (connected_msg pk)" "line_of parseDoc t2 disconnected_msg"
    and "ls_buffer l = []"
  shows "ls_out (ls_activate valueToKey printHost c l) = ls_out l @ [LsWrite obj]"
    and "sc_daemon (snd (readData env uid (row @ [newline]) [] s)) =
      snd (Daemon.activate (ce_backend env) (DaemonConnection.ce_parseHost env) (transported c) (sc_daemon s))"
    and "ac_sessionOwner (sc_access (snd (readData env uid (row @ [newline]) [] s))) = uid"
    and "ls_out (ls_readData parseDoc parseDate (t1 @ [newline]) l) = ls_out l @ [LsConnected pk]"
    and "ls_out (ls_readData parseDoc parseDate (t2 @ [newline]) l) = ls_out l @ [LsDisconnected]"
proof -
  show "ls_out (ls_activate valueToKey printHost c l) = ls_out l @ [LsWrite obj]"
    by (simp add: ls_activate_def ls_write_def obj_def)
  have cfg: "parseConfig (DaemonConnection.ce_keyToValue env) (DaemonConnection.ce_parseHost env) obj emptyConfig =
      Some (transported c)"
    using parseConfig_toJson [of "DaemonConnection.ce_keyToValue env" valueToKey c printHost "DaemonConnection.ce_parseHost env"] assms(3,4) by (simp add: obj_def parseConfig_typed)
  have rd: "snd (readData env uid (row @ [newline]) [] s) =
      cmd_activate env obj (s\<lparr>sc_access := (sc_access s)\<lparr>ac_sessionOwner := uid\<rparr>\<rparr>)"
    using assms(2,5,6) one_line [of row]
    by (simp add: readData_def read_loop_split exec_line_def line_of_def parseCommand_def Let_def obj_def
        isCommandAuthorizedForPeer_def startSession_def run_command_def)
  show "sc_daemon (snd (readData env uid (row @ [newline]) [] s)) =
      snd (Daemon.activate (ce_backend env) (DaemonConnection.ce_parseHost env) (transported c) (sc_daemon s))"
    by (simp add: rd cmd_activate_def cfg Let_def with_daemon_def conn_write_def)
  show "ac_sessionOwner (sc_access (snd (readData env uid (row @ [newline]) [] s))) = uid"
    by (simp add: rd cmd_activate_def cfg Let_def with_daemon_def conn_write_def)
  show "ls_out (ls_readData parseDoc parseDate (t1 @ [newline]) l) = ls_out l @ [LsConnected pk]"
    using assms(7,8,10) one_line [of t1]
    by (simp add: ls_readData_split exec_line_def line_of_def ls_parseCommand_def Let_def clearTimeout_def
        connected_msg_def insert_all_def obj_value_def obj_insert_def update_conv)
  show "ls_out (ls_readData parseDoc parseDate (t2 @ [newline]) l) = ls_out l @ [LsDisconnected]"
    using assms(7,9,10) one_line [of t2]
    by (simp add: ls_readData_split exec_line_def line_of_def ls_parseCommand_def Let_def clearTimeout_def
        disconnected_msg_def disconnectInternal_def insert_all_def obj_value_def obj_insert_def update_conv)
qed


text \<open>
  C19: Client and daemon agree on activation.  The line the client writes for a configuration, read
  by the daemon from a peer allowed to start a session, makes the peer the owner of the session and
  runs the daemon's activation on that configuration (with null strings read as empty and the
  ranges sorted); the daemon's messages about a completed handshake and about a disconnection,
  read by the client, are signalled to the controller as such.
\<close>

theorem activate_reaches_daemon:
  fixes l :: local_socket and valueToKey printHost and c :: interface_config
  defines "obj \<equiv> obj_insert ''type'' (JString ''activate'') (config_toJson valueToKey printHost c)"
  assumes "line_of (DaemonConnection.ce_parseDoc env) row obj"
    and "DaemonConnection.ce_keyToValue env (valueToKey (ic_hopType c)) = Some (ic_hopType c)"
    and "printable printHost (DaemonConnection.ce_parseHost env) (ic_allowedIPAddressRanges c)"
    and "\<not> isSessionActive (sc_access s)" "uid \<noteq> -1"
    and "ls_daemonState l = LsReady" "line_of parseDoc t1 (connected_msg pk)" "line_of parseDoc t2 disconnected_msg"
    and "ls_buffer l = []"
  shows "ls_out (ls_activate valueToKey printHost c l) = ls_out l @ [LsWrite obj] \<and>
    sc_daemon (snd (readData env uid (row @ [newline]) [] s)) =
      snd (Daemon.activate (ce_backend env) (DaemonConnection.ce_parseHost env) (transported c) (sc_daemon s)) \<and>
    ac_sessionOwner (sc_access (snd (readData env uid (row @ [newline]) [] s))) = uid \<and>
    ls_out (ls_readData parseDoc parseDate (t1 @ [newline]) l) = ls_out l @ [LsConnected pk] \<and>
    ls_out (ls_readData parseDoc parseDate (t2 @ [newline]) l) = ls_out l @ [LsDisconnected]"
  unfolding obj_def by (intro conjI protocol_facts [OF assms(2-) [unfolded obj_def]])

definition demo_text :: "json_object \<Rightarrow> string \<Rightarrow> json" where
  "demo_text obj t =
    (if t = ''A'' then JObject obj else if t = ''B'' then JObject (connected_msg ''k'') else JObject disconnected_msg)"

theorem activate_reaches_daemon_witness:
  "let c = emptyConfig\<lparr>ic_serverPublicKey := Some ''k''\<rparr>;
       obj = obj_insert ''type'' (JString ''activate'') (config_toJson sample_valueToKey (\<lambda>_. []) c);
       env = sample_conn_env (demo_text obj)
   in ac_sessionOwner (sc_access (snd (readData env 7 (''A'' @ [newline]) [] (sample_conn (-1))))) = 7 \<and>
      ls_out (ls_readData (demo_text obj) (\<lambda>_. None) (''B'' @ [newline]) (emptyLocalSocket\<lparr>ls_daemonState := LsReady\<rparr>)) =
        [LsConnected ''k'']"
proof -
  define c where "c = emptyConfig\<lparr>ic_serverPublicKey := Some ''k''\<rparr>"
  define obj where "obj = obj_insert ''type'' (JString ''activate'') (config_toJson sample_valueToKey (\<lambda>_. []) c)"
  have tr: "trimmed [x] = [x]" if "\<not> is_blank x" for x using that by (simp add: trimmed_def)
  have 1: "line_of (demo_text obj) ''A'' obj" "line_of (demo_text obj) ''B'' (connected_msg ''k'')"
    "line_of (demo_text obj) ''C'' disconnected_msg"
    by (simp_all add: line_of_def tr is_blank_def demo_text_def)
  have 2: "line_of (DaemonConnection.ce_parseDoc (sample_conn_env (demo_text obj))) ''A'' obj"
    using 1(1) by (simp add: sample_conn_env_def)
  have 3: "DaemonConnection.ce_keyToValue (sample_conn_env (demo_text obj)) (sample_valueToKey (ic_hopType c)) = Some (ic_hopType c)"
    by (simp add: sample_conn_env_def sample_keys)
  have 4: "printable (\<lambda>_. []) (DaemonConnection.ce_parseHost (sample_conn_env (demo_text obj))) (ic_allowedIPAddressRanges c)"
    by (simp add: c_def emptyConfig_def printable_def)
  have 5: "\<not> isSessionActive (sc_access (sample_conn (-1)))" by (simp add: sample_conn_def isSessionActive_def)
  have 6: "ls_daemonState (emptyLocalSocket\<lparr>ls_daemonState := LsReady\<rparr>) = LsReady"
    "ls_buffer (emptyLocalSocket\<lparr>ls_daemonState := LsReady\<rparr>) = []" "ls_out (emptyLocalSocket\<lparr>ls_daemonState := LsReady\<rparr>) = []"
    by (simp_all add: emptyLocalSocket_def)
  from activate_reaches_daemon [of "sample_conn_env (demo_text obj)" "''A''" sample_valueToKey "\<lambda>_. []" c,
      folded obj_def, OF 2 3 4 5 _ 6(1) 1(2,3) 6(2), of 7 "\<lambda>_. None"]
  show ?thesis unfolding Let_def c_def [symmetric] obj_def [symmetric] by (simp add: 6(3))
qed

section \<open>Defects\<close>

text \<open>
  A client that connects to the daemon while a handshake is pending never finishes its
  initialisation.  The daemon reports such a tunnel as connected with an empty date; the client
  takes the reply as the end of its initialisation phase (it becomes ready, and no later status
  reply is taken for an initial one) but rejects the date and signals nothing, so the controller
  stays in its initial state, in which every activation is refused.
\<close>

theorem init_stuck_during_handshake:
  assumes "be_interfaceExists B (dm_backend d)" "conn_list (dm_connections d) = conn # conns" "cn_date conn = None"
    and "find (\<lambda>status. ps_pubkey status = qchars (ic_serverPublicKey (cn_config conn))) (be_getPeerStatus B (dm_backend d)) = Some st"
    and "parseDate [] = None"
    and "ls_daemonState s = LsInitializing" "ls_buffer s = []"
    and "line_of parseDoc row (obj_insert ''type'' (JString ''status'') (Daemon.getStatus B printDate d))"
  shows "ls_daemonState (ls_readData parseDoc parseDate (row @ [newline]) s) = LsReady \<and>
    ls_out (ls_readData parseDoc parseDate (row @ [newline]) s) = ls_out s"
proof -
  let ?obj = "obj_insert ''type'' (JString ''status'') (Daemon.getStatus B printDate d)"
  have vals: "obj_value (Daemon.getStatus B printDate d) ''connected'' = JBool True"
    "obj_value (Daemon.getStatus B printDate d) ''date'' = JString []"
    using assms(1-4)
    by (simp_all add: Daemon.getStatus_def insert_all_def obj_value_def obj_insert_def update_conv)
  have "trimmed row \<noteq> []" "parseDoc (trimmed row) = JObject ?obj" "newline \<notin> set row"
    using assms(8) by (simp_all add: line_of_def)
  then show ?thesis using assms(5-7) one_line [of row]
    by (simp add: ls_readData_split exec_line_def ls_parseCommand_def Let_def clearTimeout_def init_status_def vals)
qed

definition handshaking_daemon :: "(string \<times> int) list daemon" where
  "handshaking_daemon = mock_init\<lparr>dm_connections := [SingleHop \<mapsto> ConnectionState emptyConfig], dm_backend := [([], 5)]\<rparr>"

theorem init_stuck_during_handshake_witness:
  "let s = ls_readData (\<lambda>_. JObject (obj_insert ''type'' (JString ''status'')
         (Daemon.getStatus (mock_backend 0) (\<lambda>_. ''d'') handshaking_daemon)))
       (\<lambda>x. if x = [] then None else Some 0) (''L'' @ [newline]) (emptyLocalSocket\<lparr>ls_daemonState := LsInitializing\<rparr>)
   in ls_daemonState s = LsReady \<and> ls_out s = []"
  using init_stuck_during_handshake [of "mock_backend 0" handshaking_daemon "ConnectionState emptyConfig" "[]" _
      "\<lambda>x. if x = [] then None else Some 0" "emptyLocalSocket\<lparr>ls_daemonState := LsInitializing\<rparr>"
      "\<lambda>_. JObject (obj_insert ''type'' (JString ''status'')
         (Daemon.getStatus (mock_backend 0) (\<lambda>_. ''d'') handshaking_daemon))" "''L''" "\<lambda>_. ''d''"]
  by (simp add: handshaking_daemon_def mock_init_def mock_backend_def mock_getPeerStatus_def conn_list_def hops_def
      ConnectionState_def emptyConfig_def emptyLocalSocket_def line_of_def trimmed_def is_blank_def Let_def)

end
