(* ===== verification/TaskControllerAction.thy ===== *)
theory TaskControllerAction
  imports ControllerProperties
begin

text \<open>
  Model of \<^verbatim>\<open>src/src/tasks/controlleraction/taskcontrolleraction.cpp\<close>: the task that activates,
  deactivates or switches the VPN by calling the controller, and blocks the task queue until the
  controller has reached the state asked for or has stopped changing its state.  It runs against
  the controller's model; its timer and the queued state notification are events.
\<close>

datatype task_action =
    EActivate | EActivateForExtension | EDeactivate | EDeactivateForExtension | ESilentSwitch | ESwitch

definition TASKCONTROLLER_TIMER_MSEC :: int where
  "TASKCONTROLLER_TIMER_MSEC = 3000"

text \<open>\<open>ta_timer\<close> is the interval of the timer when it runs; \<open>ta_completed\<close> counts \<^verbatim>\<open>completed\<close> signals.\<close>

record action_task =
  ta_action :: task_action
  ta_lastState :: controller_state
  ta_serverData :: server_data
  ta_serverCoolDownPolicy :: cooldown_policy
  ta_timer :: "int option"
  ta_completed :: nat

definition newActionTask :: "task_action \<Rightarrow> cooldown_policy \<Rightarrow> server_data \<Rightarrow> action_task" where
  "newActionTask action policy sd =
     \<lparr>ta_action = action, ta_lastState = StateOff, ta_serverData = assignServerData sd emptyServerData, ta_serverCoolDownPolicy = policy,
      ta_timer = None, ta_completed = 0\<rparr>"

definition action_call :: "ctl_env \<Rightarrow> action_task \<Rightarrow> controller \<Rightarrow> bool \<times> controller" where
  "action_call env t s =
    (case ta_action t of
       EActivate \<Rightarrow> Controller.activate env (ta_serverData t) ClientUser RandomizeServerSelection s
     | EActivateForExtension \<Rightarrow> Controller.activate env (ta_serverData t) ExtensionUser RandomizeServerSelection s
     | EDeactivate \<Rightarrow> Controller.deactivate ClientUser s
     | EDeactivateForExtension \<Rightarrow> Controller.deactivate ExtensionUser s
     | ESilentSwitch \<Rightarrow> silentSwitchServers env (ta_serverCoolDownPolicy t) s
     | ESwitch \<Rightarrow> switchServers (ta_serverData t) s)"

definition action_run :: "ctl_env \<Rightarrow> action_task \<Rightarrow> controller \<Rightarrow> action_task \<times> controller" where
  "action_run env t s =
    (let (expectSignal, s') = action_call env t s
     in (t\<lparr>ta_lastState := ct_state s, ta_timer := Some (if expectSignal then TASKCONTROLLER_TIMER_MSEC else 0)\<rparr>, s'))"

definition action_finished :: "action_task \<Rightarrow> action_task" where
  "action_finished t = t\<lparr>ta_timer := None, ta_completed := Suc (ta_completed t)\<rparr>"

definition action_stateChanged :: "controller \<Rightarrow> action_task \<Rightarrow> action_task" where
  "action_stateChanged s t =
    (if ta_timer t = None then t
     else if (ta_action t = EActivate \<or> ta_action t = ESwitch) \<and> ct_state s = StateOn \<or>
             ta_action t = EDeactivate \<and> ct_state s = StateOff
     then action_finished t else t)"

definition action_checkStatus :: "controller \<Rightarrow> action_task \<Rightarrow> action_task" where
  "action_checkStatus s t =
    (if ct_state s = ta_lastState t then action_finished t else t\<lparr>ta_lastState := ct_state s\<rparr>)"

text \<open>The timer repeats until it is stopped.\<close>

definition action_tick :: "controller \<Rightarrow> action_task \<Rightarrow> action_task" where
  "action_tick s t = (if ta_timer t = None then t else action_checkStatus s t)"

section \<open>Properties\<close>

lemma refused_state:
  assumes "\<not> fst (action_call env t s)"
  shows "ct_state (snd (action_call env t s)) = ct_state s"
  using assms
  by (auto simp: action_call_def Controller.activate_def Controller.deactivate_def silentSwitchServers_def
      switchServers_def Let_def split: task_action.splits if_splits)

lemma ticks_done:
  "ta_timer t = None \<Longrightarrow> fold action_tick ss t = t"
  by (induction ss) (simp_all add: action_tick_def)

lemma action_tick_active: "ta_timer t \<noteq> None \<Longrightarrow> action_tick s t = action_checkStatus s t"
  by (auto simp: action_tick_def)

lemma ticks_complete:
  assumes "ta_timer t \<noteq> None"
  shows "ta_completed (fold action_tick ss t) =
    ta_completed t + (if \<exists>i < length ss. (ta_lastState t # map ct_state ss) ! i = map ct_state ss ! i then 1 else 0)"
  using assms
proof (induction ss arbitrary: t)
  case (Cons s ss)
  show ?case
  proof (cases "ct_state s = ta_lastState t")
    case True
    then have "\<exists>i < length (s # ss). (ta_lastState t # map ct_state (s # ss)) ! i = map ct_state (s # ss) ! i"
      by (intro exI [of _ 0]) simp
    then show ?thesis using True Cons.prems ticks_done [of "action_finished t" ss]
      by (simp add: action_tick_active action_checkStatus_def action_finished_def)
  next
    case False
    have "(\<exists>i < length ss. (ct_state s # map ct_state ss) ! i = map ct_state ss ! i) =
      (\<exists>i < length (s # ss). (ta_lastState t # map ct_state (s # ss)) ! i = map ct_state (s # ss) ! i)"
      using False by (auto simp: Ex_less_Suc2)
    then show ?thesis using Cons False by (simp add: action_tick_active action_checkStatus_def)
  qed
qed simp

text \<open>
  A controller task ends exactly when the controller settles.  Watching the controller's state
  at each tick of its timer, the task has completed, and completed once only, if two consecutive
  observations agree (the first one being the state before the call), and it is still blocking the
  queue otherwise; a request the controller refuses leaves the state alone, so its task is over at
  the first tick.
\<close>

theorem action_task_completes:
  "(let (t1, s1) = action_run env (newActionTask action policy sd) s
    in ta_completed (fold action_tick ss t1) =
         (if \<exists>i < length ss. (ct_state s # map ct_state ss) ! i = map ct_state ss ! i then 1 else 0)) \<and>
   (\<not> fst (action_call env (newActionTask action policy sd) s) \<longrightarrow>
      (let (t1, s1) = action_run env (newActionTask action policy sd) s
       in ta_timer t1 = Some 0 \<and> ta_completed (action_tick s1 t1) = 1))"
proof -
  define t where "t = newActionTask action policy sd"
  have t: "ta_completed t = 0" by (simp add: t_def newActionTask_def)
  obtain b s1 where call: "action_call env t s = (b, s1)" by fastforce
  let ?t1 = "t\<lparr>ta_lastState := ct_state s, ta_timer := Some (if b then TASKCONTROLLER_TIMER_MSEC else 0)\<rparr>"
  have run: "action_run env t s = (?t1, s1)" by (simp add: action_run_def call)
  have "ct_state s1 = ct_state s" if "\<not> b" using refused_state [of env t s] that call by simp
  then show ?thesis using ticks_complete [of ?t1 ss] unfolding t_def [symmetric] run call Let_def
    by (simp add: t action_tick_def action_checkStatus_def action_finished_def)
qed

definition off_state :: controller where
  "off_state = foldl (demo_step [''a'', ''b'']) (emptyController False)
     [CInitialize demo_data, CImplInitialized True False None]"

theorem action_task_completes_witness:
  "let (t1, s1) = action_run (demo_env [''a''] 0) (newActionTask EDeactivate ServerCoolDownNotNeeded demo_data) off_state
   in ta_timer t1 = Some 0 \<and> ta_completed (action_tick s1 t1) = 1"
proof -
  have "\<not> fst (action_call (demo_env [''a''] 0) (newActionTask EDeactivate ServerCoolDownNotNeeded demo_data) off_state)"
    by code_simp
  then show ?thesis
    using action_task_completes [of "demo_env [''a''] 0" EDeactivate ServerCoolDownNotNeeded demo_data off_state "[]"]
    by blast
qed

text \<open>
  A deactivation queued behind an activation is lost when the account check is slow.  The
  controller stays in the state Off until the reply to its account request arrives; after three
  seconds the activation task sees an unchanged state and completes, so the deactivation task
  runs, is refused because the state is Off, and completes; the late reply then brings the tunnel
  up, although the last thing asked for was to take it down.
\<close>

theorem deactivation_lost:
  assumes "ct_state s = StateOff" "\<not> ct_portalDetected s" "ce_checkConnectivity env \<longrightarrow> ce_reachable env"
    and "ct_requests s = []"
    and "action_run env (newActionTask EActivate policy sd) s = (t1, s1)"
    and "action_run env (newActionTask EDeactivate policy sd) s1 = (t2, s2)"
    and "ct_activationQueue (ctl_step s2 (env', CAccountCompleted 0 data)) \<noteq> []"
  shows "ta_timer t1 = Some 3000 \<and> ta_completed (action_tick s1 t1) = 1 \<and>
    s2 = s1 \<and> ta_completed (action_tick s2 t2) = 1 \<and>
    ct_state (ctl_step s2 (env', CAccountCompleted 0 data)) = StateConfirming"
proof -
  have s1: "ct_state s1 = StateOff" "ct_requests s1 = [(RandomizeServerSelection, ClientUser)]"
    and t1: "ta_timer t1 = Some 3000" "ta_lastState t1 = StateOff" "ta_completed t1 = 0"
    using assms(1-5)
    by (auto simp: action_run_def action_call_def newActionTask_def Controller.activate_def Let_def
        TASKCONTROLLER_TIMER_MSEC_def split: if_splits)
  have refused: "Controller.deactivate ClientUser s1 = (False, s1)"
    using s1(1) by (auto simp: Controller.deactivate_def)
  then have t2: "s2 = s1" "ta_timer t2 = Some 0" "ta_lastState t2 = StateOff" "ta_completed t2 = 0"
    using assms(6) s1(1) by (auto simp: action_run_def action_call_def newActionTask_def)
  let ?r = "clearRetryCounter (setState StateConnecting (ctl_emit (AccountChecked data) (take_request 0 s1)))"
  have step: "ctl_step s2 (env', CAccountCompleted 0 data) =
      activateInternal env' DoNotForceDNSPort RandomizeServerSelection ClientUser ?r"
    using t2(1) s1(2) by (simp add: accountRequestCompleted_def account_reply_def)
  moreover have "ct_state ?r = StateConnecting" by (simp add: setState_def)
  ultimately have "ct_state (ctl_step s2 (env', CAccountCompleted 0 data)) = StateConfirming"
    using activateInternal_ready(5) assms(7) by simp
  with s1 t1 t2 show ?thesis by (simp add: action_tick_def action_checkStatus_def action_finished_def)
qed

theorem deactivation_lost_witness:
  "let env = demo_env [''a'', ''b''] 1000;
       (t1, s1) = action_run env (newActionTask EActivate ServerCoolDownNotNeeded demo_data) off_state;
       (t2, s2) = action_run env (newActionTask EDeactivate ServerCoolDownNotNeeded demo_data) s1
   in ta_completed (action_tick s1 t1) = 1 \<and> ta_completed (action_tick s2 t2) = 1 \<and>
      ct_state (ctl_step s2 (env, CAccountCompleted 0 [])) = StateConfirming"
proof -
  let ?env = "demo_env [''a'', ''b''] 1000"
  obtain t1 s1 where r1: "action_run ?env (newActionTask EActivate ServerCoolDownNotNeeded demo_data) off_state = (t1, s1)"
    by fastforce
  obtain t2 s2 where r2: "action_run ?env (newActionTask EDeactivate ServerCoolDownNotNeeded demo_data) s1 = (t2, s2)"
    by fastforce
  have "let s1 = snd (action_run ?env (newActionTask EActivate ServerCoolDownNotNeeded demo_data) off_state);
      s2 = snd (action_run ?env (newActionTask EDeactivate ServerCoolDownNotNeeded demo_data) s1)
    in length (ct_activationQueue (ctl_step s2 (?env, CAccountCompleted 0 []))) = 1" by code_simp
  then have q: "ct_activationQueue (ctl_step s2 (?env, CAccountCompleted 0 [])) \<noteq> []" using r1 r2 by auto
  have "ct_state off_state = StateOff" "\<not> ct_portalDetected off_state" "ct_requests off_state = []"
    "ce_checkConnectivity ?env \<longrightarrow> ce_reachable ?env" by code_simp+
  with deactivation_lost [OF _ _ _ _ r1 r2 q] show ?thesis by (simp add: r1 r2 del: ctl_step.simps) (metis One_nat_def)
qed

end
