(* ===== verification/TaskScheduler.thy ===== *)
theory TaskScheduler
  imports Prelude "HOL-Library.Multiset" "HOL-Library.Sublist"
begin

text \<open>
  Model of \<^verbatim>\<open>src/src/taskscheduler.cpp\<close>, \<^verbatim>\<open>src/src/tasks/group/taskgroup.cpp\<close> and
  \<^verbatim>\<open>src/src/tasks/function/taskfunction.cpp\<close>: the queue through which the client runs its background
  work, one task at a time.  A task is an asynchronous one, which reports its completion by an
  event; a \<^verbatim>\<open>TaskFunction\<close>, which completes inside its \<^verbatim>\<open>run\<close> and whose callback is seen through the
  tasks it schedules; or a \<^verbatim>\<open>TaskGroup\<close>.  The subtasks of a group run in their order; a subtask that
  completes inside its \<^verbatim>\<open>run\<close> leaves the group at once.
\<close>

section \<open>Tasks\<close>

datatype delete_policy = Deletable | NonDeletable | Reschedulable

datatype task =
    AsyncTask nat delete_policy
  | TaskFunction nat delete_policy "task list"
  | TaskGroup nat "task list"

fun group_policy :: "delete_policy list \<Rightarrow> nat \<Rightarrow> nat \<Rightarrow> delete_policy" where
  "group_policy [] reschedulable n =
     (if reschedulable = n then Reschedulable
      else if reschedulable = 0 then Deletable else NonDeletable)"
| "group_policy (p # ps) reschedulable n =
     (case p of NonDeletable \<Rightarrow> NonDeletable
      | Reschedulable \<Rightarrow> group_policy ps (Suc reschedulable) n
      | Deletable \<Rightarrow> group_policy ps reschedulable n)"

fun deletePolicy :: "task \<Rightarrow> delete_policy" where
  "deletePolicy (AsyncTask i p) = p"
| "deletePolicy (TaskFunction i p ts) = p"
| "deletePolicy (TaskGroup i ts) = group_policy (map deletePolicy ts) 0 (length ts)"

text \<open>Does the task complete inside its \<^verbatim>\<open>run\<close>?  \<^verbatim>\<open>maybeComplete\<close> emits once the group is empty.\<close>

fun completes_now :: "task \<Rightarrow> bool" where
  "completes_now (AsyncTask i p) = False"
| "completes_now (TaskFunction i p ts) = True"
| "completes_now (TaskGroup i ts) = list_all completes_now ts"

text \<open>The tasks scheduled while it runs, and what is left of the task after \<^verbatim>\<open>run\<close>.\<close>

fun scheduled_by :: "task \<Rightarrow> task list" where
  "scheduled_by (AsyncTask i p) = []"
| "scheduled_by (TaskFunction i p ts) = ts"
| "scheduled_by (TaskGroup i ts) = concat (map scheduled_by ts)"

fun task_run :: "task \<Rightarrow> task" where
  "task_run (AsyncTask i p) = AsyncTask i p"
| "task_run (TaskFunction i p ts) = TaskFunction i p ts"
| "task_run (TaskGroup i ts) = TaskGroup i (map task_run (filter (\<lambda>t. \<not> completes_now t) ts))"

text \<open>The completion of a running asynchronous task, or of the subtasks of a running group on a path.\<close>

fun subtask_completed :: "nat list \<Rightarrow> task \<Rightarrow> task option" where
  "subtask_completed path (AsyncTask i p) = None"
| "subtask_completed path (TaskFunction i p ts) = None"
| "subtask_completed [] (TaskGroup i ts) = Some (TaskGroup i ts)"
| "subtask_completed (k # path) (TaskGroup i ts) =
     (if k < length ts
      then case subtask_completed path (ts ! k) of
             None \<Rightarrow> (let ts' = take k ts @ drop (Suc k) ts in if ts' = [] then None else Some (TaskGroup i ts'))
           | Some t \<Rightarrow> Some (TaskGroup i (ts[k := t]))
      else Some (TaskGroup i ts))"

lemma sum_list_concat: "sum_list (map f (concat xss)) = sum_list (map (\<lambda>xs. sum_list (map f xs)) xss)"
  for f :: "'a \<Rightarrow> nat"
  by (induction xss) simp_all

text \<open>The number of tasks in a task and in everything it may schedule.\<close>

fun task_weight :: "task \<Rightarrow> nat" where
  "task_weight (AsyncTask i p) = 1"
| "task_weight (TaskFunction i p ts) = Suc (sum_list (map task_weight ts))"
| "task_weight (TaskGroup i ts) = Suc (sum_list (map task_weight ts))"

lemma scheduled_by_weight: "sum_list (map task_weight (scheduled_by t)) < task_weight t"
proof (induction t rule: scheduled_by.induct)
  case (3 i ts)
  then have "sum_list (map (\<lambda>x. sum_list (map task_weight (scheduled_by x))) ts) \<le> sum_list (map task_weight ts)"
    by (intro sum_list_mono) (auto intro: less_imp_le)
  then show ?case by (simp add: sum_list_concat o_def)
qed simp_all

section \<open>The scheduler\<close>

text \<open>
  \<^const>\<open>AsyncTask\<close>s and groups stay in \<open>ts_running\<close> until they complete.  \<open>ts_pending\<close> holds the tasks
  whose rescheduling waits in the event loop.  The log records every task appended to the queue,
  started, completed, cancelled, deleted and set aside for rescheduling.
\<close>

datatype sched_out =
    TQueued task | TRun task | TCompleted | TCancelled | TDeleted task | TRescheduled task

record scheduler =
  ts_running :: "task option"
  ts_tasks :: "task list"
  ts_pending :: "task list"
  ts_log :: "sched_out list"

definition emptyScheduler :: scheduler where
  "emptyScheduler = \<lparr>ts_running = None, ts_tasks = [], ts_pending = [], ts_log = []\<rparr>"

definition append_tasks :: "task list \<Rightarrow> scheduler \<Rightarrow> scheduler" where
  "append_tasks ts s = s\<lparr>ts_tasks := ts_tasks s @ ts, ts_log := ts_log s @ map TQueued ts\<rparr>"

text \<open>Taking the first task and running it: the tasks its callback schedules find a running task.\<close>

definition start_first :: "task \<Rightarrow> task list \<Rightarrow> scheduler \<Rightarrow> scheduler" where
  "start_first t rest s =
     append_tasks (scheduled_by t)
       (s\<lparr>ts_running := Some (task_run t), ts_tasks := rest, ts_log := ts_log s @ [TRun t]\<rparr>)"

definition release_running :: "scheduler \<Rightarrow> scheduler" where
  "release_running s = s\<lparr>ts_running := None, ts_log := ts_log s @ [TCompleted]\<rparr>"

definition queue_weight :: "scheduler \<Rightarrow> nat" where
  "queue_weight s = sum_list (map task_weight (ts_tasks s))"

function maybeRunTask :: "scheduler \<Rightarrow> scheduler" where
  "maybeRunTask s =
    (case ts_tasks s of
       [] \<Rightarrow> s
     | t # rest \<Rightarrow>
         if ts_running s \<noteq> None then s
         else if completes_now t then maybeRunTask (release_running (start_first t rest s))
         else start_first t rest s)"
  by pat_completeness auto
termination
proof (relation "measure queue_weight")
  fix s :: scheduler and t rest assume "ts_tasks s = t # rest"
  then show "(release_running (start_first t rest s), s) \<in> measure queue_weight"
    using scheduled_by_weight [of t]
    by (simp add: queue_weight_def release_running_def start_first_def append_tasks_def)
qed simp

declare maybeRunTask.simps [simp del]

definition taskCompleted :: "scheduler \<Rightarrow> scheduler" where
  "taskCompleted s = maybeRunTask (release_running s)"

definition scheduleTaskInternal :: "task \<Rightarrow> scheduler \<Rightarrow> scheduler" where
  "scheduleTaskInternal t s = maybeRunTask (append_tasks [t] s)"

text \<open>One round of the loop over the queue: what is kept, and what is deleted or rescheduled.\<close>

fun sweep :: "bool \<Rightarrow> task list \<Rightarrow> task list \<Rightarrow> scheduler \<Rightarrow> scheduler" where
  "sweep forced [] kept s = s\<lparr>ts_tasks := kept\<rparr>"
| "sweep forced (t # ts) kept s =
    (if forced then sweep forced ts kept (s\<lparr>ts_log := ts_log s @ [TDeleted t]\<rparr>)
     else case deletePolicy t of
            Deletable \<Rightarrow> sweep forced ts kept (s\<lparr>ts_log := ts_log s @ [TDeleted t]\<rparr>)
          | NonDeletable \<Rightarrow> sweep forced ts (kept @ [t]) s
          | Reschedulable \<Rightarrow> sweep forced ts kept
              (s\<lparr>ts_pending := ts_pending s @ [t], ts_log := ts_log s @ [TRescheduled t]\<rparr>))"

definition deleteTasksInternal :: "bool \<Rightarrow> scheduler \<Rightarrow> scheduler" where
  "deleteTasksInternal forced s =
    (let s1 = sweep forced (ts_tasks s) [] s
     in maybeRunTask
          (case ts_running s1 of
             None \<Rightarrow> s1
           | Some r \<Rightarrow>
               if forced \<or> deletePolicy r = Deletable
               then s1\<lparr>ts_running := None, ts_log := ts_log s1 @ [TCancelled]\<rparr> else s1))"

section \<open>Events\<close>

datatype sched_event =
    SSchedule task
  | SCompleted "nat list"
  | SDelete bool
  | SReschedule nat

definition running_completed :: "nat list \<Rightarrow> scheduler \<Rightarrow> scheduler" where
  "running_completed path s =
    (case ts_running s of
       None \<Rightarrow> s
     | Some r \<Rightarrow> (case subtask_completed path r of
                     None \<Rightarrow> taskCompleted s
                   | Some r' \<Rightarrow> s\<lparr>ts_running := Some r'\<rparr>))"

fun sched_step :: "scheduler \<Rightarrow> sched_event \<Rightarrow> scheduler" where
  "sched_step s (SSchedule t) = scheduleTaskInternal t s"
| "sched_step s (SCompleted path) = running_completed path s"
| "sched_step s (SDelete forced) = deleteTasksInternal forced s"
| "sched_step s (SReschedule i) =
     scheduleTaskInternal (ts_pending s ! i)
       (s\<lparr>ts_pending := take i (ts_pending s) @ drop (Suc i) (ts_pending s)\<rparr>)"

fun sched_guard :: "scheduler \<Rightarrow> sched_event \<Rightarrow> bool" where
  "sched_guard s (SCompleted path) = (ts_running s \<noteq> None)"
| "sched_guard s (SReschedule i) = (i < length (ts_pending s))"
| "sched_guard s e = True"


section \<open>What the log says\<close>

definition queued :: "sched_out list \<Rightarrow> task list" where
  "queued l = concat (map (\<lambda>x. case x of TQueued t \<Rightarrow> [t] | _ \<Rightarrow> []) l)"

definition runs :: "sched_out list \<Rightarrow> task list" where
  "runs l = concat (map (\<lambda>x. case x of TRun t \<Rightarrow> [t] | _ \<Rightarrow> []) l)"

definition removed :: "sched_out list \<Rightarrow> task list" where
  "removed l = concat (map (\<lambda>x. case x of TDeleted t \<Rightarrow> [t] | TRescheduled t \<Rightarrow> [t] | _ \<Rightarrow> []) l)"

definition ended :: "sched_out list \<Rightarrow> nat" where
  "ended l = length (filter (\<lambda>x. x = TCompleted \<or> x = TCancelled) l)"

lemma log_append [simp]:
  "queued (a @ b) = queued a @ queued b" "runs (a @ b) = runs a @ runs b"
  "removed (a @ b) = removed a @ removed b" "ended (a @ b) = ended a + ended b"
  by (simp_all add: queued_def runs_def removed_def ended_def)

lemma log_entries [simp]:
  "queued [] = []" "runs [] = []" "removed [] = []" "ended [] = 0"
  "queued (x # l) = (case x of TQueued t \<Rightarrow> [t] | _ \<Rightarrow> []) @ queued l"
  "runs (x # l) = (case x of TRun t \<Rightarrow> [t] | _ \<Rightarrow> []) @ runs l"
  "removed (x # l) = (case x of TDeleted t \<Rightarrow> [t] | TRescheduled t \<Rightarrow> [t] | _ \<Rightarrow> []) @ removed l"
  "ended (x # l) = (if x = TCompleted \<or> x = TCancelled then 1 else 0) + ended l"
  by (simp_all add: queued_def runs_def removed_def ended_def)

lemma log_queued [simp]:
  "queued (map TQueued ts) = ts" "runs (map TQueued ts) = []"
  "removed (map TQueued ts) = []" "ended (map TQueued ts) = 0"
  by (induction ts) (simp_all add: queued_def runs_def removed_def ended_def)

text \<open>
  The books of the scheduler: every task put in the queue was started, is still queued, or was
  taken out by a deletion; tasks are started in the order of the queue; of the tasks started, all
  but the running one have ended.
\<close>

definition books :: "scheduler \<Rightarrow> bool" where
  "books s \<longleftrightarrow>
     mset (queued (ts_log s)) = mset (runs (ts_log s)) + mset (ts_tasks s) + mset (removed (ts_log s)) \<and>
     subseq (runs (ts_log s) @ ts_tasks s) (queued (ts_log s)) \<and>
     length (runs (ts_log s)) = ended (ts_log s) + (if ts_running s = None then 0 else 1)"

definition sched_inv :: "scheduler \<Rightarrow> bool" where
  "sched_inv s \<longleftrightarrow> books s \<and> (ts_running s = None \<longrightarrow> ts_tasks s = [])"

lemma append_tasks_books: "books s \<Longrightarrow> books (append_tasks ts s)"
  using list_emb_append_mono [of "(=)" "runs (ts_log s) @ ts_tasks s" "queued (ts_log s)" ts ts]
  by (simp add: books_def append_tasks_def)

lemma start_first_books:
  assumes "books s" "ts_tasks s = t # rest" "ts_running s = None"
  shows "books (start_first t rest s)"
  unfolding start_first_def by (rule append_tasks_books) (use assms in \<open>simp add: books_def\<close>)

lemma release_books: "books s \<Longrightarrow> ts_running s \<noteq> None \<Longrightarrow> books (release_running s)"
  by (simp add: books_def release_running_def)

lemma start_first_running [simp]: "ts_running (start_first t rest s) = Some (task_run t)"
  by (simp add: start_first_def append_tasks_def)

lemma maybeRunTask_inv: "books s \<Longrightarrow> sched_inv (maybeRunTask s)"
proof (induction s rule: maybeRunTask.induct)
  case (1 s)
  show ?case
  proof (cases "ts_tasks s")
    case Nil
    then show ?thesis using 1 by (simp add: maybeRunTask.simps [of s] sched_inv_def)
  next
    case (Cons t rest)
    then show ?thesis
      using 1 start_first_books [of s t rest] release_books [of "start_first t rest s"]
      by (simp add: maybeRunTask.simps [of s]) (simp add: sched_inv_def)
  qed
qed

lemma maybeRunTask_pending [simp]: "ts_pending (maybeRunTask s) = ts_pending s"
proof (induction s rule: maybeRunTask.induct)
  case (1 s)
  then show ?case
    by (cases "ts_tasks s")
      (simp_all add: maybeRunTask.simps [of s] release_running_def start_first_def append_tasks_def)
qed

definition sweep_log :: "task list \<Rightarrow> sched_out list" where
  "sweep_log ts = concat (map (\<lambda>t. case deletePolicy t of
     Deletable \<Rightarrow> [TDeleted t] | NonDeletable \<Rightarrow> [] | Reschedulable \<Rightarrow> [TRescheduled t]) ts)"

lemma sweep_eq:
  "sweep False ts kept s =
     s\<lparr>ts_tasks := kept @ filter (\<lambda>t. deletePolicy t = NonDeletable) ts,
       ts_pending := ts_pending s @ filter (\<lambda>t. deletePolicy t = Reschedulable) ts,
       ts_log := ts_log s @ sweep_log ts\<rparr>"
  by (induction "False" ts kept s rule: sweep.induct) (auto simp: sweep_log_def split: delete_policy.splits)

lemma sweep_forced: "sweep True ts kept s = s\<lparr>ts_tasks := kept, ts_log := ts_log s @ map TDeleted ts\<rparr>"
  by (induction "True" ts kept s rule: sweep.induct) auto

lemma sweep_log_simps [simp]:
  "queued (sweep_log ts) = []" "runs (sweep_log ts) = []" "ended (sweep_log ts) = 0"
  "removed (sweep_log ts) = filter (\<lambda>t. deletePolicy t \<noteq> NonDeletable) ts"
  by (induction ts) (auto simp: sweep_log_def split: delete_policy.splits)

lemma log_deleted [simp]:
  "queued (map TDeleted ts) = []" "runs (map TDeleted ts) = []" "ended (map TDeleted ts) = 0"
  "removed (map TDeleted ts) = ts"
  by (induction ts) (simp_all add: queued_def runs_def removed_def ended_def)

lemma split_off:
  "a = b + m + c \<Longrightarrow> a = b + filter_mset P m + (c + filter_mset (\<lambda>x. \<not> P x) m)"
  by (subst (asm) multiset_partition [of m P]) (simp add: ac_simps)

lemma sweep_books:
  assumes "books s"
  shows "books (sweep forced (ts_tasks s) [] s)" and "ts_running (sweep forced (ts_tasks s) [] s) = ts_running s"
proof -
  have sub: "subseq (runs (ts_log s) @ xs) (queued (ts_log s))" if "subseq xs (ts_tasks s)" for xs
    using assms that by (auto simp: books_def intro: subseq_order.trans list_emb_append_mono)
  with assms sub [of "[]"] sub [of "filter (\<lambda>t. deletePolicy t = NonDeletable) (ts_tasks s)"]
  show "books (sweep forced (ts_tasks s) [] s)"
    using split_off [of "mset (queued (ts_log s))" _ "mset (ts_tasks s)" _ "\<lambda>t. deletePolicy t = NonDeletable"]
    by (cases forced) (simp_all add: sweep_eq sweep_forced books_def)
  show "ts_running (sweep forced (ts_tasks s) [] s) = ts_running s"
    by (cases forced) (simp_all add: sweep_eq sweep_forced)
qed

lemma books_upd [simp]:
  "books (s\<lparr>ts_pending := p\<rparr>) = books s" "ts_running s = Some r' \<Longrightarrow> books (s\<lparr>ts_running := Some r\<rparr>) = books s"
  by (simp_all add: books_def)

lemma sched_inv_books: "sched_inv s \<Longrightarrow> books s"
  by (simp add: sched_inv_def)

lemma sched_step_inv:
  assumes "sched_inv s" "sched_guard s e"
  shows "sched_inv (sched_step s e)"
proof (cases e)
  case (SSchedule t)
  then show ?thesis using assms sched_inv_books [of s]
    by (simp add: scheduleTaskInternal_def append_tasks_books maybeRunTask_inv)
next
  case (SCompleted path)
  then obtain r where r: "ts_running s = Some r" using assms by auto
  then have "sched_inv (s\<lparr>ts_running := Some r'\<rparr>)" for r' using assms by (simp add: sched_inv_def)
  moreover have "sched_inv (taskCompleted s)"
    using assms r by (simp add: taskCompleted_def maybeRunTask_inv release_books sched_inv_books)
  ultimately show ?thesis using SCompleted r by (simp add: running_completed_def split: option.split)
next
  case (SDelete forced)
  let ?s = "sweep forced (ts_tasks s) [] s"
  have "books ?s" using sweep_books(1) [OF sched_inv_books [OF assms(1)]] .
  moreover from this have "books (?s\<lparr>ts_running := None, ts_log := ts_log ?s @ [TCancelled]\<rparr>)"
    if "ts_running ?s \<noteq> None"
    using that by (simp add: books_def)
  ultimately show ?thesis using SDelete
    by (auto simp: deleteTasksInternal_def Let_def intro: maybeRunTask_inv split: option.split)
next
  case (SReschedule i)
  then show ?thesis using assms sched_inv_books [of s]
    by (simp add: scheduleTaskInternal_def append_tasks_books maybeRunTask_inv)
qed

interpretation sched: transition_system "\<lambda>s. s = emptyScheduler" sched_step sched_guard sched_inv
proof
  fix s assume "s = emptyScheduler"
  then show "sched_inv s" by (simp add: sched_inv_def books_def emptyScheduler_def)
next
  fix s e assume "sched_inv s" "sched_guard s e"
  then show "sched_inv (sched_step s e)" by (rule sched_step_inv)
qed

section \<open>Properties\<close>

text \<open>
  C22: The scheduler's books balance in every reachable state.  It is idle only when its queue is
  empty; tasks are started in the order in which they were queued; each queued task was started
  once, is still in the queue, or was taken out by a deletion, so none is lost and none is run
  twice; and every started task but the running one has completed or was cancelled, so that at
  most one runs at any time.
\<close>

theorem scheduler_reachable:
  assumes "sched.reach s"
  shows "(ts_running s = None \<longrightarrow> ts_tasks s = []) \<and>
    subseq (runs (ts_log s) @ ts_tasks s) (queued (ts_log s)) \<and>
    mset (queued (ts_log s)) = mset (runs (ts_log s)) + mset (ts_tasks s) + mset (removed (ts_log s)) \<and>
    length (runs (ts_log s)) = ended (ts_log s) + (if ts_running s = None then 0 else 1)"
  using sched.reach_inv [OF assms] by (simp add: sched_inv_def books_def)

definition sample_group :: task where
  "sample_group = TaskGroup 1 [AsyncTask 2 Reschedulable, TaskFunction 3 Deletable [AsyncTask 4 NonDeletable]]"

theorem scheduler_reachable_witness:
  "let s = sched_step (sched_step emptyScheduler (SSchedule sample_group)) (SCompleted [0])
   in runs (ts_log s) = [sample_group, AsyncTask 4 NonDeletable] \<and>
      length (runs (ts_log s)) = ended (ts_log s) + (if ts_running s = None then 0 else 1)"
proof -
  let ?s = "sched_step (sched_step emptyScheduler (SSchedule sample_group)) (SCompleted [0])"
  have "sched.reach (sched_step emptyScheduler (SSchedule sample_group))"
    by (rule sched.reach_step [OF sched.reach_init [OF refl]]) simp
  then have "sched.reach ?s"
    by (rule sched.reach_step) code_simp
  moreover have "runs (ts_log ?s) = [sample_group, AsyncTask 4 NonDeletable]" by code_simp
  ultimately show ?thesis using scheduler_reachable [of ?s] by (simp only: Let_def)
qed

text \<open>What a sequence of completions does to the order of the tasks.\<close>

lemma maybeRunTask_runs:
  "\<exists>xs. runs (ts_log (maybeRunTask s)) @ ts_tasks (maybeRunTask s) = runs (ts_log s) @ ts_tasks s @ xs"
  "ts_tasks s \<noteq> [] \<Longrightarrow> ts_running s = None \<Longrightarrow> length (runs (ts_log s)) < length (runs (ts_log (maybeRunTask s)))"
  "length (runs (ts_log s)) \<le> length (runs (ts_log (maybeRunTask s)))"
proof (induction s rule: maybeRunTask.induct)
  case (1 s)
  have step: "runs (ts_log (start_first t rest s)) = runs (ts_log s) @ [t]"
    "ts_tasks (start_first t rest s) = rest @ scheduled_by t" for t rest
    by (simp_all add: start_first_def append_tasks_def)
  have rel: "ts_tasks (release_running x) = ts_tasks x" "runs (ts_log (release_running x)) = runs (ts_log x)" for x
    by (simp_all add: release_running_def)
  {
    case 1
    then show ?case using "1.IH"(1)
      by (cases "ts_tasks s") (force simp: maybeRunTask.simps [of s] step rel)+
  next
    case 2
    then show ?case using "1.IH"(3)
      by (cases "ts_tasks s") (force simp: maybeRunTask.simps [of s] step rel Suc_le_eq)+
  next
    case 3
    then show ?case using "1.IH"(3)
      by (cases "ts_tasks s") (force simp: maybeRunTask.simps [of s] step rel)+
  }
qed

lemma taskCompleted_runs:
  "\<exists>xs. runs (ts_log (taskCompleted s)) @ ts_tasks (taskCompleted s) = runs (ts_log s) @ ts_tasks s @ xs"
  "ts_tasks s \<noteq> [] \<Longrightarrow> length (runs (ts_log s)) < length (runs (ts_log (taskCompleted s)))"
  "length (runs (ts_log s)) \<le> length (runs (ts_log (taskCompleted s)))"
  using maybeRunTask_runs [of "release_running s"] by (simp_all add: taskCompleted_def release_running_def)

text \<open>
  No queued task is starved.  If every running task completes, the task at position $k$ of the
  queue is started after at most $k + 1$ completions, after the tasks queued before it and in
  their order.
\<close>

theorem queued_task_runs:
  assumes "ts_tasks s = us @ t # vs"
  shows "prefix (runs (ts_log s) @ us @ [t]) (runs (ts_log ((taskCompleted ^^ Suc (length us)) s)))"
proof -
  let ?s = "\<lambda>n. (taskCompleted ^^ n) s"
  have all: "\<exists>xs. runs (ts_log (?s n)) @ ts_tasks (?s n) = runs (ts_log s) @ ts_tasks s @ xs" for n
  proof (induction n)
    case (Suc n)
    then obtain xs where "runs (ts_log (?s n)) @ ts_tasks (?s n) = runs (ts_log s) @ ts_tasks s @ xs" by blast
    moreover obtain ys where "runs (ts_log (?s (Suc n))) @ ts_tasks (?s (Suc n)) =
        (runs (ts_log (?s n)) @ ts_tasks (?s n)) @ ys"
      using taskCompleted_runs(1) [of "?s n"] by auto
    ultimately show ?case by auto
  qed simp
  have count: "min (length (runs (ts_log s)) + n) (length (runs (ts_log s) @ ts_tasks s)) \<le> length (runs (ts_log (?s n)))" for n
  proof (induction n)
    case (Suc n)
    obtain xs where "runs (ts_log (?s n)) @ ts_tasks (?s n) = runs (ts_log s) @ ts_tasks s @ xs" using all by blast
    from arg_cong [OF this, of length] have len: "length (runs (ts_log (?s n))) + length (ts_tasks (?s n)) =
        length (runs (ts_log s) @ ts_tasks s) + length xs" by simp
    show ?case
      using Suc len taskCompleted_runs(2,3) [of "?s n"] by (cases "ts_tasks (?s n)") auto
  qed simp
  obtain xs where "runs (ts_log (?s (Suc (length us)))) @ ts_tasks (?s (Suc (length us))) =
      (runs (ts_log s) @ us @ [t]) @ vs @ xs"
    using all [of "Suc (length us)"] assms by auto
  moreover have "length (runs (ts_log s) @ us @ [t]) \<le> length (runs (ts_log (?s (Suc (length us)))))"
    using count [of "Suc (length us)"] assms by simp
  ultimately show ?thesis by (metis prefixI prefix_length_prefix)
qed

theorem queued_task_runs_witness:
  "let s = \<lparr>ts_running = Some (AsyncTask 1 Deletable), ts_tasks = [AsyncTask 2 Deletable, AsyncTask 3 NonDeletable],
            ts_pending = [], ts_log = [TRun (AsyncTask 1 Deletable)]\<rparr>
   in prefix (runs (ts_log s) @ [AsyncTask 2 Deletable] @ [AsyncTask 3 NonDeletable])
        (runs (ts_log ((taskCompleted ^^ Suc (length [AsyncTask 2 Deletable])) s)))"
  unfolding Let_def by (rule queued_task_runs [where vs = "[]"]) simp

text \<open>
  C32: A deletion spares the tasks that must not be lost.  Deleting the tasks, unless forced, keeps
  the non-deletable ones in the queue in their order and sets the reschedulable ones aside, in
  their order, to be queued again; only deletable ones are gone.  A running task that is not
  deletable goes on; a deletable one is cancelled and the first task kept is started in its place.
\<close>

theorem delete_spares_protected:
  assumes "sched.reach s" "ts_running s = Some r"
  shows "let s' = deleteTasksInternal False s; kept = filter (\<lambda>t. deletePolicy t = NonDeletable) (ts_tasks s)
    in ts_pending s' = ts_pending s @ filter (\<lambda>t. deletePolicy t = Reschedulable) (ts_tasks s) \<and>
       (deletePolicy r \<noteq> Deletable \<longrightarrow> ts_tasks s' = kept \<and> ts_running s' = Some r) \<and>
       (deletePolicy r = Deletable \<longrightarrow>
          (\<exists>xs. runs (ts_log s') @ ts_tasks s' = runs (ts_log s) @ kept @ xs) \<and>
          (kept \<noteq> [] \<longrightarrow> prefix (runs (ts_log s) @ [hd kept]) (runs (ts_log s'))))"
proof -
  let ?kept = "filter (\<lambda>t. deletePolicy t = NonDeletable) (ts_tasks s)"
  let ?s1 = "s\<lparr>ts_tasks := ?kept,
       ts_pending := ts_pending s @ filter (\<lambda>t. deletePolicy t = Reschedulable) (ts_tasks s),
       ts_log := ts_log s @ sweep_log (ts_tasks s)\<rparr>"
  let ?s2 = "?s1\<lparr>ts_running := None, ts_log := ts_log ?s1 @ [TCancelled]\<rparr>"
  have eq: "deleteTasksInternal False s = maybeRunTask (if deletePolicy r = Deletable then ?s2 else ?s1)"
    using assms(2) by (simp add: deleteTasksInternal_def sweep_eq)
  have stay: "maybeRunTask ?s1 = ?s1" using assms(2) by (simp add: maybeRunTask.simps [of ?s1] split: list.split)
  have one: "\<exists>xs. runs (ts_log (maybeRunTask ?s2)) @ ts_tasks (maybeRunTask ?s2) = runs (ts_log s) @ ?kept @ xs"
    using maybeRunTask_runs(1) [of ?s2] by simp
  have two: "prefix (runs (ts_log s) @ [hd ?kept]) (runs (ts_log (maybeRunTask ?s2)))" if k: "?kept \<noteq> []"
  proof -
    obtain xs where "runs (ts_log (maybeRunTask ?s2)) @ ts_tasks (maybeRunTask ?s2) =
        (runs (ts_log s) @ [hd ?kept]) @ tl ?kept @ xs" using one k by (cases ?kept) auto
    moreover have "length (runs (ts_log s) @ [hd ?kept]) \<le> length (runs (ts_log (maybeRunTask ?s2)))"
      using maybeRunTask_runs(2) [of ?s2] k by simp
    ultimately show ?thesis by (metis prefixI prefix_length_prefix)
  qed
  show ?thesis unfolding Let_def eq using stay one two assms(2) by auto
qed

definition sample_queue :: scheduler where
  "sample_queue = fold (\<lambda>e s. sched_step s e)
     [SSchedule (AsyncTask 1 Deletable), SSchedule (AsyncTask 2 Deletable), SSchedule (AsyncTask 3 NonDeletable),
      SSchedule (AsyncTask 4 Reschedulable)] emptyScheduler"

theorem delete_spares_protected_witness:
  "ts_pending (deleteTasksInternal False sample_queue) = [AsyncTask 4 Reschedulable] \<and>
   prefix [AsyncTask 1 Deletable, AsyncTask 3 NonDeletable] (runs (ts_log (deleteTasksInternal False sample_queue)))"
proof -
  have "sched.reach sample_queue"
    unfolding sample_queue_def fold.simps comp_apply id_apply by (intro sched.reach_step sched.reach_init) simp_all
  moreover have "ts_running sample_queue = Some (AsyncTask 1 Deletable)" by code_simp
  moreover have "ts_tasks sample_queue = [AsyncTask 2 Deletable, AsyncTask 3 NonDeletable, AsyncTask 4 Reschedulable]"
    "ts_pending sample_queue = []" "runs (ts_log sample_queue) = [AsyncTask 1 Deletable]" by code_simp+
  ultimately show ?thesis using delete_spares_protected [of sample_queue "AsyncTask 1 Deletable"]
    by (simp add: Let_def)
qed

end
