(* ===== verification/Chacha20.thy ===== *)
theory Chacha20
  imports Prelude
begin

text \<open>
  Model of \<^verbatim>\<open>src/src/hacl-star/Hacl_Chacha20.c\<close>: the stream cipher that protects the settings file.
  Arrays of bytes are lists of 8-bit words and the cipher state is a list of sixteen 32-bit words;
  additions wrap as in the code.  Where the code is called with the same array as input and output,
  each block is read before it is written.
\<close>

unbundle bit_operations_syntax

type_synonym byte = "8 word"
type_synonym bytes = "byte list"

section \<open>Little-endian numbers\<close>

fun le_num :: "bytes \<Rightarrow> int" where
  "le_num [] = 0"
| "le_num (b # bs) = uint b + 256 * le_num bs"

fun to_le :: "nat \<Rightarrow> int \<Rightarrow> bytes" where
  "to_le 0 x = []"
| "to_le (Suc n) x = word_of_int x # to_le n (x div 256)"

lemma le_num_nonneg [simp]: "0 \<le> le_num bs"
  by (induction bs) simp_all

lemma le_num_less: "le_num bs < 256 ^ length bs"
proof (induction bs)
  case (Cons b bs)
  then have "le_num bs + 1 \<le> 256 ^ length bs" by simp
  moreover have "uint b < 256" using uint_lt2p [of b] by simp
  ultimately show ?case by simp
qed simp

lemma length_to_le [simp]: "length (to_le n x) = n"
  by (induction n arbitrary: x) simp_all

lemma le_num_to_le: "le_num (to_le n x) = x mod 256 ^ n"
proof (induction n arbitrary: x)
  case (Suc n)
  have "x mod (256 * 256 ^ n) = 256 * (x div 256 mod 256 ^ n) + x mod 256"
    by (rule zmod_zmult2_eq) simp
  then show ?case using Suc by (simp add: uint_word_of_int)
qed simp

lemma to_le_le_num: "length bs = n \<Longrightarrow> to_le n (le_num bs) = bs"
proof (induction bs arbitrary: n)
  case (Cons b bs)
  have "uint b < 256" using uint_lt2p [of b] by simp
  then have "(uint b + 256 * le_num bs) div 256 = le_num bs" by simp
  moreover have "(256 :: byte) = 0" by code_simp
  from arg_cong [OF this, of "\<lambda>x. x * word_of_int (le_num bs)"]
  have "word_of_int (uint b + 256 * le_num bs) = b" by simp
  ultimately show ?case using Cons by auto
qed simp

lemma le_num_append: "le_num (as @ bs) = le_num as + 256 ^ length as * le_num bs"
  by (induction as) (simp_all add: algebra_simps)

lemma le_num_inject: "length as = length bs \<Longrightarrow> le_num as = le_num bs \<Longrightarrow> as = bs"
  by (metis to_le_le_num)

lemma le_num_zeros [simp]: "le_num (replicate n 0) = 0"
  by (induction n) simp_all

definition load32_le :: "bytes \<Rightarrow> 32 word" where
  "load32_le bs = word_of_int (le_num (take 4 bs))"

definition store32_le :: "32 word \<Rightarrow> bytes" where
  "store32_le w = to_le 4 (uint w)"

definition load64_le :: "bytes \<Rightarrow> 64 word" where
  "load64_le bs = word_of_int (le_num (take 8 bs))"

definition store64_le :: "64 word \<Rightarrow> bytes" where
  "store64_le w = to_le 8 (uint w)"

lemma load_store32 [simp]: "load32_le (store32_le w @ bs) = w"
  using uint_lt2p [of w]
  by (intro word_uint_eqI) (simp add: load32_le_def store32_le_def le_num_to_le uint_word_of_int take_bit_eq_mod)

lemma store_load32 [simp]:
  assumes "length bs = 4"
  shows "store32_le (load32_le bs) = bs"
proof -
  have "uint (load32_le bs) = le_num bs"
    using le_num_less [of bs] assms by (simp add: load32_le_def uint_word_of_int take_bit_eq_mod)
  then show ?thesis using assms by (simp add: store32_le_def to_le_le_num)
qed

lemma length_store32 [simp]: "length (store32_le w) = 4"
  by (simp add: store32_le_def)

section \<open>The cipher\<close>

type_synonym chacha_state = "32 word list"

definition rotl32 :: "nat \<Rightarrow> 32 word \<Rightarrow> 32 word" where
  "rotl32 k w = (push_bit k w OR drop_bit (32 - k) w)"

text \<open>One of the four steps of \<^verbatim>\<open>quarter_round\<close>: \<open>st[a] += st[b]; st[d] = (st[d] ^ st[a]) <<< k\<close>.\<close>

definition quarter_line :: "nat \<Rightarrow> nat \<Rightarrow> nat \<Rightarrow> nat \<Rightarrow> chacha_state \<Rightarrow> chacha_state" where
  "quarter_line a b d k st =
    (let sta = st ! a + st ! b; std = rotl32 k (st ! d XOR sta) in (st[a := sta])[d := std])"

definition quarter_round :: "nat \<Rightarrow> nat \<Rightarrow> nat \<Rightarrow> nat \<Rightarrow> chacha_state \<Rightarrow> chacha_state" where
  "quarter_round a b c d st =
     quarter_line c d b 7 (quarter_line a b d 8 (quarter_line c d b 12 (quarter_line a b d 16 st)))"

definition double_round :: "chacha_state \<Rightarrow> chacha_state" where
  "double_round st =
    (let st = quarter_round 0 4 8 12 st; st = quarter_round 1 5 9 13 st;
         st = quarter_round 2 6 10 14 st; st = quarter_round 3 7 11 15 st;
         st = quarter_round 0 5 10 15 st; st = quarter_round 1 6 11 12 st;
         st = quarter_round 2 7 8 13 st
     in quarter_round 3 4 9 14 st)"

definition rounds :: "chacha_state \<Rightarrow> chacha_state" where
  "rounds st = (double_round ^^ 10) st"

definition chacha20_core :: "chacha_state \<Rightarrow> 32 word \<Rightarrow> chacha_state" where
  "chacha20_core ctx ctr =
    (let k = rounds (ctx[12 := ctx ! 12 + ctr]); k = map2 (+) k ctx in k[12 := k ! 12 + ctr])"

definition chacha20_constants :: "32 word list" where
  "chacha20_constants = [0x61707865, 0x3320646e, 0x79622d32, 0x6b206574]"

definition chacha20_init :: "bytes \<Rightarrow> bytes \<Rightarrow> 32 word \<Rightarrow> chacha_state" where
  "chacha20_init k n ctr =
     chacha20_constants @ map (\<lambda>i. load32_le (drop (i * 4) k)) [0..<8] @ [ctr] @
     map (\<lambda>i. load32_le (drop (i * 4) n)) [0..<3]"

definition chacha20_encrypt_block :: "chacha_state \<Rightarrow> 32 word \<Rightarrow> bytes \<Rightarrow> bytes" where
  "chacha20_encrypt_block ctx incr input =
    (let k = chacha20_core ctx incr; bl = map (\<lambda>i. load32_le (drop (i * 4) input)) [0..<16]
     in concat (map store32_le (map2 (XOR) bl k)))"

definition chacha20_encrypt_last :: "chacha_state \<Rightarrow> 32 word \<Rightarrow> bytes \<Rightarrow> bytes" where
  "chacha20_encrypt_last ctx incr input =
     take (length input) (chacha20_encrypt_block ctx incr (input @ replicate (64 - length input) 0))"

text \<open>The loop over the full blocks, from block \<open>i\<close> on, and the last partial block.\<close>

fun chacha20_update_from :: "chacha_state \<Rightarrow> nat \<Rightarrow> bytes \<Rightarrow> bytes" where
  "chacha20_update_from ctx i input =
    (if 64 \<le> length input
     then chacha20_encrypt_block ctx (of_nat i) (take 64 input) @ chacha20_update_from ctx (Suc i) (drop 64 input)
     else if input \<noteq> [] then chacha20_encrypt_last ctx (of_nat i) input else [])"

declare chacha20_update_from.simps [simp del]

definition chacha20_update :: "chacha_state \<Rightarrow> bytes \<Rightarrow> bytes" where
  "chacha20_update ctx input = chacha20_update_from ctx 0 input"

definition chacha20_encrypt :: "bytes \<Rightarrow> bytes \<Rightarrow> bytes \<Rightarrow> 32 word \<Rightarrow> bytes" where
  "chacha20_encrypt input key n ctr = chacha20_update (chacha20_init key n ctr) input"

definition chacha20_decrypt :: "bytes \<Rightarrow> bytes \<Rightarrow> bytes \<Rightarrow> 32 word \<Rightarrow> bytes" where
  "chacha20_decrypt cipher key n ctr = chacha20_update (chacha20_init key n ctr) cipher"

section \<open>Lengths\<close>

lemma length_quarter [simp]:
  "length (quarter_line a b d k st) = length st" "length (quarter_round a b c d st) = length st"
  by (simp_all add: quarter_round_def quarter_line_def Let_def)

lemma length_double_round [simp]: "length (double_round st) = length st"
  by (simp add: double_round_def Let_def)

lemma length_rounds [simp]: "length (rounds st) = length st"
proof -
  have "length ((double_round ^^ n) st) = length st" for n by (induction n) simp_all
  then show ?thesis by (simp add: rounds_def)
qed

lemma length_core [simp]: "length (chacha20_core ctx ctr) = length ctx"
  by (simp add: chacha20_core_def Let_def)

lemma length_init [simp]: "length (chacha20_init k n ctr) = 16"
  by (simp add: chacha20_init_def chacha20_constants_def)

lemma length_concat_store [simp]: "length (concat (map store32_le ws)) = 4 * length ws"
  by (induction ws) simp_all

lemma length_block [simp]: "length ctx = 16 \<Longrightarrow> length (chacha20_encrypt_block ctx incr input) = 64"
  by (simp add: chacha20_encrypt_block_def Let_def del: map_map)

lemma length_last [simp]:
  "length ctx = 16 \<Longrightarrow> length input \<le> 64 \<Longrightarrow> length (chacha20_encrypt_last ctx incr input) = length input"
  by (simp add: chacha20_encrypt_last_def)

lemma length_update_from [simp]:
  "length ctx = 16 \<Longrightarrow> length (chacha20_update_from ctx i input) = length input"
  by (induction ctx i input rule: chacha20_update_from.induct)
    (subst chacha20_update_from.simps, simp)

section \<open>The cipher as a key stream\<close>

lemma xor_zero: "a XOR b = 0 \<longleftrightarrow> a = (b :: 'a::len word)"
proof
  have eq: "(a XOR b) XOR b = a" by (simp add: xor.assoc)
  assume "a XOR b = 0"
  with eq show "a = b" by simp
qed simp

lemma to_le_xor: "to_le n (x XOR y) = map2 (XOR) (to_le n x) (to_le n y)"
proof (induction n arbitrary: x y)
  case (Suc n)
  have "(x XOR y) div 256 = (x div 256) XOR (y div 256)"
    using drop_bit_xor [of 8 x y] by (simp add: drop_bit_eq_div)
  then show ?case using Suc by (simp add: of_int_xor_eq)
qed simp

lemma store32_xor: "store32_le (a XOR b) = map2 (XOR) (store32_le a) (store32_le b)"
  by (simp add: store32_le_def unsigned_xor_eq to_le_xor del: to_le.simps)

lemma drop_concat_store:
  "i < length ws \<Longrightarrow> drop (i * 4) (concat (map store32_le ws)) = store32_le (ws ! i) @ concat (map store32_le (drop (Suc i) ws))"
proof (induction ws arbitrary: i)
  case (Cons w ws)
  then show ?case by (cases i) simp_all
qed simp

lemma concat_store_load:
  "length t = 4 * n \<Longrightarrow> concat (map store32_le (map (\<lambda>i. load32_le (drop (i * 4) t)) [0..<n])) = t"
proof (induction n arbitrary: t)
  case (Suc n)
  have "map (\<lambda>i. load32_le (drop (i * 4) t)) [0..<Suc n] =
      load32_le t # map (\<lambda>i. load32_le (drop (i * 4) (drop 4 t))) [0..<n]"
    unfolding upt_conv_Cons [OF zero_less_Suc] map_Suc_upt [symmetric] by (simp add: add.commute)
  moreover have "load32_le t = load32_le (take 4 t)" by (simp add: load32_le_def)
  ultimately show ?case using Suc.IH [of "drop 4 t"] Suc.prems by simp
qed simp

lemma map2_append: "length xs = length us \<Longrightarrow> map2 f (xs @ ys) (us @ vs) = map2 f xs us @ map2 f ys vs"
  by simp

lemma concat_store_xor:
  "length xs = length ys \<Longrightarrow>
   concat (map store32_le (map2 (XOR) xs ys)) = map2 (XOR) (concat (map store32_le xs)) (concat (map store32_le ys))"
  by (induction xs ys rule: list_induct2) (simp_all add: store32_xor)

definition key_block :: "chacha_state \<Rightarrow> 32 word \<Rightarrow> bytes" where
  "key_block ctx incr = concat (map store32_le (chacha20_core ctx incr))"

lemma block_xor:
  assumes "length ctx = 16" "length t = 64"
  shows "chacha20_encrypt_block ctx incr t = map2 (XOR) t (key_block ctx incr)"
proof -
  let ?ws = "map (\<lambda>i. load32_le (drop (i * 4) t)) [0..<16]"
  have "length ?ws = length (chacha20_core ctx incr)" using assms by simp
  from concat_store_xor [OF this] have "chacha20_encrypt_block ctx incr t =
      map2 (XOR) (concat (map store32_le ?ws)) (key_block ctx incr)"
    unfolding chacha20_encrypt_block_def key_block_def Let_def .
  moreover have "concat (map store32_le ?ws) = t" using concat_store_load [of t 16] assms(2) by simp
  ultimately show ?thesis by (simp only:)
qed

lemma length_key_block [simp]: "length ctx = 16 \<Longrightarrow> length (key_block ctx incr) = 64"
  by (simp add: key_block_def)

lemma zip_take_short: "zip xs (take (length xs) ys) = zip xs ys"
  by (simp add: list_eq_iff_nth_eq)

lemma last_xor:
  assumes "length ctx = 16" "length t \<le> 64"
  shows "chacha20_encrypt_last ctx incr t = map2 (XOR) t (key_block ctx incr)"
proof -
  have "chacha20_encrypt_last ctx incr t =
      take (length t) (map2 (XOR) (t @ replicate (64 - length t) 0) (key_block ctx incr))"
    using assms by (simp add: chacha20_encrypt_last_def block_xor)
  also have "\<dots> = map2 (XOR) t (take (length t) (key_block ctx incr))"
    by (simp add: take_map take_zip)
  also have "\<dots> = map2 (XOR) t (key_block ctx incr)" by (simp only: zip_take_short)
  finally show ?thesis .
qed

lemma map2_xor_twice:
  "length xs \<le> length ys \<Longrightarrow> map2 (XOR) (map2 (XOR) xs ys) ys = (xs :: 'a::len word list)"
  by (rule nth_equalityI) (auto simp: xor.assoc)

lemma update_from_twice:
  assumes "length ctx = 16"
  shows "chacha20_update_from ctx i (chacha20_update_from ctx i input) = input"
  using assms
proof (induction ctx i input rule: chacha20_update_from.induct)
  case (1 ctx i input)
  show ?case
  proof (cases "64 \<le> length input")
    case True
    let ?b = "chacha20_encrypt_block ctx (of_nat i) (take 64 input)"
    let ?r = "chacha20_update_from ctx (Suc i) (drop 64 input)"
    have "chacha20_update_from ctx i input = ?b @ ?r"
      using True by (simp add: chacha20_update_from.simps [of ctx i input])
    moreover have "chacha20_update_from ctx i (?b @ ?r) =
        chacha20_encrypt_block ctx (of_nat i) ?b @ chacha20_update_from ctx (Suc i) ?r"
      using 1 by (simp add: chacha20_update_from.simps [of ctx i "?b @ ?r"])
    moreover have "chacha20_encrypt_block ctx (of_nat i) ?b = take 64 input"
      using 1 True by (simp add: block_xor map2_xor_twice)
    ultimately show ?thesis using 1 True by simp
  next
    case False
    then have "chacha20_update_from ctx i input = map2 (XOR) input (key_block ctx (of_nat i))"
      using 1 by (simp add: chacha20_update_from.simps [of ctx i input] last_xor)
    moreover have "chacha20_update_from ctx i (map2 (XOR) input (key_block ctx (of_nat i))) =
        map2 (XOR) (map2 (XOR) input (key_block ctx (of_nat i))) (key_block ctx (of_nat i))"
      using 1 False by (simp add: chacha20_update_from.simps last_xor)
    ultimately show ?thesis using 1 False by (simp add: map2_xor_twice)
  qed
qed

lemma encrypt_twice [simp]: "chacha20_encrypt (chacha20_encrypt input key n ctr) key n ctr = input"
  by (simp add: chacha20_encrypt_def chacha20_update_def update_from_twice)

lemma length_encrypt [simp]: "length (chacha20_encrypt input key n ctr) = length input"
  by (simp add: chacha20_encrypt_def chacha20_update_def)

text \<open>The test vector of RFC 8439, section 2.1.1, on columns 0 to 3 of a state.\<close>

lemma quarter_round_vector:
  "quarter_round 0 1 2 3 [0x11111111, 0x01020304, 0x9b8d6f43, 0x01234567] =
     [0xea2a92f4, 0xcb1cf8ce, 0x4581472e, 0x5881c4bb]"
  by code_simp

end
