(* ===== verification/Poly1305.thy ===== *)
theory Poly1305
  imports Chacha20
begin

text \<open>
  Model of \<^verbatim>\<open>src/src/hacl-star/Hacl_Poly1305_32.c\<close> and of the authenticator inside
  \<^verbatim>\<open>src/src/hacl-star/Hacl_Chacha20Poly1305_32.c\<close>: arithmetic modulo $2^{130} - 5$ on five limbs of
  26 bits kept in 64-bit words.  The lemmas relate the words, with all their carries
  and masks, to the numbers of RFC 8439 (see the theory Poly1305Spec).
\<close>

unbundle bit_operations_syntax

section \<open>Limbs\<close>

type_synonym u64 = "64 word"

datatype limbs = Limbs u64 u64 u64 u64 u64

definition mask26 :: u64 where
  "mask26 = 0x3ffffff"

text \<open>The five limbs of a 16-byte block or key half.\<close>

definition split_limbs :: "u64 \<Rightarrow> u64 \<Rightarrow> limbs" where
  "split_limbs lo hi =
     Limbs (lo AND mask26) (drop_bit 26 lo AND mask26)
       (drop_bit 52 lo OR push_bit 12 (hi AND 0x3fff)) (drop_bit 14 hi AND mask26) (drop_bit 40 hi)"

fun set_bit128 :: "limbs \<Rightarrow> limbs" where
  "set_bit128 (Limbs e0 e1 e2 e3 e4) = Limbs e0 e1 e2 e3 (e4 OR 0x1000000)"

text \<open>The product of the accumulator plus the block with the key, limb by limb.\<close>

fun mul_limbs :: "limbs \<Rightarrow> limbs \<Rightarrow> limbs \<Rightarrow> limbs" where
  "mul_limbs (Limbs r0 r1 r2 r3 r4) (Limbs r50 r51 r52 r53 r54) (Limbs a0 a1 a2 a3 a4) =
     Limbs (r0 * a0 + r54 * a1 + r53 * a2 + r52 * a3 + r51 * a4)
       (r1 * a0 + r0 * a1 + r54 * a2 + r53 * a3 + r52 * a4)
       (r2 * a0 + r1 * a1 + r0 * a2 + r54 * a3 + r53 * a4)
       (r3 * a0 + r2 * a1 + r1 * a2 + r0 * a3 + r54 * a4)
       (r4 * a0 + r3 * a1 + r2 * a2 + r1 * a3 + r0 * a4)"

fun add_limbs :: "limbs \<Rightarrow> limbs \<Rightarrow> limbs" where
  "add_limbs (Limbs a0 a1 a2 a3 a4) (Limbs f0 f1 f2 f3 f4) =
     Limbs (a0 + f0) (a1 + f1) (a2 + f2) (a3 + f3) (a4 + f4)"

fun carry_limbs :: "limbs \<Rightarrow> limbs" where
  "carry_limbs (Limbs t0 t1 t2 t3 t4) =
    (let z0 = drop_bit 26 t0; z1 = drop_bit 26 t3;
         x0 = t0 AND mask26; x3 = t3 AND mask26;
         x1 = t1 + z0; x4 = t4 + z1;
         z01 = drop_bit 26 x1; z11 = drop_bit 26 x4;
         t = push_bit 2 z11; z12 = z11 + t;
         x11 = x1 AND mask26; x41 = x4 AND mask26;
         x2 = t2 + z01; x01 = x0 + z12;
         z02 = drop_bit 26 x2; z13 = drop_bit 26 x01;
         x21 = x2 AND mask26; x02 = x01 AND mask26;
         x31 = x3 + z02; x12 = x11 + z13;
         z03 = drop_bit 26 x31;
         x32 = x31 AND mask26; x42 = x41 + z03
     in Limbs x02 x12 x21 x32 x42)"

section \<open>The authenticator\<close>

record poly_ctx =
  pc_acc :: limbs
  pc_r :: limbs
  pc_r5 :: limbs

fun times5 :: "limbs \<Rightarrow> limbs" where
  "times5 (Limbs r0 r1 r2 r3 r4) = Limbs (r0 * 5) (r1 * 5) (r2 * 5) (r3 * 5) (r4 * 5)"

text \<open>\<^verbatim>\<open>poly1305_init\<close>; the copies \<^verbatim>\<open>rn\<close> and \<^verbatim>\<open>rn_5\<close> it makes are never read in the 32-bit code.\<close>

definition poly1305_init :: "bytes \<Rightarrow> poly_ctx" where
  "poly1305_init key =
    (let lo = load64_le key AND 0x0ffffffc0fffffff; hi = load64_le (drop 8 key) AND 0x0ffffffc0ffffffc;
         r = split_limbs lo hi
     in \<lparr>pc_acc = Limbs 0 0 0 0 0, pc_r = r, pc_r5 = times5 r\<rparr>)"

text \<open>One 16-byte block: the body that the code repeats for each kind of block.\<close>

definition poly1305_block :: "bytes \<Rightarrow> poly_ctx \<Rightarrow> poly_ctx" where
  "poly1305_block block ctx =
    (let e = set_bit128 (split_limbs (load64_le block) (load64_le (drop 8 block)))
     in ctx\<lparr>pc_acc := carry_limbs (mul_limbs (pc_r ctx) (pc_r5 ctx) (add_limbs (pc_acc ctx) e))\<rparr>)"

text \<open>
  \<^verbatim>\<open>poly1305_padded_32\<close>: the full blocks, then the rest padded with zeros.  Its middle part, for a
  remainder of \<^verbatim>\<open>n * 16\<close> modulo 16, is never executed.
\<close>

fun poly1305_padded :: "bytes \<Rightarrow> poly_ctx \<Rightarrow> poly_ctx" where
  "poly1305_padded input ctx =
    (if 16 \<le> length input then poly1305_padded (drop 16 input) (poly1305_block (take 16 input) ctx)
     else if input \<noteq> [] then poly1305_block (input @ replicate (16 - length input) 0) ctx
     else ctx)"

declare poly1305_padded.simps [simp del]

definition eq_mask :: "u64 \<Rightarrow> u64 \<Rightarrow> u64" where
  "eq_mask a b =
    (let x = a XOR b; minus_x = (NOT x) + 1; x_or_minus_x = x OR minus_x; xnx = drop_bit 63 x_or_minus_x in xnx - 1)"

text \<open>The common part of \<^verbatim>\<open>gte_mask\<close> and of the carry in \<^verbatim>\<open>poly1305_finish\<close>: 1 exactly if \<open>x < y\<close>.\<close>

definition borrow :: "u64 \<Rightarrow> u64 \<Rightarrow> u64" where
  "borrow x y = drop_bit 63 (x XOR ((x XOR y) OR ((x - y) XOR y)))"

definition gte_mask :: "u64 \<Rightarrow> u64 \<Rightarrow> u64" where
  "gte_mask a b = borrow a b - 1"

fun carry_pass :: "limbs \<Rightarrow> limbs" where
  "carry_pass (Limbs f0 f1 f2 f3 f4) =
    (let l0 = f0 + 0; tmp0 = l0 AND mask26; c0 = drop_bit 26 l0;
         l1 = f1 + c0; tmp1 = l1 AND mask26; c1 = drop_bit 26 l1;
         l2 = f2 + c1; tmp2 = l2 AND mask26; c2 = drop_bit 26 l2;
         l3 = f3 + c2; tmp3 = l3 AND mask26; c3 = drop_bit 26 l3;
         l4 = f4 + c3; tmp4 = l4 AND mask26; c4 = drop_bit 26 l4
     in Limbs (tmp0 + c4 * 5) tmp1 tmp2 tmp3 tmp4)"

fun subtract_p :: "limbs \<Rightarrow> limbs" where
  "subtract_p (Limbs f0 f1 f2 f3 f4) =
    (let mh = 0x3ffffff; ml = 0x3fffffb;
         mask = eq_mask f4 mh; mask1 = mask AND eq_mask f3 mh; mask2 = mask1 AND eq_mask f2 mh;
         mask3 = mask2 AND eq_mask f1 mh; mask4 = mask3 AND NOT (NOT (gte_mask f0 ml));
         ph = mask4 AND mh; pl = mask4 AND ml
     in Limbs (f0 - pl) (f1 - ph) (f2 - ph) (f3 - ph) (f4 - ph))"

definition poly1305_finish :: "bytes \<Rightarrow> poly_ctx \<Rightarrow> bytes" where
  "poly1305_finish key ctx =
    (case subtract_p (carry_pass (carry_pass (pc_acc ctx))) of
       Limbs f0 f1 f2 f3 f4 \<Rightarrow>
         let lo = (f0 OR push_bit 26 f1) OR push_bit 52 f2;
             hi = (drop_bit 12 f2 OR push_bit 14 f3) OR push_bit 40 f4;
             ks = drop 16 key; f20 = load64_le ks; f21 = load64_le (drop 8 ks);
             r0 = lo + f20; r1 = hi + f21; c = borrow r0 f20
         in store64_le r0 @ store64_le (r1 + c))"

definition poly1305_do :: "bytes \<Rightarrow> bytes \<Rightarrow> bytes \<Rightarrow> bytes" where
  "poly1305_do k aad m =
    (let ctx = poly1305_padded m (poly1305_padded aad (poly1305_init k));
         block = store64_le (of_nat (length aad)) @ store64_le (of_nat (length m))
     in poly1305_finish k (poly1305_block block ctx))"

section \<open>Words as integers\<close>

lemma uint_u64: "0 \<le> uint (x :: u64)" "uint x < 18446744073709551616"
  using uint_lt2p [of x] by simp_all

lemma uint_add64: "uint (a :: u64) + uint b < 18446744073709551616 \<Longrightarrow> uint (a + b) = uint a + uint b"
  by (simp add: uint_word_ariths)

lemma uint_take: "n < 64 \<Longrightarrow> uint (x AND mask n) = uint (x :: u64) mod 2 ^ n"
  unfolding take_bit_eq_mask [symmetric] unsigned_take_bit_eq by (simp add: take_bit_eq_mod)

lemma uint_and_mask26: "uint (x AND mask26) = uint x mod 67108864"
proof -
  have m: "mask26 = mask 26" by (simp add: mask26_def mask_numeral)
  show ?thesis unfolding m by (simp add: uint_take)
qed

lemma uint_drop: "uint (drop_bit n (x :: u64)) = uint x div 2 ^ n"
  unfolding unsigned_drop_bit_eq using uint_u64 [of x] by (simp add: drop_bit_eq_div take_bit_eq_mod)

lemma uint_push: "uint (x :: u64) * 2 ^ n < 18446744073709551616 \<Longrightarrow> uint (push_bit n x) = uint x * 2 ^ n"
  unfolding unsigned_push_bit_eq by (simp add: push_bit_eq_mult take_bit_eq_mod)

lemma uint_or_disjoint:
  assumes "uint (a :: u64) < 2 ^ n" "2 ^ n dvd uint b"
  shows "uint (a OR b) = uint a + uint b"
proof -
  have "\<not> bit (uint a) k \<or> \<not> bit (uint b) k" for k
  proof (cases "k < n")
    case True
    then show ?thesis using assms(2) by (metis bit_push_bit_iff_int dvd_def mult.commute not_less push_bit_eq_mult)
  next
    case False
    have "take_bit n (uint a) = uint a" using assms(1) by (simp add: take_bit_eq_mod)
    then have "\<not> bit (uint a) k" using False by (metis bit_take_bit_iff)
    then show ?thesis ..
  qed
  then show ?thesis by (simp add: unsigned_or_eq disjunctive_add)
qed


section \<open>Limbs as numbers\<close>

definition P1305 :: int where "P1305 = 2 ^ 130 - 5"

fun limb_num :: "limbs \<Rightarrow> int" where
  "limb_num (Limbs a0 a1 a2 a3 a4) =
     uint a0 + 2 ^ 26 * uint a1 + 2 ^ 52 * uint a2 + 2 ^ 78 * uint a3 + 2 ^ 104 * uint a4"

fun bounded :: "int \<Rightarrow> limbs \<Rightarrow> bool" where
  "bounded b (Limbs a0 a1 a2 a3 a4) \<longleftrightarrow> uint a0 < b \<and> uint a1 < b \<and> uint a2 < b \<and> uint a3 < b \<and> uint a4 < b"

definition limb_base :: int where "limb_base = 2 ^ 26"

lemma limb_num_base:
  "limb_num (Limbs a0 a1 a2 a3 a4) = uint a0 + limb_base * uint a1 + limb_base ^ 2 * uint a2 + limb_base ^ 3 * uint a3 + limb_base ^ 4 * uint a4"
  by (simp add: limb_base_def)

lemma P1305_base: "P1305 = limb_base ^ 5 - 5"
  by (simp add: P1305_def limb_base_def)

lemma dot5:
  fixes x0 x1 x2 x3 x4 y0 y1 y2 y3 y4 :: u64
  assumes "bounded 335544320 (Limbs x0 x1 x2 x3 x4)" "bounded 268435456 (Limbs y0 y1 y2 y3 y4)"
  defines "v \<equiv> uint x0 * uint y0 + uint x1 * uint y1 + uint x2 * uint y2 + uint x3 * uint y3 + uint x4 * uint y4"
  shows "uint (x0 * y0 + x1 * y1 + x2 * y2 + x3 * y3 + x4 * y4) = v" and "0 \<le> v" "v < 576460752303423488"
proof -
  have le: "uint x * uint y \<le> 335544320 * 268435456" if "uint x < 335544320" "uint y < 268435456" for x y :: u64
    using that by (intro mult_mono) simp_all
  have b: "uint x0 * uint y0 \<le> 335544320 * 268435456" "uint x1 * uint y1 \<le> 335544320 * 268435456"
    "uint x2 * uint y2 \<le> 335544320 * 268435456" "uint x3 * uint y3 \<le> 335544320 * 268435456"
    "uint x4 * uint y4 \<le> 335544320 * 268435456"
    using assms(1,2) by (simp_all only: le bounded.simps)
  then show "v < 576460752303423488" by (simp add: v_def)
  show "0 \<le> v" by (simp add: v_def)
  have "uint (x0 * y0 + x1 * y1 + x2 * y2 + x3 * y3 + x4 * y4) = v mod 18446744073709551616"
    by (simp add: v_def uint_word_ariths mod_simps)
  also have "\<dots> = v" using \<open>v < 576460752303423488\<close> \<open>0 \<le> v\<close> by simp
  finally show "uint (x0 * y0 + x1 * y1 + x2 * y2 + x3 * y3 + x4 * y4) = v" .
qed

lemma mul_identity:
  fixes w :: int
  shows "(a0 + w * a1 + w ^ 2 * a2 + w ^ 3 * a3 + w ^ 4 * a4) * (r0 + w * r1 + w ^ 2 * r2 + w ^ 3 * r3 + w ^ 4 * r4) =
    (r0 * a0 + r4 * 5 * a1 + r3 * 5 * a2 + r2 * 5 * a3 + r1 * 5 * a4) +
    w * (r1 * a0 + r0 * a1 + r4 * 5 * a2 + r3 * 5 * a3 + r2 * 5 * a4) +
    w ^ 2 * (r2 * a0 + r1 * a1 + r0 * a2 + r4 * 5 * a3 + r3 * 5 * a4) +
    w ^ 3 * (r3 * a0 + r2 * a1 + r1 * a2 + r0 * a3 + r4 * 5 * a4) +
    w ^ 4 * (r4 * a0 + r3 * a1 + r2 * a2 + r1 * a3 + r0 * a4) +
    (w ^ 5 - 5) * (r4 * a1 + r3 * a2 + r2 * a3 + r1 * a4 + w * (r4 * a2 + r3 * a3 + r2 * a4) +
      w ^ 2 * (r4 * a3 + r3 * a4) + w ^ 3 * (r4 * a4))"
  by algebra


lemma add_limbs_num:
  assumes "bounded 134217728 a" "bounded 134217728 e"
  shows "limb_num (add_limbs a e) = limb_num a + limb_num e \<and> bounded 268435456 (add_limbs a e)"
proof -
  obtain a0 a1 a2 a3 a4 where a: "a = Limbs a0 a1 a2 a3 a4" by (cases a) simp
  obtain e0 e1 e2 e3 e4 where e: "e = Limbs e0 e1 e2 e3 e4" by (cases e) simp
  have "uint (a0 + e0) = uint a0 + uint e0" "uint (a1 + e1) = uint a1 + uint e1" "uint (a2 + e2) = uint a2 + uint e2"
    "uint (a3 + e3) = uint a3 + uint e3" "uint (a4 + e4) = uint a4 + uint e4"
    using assms unfolding a e by (simp_all add: uint_add64)
  then show ?thesis using assms unfolding a e by simp
qed

lemma mul_limbs_num:
  assumes "bounded 67108864 r" "bounded 268435456 a"
  shows "limb_num (mul_limbs r (times5 r) a) mod P1305 = (limb_num r * limb_num a) mod P1305 \<and>
    bounded 576460752303423488 (mul_limbs r (times5 r) a)"
proof -
  obtain a0 a1 a2 a3 a4 where a: "a = Limbs a0 a1 a2 a3 a4" by (cases a) simp
  obtain r0 r1 r2 r3 r4 where r: "r = Limbs r0 r1 r2 r3 r4" by (cases r) simp
  have five: "uint (x * 5) = uint x * 5" if "uint x < 67108864" for x :: u64
    using that by (simp add: uint_word_ariths)
  have f: "uint (r1 * 5) = uint r1 * 5" "uint (r2 * 5) = uint r2 * 5" "uint (r3 * 5) = uint r3 * 5" "uint (r4 * 5) = uint r4 * 5"
    using assms(1) unfolding r by (simp_all add: five)
  have b: "bounded 335544320 (Limbs r0 (r4 * 5) (r3 * 5) (r2 * 5) (r1 * 5))"
    "bounded 335544320 (Limbs r1 r0 (r4 * 5) (r3 * 5) (r2 * 5))" "bounded 335544320 (Limbs r2 r1 r0 (r4 * 5) (r3 * 5))"
    "bounded 335544320 (Limbs r3 r2 r1 r0 (r4 * 5))" "bounded 335544320 (Limbs r4 r3 r2 r1 r0)"
    using assms(1) unfolding r by (simp_all add: f)
  have d: "bounded 268435456 (Limbs a0 a1 a2 a3 a4)" using assms(2) unfolding a .
  note t = dot5 [OF b(1) d] dot5 [OF b(2) d] dot5 [OF b(3) d] dot5 [OF b(4) d] dot5 [OF b(5) d]
  have "\<exists>k. limb_num a * limb_num r = limb_num (mul_limbs r (times5 r) a) + P1305 * k"
    unfolding a r times5.simps mul_limbs.simps limb_num_base P1305_base t f
    by (rule exI, rule mul_identity)
  then have "limb_num (mul_limbs r (times5 r) a) mod P1305 = (limb_num r * limb_num a) mod P1305"
    by (metis mod_mult_self2 mult.commute)
  moreover have "bounded 576460752303423488 (mul_limbs r (times5 r) a)" using t by (simp add: a r)
  ultimately show ?thesis ..
qed

lemma mod26: "x mod 67108864 < (134217728 :: int)"
  using pos_mod_bound [of 67108864 x] by linarith

lemma carry_limbs_num:
  assumes "bounded 576460752303423488 t"
  shows "limb_num (carry_limbs t) mod P1305 = (limb_num t) mod P1305 \<and> bounded 134217728 (carry_limbs t)"
proof -
  obtain t0 t1 t2 t3 t4 where t: "t = Limbs t0 t1 t2 t3 t4" by (cases t) simp
  note ops = uint_and_mask26 uint_drop
  define z0 where "z0 = drop_bit 26 t0"
  define z1 where "z1 = drop_bit 26 t3"
  define x0 where "x0 = t0 AND mask26"
  define x3 where "x3 = t3 AND mask26"
  define x1 where "x1 = t1 + z0"
  define x4 where "x4 = t4 + z1"
  define z01 where "z01 = drop_bit 26 x1"
  define z11 where "z11 = drop_bit 26 x4"
  define z12 where "z12 = z11 + push_bit 2 z11"
  define x11 where "x11 = x1 AND mask26"
  define x41 where "x41 = x4 AND mask26"
  define x2 where "x2 = t2 + z01"
  define x01 where "x01 = x0 + z12"
  define z02 where "z02 = drop_bit 26 x2"
  define z13 where "z13 = drop_bit 26 x01"
  define x31 where "x31 = x3 + z02"
  define z03 where "z03 = drop_bit 26 x31"
  have b: "uint t0 < 2^59" "uint t1 < 2^59" "uint t2 < 2^59" "uint t3 < 2^59" "uint t4 < 2^59"
    using assms by (simp_all add: t)
  have 1: "uint z0 = uint t0 div 2^26" "uint z1 = uint t3 div 2^26" "uint x0 = uint t0 mod 67108864" "uint x3 = uint t3 mod 67108864"
    by (simp_all add: z0_def z1_def x0_def x3_def ops)
  have b1: "uint z0 < 2^33" "uint z1 < 2^33" "uint x0 < 2^26" "uint x3 < 2^26" using b by (simp_all add: 1)
  have 2: "uint x1 = uint t1 + uint z0" "uint x4 = uint t4 + uint z1"
    using b b1 by (simp_all add: x1_def x4_def uint_add64)
  have b2: "uint x1 < 2^60" "uint x4 < 2^60" using b b1 by (simp_all add: 2)
  have 3: "uint z01 = uint x1 div 2^26" "uint z11 = uint x4 div 2^26" "uint x11 = uint x1 mod 67108864" "uint x41 = uint x4 mod 67108864"
    by (simp_all add: z01_def z11_def x11_def x41_def ops)
  have b3: "uint z01 < 2^34" "uint z11 < 2^34" "uint x11 < 2^26" "uint x41 < 2^26" using b2 unfolding 3 by simp_all
  have "uint (push_bit 2 z11) = uint z11 * 4" using b3 uint_push [of z11 2] by simp
  then have 4: "uint z12 = 5 * uint z11" using b3 by (simp add: z12_def uint_add64)
  have 5: "uint x2 = uint t2 + uint z01" "uint x01 = uint x0 + uint z12"
    using b b1 b3 4 by (simp_all add: x2_def x01_def uint_add64)
  have b5: "uint x2 < 2^60" "uint x01 < 2^38" using b b1 b3 by (simp_all add: 4 5)
  have 6: "uint z02 = uint x2 div 2^26" "uint z13 = uint x01 div 2^26"
    by (simp_all add: z02_def z13_def ops)
  have b6: "uint z02 < 2^34" "uint z13 < 2^12" using b5 unfolding 6 by simp_all
  have 7: "uint x31 = uint x3 + uint z02" "uint (x11 + z13) = uint x11 + uint z13"
    using b1 b3 b6 by (simp_all add: x31_def uint_add64)
  have b7: "uint x31 < 2^35" using b1 b6 by (simp add: 7)
  have 8: "uint z03 = uint x31 div 2^26" by (simp add: z03_def ops)
  have b8: "uint z03 < 2^9" using b7 unfolding 8 by simp
  have 9: "uint (x41 + z03) = uint x41 + uint z03" using b3 b8 by (simp add: uint_add64)
  have out: "carry_limbs t = Limbs (x01 AND mask26) (x11 + z13) (x2 AND mask26) (x31 AND mask26) (x41 + z03)"
    unfolding t carry_limbs.simps Let_def z0_def z1_def x0_def x3_def x1_def x4_def z01_def z11_def z12_def x11_def x41_def
      x2_def x01_def z02_def z13_def x31_def z03_def by (rule refl)
  have dm: "uint t0 mod 67108864 = uint t0 - 67108864 * uint z0" "uint t3 mod 67108864 = uint t3 - 67108864 * uint z1"
    "uint x1 mod 67108864 = uint x1 - 67108864 * uint z01" "uint x4 mod 67108864 = uint x4 - 67108864 * uint z11"
    "uint x2 mod 67108864 = uint x2 - 67108864 * uint z02" "uint x01 mod 67108864 = uint x01 - 67108864 * uint z13"
    "uint x31 mod 67108864 = uint x31 - 67108864 * uint z03"
    by (simp_all add: 1(1,2) 3(1,2) 6 8 minus_mult_div_eq_mod)
  have "limb_num (carry_limbs t) = limb_num t + P1305 * (- uint z11)"
    unfolding out unfolding t limb_num.simps uint_and_mask26 7(2) 9 dm 3(3,4)
    unfolding 7(1) 5 4 2 1(3,4) dm P1305_def by simp
  moreover have "bounded 134217728 (carry_limbs t)"
    using b3 b6 b8 mod26 unfolding out bounded.simps uint_and_mask26 7(2) 9 by simp
  ultimately show ?thesis by (simp only: mod_mult_self2 simp_thms)
qed


lemma split_limbs_num:
  "limb_num (split_limbs lo hi) = uint lo + 2 ^ 64 * uint hi" "bounded 67108864 (split_limbs lo hi)"
  "(case split_limbs lo hi of Limbs _ _ _ _ e4 \<Rightarrow> uint e4 < 2 ^ 24)"
proof -
  have m14: "(0x3fff :: u64) = mask 14" by (simp add: mask_numeral)
  have bl: "uint lo < 2 ^ 64" "uint hi < 2 ^ 64" using uint_u64(2) [of lo] uint_u64(2) [of hi] by simp_all
  have l2a: "uint (drop_bit 52 lo) = uint lo div 2 ^ 52" "uint (drop_bit 52 lo) < 2 ^ 12"
    using bl by (simp_all add: uint_drop)
  have h14: "uint (hi AND 0x3fff) = uint hi mod 2 ^ 14" unfolding m14 by (simp add: uint_take)
  then have "uint (hi AND 0x3fff) < 2 ^ 14" by simp
  then have l2b: "uint (push_bit 12 (hi AND 0x3fff)) = uint hi mod 2 ^ 14 * 2 ^ 12"
    using h14 uint_push [of "hi AND 0x3fff" 12] by simp
  have l2: "uint (drop_bit 52 lo OR push_bit 12 (hi AND 0x3fff)) = uint lo div 2 ^ 52 + uint hi mod 2 ^ 14 * 2 ^ 12"
    using uint_or_disjoint [of "drop_bit 52 lo" 12 "push_bit 12 (hi AND 0x3fff)"] l2a l2b by simp
  have rest: "uint (lo AND mask26) = uint lo mod 2 ^ 26" "uint (drop_bit 26 lo AND mask26) = uint lo div 2 ^ 26 mod 2 ^ 26"
    "uint (drop_bit 14 hi AND mask26) = uint hi div 2 ^ 14 mod 2 ^ 26" "uint (drop_bit 40 hi) = uint hi div 2 ^ 40"
    by (simp_all add: uint_and_mask26 uint_drop)
  have "uint lo div 2 ^ 52 = uint lo div 2 ^ 26 div 2 ^ 26" "uint hi div 2 ^ 40 = uint hi div 2 ^ 14 div 2 ^ 26"
    by (simp_all add: zdiv_zmult2_eq [symmetric])
  then show "limb_num (split_limbs lo hi) = uint lo + 2 ^ 64 * uint hi"
    unfolding split_limbs_def limb_num.simps l2 rest
    by (simp add: minus_mult_div_eq_mod [symmetric] del: minus_mult_div_eq_mod)
  show "bounded 67108864 (split_limbs lo hi)"
  proof -
    have "uint lo div 2 ^ 52 < 2 ^ 12" "uint hi mod 2 ^ 14 < 2 ^ 14" "uint hi div 2 ^ 40 < 2 ^ 24" using bl by simp_all
    then show ?thesis unfolding split_limbs_def bounded.simps l2 rest by simp
  qed
  show "(case split_limbs lo hi of Limbs _ _ _ _ e4 \<Rightarrow> uint e4 < 2 ^ 24)"
    unfolding split_limbs_def limbs.case rest using bl by simp
qed

lemma set_bit128_num:
  assumes "bounded 67108864 e" "case e of Limbs _ _ _ _ e4 \<Rightarrow> uint e4 < 2 ^ 24"
  shows "limb_num (set_bit128 e) = limb_num e + 2 ^ 128" "bounded 67108864 (set_bit128 e)"
proof -
  obtain e0 e1 e2 e3 e4 where e: "e = Limbs e0 e1 e2 e3 e4" by (cases e) simp
  have "uint (e4 OR 0x1000000) = uint e4 + 2 ^ 24"
    using uint_or_disjoint [of e4 24 "0x1000000"] assms(2) by (simp add: e)
  then show "limb_num (set_bit128 e) = limb_num e + 2 ^ 128" "bounded 67108864 (set_bit128 e)"
    using assms by (simp_all add: e)
qed

lemma load_pair:
  assumes "length block = 16"
  shows "uint (load64_le block) + 2 ^ 64 * uint (load64_le (drop 8 block)) = le_num block"
proof -
  have "uint (load64_le bs) = le_num (take 8 bs)" for bs
  proof -
    have "(256 :: int) ^ length (take 8 bs) \<le> 256 ^ 8" by (rule power_increasing) simp_all
    then show ?thesis using le_num_less [of "take 8 bs"] by (simp add: load64_le_def uint_word_of_int)
  qed
  moreover have "le_num block = le_num (take 8 block) + 256 ^ 8 * le_num (drop 8 block)"
    using le_num_append [of "take 8 block" "drop 8 block"] assms by simp
  ultimately show ?thesis using assms by simp
qed

definition poly_ok :: "poly_ctx \<Rightarrow> bool" where
  "poly_ok ctx \<longleftrightarrow> bounded 67108864 (pc_r ctx) \<and> pc_r5 ctx = times5 (pc_r ctx) \<and> bounded 134217728 (pc_acc ctx)"

lemma bounded_mono: "bounded b x \<Longrightarrow> b \<le> c \<Longrightarrow> bounded c x"
  by (cases x) auto

lemma poly1305_block_num:
  assumes "poly_ok ctx" "length block = 16"
  shows "poly_ok (poly1305_block block ctx)" "pc_r (poly1305_block block ctx) = pc_r ctx"
    and "limb_num (pc_acc (poly1305_block block ctx)) mod P1305 =
      (limb_num (pc_acc ctx) + le_num block + 2 ^ 128) * limb_num (pc_r ctx) mod P1305"
proof -
  let ?s = "split_limbs (load64_le block) (load64_le (drop 8 block))"
  let ?e = "set_bit128 ?s"
  have e: "limb_num ?e = le_num block + 2 ^ 128" "bounded 67108864 ?e"
    using set_bit128_num [OF split_limbs_num(2,3)] split_limbs_num(1) load_pair [OF assms(2)] by simp_all
  have r: "bounded 67108864 (pc_r ctx)" "pc_r5 ctx = times5 (pc_r ctx)" "bounded 134217728 (pc_acc ctx)"
    using assms(1) by (simp_all add: poly_ok_def)
  have a: "limb_num (add_limbs (pc_acc ctx) ?e) = limb_num (pc_acc ctx) + limb_num ?e"
    "bounded 268435456 (add_limbs (pc_acc ctx) ?e)"
    using add_limbs_num [OF r(3) bounded_mono [OF e(2)]] by simp_all
  let ?m = "mul_limbs (pc_r ctx) (times5 (pc_r ctx)) (add_limbs (pc_acc ctx) ?e)"
  have mm: "limb_num ?m mod P1305 = limb_num (pc_r ctx) * limb_num (add_limbs (pc_acc ctx) ?e) mod P1305"
    "bounded 576460752303423488 ?m" using mul_limbs_num [OF r(1) a(2)] by simp_all
  have c: "limb_num (carry_limbs ?m) mod P1305 = limb_num ?m mod P1305" "bounded 134217728 (carry_limbs ?m)"
    using carry_limbs_num [OF mm(2)] by simp_all
  have out: "poly1305_block block ctx = ctx\<lparr>pc_acc := carry_limbs ?m\<rparr>"
    unfolding poly1305_block_def Let_def r(2) by (rule refl)
  show "poly_ok (poly1305_block block ctx)" "pc_r (poly1305_block block ctx) = pc_r ctx"
    using c r unfolding out by (simp_all add: poly_ok_def)
  show "limb_num (pc_acc (poly1305_block block ctx)) mod P1305 =
      (limb_num (pc_acc ctx) + le_num block + 2 ^ 128) * limb_num (pc_r ctx) mod P1305"
    unfolding out using c(1) mm(1) a(1) e(1) by (simp add: ac_simps)
qed

end
