(* ===== verification/Poly1305Spec.thy ===== *)
theory Poly1305Spec
  imports Poly1305
begin

text \<open>
  The Poly1305 authenticator as RFC 8439 defines it, on integers modulo $2^{130} - 5$, and the proof
  that the implementation on 26-bit limbs computes it.
\<close>

unbundle bit_operations_syntax

section \<open>The specification\<close>

fun poly_spec :: "int \<Rightarrow> int \<Rightarrow> bytes \<Rightarrow> int" where
  "poly_spec r acc bs =
    (if 16 \<le> length bs then poly_spec r ((acc + le_num (take 16 bs) + 2 ^ 128) * r mod P1305) (drop 16 bs) else acc)"

declare poly_spec.simps [simp del]

definition pad16 :: "bytes \<Rightarrow> bytes" where
  "pad16 bs = bs @ replicate ((16 - length bs mod 16) mod 16) 0"

lemma poly_spec_short: "length bs < 16 \<Longrightarrow> poly_spec r acc bs = acc"
  by (simp add: poly_spec.simps)

lemma poly_spec_append:
  "16 dvd length as \<Longrightarrow> poly_spec r acc (as @ bs) = poly_spec r (poly_spec r acc as) bs"
proof (induction r acc as rule: poly_spec.induct)
  case (1 r acc as)
  show ?case
  proof (cases "16 \<le> length as")
    case True
    moreover have "16 dvd length (drop 16 as)" using 1(2) True by (simp add: dvd_diff_nat)
    ultimately show ?thesis using 1(1) by (simp add: poly_spec.simps [of r acc])
  next
    case False
    then have "as = []" using 1(2) by (auto dest: dvd_imp_le)
    then show ?thesis by (simp add: poly_spec_short)
  qed
qed

lemma poly_spec_block:
  "length b = 16 \<Longrightarrow> poly_spec r acc (b @ bs) = poly_spec r ((acc + le_num b + 2 ^ 128) * r mod P1305) bs"
  by (simp add: poly_spec.simps [of r acc])

lemma pad16_drop: "16 \<le> length bs \<Longrightarrow> pad16 bs = take 16 bs @ pad16 (drop 16 bs)"
proof -
  assume "16 \<le> length bs"
  then have "(length bs - 16) mod 16 = length bs mod 16" by (simp add: le_mod_geq)
  then show ?thesis by (simp add: pad16_def)
qed

lemma length_pad16: "16 dvd length (pad16 bs)"
proof -
  let ?m = "length bs mod 16"
  have "(length bs + (16 - ?m) mod 16) mod 16 = 0"
  proof (cases "?m = 0")
    case False
    then have "(16 - ?m) mod 16 = 16 - ?m" by simp
    moreover have "(length bs + (16 - ?m)) mod 16 = (?m + (16 - ?m)) mod 16" by (rule mod_add_left_eq [symmetric])
    moreover have "?m + (16 - ?m) = 16" using mod_less_divisor [of 16 "length bs"] by linarith
    ultimately show ?thesis by simp
  qed simp
  then show ?thesis unfolding pad16_def length_append length_replicate mod_eq_0_iff_dvd [symmetric] .
qed

lemma block_spec:
  assumes "poly_ok ctx" "length block = 16"
  shows "limb_num (pc_acc (poly1305_block block ctx)) mod P1305 =
    poly_spec (limb_num (pc_r ctx)) (limb_num (pc_acc ctx) mod P1305) block"
proof -
  have "limb_num (pc_acc (poly1305_block block ctx)) mod P1305 =
      (limb_num (pc_acc ctx) mod P1305 + (le_num block + 2 ^ 128)) * limb_num (pc_r ctx) mod P1305"
    unfolding poly1305_block_num(3) [OF assms] by (metis add.assoc mod_add_left_eq mod_mult_left_eq)
  then show ?thesis using assms(2) poly_spec_block [of block _ _ "[]"]
    by (simp add: poly_spec_short add.assoc)
qed

lemma padded_spec:
  assumes "poly_ok ctx"
  shows "poly_ok (poly1305_padded input ctx) \<and> pc_r (poly1305_padded input ctx) = pc_r ctx \<and>
    limb_num (pc_acc (poly1305_padded input ctx)) mod P1305 =
      poly_spec (limb_num (pc_r ctx)) (limb_num (pc_acc ctx) mod P1305) (pad16 input)"
  using assms
proof (induction input ctx rule: poly1305_padded.induct)
  case (1 input ctx)
  consider (block) "16 \<le> length input" | (rest) "length input < 16" "input \<noteq> []" | (empty) "input = []" by fastforce
  then show ?case
  proof cases
    case block
    let ?c = "poly1305_block (take 16 input) ctx"
    have c: "poly_ok ?c" "pc_r ?c = pc_r ctx" "limb_num (pc_acc ?c) mod P1305 =
        poly_spec (limb_num (pc_r ctx)) (limb_num (pc_acc ctx) mod P1305) (take 16 input)"
      using poly1305_block_num [OF 1(2), of "take 16 input"] block_spec [OF 1(2), of "take 16 input"] block by simp_all
    have "poly1305_padded input ctx = poly1305_padded (drop 16 input) ?c"
      using block by (simp add: poly1305_padded.simps [of input])
    then show ?thesis using 1(1) [OF block c(1)] c block poly_spec_append [of "take 16 input"] pad16_drop [OF block] by simp
  next
    case rest
    let ?b = "input @ replicate (16 - length input) 0"
    have "pad16 input = ?b" "length ?b = 16" using rest by (auto simp: pad16_def)
    moreover have "poly1305_padded input ctx = poly1305_block ?b ctx" using rest by (simp add: poly1305_padded.simps)
    ultimately show ?thesis
      using poly1305_block_num [OF 1(2), of ?b] block_spec [OF 1(2), of ?b] by simp
  next
    case empty
    then show ?thesis using 1(2) by (simp add: poly1305_padded.simps pad16_def poly_spec_short)
  qed
qed

section \<open>Masks\<close>

lemma bit63: "bit (w :: u64) 63 \<longleftrightarrow> 2 ^ 63 \<le> uint w"
proof -
  have "bit w 63 \<longleftrightarrow> odd (uint w div 2 ^ 63)" by (metis bit_uint_iff bit_iff_odd bit_imp_le_length)
  moreover have "uint w div 2 ^ 63 \<in> {0, 1}" using uint_u64 [of w] by auto
  ultimately show ?thesis using uint_u64 [of w] by auto
qed

lemma drop63: "drop_bit 63 (w :: u64) = of_bool (bit w 63)"
proof (rule bit_word_eqI)
  fix n assume "n < LENGTH(64)"
  then show "bit (drop_bit 63 w) n = bit (of_bool (bit w 63) :: u64) n"
    by (cases n) (auto simp: bit_drop_bit_eq bit_of_bool_iff dest: bit_imp_le_length)
qed

lemma uint_minus64: "x \<noteq> 0 \<Longrightarrow> uint (- x :: u64) = 2 ^ 64 - uint x"
  using uint_u64 [of x] by (simp add: uint_word_ariths zmod_zminus1_eq_if uint_0_iff)

lemma eq_mask_eq: "eq_mask a b = (if a = b then - 1 else 0)"
proof -
  let ?x = "a XOR b"
  have "NOT ?x + 1 = - ?x" by (simp add: minus_eq_not_plus_1)
  then have mask: "eq_mask a b = of_bool (bit (?x OR - ?x) 63) - 1"
    unfolding eq_mask_def Let_def drop63 by simp
  have "bit ?x 63 \<or> bit (- ?x) 63" if "?x \<noteq> 0"
    using uint_u64 [of ?x] uint_minus64 [OF that] unfolding bit63 by auto
  then have "bit (?x OR - ?x) 63" if "?x \<noteq> 0" using that by (simp add: bit_or_iff)
  then show ?thesis unfolding mask using xor_zero [of a b] by (auto simp: bit_or_iff)
qed

lemma borrow_int:
  fixes X Y D :: int
  assumes "0 \<le> X" "X < 2 ^ 64" "0 \<le> Y" "Y < 2 ^ 64" "D = (if Y \<le> X then X - Y else X - Y + 2 ^ 64)"
  shows "((2 ^ 63 \<le> X) \<noteq> ((2 ^ 63 \<le> X) \<noteq> (2 ^ 63 \<le> Y) \<or> (2 ^ 63 \<le> D) \<noteq> (2 ^ 63 \<le> Y))) \<longleftrightarrow> X < Y"
  using assms by (auto split: if_splits)

lemma borrow_eq: "borrow x y = of_bool (x < y)"
proof -
  have "uint (x - y) = (if uint y \<le> uint x then uint x - uint y else uint x - uint y + 2 ^ 64)"
    using uint_u64 [of x] uint_u64 [of y] by (simp add: uint_sub_if')
  from borrow_int [OF _ _ _ _ this] uint_u64 [of x] uint_u64 [of y]
  have "((bit x 63) \<noteq> ((bit x 63) \<noteq> (bit y 63) \<or> (bit (x - y) 63) \<noteq> (bit y 63))) \<longleftrightarrow> x < y"
    unfolding bit63 word_less_def by simp
  then have "bit (x XOR ((x XOR y) OR ((x - y) XOR y))) 63 \<longleftrightarrow> x < y" by (simp add: bit_xor_iff bit_or_iff)
  then show ?thesis unfolding borrow_def drop63 by simp
qed

lemma gte_mask_eq: "gte_mask a b = (if b \<le> a then - 1 else 0)"
  by (auto simp: gte_mask_def borrow_eq)


section \<open>Final reduction\<close>

lemma carry_pass_num:
  assumes "bounded 134217728 f"
  shows "\<exists>c. 0 \<le> c \<and> c \<le> 2 \<and> limb_num (carry_pass f) = limb_num f - P1305 * c \<and>
    (\<exists>g0 g1 g2 g3 g4. carry_pass f = Limbs g0 g1 g2 g3 g4 \<and> 5 * c \<le> uint g0 \<and> uint g0 < 2 ^ 26 + 5 * c \<and>
      uint g1 < 2 ^ 26 \<and> uint g2 < 2 ^ 26 \<and> uint g3 < 2 ^ 26 \<and> uint g4 < 2 ^ 26)"
proof -
  obtain f0 f1 f2 f3 f4 where f: "f = Limbs f0 f1 f2 f3 f4" by (cases f) simp
  have b: "uint f0 < 2 ^ 27" "uint f1 < 2 ^ 27" "uint f2 < 2 ^ 27" "uint f3 < 2 ^ 27" "uint f4 < 2 ^ 27"
    using assms by (simp_all add: f)
  define l1 where "l1 = f1 + drop_bit 26 f0"
  define l2 where "l2 = f2 + drop_bit 26 l1"
  define l3 where "l3 = f3 + drop_bit 26 l2"
  define l4 where "l4 = f4 + drop_bit 26 l3"
  have 1: "uint l1 = uint f1 + uint f0 div 2 ^ 26" using b by (simp add: l1_def uint_add64 uint_drop)
  have b1: "uint l1 < 2 ^ 28" using b 1 by simp
  have 2: "uint l2 = uint f2 + uint l1 div 2 ^ 26" using b b1 by (simp add: l2_def uint_add64 uint_drop)
  have b2: "uint l2 < 2 ^ 28" using b b1 2 by simp
  have 3: "uint l3 = uint f3 + uint l2 div 2 ^ 26" using b b2 by (simp add: l3_def uint_add64 uint_drop)
  have b3: "uint l3 < 2 ^ 28" using b b2 3 by simp
  have 4: "uint l4 = uint f4 + uint l3 div 2 ^ 26" using b b3 by (simp add: l4_def uint_add64 uint_drop)
  have b4: "uint l4 < 2 ^ 27 + 4" using b b3 4 by simp
  define c where "c = uint l4 div 2 ^ 26"
  have c: "0 \<le> c" "c \<le> 2" using b4 by (simp_all add: c_def pos_imp_zdiv_nonneg_iff)
  have five: "uint (drop_bit 26 l4 * 5) = 5 * c" using c by (simp add: uint_word_ariths uint_drop c_def)
  have g0: "uint ((f0 AND mask26) + drop_bit 26 l4 * 5) = uint f0 mod 2 ^ 26 + 5 * c"
  proof -
    have "uint f0 mod 67108864 < 67108864" by simp
    then show ?thesis using c five by (simp add: uint_add64 uint_and_mask26)
  qed
  have out: "carry_pass f = Limbs ((f0 AND mask26) + drop_bit 26 l4 * 5) (l1 AND mask26) (l2 AND mask26)
      (l3 AND mask26) (l4 AND mask26)"
    unfolding f carry_pass.simps Let_def l4_def l3_def l2_def l1_def by simp
  have "limb_num (carry_pass f) = limb_num f - P1305 * c"
    unfolding out unfolding f limb_num.simps g0 uint_and_mask26 P1305_def c_def
    by (simp add: minus_mult_div_eq_mod [symmetric] 1 2 3 4 del: minus_mult_div_eq_mod)
  moreover have "5 * c \<le> uint ((f0 AND mask26) + drop_bit 26 l4 * 5)"
    "uint ((f0 AND mask26) + drop_bit 26 l4 * 5) < 2 ^ 26 + 5 * c" unfolding g0 by simp_all
  moreover have "uint (x AND mask26) < 2 ^ 26" for x by (simp add: uint_and_mask26)
  ultimately show ?thesis using c out by blast
qed


lemma reduced_limbs:
  assumes "bounded 134217728 f"
  shows "limb_num (carry_pass (carry_pass f)) mod P1305 = limb_num f mod P1305" "bounded 67108864 (carry_pass (carry_pass f))"
proof -
  obtain c g0 g1 g2 g3 g4 where c: "0 \<le> c" "c \<le> 2" and n1: "limb_num (carry_pass f) = limb_num f - P1305 * c"
    and g: "carry_pass f = Limbs g0 g1 g2 g3 g4" "uint g0 < 2 ^ 26 + 5 * c"
      "uint g1 < 2 ^ 26" "uint g2 < 2 ^ 26" "uint g3 < 2 ^ 26" "uint g4 < 2 ^ 26"
    using carry_pass_num [OF assms] by blast
  have "bounded 134217728 (carry_pass f)" using g c by simp
  then obtain d h0 h1 h2 h3 h4 where d: "0 \<le> d" "d \<le> 2"
    and n2: "limb_num (carry_pass (carry_pass f)) = limb_num (carry_pass f) - P1305 * d"
    and h: "carry_pass (carry_pass f) = Limbs h0 h1 h2 h3 h4" "5 * d \<le> uint h0" "uint h0 < 2 ^ 26 + 5 * d"
      "uint h1 < 2 ^ 26" "uint h2 < 2 ^ 26" "uint h3 < 2 ^ 26" "uint h4 < 2 ^ 26"
    using carry_pass_num [of "carry_pass f"] by blast
  have "limb_num (carry_pass (carry_pass f)) = limb_num f + P1305 * (- (c + d))"
    using n1 n2 by (simp add: algebra_simps)
  then show "limb_num (carry_pass (carry_pass f)) mod P1305 = limb_num f mod P1305"
    by (simp only: mod_mult_self2)
  have "limb_num (carry_pass f) < 2 ^ 130 + 10" unfolding g using g c by simp
  then have "limb_num (carry_pass (carry_pass f)) < 15" if "d \<noteq> 0"
    using that d n2 by (cases "d = 1"; cases "d = 2") (simp_all add: P1305_def)
  moreover have "uint h0 \<le> limb_num (carry_pass (carry_pass f))" unfolding h by simp
  ultimately have "uint h0 < 15" if "d \<noteq> 0" using that by fastforce
  then have "uint h0 < 2 ^ 26" using h(3) by (cases "d = 0") simp_all
  then show "bounded 67108864 (carry_pass (carry_pass f))" unfolding h using h by simp
qed

lemma subtract_p_num:
  assumes "bounded 67108864 f"
  shows "limb_num (subtract_p f) = limb_num f mod P1305" "bounded 67108864 (subtract_p f)"
proof -
  obtain f0 f1 f2 f3 f4 where f: "f = Limbs f0 f1 f2 f3 f4" by (cases f) simp
  let ?top = "f4 = 0x3ffffff \<and> f3 = 0x3ffffff \<and> f2 = 0x3ffffff \<and> f1 = 0x3ffffff \<and> 0x3fffffb \<le> f0"
  have b: "uint f0 < 67108864" "uint f1 < 67108864" "uint f2 < 67108864" "uint f3 < 67108864" "uint f4 < 67108864"
    using assms by (simp_all add: f)
  have sub: "subtract_p f = (if ?top then Limbs (f0 - 0x3fffffb) 0 0 0 0 else f)"
    unfolding f subtract_p.simps Let_def eq_mask_eq gte_mask_eq by auto
  have conv: "x = 0x3ffffff \<longleftrightarrow> uint x = 67108863" for x :: u64 by (simp add: word_uint_eq_iff)
  have conv': "0x3fffffb \<le> f0 \<longleftrightarrow> 67108859 \<le> uint f0" by (simp add: word_le_def)
  have "limb_num (subtract_p f) = limb_num f mod P1305 \<and> bounded 67108864 (subtract_p f)"
  proof (cases ?top)
    case True
    have "uint (f0 - 0x3fffffb) = uint f0 - 67108859" using True conv' by (simp add: uint_sub_if')
    moreover have "limb_num f = P1305 + (uint f0 - 67108859)" using True by (simp add: f P1305_def)
    moreover have "(P1305 + (uint f0 - 67108859)) mod P1305 = uint f0 - 67108859"
      unfolding mod_add_self1 using True conv' b by (intro mod_pos_pos_trivial) (simp_all add: P1305_def)
    ultimately show ?thesis using True b by (simp add: sub)
  next
    case False
    then have "limb_num f < P1305"
      using b unfolding conv conv' by (auto simp: f P1305_def)
    moreover have "0 \<le> limb_num f" by (simp add: f)
    ultimately show ?thesis unfolding sub if_not_P [OF False] using assms by simp
  qed
  then show "limb_num (subtract_p f) = limb_num f mod P1305" "bounded 67108864 (subtract_p f)" by simp_all
qed


lemma uint_push_mod: "uint (push_bit n (x :: u64)) = uint x * 2 ^ n mod 2 ^ 64"
  unfolding unsigned_push_bit_eq by (simp add: push_bit_eq_mult take_bit_eq_mod)

definition pack_lo :: "u64 \<Rightarrow> u64 \<Rightarrow> u64 \<Rightarrow> u64" where
  "pack_lo f0 f1 f2 = ((f0 OR push_bit 26 f1) OR push_bit 52 f2)"

definition pack_hi :: "u64 \<Rightarrow> u64 \<Rightarrow> u64 \<Rightarrow> u64" where
  "pack_hi f2 f3 f4 = ((drop_bit 12 f2 OR push_bit 14 f3) OR push_bit 40 f4)"

lemma pack_num:
  assumes "bounded 67108864 (Limbs f0 f1 f2 f3 f4)"
  shows "uint (pack_lo f0 f1 f2) + 2 ^ 64 * uint (pack_hi f2 f3 f4) = limb_num (Limbs f0 f1 f2 f3 f4) mod 2 ^ 128"
proof -
  have b: "uint f0 < 2 ^ 26" "uint f1 < 2 ^ 26" "uint f2 < 2 ^ 26" "uint f3 < 2 ^ 26" "uint f4 < 2 ^ 26"
    using assms by simp_all
  have p: "uint (push_bit 26 f1) = uint f1 * 2 ^ 26" "uint (push_bit 14 f3) = uint f3 * 2 ^ 14"
    using b by (simp_all add: uint_push)
  have q: "uint (push_bit 52 f2) = (uint f2 mod 2 ^ 12) * 2 ^ 52" "uint (push_bit 40 f4) = (uint f4 mod 2 ^ 24) * 2 ^ 40"
    unfolding uint_push_mod
    using mult_mod_right [of "2 ^ 52" "uint f2" "2 ^ 12"] mult_mod_right [of "2 ^ 40" "uint f4" "2 ^ 24"]
    by (simp_all add: mult.commute)
  have 1: "uint (f0 OR push_bit 26 f1) = uint f0 + uint f1 * 2 ^ 26"
    using uint_or_disjoint [of f0 26 "push_bit 26 f1"] b p by simp
  have lo: "uint (pack_lo f0 f1 f2) = uint f0 + uint f1 * 2 ^ 26 + (uint f2 mod 2 ^ 12) * 2 ^ 52"
    unfolding pack_lo_def using uint_or_disjoint [of "f0 OR push_bit 26 f1" 52 "push_bit 52 f2"] b 1 q by simp
  have d: "uint (drop_bit 12 f2) = uint f2 div 2 ^ 12" "uint f2 div 2 ^ 12 < 2 ^ 14" using b by (simp_all add: uint_drop)
  have 2: "uint (drop_bit 12 f2 OR push_bit 14 f3) = uint f2 div 2 ^ 12 + uint f3 * 2 ^ 14"
    using uint_or_disjoint [of "drop_bit 12 f2" 14 "push_bit 14 f3"] d p by simp
  have hi: "uint (pack_hi f2 f3 f4) = uint f2 div 2 ^ 12 + uint f3 * 2 ^ 14 + (uint f4 mod 2 ^ 24) * 2 ^ 40"
    unfolding pack_hi_def using uint_or_disjoint [of "drop_bit 12 f2 OR push_bit 14 f3" 40 "push_bit 40 f4"] b d 2 q by simp
  have v: "limb_num (Limbs f0 f1 f2 f3 f4) = uint (pack_lo f0 f1 f2) + 2 ^ 64 * uint (pack_hi f2 f3 f4) + 2 ^ 128 * (uint f4 div 2 ^ 24)"
    unfolding lo hi limb_num.simps by (simp add: minus_mult_div_eq_mod [symmetric] del: minus_mult_div_eq_mod)
  have "uint (pack_lo f0 f1 f2) + 2 ^ 64 * uint (pack_hi f2 f3 f4) < 2 ^ 128"
    using uint_u64 [of "pack_lo f0 f1 f2"] uint_u64 [of "pack_hi f2 f3 f4"] by simp
  then show ?thesis unfolding v mod_mult_self2 by (intro mod_pos_pos_trivial [symmetric]) simp_all
qed

lemma add128:
  fixes lo hi x y :: u64
  defines "r0 \<equiv> lo + x"
  shows "uint r0 + 2 ^ 64 * uint (hi + y + borrow r0 x) =
    ((uint lo + 2 ^ 64 * uint hi) + (uint x + 2 ^ 64 * uint y)) mod 2 ^ 128"
proof -
  define k :: int where "k = of_bool (2 ^ 64 \<le> uint lo + uint x)"
  have r0: "uint r0 = uint lo + uint x - 2 ^ 64 * k"
    using uint_u64 [of lo] uint_u64 [of x] by (simp add: r0_def k_def uint_plus_if')
  have k: "uint (borrow r0 x) = k"
    using r0 uint_u64 [of lo] uint_u64 [of x] by (auto simp: borrow_eq word_less_def k_def)
  have "uint (hi + y + borrow r0 x) = (uint hi + uint y + k) mod 2 ^ 64"
    using k by (simp add: uint_word_ariths mod_simps)
  then have "uint r0 + 2 ^ 64 * uint (hi + y + borrow r0 x) = uint r0 + 2 ^ 64 * (uint hi + uint y + k) mod 2 ^ 128"
    using mult_mod_right [of "2 ^ 64" "uint hi + uint y + k" "2 ^ 64"] by simp
  also have "\<dots> = (uint r0 + 2 ^ 64 * (uint hi + uint y + k)) mod 2 ^ 128"
  proof -
    let ?m = "2 ^ 64 * ((uint hi + uint y + k) mod 2 ^ 64)"
    have "(uint hi + uint y + k) mod 2 ^ 64 \<le> 2 ^ 64 - 1" by simp
    then have "uint r0 + ?m < 2 ^ 128" using uint_u64 [of r0] by simp
    then have "(uint r0 + ?m) mod 2 ^ 128 = uint r0 + ?m" by (intro mod_pos_pos_trivial) simp_all
    moreover have "2 ^ 64 * (uint hi + uint y + k) mod 2 ^ 128 = ?m"
      using mult_mod_right [of "2 ^ 64" "uint hi + uint y + k" "2 ^ 64"] by simp
    ultimately show ?thesis by (metis mod_add_right_eq)
  qed
  finally show ?thesis unfolding r0 by (simp add: algebra_simps)
qed


lemma load64_take: "load64_le (take 8 bs) = load64_le bs"
  by (simp add: load64_le_def)

lemma finish_num:
  assumes "poly_ok ctx" "32 \<le> length key"
  shows "le_num (poly1305_finish key ctx) =
    (limb_num (pc_acc ctx) mod P1305 + le_num (take 16 (drop 16 key))) mod 2 ^ 128"
proof -
  have acc: "bounded 134217728 (pc_acc ctx)" using assms(1) by (simp add: poly_ok_def)
  let ?f = "subtract_p (carry_pass (carry_pass (pc_acc ctx)))"
  have f: "limb_num ?f = limb_num (pc_acc ctx) mod P1305" "bounded 67108864 ?f"
    using subtract_p_num [OF reduced_limbs(2) [OF acc]] reduced_limbs(1) [OF acc] by simp_all
  obtain f0 f1 f2 f3 f4 where l: "?f = Limbs f0 f1 f2 f3 f4" by (cases ?f) simp
  let ?x = "load64_le (drop 16 key)" and ?y = "load64_le (drop 8 (drop 16 key))"
  let ?lo = "pack_lo f0 f1 f2" and ?hi = "pack_hi f2 f3 f4"
  have out: "poly1305_finish key ctx = store64_le (?lo + ?x) @ store64_le (?hi + ?y + borrow (?lo + ?x) ?x)"
    unfolding poly1305_finish_def l limbs.case Let_def pack_lo_def pack_hi_def by (rule refl)
  have st: "le_num (store64_le w) = uint w" for w
    using uint_u64 [of w] by (simp add: store64_le_def le_num_to_le)
  have ks: "uint ?x + 2 ^ 64 * uint ?y = le_num (take 16 (drop 16 key))"
    using load_pair [of "take 16 (drop 16 key)"] assms(2) load64_take [of "take 16 (drop 16 key)"]
      load64_take [of "drop 16 key"] load64_take [of "drop 8 (take 16 (drop 16 key))"] load64_take [of "drop 24 key"]
    by (simp add: drop_take)
  have "le_num (poly1305_finish key ctx) = uint (?lo + ?x) + 2 ^ 64 * uint (?hi + ?y + borrow (?lo + ?x) ?x)"
    unfolding out le_num_append st by (simp add: store64_le_def)
  also have "\<dots> = ((uint ?lo + 2 ^ 64 * uint ?hi) + le_num (take 16 (drop 16 key))) mod 2 ^ 128"
    unfolding add128 ks by (rule refl)
  also have "\<dots> = (limb_num (pc_acc ctx) mod P1305 + le_num (take 16 (drop 16 key))) mod 2 ^ 128"
    using pack_num [of f0 f1 f2 f3 f4] f unfolding l by (metis mod_add_left_eq)
  finally show ?thesis .
qed

lemma and_pair:
  fixes a b c d :: int
  assumes "0 \<le> a" "a < 2 ^ 64" "0 \<le> c" "c < 2 ^ 64"
  shows "(a + 2 ^ 64 * b) AND (c + 2 ^ 64 * d) = (a AND c) + 2 ^ 64 * (b AND d)"
proof -
  have cat: "x + 2 ^ 64 * y = concat_bit 64 x y" if "0 \<le> x" "x < 2 ^ 64" for x y :: int
    using that by (simp add: concat_bit_eq take_bit_eq_mod push_bit_eq_mult)
  have "0 \<le> a AND c" "a AND c < 2 ^ 64" using assms by (simp_all add: AND_lower AND_upper1')
  then show ?thesis using assms
    by (simp only: cat) (rule bit_eqI, auto simp: bit_concat_bit_iff bit_and_iff)
qed

section \<open>Correctness\<close>

definition clamp :: "int \<Rightarrow> int" where
  "clamp r = (r AND 0x0ffffffc0ffffffc0ffffffc0fffffff)"

lemma init_num:
  assumes "16 \<le> length key"
  shows "poly_ok (poly1305_init key)" "limb_num (pc_acc (poly1305_init key)) = 0"
    and "limb_num (pc_r (poly1305_init key)) = clamp (le_num (take 16 key))"
proof -
  let ?lo = "load64_le key" and ?hi = "load64_le (drop 8 key)"
  have ks: "uint ?lo + 2 ^ 64 * uint ?hi = le_num (take 16 key)"
    using load_pair [of "take 16 key"] assms load64_take [of "take 16 key"] load64_take [of key]
      load64_take [of "drop 8 (take 16 key)"] load64_take [of "drop 8 key"]
    by (simp add: drop_take)
  have "clamp (le_num (take 16 key)) = (uint ?lo AND 0x0ffffffc0fffffff) + 2 ^ 64 * (uint ?hi AND 0x0ffffffc0ffffffc)"
    unfolding clamp_def ks [symmetric]
    using and_pair [of "uint ?lo" "0x0ffffffc0fffffff" "uint ?hi" "0x0ffffffc0ffffffc"] uint_u64 [of ?lo] by simp
  moreover have "uint (?lo AND 0x0ffffffc0fffffff) = (uint ?lo AND 0x0ffffffc0fffffff)"
    "uint (?hi AND 0x0ffffffc0ffffffc) = (uint ?hi AND 0x0ffffffc0ffffffc)" by (simp_all add: uint_and)
  ultimately show "limb_num (pc_r (poly1305_init key)) = clamp (le_num (take 16 key))"
    unfolding poly1305_init_def Let_def by (simp only: poly_ctx.simps split_limbs_num(1))
  show "poly_ok (poly1305_init key)"
    unfolding poly1305_init_def Let_def poly_ok_def by (simp add: split_limbs_num(2))
  show "limb_num (pc_acc (poly1305_init key)) = 0" by (simp add: poly1305_init_def Let_def)
qed

definition mac_data :: "bytes \<Rightarrow> bytes \<Rightarrow> bytes" where
  "mac_data aad m = pad16 aad @ pad16 m @ to_le 8 (int (length aad)) @ to_le 8 (int (length m))"

definition poly1305_spec :: "bytes \<Rightarrow> bytes \<Rightarrow> bytes" where
  "poly1305_spec key message =
     to_le 16 (poly_spec (clamp (le_num (take 16 key))) 0 message + le_num (take 16 (drop 16 key)))"

text \<open>
  C13: The authenticator computed on 26-bit limbs in 64-bit words, with its lazy carries, its
  constant-time masks and its final conditional subtraction, is the Poly1305 of RFC 8439: the
  little-endian number of 16 bytes obtained by evaluating the blocks of the padded data, modulo
  $2^{130} - 5$, at the clamped first half of the key, plus the second half of the key modulo
  $2^{128}$.  No sum or product wraps around on the way.
\<close>

theorem poly1305_correct:
  assumes "32 \<le> length key" "length aad < 2 ^ 64" "length m < 2 ^ 64"
  shows "poly1305_do key aad m = poly1305_spec key (mac_data aad m)"
proof -
  let ?r = "clamp (le_num (take 16 key))"
  let ?c0 = "poly1305_init key"
  let ?c1 = "poly1305_padded aad ?c0"
  let ?c2 = "poly1305_padded m ?c1"
  let ?b = "store64_le (of_nat (length aad)) @ store64_le (of_nat (length m))"
  have b: "?b = to_le 8 (int (length aad)) @ to_le 8 (int (length m))" "length ?b = 16"
    using assms(2,3) by (simp_all add: store64_le_def unsigned_of_nat take_bit_nat_eq_self)
  have 0: "poly_ok ?c0" "limb_num (pc_acc ?c0) = 0" "limb_num (pc_r ?c0) = ?r" using init_num [of key] assms(1) by simp_all
  have 1: "poly_ok ?c1" "pc_r ?c1 = pc_r ?c0" "limb_num (pc_acc ?c1) mod P1305 = poly_spec ?r 0 (pad16 aad)"
    using padded_spec [OF 0(1), of aad] 0 by simp_all
  have 2: "poly_ok ?c2" "pc_r ?c2 = pc_r ?c0" "limb_num (pc_acc ?c2) mod P1305 = poly_spec ?r 0 (pad16 aad @ pad16 m)"
    using padded_spec [OF 1(1), of m] 0 1 poly_spec_append [OF length_pad16, of ?r 0 aad] by simp_all
  have "16 dvd length (pad16 aad @ pad16 m)" using length_pad16 [of aad] length_pad16 [of m] by simp
  then have 3: "limb_num (pc_acc (poly1305_block ?b ?c2)) mod P1305 = poly_spec ?r 0 (mac_data aad m)"
    using block_spec [OF 2(1) b(2)] 2 0(3) poly_spec_append [of "pad16 aad @ pad16 m" ?r 0 ?b] b(1)
    by (simp add: mac_data_def)
  have "le_num (poly1305_do key aad m) = (poly_spec ?r 0 (mac_data aad m) + le_num (take 16 (drop 16 key))) mod 256 ^ 16"
    using finish_num [OF poly1305_block_num(1) [OF 2(1) b(2)] assms(1)] 3 by (simp add: poly1305_do_def Let_def)
  moreover have "length (poly1305_do key aad m) = 16"
    by (simp add: poly1305_do_def Let_def poly1305_finish_def store64_le_def split: limbs.split)
  ultimately show ?thesis by (intro le_num_inject) (simp_all add: poly1305_spec_def le_num_to_le)
qed

theorem poly1305_correct_witness:
  "poly1305_do (replicate 32 1) [1, 2, 3] [4] = poly1305_spec (replicate 32 1) (mac_data [1, 2, 3] [4])"
  by (rule poly1305_correct) simp_all

end
