(* ===== verification/Aead.thy ===== *)
theory Aead
  imports Poly1305Spec
begin

text \<open>
  Model of \<^verbatim>\<open>src/src/hacl-star/Hacl_Chacha20Poly1305_32.c\<close>: authenticated encryption with ChaCha20 and
  Poly1305.  Decryption compares the tags in constant time and leaves the output buffer alone when
  they differ (the value \<^const>\<open>None\<close>).
\<close>

unbundle bit_operations_syntax

definition eq_mask8 :: "byte \<Rightarrow> byte \<Rightarrow> byte" where
  "eq_mask8 a b =
    (let x = a XOR b; minus_x = (NOT x) + 1; x_or_minus_x = x OR minus_x; xnx = drop_bit 7 x_or_minus_x in xnx - 1)"

definition poly_key :: "bytes \<Rightarrow> bytes \<Rightarrow> bytes" where
  "poly_key k n = chacha20_encrypt (replicate 64 0) k n 0"

definition aead_encrypt :: "bytes \<Rightarrow> bytes \<Rightarrow> bytes \<Rightarrow> bytes \<Rightarrow> bytes \<times> bytes" where
  "aead_encrypt k n aad m =
    (let cipher = chacha20_encrypt m k n 1 in (cipher, poly1305_do (poly_key k n) aad cipher))"

definition macs_match :: "bytes \<Rightarrow> bytes \<Rightarrow> byte" where
  "macs_match computed mac = foldl (\<lambda>res i. eq_mask8 (computed ! i) (mac ! i) AND res) 255 [0..<16]"

definition aead_decrypt :: "bytes \<Rightarrow> bytes \<Rightarrow> bytes \<Rightarrow> bytes \<Rightarrow> bytes \<Rightarrow> bytes option" where
  "aead_decrypt k n aad cipher mac =
    (let computed_mac = poly1305_do (poly_key k n) aad cipher
     in if macs_match computed_mac mac = 255 then Some (chacha20_encrypt cipher k n 1) else None)"

section \<open>The comparison of tags\<close>

lemma bit7: "bit (w :: byte) 7 \<longleftrightarrow> 128 \<le> uint w"
proof -
  have u: "0 \<le> uint w" "uint w < 256" using uint_lt2p [of w] by simp_all
  have "bit w 7 \<longleftrightarrow> odd (uint w div 2 ^ 7)" by (metis bit_uint_iff bit_iff_odd bit_imp_le_length)
  moreover have "uint w div 2 ^ 7 \<in> {0, 1}" using u by auto
  ultimately show ?thesis using u by auto
qed

lemma drop7: "drop_bit 7 (w :: byte) = of_bool (bit w 7)"
proof (rule bit_word_eqI)
  fix n assume "n < LENGTH(8)"
  then show "bit (drop_bit 7 w) n = bit (of_bool (bit w 7) :: byte) n"
    by (cases n) (auto simp: bit_drop_bit_eq bit_of_bool_iff dest: bit_imp_le_length)
qed

lemma eq_mask8_eq: "eq_mask8 a b = (if a = b then 255 else 0)"
proof -
  let ?x = "a XOR b"
  have x0: "?x = 0 \<longleftrightarrow> a = b" by (rule xor_zero)
  have "NOT ?x + 1 = - ?x" by (simp add: minus_eq_not_plus_1)
  then have mask: "eq_mask8 a b = of_bool (bit (?x OR - ?x) 7) - 1"
    unfolding eq_mask8_def Let_def drop7 by simp
  have u: "0 \<le> uint ?x" "uint ?x < 256" using uint_lt2p [of ?x] by simp_all
  have "uint (- ?x) = 256 - uint ?x" if "?x \<noteq> 0"
    using that u by (simp add: uint_word_ariths zmod_zminus1_eq_if uint_0_iff)
  then have "bit ?x 7 \<or> bit (- ?x) 7" if "?x \<noteq> 0" using that u unfolding bit7 by auto
  then have "bit (?x OR - ?x) 7" if "?x \<noteq> 0" using that by (simp add: bit_or_iff)
  moreover have "(- 1 :: byte) = 255" by simp
  ultimately show ?thesis unfolding mask using x0 by (auto simp: bit_or_iff)
qed

lemma macs_fold: "foldl (\<lambda>res i. eq_mask8 (c ! i) (m ! i) AND res) 255 is = (if \<forall>i \<in> set is. c ! i = m ! i then 255 else 0)"
proof (induction "is" rule: rev_induct)
  case (snoc i "is")
  have "(255 :: byte) AND 255 = 255" by simp
  then show ?case using snoc by (simp add: eq_mask8_eq)
qed simp

lemma macs_match_eq:
  "length c = 16 \<Longrightarrow> length m = 16 \<Longrightarrow> macs_match c m = 255 \<longleftrightarrow> c = m"
  by (auto simp: macs_match_def macs_fold list_eq_iff_nth_eq)

lemma length_poly1305_do [simp]: "length (poly1305_do key aad m) = 16"
  by (simp add: poly1305_do_def Let_def poly1305_finish_def store64_le_def split: limbs.split)

lemma length_poly1305_spec [simp]: "length (poly1305_spec key d) = 16"
  by (simp add: poly1305_spec_def)

lemma length_poly_key [simp]: "length (poly_key k n) = 64"
  by (simp add: poly_key_def)

section \<open>Properties\<close>

text \<open>
  C23: Authenticated encryption is exact.  Decryption gives back the message that was encrypted,
  with a 16-byte tag and a ciphertext as long as the message; and it accepts a ciphertext and
  header under a key and nonce exactly when the tag presented is the Poly1305 tag, as RFC 8439
  defines it, of header and ciphertext under the one-time key, and rejects everything else.
\<close>

theorem aead_exact:
  assumes "length mac = 16" "length aad < 2 ^ 64" "length cipher < 2 ^ 64"
  shows "(case aead_encrypt k n aad m of (c, t) \<Rightarrow>
      aead_decrypt k n aad c t = Some m \<and> length c = length m \<and> length t = 16) \<and>
    (aead_decrypt k n aad cipher mac \<noteq> None \<longleftrightarrow> mac = poly1305_spec (poly_key k n) (mac_data aad cipher))"
  using poly1305_correct [of "poly_key k n" aad cipher] assms
  by (auto simp: aead_encrypt_def aead_decrypt_def Let_def macs_match_eq)

theorem aead_exact_witness:
  "aead_decrypt (replicate 32 7) (replicate 12 1) [1] (fst (aead_encrypt (replicate 32 7) (replicate 12 1) [1] [104, 105]))
     (snd (aead_encrypt (replicate 32 7) (replicate 12 1) [1] [104, 105])) = Some [104, 105]"
  using aead_exact [of "replicate 16 0" "[1]" "[]" "replicate 32 7" "replicate 12 1" "[104, 105]"]
  by (simp add: case_prod_unfold)

end
