(* ===== verification/Hkdf.thy ===== *)
theory Hkdf
  imports Chacha20
begin

text \<open>
  Model of \<^verbatim>\<open>src/src/hkdf.cpp\<close>: the key derivation of the settings keys, of the Hawk credentials and
  of the password token.  The keyed hash is a parameter, key first.
\<close>

text \<open>\<^verbatim>\<open>HKDF::result\<close>: the loop, with fuel for a hash of at least one byte.\<close>

fun hkdf_loop :: "(bytes \<Rightarrow> bytes \<Rightarrow> bytes) \<Rightarrow> bytes \<Rightarrow> bytes \<Rightarrow> nat \<Rightarrow> nat \<Rightarrow> byte \<Rightarrow> bytes \<Rightarrow> bytes \<Rightarrow> bytes option" where
  "hkdf_loop hmac privkey info len fuel counter block result =
    (if len \<le> length result then Some (take len result)
     else case fuel of
            0 \<Rightarrow> None
          | Suc fuel \<Rightarrow>
              let block = hmac privkey (block @ info @ [counter])
              in hkdf_loop hmac privkey info len fuel (counter + 1) block (result @ block))"

declare hkdf_loop.simps [simp del]

text \<open>The hash of the client is SHA-256, whose empty salt stands for 32 zero bytes.\<close>

definition hkdf_sha256 :: "(bytes \<Rightarrow> bytes \<Rightarrow> bytes) \<Rightarrow> bytes \<Rightarrow> bytes \<Rightarrow> bytes \<Rightarrow> nat \<Rightarrow> bytes option" where
  "hkdf_sha256 hmac salt data info len =
     hkdf_loop hmac (hmac (if salt = [] then replicate 32 0 else salt) data) info len len 1 [] []"

section \<open>The derived key\<close>

text \<open>A derivation ends, with as many bytes as were asked for, whenever the hash is not empty.\<close>

lemma hkdf_loop_defined:
  assumes "\<And>k d. hmac k d \<noteq> []" "len \<le> length result + fuel"
  shows "\<exists>key. hkdf_loop hmac privkey info len fuel counter block result = Some key \<and> length key = len"
  using assms(2)
proof (induction fuel arbitrary: counter block result)
  case 0
  then show ?case by (simp add: hkdf_loop.simps)
next
  case (Suc fuel)
  let ?block = "hmac privkey (block @ info @ [counter])"
  have "0 < length ?block" using assms(1) by blast
  then have "len \<le> length (result @ ?block) + fuel" using Suc.prems unfolding length_append by linarith
  from Suc.IH [OF this] show ?case by (subst hkdf_loop.simps) (simp add: Let_def)
qed

lemma hkdf_defined:
  assumes "\<And>k d. hmac k d \<noteq> []"
  shows "\<exists>key. hkdf_sha256 hmac salt data info len = Some key \<and> length key = len"
  unfolding hkdf_sha256_def by (rule hkdf_loop_defined [OF assms]) simp

text \<open>
  The blocks of RFC 5869: each is the hash of the one before, the information and a counter byte;
  the key is the first \<open>len\<close> bytes of their concatenation.
\<close>

fun hkdf_block :: "(bytes \<Rightarrow> bytes \<Rightarrow> bytes) \<Rightarrow> bytes \<Rightarrow> bytes \<Rightarrow> nat \<Rightarrow> bytes" where
  "hkdf_block hmac prk info 0 = []"
| "hkdf_block hmac prk info (Suc n) = hmac prk (hkdf_block hmac prk info n @ info @ [of_nat (Suc n)])"

definition hkdf_stream :: "(bytes \<Rightarrow> bytes \<Rightarrow> bytes) \<Rightarrow> bytes \<Rightarrow> bytes \<Rightarrow> nat \<Rightarrow> bytes" where
  "hkdf_stream hmac prk info n = concat (map (hkdf_block hmac prk info) [1..<Suc n])"

lemma hkdf_stream_Suc: "hkdf_stream hmac prk info (Suc n) = hkdf_stream hmac prk info n @ hkdf_block hmac prk info (Suc n)"
  by (simp add: hkdf_stream_def)

lemma length_hkdf_stream:
  assumes "\<And>k d. length (hmac k d) = 32"
  shows "length (hkdf_stream hmac prk info n) = 32 * n"
proof (induction n)
  case (Suc n)
  then show ?case using assms by (simp add: hkdf_stream_Suc)
qed (simp add: hkdf_stream_def)

lemma hkdf_stream_append:
  "m \<le> n \<Longrightarrow> \<exists>rest. hkdf_stream hmac prk info n = hkdf_stream hmac prk info m @ rest"
proof (induction n)
  case (Suc n)
  then show ?case by (cases "m = Suc n") (auto simp: hkdf_stream_Suc)
qed simp

lemma hkdf_stream_take:
  assumes "\<And>k d. length (hmac k d) = 32" "n \<le> m" "len \<le> 32 * n"
  shows "take len (hkdf_stream hmac prk info m) = take len (hkdf_stream hmac prk info n)"
proof -
  obtain rest where "hkdf_stream hmac prk info m = hkdf_stream hmac prk info n @ rest"
    using hkdf_stream_append [OF assms(2)] by blast
  then show ?thesis using assms(3) length_hkdf_stream [OF assms(1)] by simp
qed

lemma hkdf_loop_stream:
  assumes "\<And>k d. length (hmac k d) = 32" "len \<le> 32 * n + fuel" "n \<le> m" "len \<le> 32 * m"
  shows "hkdf_loop hmac prk info len fuel (of_nat (Suc n)) (hkdf_block hmac prk info n) (hkdf_stream hmac prk info n) =
      Some (take len (hkdf_stream hmac prk info m))"
  using assms(2,3)
proof (induction fuel arbitrary: n)
  case 0
  then show ?case using hkdf_stream_take [OF assms(1), of n m len] length_hkdf_stream [OF assms(1)]
    by (simp add: hkdf_loop.simps)
next
  case (Suc fuel)
  show ?case
  proof (cases "len \<le> 32 * n")
    case True
    then show ?thesis using hkdf_stream_take [OF assms(1) Suc.prems(2) True] length_hkdf_stream [OF assms(1)]
      by (subst hkdf_loop.simps) simp
  next
    case False
    then have "Suc n \<le> m" using assms(4) by (metis not_less_eq_eq order_trans mult_le_mono2)
    then show ?thesis using Suc.IH [of "Suc n"] Suc.prems False length_hkdf_stream [OF assms(1)]
      by (subst hkdf_loop.simps) (simp add: Let_def hkdf_stream_Suc algebra_simps)
  qed
qed

lemma hkdf_expand:
  assumes "\<And>k d. length (hmac k d) = 32" "len \<le> 32 * m"
  shows "hkdf_sha256 hmac salt data info len =
    Some (take len (hkdf_stream hmac (hmac (if salt = [] then replicate 32 0 else salt) data) info m))"
  using hkdf_loop_stream [OF assms(1), of len 0 len m] assms(2)
  by (simp add: hkdf_sha256_def hkdf_stream_def)

end
