(* ===== verification/CryptoSettings.thy ===== *)
theory CryptoSettings
  imports Aead Hkdf Json
begin

text \<open>
  Model of \<^verbatim>\<open>src/src/cryptosettings.cpp\<close>, \<^verbatim>\<open>src/src/hkdf.cpp\<close> and
  \<^verbatim>\<open>src/src/platforms/linux/xdgcryptosettings.cpp\<close>: the settings file, plain or encrypted with an
  authenticated cipher under a key kept by the platform.  A file is the list of its bytes; the map of
  settings is an association list.  Conversions between JSON objects and text and between JSON and
  variants, the HMAC, base64 and the desktop's secret portal are parameters; so is the signedness of
  \<^verbatim>\<open>char\<close>, which decides how the length field of the header is read.
\<close>

unbundle bit_operations_syntax

datatype cs_version = NoEncryption | EncryptionChachaPolyV1 | EncryptionChachaPolyV2

definition NONCE_SIZE :: nat where "NONCE_SIZE = 12"
definition MAC_SIZE :: nat where "MAC_SIZE = 16"
definition ENCRYPTED_V2_HEADER_SIZE :: nat where "ENCRYPTED_V2_HEADER_SIZE = 4"
definition CRYPTO_SETTINGS_KEY_SIZE :: nat where "CRYPTO_SETTINGS_KEY_SIZE = 32"

fun version_byte :: "cs_version \<Rightarrow> byte" where
  "version_byte NoEncryption = 0"
| "version_byte EncryptionChachaPolyV1 = 1"
| "version_byte EncryptionChachaPolyV2 = 2"

definition byte_version :: "byte \<Rightarrow> cs_version option" where
  "byte_version b =
    (if b = 0 then Some NoEncryption else if b = 1 then Some EncryptionChachaPolyV1
     else if b = 2 then Some EncryptionChachaPolyV2 else None)"

text \<open>The conversions of the host, and whether the device takes a block of data (\<open>fe_write\<close>).\<close>

record 'v file_env =
  fe_toJson :: "json_object \<Rightarrow> bytes"
  fe_fromJson :: "bytes \<Rightarrow> json"
  fe_fromVariant :: "'v \<Rightarrow> json"
  fe_toVariant :: "json \<Rightarrow> 'v"
  fe_charSigned :: bool
  fe_write :: "bytes \<Rightarrow> bool"

text \<open>The virtual methods a platform provides, on its own state.\<close>

record 'p key_store =
  ks_resetKey :: "'p \<Rightarrow> 'p"
  ks_getKey :: "cs_version \<Rightarrow> bytes \<Rightarrow> 'p \<Rightarrow> bytes \<times> 'p"
  ks_getMetaData :: "'p \<Rightarrow> bytes"
  ks_getPreferredVersion :: "'p \<Rightarrow> cs_version"

record 'p crypto_settings =
  cs_lastNonce :: u64
  cs_store :: 'p

type_synonym 'v settings_map = "(string \<times> 'v) list"

section \<open>Reading\<close>

definition load_object :: "'v file_env \<Rightarrow> json_object \<Rightarrow> 'v settings_map \<Rightarrow> 'v settings_map" where
  "load_object env obj m = foldl (\<lambda>m (k, j). AList.update k (fe_toVariant env j) m) m obj"

definition readJsonFile :: "'v file_env \<Rightarrow> bytes \<Rightarrow> 'v settings_map \<Rightarrow> 'v settings_map option" where
  "readJsonFile env content m =
    (let json = fe_fromJson env content
     in if \<not> isObject json then None else Some (load_object env (toObject json) m))"

definition char_value :: "bool \<Rightarrow> byte \<Rightarrow> int" where
  "char_value sgnd b = (if sgnd then sint b else uint b)"

text \<open>\<^verbatim>\<open>quint16 metaLength = header[2] + (header[3] >> 8)\<close>, with the promotions of \<^verbatim>\<open>char\<close> to \<^verbatim>\<open>int\<close>.\<close>

definition metaLength :: "bool \<Rightarrow> bytes \<Rightarrow> nat" where
  "metaLength sgnd header =
     nat ((char_value sgnd (header ! 2) + char_value sgnd (header ! 3) div 256) mod 65536)"

text \<open>The header, its metadata and what follows in the file, or \<^const>\<open>None\<close> when the file is too short.\<close>

definition readHeader :: "'v file_env \<Rightarrow> cs_version \<Rightarrow> bytes \<Rightarrow> (bytes \<times> bytes \<times> bytes) option" where
  "readHeader env fileVersion device =
    (let header = [version_byte fileVersion]
     in case fileVersion of
          EncryptionChachaPolyV2 \<Rightarrow>
            let header = header @ take (ENCRYPTED_V2_HEADER_SIZE - 1) device;
                device = drop (ENCRYPTED_V2_HEADER_SIZE - 1) device
            in if length header \<noteq> ENCRYPTED_V2_HEADER_SIZE then None
               else
                 let n = metaLength (fe_charSigned env) header;
                     header = header @ take n device; device = drop n device
                 in if length header \<noteq> n + ENCRYPTED_V2_HEADER_SIZE then None
                    else Some (header, drop ENCRYPTED_V2_HEADER_SIZE header, device)
        | EncryptionChachaPolyV1 \<Rightarrow> Some (header, [], device)
        | NoEncryption \<Rightarrow> None)"

definition readEncryptedChachaPolyFile ::
    "'v file_env \<Rightarrow> 'p key_store \<Rightarrow> cs_version \<Rightarrow> bytes \<Rightarrow> 'v settings_map \<Rightarrow> 'p crypto_settings \<Rightarrow>
     'v settings_map option \<times> 'p crypto_settings" where
  "readEncryptedChachaPolyFile env K fileVersion device m cs =
    (case readHeader env fileVersion device of
       None \<Rightarrow> (None, cs)
     | Some (header, metadata, rest) \<Rightarrow>
         let nonce = take NONCE_SIZE rest; rest = drop NONCE_SIZE rest;
             mac = take MAC_SIZE rest; ciphertext = drop MAC_SIZE rest
         in if length nonce \<noteq> NONCE_SIZE then (None, cs)
            else if length mac \<noteq> MAC_SIZE then (None, cs)
            else if length ciphertext = 0 then (None, cs)
            else
              let (key, p) = ks_getKey K fileVersion metadata (cs_store cs); cs1 = cs\<lparr>cs_store := p\<rparr>
              in if key = [] \<or> length key \<noteq> CRYPTO_SETTINGS_KEY_SIZE then (None, cs1)
                 else case aead_decrypt key nonce header ciphertext mac of
                        None \<Rightarrow> (None, cs1)
                      | Some content \<Rightarrow>
                          (case readJsonFile env content m of
                             None \<Rightarrow> (None, cs1)
                           | Some m' \<Rightarrow> (Some m', cs1\<lparr>cs_lastNonce := load64_le nonce\<rparr>)))"

definition readFile ::
    "'v file_env \<Rightarrow> 'p key_store \<Rightarrow> bytes \<Rightarrow> 'v settings_map \<Rightarrow> 'p crypto_settings option \<Rightarrow>
     'v settings_map option \<times> 'p crypto_settings option" where
  "readFile env K device m inst =
    (case device of
       [] \<Rightarrow> (None, inst)
     | v # rest \<Rightarrow>
         if byte_version v = Some NoEncryption then (readJsonFile env rest m, inst)
         else case inst of
                None \<Rightarrow> (None, inst)
              | Some cs \<Rightarrow>
                  (case byte_version v of
                     None \<Rightarrow> (None, inst)
                   | Some fileVersion \<Rightarrow>
                       (case readEncryptedChachaPolyFile env K fileVersion rest m cs of
                          (res, cs') \<Rightarrow> (res, Some cs'))))"

section \<open>Writing\<close>

definition store_object :: "'v file_env \<Rightarrow> 'v settings_map \<Rightarrow> json_object" where
  "store_object env m = foldl (\<lambda>obj (k, v). obj_insert k (fe_fromVariant env v) obj) [] m"

definition writeJsonFile :: "'v file_env \<Rightarrow> 'v settings_map \<Rightarrow> bytes option" where
  "writeJsonFile env m =
    (let content = fe_toJson env (store_object env m)
     in if \<not> fe_write env [version_byte NoEncryption] then None
        else if \<not> fe_write env content then None
        else Some (version_byte NoEncryption # content))"

definition next_nonce :: "'p key_store \<Rightarrow> 'p crypto_settings \<Rightarrow> 'p crypto_settings" where
  "next_nonce K cs =
    (let cs = cs\<lparr>cs_lastNonce := cs_lastNonce cs + 1\<rparr>
     in if cs_lastNonce cs = - 1 then cs\<lparr>cs_store := ks_resetKey K (cs_store cs), cs_lastNonce := 0\<rparr> else cs)"

definition nonce_bytes :: "u64 \<Rightarrow> bytes" where
  "nonce_bytes w = store64_le w @ replicate (NONCE_SIZE - 8) 0"

definition writeHeader :: "'p key_store \<Rightarrow> cs_version \<Rightarrow> 'p \<Rightarrow> bytes option" where
  "writeHeader K fileVersion p =
    (case fileVersion of
       EncryptionChachaPolyV1 \<Rightarrow> Some [version_byte fileVersion]
     | EncryptionChachaPolyV2 \<Rightarrow>
         let metadata = ks_getMetaData K p
         in if length metadata > 65535 then None
            else Some ([version_byte fileVersion, 0, of_nat (length metadata) AND 0xff,
                        of_nat (length metadata div 256) AND 0xff] @ metadata)
     | NoEncryption \<Rightarrow> None)"

definition writeEncryptedChachaPolyFile ::
    "'v file_env \<Rightarrow> 'p key_store \<Rightarrow> 'v settings_map \<Rightarrow> 'p crypto_settings \<Rightarrow> bytes option \<times> 'p crypto_settings" where
  "writeEncryptedChachaPolyFile env K m cs =
    (let content = fe_toJson env (store_object env m);
         cs1 = next_nonce K cs; nonce = nonce_bytes (cs_lastNonce cs1);
         fileVersion = ks_getPreferredVersion K (cs_store cs1);
         (key, p) = ks_getKey K fileVersion [] (cs_store cs1);
         cs2 = cs1\<lparr>cs_store := p\<rparr>
     in if key = [] \<or> length key \<noteq> CRYPTO_SETTINGS_KEY_SIZE then (None, cs2)
        else case writeHeader K fileVersion p of
               None \<Rightarrow> (None, cs2)
             | Some header \<Rightarrow>
                 let (ciphertext, mac) = aead_encrypt key nonce header content
                 in if \<not> fe_write env header \<or> \<not> fe_write env nonce \<or> \<not> fe_write env mac \<or> \<not> fe_write env ciphertext
                    then (None, cs2) else (Some (header @ nonce @ mac @ ciphertext), cs2))"

definition writeFile ::
    "'v file_env \<Rightarrow> 'p key_store \<Rightarrow> 'v settings_map \<Rightarrow> 'p crypto_settings option \<Rightarrow>
     bytes option \<times> 'p crypto_settings option" where
  "writeFile env K m inst =
    (case inst of
       None \<Rightarrow> (writeJsonFile env m, inst)
     | Some cs \<Rightarrow>
         if ks_getPreferredVersion K (cs_store cs) = NoEncryption then (writeJsonFile env m, inst)
         else (case writeEncryptedChachaPolyFile env K m cs of (res, cs') \<Rightarrow> (res, Some cs')))"

section \<open>Objects and lengths\<close>

lemma update_new_key: "k \<notin> fst ` set al \<Longrightarrow> AList.update k v al = al @ [(k, v)]"
  by (induction al) auto

lemma foldl_update_fresh:
  assumes "distinct (map fst xs)" "fst ` set acc \<inter> fst ` set xs = {}"
  shows "foldl (\<lambda>m (k, v). AList.update k (f v) m) acc xs = acc @ map (\<lambda>(k, v). (k, f v)) xs"
  using assms
proof (induction xs arbitrary: acc)
  case (Cons x xs)
  obtain k v where x: "x = (k, v)" by fastforce
  have "AList.update k w acc = acc @ [(k, w)]" for w
    using update_new_key [of k acc] Cons.prems(2) by (auto simp: x)
  then show ?case using Cons by (auto simp: x)
qed simp

lemma store_load_object:
  assumes "distinct (map fst m)" "\<forall>(k, v) \<in> set m. fe_toVariant env (fe_fromVariant env v) = v"
  shows "load_object env (store_object env m) [] = m"
proof -
  have "store_object env m = map (\<lambda>(k, v). (k, fe_fromVariant env v)) m"
    using foldl_update_fresh [of m "[]" "fe_fromVariant env"] assms(1)
    by (simp add: store_object_def obj_insert_def)
  moreover have "distinct (map fst (map (\<lambda>(k, v). (k, fe_fromVariant env v)) m))"
    using assms(1) by (simp add: o_def case_prod_unfold)
  ultimately have "load_object env (store_object env m) [] =
      map (\<lambda>(k, v). (k, fe_toVariant env v)) (map (\<lambda>(k, v). (k, fe_fromVariant env v)) m)"
    using foldl_update_fresh [of "map (\<lambda>(k, v). (k, fe_fromVariant env v)) m" "[]" "fe_toVariant env"]
    by (simp add: load_object_def)
  also have "\<dots> = m" using assms(2) by (induction m) auto
  finally show ?thesis .
qed

lemma low_byte: "uint (of_nat n AND 0xff :: byte) = int n mod 256"
proof -
  have "(of_nat n AND 0xff :: byte) = take_bit 8 (of_nat n)" by (simp add: take_bit_eq_mask mask_numeral)
  also have "\<dots> = of_nat n" by (simp add: take_bit_word_eq_self)
  finally show ?thesis by (simp add: unsigned_of_nat take_bit_eq_mod zmod_int)
qed

lemma sint_byte: "sint (b :: byte) = (if uint b < 128 then uint b else uint b - 256)"
proof -
  have "bit b 7 \<longleftrightarrow> \<not> uint b < 128" using bit7 [of b] by auto
  then show ?thesis using uint_lt2p [of b]
    by (simp add: sint_uint signed_take_bit_eq_take_bit_minus bit_uint_iff take_bit_eq_mod)
qed

lemma load_store64: "load64_le (store64_le w @ bs) = w"
  using uint_lt2p [of w]
  by (intro word_uint_eqI) (simp add: load64_le_def store64_le_def le_num_to_le uint_word_of_int take_bit_eq_mod)

text \<open>What the reader makes of the length field the writer put in the header.\<close>

definition length_bytes :: "nat \<Rightarrow> bytes" where
  "length_bytes n = [of_nat n AND 0xff, of_nat (n div 256) AND 0xff]"

lemma mod16: "(x :: int) mod 65536 = (if 0 \<le> x then x else x + 65536)" if "- 65536 \<le> x" "x < 65536"
proof (cases "0 \<le> x")
  case False
  then have "(x + 65536) mod 65536 = x + 65536" using that by (intro mod_pos_pos_trivial) simp_all
  then show ?thesis using False by simp
qed (use that in simp)

lemma metaLength_value:
  assumes "n \<le> 65535"
  shows "metaLength sgnd ([v, 0] @ length_bytes n) =
    nat (((if sgnd \<and> 128 \<le> n mod 256 then int (n mod 256) - 256 else int (n mod 256)) -
          (if sgnd \<and> 128 \<le> n div 256 then 1 else 0)) mod 65536)"
proof -
  have hi: "int (n div 256) mod 256 = int (n div 256)" "n div 256 < 256" using assms by auto
  have lo: "int n mod 256 = int (n mod 256)" by (simp add: zmod_int)
  have "(int (n div 256) - 256) div 256 = - 1" if "128 \<le> n div 256" using that hi(2) by simp
  moreover have "int (n div 256) div 256 = 0" using hi(2) by simp
  ultimately show ?thesis
    by (auto simp: metaLength_def length_bytes_def char_value_def sint_byte low_byte hi(1) lo)
qed

lemma metaLength_short:
  assumes "n < 128 \<or> n < 256 \<and> \<not> sgnd"
  shows "metaLength sgnd ([v, 0] @ length_bytes n) = n"
proof -
  have "n \<le> 65535" "n div 256 = 0" "n mod 256 = n" using assms by auto
  then show ?thesis using assms by (auto simp: metaLength_value simp del: append_Cons append_Nil)
qed

lemma metaLength_long:
  assumes "128 \<le> n" "n \<le> 65535"
  shows "metaLength True ([v, 0] @ length_bytes n) \<noteq> n"
proof -
  define lo where "lo = n mod 256"
  define hi where "hi = n div 256"
  have n: "n = lo + 256 * hi" "lo < 256" "hi < 256" using assms by (simp_all add: lo_def hi_def)
  let ?x = "(if 128 \<le> lo then int lo - 256 else int lo) - (if 128 \<le> hi then 1 else 0)"
  have "?x mod 65536 \<noteq> int n"
    unfolding n(1) using n(2,3) assms(1) by (subst mod16; auto simp: n(1); presburger)
  then show ?thesis unfolding metaLength_value [OF assms(2)] lo_def [symmetric] hi_def [symmetric] by auto
qed

lemma metaLength_byte:
  assumes "128 \<le> n" "n < 256"
  shows "metaLength True ([v, 0] @ length_bytes n) = n + 65280"
proof -
  have "n \<le> 65535" "n div 256 = 0" "n mod 256 = n" using assms by auto
  then show ?thesis using assms by (simp add: metaLength_value mod16 nat_add_distrib del: append_Cons append_Nil)
qed

section \<open>Round trip\<close>

text \<open>
  What the file format asks of a platform: the key used for a file can be had again, by a process
  that starts afresh, from the metadata written in the file.
\<close>

locale key_provider =
  fixes K :: "'p key_store" and fresh :: "'p \<Rightarrow> bool" and valid :: "'p \<Rightarrow> bool"
  assumes recover: "valid p \<Longrightarrow> ks_getKey K EncryptionChachaPolyV2 [] p = (k, p') \<Longrightarrow> k \<noteq> [] \<Longrightarrow> fresh q \<Longrightarrow>
      fst (ks_getKey K EncryptionChachaPolyV2 (ks_getMetaData K p') q) = k"
    and valid_reset: "valid p \<Longrightarrow> valid (ks_resetKey K p)"
begin

lemma valid_next: "valid (cs_store cs) \<Longrightarrow> valid (cs_store (next_nonce K cs))"
  by (simp add: next_nonce_def Let_def valid_reset)

lemma encrypted_roundtrip:
  assumes wr: "writeEncryptedChachaPolyFile env K m cs = (Some file, cs')"
    and v2: "ks_getPreferredVersion K (cs_store (next_nonce K cs)) = EncryptionChachaPolyV2"
    and short: "length (ks_getMetaData K (cs_store cs')) < (if fe_charSigned env then 128 else 256)"
    and json: "fe_fromJson env (fe_toJson env (store_object env m)) = JObject (store_object env m)"
      "fe_toJson env (store_object env m) \<noteq> []"
    and m: "distinct (map fst m)" "\<forall>(k, v) \<in> set m. fe_toVariant env (fe_fromVariant env v) = v"
    and state: "valid (cs_store cs)" "fresh (cs_store r)"
  shows "fst (readFile env K file [] (Some r)) = Some m"
    and "\<exists>r'. snd (readFile env K file [] (Some r)) = Some r' \<and> cs_lastNonce r' = cs_lastNonce cs'"
proof -
  obtain key p where key: "ks_getKey K EncryptionChachaPolyV2 [] (cs_store (next_nonce K cs)) = (key, p)" by fastforce
  let ?meta = "ks_getMetaData K p" and ?nonce = "nonce_bytes (cs_lastNonce (next_nonce K cs))"
  let ?header = "[2, 0] @ length_bytes (length ?meta) @ ?meta" and ?content = "fe_toJson env (store_object env m)"
  obtain c t where enc: "aead_encrypt key ?nonce ?header ?content = (c, t)" by fastforce
  have f: "key \<noteq> []" "length key = 32" "file = ?header @ ?nonce @ t @ c" "cs' = (next_nonce K cs)\<lparr>cs_store := p\<rparr>"
    using wr enc unfolding writeEncryptedChachaPolyFile_def v2 Let_def key
    by (auto simp: writeHeader_def length_bytes_def CRYPTO_SETTINGS_KEY_SIZE_def Let_def split: if_splits)
  have meta: "length ?meta < (if fe_charSigned env then 128 else 256)" using short f(4) by simp
  then have len: "metaLength (fe_charSigned env) ([2, 0] @ length_bytes (length ?meta)) = length ?meta"
    by (intro metaLength_short) (auto split: if_splits)
  have lens: "length ?nonce = 12" "length t = 16" "length c = length ?content"
    using enc by (auto simp: nonce_bytes_def NONCE_SIZE_def store64_le_def aead_encrypt_def Let_def)
  have rd: "readHeader env EncryptionChachaPolyV2 (tl file) = Some (?header, ?meta, ?nonce @ t @ c)"
    using len by (simp add: readHeader_def f(3) ENCRYPTED_V2_HEADER_SIZE_def length_bytes_def Let_def)
  obtain q where q: "ks_getKey K EncryptionChachaPolyV2 ?meta (cs_store r) = (key, q)"
    using recover [OF valid_next [OF state(1)] key f(1) state(2)] by (metis prod.collapse)
  have dec: "aead_decrypt key ?nonce ?header c t = Some ?content"
    using enc by (auto simp: aead_encrypt_def aead_decrypt_def Let_def macs_match_eq)
  have js: "readJsonFile env ?content [] = Some m"
    using store_load_object [OF m] by (simp add: readJsonFile_def json(1))
  have nonce: "load64_le ?nonce = cs_lastNonce cs'"
    using f(4) by (simp add: nonce_bytes_def load_store64)
  have "readEncryptedChachaPolyFile env K EncryptionChachaPolyV2 (tl file) [] r =
      (Some m, r\<lparr>cs_store := q, cs_lastNonce := cs_lastNonce cs'\<rparr>)"
    using lens json(2) f(1,2) dec js nonce
    by (simp add: readEncryptedChachaPolyFile_def Let_def rd q NONCE_SIZE_def MAC_SIZE_def CRYPTO_SETTINGS_KEY_SIZE_def)
  moreover obtain rest where "file = 2 # rest" by (simp add: f(3))
  ultimately have "readFile env K file [] (Some r) = (Some m, Some (r\<lparr>cs_store := q, cs_lastNonce := cs_lastNonce cs'\<rparr>))"
    by (simp add: readFile_def byte_version_def)
  then show "fst (readFile env K file [] (Some r)) = Some m"
    "\<exists>r'. snd (readFile env K file [] (Some r)) = Some r' \<and> cs_lastNonce r' = cs_lastNonce cs'" by simp_all
qed

end

section \<open>The desktop's secret portal\<close>

text \<open>
  \<open>xe_secret\<close>: the secret the portal returns for a token, empty when the call or the read fails;
  \<open>xe_salt\<close>: the base64 text of fresh random bytes; \<open>xe_hmac\<close>: the keyed hash, key first.
\<close>

record 'v xdg_env =
  xe_host :: "'v file_env"
  xe_secret :: "string option \<Rightarrow> bytes"
  xe_salt :: string
  xe_utf8 :: "string \<Rightarrow> bytes"
  xe_hmac :: "bytes \<Rightarrow> bytes \<Rightarrow> bytes"

record xdg_store =
  xd_token :: string
  xd_salt :: string
  xd_key :: bytes
  xd_version :: cs_version

definition xdg_resetKey :: "xdg_store \<Rightarrow> xdg_store" where
  "xdg_resetKey p = p\<lparr>xd_token := [], xd_salt := [], xd_key := []\<rparr>"

text \<open>\<^verbatim>\<open>handleResponse\<close>, for a response with code 0; the token it stores also goes to the settings.\<close>

definition xdg_handleResponse :: "int \<Rightarrow> string option \<Rightarrow> xdg_store \<Rightarrow> xdg_store" where
  "xdg_handleResponse code token p =
    (if code \<noteq> 0 then p else case token of None \<Rightarrow> p | Some t \<Rightarrow> p\<lparr>xd_token := t\<rparr>)"

definition xdg_getKey :: "'v xdg_env \<Rightarrow> cs_version \<Rightarrow> bytes \<Rightarrow> xdg_store \<Rightarrow> bytes \<times> xdg_store" where
  "xdg_getKey xe version metadata p =
    (if version \<noteq> EncryptionChachaPolyV2 then ([], p)
     else
       let derive = (\<lambda>p. (case hkdf_sha256 (xe_hmac xe) (xe_utf8 xe (xd_salt p)) (xd_key p) [] CRYPTO_SETTINGS_KEY_SIZE of
                            None \<Rightarrow> [] | Some k \<Rightarrow> k, p))
       in if xd_key p \<noteq> [] then derive p
          else
            let obj = toObject (fe_fromJson (xe_host xe) metadata);
                token = (if obj_contains obj ''token'' then Some (toString (obj_value obj ''token''))
                         else if xd_token p \<noteq> [] then Some (xd_token p) else None);
                key = xe_secret xe token
            in if key = [] then ([], p)
               else derive (p\<lparr>xd_key := key,
                      xd_salt := (if obj_contains obj ''salt'' then toString (obj_value obj ''salt'')
                                  else if xd_salt p = [] then xe_salt xe else xd_salt p),
                      xd_token := (case token of None \<Rightarrow> xd_token p | Some t \<Rightarrow> t)\<rparr>))"

definition xdg_getMetaData :: "'v xdg_env \<Rightarrow> xdg_store \<Rightarrow> bytes" where
  "xdg_getMetaData xe p =
    (let obj = (if xd_salt p \<noteq> [] then obj_insert ''salt'' (JString (xd_salt p)) [] else []);
         obj = (if xd_token p \<noteq> [] then obj_insert ''token'' (JString (xd_token p)) obj else obj)
     in fe_toJson (xe_host xe) obj)"

definition xdg_key_store :: "'v xdg_env \<Rightarrow> xdg_store key_store" where
  "xdg_key_store xe = \<lparr>ks_resetKey = xdg_resetKey, ks_getKey = xdg_getKey xe,
     ks_getMetaData = xdg_getMetaData xe, ks_getPreferredVersion = xd_version\<rparr>"

text \<open>
  A new process has neither key nor token nor salt.  The state is valid when the host parses back
  the JSON objects of strings it prints, a new salt is not empty, and a cached secret has its salt and is the one the
  portal returns for the token.
\<close>

definition xdg_fresh :: "xdg_store \<Rightarrow> bool" where
  "xdg_fresh p \<longleftrightarrow> xd_key p = [] \<and> xd_token p = [] \<and> xd_salt p = []"

definition xdg_valid :: "'v xdg_env \<Rightarrow> xdg_store \<Rightarrow> bool" where
  "xdg_valid xe p \<longleftrightarrow>
     (\<forall>obj. (\<forall>(k, v) \<in> set obj. isString v) \<longrightarrow>
        fe_fromJson (xe_host xe) (fe_toJson (xe_host xe) obj) = JObject obj) \<and> xe_salt xe \<noteq> [] \<and>
     obj_contains (toObject (fe_fromJson (xe_host xe) [])) ''token'' = False \<and>
     obj_contains (toObject (fe_fromJson (xe_host xe) [])) ''salt'' = False \<and>
     (xd_key p \<noteq> [] \<longrightarrow> xd_salt p \<noteq> [] \<and>
        xd_key p = xe_secret xe (if xd_token p \<noteq> [] then Some (xd_token p) else None))"

lemma xdg_recover:
  assumes "xdg_valid xe p" "xdg_getKey xe EncryptionChachaPolyV2 [] p = (k, p')" "k \<noteq> []" "xdg_fresh q"
  shows "fst (xdg_getKey xe EncryptionChachaPolyV2 (xdg_getMetaData xe p') q) = k"
proof -
  let ?derive = "\<lambda>p. case hkdf_sha256 (xe_hmac xe) (xe_utf8 xe (xd_salt p)) (xd_key p) [] CRYPTO_SETTINGS_KEY_SIZE of
      None \<Rightarrow> [] | Some k \<Rightarrow> k"
  let ?token = "if xd_token p' \<noteq> [] then Some (xd_token p') else None"
  have p': "k = ?derive p'" "xd_key p' \<noteq> []" "xd_salt p' \<noteq> []" "xd_key p' = xe_secret xe ?token"
    using assms(1-3) by (auto simp: xdg_getKey_def xdg_valid_def Let_def split: if_splits)
  have strings: "\<forall>(k, v) \<in> set (obj_insert j (JString x) []). isString v"
    "\<forall>(k, v) \<in> set (obj_insert i (JString y) (obj_insert j (JString x) [])). isString v" for i j x y
    by (simp_all add: obj_insert_def)
  let ?md = "toObject (fe_fromJson (xe_host xe) (xdg_getMetaData xe p'))"
  have md: "obj_contains ?md ''salt''" "toString (obj_value ?md ''salt'') = xd_salt p'"
    "obj_contains ?md ''token'' = (xd_token p' \<noteq> [])" "xd_token p' \<noteq> [] \<Longrightarrow> toString (obj_value ?md ''token'') = xd_token p'"
    using assms(1) p'(3) by (simp_all add: xdg_getMetaData_def Let_def xdg_valid_def strings)
  have "xdg_getKey xe EncryptionChachaPolyV2 (xdg_getMetaData xe p') q =
      (?derive p', q\<lparr>xd_key := xd_key p', xd_salt := xd_salt p', xd_token := xd_token p'\<rparr>)"
    using assms(4) p'(2-4) md by (cases "xd_token p' = []") (simp_all add: xdg_getKey_def Let_def xdg_fresh_def)
  then show ?thesis using p'(1) by simp
qed

interpretation xdg: key_provider "xdg_key_store xe" xdg_fresh "xdg_valid xe" for xe
proof
  fix p k p' q
  assume "xdg_valid xe p" "ks_getKey (xdg_key_store xe) EncryptionChachaPolyV2 [] p = (k, p')" "k \<noteq> []" "xdg_fresh q"
  then show "fst (ks_getKey (xdg_key_store xe) EncryptionChachaPolyV2 (ks_getMetaData (xdg_key_store xe) p') q) = k"
    by (simp add: xdg_key_store_def xdg_recover)
next
  fix p assume "xdg_valid xe p"
  then show "xdg_valid xe (ks_resetKey (xdg_key_store xe) p)"
    by (simp add: xdg_key_store_def xdg_valid_def xdg_resetKey_def)
qed

section \<open>Properties\<close>

text \<open>
  C14: Encrypted settings survive a restart, under conditions.  A file of the second version the
  client wrote with the desktop's secret portal, read by a new process that knows neither key, salt
  nor token, gives back exactly the map that was written, and the new process goes on counting nonces
  from the one in the file, provided that the metadata of the header are shorter than 128 bytes (256
  where \<^verbatim>\<open>char\<close> is unsigned), that the keys of the map are distinct, that its values and its JSON text,
  which is not empty, survive the conversions of the host, and that the portal returns the same secret
  for the token again (\<open>xdg_valid\<close>).
\<close>

theorem settings_roundtrip:
  fixes xe :: "'v xdg_env"
  defines "env \<equiv> xe_host xe" and "K \<equiv> xdg_key_store xe"
  assumes "writeEncryptedChachaPolyFile env K m cs = (Some file, cs')"
    and "xd_version (cs_store (next_nonce K cs)) = EncryptionChachaPolyV2"
    and "length (xdg_getMetaData xe (cs_store cs')) < (if fe_charSigned env then 128 else 256)"
    and "fe_fromJson env (fe_toJson env (store_object env m)) = JObject (store_object env m)"
      "fe_toJson env (store_object env m) \<noteq> []"
    and "distinct (map fst m)" "\<forall>(k, v) \<in> set m. fe_toVariant env (fe_fromVariant env v) = v"
    and "xdg_valid xe (cs_store cs)" "xdg_fresh (cs_store r)"
  shows "fst (readFile env K file [] (Some r)) = Some m \<and>
    (\<exists>r'. snd (readFile env K file [] (Some r)) = Some r' \<and> cs_lastNonce r' = cs_lastNonce cs')"
proof -
  have K: "ks_getPreferredVersion K = xd_version" "ks_getMetaData K = xdg_getMetaData xe"
    by (simp_all add: K_def xdg_key_store_def)
  note rt = xdg.encrypted_roundtrip [where xe = xe, folded K_def, OF assms(3) _ _ assms(6-11)]
  show ?thesis using rt assms(4,5) unfolding K by blast
qed

text \<open>A host whose JSON text is a simple encoding of objects of strings.\<close>

definition demo_print :: "string \<Rightarrow> bytes" where
  "demo_print s = concat (map (\<lambda>c. [1, of_nat (of_char c)]) s) @ [0]"

fun demo_parse :: "bytes \<Rightarrow> string \<times> bytes" where
  "demo_parse (b # c # bs) =
     (if b = 1 then (case demo_parse bs of (s, r) \<Rightarrow> (char_of (unat c) # s, r)) else ([], c # bs))"
| "demo_parse bs = ([], [])"

lemma demo_parse_print: "demo_parse (demo_print s @ r) = (s, r)"
proof (induction s)
  case Nil
  then show ?case by (cases r) (simp_all add: demo_print_def)
next
  case (Cons c s)
  have "(of_char c :: nat) < 256" by simp
  then have "unat (of_nat (of_char c) :: byte) = of_char c" by (simp add: unsigned_of_nat take_bit_nat_eq_self)
  then show ?case using Cons by (simp add: demo_print_def)
qed

definition demo_toJson :: "json_object \<Rightarrow> bytes" where
  "demo_toJson obj = concat (map (\<lambda>(k, v). 1 # demo_print k @ demo_print (toString v)) obj) @ [0]"

fun demo_pairs :: "nat \<Rightarrow> bytes \<Rightarrow> json_object" where
  "demo_pairs (Suc n) (b # bs) =
     (if b = 1 then (case demo_parse bs of (k, r) \<Rightarrow> case demo_parse r of (v, r') \<Rightarrow> (k, JString v) # demo_pairs n r') else [])"
| "demo_pairs n bs = []"

definition demo_fromJson :: "bytes \<Rightarrow> json" where
  "demo_fromJson bs = JObject (demo_pairs (length bs) bs)"

lemma demo_pairs_print:
  "\<forall>(k, v) \<in> set obj. isString v \<Longrightarrow> length (demo_toJson obj) \<le> n \<Longrightarrow> demo_pairs n (demo_toJson obj) = obj"
proof (induction obj arbitrary: n)
  case Nil
  then show ?case by (cases n) (simp_all add: demo_toJson_def)
next
  case (Cons x obj)
  obtain k v where x: "x = (k, v)" by fastforce
  obtain t where v: "v = JString t" using Cons.prems(1) by (auto simp: x isString_iff)
  have eq: "demo_toJson (x # obj) = 1 # demo_print k @ demo_print t @ demo_toJson obj"
    by (simp add: demo_toJson_def x v)
  then obtain n' where n: "n = Suc n'" "length (demo_toJson obj) \<le> n'" using Cons.prems(2) by (cases n) auto
  then show ?case using Cons.IH [of n'] Cons.prems(1)
    by (simp add: eq demo_parse_print) (simp add: x v)
qed

definition demo_host :: "string file_env" where
  "demo_host = \<lparr>fe_toJson = demo_toJson, fe_fromJson = demo_fromJson, fe_fromVariant = JString, fe_toVariant = toString,
     fe_charSigned = True, fe_write = (\<lambda>_. True)\<rparr>"

definition demo_xdg :: "string \<Rightarrow> string xdg_env" where
  "demo_xdg salt = \<lparr>xe_host = demo_host, xe_secret = (\<lambda>_. [7]), xe_salt = salt, xe_utf8 = map (\<lambda>c. of_nat (of_char c)),
     xe_hmac = (\<lambda>_ _. replicate 32 5)\<rparr>"

definition demo_cs :: "xdg_store crypto_settings" where
  "demo_cs = \<lparr>cs_lastNonce = 0, cs_store = \<lparr>xd_token = [], xd_salt = [], xd_key = [], xd_version = EncryptionChachaPolyV2\<rparr>\<rparr>"

lemma demo_json: "\<forall>(k, v) \<in> set obj. isString v \<Longrightarrow> demo_fromJson (demo_toJson obj) = JObject obj"
  by (simp add: demo_fromJson_def demo_pairs_print)

lemma demo_write:
  assumes "salt \<noteq> []" "length salt \<le> 200"
  shows "\<exists>file. writeEncryptedChachaPolyFile demo_host (xdg_key_store (demo_xdg salt)) [(''k'', ''v'')] demo_cs =
      (Some file, \<lparr>cs_lastNonce = 1, cs_store = \<lparr>xd_token = [], xd_salt = salt, xd_key = [7], xd_version = EncryptionChachaPolyV2\<rparr>\<rparr>)"
    and "length (xdg_getMetaData (demo_xdg salt) \<lparr>xd_token = [], xd_salt = salt, xd_key = [7], xd_version = EncryptionChachaPolyV2\<rparr>) =
      12 + 2 * length salt"
proof -
  have len: "length (demo_print x) = Suc (2 * length x)" for x by (induction x) (simp_all add: demo_print_def)
  have meta: "xdg_getMetaData (demo_xdg salt) \<lparr>xd_token = [], xd_salt = salt, xd_key = [7], xd_version = EncryptionChachaPolyV2\<rparr> =
      1 # demo_print ''salt'' @ demo_print salt @ [0]"
    using assms(1) by (simp add: xdg_getMetaData_def demo_xdg_def demo_host_def demo_toJson_def obj_insert_def)
  then show l: "length (xdg_getMetaData (demo_xdg salt) \<lparr>xd_token = [], xd_salt = salt, xd_key = [7], xd_version = EncryptionChachaPolyV2\<rparr>) =
      12 + 2 * length salt"
    by (simp add: len)
  have key: "xdg_getKey (demo_xdg salt) EncryptionChachaPolyV2 [] (cs_store demo_cs) =
      (replicate 32 5, \<lparr>xd_token = [], xd_salt = salt, xd_key = [7], xd_version = EncryptionChachaPolyV2\<rparr>)"
    by (simp add: xdg_getKey_def demo_cs_def demo_xdg_def demo_host_def demo_fromJson_def hkdf_sha256_def Let_def
        CRYPTO_SETTINGS_KEY_SIZE_def hkdf_loop.simps)
  have "(1 :: u64) \<noteq> - 1" by simp
  then have nn: "next_nonce K demo_cs = demo_cs\<lparr>cs_lastNonce := 1\<rparr>" for K :: "xdg_store key_store"
    by (simp add: next_nonce_def demo_cs_def)
  let ?K = "xdg_key_store (demo_xdg salt)" and ?cs = "demo_cs\<lparr>cs_lastNonce := 1\<rparr>"
  let ?p = "\<lparr>xd_token = [], xd_salt = salt, xd_key = [7], xd_version = EncryptionChachaPolyV2\<rparr>"
  have K: "ks_getPreferredVersion ?K (cs_store ?cs) = EncryptionChachaPolyV2"
    "ks_getKey ?K EncryptionChachaPolyV2 [] (cs_store ?cs) = (replicate 32 5, ?p)"
    using key by (simp_all add: xdg_key_store_def) (simp add: demo_cs_def)
  obtain h where h: "writeHeader ?K EncryptionChachaPolyV2 ?p = Some h"
    using l assms(2) by (simp add: writeHeader_def xdg_key_store_def Let_def)
  obtain c t where "aead_encrypt (replicate 32 5) (nonce_bytes (cs_lastNonce ?cs)) h
      (fe_toJson demo_host (store_object demo_host [(''k'', ''v'')])) = (c, t)" by fastforce
  moreover have "fe_write demo_host x" for x by (simp add: demo_host_def)
  moreover have "demo_cs\<lparr>cs_lastNonce := 1, cs_store := ?p\<rparr> = \<lparr>cs_lastNonce = 1, cs_store = ?p\<rparr>" by (simp add: demo_cs_def)
  ultimately show "\<exists>file. writeEncryptedChachaPolyFile demo_host ?K [(''k'', ''v'')] demo_cs =
      (Some file, \<lparr>cs_lastNonce = 1, cs_store = ?p\<rparr>)"
    unfolding writeEncryptedChachaPolyFile_def Let_def nn K prod.case h by (simp add: CRYPTO_SETTINGS_KEY_SIZE_def)
qed

theorem settings_roundtrip_witness:
  "\<exists>file cs'. writeEncryptedChachaPolyFile demo_host (xdg_key_store (demo_xdg ''s'')) [(''k'', ''v'')] demo_cs = (Some file, cs') \<and>
     fst (readFile demo_host (xdg_key_store (demo_xdg ''s'')) file [] (Some demo_cs)) = Some [(''k'', ''v'')]"
proof -
  let ?p = "\<lparr>xd_token = [], xd_salt = ''s'', xd_key = [7], xd_version = EncryptionChachaPolyV2\<rparr>"
  obtain fc where w: "writeEncryptedChachaPolyFile demo_host (xdg_key_store (demo_xdg ''s'')) [(''k'', ''v'')] demo_cs =
      (Some fc, \<lparr>cs_lastNonce = 1, cs_store = ?p\<rparr>)"
    using demo_write(1) [of "''s''"] by auto
  have host: "xe_host (demo_xdg ''s'') = demo_host" by (simp add: demo_xdg_def)
  have obj: "store_object demo_host [(''k'', ''v'')] = [(''k'', JString ''v'')]"
    by (simp add: store_object_def demo_host_def obj_insert_def)
  have "fst (readFile demo_host (xdg_key_store (demo_xdg ''s'')) fc [] (Some demo_cs)) = Some [(''k'', ''v'')]"
  proof (rule settings_roundtrip [of "demo_xdg ''s''", unfolded host, THEN conjunct1, OF w])
    show "fe_fromJson demo_host (fe_toJson demo_host (store_object demo_host [(''k'', ''v'')])) =
        JObject (store_object demo_host [(''k'', ''v'')])" "fe_toJson demo_host (store_object demo_host [(''k'', ''v'')]) \<noteq> []"
      unfolding obj by (simp_all add: demo_host_def demo_json) (simp add: demo_toJson_def)
    show "length (xdg_getMetaData (demo_xdg ''s'') (cs_store \<lparr>cs_lastNonce = 1, cs_store = ?p\<rparr>)) < (if fe_charSigned demo_host then 128 else 256)"
      using demo_write(2) [of "''s''"] by (simp add: demo_host_def)
    show "xd_version (cs_store (next_nonce (xdg_key_store (demo_xdg ''s'')) demo_cs)) = EncryptionChachaPolyV2"
      by (simp add: next_nonce_def demo_cs_def xdg_key_store_def xdg_resetKey_def)
    show "xdg_valid (demo_xdg ''s'') (cs_store demo_cs)"
      using demo_json by (simp add: xdg_valid_def demo_xdg_def demo_host_def demo_cs_def) (simp add: demo_fromJson_def)?
    show "xdg_fresh (cs_store demo_cs)" by (simp add: xdg_fresh_def demo_cs_def)
  qed (simp_all add: demo_host_def)
  then show ?thesis using w by blast
qed

text \<open>
  C25: Longer metadata make the settings unreadable where \<^verbatim>\<open>char\<close> is signed.  There the length field of the
  header of a file of the second version is read back wrong whenever it is 128 or more, since the
  reader shifts the high byte right instead of left and extends the sign of both bytes.  If moreover
  the metadata take 128 to 255 bytes (a token of some eighty characters beside the salt is enough), a
  file of fewer than 65284 bytes beside them is rejected as too short by every reader, with any key.
\<close>

theorem long_metadata_unreadable:
  assumes "writeEncryptedChachaPolyFile env K m cs = (Some file, cs')"
    and "ks_getPreferredVersion K (cs_store (next_nonce K cs)) = EncryptionChachaPolyV2"
    and "fe_charSigned env" "128 \<le> length (ks_getMetaData K (cs_store cs'))"
  shows "metaLength True file \<noteq> length (ks_getMetaData K (cs_store cs')) \<and>
    (length (ks_getMetaData K (cs_store cs')) < 256 \<longrightarrow>
       length file < length (ks_getMetaData K (cs_store cs')) + 65284 \<longrightarrow>
       fst (readFile env K' file m' (Some r)) = None)"
proof -
  obtain key p where key: "ks_getKey K EncryptionChachaPolyV2 [] (cs_store (next_nonce K cs)) = (key, p)" by fastforce
  define L where "L = length (ks_getMetaData K p)"
  have f: "cs_store cs' = p" "L \<le> 65535" "\<exists>rest. file = [2, 0] @ length_bytes L @ rest"
    using assms(1) unfolding writeEncryptedChachaPolyFile_def assms(2) Let_def key
    by (auto simp: writeHeader_def length_bytes_def Let_def L_def split: if_splits prod.splits)
  then obtain rest where fl: "file = ([2, 0] @ length_bytes L) @ rest" by auto
  have L: "length (ks_getMetaData K (cs_store cs')) = L" "128 \<le> L" using f(1) assms(4) by (simp_all add: L_def)
  have ml: "metaLength sgnd (([2, 0] @ length_bytes L) @ xs) = metaLength sgnd ([2, 0] @ length_bytes L)" for sgnd xs
    by (simp add: metaLength_def length_bytes_def)
  have "fst (readFile env K' file m' (Some r)) = None" if "L < 256" "length file < L + 65284"
  proof -
    have n: "metaLength True ([2, 0] @ length_bytes L) = L + 65280" using metaLength_byte [OF L(2) that(1)] .
    have "length rest < L + 65280" using that(2) by (simp add: fl length_bytes_def)
    then have "readHeader env EncryptionChachaPolyV2 (tl file) = None"
      using n L(2) assms(3) by (simp add: readHeader_def fl ENCRYPTED_V2_HEADER_SIZE_def length_bytes_def Let_def)
    then have "readEncryptedChachaPolyFile env K' EncryptionChachaPolyV2 (tl file) m' r = (None, r)"
      by (simp add: readEncryptedChachaPolyFile_def)
    then show ?thesis by (simp add: readFile_def fl byte_version_def)
  qed
  then show ?thesis using metaLength_long [OF L(2) f(2)] ml [of True rest] unfolding L(1) fl by auto
qed

theorem long_metadata_unreadable_witness:
  "\<exists>file cs'. writeEncryptedChachaPolyFile demo_host (xdg_key_store (demo_xdg (replicate 80 CHR ''s''))) [(''k'', ''v'')] demo_cs =
       (Some file, cs') \<and> metaLength True file \<noteq> 172"
proof -
  let ?K = "xdg_key_store (demo_xdg (replicate 80 CHR ''s''))"
  let ?p = "\<lparr>xd_token = [], xd_salt = replicate 80 CHR ''s'', xd_key = [7], xd_version = EncryptionChachaPolyV2\<rparr>"
  obtain fc where w: "writeEncryptedChachaPolyFile demo_host ?K [(''k'', ''v'')] demo_cs = (Some fc, \<lparr>cs_lastNonce = 1, cs_store = ?p\<rparr>)"
    using demo_write(1) [of "replicate 80 CHR ''s''"] by auto
  have meta: "length (ks_getMetaData ?K ?p) = 172"
    using demo_write(2) [of "replicate 80 CHR ''s''"] by (simp add: xdg_key_store_def)
  have "ks_getPreferredVersion ?K (cs_store (next_nonce ?K demo_cs)) = EncryptionChachaPolyV2"
    by (simp add: next_nonce_def demo_cs_def xdg_key_store_def xdg_resetKey_def)
  with long_metadata_unreadable [OF w] meta w show ?thesis by (auto simp: demo_host_def)
qed

lemma write_nonce: "cs_lastNonce (snd (writeEncryptedChachaPolyFile env K m cs)) = cs_lastNonce (next_nonce K cs)"
  by (simp add: writeEncryptedChachaPolyFile_def Let_def split: prod.split option.split)

lemma nonce_bytes_inject: "nonce_bytes a = nonce_bytes b \<Longrightarrow> a = b"
  by (metis load_store64 nonce_bytes_def)

lemma next_nonce_value:
  assumes "uint (cs_lastNonce cs) + 1 < 2 ^ 64 - 1"
  shows "uint (cs_lastNonce (next_nonce K cs)) = uint (cs_lastNonce cs) + 1"
proof -
  have u: "uint (cs_lastNonce cs + 1) = uint (cs_lastNonce cs) + 1"
    using assms uint_u64(1) [of "cs_lastNonce cs"] by (simp add: uint_add64)
  moreover have "uint (- 1 :: u64) = 2 ^ 64 - 1" by (simp add: unsigned_minus_1_eq_mask mask_eq_exp_minus_1)
  ultimately have "cs_lastNonce cs + 1 \<noteq> - 1" using assms by (metis less_irrefl)
  then show ?thesis using u by (simp add: next_nonce_def)
qed

text \<open>
  The life of one settings file: the process saves and reads the file again, and new processes start,
  whose count of nonces is 0 until they have read the file.  \<open>cw_saved\<close> lists the encrypted files that
  were saved, each with the nonce it was encrypted under.
\<close>

record 'p cs_world =
  cw_cs :: "'p crypto_settings"
  cw_disk :: "bytes option"
  cw_saved :: "(u64 \<times> bytes) list"

datatype ('v, 'p) cs_op =
    CsSave "'v settings_map"
  | CsReload "'v settings_map"
  | CsRestart 'p "'v settings_map"

definition cs_load ::
    "'v file_env \<Rightarrow> 'p key_store \<Rightarrow> 'v settings_map \<Rightarrow> 'p crypto_settings \<Rightarrow> 'p cs_world \<Rightarrow> 'p cs_world" where
  "cs_load env K m cs w =
    (case cw_disk w of
       None \<Rightarrow> w\<lparr>cw_cs := cs\<rparr>
     | Some file \<Rightarrow>
         (case snd (readFile env K file m (Some cs)) of
            None \<Rightarrow> w\<lparr>cw_cs := cs\<rparr> | Some cs' \<Rightarrow> w\<lparr>cw_cs := cs'\<rparr>))"

fun cs_op_step :: "'v file_env \<times> 'p key_store \<times> ('v, 'p) cs_op \<Rightarrow> 'p cs_world \<Rightarrow> 'p cs_world" where
  "cs_op_step (env, K, CsSave m) w =
    (case writeFile env K m (Some (cw_cs w)) of
       (Some file, Some cs) \<Rightarrow>
         w\<lparr>cw_cs := cs, cw_disk := Some file,
           cw_saved := cw_saved w @ (if hd file = version_byte NoEncryption then [] else [(cs_lastNonce cs, file)])\<rparr>
     | (None, Some cs) \<Rightarrow> w\<lparr>cw_cs := cs\<rparr>
     | _ \<Rightarrow> w)"
| "cs_op_step (env, K, CsReload m) w = cs_load env K m (cw_cs w) w"
| "cs_op_step (env, K, CsRestart p m) w = cs_load env K m \<lparr>cs_lastNonce = 0, cs_store = p\<rparr> w"

text \<open>
  What the operations must meet: metadata short enough to be read back, and a new process that has
  read the last file with success when it is not the first to save an encrypted one.
\<close>

fun cs_op_ok :: "bool \<Rightarrow> 'v file_env \<times> 'p key_store \<times> ('v, 'p) cs_op \<Rightarrow> 'p cs_world \<Rightarrow> bool" where
  "cs_op_ok sgnd (env, K, CsSave m) w =
    (fe_charSigned env = sgnd \<and>
     length (ks_getMetaData K (cs_store (snd (writeEncryptedChachaPolyFile env K m (cw_cs w)))))
       < (if sgnd then 128 else 256))"
| "cs_op_ok sgnd (env, K, CsReload m) w = (fe_charSigned env = sgnd)"
| "cs_op_ok sgnd (env, K, CsRestart p m) w =
    (fe_charSigned env = sgnd \<and>
     (cw_saved w \<noteq> [] \<longrightarrow>
       (case cw_disk w of
          None \<Rightarrow> False
        | Some file \<Rightarrow> hd file \<noteq> version_byte NoEncryption \<and>
            fst (readFile env K file m (Some \<lparr>cs_lastNonce = 0, cs_store = p\<rparr>)) \<noteq> None)))"

fun cs_run :: "('v file_env \<times> 'p key_store \<times> ('v, 'p) cs_op) list \<Rightarrow> 'p cs_world \<Rightarrow> 'p cs_world" where
  "cs_run [] w = w"
| "cs_run (x # xs) w = cs_run xs (cs_op_step x w)"

fun cs_run_ok :: "bool \<Rightarrow> ('v file_env \<times> 'p key_store \<times> ('v, 'p) cs_op) list \<Rightarrow> 'p cs_world \<Rightarrow> bool" where
  "cs_run_ok sgnd [] w = True"
| "cs_run_ok sgnd (x # xs) w = (cs_op_ok sgnd x w \<and> cs_run_ok sgnd xs (cs_op_step x w))"

text \<open>The nonce a reader finds in an encrypted file.\<close>

definition carries :: "'v file_env \<Rightarrow> bytes \<Rightarrow> u64 \<Rightarrow> bool" where
  "carries env file n \<longleftrightarrow> file \<noteq> [] \<and> hd file \<noteq> version_byte NoEncryption \<and>
     (\<exists>v header meta rest. byte_version (hd file) = Some v \<and>
        readHeader env v (tl file) = Some (header, meta, nonce_bytes n @ rest))"

lemma carries_cong:
  assumes "fe_charSigned env = fe_charSigned env'" "carries env file n"
  shows "carries env' file n"
proof -
  have "readHeader env = readHeader env'" unfolding fun_eq_iff readHeader_def assms(1) by simp
  then show ?thesis using assms(2) by (simp add: carries_def)
qed

lemma write_carries:
  assumes "writeEncryptedChachaPolyFile env K m cs = (Some file, cs')"
    and "length (ks_getMetaData K (cs_store cs')) < (if fe_charSigned env then 128 else 256)"
  shows "carries env file (cs_lastNonce cs')"
proof -
  define v where "v = ks_getPreferredVersion K (cs_store (next_nonce K cs))"
  obtain key p where key: "ks_getKey K v [] (cs_store (next_nonce K cs)) = (key, p)" by fastforce
  let ?nonce = "nonce_bytes (cs_lastNonce (next_nonce K cs))"
  obtain header where h: "writeHeader K v p = Some header" and cs': "cs' = (next_nonce K cs)\<lparr>cs_store := p\<rparr>"
    and ex: "\<exists>rest. file = header @ ?nonce @ rest"
    using assms(1) unfolding writeEncryptedChachaPolyFile_def Let_def v_def [symmetric] key
    by (auto split: if_splits option.splits prod.splits)
  obtain rest where f: "file = header @ ?nonce @ rest" using ex by blast
  have n: "cs_lastNonce cs' = cs_lastNonce (next_nonce K cs)" "cs_store cs' = p" by (simp_all add: cs')
  show ?thesis
  proof (cases v)
    case NoEncryption
    then show ?thesis using h by (simp add: writeHeader_def)
  next
    case EncryptionChachaPolyV1
    then have "header = [1]" using h by (simp add: writeHeader_def)
    then show ?thesis unfolding n(1) by (simp add: carries_def f byte_version_def readHeader_def)
  next
    case EncryptionChachaPolyV2
    let ?meta = "ks_getMetaData K p"
    have header: "header = [2, 0] @ length_bytes (length ?meta) @ ?meta"
      using h EncryptionChachaPolyV2 by (simp add: writeHeader_def length_bytes_def Let_def split: if_splits)
    have "metaLength (fe_charSigned env) ([2, 0] @ length_bytes (length ?meta)) = length ?meta"
      using assms(2) n(2) by (intro metaLength_short) (auto split: if_splits)
    then have "readHeader env EncryptionChachaPolyV2 (tl file) = Some (header, ?meta, ?nonce @ rest)"
      by (simp add: readHeader_def f header ENCRYPTED_V2_HEADER_SIZE_def length_bytes_def Let_def)
    then show ?thesis unfolding n(1) by (simp add: carries_def f header byte_version_def)
  qed
qed

lemma read_carries:
  assumes "carries env file n"
  shows "\<exists>cs'. snd (readFile env K file m (Some cs)) = Some cs' \<and>
    cs_lastNonce cs' = (if fst (readFile env K file m (Some cs)) = None then cs_lastNonce cs else n)"
proof -
  obtain b bs v header meta rest where f: "file = b # bs" "byte_version b = Some v" "b \<noteq> 0"
    and hd: "readHeader env v bs = Some (header, meta, nonce_bytes n @ rest)"
    using assms by (cases "file") (auto simp: carries_def)
  have "v \<noteq> NoEncryption" using f(2,3) by (auto simp: byte_version_def split: if_splits)
  moreover have "take 12 (nonce_bytes n @ rest) = nonce_bytes n"
    by (simp add: nonce_bytes_def NONCE_SIZE_def store64_le_def)
  moreover have "load64_le (nonce_bytes n) = n" by (simp add: nonce_bytes_def load_store64)
  ultimately have "cs_lastNonce (snd (readEncryptedChachaPolyFile env K v bs m cs)) =
      (if fst (readEncryptedChachaPolyFile env K v bs m cs) = None then cs_lastNonce cs else n)"
    by (simp add: readEncryptedChachaPolyFile_def hd Let_def NONCE_SIZE_def split: prod.split option.split)
  then show ?thesis using f(2) \<open>v \<noteq> NoEncryption\<close>
    by (cases "readEncryptedChachaPolyFile env K v bs m cs") (auto simp: readFile_def f(1))
qed

lemma read_plain: "file \<noteq> [] \<Longrightarrow> hd file = 0 \<Longrightarrow> snd (readFile env K file m (Some cs)) = Some cs"
  by (cases "file") (simp_all add: readFile_def byte_version_def)

text \<open>
  The nonces of the saved files grow, the count is never below the last of them, and the file on the
  disk is a plain one or the last of them.
\<close>

definition cw_inv :: "'v file_env \<Rightarrow> int \<Rightarrow> 'p cs_world \<Rightarrow> bool" where
  "cw_inv env N w \<longleftrightarrow>
     sorted_wrt (<) (map fst (cw_saved w)) \<and> list_all (\<lambda>(n, file). carries env file n) (cw_saved w) \<and>
     (\<forall>n \<in> fst ` set (cw_saved w). n \<le> cs_lastNonce (cw_cs w)) \<and>
     uint (cs_lastNonce (cw_cs w)) \<le> N \<and>
     (cw_disk w = None \<longrightarrow> cw_saved w = []) \<and>
     (\<forall>file. cw_disk w = Some file \<longrightarrow> file \<noteq> [] \<and>
        (hd file = version_byte NoEncryption \<or> cw_saved w \<noteq> [] \<and> last (cw_saved w) = (fst (last (cw_saved w)), file)))"

lemma cw_last_carries:
  assumes "cw_inv env N w" "cw_disk w = Some file" "hd file \<noteq> version_byte NoEncryption" "fe_charSigned env' = fe_charSigned env"
  shows "cw_saved w \<noteq> []" "carries env' file (fst (last (cw_saved w)))"
proof -
  have l: "cw_saved w \<noteq> []" "last (cw_saved w) = (fst (last (cw_saved w)), file)"
    using assms(1-3) by (auto simp: cw_inv_def)
  then have "(fst (last (cw_saved w)), file) \<in> set (cw_saved w)" by (metis last_in_set)
  then have "carries env file (fst (last (cw_saved w)))"
    using assms(1) by (auto simp: cw_inv_def list_all_iff)
  then show "cw_saved w \<noteq> []" "carries env' file (fst (last (cw_saved w)))"
    using l(1) carries_cong [OF assms(4) [symmetric]] by auto
qed

lemma cw_last_greatest:
  assumes "sorted_wrt (<) (map fst (xs :: (u64 \<times> bytes) list))" "n \<in> fst ` set xs"
  shows "n \<le> fst (last xs)"
proof (cases xs rule: rev_cases)
  case (snoc ys y)
  then show ?thesis using assms by (auto simp: sorted_wrt_append less_imp_le)
qed (use assms in simp)

lemma cs_load_inv:
  assumes inv: "cw_inv env N w" and sgnd: "fe_charSigned env' = fe_charSigned env"
    and low: "uint (cs_lastNonce cs) \<le> N"
    and good: "(\<forall>n \<in> fst ` set (cw_saved w). n \<le> cs_lastNonce cs) \<or>
      (\<exists>file. cw_disk w = Some file \<and> hd file \<noteq> version_byte NoEncryption \<and>
         fst (readFile env' K file m (Some cs)) \<noteq> None)"
  shows "cw_inv env N (cs_load env' K m cs w)"
proof (cases "cw_disk w")
  case None
  then have "cw_saved w = []" using inv by (simp add: cw_inv_def)
  then show ?thesis using None low by (simp add: cs_load_def cw_inv_def)
next
  case (Some fl)
  have ne: "fl \<noteq> []" using inv Some by (simp add: cw_inv_def)
  show ?thesis
  proof (cases "hd fl = version_byte NoEncryption")
    case True
    have "cs_load env' K m cs w = w\<lparr>cw_cs := cs\<rparr>"
      using read_plain [OF ne, of env' K m cs] True Some by (simp add: cs_load_def)
    then show ?thesis using inv low good True Some by (auto simp: cw_inv_def)
  next
    case False
    let ?n = "fst (last (cw_saved w))"
    have c: "carries env' fl ?n" using cw_last_carries(2) [OF inv Some False sgnd] .
    obtain cs' where cs': "snd (readFile env' K fl m (Some cs)) = Some cs'"
      "cs_lastNonce cs' = (if fst (readFile env' K fl m (Some cs)) = None then cs_lastNonce cs else ?n)"
      using read_carries [OF c] by blast
    have all: "\<forall>n \<in> fst ` set (cw_saved w). n \<le> ?n"
      using inv cw_last_greatest by (auto simp: cw_inv_def)
    have "?n \<in> fst ` set (cw_saved w)" using cw_last_carries(1) [OF inv Some False sgnd] by simp
    then have "uint ?n \<le> N"
      using inv unfolding cw_inv_def by (meson order.trans word_le_def)
    then have "uint (cs_lastNonce cs') \<le> N" "\<forall>n \<in> fst ` set (cw_saved w). n \<le> cs_lastNonce cs'"
      using cs'(2) low good all Some by auto
    moreover have "cs_load env' K m cs w = w\<lparr>cw_cs := cs'\<rparr>" by (simp add: cs_load_def Some cs'(1))
    ultimately show ?thesis using inv by (simp add: cw_inv_def)
  qed
qed

lemma cs_save_inv:
  assumes inv: "cw_inv env N w" and sgnd: "fe_charSigned env' = fe_charSigned env" and bound: "N + 1 < 2 ^ 64 - 1"
    and short: "length (ks_getMetaData K (cs_store (snd (writeEncryptedChachaPolyFile env' K m (cw_cs w)))))
       < (if fe_charSigned env then 128 else 256)"
  shows "cw_inv env (N + 1) (cs_op_step (env', K, CsSave m) w)"
proof (cases "ks_getPreferredVersion K (cs_store (cw_cs w)) = NoEncryption")
  case True
  then have wf: "writeFile env' K m (Some (cw_cs w)) = (writeJsonFile env' m, Some (cw_cs w))"
    by (simp add: writeFile_def)
  show ?thesis
  proof (cases "writeJsonFile env' m")
    case None
    then have "cs_op_step (env', K, CsSave m) w = w" using wf by simp
    then show ?thesis using inv by (simp add: cw_inv_def)
  next
    case (Some f)
    then have f: "f \<noteq> []" "hd f = version_byte NoEncryption"
      by (auto simp: writeJsonFile_def Let_def split: if_splits)
    have "cs_op_step (env', K, CsSave m) w = w\<lparr>cw_disk := Some f\<rparr>" using wf Some f(2) by simp
    then show ?thesis using inv f by (simp add: cw_inv_def)
  qed
next
  case False
  obtain res cs where wr: "writeEncryptedChachaPolyFile env' K m (cw_cs w) = (res, cs)" by fastforce
  have "uint (cs_lastNonce (cw_cs w)) + 1 < 2 ^ 64 - 1" using inv bound by (simp add: cw_inv_def)
  then have n: "uint (cs_lastNonce cs) = uint (cs_lastNonce (cw_cs w)) + 1"
    using next_nonce_value [of "cw_cs w" K] write_nonce [of env' K m "cw_cs w"] wr by simp
  have step: "cs_op_step (env', K, CsSave m) w = (case res of None \<Rightarrow> w\<lparr>cw_cs := cs\<rparr> | Some file \<Rightarrow>
      w\<lparr>cw_cs := cs, cw_disk := Some file,
        cw_saved := cw_saved w @ (if hd file = version_byte NoEncryption then [] else [(cs_lastNonce cs, file)])\<rparr>)"
    using False wr by (simp add: writeFile_def split: option.split)
  have less: "\<forall>n \<in> fst ` set (cw_saved w). n < cs_lastNonce cs"
    using inv n by (fastforce simp: cw_inv_def word_le_def word_less_def)
  then have le: "\<forall>n \<in> fst ` set (cw_saved w). n \<le> cs_lastNonce cs" by (simp add: less_imp_le)
  have low: "uint (cs_lastNonce cs) \<le> N + 1" using inv n by (simp add: cw_inv_def)
  show ?thesis
  proof (cases res)
    case None
    then show ?thesis using step inv le low by (simp add: cw_inv_def)
  next
    case (Some f)
    have "carries env' f (cs_lastNonce cs)"
      using write_carries [OF wr [unfolded Some]] short wr sgnd by simp
    then have c: "carries env f (cs_lastNonce cs)" by (rule carries_cong [OF sgnd])
    then have "f \<noteq> []" "hd f \<noteq> version_byte NoEncryption" by (simp_all add: carries_def)
    then show ?thesis using step inv less le low c Some
      by (auto simp: cw_inv_def sorted_wrt_append)
  qed
qed

lemma cs_step_inv:
  assumes "cw_inv env N w" "cs_op_ok (fe_charSigned env) x w" "N + 1 < 2 ^ 64 - 1" "0 \<le> N"
  shows "cw_inv env (N + 1) (cs_op_step x w)"
proof -
  obtain env' K op where x: "x = (env', K, op)" by (cases x)
  have sgnd: "fe_charSigned env' = fe_charSigned env" using assms(2) x by (cases op) simp_all
  have up: "cw_inv env N v \<Longrightarrow> cw_inv env (N + 1) v" for v :: "'b cs_world" by (auto simp: cw_inv_def)
  show ?thesis
  proof (cases op)
    case (CsSave m)
    then show ?thesis using cs_save_inv [OF assms(1) sgnd assms(3), of K m] assms(2) unfolding x by simp
  next
    case (CsReload m)
    have "uint (cs_lastNonce (cw_cs w)) \<le> N" "\<forall>n \<in> fst ` set (cw_saved w). n \<le> cs_lastNonce (cw_cs w)"
      using assms(1) by (simp_all add: cw_inv_def)
    then show ?thesis using up cs_load_inv [OF assms(1) sgnd] by (simp add: x CsReload)
  next
    case (CsRestart p m)
    let ?cs = "\<lparr>cs_lastNonce = 0, cs_store = p\<rparr>"
    have "(\<forall>n \<in> fst ` set (cw_saved w). n \<le> cs_lastNonce ?cs) \<or>
      (\<exists>file. cw_disk w = Some file \<and> hd file \<noteq> version_byte NoEncryption \<and>
         fst (readFile env' K file m (Some ?cs)) \<noteq> None)"
      using assms(2) by (cases "cw_saved w = []") (auto simp: x CsRestart split: option.splits)
    then have "cw_inv env N (cs_load env' K m ?cs w)"
      using assms(4) by (intro cs_load_inv [OF assms(1) sgnd]) simp_all
    then show ?thesis using up by (simp add: x CsRestart)
  qed
qed

lemma cs_run_inv:
  "cw_inv env N w \<Longrightarrow> cs_run_ok (fe_charSigned env) xs w \<Longrightarrow> N + int (length xs) < 2 ^ 64 - 1 \<Longrightarrow> 0 \<le> N \<Longrightarrow>
   cw_inv env (N + int (length xs)) (cs_run xs w)"
proof (induction xs arbitrary: N w)
  case (Cons x xs)
  then show ?case using cs_step_inv [of env N w x] Cons.IH [of "N + 1" "cs_op_step x w"]
    by (simp add: add.assoc)
qed simp

text \<open>
  C24: A nonce is never used for two encrypted files of an installation, under whatever keys.  Start
  from a process that finds no file, and let it and the processes after it save the settings (which
  may fail, or write a plain file), read the file again (with any outcome) and be replaced by new
  processes, in any order and with fewer than $2^{64} - 1$ of these operations, counted from the nonce
  the first process starts with.  Provided that the metadata of every save are shorter than 128 bytes
  (256 where \<^verbatim>\<open>char\<close> is unsigned), and that each new process, once an encrypted file was saved, first
  reads the last file, an encrypted one, with success, the nonces of the encrypted files grow, so
  that no two are the same, and every reader finds them in their files.  A write that would use the
  nonce $2^{64} - 1$ replaces the key and counts from 0 again.
\<close>

theorem nonces_distinct:
  fixes ops :: "('v file_env \<times> 'p key_store \<times> ('v, 'p) cs_op) list"
  assumes "cs_run_ok sgnd ops w" "cw_disk w = None" "cw_saved w = []"
    and "uint (cs_lastNonce (cw_cs w)) + int (length ops) < 2 ^ 64 - 1"
  shows "sorted_wrt (<) (map fst (cw_saved (cs_run ops w))) \<and>
    distinct (map (nonce_bytes \<circ> fst) (cw_saved (cs_run ops w))) \<and>
    (fe_charSigned (env :: 'v file_env) = sgnd \<longrightarrow> list_all (\<lambda>(n, file). carries env file n) (cw_saved (cs_run ops w))) \<and>
    (cs_lastNonce cs + 1 = - 1 \<longrightarrow>
      next_nonce K cs = cs\<lparr>cs_store := ks_resetKey K (cs_store cs), cs_lastNonce := 0\<rparr>)"
proof -
  define env0 :: "'v file_env" where "env0 = undefined\<lparr>fe_charSigned := sgnd\<rparr>"
  have e0: "fe_charSigned env0 = sgnd" by (simp add: env0_def)
  have "cw_inv env0 (uint (cs_lastNonce (cw_cs w))) w" using assms(2,3) by (simp add: cw_inv_def)
  then have inv: "cw_inv env0 (uint (cs_lastNonce (cw_cs w)) + int (length ops)) (cs_run ops w)"
    using assms(1,4) by (intro cs_run_inv) (simp_all add: e0)
  then have sorted: "sorted_wrt (<) (map fst (cw_saved (cs_run ops w)))" by (simp add: cw_inv_def)
  then have "distinct (map fst (cw_saved (cs_run ops w)))" by (simp add: strict_sorted_iff)
  then have "distinct (map (nonce_bytes \<circ> fst) (cw_saved (cs_run ops w)))"
    by (simp add: distinct_map inj_on_def) (metis nonce_bytes_inject)
  moreover have "list_all (\<lambda>(n, file). carries env file n) (cw_saved (cs_run ops w))" if "fe_charSigned env = sgnd"
    using inv carries_cong [of env0 env] that e0 by (auto simp: cw_inv_def list_all_iff)
  ultimately show ?thesis using sorted by (simp add: next_nonce_def)
qed

text \<open>A platform with one fixed key and no metadata: two saves with a restart between them.\<close>

definition fixed_key :: "unit key_store" where
  "fixed_key = \<lparr>ks_resetKey = id, ks_getKey = (\<lambda>_ _ p. (replicate 32 7, p)), ks_getMetaData = (\<lambda>_. []),
     ks_getPreferredVersion = (\<lambda>_. EncryptionChachaPolyV2)\<rparr>"

lemma fixed_write:
  "\<exists>f. writeEncryptedChachaPolyFile demo_host fixed_key m cs = (Some f, next_nonce fixed_key cs) \<and> hd f = 2"
  by (simp add: writeEncryptedChachaPolyFile_def fixed_key_def demo_host_def writeHeader_def CRYPTO_SETTINGS_KEY_SIZE_def
      Let_def split: prod.split)

lemma fixed_provider: "key_provider fixed_key (\<lambda>_. True) (\<lambda>_. True)"
  by unfold_locales (auto simp: fixed_key_def)

theorem nonces_distinct_witness:
  "let ops = [(demo_host, fixed_key, CsSave [(''k'', ''v'')]), (demo_host, fixed_key, CsRestart () []),
              (demo_host, fixed_key, CsSave [(''k'', ''w'')])];
       saved = cw_saved (cs_run ops \<lparr>cw_cs = \<lparr>cs_lastNonce = 0, cs_store = ()\<rparr>, cw_disk = None, cw_saved = []\<rparr>)
   in map fst saved = [1, 2] \<and> distinct (map (nonce_bytes \<circ> fst) saved)"
proof -
  let ?c0 = "\<lparr>cs_lastNonce = 0, cs_store = ()\<rparr>" and ?c1 = "\<lparr>cs_lastNonce = 1, cs_store = ()\<rparr>"
    and ?c2 = "\<lparr>cs_lastNonce = 2, cs_store = ()\<rparr>" and ?m = "[(''k'', ''v'')]"
  let ?ops = "[(demo_host, fixed_key, CsSave ?m), (demo_host, fixed_key, CsRestart () []),
    (demo_host, fixed_key, CsSave [(''k'', ''w'')])]"
  let ?w = "\<lparr>cw_cs = ?c0, cw_disk = None, cw_saved = []\<rparr>"
  have "(1 :: u64) \<noteq> - 1" "(2 :: u64) \<noteq> - 1" by simp_all
  then have nn: "next_nonce fixed_key ?c0 = ?c1" "next_nonce fixed_key ?c1 = ?c2" by (simp_all add: next_nonce_def)
  obtain f where f: "writeEncryptedChachaPolyFile demo_host fixed_key ?m ?c0 = (Some f, ?c1)" "hd f = 2"
    using fixed_write [of ?m ?c0] nn(1) by auto
  obtain g where g: "writeEncryptedChachaPolyFile demo_host fixed_key [(''k'', ''w'')] ?c1 = (Some g, ?c2)" "hd g = 2"
    using fixed_write [of "[(''k'', ''w'')]" ?c1] nn(2) by auto
  have v2: "ks_getPreferredVersion fixed_key p = EncryptionChachaPolyV2" "ks_getMetaData fixed_key p = []" for p
    by (simp_all add: fixed_key_def)
  have host: "fe_charSigned demo_host" by (simp add: demo_host_def)
  have obj: "store_object demo_host ?m = [(''k'', JString ''v'')]" by (simp add: store_object_def demo_host_def obj_insert_def)
  have json: "fe_fromJson demo_host (fe_toJson demo_host (store_object demo_host ?m)) = JObject (store_object demo_host ?m)"
    "fe_toJson demo_host (store_object demo_host ?m) \<noteq> []"
    unfolding obj by (simp_all add: demo_host_def demo_json) (simp add: demo_toJson_def)
  have vals: "distinct (map fst ?m)" "\<forall>(k, v) \<in> set ?m. fe_toVariant demo_host (fe_fromVariant demo_host v) = v"
    by (simp_all add: demo_host_def)
  have short: "length (ks_getMetaData fixed_key (cs_store ?c1)) < (if fe_charSigned demo_host then 128 else 256)"
    by (simp add: v2)
  note rt = key_provider.encrypted_roundtrip [OF fixed_provider f(1) v2(1) short json vals TrueI TrueI, of ?c0]
  obtain r where r: "snd (readFile demo_host fixed_key f [] (Some ?c0)) = Some r" "cs_lastNonce r = 1"
    using rt(2) by auto
  then have rd: "readFile demo_host fixed_key f [] (Some ?c0) = (Some ?m, Some ?c1)"
    using rt(1) by (intro prod_eqI) auto
  have s1: "cs_op_step (demo_host, fixed_key, CsSave ?m) ?w = \<lparr>cw_cs = ?c1, cw_disk = Some f, cw_saved = [(1, f)]\<rparr>"
    using f by (simp add: writeFile_def v2)
  have s2: "cs_op_step (demo_host, fixed_key, CsRestart () []) \<lparr>cw_cs = ?c1, cw_disk = Some f, cw_saved = [(1, f)]\<rparr> =
      \<lparr>cw_cs = ?c1, cw_disk = Some f, cw_saved = [(1, f)]\<rparr>"
    using rd by (simp add: cs_load_def)
  have s3: "cs_op_step (demo_host, fixed_key, CsSave [(''k'', ''w'')]) \<lparr>cw_cs = ?c1, cw_disk = Some f, cw_saved = [(1, f)]\<rparr> =
      \<lparr>cw_cs = ?c2, cw_disk = Some g, cw_saved = [(1, f), (2, g)]\<rparr>"
    using g by (simp add: writeFile_def v2)
  have saved: "map fst (cw_saved (cs_run ?ops ?w)) = [1, 2]" by (simp only: cs_run.simps s1 s2 s3) simp
  have ok: "cs_run_ok True ?ops ?w"
    unfolding cs_run_ok.simps s1 s2 by (simp add: v2 host f rd)
  have "distinct (map (nonce_bytes \<circ> fst) (cw_saved (cs_run ?ops ?w)))"
    by (rule nonces_distinct [OF ok, THEN conjunct2, THEN conjunct1]) simp_all
  with saved show ?thesis unfolding Let_def by (rule conjI)
qed

text \<open>
  Reading the file is essential: a read that fails leaves the count where it was, at 0 in a new process, while the key stays
  in the platform's store: the first write that follows uses the nonce 1, as the first write under
  that key did.
\<close>

theorem nonce_reused_after_failed_read:
  assumes "readFile env K device m (Some r) = (None, Some r')" "cs_lastNonce r = 0" "cs_lastNonce cs = 0"
  shows "cs_lastNonce (snd (writeEncryptedChachaPolyFile env K m1 r')) = 1 \<and>
    cs_lastNonce (snd (writeEncryptedChachaPolyFile env K m2 cs)) = 1"
proof -
  have "cs_lastNonce r' = 0"
    using assms(1,2)
    by (auto simp: readFile_def readEncryptedChachaPolyFile_def Let_def split: list.splits if_splits option.splits prod.splits)
  moreover have "(1 :: u64) \<noteq> - 1" by simp
  ultimately show ?thesis using assms(3) by (simp add: write_nonce next_nonce_def)
qed

end
