(* ===== verification/ErrorHandler.thy ===== *)
theory ErrorHandler
  imports Prelude
begin

text \<open>
  Model of \<^verbatim>\<open>src/src/errorhandler.cpp\<close>: the classes of errors, what a network error is taken for, and the
  alert shown to the user, which a timer hides after four seconds.  Telemetry and logging are left out.
\<close>

datatype error_type =
    NoError | ConnectionFailureError | SplitTunnelError | NoConnectionError | DependentConnectionError
  | AuthenticationError | ControllerError | RemoteServiceError | SubscriptionFailureError
  | GeoIpRestrictionError | UnrecoverableError | IgnoredError

datatype alert_type =
    NoAlert | AuthenticationFailedAlert | ConnectionFailedAlert | LogoutAlert | NoConnectionAlert
  | ControllerErrorAlert | SplitTunnelErrorAlert | RemoteServiceErrorAlert | SubscriptionFailureAlert
  | GeoIpRestrictionAlert | UnrecoverableErrorAlert | AuthCodeSentAlert | CopiedToClipboardConfirmationAlert

datatype propagation_policy = DoNotPropagateError | PropagateError

text \<open>The errors of a network reply that the source tells apart; a code it does not name is \<open>OtherNetworkError\<close>.\<close>

datatype network_error =
    NetworkNoError | ConnectionRefusedError | RemoteHostClosedError | HostNotFoundError | TimeoutError
  | OperationCanceledError | SslHandshakeFailedError | TemporaryNetworkFailureError | NetworkSessionFailedError
  | BackgroundRequestNotAllowedError | TooManyRedirectsError | InsecureRedirectError | UnknownNetworkError
  | ProxyConnectionRefusedError | ProxyConnectionClosedError | ProxyNotFoundError | ProxyTimeoutError
  | ProxyAuthenticationRequiredError | UnknownProxyError | ContentAccessDenied | ContentOperationNotPermittedError
  | ContentNotFoundError | AuthenticationRequiredError | ContentReSendError | ContentConflictError | ContentGoneError
  | UnknownContentError | ProtocolUnknownError | ProtocolInvalidOperationError | ProtocolFailure
  | InternalServerError | OperationNotImplementedError | ServiceUnavailableError | UnknownServerError
  | OtherNetworkError

section \<open>Classification\<close>

definition toErrorType :: "network_error \<Rightarrow> error_type" where
  "toErrorType e =
    (if e \<in> {ConnectionRefusedError, RemoteHostClosedError, SslHandshakeFailedError, TemporaryNetworkFailureError,
             NetworkSessionFailedError, TooManyRedirectsError, InsecureRedirectError, ProxyConnectionRefusedError,
             ProxyConnectionClosedError, ProxyNotFoundError, ProxyTimeoutError, ProxyAuthenticationRequiredError,
             ServiceUnavailableError}
     then ConnectionFailureError
     else if e = HostNotFoundError then NoConnectionError
     else if e = TimeoutError then DependentConnectionError
     else if e = UnknownNetworkError then NoConnectionError
     else if e \<in> {ContentOperationNotPermittedError, AuthenticationRequiredError} then AuthenticationError
     else if e = NetworkNoError then NoError
     else IgnoredError)"

text \<open>The alert of an error is computed when it is handled; \<open>'e\<close> is what the callbacks look at.\<close>

record 'e error_data =
  ed_errorType :: error_type
  ed_supportPolicyPropagation :: bool
  ed_getAlert :: "'e \<Rightarrow> alert_type"

definition s_errorData :: "'e error_data list" where
  "s_errorData =
    [\<lparr>ed_errorType = NoError, ed_supportPolicyPropagation = True, ed_getAlert = (\<lambda>_. NoAlert)\<rparr>,
     \<lparr>ed_errorType = ConnectionFailureError, ed_supportPolicyPropagation = True, ed_getAlert = (\<lambda>_. ConnectionFailedAlert)\<rparr>,
     \<lparr>ed_errorType = NoConnectionError, ed_supportPolicyPropagation = True, ed_getAlert = (\<lambda>_. ConnectionFailedAlert)\<rparr>,
     \<lparr>ed_errorType = DependentConnectionError, ed_supportPolicyPropagation = True, ed_getAlert = (\<lambda>_. ConnectionFailedAlert)\<rparr>,
     \<lparr>ed_errorType = AuthenticationError, ed_supportPolicyPropagation = False, ed_getAlert = (\<lambda>_. AuthenticationFailedAlert)\<rparr>,
     \<lparr>ed_errorType = ControllerError, ed_supportPolicyPropagation = True, ed_getAlert = (\<lambda>_. ControllerErrorAlert)\<rparr>,
     \<lparr>ed_errorType = SplitTunnelError, ed_supportPolicyPropagation = True, ed_getAlert = (\<lambda>_. SplitTunnelErrorAlert)\<rparr>,
     \<lparr>ed_errorType = RemoteServiceError, ed_supportPolicyPropagation = True, ed_getAlert = (\<lambda>_. RemoteServiceErrorAlert)\<rparr>,
     \<lparr>ed_errorType = SubscriptionFailureError, ed_supportPolicyPropagation = False, ed_getAlert = (\<lambda>_. SubscriptionFailureAlert)\<rparr>,
     \<lparr>ed_errorType = GeoIpRestrictionError, ed_supportPolicyPropagation = False, ed_getAlert = (\<lambda>_. GeoIpRestrictionAlert)\<rparr>,
     \<lparr>ed_errorType = UnrecoverableError, ed_supportPolicyPropagation = True, ed_getAlert = (\<lambda>_. UnrecoverableErrorAlert)\<rparr>,
     \<lparr>ed_errorType = IgnoredError, ed_supportPolicyPropagation = True, ed_getAlert = (\<lambda>_. NoAlert)\<rparr>]"

section \<open>The handler\<close>

datatype eh_out = AlertChanged alert_type | ErrorHandled

record 'e error_handler =
  eh_alert :: alert_type
  eh_timer :: bool
  eh_errorData :: "'e error_data list"
  eh_out :: "eh_out list"

definition emptyErrorHandler :: "'e error_handler" where
  "emptyErrorHandler = \<lparr>eh_alert = NoAlert, eh_timer = False, eh_errorData = s_errorData, eh_out = []\<rparr>"

definition findError :: "error_type \<Rightarrow> 'e error_handler \<Rightarrow> 'e error_data option" where
  "findError e s = find (\<lambda>d. ed_errorType d = e) (eh_errorData s)"

definition setAlert :: "alert_type \<Rightarrow> 'e error_handler \<Rightarrow> 'e error_handler" where
  "setAlert alert s =
    (let s1 = s\<lparr>eh_timer := alert \<noteq> NoAlert\<rparr>
     in s1\<lparr>eh_alert := alert, eh_out := eh_out s1 @ [AlertChanged alert]\<rparr>)"

definition requestAlert :: "alert_type \<Rightarrow> 'e error_handler \<Rightarrow> 'e error_handler" where
  "requestAlert alert s = setAlert alert s"

text \<open>The expiry of the timer.\<close>

definition alertTimeout :: "'e error_handler \<Rightarrow> 'e error_handler" where
  "alertTimeout s = setAlert NoAlert s"

text \<open>\<^const>\<open>None\<close>: the error is not registered, and the code dereferences a null pointer.\<close>

definition errorHandle :: "'e \<Rightarrow> error_type \<Rightarrow> 'e error_handler \<Rightarrow> 'e error_handler option" where
  "errorHandle env e s =
    (case findError e s of
       None \<Rightarrow> None
     | Some d \<Rightarrow>
         if ed_getAlert d env = NoAlert then Some s
         else let s1 = setAlert (ed_getAlert d env) s in Some (s1\<lparr>eh_out := eh_out s1 @ [ErrorHandled]\<rparr>))"

definition networkErrorHandle :: "'e \<Rightarrow> network_error \<Rightarrow> propagation_policy \<Rightarrow> 'e error_handler \<Rightarrow> 'e error_handler option" where
  "networkErrorHandle env e policy s =
    (case findError (toErrorType e) s of
       None \<Rightarrow> None
     | Some d \<Rightarrow>
         if \<not> ed_supportPolicyPropagation d \<or> policy = PropagateError then errorHandle env (toErrorType e) s else Some s)"

definition registerCustomErrorHandler :: "error_type \<Rightarrow> bool \<Rightarrow> ('e \<Rightarrow> alert_type) \<Rightarrow> 'e error_handler \<Rightarrow> 'e error_handler" where
  "registerCustomErrorHandler e propagation getAlert s =
     s\<lparr>eh_errorData := \<lparr>ed_errorType = e, ed_supportPolicyPropagation = propagation, ed_getAlert = getAlert\<rparr> # eh_errorData s\<rparr>"

section \<open>Every error is registered\<close>

datatype 'e eh_event =
    ERequestAlert alert_type
  | ETimeout
  | EHandle 'e error_type
  | ENetwork 'e network_error propagation_policy
  | ERegister error_type bool "'e \<Rightarrow> alert_type"

fun eh_step :: "'e error_handler \<Rightarrow> 'e eh_event \<Rightarrow> 'e error_handler" where
  "eh_step s (ERequestAlert a) = requestAlert a s"
| "eh_step s ETimeout = alertTimeout s"
| "eh_step s (EHandle env e) = the (errorHandle env e s)"
| "eh_step s (ENetwork env e p) = the (networkErrorHandle env e p s)"
| "eh_step s (ERegister e b a) = registerCustomErrorHandler e b a s"

fun eh_guard :: "'e error_handler \<Rightarrow> 'e eh_event \<Rightarrow> bool" where
  "eh_guard s ETimeout = eh_timer s"
| "eh_guard s e = True"

text \<open>Every kind of error is registered, and an alert is shown exactly while its timer runs.\<close>

definition eh_inv :: "'e error_handler \<Rightarrow> bool" where
  "eh_inv s \<longleftrightarrow> (\<forall>e. e \<in> ed_errorType ` set (eh_errorData s)) \<and> (eh_alert s \<noteq> NoAlert \<longleftrightarrow> eh_timer s)"

lemma find_some: "(\<exists>x \<in> set xs. P x) \<Longrightarrow> \<exists>x. find P xs = Some x"
  by (induction xs) auto

lemma findError_some:
  assumes "eh_inv s"
  shows "\<exists>d. findError e s = Some d"
proof -
  have "e \<in> ed_errorType ` set (eh_errorData s)" using assms by (simp add: eh_inv_def)
  then have "\<exists>d \<in> set (eh_errorData s). ed_errorType d = e" by auto
  then show ?thesis unfolding findError_def by (rule find_some)
qed

lemma setAlert_inv [inv_intros]: "eh_inv s \<Longrightarrow> eh_inv (setAlert a s)"
  by (simp add: eh_inv_def setAlert_def)

lemma eh_out_inv [simp]: "eh_inv (s\<lparr>eh_out := x\<rparr>) = eh_inv s"
  by (simp add: eh_inv_def)

lemma errorHandle_inv:
  assumes "eh_inv s"
  shows "\<exists>t. errorHandle env e s = Some t \<and> eh_inv t"
  using findError_some [OF assms, of e] assms by (auto simp: errorHandle_def Let_def intro!: inv_intros)

lemma networkErrorHandle_inv:
  assumes "eh_inv s"
  shows "\<exists>t. networkErrorHandle env e p s = Some t \<and> eh_inv t"
  using findError_some [OF assms, of "toErrorType e"] errorHandle_inv [OF assms, of env "toErrorType e"] assms
  by (auto simp: networkErrorHandle_def)

lemma s_errorData_all: "e \<in> ed_errorType ` set s_errorData"
  by (cases e) (simp_all add: s_errorData_def)

interpretation eh: transition_system "\<lambda>s. s = emptyErrorHandler" eh_step eh_guard eh_inv
proof
  show "eh_inv s" if "s = emptyErrorHandler" for s
    using that by (simp add: emptyErrorHandler_def eh_inv_def s_errorData_all)
  show "eh_inv (eh_step s e)" if "eh_inv s" "eh_guard s e" for s e
  proof (cases e)
    case (EHandle env e')
    then show ?thesis using errorHandle_inv [OF that(1), of env e'] by auto
  next
    case (ENetwork env e' p)
    then show ?thesis using networkErrorHandle_inv [OF that(1), of env e' p] by auto
  next
    case (ERegister e' b a)
    then show ?thesis using that(1) by (auto simp: registerCustomErrorHandler_def eh_inv_def)
  qed (use that in \<open>auto simp: requestAlert_def alertTimeout_def intro: inv_intros\<close>)
qed

section \<open>Properties\<close>

text \<open>
  No error is lost.  However errors, alerts and custom handlers arrive, handling an error never
  finds it unregistered; an authentication failure of a network reply shows its alert whatever the
  policy of the caller as long as nobody re-registered that error, other errors of a reply only when
  the caller propagates them; and an alert is on screen exactly while the timer that hides it runs.
\<close>

theorem errors_handled:
  assumes "eh.reach s"
  shows "errorHandle env e s \<noteq> None \<and> networkErrorHandle env ne policy s \<noteq> None \<and>
    (eh_alert s \<noteq> NoAlert \<longleftrightarrow> eh_timer s) \<and>
    (eh_errorData s = s_errorData \<longrightarrow>
      map_option eh_alert (networkErrorHandle env ne policy s) =
        Some (if toErrorType ne = AuthenticationError then AuthenticationFailedAlert
              else if policy = PropagateError \<and> toErrorType ne \<in> {ConnectionFailureError, NoConnectionError, DependentConnectionError}
              then ConnectionFailedAlert
              else eh_alert s))"
proof -
  have inv: "eh_inv s" using assms by (rule eh.reach_inv)
  have types: "toErrorType ne \<in> {AuthenticationError, ConnectionFailureError, NoConnectionError, DependentConnectionError,
      NoError, IgnoredError}"
    by (simp add: toErrorType_def)
  have "map_option eh_alert (networkErrorHandle env ne policy s) =
      Some (if toErrorType ne = AuthenticationError then AuthenticationFailedAlert
            else if policy = PropagateError \<and> toErrorType ne \<in> {ConnectionFailureError, NoConnectionError, DependentConnectionError}
            then ConnectionFailedAlert else eh_alert s)" if "eh_errorData s = s_errorData"
    using types that
    by (auto simp: networkErrorHandle_def errorHandle_def findError_def s_errorData_def setAlert_def Let_def)
  then show ?thesis using errorHandle_inv [OF inv, of env e] networkErrorHandle_inv [OF inv, of env ne policy] inv
    by (auto simp: eh_inv_def)
qed

theorem errors_handled_witness:
  "map_option eh_alert (networkErrorHandle () AuthenticationRequiredError DoNotPropagateError emptyErrorHandler) = Some AuthenticationFailedAlert"
  using errors_handled [of emptyErrorHandler "()" NoError AuthenticationRequiredError DoNotPropagateError]
  by (simp add: eh.reach_init) (simp add: emptyErrorHandler_def toErrorType_def)

end
