(* ===== verification/HawkAuth.thy ===== *)
theory HawkAuth
  imports Hkdf
begin

text \<open>
  Model of \<^verbatim>\<open>src/src/hawkauth.cpp\<close>: the Hawk authorization header of the requests to the accounts
  server.  Credentials are derived from the session token; the message authentication code covers a
  normalized header, one field per line.  Hashes, base64, hexadecimal and decimal printing are
  parameters, URLs are given by their parts.
\<close>

record hawk_env =
  he_hmac :: "bytes \<Rightarrow> bytes \<Rightarrow> bytes"
  he_sha256 :: "bytes \<Rightarrow> bytes"
  he_base64 :: "bytes \<Rightarrow> string"
  he_hex :: "bytes \<Rightarrow> string"
  he_utf8 :: "string \<Rightarrow> bytes"
  he_number :: "int \<Rightarrow> string"
  he_lower :: "string \<Rightarrow> string"

record url_parts =
  up_scheme :: string
  up_path :: string
  up_query :: "string option"
  up_host :: string
  up_port :: "int option"

record hawk_auth =
  hk_id :: bytes
  hk_key :: bytes
  hk_timestamp :: int
  hk_nonce :: string

definition lf :: char where "lf = CHR 0x0A"

definition dquote :: char where "dquote = CHR 0x22"

definition nonce_range :: string where
  "nonce_range = ''ABCDEFGHIJKLMNOPQRSTUVWXYZabcdefghijklmnopqrstuvwxyz0123456789-._~''"

text \<open>\<^verbatim>\<open>generateNonce\<close>, from the six numbers the random generator returns.\<close>

definition generateNonce :: "32 word list \<Rightarrow> string" where
  "generateNonce rs = map (\<lambda>r. nonce_range ! (unat r mod length nonce_range)) (take 6 rs)"

definition session_info :: string where
  "session_info = ''identity.mozilla.com/picl/v1/sessionToken''"

definition hawk_session :: "hawk_env \<Rightarrow> bytes \<Rightarrow> int \<Rightarrow> 32 word list \<Rightarrow> hawk_auth" where
  "hawk_session env session now rs =
    (let keydata = (case hkdf_sha256 (he_hmac env) [] session (he_utf8 env session_info) 64 of
                      None \<Rightarrow> [] | Some k \<Rightarrow> k)
     in \<lparr>hk_id = take 32 keydata, hk_key = drop (length keydata - 32) keydata,
         hk_timestamp = now, hk_nonce = generateNonce rs\<rparr>)"

definition hashPayload :: "hawk_env \<Rightarrow> bytes \<Rightarrow> string \<Rightarrow> string" where
  "hashPayload env data mimetype =
     he_base64 env (he_sha256 env (he_utf8 env (''hawk.1.payload'' @ [lf]) @ he_utf8 env (he_lower env mimetype @ [lf]) @
       data @ he_utf8 env [lf]))"

text \<open>The fields of the normalized header, in order; \<^verbatim>\<open>generateInternal\<close> ends each with a newline.\<close>

definition hawk_resource :: "url_parts \<Rightarrow> string" where
  "hawk_resource url = (case up_query url of Some q \<Rightarrow> up_path url @ ''?'' @ q | None \<Rightarrow> up_path url)"

definition hawk_port :: "url_parts \<Rightarrow> int" where
  "hawk_port url =
    (let port = (if up_scheme url = ''http'' then 80 else 443)
     in case up_port url of Some p \<Rightarrow> p | None \<Rightarrow> port)"

definition hawk_header :: "hawk_env \<Rightarrow> hawk_auth \<Rightarrow> url_parts \<Rightarrow> string \<Rightarrow> string \<Rightarrow> string" where
  "hawk_header env h url method hash =
     concat (map (\<lambda>f. f @ [lf])
       [''hawk.1.header'', he_number env (hk_timestamp h), hk_nonce h, method, hawk_resource url, up_host url,
        he_number env (hawk_port url), hash, []])"

definition hawk_field :: "string \<Rightarrow> string \<Rightarrow> string" where
  "hawk_field name v = name @ ''='' @ [dquote] @ v @ [dquote]"

fun join_comma :: "string list \<Rightarrow> string" where
  "join_comma [] = []"
| "join_comma [x] = x"
| "join_comma (x # y # ys) = x @ '', '' @ join_comma (y # ys)"

definition generateInternal :: "hawk_env \<Rightarrow> hawk_auth \<Rightarrow> url_parts \<Rightarrow> string \<Rightarrow> string \<Rightarrow> string" where
  "generateInternal env h url method hash =
    (let mac = he_hmac env (hk_key h) (he_utf8 env (hawk_header env h url method hash));
         values = [hawk_field ''id'' (he_hex env (hk_id h)), hawk_field ''ts'' (he_number env (hk_timestamp h)),
                   hawk_field ''nonce'' (hk_nonce h), hawk_field ''mac'' (he_base64 env mac)] @
                  (if hash \<noteq> [] then [hawk_field ''hash'' hash] else [])
     in ''Hawk '' @ join_comma values)"

definition hawk_generate :: "hawk_env \<Rightarrow> hawk_auth \<Rightarrow> url_parts \<Rightarrow> string \<Rightarrow> string \<Rightarrow> bytes \<Rightarrow> string" where
  "hawk_generate env h url method contentType payload =
    (let hash = (if payload \<noteq> [] then hashPayload env payload contentType else [])
     in generateInternal env h url method hash)"

section \<open>What the code of a request covers\<close>

lemma lines_inject:
  assumes "concat (map (\<lambda>f. f @ [c]) xs) = concat (map (\<lambda>f. f @ [c]) ys)"
    and "\<forall>x \<in> set xs. c \<notin> set x" "\<forall>y \<in> set ys. c \<notin> set y"
  shows "xs = ys"
  using assms
proof (induction xs arbitrary: ys)
  case Nil
  then show ?case by (cases ys) simp_all
next
  case (Cons x xs)
  then obtain y ys' where ys: "ys = y # ys'" by (cases ys) simp_all
  have tw: "takeWhile (\<lambda>d. d \<noteq> c) (z @ c # r) = z" if "c \<notin> set z" for z r
    using that by (induction z) auto
  have eq: "x @ c # concat (map (\<lambda>f. f @ [c]) xs) = y @ c # concat (map (\<lambda>f. f @ [c]) ys')"
    using Cons.prems(1) by (simp add: ys)
  then have "x = y" using tw [of x] tw [of y] Cons.prems(2,3) by (metis list.set_intros(1) ys)
  then show ?case using eq Cons.IH [of ys'] Cons.prems(2,3) by (simp add: ys)
qed

lemma nonce_clean: "lf \<notin> set (generateNonce rs)"
proof -
  have "0 < length nonce_range" "lf \<notin> set nonce_range" by (simp_all add: nonce_range_def lf_def)
  then have "nonce_range ! (n mod length nonce_range) \<noteq> lf" for n by (metis mod_less_divisor nth_mem)
  then show ?thesis by (auto simp: generateNonce_def dest: sym)
qed

text \<open>
  The code of a request covers all of it.  Two requests signed with the same normalized header
  have the same time stamp, nonce, method, resource with its query, host, port and payload hash, as
  long as those parts contain no newline and numbers are printed injectively without newlines.
\<close>

theorem hawk_header_covers:
  assumes "hawk_header env h url method hash = hawk_header env h' url' method' hash'"
    and "inj (he_number env)" "\<forall>n. lf \<notin> set (he_number env n)"
    and "\<forall>f \<in> {hk_nonce h, method, hawk_resource url, up_host url, hash,
                hk_nonce h', method', hawk_resource url', up_host url', hash'}. lf \<notin> set f"
  shows "hk_timestamp h = hk_timestamp h' \<and> hk_nonce h = hk_nonce h' \<and> method = method' \<and>
    hawk_resource url = hawk_resource url' \<and> up_host url = up_host url' \<and> hawk_port url = hawk_port url' \<and> hash = hash'"
proof -
  have "[''hawk.1.header'', he_number env (hk_timestamp h), hk_nonce h, method, hawk_resource url, up_host url,
         he_number env (hawk_port url), hash, []] =
        [''hawk.1.header'', he_number env (hk_timestamp h'), hk_nonce h', method', hawk_resource url', up_host url',
         he_number env (hawk_port url'), hash', []]"
    using assms(3,4) by (intro lines_inject [OF assms(1) [unfolded hawk_header_def]]) (auto simp: lf_def)
  then show ?thesis using injD [OF assms(2)] by simp
qed

definition demo_number :: "int \<Rightarrow> string" where
  "demo_number n = (if 0 \<le> n then replicate (nat n) CHR ''1'' else CHR ''-'' # replicate (nat (- n)) CHR ''1'')"

definition demo_hawk_env :: hawk_env where
  "demo_hawk_env = \<lparr>he_hmac = (\<lambda>_ _. replicate 32 0), he_sha256 = (\<lambda>d. d), he_base64 = map (\<lambda>b. char_of (unat b)),
     he_hex = map (\<lambda>b. char_of (unat b)), he_utf8 = map (\<lambda>c. of_nat (of_char c)), he_number = demo_number, he_lower = (\<lambda>x. x)\<rparr>"

lemma demo_number_inj: "inj demo_number"
proof (rule injI)
  fix a b assume eq: "demo_number a = demo_number b"
  have hd: "replicate n CHR ''1'' \<noteq> CHR ''-'' # replicate m CHR ''1''" for n m by (cases n) simp_all
  show "a = b" using eq hd hd [symmetric] by (auto simp: demo_number_def replicate_eq_replicate split: if_splits)
qed

theorem hawk_header_covers_witness:
  "\<exists>url url'. hawk_resource url = hawk_resource url' \<and> hawk_port url = 443 \<and>
     hawk_header demo_hawk_env (hawk_session demo_hawk_env [1] 5 [1, 2, 3, 4, 5, 6]) url ''GET'' [] =
       hawk_header demo_hawk_env (hawk_session demo_hawk_env [1] 5 [1, 2, 3, 4, 5, 6]) url' ''GET'' []"
proof -
  let ?url = "\<lparr>up_scheme = ''https'', up_path = ''/v1/x'', up_query = None, up_host = ''h'', up_port = None\<rparr>"
  let ?url' = "\<lparr>up_scheme = ''https'', up_path = ''/v1/x'', up_query = None, up_host = ''h'', up_port = Some 443\<rparr>"
  let ?h = "hawk_session demo_hawk_env [1] 5 [1, 2, 3, 4, 5, 6]"
  have eq: "hawk_header demo_hawk_env ?h ?url ''GET'' [] = hawk_header demo_hawk_env ?h ?url' ''GET'' []"
    by (simp add: hawk_header_def hawk_resource_def hawk_port_def)
  have "hawk_resource ?url = hawk_resource ?url'"
  proof (rule hawk_header_covers [OF eq, THEN conjunct2, THEN conjunct2, THEN conjunct2, THEN conjunct1])
    show "inj (he_number demo_hawk_env)" by (simp add: demo_hawk_env_def demo_number_inj)
    show "\<forall>n. lf \<notin> set (he_number demo_hawk_env n)" by (simp add: demo_hawk_env_def demo_number_def lf_def)
  qed (use nonce_clean in \<open>simp add: hawk_session_def hawk_resource_def lf_def Let_def\<close>)
  moreover have "hawk_port ?url = 443" by (simp add: hawk_port_def)
  ultimately show ?thesis using eq by blast
qed

end
