(* ===== verification/AuthenticationInApp.thy ===== *)
theory AuthenticationInApp
  imports ErrorHandler HawkAuth Json
begin

text \<open>
  Model of \<^verbatim>\<open>src/src/authenticationinapp\<close>: the in-app authentication as the pair of the object the
  interface talks to (\<^verbatim>\<open>AuthenticationInApp\<close>, its state and its checks) and its session with the
  accounts server (\<^verbatim>\<open>AuthenticationInAppSession\<close>).  A request stays pending until the server's reply
  arrives as an event; replies may come in any order.  JSON text conversion, the password digest and the text codecs are parameters;
  the code that only unit tests compile is left out.
\<close>

datatype aia_state =
    AiaInitializing | AiaStart | AiaCheckingAccount | AiaSignIn | AiaSignUp | AiaSigningIn | AiaSigningUp
  | AiaUnblockCodeNeeded | AiaVerifyingUnblockCode | AiaVerificationSessionByEmailNeeded
  | AiaVerifyingSessionEmailCode | AiaVerificationSessionByTotpNeeded | AiaVerifyingSessionTotpCode
  | AiaIsStubAccount | AiaIsSsoAccount | AiaAccountDeletionRequest | AiaDeletingAccount | AiaFallbackInBrowser

datatype aia_error =
    ErrorAccountAlreadyExists | ErrorEmailCanNotBeUsedToLogin | ErrorEmailTypeNotSupported
  | ErrorFailedToSendEmail | ErrorIncorrectPassword | ErrorInvalidEmailAddress
  | ErrorInvalidOrExpiredVerificationCode | ErrorInvalidUnblockCode | ErrorInvalidTotpCode
  | ErrorTooManyRequests | ErrorServerUnavailable | ErrorConnectionTimeout | ErrorUnknownAccount

datatype session_type = SessionSignIn | SessionSignUp | SessionUndefined

datatype type_authentication = TypeDefault | TypeAccountDeletion | TypeSubscriptionManagement

text \<open>The pending requests: which reply handler waits.  A login keeps its unblock code.\<close>

datatype aia_request =
    ReqParams string | ReqStatus | ReqLogin string | ReqCreate | ReqSendUnblock | ReqVerifyEmail
  | ReqResendCode | ReqVerifyTotp | ReqAttachedClients | ReqDestroyAccount | ReqAuthorization
  | ReqRedirect | ReqSessionDestroy

datatype aia_reply = ReplyOk json | ReplyFailed network_error json

datatype aia_out =
    AiaStateChanged aia_state
  | AiaEmailAddressChanged
  | AiaAttachedClientsChanged
  | AiaErrorOccurred aia_error "32 word"
  | AsGet string
  | AsPost string json_object
  | AsHawk bytes string json_object
  | AsReplied aia_request aia_reply
  | AsCompleted string
  | AsFailed error_type
  | AsAccountDeleted
  | AsFallbackRequired
  | AsTerminated
  | AsTelemetry string

record fxa_params =
  fp_clientId :: string
  fp_deviceId :: string
  fp_state :: string
  fp_scope :: string
  fp_accessType :: string
  fp_flowId :: string
  fp_flowBeginTime :: real

record aia =
  aia_m_state :: aia_state
  aia_session :: bool
  as_type :: type_authentication
  as_sessionType :: session_type
  as_fxaParams :: fxa_params
  as_emailAddress :: string
  as_password :: string
  as_emailAddressCaseFix :: string
  as_originalLogin :: string
  as_sessionToken :: bytes
  as_attachedClients :: "string list"
  as_requests :: "aia_request list"
  aia_out :: "aia_out list"

record aia_env =
  ae_toLower :: "string \<Rightarrow> string"
  ae_utf8 :: "string \<Rightarrow> bytes"
  ae_pbkdf2 :: "bytes \<Rightarrow> bytes \<Rightarrow> bytes"
  ae_hmac :: "bytes \<Rightarrow> bytes \<Rightarrow> bytes"
  ae_toHex :: "bytes \<Rightarrow> string"
  ae_fromHex :: "string \<Rightarrow> bytes"
  ae_percentDecode :: "string \<Rightarrow> string"
  ae_stringToDouble :: "string \<Rightarrow> real"
  ae_authenticationUrl :: "string \<Rightarrow> string"
  ae_inAppAccountCreate :: bool

definition emptyParams :: fxa_params where
  "emptyParams = \<lparr>fp_clientId = [], fp_deviceId = [], fp_state = [], fp_scope = [], fp_accessType = [],
     fp_flowId = [], fp_flowBeginTime = 0\<rparr>"

definition newAia :: "type_authentication \<Rightarrow> aia" where
  "newAia type = \<lparr>aia_m_state = AiaInitializing, aia_session = False, as_type = type, as_sessionType = SessionUndefined,
     as_fxaParams = emptyParams, as_emailAddress = [], as_password = [], as_emailAddressCaseFix = [],
     as_originalLogin = [], as_sessionToken = [], as_attachedClients = [], as_requests = [], aia_out = []\<rparr>"

definition aia_emit :: "aia_out \<Rightarrow> aia \<Rightarrow> aia" where
  "aia_emit x s = s\<lparr>aia_out := aia_out s @ [x]\<rparr>"

definition aia_setState :: "aia_state \<Rightarrow> aia \<Rightarrow> aia" where
  "aia_setState st s = aia_emit (AiaStateChanged st) (s\<lparr>aia_m_state := st\<rparr>)"

definition requestState :: "aia_state \<Rightarrow> aia \<Rightarrow> aia" where
  "requestState st s = aia_setState st s"

definition requestErrorPropagation :: "aia_error \<Rightarrow> 32 word \<Rightarrow> aia \<Rightarrow> aia" where
  "requestErrorPropagation e retryAfter s = aia_emit (AiaErrorOccurred e retryAfter) s"

definition aia_await :: "aia_request \<Rightarrow> aia \<Rightarrow> aia" where
  "aia_await r s = s\<lparr>as_requests := as_requests s @ [r]\<rparr>"

definition aia_record :: "string \<Rightarrow> aia \<Rightarrow> aia" where
  "aia_record event s = (if as_type s = TypeDefault then aia_emit (AsTelemetry event) s else s)"

definition fxaHawkPostRequest :: "string \<Rightarrow> json_object \<Rightarrow> aia_request \<Rightarrow> aia \<Rightarrow> aia" where
  "fxaHawkPostRequest path obj r s = aia_await r (aia_emit (AsHawk (as_sessionToken s) path obj) s)"

definition fxaPostRequest :: "string \<Rightarrow> json_object \<Rightarrow> aia_request \<Rightarrow> aia \<Rightarrow> aia" where
  "fxaPostRequest path obj r s = aia_await r (aia_emit (AsPost path obj) s)"

section \<open>Requests\<close>

definition salt_prefix :: string where
  "salt_prefix = ''identity.mozilla.com/picl/v1/quickStretch:''"

definition generateAuthPw :: "aia_env \<Rightarrow> aia \<Rightarrow> bytes" where
  "generateAuthPw env s =
    (let salt = salt_prefix @ as_emailAddressCaseFix s;
         pbkdf = ae_pbkdf2 env (ae_utf8 env (as_password s)) (ae_utf8 env salt)
     in case hkdf_sha256 (ae_hmac env) [] pbkdf (ae_utf8 env ''identity.mozilla.com/picl/v1/authPW'') 32 of
          None \<Rightarrow> [] | Some key \<Rightarrow> key)"

definition metricsContext :: "aia \<Rightarrow> json" where
  "metricsContext s = JObject
     [(''deviceId'', JString (fp_deviceId (as_fxaParams s))), (''flowId'', JString (fp_flowId (as_fxaParams s))),
      (''flowBeginTime'', JDouble (fp_flowBeginTime (as_fxaParams s)))]"

definition as_start :: "aia_env \<Rightarrow> string \<Rightarrow> aia \<Rightarrow> aia" where
  "as_start env emailAddress s =
     aia_await (ReqParams emailAddress) (aia_emit (AsGet (ae_authenticationUrl env emailAddress)) (s\<lparr>aia_session := True\<rparr>))"

definition as_checkAccount :: "aia_env \<Rightarrow> string \<Rightarrow> aia \<Rightarrow> aia" where
  "as_checkAccount env emailAddress s =
    (let s1 = s\<lparr>as_emailAddress := ae_toLower env emailAddress, as_emailAddressCaseFix := emailAddress\<rparr>;
         s2 = requestState AiaCheckingAccount (aia_emit AiaEmailAddressChanged s1)
     in fxaPostRequest ''/v1/account/status''
          [(''email'', JString (as_emailAddress s2)), (''thirdPartyAuthStatus'', JBool True)] ReqStatus s2)"

definition accountChecked :: "aia_env \<Rightarrow> bool \<Rightarrow> bool \<Rightarrow> bool \<Rightarrow> aia \<Rightarrow> aia" where
  "accountChecked env exists hasPassword hasLinkedAccount s =
    (if exists \<and> hasLinkedAccount \<and> \<not> hasPassword then requestState AiaIsSsoAccount s
     else if exists \<and> \<not> hasPassword then requestState AiaIsStubAccount s
     else if exists then requestState AiaSignIn s
     else if ae_inAppAccountCreate env then requestState AiaSignUp s
     else aia_emit AsFallbackRequired (requestState AiaFallbackInBrowser s))"

definition as_setPassword :: "string \<Rightarrow> aia \<Rightarrow> aia" where
  "as_setPassword password s = s\<lparr>as_password := password\<rparr>"

definition login_object :: "aia_env \<Rightarrow> string \<Rightarrow> aia \<Rightarrow> json_object" where
  "login_object env unblockCode s =
    (let obj = [(''email'', JString (as_emailAddressCaseFix s)), (''authPW'', JString (ae_toHex env (generateAuthPw env s))),
                (''reason'', JString ''signin''), (''service'', JString (fp_clientId (as_fxaParams s))),
                (''skipErrorCase'', JBool True), (''verificationMethod'', JString ''email-otp''),
                (''metricsContext'', metricsContext s)];
         obj = (if as_originalLogin s \<noteq> [] then obj_insert ''originalLoginEmail'' (JString (as_originalLogin s)) obj else obj)
     in if unblockCode \<noteq> [] then obj_insert ''unblockCode'' (JString unblockCode) obj else obj)"

definition signInInternal :: "aia_env \<Rightarrow> string \<Rightarrow> aia \<Rightarrow> aia" where
  "signInInternal env unblockCode s = fxaPostRequest ''/v1/account/login'' (login_object env unblockCode s) (ReqLogin unblockCode) s"

definition as_signIn :: "aia_env \<Rightarrow> string \<Rightarrow> aia \<Rightarrow> aia" where
  "as_signIn env unblockCode s =
     signInInternal env unblockCode
       (requestState AiaSigningIn (aia_record ''login_started'' (s\<lparr>as_sessionType := SessionSignIn\<rparr>)))"

definition as_signUp :: "aia_env \<Rightarrow> aia \<Rightarrow> aia" where
  "as_signUp env s =
    (let s1 = requestState AiaSigningUp (aia_record ''registration_started'' (s\<lparr>as_sessionType := SessionSignUp\<rparr>))
     in fxaPostRequest ''/v1/account/create''
          [(''email'', JString (as_emailAddressCaseFix s1)), (''authPW'', JString (ae_toHex env (generateAuthPw env s1))),
           (''service'', JString (fp_clientId (as_fxaParams s1))), (''verificationMethod'', JString ''email-otp''),
           (''metricsContext'', metricsContext s1)] ReqCreate s1)"

definition sendUnblockCodeEmail :: "aia \<Rightarrow> aia" where
  "sendUnblockCodeEmail s =
     fxaPostRequest ''/v1/account/login/send_unblock_code'' [(''email'', JString (as_emailAddressCaseFix s))] ReqSendUnblock s"

definition unblockCodeNeeded :: "aia \<Rightarrow> aia" where
  "unblockCodeNeeded s = sendUnblockCodeEmail (requestState AiaUnblockCodeNeeded s)"

definition as_verifyUnblockCode :: "aia_env \<Rightarrow> string \<Rightarrow> aia \<Rightarrow> aia" where
  "as_verifyUnblockCode env unblockCode s = signInInternal env unblockCode (requestState AiaVerifyingUnblockCode s)"

text \<open>\<^verbatim>\<open>QString::split\<close> on a blank.\<close>

fun split_blank :: "string \<Rightarrow> string \<Rightarrow> string list" where
  "split_blank acc [] = [acc]"
| "split_blank acc (c # cs) = (if c = CHR '' '' then acc # split_blank [] cs else split_blank (acc @ [c]) cs)"

definition query_scopes :: "aia_env \<Rightarrow> string \<Rightarrow> json list" where
  "query_scopes env scope =
     map (\<lambda>x. JString (if take 4 x = ''http'' then ae_percentDecode env x else x)) (split_blank [] scope)"

definition as_verifySessionEmailCode :: "aia_env \<Rightarrow> string \<Rightarrow> aia \<Rightarrow> aia" where
  "as_verifySessionEmailCode env code s =
    (let s1 = requestState AiaVerifyingSessionEmailCode s
     in fxaHawkPostRequest ''/v1/session/verify_code''
          [(''code'', JString code), (''service'', JString (fp_clientId (as_fxaParams s1))),
           (''scopes'', JArray (query_scopes env (fp_scope (as_fxaParams s1))))] ReqVerifyEmail s1)"

definition as_resendVerificationSessionCodeEmail :: "aia \<Rightarrow> aia" where
  "as_resendVerificationSessionCodeEmail s = fxaHawkPostRequest ''/v1/session/resend_code'' [] ReqResendCode s"

definition as_verifySessionTotpCode :: "string \<Rightarrow> aia \<Rightarrow> aia" where
  "as_verifySessionTotpCode code s =
    (let s1 = requestState AiaVerifyingSessionTotpCode s
     in fxaHawkPostRequest ''/v1/session/verify/totp''
          [(''code'', JString code), (''service'', JString (fp_clientId (as_fxaParams s1))),
           (''scopes'', JArray [JString (fp_scope (as_fxaParams s1))])] ReqVerifyTotp s1)"

definition startAccountDeletionFlow :: "aia \<Rightarrow> aia" where
  "startAccountDeletionFlow s =
     aia_await ReqAttachedClients (aia_emit (AsHawk (as_sessionToken s) ''/v1/account/attached_clients'' []) s)"

definition as_deleteAccount :: "aia_env \<Rightarrow> aia \<Rightarrow> aia" where
  "as_deleteAccount env s =
     aia_emit (AsTelemetry ''delete_account_clicked'')
       (fxaHawkPostRequest ''/v1/account/destroy''
          [(''email'', JString (as_emailAddress s)), (''authPW'', JString (ae_toHex env (generateAuthPw env s)))]
          ReqDestroyAccount s)"

definition finalizeSignInOrUp :: "aia \<Rightarrow> aia" where
  "finalizeSignInOrUp s =
     fxaHawkPostRequest ''/v1/oauth/authorization''
       [(''client_id'', JString (fp_clientId (as_fxaParams s))), (''state'', JString (fp_state (as_fxaParams s))),
        (''scope'', JString (fp_scope (as_fxaParams s))), (''access_type'', JString (fp_accessType (as_fxaParams s)))]
       ReqAuthorization s"

definition signInOrUpCompleted :: "aia_env \<Rightarrow> string \<Rightarrow> bool \<Rightarrow> string \<Rightarrow> aia \<Rightarrow> aia" where
  "signInOrUpCompleted env sessionToken accountVerified verificationMethod s =
    (let s1 = s\<lparr>as_sessionToken := ae_fromHex env sessionToken\<rparr>
     in if \<not> accountVerified then
          (if verificationMethod = ''totp-2fa'' then requestState AiaVerificationSessionByTotpNeeded s1
           else if verificationMethod = ''email-otp'' then requestState AiaVerificationSessionByEmailNeeded s1
           else s1)
        else finalizeSignInOrUp s1)"

definition as_terminate :: "aia \<Rightarrow> aia" where
  "as_terminate s =
    (if as_sessionToken s = [] then aia_emit AsTerminated s
     else fxaHawkPostRequest ''/v1/session/destroy'' [] ReqSessionDestroy s)"

definition as_reset :: "aia \<Rightarrow> aia" where
  "as_reset s = aia_emit AiaEmailAddressChanged
     (s\<lparr>as_sessionToken := [], as_emailAddress := [], as_emailAddressCaseFix := []\<rparr>)"

section \<open>Replies\<close>

definition validation_keys :: "json_object \<Rightarrow> string list" where
  "validation_keys obj =
     map toString (filter isString (toArray (obj_value (toObject (obj_value obj ''validation'')) ''keys'')))"

definition state_error :: "aia_state \<Rightarrow> aia_error \<Rightarrow> aia \<Rightarrow> aia" where
  "state_error st e s = requestErrorPropagation e 0 (requestState st s)"

definition processErrorObject :: "json_object \<Rightarrow> aia \<Rightarrow> aia" where
  "processErrorObject obj s =
    (let errorCode = toInt (obj_value obj ''errno'')
     in if errorCode = 101 then state_error AiaStart ErrorAccountAlreadyExists s
        else if errorCode = 102 then state_error AiaStart ErrorUnknownAccount s
        else if errorCode = 103 then state_error AiaSignIn ErrorIncorrectPassword s
        else if errorCode = 107 then
          (let keys = validation_keys obj
           in if ''unblockCode'' \<in> set keys then state_error AiaUnblockCodeNeeded ErrorInvalidUnblockCode s
              else if ''email'' \<in> set keys then state_error AiaStart ErrorInvalidEmailAddress s
              else if ''code'' \<in> set keys then
                (if aia_m_state s = AiaVerifyingSessionTotpCode
                 then state_error AiaVerificationSessionByTotpNeeded ErrorInvalidTotpCode s
                 else state_error AiaVerificationSessionByEmailNeeded ErrorInvalidOrExpiredVerificationCode s)
              else s)
        else if errorCode = 114 then
          requestErrorPropagation ErrorTooManyRequests (word_of_int (toInt (obj_value obj ''retryAfter'')))
            (requestState (if as_type s = TypeDefault then AiaStart else AiaSignIn) s)
        else if errorCode = 125 then
          (if toString (obj_value obj ''verificationMethod'') = ''email-captcha'' then unblockCodeNeeded s else s)
        else if errorCode = 127 then state_error AiaUnblockCodeNeeded ErrorInvalidUnblockCode s
        else if errorCode = 142 then state_error AiaStart ErrorEmailTypeNotSupported s
        else if errorCode = 149 then state_error AiaStart ErrorEmailCanNotBeUsedToLogin s
        else if errorCode = 151 then state_error AiaSignIn ErrorFailedToSendEmail s
        else if errorCode = 183 then state_error AiaVerificationSessionByEmailNeeded ErrorInvalidOrExpiredVerificationCode s
        else if errorCode = 201 then state_error AiaStart ErrorServerUnavailable s
        else s)"

definition processRequestFailure :: "network_error \<Rightarrow> json \<Rightarrow> aia \<Rightarrow> aia" where
  "processRequestFailure e doc s =
    (if isObject doc then processErrorObject (toObject doc) s else aia_emit (AsFailed (toErrorType e)) s)"

text \<open>The parameters of the flow, stored one by one until one is missing.\<close>

fun get_params :: "(string \<times> (json \<Rightarrow> fxa_params \<Rightarrow> fxa_params)) list \<Rightarrow> json_object \<Rightarrow> fxa_params \<Rightarrow> bool \<times> fxa_params" where
  "get_params [] obj p = (True, p)"
| "get_params ((y, f) # ps) obj p =
    (if \<not> obj_contains obj y then (False, p) else get_params ps obj (f (obj_value obj y) p))"

definition fxa_fields :: "aia_env \<Rightarrow> (string \<times> (json \<Rightarrow> fxa_params \<Rightarrow> fxa_params)) list" where
  "fxa_fields env =
    [(''client_id'', \<lambda>v p. p\<lparr>fp_clientId := toString v\<rparr>), (''device_id'', \<lambda>v p. p\<lparr>fp_deviceId := toString v\<rparr>),
     (''state'', \<lambda>v p. p\<lparr>fp_state := toString v\<rparr>), (''scope'', \<lambda>v p. p\<lparr>fp_scope := toString v\<rparr>),
     (''access_type'', \<lambda>v p. p\<lparr>fp_accessType := toString v\<rparr>), (''flow_id'', \<lambda>v p. p\<lparr>fp_flowId := toString v\<rparr>),
     (''flow_begin_time'', \<lambda>v p. p\<lparr>fp_flowBeginTime := ae_stringToDouble env (toString v)\<rparr>)]"

definition params_reply :: "aia_env \<Rightarrow> string \<Rightarrow> json \<Rightarrow> aia \<Rightarrow> aia" where
  "params_reply env emailAddress doc s =
    (let fxa = obj_value (toObject doc) ''fxa_oauth''; params = obj_value (toObject fxa) ''params''
     in if \<not> isObject fxa then aia_emit (AsFailed AuthenticationError) s
        else if \<not> isObject params then aia_emit (AsFailed AuthenticationError) s
        else case get_params (fxa_fields env) (toObject params) (as_fxaParams s) of
               (ok, p) \<Rightarrow>
                 let s1 = s\<lparr>as_fxaParams := p\<rparr>
                 in if \<not> ok then aia_emit (AsFailed AuthenticationError) s1
                    else if emailAddress = [] then requestState AiaStart s1
                    else as_checkAccount env emailAddress s1)"

definition status_reply :: "aia_env \<Rightarrow> json \<Rightarrow> aia \<Rightarrow> aia" where
  "status_reply env doc s =
    (let obj = toObject doc
     in accountChecked env (toBool (obj_value obj ''exists'')) (toBool (obj_value obj ''hasPassword''))
          (toBool (obj_value obj ''hasLinkedAccount'')) s)"

definition login_failed :: "aia_env \<Rightarrow> string \<Rightarrow> network_error \<Rightarrow> json \<Rightarrow> aia \<Rightarrow> aia" where
  "login_failed env unblockCode e doc s =
    (let email = toString (obj_value (toObject doc) ''email'')
     in if e = TimeoutError then state_error AiaSignIn ErrorConnectionTimeout s
        else if isObject doc \<and> toInt (obj_value (toObject doc) ''errno'') = 120 \<and> email \<noteq> [] then
          signInInternal env unblockCode
            (s\<lparr>as_originalLogin := as_emailAddressCaseFix s, as_emailAddressCaseFix := email\<rparr>)
        else processRequestFailure e doc
               (if unblockCode \<noteq> [] then aia_record ''two_fa_verification_failed:unblock_code'' s else s))"

definition signed_in :: "aia_env \<Rightarrow> json \<Rightarrow> aia \<Rightarrow> aia" where
  "signed_in env doc s =
    (let obj = toObject doc
     in signInOrUpCompleted env (toString (obj_value obj ''sessionToken'')) (toBool (obj_value obj ''verified''))
          (toString (obj_value obj ''verificationMethod'')) s)"

definition totp_reply :: "json \<Rightarrow> aia \<Rightarrow> aia" where
  "totp_reply doc s =
    (if doc = JNull then aia_emit (AsFailed AuthenticationError) s
     else if toBool (obj_value (toObject doc) ''success'')
     then finalizeSignInOrUp (aia_record ''two_fa_verification_succeeded:totp'' s)
     else state_error AiaVerificationSessionByTotpNeeded ErrorInvalidTotpCode
            (aia_record ''two_fa_verification_failed:totp'' s))"

text \<open>The loop over the attached clients; \<^const>\<open>False\<close> when an entry is not an object with a name.\<close>

fun add_clients :: "json list \<Rightarrow> string list \<Rightarrow> bool \<times> string list" where
  "add_clients [] cs = (True, cs)"
| "add_clients (v # vs) cs =
    (let name = obj_value (toObject v) ''name''
     in if \<not> isObject v then (False, cs)
        else if \<not> isString name then (False, cs)
        else if toString name = [] \<or> toString name \<in> set cs then add_clients vs cs
        else add_clients vs (cs @ [toString name]))"

definition clients_reply :: "json \<Rightarrow> aia \<Rightarrow> aia" where
  "clients_reply doc s =
    (if doc = JNull then aia_emit (AsFailed AuthenticationError) s
     else case add_clients (toArray doc) (as_attachedClients s) of
            (ok, cs) \<Rightarrow>
              let s1 = s\<lparr>as_attachedClients := cs\<rparr>
              in if \<not> ok then aia_emit (AsFailed AuthenticationError) s1
                 else requestState AiaAccountDeletionRequest (aia_emit AiaAttachedClientsChanged s1))"

definition authorization_reply :: "json \<Rightarrow> aia \<Rightarrow> aia" where
  "authorization_reply doc s =
    (let obj = toObject doc
     in if doc = JNull \<or> \<not> isString (obj_value obj ''code'') \<or> \<not> isString (obj_value obj ''state'') \<or>
           \<not> isString (obj_value obj ''redirect'')
        then aia_emit (AsFailed AuthenticationError) s
        else aia_await ReqRedirect (aia_emit (AsGet (toString (obj_value obj ''redirect''))) s))"

definition redirect_failed :: "network_error \<Rightarrow> json \<Rightarrow> aia \<Rightarrow> aia" where
  "redirect_failed e doc s =
    (if \<not> isObject doc then aia_emit (AsFailed (toErrorType e)) s else aia_emit (AsFailed AuthenticationError) s)"

definition redirect_reply :: "json \<Rightarrow> aia \<Rightarrow> aia" where
  "redirect_reply doc s =
    (let code = obj_value (toObject doc) ''code''
     in if doc = JNull \<or> \<not> isString code then aia_emit (AsFailed AuthenticationError) s
        else aia_emit (AsCompleted (toString code))
               (case as_sessionType s of
                  SessionSignIn \<Rightarrow> aia_record ''login_ended'' s
                | SessionSignUp \<Rightarrow> aia_record ''registration_completed'' s
                | SessionUndefined \<Rightarrow> s))"

fun as_reply :: "aia_env \<Rightarrow> aia_request \<Rightarrow> aia_reply \<Rightarrow> aia \<Rightarrow> aia" where
  "as_reply env (ReqParams email) (ReplyOk doc) s = params_reply env email doc s"
| "as_reply env (ReqParams email) (ReplyFailed e doc) s =
    (if e \<noteq> OperationCanceledError then processRequestFailure e doc s else s)"
| "as_reply env ReqStatus (ReplyOk doc) s = status_reply env doc s"
| "as_reply env ReqStatus (ReplyFailed e doc) s = processRequestFailure e doc s"
| "as_reply env (ReqLogin unblockCode) (ReplyOk doc) s =
    signed_in env doc (if unblockCode \<noteq> [] then aia_record ''two_fa_verification_succeeded:unblock_code'' s else s)"
| "as_reply env (ReqLogin unblockCode) (ReplyFailed e doc) s = login_failed env unblockCode e doc s"
| "as_reply env ReqCreate (ReplyOk doc) s = signed_in env doc s"
| "as_reply env ReqCreate (ReplyFailed e doc) s = processRequestFailure e doc s"
| "as_reply env ReqSendUnblock (ReplyOk doc) s = s"
| "as_reply env ReqSendUnblock (ReplyFailed e doc) s = processRequestFailure e doc s"
| "as_reply env ReqVerifyEmail (ReplyOk doc) s = finalizeSignInOrUp (aia_record ''two_fa_verification_succeeded:email'' s)"
| "as_reply env ReqVerifyEmail (ReplyFailed e doc) s = processRequestFailure e doc (aia_record ''two_fa_verification_failed:email'' s)"
| "as_reply env ReqResendCode (ReplyOk doc) s = s"
| "as_reply env ReqResendCode (ReplyFailed e doc) s = processRequestFailure e doc s"
| "as_reply env ReqVerifyTotp (ReplyOk doc) s = totp_reply doc s"
| "as_reply env ReqVerifyTotp (ReplyFailed e doc) s = processRequestFailure e doc (aia_record ''two_fa_verification_failed:totp'' s)"
| "as_reply env ReqAttachedClients (ReplyOk doc) s = clients_reply doc s"
| "as_reply env ReqAttachedClients (ReplyFailed e doc) s = processRequestFailure e doc s"
| "as_reply env ReqDestroyAccount r s = aia_emit AsAccountDeleted s"
| "as_reply env ReqAuthorization (ReplyOk doc) s = authorization_reply doc s"
| "as_reply env ReqAuthorization (ReplyFailed e doc) s = processRequestFailure e doc s"
| "as_reply env ReqRedirect (ReplyOk doc) s = redirect_reply doc s"
| "as_reply env ReqRedirect (ReplyFailed e doc) s = redirect_failed e doc s"
| "as_reply env ReqSessionDestroy r s = aia_emit AsTerminated s"

section \<open>Events\<close>

text \<open>
  What the interface calls, with the assertions of \<^verbatim>\<open>AuthenticationInApp\<close> as guards; the reply to the
  \<open>i\<close>th pending request; and the start of the deletion flow, which its task asks for once the
  session is authenticated.
\<close>

datatype aia_event =
    AiaBegin string | UiCheckAccount string | UiReset | UiSetPassword string | UiSignIn | UiSignUp
  | UiVerifyUnblockCode string | UiResendUnblockCode | UiVerifyEmailCode string | UiResendEmailCode
  | UiVerifyTotpCode string | UiDeleteAccount | AiaTerminate | AiaDeletionFlow
  | AiaReply nat aia_reply | AiaDestroyed

definition validatePasswordEmail :: "aia \<Rightarrow> string \<Rightarrow> bool" where
  "validatePasswordEmail s password \<longleftrightarrow> \<not> str_contains (as_emailAddress s) password"

definition aia_reset :: "aia \<Rightarrow> aia" where
  "aia_reset s = as_reset (aia_setState AiaStart s)"

text \<open>The session is destroyed with its pending requests, and the object starts over.\<close>

definition aia_destroyed :: "aia \<Rightarrow> aia" where
  "aia_destroyed s = aia_setState AiaInitializing (s\<lparr>aia_session := False, as_requests := []\<rparr>)"

definition as_take_reply :: "aia_env \<Rightarrow> nat \<Rightarrow> aia_reply \<Rightarrow> aia \<Rightarrow> aia" where
  "as_take_reply env i reply s =
    (let r = as_requests s ! i
     in as_reply env r reply
          (aia_emit (AsReplied r reply) (s\<lparr>as_requests := take i (as_requests s) @ drop (Suc i) (as_requests s)\<rparr>)))"

fun aia_step :: "aia \<Rightarrow> aia_env \<times> aia_event \<Rightarrow> aia" where
  "aia_step s (env, AiaBegin email) = as_start env email s"
| "aia_step s (env, UiCheckAccount email) = as_checkAccount env email s"
| "aia_step s (env, UiReset) = aia_reset s"
| "aia_step s (env, UiSetPassword p) = as_setPassword p s"
| "aia_step s (env, UiSignIn) = as_signIn env [] s"
| "aia_step s (env, UiSignUp) = as_signUp env s"
| "aia_step s (env, UiVerifyUnblockCode c) = as_verifyUnblockCode env c s"
| "aia_step s (env, UiResendUnblockCode) = sendUnblockCodeEmail s"
| "aia_step s (env, UiVerifyEmailCode c) = as_verifySessionEmailCode env c s"
| "aia_step s (env, UiResendEmailCode) = as_resendVerificationSessionCodeEmail s"
| "aia_step s (env, UiVerifyTotpCode c) = as_verifySessionTotpCode c s"
| "aia_step s (env, UiDeleteAccount) = as_deleteAccount env s"
| "aia_step s (env, AiaTerminate) = as_terminate s"
| "aia_step s (env, AiaDeletionFlow) = startAccountDeletionFlow s"
| "aia_step s (env, AiaReply i r) = as_take_reply env i r s"
| "aia_step s (env, AiaDestroyed) = aia_destroyed s"

fun aia_guard :: "aia \<Rightarrow> aia_env \<times> aia_event \<Rightarrow> bool" where
  "aia_guard s (env, AiaBegin email) = (\<not> aia_session s \<and> aia_out s = [])"
| "aia_guard s (env, UiCheckAccount email) =
    (aia_session s \<and> (aia_m_state s = AiaStart \<or> aia_m_state s = AiaIsStubAccount \<or> aia_m_state s = AiaIsSsoAccount))"
| "aia_guard s (env, UiReset) = aia_session s"
| "aia_guard s (env, UiSetPassword p) = (aia_session s \<and> (aia_m_state s = AiaSignIn \<or> aia_m_state s = AiaSignUp))"
| "aia_guard s (env, UiSignIn) = (aia_session s \<and> aia_m_state s = AiaSignIn)"
| "aia_guard s (env, UiSignUp) = (aia_session s \<and> aia_m_state s = AiaSignUp)"
| "aia_guard s (env, UiVerifyUnblockCode c) = (aia_session s \<and> aia_m_state s = AiaUnblockCodeNeeded)"
| "aia_guard s (env, UiResendUnblockCode) = (aia_session s \<and> aia_m_state s = AiaUnblockCodeNeeded)"
| "aia_guard s (env, UiVerifyEmailCode c) = (aia_session s \<and> aia_m_state s = AiaVerificationSessionByEmailNeeded)"
| "aia_guard s (env, UiResendEmailCode) = (aia_session s \<and> aia_m_state s = AiaVerificationSessionByEmailNeeded)"
| "aia_guard s (env, UiVerifyTotpCode c) = (aia_session s \<and> aia_m_state s = AiaVerificationSessionByTotpNeeded)"
| "aia_guard s (env, UiDeleteAccount) = (aia_session s \<and> aia_m_state s = AiaAccountDeletionRequest)"
| "aia_guard s (env, AiaTerminate) = aia_session s"
| "aia_guard s (env, AiaDeletionFlow) =
    (aia_session s \<and> as_type s = TypeAccountDeletion \<and> list_ex (\<lambda>x. case x of AsCompleted c \<Rightarrow> True | _ \<Rightarrow> False) (aia_out s))"
| "aia_guard s (env, AiaReply i r) = (aia_session s \<and> i < length (as_requests s))"
| "aia_guard s (env, AiaDestroyed) = aia_session s"

end
