(* ===== verification/AuthenticationFlow.thy ===== *)
theory AuthenticationFlow
  imports AuthenticationInApp
begin

text \<open>
  Properties of the in-app authentication: what the client knows when it completes, what a reset
  leaves behind, and where an unexpected reply leaves the interface.
\<close>

section \<open>What precedes a completed authentication\<close>

text \<open>
  The evidence the client has of who the user is: a login or an account creation that the server
  says needs no further verification, or the acceptance of a code.
\<close>

fun proves_identity :: "aia_out \<Rightarrow> bool" where
  "proves_identity (AsReplied (ReqLogin u) (ReplyOk doc)) = toBool (obj_value (toObject doc) ''verified'')"
| "proves_identity (AsReplied ReqCreate (ReplyOk doc)) = toBool (obj_value (toObject doc) ''verified'')"
| "proves_identity (AsReplied ReqVerifyEmail (ReplyOk doc)) = True"
| "proves_identity (AsReplied ReqVerifyTotp (ReplyOk doc)) = toBool (obj_value (toObject doc) ''success'')"
| "proves_identity x = False"

fun gives_code :: "string \<Rightarrow> aia_out \<Rightarrow> bool" where
  "gives_code c (AsReplied ReqRedirect (ReplyOk doc)) = (obj_value (toObject doc) ''code'' = JString c)"
| "gives_code c x = False"

definition code_proved :: "aia_out list \<Rightarrow> string \<Rightarrow> bool" where
  "code_proved us c \<longleftrightarrow> (\<exists>x \<in> set us. proves_identity x) \<and> (\<exists>x \<in> set us. gives_code c x)"

definition trace_ok :: "aia_out list \<Rightarrow> bool" where
  "trace_ok tr \<longleftrightarrow> (\<forall>us c vs. tr = us @ AsCompleted c # vs \<longrightarrow> code_proved us c)"

definition aia_inv :: "aia \<Rightarrow> bool" where
  "aia_inv s \<longleftrightarrow> trace_ok (aia_out s) \<and>
     ((ReqAuthorization \<in> set (as_requests s) \<or> ReqRedirect \<in> set (as_requests s)) \<longrightarrow> (\<exists>x \<in> set (aia_out s). proves_identity x))"

lemma trace_ok_append: "trace_ok (tr @ [x]) \<longleftrightarrow> trace_ok tr \<and> (\<forall>c. x = AsCompleted c \<longrightarrow> code_proved tr c)"
proof -
  have split: "(tr @ [x] = us @ AsCompleted c # vs) =
      ((\<exists>ws. vs = ws @ [x] \<and> tr = us @ AsCompleted c # ws) \<or> (vs = [] \<and> x = AsCompleted c \<and> tr = us))" for us c vs
    by (cases vs rule: rev_cases) auto
  show ?thesis unfolding trace_ok_def split by auto
qed

text \<open>Only completion needs evidence, and only the two last requests do.\<close>

fun harmless :: "aia_out \<Rightarrow> bool" where
  "harmless (AsCompleted c) = False"
| "harmless x = True"

lemma aia_emit_fields [simp]:
  "aia_m_state (aia_emit x s) = aia_m_state s" "aia_session (aia_emit x s) = aia_session s" "as_type (aia_emit x s) = as_type s"
  "as_sessionType (aia_emit x s) = as_sessionType s" "as_fxaParams (aia_emit x s) = as_fxaParams s"
  "as_emailAddress (aia_emit x s) = as_emailAddress s" "as_password (aia_emit x s) = as_password s"
  "as_emailAddressCaseFix (aia_emit x s) = as_emailAddressCaseFix s" "as_originalLogin (aia_emit x s) = as_originalLogin s"
  "as_sessionToken (aia_emit x s) = as_sessionToken s" "as_attachedClients (aia_emit x s) = as_attachedClients s"
  "as_requests (aia_emit x s) = as_requests s" "aia_out (aia_emit x s) = aia_out s @ [x]"
  by (simp_all add: aia_emit_def)

lemma aia_inv_emit [inv_intros]: "aia_inv s \<Longrightarrow> harmless x \<Longrightarrow> aia_inv (aia_emit x s)"
  by (auto simp: aia_inv_def trace_ok_append)

lemma aia_inv_fields [simp]:
  "aia_inv (s\<lparr>aia_m_state := a\<rparr>) = aia_inv s" "aia_inv (s\<lparr>aia_session := b\<rparr>) = aia_inv s"
  "aia_inv (s\<lparr>as_sessionType := c\<rparr>) = aia_inv s" "aia_inv (s\<lparr>as_fxaParams := d\<rparr>) = aia_inv s"
  "aia_inv (s\<lparr>as_emailAddress := e\<rparr>) = aia_inv s" "aia_inv (s\<lparr>as_password := e\<rparr>) = aia_inv s"
  "aia_inv (s\<lparr>as_emailAddressCaseFix := e\<rparr>) = aia_inv s" "aia_inv (s\<lparr>as_originalLogin := e\<rparr>) = aia_inv s"
  "aia_inv (s\<lparr>as_sessionToken := f\<rparr>) = aia_inv s" "aia_inv (s\<lparr>as_attachedClients := g\<rparr>) = aia_inv s"
  by (simp_all add: aia_inv_def)

lemma aia_inv_await [inv_intros]:
  "aia_inv s \<Longrightarrow> r \<noteq> ReqAuthorization \<Longrightarrow> r \<noteq> ReqRedirect \<Longrightarrow> aia_inv (aia_await r s)"
  by (auto simp: aia_inv_def aia_await_def)

lemma aia_inv_state [inv_intros]:
  assumes "aia_inv s"
  shows "aia_inv (requestState st s)" "aia_inv (aia_setState st s)" "aia_inv (requestErrorPropagation e r s)"
    "aia_inv (state_error st e s)" "aia_inv (aia_record ev s)"
  using assms aia_inv_emit
  by (simp_all add: requestState_def aia_setState_def requestErrorPropagation_def state_error_def aia_record_def)

lemma aia_inv_post [inv_intros]:
  assumes "aia_inv s" "r \<noteq> ReqAuthorization" "r \<noteq> ReqRedirect"
  shows "aia_inv (fxaPostRequest path obj r s)" "aia_inv (fxaHawkPostRequest path obj r s)"
  using assms by (auto simp: fxaPostRequest_def fxaHawkPostRequest_def intro!: inv_intros)

lemma aia_inv_requests [inv_intros]:
  assumes "aia_inv s"
  shows "aia_inv (as_checkAccount env email s)" "aia_inv (signInInternal env u s)" "aia_inv (as_signIn env u s)"
    "aia_inv (as_signUp env s)" "aia_inv (sendUnblockCodeEmail s)" "aia_inv (unblockCodeNeeded s)"
    "aia_inv (as_verifyUnblockCode env u s)" "aia_inv (as_verifySessionEmailCode env c s)"
    "aia_inv (as_resendVerificationSessionCodeEmail s)" "aia_inv (as_verifySessionTotpCode c s)"
    "aia_inv (startAccountDeletionFlow s)" "aia_inv (as_deleteAccount env s)" "aia_inv (as_terminate s)" "aia_inv (as_reset s)"
    "aia_inv (as_start env email s)" "aia_inv (accountChecked env b1 b2 b3 s)"
proof -
  have m: "aia_inv (signInInternal env u t)" "aia_inv (sendUnblockCodeEmail t)" if "aia_inv t" for t
    using that by (auto simp: signInInternal_def sendUnblockCodeEmail_def intro!: inv_intros)
  then show "aia_inv (signInInternal env u s)" "aia_inv (sendUnblockCodeEmail s)" using assms by simp_all
  show "aia_inv (as_checkAccount env email s)" "aia_inv (as_signUp env s)"
    "aia_inv (as_verifySessionEmailCode env c s)" "aia_inv (as_resendVerificationSessionCodeEmail s)"
    "aia_inv (as_verifySessionTotpCode c s)" "aia_inv (startAccountDeletionFlow s)" "aia_inv (as_deleteAccount env s)"
    "aia_inv (as_terminate s)" "aia_inv (as_reset s)" "aia_inv (as_start env email s)" "aia_inv (accountChecked env b1 b2 b3 s)"
    using assms
    by (auto simp: as_checkAccount_def as_signUp_def as_verifySessionEmailCode_def as_resendVerificationSessionCodeEmail_def
        as_verifySessionTotpCode_def startAccountDeletionFlow_def as_deleteAccount_def as_terminate_def as_reset_def as_start_def
        accountChecked_def Let_def intro!: inv_intros)
  show "aia_inv (as_signIn env u s)" "aia_inv (unblockCodeNeeded s)" "aia_inv (as_verifyUnblockCode env u s)"
    using assms by (auto simp: as_signIn_def unblockCodeNeeded_def as_verifyUnblockCode_def intro!: m inv_intros)
qed

definition identified :: "aia \<Rightarrow> bool" where
  "identified s \<longleftrightarrow> (\<exists>x \<in> set (aia_out s). proves_identity x)"

lemma identified_ops [simp]:
  "identified (aia_emit x s) \<longleftrightarrow> identified s \<or> proves_identity x" "identified (aia_record ev s) = identified s"
  "identified (s\<lparr>as_sessionToken := f\<rparr>) = identified s"
  by (auto simp: identified_def aia_record_def)

lemma finalize_inv: "aia_inv s \<Longrightarrow> identified s \<Longrightarrow> aia_inv (finalizeSignInOrUp s)"
  by (auto simp: finalizeSignInOrUp_def fxaHawkPostRequest_def aia_await_def aia_inv_def trace_ok_append identified_def)

lemma await_identified_inv: "aia_inv s \<Longrightarrow> identified s \<Longrightarrow> aia_inv (aia_await r s)"
  by (auto simp: aia_await_def aia_inv_def identified_def)

lemma processRequestFailure_inv [inv_intros]:
  assumes "aia_inv s"
  shows "aia_inv (processRequestFailure e doc s)"
proof -
  have "aia_inv (processErrorObject obj s)" for obj
    using assms by (simp add: processErrorObject_def Let_def inv_intros)
  then show ?thesis using assms by (simp add: processRequestFailure_def inv_intros)
qed

lemma signed_in_inv:
  assumes "aia_inv s" "toBool (obj_value (toObject doc) ''verified'') \<Longrightarrow> identified s"
  shows "aia_inv (signed_in env doc s)"
  using assms by (auto simp: signed_in_def signInOrUpCompleted_def Let_def intro!: finalize_inv inv_intros)

lemma login_failed_inv [inv_intros]: "aia_inv s \<Longrightarrow> aia_inv (login_failed env u e doc s)"
  by (auto simp: login_failed_def Let_def intro!: inv_intros)

lemma params_reply_inv [inv_intros]: "aia_inv s \<Longrightarrow> aia_inv (params_reply env email doc s)"
  by (auto simp: params_reply_def Let_def split: prod.split intro!: inv_intros)

lemma clients_reply_inv [inv_intros]: "aia_inv s \<Longrightarrow> aia_inv (clients_reply doc s)"
  by (auto simp: clients_reply_def Let_def split: prod.split intro!: inv_intros)

lemma redirect_reply_inv:
  assumes "aia_inv s" "identified s" "AsReplied ReqRedirect (ReplyOk doc) \<in> set (aia_out s)"
  shows "aia_inv (redirect_reply doc s)"
proof -
  have "aia_inv (aia_emit (AsCompleted (toString v)) t)"
    if "aia_inv t" "identified t" "AsReplied ReqRedirect (ReplyOk doc) \<in> set (aia_out t)" "v = obj_value (toObject doc) ''code''" "isString v"
    for t v
  proof -
    have "\<exists>c. v = JString c" using that by (simp add: isString_iff)
    then obtain c where "v = JString c" ..
    then have "gives_code (toString v) (AsReplied ReqRedirect (ReplyOk doc))" using that by simp
    then have "\<exists>x \<in> set (aia_out t). gives_code (toString v) x" using that by blast
    then show ?thesis using that by (auto simp: aia_inv_def trace_ok_append code_proved_def identified_def)
  qed
  then show ?thesis using assms aia_inv_state(5) [OF assms(1)]
    by (auto simp: redirect_reply_def Let_def aia_record_def split: session_type.split intro!: inv_intros)
qed

lemma as_reply_inv:
  assumes "aia_inv s" "r = ReqAuthorization \<or> r = ReqRedirect \<Longrightarrow> identified s" "AsReplied r reply \<in> set (aia_out s)"
  shows "aia_inv (as_reply env r reply s)"
proof -
  have id: "identified s" if "proves_identity (AsReplied r reply)" using that assms(3) by (auto simp: identified_def)
  show ?thesis
  proof (cases "(env, r, reply, s)" rule: as_reply.cases)
    case (5 env' u doc t)
    then show ?thesis using assms id by (auto intro!: signed_in_inv inv_intros)
  next
    case (7 env' doc t)
    then show ?thesis using assms id by (auto intro!: signed_in_inv inv_intros)
  next
    case (11 env' doc t)
    then show ?thesis using assms id by (auto intro!: finalize_inv inv_intros)
  next
    case (15 env' doc t)
    then show ?thesis using assms id by (auto simp: totp_reply_def intro!: finalize_inv inv_intros)
  next
    case (20 env' doc t)
    then show ?thesis using assms
      by (auto simp: authorization_reply_def Let_def intro!: await_identified_inv inv_intros)
  next
    case (22 env' doc t)
    then show ?thesis using assms by (auto intro!: redirect_reply_inv)
  qed (use assms in \<open>auto simp: status_reply_def redirect_failed_def Let_def intro!: inv_intros\<close>)
qed

lemma as_take_reply_inv:
  assumes "aia_inv s" "i < length (as_requests s)"
  shows "aia_inv (as_take_reply env i reply s)"
proof -
  let ?r = "as_requests s ! i"
  let ?t = "s\<lparr>as_requests := take i (as_requests s) @ drop (Suc i) (as_requests s)\<rparr>"
  have "set (as_requests ?t) \<subseteq> set (as_requests s)" by (auto dest: in_set_takeD in_set_dropD)
  then have inv: "aia_inv ?t" using assms(1) by (auto simp: aia_inv_def)
  have "?r \<in> set (as_requests s)" using assms(2) by simp
  then have "identified (aia_emit (AsReplied ?r reply) ?t)" if "?r = ReqAuthorization \<or> ?r = ReqRedirect"
    using assms(1) that unfolding aia_inv_def identified_def by auto
  then show ?thesis unfolding as_take_reply_def Let_def
    by (intro as_reply_inv aia_inv_emit inv) simp_all
qed

interpretation aia: transition_system "\<lambda>s. \<exists>type. s = newAia type" aia_step aia_guard aia_inv
proof
  show "aia_inv s" if "\<exists>type. s = newAia type" for s
    using that by (auto simp: newAia_def aia_inv_def trace_ok_def)
  show "aia_inv (aia_step s e)" if "aia_inv s" "aia_guard s e" for s e
  proof -
    have "aia_inv (s\<lparr>aia_session := False, as_requests := []\<rparr>)" using that(1) by (simp add: aia_inv_def)
    then have "aia_inv (aia_destroyed s)" by (simp add: aia_destroyed_def inv_intros)
    then show ?thesis using that
      by (cases "(s, e)" rule: aia_step.cases)
        (auto simp: aia_reset_def as_setPassword_def intro!: inv_intros as_take_reply_inv)
  qed
qed

section \<open>Properties\<close>

text \<open>
  C12: No authentication without proof.  In every run, whatever the server replies and in whatever
  order, the session reports a completed authentication only with a code that a reply to its last
  request carried, and only after a login or creation that needs no further verification, an
  accepted email code or an accepted one-time password.
\<close>

theorem completed_is_proved:
  assumes "aia.reach s" "aia_out s = us @ AsCompleted code # vs"
  shows "(\<exists>doc. AsReplied ReqRedirect (ReplyOk doc) \<in> set us \<and> obj_value (toObject doc) ''code'' = JString code) \<and>
    (\<exists>x \<in> set us. proves_identity x)"
proof -
  have "code_proved us code" using aia.reach_inv [OF assms(1)] assms(2) by (simp add: aia_inv_def trace_ok_def)
  moreover have "\<exists>doc. x = AsReplied ReqRedirect (ReplyOk doc) \<and> obj_value (toObject doc) ''code'' = JString code"
    if "gives_code code x" for x
    using that by (cases "(code, x)" rule: gives_code.cases) auto
  ultimately show ?thesis unfolding code_proved_def by blast
qed

definition demo_aia_env :: aia_env where
  "demo_aia_env = \<lparr>ae_toLower = (\<lambda>x. if x = ''A@b.c'' then ''a@b.c'' else x),
     ae_utf8 = map (\<lambda>c. of_nat (of_char c)), ae_pbkdf2 = (\<lambda>p s. p @ s), ae_hmac = (\<lambda>k d. replicate 32 7),
     ae_toHex = map (\<lambda>b. char_of (unat b)), ae_fromHex = map (\<lambda>c. of_nat (of_char c)), ae_percentDecode = (\<lambda>x. x),
     ae_stringToDouble = (\<lambda>_. 0), ae_authenticationUrl = (\<lambda>_. ''url''), ae_inAppAccountCreate = True\<rparr>"

definition demo_params :: json where
  "demo_params = JObject [(''fxa_oauth'', JObject [(''params'', JObject
     (map (\<lambda>k. (k, JString ''x'')) [''client_id'', ''device_id'', ''state'', ''scope'', ''access_type'', ''flow_id'', ''flow_begin_time'']))])]"

definition demo_login :: "aia_event list" where
  "demo_login = [AiaBegin [], AiaReply 0 (ReplyOk demo_params), UiCheckAccount ''A@b.c'',
     AiaReply 0 (ReplyOk (JObject [(''exists'', JBool True), (''hasPassword'', JBool True)])), UiSetPassword ''pw'', UiSignIn]"

definition demo_verified :: json where
  "demo_verified = JObject [(''sessionToken'', JString ''T''), (''verified'', JBool True)]"

definition demo_finish :: "aia_event list" where
  "demo_finish = [AiaReply 0 (ReplyOk demo_verified),
     AiaReply 0 (ReplyOk (JObject [(''code'', JString ''c''), (''state'', JString ''x''), (''redirect'', JString ''r'')])),
     AiaReply 0 (ReplyOk (JObject [(''code'', JString ''42'')]))]"

definition aia_run :: "aia_event list \<Rightarrow> aia" where
  "aia_run es = foldl (\<lambda>s e. aia_step s (demo_aia_env, e)) (newAia TypeDefault) es"

fun aia_enabled :: "aia \<Rightarrow> aia_event list \<Rightarrow> bool" where
  "aia_enabled s [] = True"
| "aia_enabled s (e # es) = (aia_guard s (demo_aia_env, e) \<and> aia_enabled (aia_step s (demo_aia_env, e)) es)"

lemma aia_run_reach:
  assumes "aia_enabled (newAia TypeDefault) es"
  shows "aia.reach (aia_run es)"
proof -
  have "aia.reach (foldl (\<lambda>s e. aia_step s (demo_aia_env, e)) s es)" if "aia.reach s" "aia_enabled s es" for s
    using that by (induction es arbitrary: s) (auto intro: aia.reach_step)
  then show ?thesis using assms unfolding aia_run_def by (metis aia.reach_init)
qed

lemmas demo_run_simps = demo_login_def demo_finish_def demo_verified_def demo_params_def

lemma demo_login_state:
  "aia_enabled (newAia TypeDefault) demo_login" "aia_m_state (aia_run demo_login) = AiaSigningIn"
  "as_requests (aia_run demo_login) = [ReqLogin []]" "as_type (aia_run demo_login) = TypeDefault"
  "aia_session (aia_run demo_login)"
  by code_simp+

theorem completed_is_proved_witness:
  "\<exists>us vs. aia_out (aia_run (demo_login @ demo_finish)) = us @ AsCompleted ''42'' # vs \<and> (\<exists>x \<in> set us. proves_identity x)"
proof -
  let ?s = "aia_run (demo_login @ demo_finish)"
  have r: "aia.reach ?s" by (rule aia_run_reach) code_simp
  have "AsCompleted ''42'' \<in> set (aia_out ?s)" by code_simp
  then obtain us vs where out: "aia_out ?s = us @ AsCompleted ''42'' # vs" by (meson split_list)
  show ?thesis using completed_is_proved [OF r out] out by blast
qed

text \<open>
  C26: A reset does not stop a sign-in under way.  The reset clears the session token and the email
  address, but the login request stays pending and so does the address a former login was corrected
  from: when the reply for the old account arrives after the user has moved on to another address,
  the session takes the old account's token and asks for its authorization while the interface
  shows the new address; and the next login sends the old address along.
\<close>

theorem reset_keeps_login:
  assumes "aia.reach s" "as_requests s = [ReqLogin u]" "toBool (obj_value (toObject doc) ''verified'')"
    and "t = aia_step (aia_step s (env, UiReset)) (env, UiCheckAccount email)"
  shows "aia_guard t (env, AiaReply 0 (ReplyOk doc)) = aia_session s \<and>
    (let t' = aia_step t (env, AiaReply 0 (ReplyOk doc))
     in as_emailAddress t' = ae_toLower env email \<and>
        as_sessionToken t' = ae_fromHex env (toString (obj_value (toObject doc) ''sessionToken'')) \<and>
        last (as_requests t') = ReqAuthorization) \<and>
    (as_originalLogin s \<noteq> [] \<longrightarrow>
       obj_value (login_object env u' t) ''originalLoginEmail'' = JString (as_originalLogin s))"
proof -
  have t: "as_requests t = [ReqLogin u, ReqStatus]" "as_emailAddress t = ae_toLower env email"
    "as_originalLogin t = as_originalLogin s" "aia_session t = aia_session s"
    using assms(2)
    by (simp_all add: assms(4) aia_reset_def as_reset_def as_checkAccount_def fxaPostRequest_def aia_await_def
        requestState_def aia_setState_def Let_def)
  have "obj_value (login_object env u' t) ''originalLoginEmail'' = JString (as_originalLogin s)" if "as_originalLogin s \<noteq> []"
    using that by (simp add: login_object_def t(3) Let_def)
  then show ?thesis using t assms(3)
    by (auto simp: as_take_reply_def signed_in_def signInOrUpCompleted_def finalizeSignInOrUp_def fxaHawkPostRequest_def
        aia_await_def aia_record_def Let_def)
qed

theorem reset_keeps_login_witness:
  "let t = aia_run (demo_login @ [UiReset, UiCheckAccount ''x@y.z'', AiaReply 0 (ReplyOk demo_verified)])
   in as_emailAddress t = ''x@y.z'' \<and> as_sessionToken t = [84] \<and> last (as_requests t) = ReqAuthorization"
proof -
  let ?s = "aia_run demo_login"
  let ?t = "aia_step (aia_step ?s (demo_aia_env, UiReset)) (demo_aia_env, UiCheckAccount ''x@y.z'')"
  have r: "aia.reach ?s" using demo_login_state(1) by (rule aia_run_reach)
  have v: "toBool (obj_value (toObject demo_verified) ''verified'')" by code_simp
  have tok: "ae_toLower demo_aia_env ''x@y.z'' = ''x@y.z''"
    "ae_fromHex demo_aia_env (toString (obj_value (toObject demo_verified) ''sessionToken'')) = [84]"
    by code_simp+
  have run: "aia_run (demo_login @ [UiReset, UiCheckAccount ''x@y.z'', AiaReply 0 (ReplyOk demo_verified)]) =
      aia_step ?t (demo_aia_env, AiaReply 0 (ReplyOk demo_verified))"
    by (simp add: aia_run_def)
  show ?thesis
    using reset_keeps_login [OF r demo_login_state(3) v refl, of demo_aia_env "''x@y.z''"]
    unfolding run Let_def tok by blast
qed

text \<open>The errors the session knows, as the codes of the accounts server.\<close>

definition known_errnos :: "int set" where
  "known_errnos = {101, 102, 103, 107, 114, 120, 125, 127, 142, 149, 151, 183, 201}"

definition ui_action :: "aia_event \<Rightarrow> bool" where
  "ui_action e = (case e of AiaReply i r \<Rightarrow> True | UiCheckAccount x \<Rightarrow> True | UiSetPassword x \<Rightarrow> True | UiSignIn \<Rightarrow> True
     | UiSignUp \<Rightarrow> True | UiVerifyUnblockCode x \<Rightarrow> True | UiResendUnblockCode \<Rightarrow> True | UiVerifyEmailCode x \<Rightarrow> True
     | UiResendEmailCode \<Rightarrow> True | UiVerifyTotpCode x \<Rightarrow> True | UiDeleteAccount \<Rightarrow> True | _ \<Rightarrow> False)"

text \<open>
  An unknown error leaves the interface waiting.  When a sign-in fails with an error object whose
  number the session does not know (or with none at all), the state stays at signing in, no failure
  and no error is reported, and as no request is pending nothing but a reset or the end of the
  session can move the interface on.
\<close>

theorem unknown_error_stuck:
  assumes "aia_m_state s = AiaSigningIn" "as_requests s = [ReqLogin []]" "e \<noteq> TimeoutError"
    and "toInt (obj_value obj ''errno'') \<notin> known_errnos"
    and "t = aia_step s (env, AiaReply 0 (ReplyFailed e (JObject obj)))"
  shows "aia_m_state t = AiaSigningIn \<and> aia_out t = aia_out s @ [AsReplied (ReqLogin []) (ReplyFailed e (JObject obj))] \<and>
    (\<forall>ev. ui_action ev \<longrightarrow> \<not> aia_guard t (env, ev))"
proof -
  have "processErrorObject obj q = q" for q
    using assms(4) by (simp add: processErrorObject_def known_errnos_def Let_def)
  then have t: "t = aia_emit (AsReplied (ReqLogin []) (ReplyFailed e (JObject obj))) (s\<lparr>as_requests := []\<rparr>)"
    using assms(2-4) by (simp add: assms(5) as_take_reply_def login_failed_def processRequestFailure_def known_errnos_def Let_def)
  then have "\<not> aia_guard t (env, ev)" if "ui_action ev" for ev
    using that assms(1) by (cases ev) (simp_all add: ui_action_def)
  then show ?thesis using t assms(1) by simp
qed

theorem unknown_error_stuck_witness:
  "let t = aia_run (demo_login @ [AiaReply 0 (ReplyFailed UnknownContentError (JObject [(''errno'', JDouble 126)]))])
   in aia_m_state t = AiaSigningIn \<and> \<not> aia_guard t (demo_aia_env, UiSignIn)"
proof -
  let ?r = "ReplyFailed UnknownContentError (JObject [(''errno'', JDouble 126)])"
  let ?t = "aia_run (demo_login @ [AiaReply 0 ?r])"
  have e: "toInt (obj_value [(''errno'', JDouble 126)] ''errno'') \<notin> known_errnos"
    by (simp add: obj_value_def toInt_def known_errnos_def)
  have t: "?t = aia_step (aia_run demo_login) (demo_aia_env, AiaReply 0 ?r)" by (simp add: aia_run_def)
  show ?thesis
    using unknown_error_stuck [OF demo_login_state(2,3) _ e t]
    by (simp add: Let_def ui_action_def)
qed

end
