(* ===== verification/EmailValidation.thy ===== *)
theory EmailValidation
  imports Prelude
begin

text \<open>
  Model of \<^verbatim>\<open>AuthenticationInApp::validateEmailAddress\<close>, \<^verbatim>\<open>validatePasswordLength\<close>,
  \<^verbatim>\<open>validatePasswordCommons\<close> and of \<^verbatim>\<open>src/src/authenticationinapp/incrementaldecoder.cpp\<close>.  The regular
  expressions of the source are syntax here, with a matcher that lists the rests a match can leave;
  \<^verbatim>\<open>$\<close> also matches before a final newline, as it does in PCRE.  The conversion of a domain to ASCII
  is a parameter.  Characters are bytes: texts with characters above 255 are outside the model.  Among
  those the source, whose patterns ignore case in Unicode mode, also takes the Kelvin sign (U+212A)
  and the long s (U+017F), which fold to k and s, for letters of a local part.
\<close>

section \<open>Regular expressions\<close>

datatype regex = Chars string | Seq regex regex | Opt regex | Rep nat nat regex | Plus regex

text \<open>\<^verbatim>\<open>r{m,n}\<close> and \<^verbatim>\<open>r+\<close>, given the rests of \<open>r\<close>; the fuel of the latter is the length of the input.\<close>

fun rep_rests :: "(string \<Rightarrow> string list) \<Rightarrow> nat \<Rightarrow> nat \<Rightarrow> string \<Rightarrow> string list" where
  "rep_rests f m 0 s = (if m = 0 then [s] else [])"
| "rep_rests f m (Suc n) s = concat (map (rep_rests f (m - 1) n) (f s)) @ (if m = 0 then [s] else [])"

fun plus_rests :: "(string \<Rightarrow> string list) \<Rightarrow> nat \<Rightarrow> string \<Rightarrow> string list" where
  "plus_rests f 0 s = f s"
| "plus_rests f (Suc n) s = concat (map (plus_rests f n) (filter (\<lambda>t. length t < length s) (f s))) @ f s"

fun rests :: "regex \<Rightarrow> string \<Rightarrow> string list" where
  "rests (Chars cs) s = (case s of [] \<Rightarrow> [] | c # t \<Rightarrow> if c \<in> set cs then [t] else [])"
| "rests (Seq r q) s = concat (map (rests q) (rests r s))"
| "rests (Opt r) s = rests r s @ [s]"
| "rests (Rep m n r) s = rep_rests (rests r) m n s"
| "rests (Plus r) s = plus_rests (rests r) (length s) s"

definition newline_char :: char where "newline_char = CHR 0x0A"

text \<open>\<^verbatim>\<open>^r$\<close>\<close>

definition hasMatch :: "regex \<Rightarrow> string \<Rightarrow> bool" where
  "hasMatch r s \<longleftrightarrow> list_ex (\<lambda>t. t = [] \<or> t = [newline_char]) (rests r s)"

section \<open>Email addresses and passwords\<close>

definition alnum_chars :: string where
  "alnum_chars = ''ABCDEFGHIJKLMNOPQRSTUVWXYZabcdefghijklmnopqrstuvwxyz0123456789''"

definition local_chars :: string where
  "local_chars = alnum_chars @ ''.!#$%&*+/=?^_{|}~-'' @ [CHR 0x27, CHR 0x60]"

definition emailRE :: regex where
  "emailRE = Rep 1 64 (Chars local_chars)"

definition labelRE :: regex where
  "labelRE = Seq (Chars alnum_chars) (Opt (Seq (Rep 0 253 (Chars (alnum_chars @ ''-''))) (Chars alnum_chars)))"

definition domainRE :: regex where
  "domainRE = Seq labelRE (Plus (Seq (Chars ''.'') labelRE))"

fun split_at :: "string \<Rightarrow> string \<Rightarrow> string list" where
  "split_at acc [] = [acc]"
| "split_at acc (c # cs) = (if c = CHR ''@'' then acc # split_at [] cs else split_at (acc @ [c]) cs)"

definition validateEmailAddress :: "(string \<Rightarrow> string) \<Rightarrow> string \<Rightarrow> bool" where
  "validateEmailAddress toAce emailAddress =
    (if emailAddress = [] then False
     else let parts = split_at [] emailAddress
       in if length parts \<noteq> 2 \<or> length (parts ! 1) > 255 then False
          else if \<not> hasMatch emailRE (parts ! 0) then False
          else if \<not> hasMatch domainRE (toAce (parts ! 1)) then False
          else True)"

definition PASSWORD_MIN_LENGTH :: nat where "PASSWORD_MIN_LENGTH = 8"

definition validatePasswordLength :: "string \<Rightarrow> bool" where
  "validatePasswordLength password \<longleftrightarrow> length password \<ge> PASSWORD_MIN_LENGTH"

section \<open>The encoded list of common passwords\<close>

datatype match_result = MatchNotFound | MatchFound | DecodeFailure

text \<open>\<^verbatim>\<open>QString::toInt(&ok, 36)\<close> of one character.\<close>

definition radix36 :: "char \<Rightarrow> nat option" where
  "radix36 c =
    (let n = of_char c :: nat
     in if 48 \<le> n \<and> n \<le> 57 then Some (n - 48)
        else if 65 \<le> n \<and> n \<le> 90 then Some (n - 55)
        else if 97 \<le> n \<and> n \<le> 122 then Some (n - 87) else None)"

fun decoder_match :: "nat \<Rightarrow> string \<Rightarrow> string list \<Rightarrow> string \<Rightarrow> match_result" where
  "decoder_match index prev [] input = MatchNotFound"
| "decoder_match index prev (line # lines) input =
    (case line of
       [] \<Rightarrow> DecodeFailure
     | ch # rest \<Rightarrow>
         (case radix36 ch of
            None \<Rightarrow> DecodeFailure
          | Some numShared \<Rightarrow>
              if index = 0 \<and> numShared \<noteq> 0 then DecodeFailure
              else let decoded = (if numShared \<noteq> 0 then take numShared prev @ rest else rest)
                in if decoded = input then MatchFound else decoder_match (index + 1) decoded lines input))"

text \<open>The lines of the resource, \<^const>\<open>None\<close> when it cannot be opened.\<close>

definition validatePasswordCommons :: "string list option \<Rightarrow> string \<Rightarrow> bool" where
  "validatePasswordCommons lines password =
    (if \<not> validatePasswordLength password then True
     else case lines of
            None \<Rightarrow> True
          | Some ls \<Rightarrow> (case decoder_match 0 [] ls password of
                          MatchNotFound \<Rightarrow> True | MatchFound \<Rightarrow> False | DecodeFailure \<Rightarrow> True))"

section \<open>The matcher and its language\<close>

fun power_lang :: "string set \<Rightarrow> nat \<Rightarrow> string set" where
  "power_lang L 0 = {[]}"
| "power_lang L (Suc n) = {u @ v |u v. u \<in> L \<and> v \<in> power_lang L n}"

fun lang :: "regex \<Rightarrow> string set" where
  "lang (Chars cs) = {[c] |c. c \<in> set cs}"
| "lang (Seq r q) = {u @ v |u v. u \<in> lang r \<and> v \<in> lang q}"
| "lang (Opt r) = insert [] (lang r)"
| "lang (Rep m n r) = (\<Union>k \<in> {m..n}. power_lang (lang r) k)"
| "lang (Plus r) = (\<Union>k. power_lang (lang r) (Suc k))"

definition splits :: "string set \<Rightarrow> string \<Rightarrow> string set" where
  "splits L s = {t. \<exists>u \<in> L. s = u @ t}"

lemma splits_seq: "splits {u @ v |u v. u \<in> A \<and> v \<in> B} s = (\<Union>t \<in> splits A s. splits B t)"
  by (auto simp: splits_def) (metis append_assoc)+

lemma rep_rests_lang:
  assumes "\<And>s. set (f s) = splits L s"
  shows "set (rep_rests f m n s) = splits (\<Union>k \<in> {m..n}. power_lang L k) s"
proof (induction n arbitrary: m s)
  case 0
  then show ?case by (auto simp: splits_def)
next
  case (Suc n)
  have "(\<Union>k \<in> {m..Suc n}. power_lang L k) =
      {u @ v |u v. u \<in> L \<and> v \<in> (\<Union>k \<in> {m - 1..n}. power_lang L k)} \<union> (if m = 0 then {[]} else {})"
    (is "?A = ?B")
  proof (rule set_eqI)
    fix w
    have "w \<in> ?A \<longleftrightarrow> (\<exists>k. m \<le> k \<and> k \<le> Suc n \<and> w \<in> power_lang L k)" by auto
    also have "\<dots> \<longleftrightarrow> (m = 0 \<and> w = []) \<or> (\<exists>k. m - 1 \<le> k \<and> k \<le> n \<and> w \<in> power_lang L (Suc k))"
    proof
      assume "\<exists>k. m \<le> k \<and> k \<le> Suc n \<and> w \<in> power_lang L k"
      then obtain k where k: "m \<le> k" "k \<le> Suc n" "w \<in> power_lang L k" by blast
      then show "(m = 0 \<and> w = []) \<or> (\<exists>k. m - 1 \<le> k \<and> k \<le> n \<and> w \<in> power_lang L (Suc k))"
        by (cases k) auto
    next
      assume "(m = 0 \<and> w = []) \<or> (\<exists>k. m - 1 \<le> k \<and> k \<le> n \<and> w \<in> power_lang L (Suc k))"
      moreover have "\<exists>k. m \<le> k \<and> k \<le> Suc n \<and> w \<in> power_lang L k" if "m - 1 \<le> k" "k \<le> n" "w \<in> power_lang L (Suc k)" for k
        using that by (intro exI [of _ "Suc k"]) (auto simp del: power_lang.simps)
      moreover have "\<exists>k. m \<le> k \<and> k \<le> Suc n \<and> w \<in> power_lang L k" if "m = 0" "w = []"
        using that by (intro exI [of _ 0]) simp
      ultimately show "\<exists>k. m \<le> k \<and> k \<le> Suc n \<and> w \<in> power_lang L k" by blast
    qed
    also have "\<dots> \<longleftrightarrow> w \<in> ?B" by (auto; fastforce)
    finally show "w \<in> ?A \<longleftrightarrow> w \<in> ?B" .
  qed
  moreover have "splits (A \<union> B) s = splits A s \<union> splits B s" for A B by (auto simp: splits_def)
  moreover have "splits (if m = 0 then {[]} else {}) s = set (if m = 0 then [s] else [])" by (auto simp: splits_def)
  moreover have "set (rep_rests f m (Suc n) s) = (\<Union>t \<in> set (f s). set (rep_rests f (m - 1) n t)) \<union> set (if m = 0 then [s] else [])"
    by simp
  ultimately show ?case unfolding Suc.IH assms splits_seq [symmetric] by simp
qed

lemma power_lang_nonempty: "[] \<notin> L \<Longrightarrow> w \<in> power_lang L (Suc k) \<Longrightarrow> w \<noteq> []"
  by auto

lemma plus_lang_unfold:
  "(\<Union>k. power_lang L (Suc k)) = L \<union> {u @ v |u v. u \<in> L \<and> v \<in> (\<Union>k. power_lang L (Suc k))}" (is "?P = ?Q")
proof
  show "?P \<subseteq> ?Q"
  proof
    fix w assume "w \<in> ?P"
    then obtain k where k: "w \<in> power_lang L (Suc k)" by blast
    show "w \<in> ?Q"
    proof (cases k)
      case (Suc j)
      then obtain u v where "w = u @ v" "u \<in> L" "v \<in> power_lang L (Suc j)" using k by auto
      then show ?thesis by blast
    qed (use k in simp)
  qed
  show "?Q \<subseteq> ?P"
  proof
    fix w assume "w \<in> ?Q"
    moreover have "w \<in> power_lang L (Suc 0)" if "w \<in> L" using that by simp
    moreover have "u @ v \<in> power_lang L (Suc (Suc k))" if "u \<in> L" "v \<in> power_lang L (Suc k)" for u v k
      using that by (simp only: power_lang.simps) blast
    ultimately show "w \<in> ?P" by blast
  qed
qed

lemma plus_rests_lang:
  assumes "\<And>s. set (f s) = splits L s" "[] \<notin> L"
  shows "length s \<le> n \<Longrightarrow> set (plus_rests f n s) = splits (\<Union>k. power_lang L (Suc k)) s"
proof (induction n arbitrary: s)
  case 0
  have "[] \<notin> (\<Union>k. power_lang L (Suc k))" using power_lang_nonempty [OF assms(2)] by blast
  moreover have "splits M [] = {}" if "[] \<notin> M" for M :: "string set" using that by (auto simp: splits_def)
  ultimately show ?case using 0 assms by simp
next
  case (Suc n)
  let ?P = "\<Union>k. power_lang L (Suc k)"
  have shorter: "length t < length s" if t: "t \<in> splits L s" for t
  proof -
    obtain u where "u \<in> L" "s = u @ t" using t by (auto simp: splits_def)
    then show ?thesis using assms(2) by (cases u) auto
  qed
  have "set (plus_rests f (Suc n) s) = (\<Union>t \<in> {t \<in> splits L s. length t < length s}. set (plus_rests f n t)) \<union> splits L s"
    by (simp add: assms(1))
  also have "{t \<in> splits L s. length t < length s} = splits L s" using shorter by blast
  also have "(\<Union>t \<in> splits L s. set (plus_rests f n t)) = (\<Union>t \<in> splits L s. splits ?P t)"
  proof (rule SUP_cong [OF refl])
    fix t assume "t \<in> splits L s"
    then have "length t \<le> n" using shorter [of t] Suc.prems by simp
    then show "set (plus_rests f n t) = splits ?P t" by (rule Suc.IH)
  qed
  also have "\<dots> = splits {u @ v |u v. u \<in> L \<and> v \<in> ?P} s" by (rule splits_seq [symmetric])
  also have "\<dots> \<union> splits L s = splits (L \<union> {u @ v |u v. u \<in> L \<and> v \<in> ?P}) s" by (auto simp: splits_def)
  also have "\<dots> = splits ?P s" unfolding plus_lang_unfold [of L, symmetric] ..
  finally show ?case .
qed

fun plus_ok :: "regex \<Rightarrow> bool" where
  "plus_ok (Chars cs) = True"
| "plus_ok (Seq r q) = (plus_ok r \<and> plus_ok q)"
| "plus_ok (Opt r) = plus_ok r"
| "plus_ok (Rep m n r) = plus_ok r"
| "plus_ok (Plus r) = (plus_ok r \<and> [] \<notin> lang r)"

text \<open>The rests of a match are what is left after a word of the language.\<close>

lemma rests_lang: "plus_ok r \<Longrightarrow> set (rests r s) = splits (lang r) s"
proof (induction r arbitrary: s)
  case (Chars cs)
  then show ?case by (cases s) (auto simp: splits_def)
next
  case (Seq r q)
  then show ?case by (simp add: splits_seq)
next
  case (Opt r)
  then show ?case by (auto simp: splits_def)
next
  case (Rep m n r)
  then show ?case by (simp add: rep_rests_lang)
next
  case (Plus r)
  then show ?case using plus_rests_lang [of "rests r" "lang r" s "length s"] by simp
qed

lemma hasMatch_lang:
  assumes "plus_ok r"
  shows "hasMatch r s \<longleftrightarrow> s \<in> lang r \<or> (\<exists>u. s = u @ [newline_char] \<and> u \<in> lang r)"
  using rests_lang [OF assms, of s] by (auto simp: hasMatch_def list_ex_iff splits_def)

section \<open>What an address is\<close>

definition label_ok :: "string \<Rightarrow> bool" where
  "label_ok w \<longleftrightarrow> w \<noteq> [] \<and> length w \<le> 255 \<and> hd w \<in> set alnum_chars \<and> last w \<in> set alnum_chars \<and>
     set w \<subseteq> set (alnum_chars @ ''-'')"

definition dotted :: "string list \<Rightarrow> string" where
  "dotted ls = concat (map (\<lambda>x. CHR ''.'' # x) ls)"

lemma conc_char: "{u @ v |u v. u \<in> lang (Chars cs) \<and> v \<in> B} = {c # v |c v. c \<in> set cs \<and> v \<in> B}"
proof (rule set_eqI)
  fix w
  have "w \<in> {c # v |c v. c \<in> set cs \<and> v \<in> B} \<longleftrightarrow> (\<exists>c v. w = [c] @ v \<and> c \<in> set cs \<and> v \<in> B)" by simp
  then show "w \<in> {u @ v |u v. u \<in> lang (Chars cs) \<and> v \<in> B} \<longleftrightarrow> w \<in> {c # v |c v. c \<in> set cs \<and> v \<in> B}"
    unfolding lang.simps by blast
qed

lemma power_chars: "power_lang (lang (Chars cs)) k = {w. length w = k \<and> set w \<subseteq> set cs}"
proof (induction k)
  case (Suc k)
  have "power_lang (lang (Chars cs)) (Suc k) = {c # v |c v. c \<in> set cs \<and> v \<in> power_lang (lang (Chars cs)) k}"
    unfolding power_lang.simps by (rule conc_char)
  then show ?case unfolding Suc by (auto simp: length_Suc_conv)
qed auto

lemma lang_label: "lang labelRE = {w. label_ok w}"
proof (rule set_eqI)
  fix w
  have mid: "lang (Rep 0 253 (Chars (alnum_chars @ ''-''))) = {m. length m \<le> 253 \<and> set m \<subseteq> set (alnum_chars @ ''-'')}"
    unfolding lang.simps(4) power_chars by auto
  have eq: "w \<in> lang labelRE \<longleftrightarrow> (\<exists>c \<in> set alnum_chars. w = [c] \<or>
      (\<exists>m d. w = c # m @ [d] \<and> length m \<le> 253 \<and> set m \<subseteq> set (alnum_chars @ ''-'') \<and> d \<in> set alnum_chars))"
    unfolding labelRE_def lang.simps(2,3) mid conc_char unfolding lang.simps(1) by blast
  show "w \<in> lang labelRE \<longleftrightarrow> w \<in> {w. label_ok w}"
  proof (cases w)
    case (Cons c r)
    then show ?thesis unfolding eq by (cases r rule: rev_cases) (auto simp: label_ok_def)
  next
    case Nil
    then show ?thesis unfolding eq by (simp add: label_ok_def)
  qed
qed

lemma lang_domain: "w \<in> lang domainRE \<longleftrightarrow> (\<exists>l ls. w = l @ dotted ls \<and> ls \<noteq> [] \<and> label_ok l \<and> list_all label_ok ls)"
proof -
  have mem: "y \<in> lang (Seq (Chars ''.'') labelRE) \<longleftrightarrow> (\<exists>x. y = CHR ''.'' # x \<and> label_ok x)" for y
    using lang_label by auto
  have dots: "u \<in> power_lang (lang (Seq (Chars ''.'') labelRE)) k \<longleftrightarrow> (\<exists>ls. u = dotted ls \<and> length ls = k \<and> list_all label_ok ls)" for u k
  proof (induction k arbitrary: u)
    case 0
    then show ?case by (auto simp: dotted_def)
  next
    case (Suc k)
    have "u \<in> power_lang (lang (Seq (Chars ''.'') labelRE)) (Suc k) \<longleftrightarrow>
        (\<exists>x v. u = (CHR ''.'' # x) @ v \<and> label_ok x \<and> v \<in> power_lang (lang (Seq (Chars ''.'') labelRE)) k)"
      by (simp only: power_lang.simps mem_Collect_eq mem) blast
    also have "\<dots> \<longleftrightarrow> (\<exists>x ls. u = dotted (x # ls) \<and> label_ok x \<and> length ls = k \<and> list_all label_ok ls)"
      unfolding Suc.IH by (auto simp: dotted_def)
    also have "\<dots> \<longleftrightarrow> (\<exists>ls. u = dotted ls \<and> length ls = Suc k \<and> list_all label_ok ls)"
      by (auto simp: length_Suc_conv) (metis list.pred_inject(2))
    finally show ?case .
  qed
  have "w \<in> lang domainRE \<longleftrightarrow> (\<exists>l u k. w = l @ u \<and> label_ok l \<and> u \<in> power_lang (lang (Seq (Chars ''.'') labelRE)) (Suc k))"
    unfolding domainRE_def lang.simps(2)[of labelRE] lang.simps(5) lang_label by auto
  also have "\<dots> \<longleftrightarrow> (\<exists>l ls. w = l @ dotted ls \<and> ls \<noteq> [] \<and> label_ok l \<and> list_all label_ok ls)"
    unfolding dots by (metis length_0_conv not0_implies_Suc nat.distinct(1))
  finally show ?thesis .
qed

lemma lang_local: "lang emailRE = {w. 1 \<le> length w \<and> length w \<le> 64 \<and> set w \<subseteq> set local_chars}"
  unfolding emailRE_def lang.simps(4) power_chars by auto

lemma plus_ok_email: "plus_ok emailRE" "plus_ok domainRE"
  by (simp_all add: emailRE_def domainRE_def labelRE_def)

lemma length_split_at: "length (split_at acc s) = Suc (length (filter (\<lambda>c. c = CHR ''@'') s))"
  by (induction acc s rule: split_at.induct) auto

lemma split_at_clean: "CHR ''@'' \<notin> set s \<Longrightarrow> split_at acc s = [acc @ s]"
  by (induction acc s rule: split_at.induct) auto

lemma split_at_first: "CHR ''@'' \<notin> set l \<Longrightarrow> split_at acc (l @ CHR ''@'' # d) = (acc @ l) # split_at [] d"
  by (induction l arbitrary: acc) auto

lemma split_at_two:
  "length (split_at [] e) = 2 \<longleftrightarrow> (\<exists>l d. e = l @ CHR ''@'' # d \<and> CHR ''@'' \<notin> set l \<and> CHR ''@'' \<notin> set d)"
proof
  assume len: "length (split_at [] e) = 2"
  then have "CHR ''@'' \<in> set e" by (cases "CHR ''@'' \<in> set e") (simp_all add: split_at_clean)
  then obtain l d where e: "e = l @ CHR ''@'' # d" "CHR ''@'' \<notin> set l" by (meson split_list_first)
  then have "length (filter (\<lambda>c. c = CHR ''@'') d) = 0" using len by (simp add: split_at_first length_split_at)
  then show "\<exists>l d. e = l @ CHR ''@'' # d \<and> CHR ''@'' \<notin> set l \<and> CHR ''@'' \<notin> set d"
    using e by (auto simp: filter_empty_conv)
qed (auto simp: split_at_first split_at_clean)

text \<open>A word, or a word and a final newline: what a pattern that ends in \<^verbatim>\<open>$\<close> accepts.\<close>

definition with_newline :: "(string \<Rightarrow> bool) \<Rightarrow> string \<Rightarrow> bool" where
  "with_newline P s \<longleftrightarrow> P s \<or> (\<exists>u. s = u @ [newline_char] \<and> P u)"

text \<open>
  C38: The addresses of 8-bit characters that are accepted.  The check holds exactly for a local part of 1 to 64 allowed
  characters, one at sign, and a domain of at most 255 characters whose ASCII form is two or more
  labels of at most 255 letters, digits and inner hyphens joined by dots, except that the local
  part and the ASCII domain may each be followed by a newline, which the final dollar of the
  patterns lets through.
\<close>

theorem email_address_exact:
  "validateEmailAddress toAce e \<longleftrightarrow>
    (\<exists>l d. e = l @ CHR ''@'' # d \<and> CHR ''@'' \<notin> set l \<and> CHR ''@'' \<notin> set d \<and> length d \<le> 255 \<and>
       with_newline (\<lambda>w. 1 \<le> length w \<and> length w \<le> 64 \<and> set w \<subseteq> set local_chars) l \<and>
       with_newline (\<lambda>w. \<exists>x xs. w = x @ dotted xs \<and> xs \<noteq> [] \<and> label_ok x \<and> list_all label_ok xs) (toAce d))"
    (is "_ \<longleftrightarrow> (\<exists>l d. ?ok l d)")
proof -
  have re: "hasMatch emailRE l \<longleftrightarrow> with_newline (\<lambda>w. 1 \<le> length w \<and> length w \<le> 64 \<and> set w \<subseteq> set local_chars) l"
    "hasMatch domainRE d \<longleftrightarrow> with_newline (\<lambda>w. \<exists>x xs. w = x @ dotted xs \<and> xs \<noteq> [] \<and> label_ok x \<and> list_all label_ok xs) d"
    for l d
    unfolding hasMatch_lang [OF plus_ok_email(1)] hasMatch_lang [OF plus_ok_email(2)] lang_domain lang_local with_newline_def
    by auto
  have two: "validateEmailAddress toAce (l @ CHR ''@'' # d) \<longleftrightarrow> ?ok l d" if "e = l @ CHR ''@'' # d" "CHR ''@'' \<notin> set l" "CHR ''@'' \<notin> set d" for l d
    using that by (simp add: validateEmailAddress_def split_at_first split_at_clean re Let_def)
  show ?thesis
  proof (cases "length (split_at [] e) = 2")
    case True
    then obtain l d where e: "e = l @ CHR ''@'' # d" "CHR ''@'' \<notin> set l" "CHR ''@'' \<notin> set d" unfolding split_at_two by blast
    have "?ok l' d' \<Longrightarrow> l' = l \<and> d' = d" for l' d'
    proof -
      assume "?ok l' d'"
      then have "split_at [] e = [l', d']" by (simp add: split_at_first split_at_clean)
      then show "l' = l \<and> d' = d" using e by (simp add: split_at_first split_at_clean)
    qed
    then show ?thesis using two [OF e] e(1) by blast
  next
    case False
    then have "\<not> validateEmailAddress toAce e" by (simp add: validateEmailAddress_def Let_def)
    then show ?thesis using False unfolding split_at_two by blast
  qed
qed

section \<open>The password list\<close>

text \<open>
  A list of words in front coding: each line is a digit, the number of characters shared with the
  word before, and the rest of the word.
\<close>

fun front_coded :: "string \<Rightarrow> string list \<Rightarrow> string list \<Rightarrow> bool" where
  "front_coded prev [] ws = (ws = [])"
| "front_coded prev (line # lines) ws =
    (case (line, ws) of
       (ch # rest, w # ws') \<Rightarrow>
         (case radix36 ch of
            None \<Rightarrow> False
          | Some n \<Rightarrow> n \<le> length prev \<and> w = take n prev @ rest \<and> front_coded w lines ws')
     | _ \<Rightarrow> False)"

lemma decoder_front_coded:
  assumes "front_coded prev lines ws" "index = 0 \<longrightarrow> prev = []"
  shows "decoder_match index prev lines input = (if input \<in> set ws then MatchFound else MatchNotFound)"
  using assms
proof (induction index prev lines input arbitrary: ws rule: decoder_match.induct)
  case (2 index prev line lines input)
  then obtain ch rest w ws' where l: "line = ch # rest" "ws = w # ws'"
    by (auto split: list.splits)
  then obtain n where n: "radix36 ch = Some n" "n \<le> length prev" "w = take n prev @ rest" "front_coded w lines ws'"
    using 2(2) by (auto split: option.splits)
  have "\<not> (index = 0 \<and> n \<noteq> 0)" using n(2) 2(3) by auto
  moreover have "(if n \<noteq> 0 then take n prev @ rest else rest) = w" using n(3) by simp
  moreover have "decoder_match (index + 1) w lines input = (if input \<in> set ws' then MatchFound else MatchNotFound)"
    if "w \<noteq> input"
    by (rule "2.IH" [of ch rest n w ws']) (use l(1) n that calculation in simp_all)
  ultimately show ?case using l n(1) by (auto simp: Let_def)
qed simp

text \<open>
  Common passwords are refused.  For a front-coded list of words the check refuses exactly the
  passwords of at least eight characters that are in the list; a list that cannot be opened refuses
  none.
\<close>

theorem common_passwords_refused:
  assumes "front_coded [] lines ws"
  shows "validatePasswordCommons (Some lines) password \<longleftrightarrow> \<not> (8 \<le> length password \<and> password \<in> set ws)"
  using decoder_front_coded [OF assms, of 0 password]
  by (simp add: validatePasswordCommons_def validatePasswordLength_def PASSWORD_MIN_LENGTH_def)

theorem common_passwords_refused_witness:
  "validatePasswordCommons (Some [''0password'', ''8123'', ''4word9999'']) ''password123'' = False"
proof -
  have "front_coded [] [''0password'', ''8123'', ''4word9999''] [''password'', ''password123'', ''password9999'']"
    by code_simp
  from common_passwords_refused [OF this, of "''password123''"] show ?thesis by simp
qed

end
