(* ===== verification/DeviceModel.thy ===== *)
theory DeviceModel
  imports Json "HOL-Library.Multiset"
begin

text \<open>
  Model of \<^verbatim>\<open>src/models/device.cpp\<close>, \<^verbatim>\<open>devicemodel.cpp\<close>, \<^verbatim>\<open>keys.cpp\<close> and \<^verbatim>\<open>user.cpp\<close>: the
  account's devices with those whose removal is in progress, the keys of this device and the user,
  each read from the server's JSON and from the settings.  Parameters: \<open>parseDoc\<close> (text to JSON) and
  \<open>isoDate\<close> (an ISO date to milliseconds, \<^const>\<open>None\<close> when it is not valid).
\<close>

section \<open>Settings\<close>

text \<open>The settings the account and the application read and write; \<^const>\<open>None\<close>: not set.\<close>

record vpn_settings =
  st_token :: "string option"
  st_privateKey :: string
  st_publicKey :: string
  st_devices :: string
  st_servers :: string
  st_userAvatar :: "string option"
  st_userDisplayName :: "string option"
  st_userEmail :: "string option"
  st_userMaxDevices :: "int option"
  st_userSubscriptionNeeded :: "bool option"
  st_deviceKeyVersion :: "string option"
  st_keyRegenerationTimeSec :: "int option"
  st_onboardingStarted :: bool
  st_onboardingCompleted :: bool
  st_onboardingStep :: int
  st_onboardingDataCollectionEnabled :: bool
  st_gleanEnabled :: bool
  st_dnsProviderFlags :: int
  st_startAtBoot :: bool

section \<open>Keys and the user\<close>

record keys =
  ks_privateKey :: string
  ks_publicKey :: string

definition keys_initialized :: "keys \<Rightarrow> bool" where
  "keys_initialized k = (ks_privateKey k \<noteq> [] \<and> ks_publicKey k \<noteq> [])"

definition storeKeys :: "string \<Rightarrow> string \<Rightarrow> keys \<Rightarrow> keys" where
  "storeKeys private public k = k\<lparr>ks_privateKey := private, ks_publicKey := public\<rparr>"

definition forgetKeys :: "keys \<Rightarrow> keys" where
  "forgetKeys k = k\<lparr>ks_privateKey := [], ks_publicKey := []\<rparr>"

record user =
  us_avatar :: string
  us_displayName :: string
  us_email :: string
  us_maxDevices :: int
  us_subscriptionNeeded :: bool
  us_initialized :: bool

definition newUser :: user where
  "newUser = \<lparr>us_avatar = [], us_displayName = [], us_email = [], us_maxDevices = 0, us_subscriptionNeeded = False,
     us_initialized = False\<rparr>"

text \<open>The entry of the subscription: missing, malformed (\<^const>\<open>None\<close>) or telling whether it is active.\<close>

definition subscription_needed :: "json_object \<Rightarrow> bool option" where
  "subscription_needed subs =
    (if obj_contains subs ''vpn''
     then let vpn = obj_value subs ''vpn''
          in if \<not> isObject vpn then None
             else let active = obj_value (toObject vpn) ''active''
                  in if \<not> isBool active then None else Some (\<not> toBool active)
     else Some True)"

definition user_fromJson :: "(string \<Rightarrow> json) \<Rightarrow> string \<Rightarrow> user \<Rightarrow> bool \<times> user" where
  "user_fromJson parseDoc s u =
    (let u1 = u\<lparr>us_initialized := False\<rparr>; doc = parseDoc s; obj = toObject doc;
         avatar = obj_value obj ''avatar''; displayName = obj_value obj ''display_name'';
         email = obj_value obj ''email''; maxDevices = obj_value obj ''max_devices'';
         subscriptions = obj_value obj ''subscriptions''
     in if \<not> isObject doc \<or> \<not> isString avatar \<or> \<not> isString displayName \<or> \<not> isString email \<or>
           \<not> isDouble maxDevices \<or> \<not> isObject subscriptions then (False, u1)
        else case subscription_needed (toObject subscriptions) of
               None \<Rightarrow> (False, u1)
             | Some needed \<Rightarrow>
                 (True, u1\<lparr>us_avatar := toString avatar, us_displayName := toString displayName, us_email := toString email,
                           us_maxDevices := toInt maxDevices, us_subscriptionNeeded := needed, us_initialized := True\<rparr>))"

definition user_fromSettings :: "vpn_settings \<Rightarrow> user \<Rightarrow> bool \<times> user" where
  "user_fromSettings st u =
    (case (st_userAvatar st, st_userDisplayName st, st_userEmail st, st_userMaxDevices st, st_userSubscriptionNeeded st) of
       (Some avatar, Some displayName, Some email, Some maxDevices, Some needed) \<Rightarrow>
         (True, u\<lparr>us_avatar := avatar, us_displayName := displayName, us_email := email, us_maxDevices := maxDevices,
                  us_subscriptionNeeded := needed, us_initialized := True\<rparr>)
     | _ \<Rightarrow> (False, u))"

definition user_writeSettings :: "user \<Rightarrow> vpn_settings \<Rightarrow> vpn_settings" where
  "user_writeSettings u st =
    st\<lparr>st_userAvatar := Some (us_avatar u), st_userDisplayName := Some (us_displayName u), st_userEmail := Some (us_email u),
       st_userMaxDevices := Some (us_maxDevices u), st_userSubscriptionNeeded := Some (us_subscriptionNeeded u)\<rparr>"

section \<open>One device\<close>

record device =
  dv_deviceName :: string
  dv_uniqueId :: string
  dv_createdAt :: int
  dv_publicKey :: string
  dv_ipv4Address :: string
  dv_ipv6Address :: string

definition device_fromJson :: "(string \<Rightarrow> int option) \<Rightarrow> json \<Rightarrow> device option" where
  "device_fromJson isoDate v =
    (let obj = toObject v; name = obj_value obj ''name''; uniqueId = obj_value obj ''unique_id'';
         pubKey = obj_value obj ''pubkey''; createdAt = obj_value obj ''created_at'';
         ipv4 = obj_value obj ''ipv4_address''; ipv6 = obj_value obj ''ipv6_address''
     in if \<not> isObject v \<or> \<not> isString name \<or> \<not> isString pubKey \<or> \<not> isString createdAt then None
        else case isoDate (toString createdAt) of
               None \<Rightarrow> None
             | Some date \<Rightarrow>
                 if \<not> isString ipv4 \<or> \<not> isString ipv6 then None
                 else Some \<lparr>dv_deviceName = toString name,
                            dv_uniqueId = (if isString uniqueId then toString uniqueId else []),
                            dv_createdAt = date, dv_publicKey = toString pubKey,
                            dv_ipv4Address = toString ipv4, dv_ipv6Address = toString ipv6\<rparr>)"

definition isCurrentDevice :: "keys \<Rightarrow> device \<Rightarrow> bool" where
  "isCurrentDevice k d = (dv_publicKey d = ks_publicKey k)"

definition isDeviceForMigration :: "string \<Rightarrow> device \<Rightarrow> bool" where
  "isDeviceForMigration name d = (dv_deviceName d = name)"

text \<open>
  The search of the migration: the first device of the name, \<^const>\<open>None\<close> when a device before it cannot
  be read.
\<close>

fun migration_key :: "(string \<Rightarrow> int option) \<Rightarrow> string \<Rightarrow> json list \<Rightarrow> string option option" where
  "migration_key isoDate name [] = Some None"
| "migration_key isoDate name (v # vs) =
     (case device_fromJson isoDate v of
        None \<Rightarrow> None
      | Some d \<Rightarrow> if isDeviceForMigration name d then Some (Some (dv_publicKey d)) else migration_key isoDate name vs)"

definition keys_fromSettings ::
    "(string \<Rightarrow> json) \<Rightarrow> (string \<Rightarrow> int option) \<Rightarrow> string \<Rightarrow> vpn_settings \<Rightarrow> keys \<Rightarrow> bool \<times> vpn_settings \<times> keys" where
  "keys_fromSettings parseDoc isoDate name st k =
    (if st_privateKey st = [] then (False, st, k)
     else
       let load = (\<lambda>st. (True, st, k\<lparr>ks_privateKey := st_privateKey st, ks_publicKey := st_publicKey st\<rparr>))
       in if st_publicKey st \<noteq> [] then load st
          else let doc = parseDoc (st_devices st); obj = toObject doc; devices = obj_value obj ''devices''
               in if st_devices st = [] \<or> \<not> isObject doc \<or> \<not> obj_contains obj ''devices'' \<or> \<not> isArray devices
                  then (False, st, k)
                  else case migration_key isoDate name (toArray devices) of
                         None \<Rightarrow> (False, st, k)
                       | Some None \<Rightarrow> load st
                       | Some (Some pk) \<Rightarrow> load (st\<lparr>st_publicKey := pk\<rparr>))"

section \<open>The device model\<close>

record device_model =
  dm_rawJson :: string
  dm_devices :: "device list"
  dm_removedDevices :: "device list"

definition newDeviceModel :: device_model where
  "newDeviceModel = \<lparr>dm_rawJson = [], dm_devices = [], dm_removedDevices = []\<rparr>"

definition dm_initialized :: "device_model \<Rightarrow> bool" where
  "dm_initialized m = (dm_rawJson m \<noteq> [])"

definition activeDevices :: "device_model \<Rightarrow> int" where
  "activeDevices m = int (length (dm_devices m))"

definition currentDevice :: "keys \<Rightarrow> device_model \<Rightarrow> device option" where
  "currentDevice k m = find (isCurrentDevice k) (dm_devices m)"

definition hasCurrentDevice :: "keys \<Rightarrow> device_model \<Rightarrow> bool" where
  "hasCurrentDevice k m = (currentDevice k m \<noteq> None)"

definition deviceFromPublicKey :: "string \<Rightarrow> device_model \<Rightarrow> device option" where
  "deviceFromPublicKey pk m = find (\<lambda>d. dv_publicKey d = pk) (dm_devices m)"

definition deviceFromUniqueId :: "string \<Rightarrow> device_model \<Rightarrow> device option" where
  "deviceFromUniqueId uniqueId m = (if uniqueId = [] then None else find (\<lambda>d. dv_uniqueId d = uniqueId) (dm_devices m))"

text \<open>\<^verbatim>\<open>sortCallback\<close>: the current device first, then the latest first.\<close>

definition sortCallback :: "keys \<Rightarrow> device \<Rightarrow> device \<Rightarrow> bool" where
  "sortCallback k a b =
    (if isCurrentDevice k a then True else if isCurrentDevice k b then False else dv_createdAt a > dv_createdAt b)"

text \<open>The loop over the array: what has been read is kept also when a device is malformed.\<close>

fun read_devices :: "(string \<Rightarrow> int option) \<Rightarrow> string list \<Rightarrow> json list \<Rightarrow> device_model \<Rightarrow> bool \<times> device_model" where
  "read_devices isoDate removed [] m = (True, m)"
| "read_devices isoDate removed (v # vs) m =
     (case device_fromJson isoDate v of
        None \<Rightarrow> (False, m)
      | Some d \<Rightarrow>
          read_devices isoDate removed vs
            (if dv_publicKey d \<in> set removed then m\<lparr>dm_removedDevices := dm_removedDevices m @ [d]\<rparr>
             else m\<lparr>dm_devices := dm_devices m @ [d]\<rparr>))"

definition dm_fromJsonInternal ::
    "(string \<Rightarrow> json) \<Rightarrow> (string \<Rightarrow> int option) \<Rightarrow> keys \<Rightarrow> string \<Rightarrow> device_model \<Rightarrow> bool \<times> device_model" where
  "dm_fromJsonInternal parseDoc isoDate k s m =
    (let removedPublicKeys = map dv_publicKey (dm_removedDevices m);
         m1 = m\<lparr>dm_rawJson := [], dm_devices := [], dm_removedDevices := []\<rparr>;
         doc = parseDoc s; obj = toObject doc; devices = obj_value obj ''devices''
     in if \<not> isObject doc \<or> \<not> obj_contains obj ''devices'' \<or> \<not> isArray devices then (False, m1)
        else let (ok, m2) = read_devices isoDate removedPublicKeys (toArray devices) m1
             in if ok then (True, m2\<lparr>dm_devices := std_sort (sortCallback k) (dm_devices m2)\<rparr>) else (False, m2))"

definition dm_fromJson ::
    "(string \<Rightarrow> json) \<Rightarrow> (string \<Rightarrow> int option) \<Rightarrow> keys \<Rightarrow> string \<Rightarrow> device_model \<Rightarrow> bool \<times> device_model" where
  "dm_fromJson parseDoc isoDate k s m =
    (if s \<noteq> [] \<and> dm_rawJson m = s then (True, m)
     else let (ok, m1) = dm_fromJsonInternal parseDoc isoDate k s m
          in if ok then (True, m1\<lparr>dm_rawJson := s\<rparr>) else (False, m1))"

definition dm_fromSettings ::
    "(string \<Rightarrow> json) \<Rightarrow> (string \<Rightarrow> int option) \<Rightarrow> keys \<Rightarrow> vpn_settings \<Rightarrow> device_model \<Rightarrow> bool \<times> device_model" where
  "dm_fromSettings parseDoc isoDate k st m =
    (if st_devices st = [] then (False, m)
     else let (ok, m1) = dm_fromJsonInternal parseDoc isoDate k (st_devices st) m
          in if ok then (True, m1\<lparr>dm_rawJson := st_devices st\<rparr>) else (False, m1))"

definition dm_writeSettings :: "device_model \<Rightarrow> vpn_settings \<Rightarrow> vpn_settings" where
  "dm_writeSettings m st = st\<lparr>st_devices := dm_rawJson m\<rparr>"

text \<open>Removing the first device with a key from a list.\<close>

fun remove_key :: "string \<Rightarrow> device list \<Rightarrow> device list" where
  "remove_key pk [] = []"
| "remove_key pk (d # ds) = (if dv_publicKey d = pk then ds else d # remove_key pk ds)"

definition startDeviceRemoval :: "string \<Rightarrow> device_model \<Rightarrow> device_model" where
  "startDeviceRemoval pk m =
    (case deviceFromPublicKey pk m of
       None \<Rightarrow> m
     | Some d \<Rightarrow> m\<lparr>dm_removedDevices := dm_removedDevices m @ [d], dm_devices := remove_key pk (dm_devices m)\<rparr>)"

definition stopDeviceRemoval :: "string \<Rightarrow> keys \<Rightarrow> device_model \<Rightarrow> device_model" where
  "stopDeviceRemoval pk k m =
    (case find (\<lambda>d. dv_publicKey d = pk) (dm_removedDevices m) of
       None \<Rightarrow> m
     | Some d \<Rightarrow> m\<lparr>dm_devices := std_sort (sortCallback k) (dm_devices m @ [d]),
                   dm_removedDevices := remove_key pk (dm_removedDevices m)\<rparr>)"

definition removeDeviceFromPublicKey :: "string \<Rightarrow> device_model \<Rightarrow> device_model" where
  "removeDeviceFromPublicKey pk m =
    (let m1 = m\<lparr>dm_removedDevices := remove_key pk (dm_removedDevices m)\<rparr>
     in m1\<lparr>dm_devices := remove_key pk (dm_devices m1)\<rparr>)"

section \<open>The list after a reply\<close>

text \<open>The order of the list: the current device first, the others from the latest to the oldest.\<close>

definition device_before :: "keys \<Rightarrow> device \<Rightarrow> device \<Rightarrow> bool" where
  "device_before k a b = (isCurrentDevice k a \<or> \<not> isCurrentDevice k b \<and> dv_createdAt b \<le> dv_createdAt a)"

lemma mset_insort_by [simp]: "mset (insort_by lt x ys) = add_mset x (mset ys)"
  by (induction ys) auto

lemma mset_std_sort [simp]: "mset (std_sort lt xs) = mset xs"
  by (induction xs) (simp_all add: std_sort_def)

lemma device_insort:
  assumes "sorted_wrt (device_before k) ys" "distinct (map dv_publicKey (x # ys))"
  shows "sorted_wrt (device_before k) (insort_by (sortCallback k) x ys)"
  using assms
proof (induction ys)
  case (Cons y ys)
  then show ?case
    by (force simp: device_before_def sortCallback_def isCurrentDevice_def)
qed simp

lemma std_sort_devices:
  assumes "distinct (map dv_publicKey ds)"
  shows "sorted_wrt (device_before k) (std_sort (sortCallback k) ds)"
  using assms
proof (induction ds)
  case (Cons d ds)
  moreover have "distinct (map dv_publicKey (d # std_sort (sortCallback k) ds))"
    using Cons.prems by (metis mset_std_sort mset.simps(2) mset_map mset_eq_imp_distinct_iff)
  ultimately show ?case by (simp add: std_sort_def device_insort)
qed (simp add: std_sort_def)

lemma read_devices_all:
  assumes "map (device_fromJson isoDate) vs = map Some ds"
  shows "read_devices isoDate removed vs m =
    (True, m\<lparr>dm_devices := dm_devices m @ filter (\<lambda>d. dv_publicKey d \<notin> set removed) ds,
             dm_removedDevices := dm_removedDevices m @ filter (\<lambda>d. dv_publicKey d \<in> set removed) ds\<rparr>)"
  using assms
proof (induction vs arbitrary: ds m)
  case (Cons v vs)
  then show ?case by (cases ds) auto
qed simp

text \<open>The loop stops at the first malformed device, with the devices before it in the lists.\<close>

lemma read_devices_stops:
  assumes "map (device_fromJson isoDate) vs1 = map Some ds" "device_fromJson isoDate v = None"
  shows "read_devices isoDate removed (vs1 @ v # vs2) m =
    (False, m\<lparr>dm_devices := dm_devices m @ filter (\<lambda>d. dv_publicKey d \<notin> set removed) ds,
              dm_removedDevices := dm_removedDevices m @ filter (\<lambda>d. dv_publicKey d \<in> set removed) ds\<rparr>)"
  using assms
proof (induction vs1 arbitrary: ds m)
  case (Cons v vs)
  then show ?case by (cases ds) auto
qed simp

lemma find_current_sorted:
  assumes "sorted_wrt (device_before k) ds" "distinct (map dv_publicKey ds)" "d \<in> set ds" "isCurrentDevice k d"
  shows "\<exists>rest. ds = d # rest"
proof (cases ds)
  case (Cons e rest)
  show ?thesis
  proof (cases "e = d")
    case False
    then have "isCurrentDevice k e" using assms Cons by (auto simp: device_before_def)
    then show ?thesis using assms Cons False by (auto simp: isCurrentDevice_def) (metis image_eqI)
  qed (use Cons in simp)
qed (use assms in simp)

lemma find_cong_set:
  assumes "distinct (map f xs)" "set xs = set ys" "\<And>x y. P x \<Longrightarrow> P y \<Longrightarrow> f x = f y"
  shows "find P xs = find P ys"
proof (cases "\<exists>x \<in> set xs. P x")
  case True
  then obtain x where x: "x \<in> set xs" "P x" by blast
  have uniq: "z = x" if "z \<in> set xs" "P z" for z
    using assms(1,3) x that by (metis distinct_map inj_onD)
  have find: "find P zs = Some x" if "set zs = set xs" for zs
  proof -
    have "find P zs \<noteq> None" using x that by (auto simp: find_None_iff)
    then obtain z where "find P zs = Some z" by blast
    moreover from this have "z \<in> set zs" "P z" by (auto simp: find_Some_iff)
    ultimately show ?thesis using uniq that by metis
  qed
  show ?thesis using find [of xs] find [of ys] assms(2) by simp
next
  case False
  then show ?thesis using assms(2) by (metis find_None_iff)
qed

text \<open>
  What a reply of the account service makes of the list.  If every device of the reply can be
  read and no key occurs twice, then exactly the devices whose removal was in progress stay hidden,
  the others are shown with the current device first and the rest from the latest to the oldest,
  the current device is found if and only if the reply has it and it is not being removed, and a
  model written to the settings and read back by a client that starts shows all of them again.
\<close>

theorem devices_refreshed:
  assumes "s \<noteq> []" "dm_rawJson m \<noteq> s" "parseDoc s = JObject obj" "obj_value obj ''devices'' = JArray vs"
    "obj_contains obj ''devices''" "map (device_fromJson isoDate) vs = map Some ds" "distinct (map dv_publicKey ds)"
  defines "hidden \<equiv> map dv_publicKey (dm_removedDevices m)"
  shows "\<exists>m'. dm_fromJson parseDoc isoDate k s m = (True, m') \<and>
      dm_removedDevices m' = filter (\<lambda>d. dv_publicKey d \<in> set hidden) ds \<and>
      mset (dm_devices m') = mset (filter (\<lambda>d. dv_publicKey d \<notin> set hidden) ds) \<and>
      sorted_wrt (device_before k) (dm_devices m') \<and>
      currentDevice k m' = (if ks_publicKey k \<in> set hidden then None else find (isCurrentDevice k) ds) \<and>
      (\<forall>d. currentDevice k m' = Some d \<longrightarrow> hd (dm_devices m') = d) \<and>
      (\<exists>m''. dm_fromSettings parseDoc isoDate k (dm_writeSettings m' st) newDeviceModel = (True, m'') \<and>
             mset (dm_devices m'') = mset ds \<and> dm_removedDevices m'' = [] \<and> dm_rawJson m'' = s)"
proof -
  let ?shown = "filter (\<lambda>d. dv_publicKey d \<notin> set hidden) ds"
  have distinct: "distinct (map dv_publicKey ?shown)" using assms(7) by (simp add: distinct_map_filter)
  have sorted: "sorted_wrt (device_before k) (std_sort (sortCallback k) ?shown)"
    by (rule std_sort_devices [OF distinct])
  have distinct': "distinct (map dv_publicKey (std_sort (sortCallback k) ?shown))"
    using distinct by (metis mset_std_sort mset_map mset_eq_imp_distinct_iff)
  have current: "find (isCurrentDevice k) (std_sort (sortCallback k) ?shown) = find (isCurrentDevice k) ?shown"
    by (rule find_cong_set [OF distinct']) (auto simp: isCurrentDevice_def)
  have shown: "find (isCurrentDevice k) ?shown = (if ks_publicKey k \<in> set hidden then None else find (isCurrentDevice k) ds)"
    unfolding isCurrentDevice_def [abs_def] by (induction ds) auto
  have first: "hd (std_sort (sortCallback k) ?shown) = d"
    if "find (isCurrentDevice k) (std_sort (sortCallback k) ?shown) = Some d" for d
  proof -
    have "d \<in> set (std_sort (sortCallback k) ?shown)" "isCurrentDevice k d"
      using that by (metis find_Some_iff nth_mem)+
    then show ?thesis using find_current_sorted [OF sorted distinct', of d] by auto
  qed
  have json: "dm_fromJson parseDoc isoDate k s m =
      (True, m\<lparr>dm_rawJson := s, dm_devices := std_sort (sortCallback k) ?shown,
              dm_removedDevices := filter (\<lambda>d. dv_publicKey d \<in> set hidden) ds\<rparr>)"
    using assms by (simp add: dm_fromJson_def dm_fromJsonInternal_def read_devices_all hidden_def)
  have settings: "dm_fromSettings parseDoc isoDate k (st\<lparr>st_devices := s\<rparr>) newDeviceModel =
      (True, \<lparr>dm_rawJson = s, dm_devices = std_sort (sortCallback k) ds, dm_removedDevices = []\<rparr>)"
    using assms by (simp add: dm_fromSettings_def dm_fromJsonInternal_def read_devices_all newDeviceModel_def)
  show ?thesis
    using sorted current shown first
    by (simp add: json settings currentDevice_def dm_writeSettings_def)
qed

definition demo_device_json :: "string \<Rightarrow> string \<Rightarrow> json" where
  "demo_device_json pk date = JObject
     [(''name'', JString ''laptop''), (''pubkey'', JString pk), (''created_at'', JString date),
      (''ipv4_address'', JString ''10.0.0.2/32''), (''ipv6_address'', JString ''fc00::2/128'')]"

definition demo_device :: "string \<Rightarrow> int \<Rightarrow> device" where
  "demo_device pk date = \<lparr>dv_deviceName = ''laptop'', dv_uniqueId = [], dv_createdAt = date, dv_publicKey = pk,
     dv_ipv4Address = ''10.0.0.2/32'', dv_ipv6Address = ''fc00::2/128''\<rparr>"

definition demo_devices_doc :: "string list \<Rightarrow> json_object" where
  "demo_devices_doc pks = [(''devices'', JArray (map (\<lambda>pk. demo_device_json pk pk) pks))]"

definition demo_date :: "string \<Rightarrow> int option" where
  "demo_date s = (if s = [] then None else Some (int (length s)))"

lemma demo_device_read:
  "pk \<noteq> [] \<Longrightarrow> device_fromJson demo_date (demo_device_json pk pk) = Some (demo_device pk (int (length pk)))"
  by (simp add: device_fromJson_def demo_device_json_def demo_device_def demo_date_def obj_value_def)

lemma devices_refreshed_witness:
  "\<exists>m'. dm_fromJson (\<lambda>_. JObject (demo_devices_doc [''a'', ''bb'', ''ccc''])) demo_date \<lparr>ks_privateKey = ''x'', ks_publicKey = ''a''\<rparr>
          ''reply'' \<lparr>dm_rawJson = ''old'', dm_devices = [], dm_removedDevices = [demo_device ''bb'' 1]\<rparr> = (True, m') \<and>
        dm_removedDevices m' = [demo_device ''bb'' 2] \<and>
        currentDevice \<lparr>ks_privateKey = ''x'', ks_publicKey = ''a''\<rparr> m' = Some (demo_device ''a'' 1)"
  using devices_refreshed [of "''reply''" "\<lparr>dm_rawJson = ''old'', dm_devices = [], dm_removedDevices = [demo_device ''bb'' 1]\<rparr>"
      "\<lambda>_. JObject (demo_devices_doc [''a'', ''bb'', ''ccc''])" "demo_devices_doc [''a'', ''bb'', ''ccc'']"
      "map (\<lambda>pk. demo_device_json pk pk) [''a'', ''bb'', ''ccc'']" demo_date
      "[demo_device ''a'' 1, demo_device ''bb'' 2, demo_device ''ccc'' 3]" "\<lparr>ks_privateKey = ''x'', ks_publicKey = ''a''\<rparr>"]
  by (simp add: demo_devices_doc_def obj_value_def obj_contains_def demo_device_read)
    (auto simp: demo_device_def isCurrentDevice_def)

end
