(* ===== verification/VersionUtils.thy ===== *)
theory VersionUtils
  imports Prelude
begin

text \<open>
  Model of \<^verbatim>\<open>src/versionutils.cpp\<close>: comparing two version strings, and a version without its last
  part.  Only the text before the first character outside \<^verbatim>\<open>[0-9a-z.]\<close> counts.
\<close>

definition version_char :: "char \<Rightarrow> bool" where
  "version_char c = (c \<in> set ''0123456789abcdefghijklmnopqrstuvwxyz.'')"

text \<open>\<^verbatim>\<open>QString::split\<close> at the dots: at least one part.\<close>

fun split_dots :: "string \<Rightarrow> string list" where
  "split_dots [] = [[]]"
| "split_dots (c # cs) =
     (if c = CHR ''.'' then [] # split_dots cs else (c # hd (split_dots cs)) # tl (split_dots cs))"

definition version_parts :: "string \<Rightarrow> string list" where
  "version_parts a = split_dots (takeWhile version_char a)"

text \<open>The loop that appends zeros while there are fewer than three parts.\<close>

definition pad_parts :: "string list \<Rightarrow> string list" where
  "pad_parts ps = ps @ replicate (3 - length ps) ''0''"

text \<open>\<^verbatim>\<open>QString::toInt\<close> on a part: 0 when it is not a number or not in the range of \<^verbatim>\<open>int\<close>.\<close>

definition is_digit :: "char \<Rightarrow> bool" where
  "is_digit c = (c \<in> set ''0123456789'')"

definition digit_value :: "char \<Rightarrow> int" where
  "digit_value c = int (of_char c) - 48"

definition decimal :: "string \<Rightarrow> int" where
  "decimal s = foldl (\<lambda>n c. 10 * n + digit_value c) 0 s"

definition part_toInt :: "string \<Rightarrow> int" where
  "part_toInt s =
    (if s \<noteq> [] \<and> list_all is_digit s \<and> decimal s < 2 ^ 31 then decimal s else 0)"

text \<open>The comparison of the parts, from the index on.\<close>

fun compare_parts :: "nat \<Rightarrow> string list \<Rightarrow> string list \<Rightarrow> nat \<Rightarrow> int" where
  "compare_parts i as bs 0 = 0"
| "compare_parts i as bs (Suc n) =
     (let aDigit = part_toInt (as ! i); bDigit = part_toInt (bs ! i)
      in if aDigit \<noteq> bDigit then (if aDigit < bDigit then -1 else 1) else compare_parts (Suc i) as bs n)"

definition compareVersions :: "string \<Rightarrow> string \<Rightarrow> int" where
  "compareVersions a b =
    (if a = b then 0
     else if a = [] then 1
     else if b = [] then -1
     else compare_parts 0 (pad_parts (version_parts a)) (pad_parts (version_parts b)) 3)"

fun join_dots :: "string list \<Rightarrow> string" where
  "join_dots [] = []"
| "join_dots [p] = p"
| "join_dots (p # ps) = p @ ''.'' @ join_dots ps"

definition stripMinor :: "string \<Rightarrow> string" where
  "stripMinor a =
    (let aParts = (if a = [] then [] else version_parts a)
     in join_dots (take 2 (pad_parts aParts) @ [''0'']))"

section \<open>Versions as an ordered type\<close>

text \<open>What a version string stands for: three numbers, or no version, which counts as the greatest.\<close>

datatype version = Version int int int | NoVersion

instantiation version :: linorder
begin

definition less_version :: "version \<Rightarrow> version \<Rightarrow> bool" where
  "less_version v w =
    (case (v, w) of
       (NoVersion, _) \<Rightarrow> False
     | (Version _ _ _, NoVersion) \<Rightarrow> True
     | (Version a b c, Version a' b' c') \<Rightarrow> a < a' \<or> a = a' \<and> (b < b' \<or> b = b' \<and> c < c'))"

definition less_eq_version :: "version \<Rightarrow> version \<Rightarrow> bool" where
  "less_eq_version v w = (v < w \<or> v = w)"

instance
  by standard (auto simp: less_version_def less_eq_version_def split: version.splits)

end

definition readVersion :: "string \<Rightarrow> version" where
  "readVersion a =
    (if a = [] then NoVersion
     else let ps = pad_parts (version_parts a) in Version (part_toInt (ps ! 0)) (part_toInt (ps ! 1)) (part_toInt (ps ! 2)))"

lemma split_dots_nonempty [simp]: "split_dots s \<noteq> []"
  by (cases s) auto

lemma length_pad_parts: "3 \<le> length (pad_parts ps)"
  by (simp add: pad_parts_def)

lemma split_dots_clean: "CHR ''.'' \<notin> set s \<Longrightarrow> split_dots s = [s]"
  by (induction s) auto

lemma split_dots_dot: "CHR ''.'' \<notin> set s \<Longrightarrow> split_dots (s @ CHR ''.'' # t) = s # split_dots t"
  by (induction s) auto

lemma split_dots_set: "p \<in> set (split_dots s) \<Longrightarrow> set p \<subseteq> set s - {CHR ''.''}"
proof (induction s arbitrary: p)
  case (Cons c cs)
  have "set (hd (split_dots cs)) \<subseteq> set cs - {CHR ''.''}" using Cons.IH by simp
  moreover have "p = [] \<and> c = CHR ''.'' \<or> p = c # hd (split_dots cs) \<and> c \<noteq> CHR ''.'' \<or> p \<in> set (split_dots cs)"
    using Cons.prems by (auto split: if_splits intro: list.set_sel(2))
  ultimately show ?case using Cons.IH [of p] by auto
qed simp

lemma version_char_digits: "version_char CHR ''0''" "version_char CHR ''.''"
  by (simp_all add: version_char_def)

lemma version_part_chars:
  assumes "p \<in> set (pad_parts (version_parts a))" "c \<in> set p"
  shows "version_char c \<and> c \<noteq> CHR ''.''"
proof (cases "p \<in> set (version_parts a)")
  case True
  then have "c \<in> set (takeWhile version_char a) - {CHR ''.''}"
    using split_dots_set assms(2) unfolding version_parts_def by blast
  then show ?thesis by (metis Diff_iff set_takeWhileD singletonI)
next
  case False
  then show ?thesis using assms by (auto simp: pad_parts_def version_char_digits)
qed

lemma digit_value_nonneg: "is_digit c \<Longrightarrow> 0 \<le> digit_value c"
  by (auto simp: is_digit_def digit_value_def)

lemma decimal_nonneg: "list_all is_digit s \<Longrightarrow> 0 \<le> n \<Longrightarrow> 0 \<le> foldl (\<lambda>n c. 10 * n + digit_value c) n s"
  by (induction s arbitrary: n) (simp_all add: digit_value_nonneg)

lemma part_toInt_nonneg [simp]: "0 \<le> part_toInt s"
  using decimal_nonneg [of s 0] by (simp add: part_toInt_def decimal_def)

lemma part_toInt_zero [simp]: "part_toInt ''0'' = 0"
  by (simp add: part_toInt_def decimal_def digit_value_def is_digit_def)

lemma readVersion_stripMinor:
  "readVersion (stripMinor a) =
     (case readVersion a of NoVersion \<Rightarrow> Version 0 0 0 | Version major minor patch \<Rightarrow> Version major minor 0)"
proof (cases "a = []")
  case True
  then show ?thesis
    by (simp add: readVersion_def stripMinor_def pad_parts_def version_parts_def version_char_def numeral_3_eq_3 numeral_2_eq_2)
next
  case False
  let ?ps = "pad_parts (version_parts a)"
  obtain p q r ps where ps: "?ps = p # q # r # ps"
    using length_pad_parts [of "version_parts a"] by (metis Suc_le_length_iff numeral_3_eq_3)
  have chars: "\<And>c. c \<in> set p \<union> set q \<Longrightarrow> version_char c \<and> c \<noteq> CHR ''.''"
    using version_part_chars [of _ a] ps by (metis UnE list.set_intros)
  let ?s = "p @ CHR ''.'' # q @ CHR ''.'' # ''0''"
  have "takeWhile version_char ?s = ?s"
    using chars by (intro takeWhile_eq_all_conv [THEN iffD2]) (auto simp: version_char_digits)
  moreover have "CHR ''.'' \<notin> set p" "CHR ''.'' \<notin> set q" using chars by auto
  then have "split_dots ?s = [p, q, ''0'']"
    by (subst split_dots_dot, simp, subst split_dots_dot, simp_all)
  ultimately have "version_parts ?s = [p, q, ''0'']" by (simp only: version_parts_def)
  moreover have "stripMinor a = ?s" using False ps by (simp add: stripMinor_def numeral_2_eq_2)
  ultimately show ?thesis using False ps by (simp add: readVersion_def pad_parts_def numeral_2_eq_2)
qed

lemma readVersion_nonneg: "readVersion a = Version x y z \<Longrightarrow> 0 \<le> z"
  by (auto simp: readVersion_def Let_def split: if_splits)

lemma stripMinor_le: "readVersion (stripMinor a) \<le> readVersion a"
proof (cases "readVersion a")
  case (Version x y z)
  then show ?thesis using readVersion_nonneg [OF Version]
    by (auto simp: readVersion_stripMinor less_eq_version_def less_version_def)
qed (simp add: readVersion_stripMinor less_eq_version_def less_version_def)

text \<open>
  Comparing versions is comparing three numbers.  The result is the order of the triples of
  major, minor and patch numbers that the strings stand for, in which no version at all is greater
  than every other; so the comparison is reflexive, antisymmetric in its sign and transitive.  A
  version without its patch number is never greater than the version, and stripping it again
  changes nothing.
\<close>

theorem versions_ordered:
  "compareVersions a b = (if readVersion a < readVersion b then -1 else if readVersion a = readVersion b then 0 else 1) \<and>
   compareVersions (stripMinor a) a \<le> 0 \<and>
   compareVersions (stripMinor (stripMinor a)) (stripMinor a) = 0"
proof -
  have exact: "compareVersions x y = (if readVersion x < readVersion y then -1 else if readVersion x = readVersion y then 0 else 1)"
    for x y
    by (auto simp: compareVersions_def readVersion_def less_version_def numeral_3_eq_3 numeral_2_eq_2 Let_def)
  show ?thesis
    using stripMinor_le [of a] by (auto simp: exact readVersion_stripMinor split: version.splits)
qed

end
