(* ===== verification/MozillaVpn.thy ===== *)
theory MozillaVpn
  imports DeviceModel VersionUtils ServerData ErrorHandler TaskScheduler TaskControllerAction
begin

text \<open>
  Model of \<^verbatim>\<open>src/mozillavpn.cpp\<close> and of the state in \<^verbatim>\<open>src/app.cpp\<close>: the state machine behind the
  screens, from the sign-in over the registration of this device to the main view, with the slots
  that the tasks call when their replies arrive.  The user, the keys, the devices, the servers and
  the errors are the records of their own models.  The task queue is kept as the list whose first
  element is the running task; a function task runs when it becomes the first.
\<close>

section \<open>States and tasks\<close>

datatype vpn_state =
    VsInitialize | VsAuthenticating | VsBillingNotAvailable | VsMain | VsSubscriptionBlocked
  | VsSubscriptionNeeded | VsSubscriptionInProgress | VsSubscriptionNotValidated | VsOnboarding
  | VsDeviceLimit | VsHeartbeatFailure | VsUpdateRequired

text \<open>The functions the state machine schedules to run after other tasks.\<close>

datatype vpn_callback = CbMaybeStateMain | CbDeviceLimit | CbSubscriptionFailed | CbKeyRegeneration

datatype vpn_task =
    TkControllerAction task_action | TkAddDevice | TkRemoveDevice string
  | TkAccount propagation_policy | TkServers propagation_policy | TkCaptivePortalLookup propagation_policy
  | TkGetSubscriptionDetails propagation_policy | TkGetLocation propagation_policy | TkHeartbeat | TkAddonIndex
  | TkAuthenticate | TkDeleteAccount string | TkFunction vpn_callback | TkGroup "vpn_task list"

fun vpn_policy :: "vpn_task \<Rightarrow> delete_policy" where
  "vpn_policy (TkControllerAction a) = NonDeletable"
| "vpn_policy TkAddDevice = NonDeletable"
| "vpn_policy (TkRemoveDevice pk) = NonDeletable"
| "vpn_policy TkAddonIndex = Reschedulable"
| "vpn_policy (TkGroup ts) = group_policy (map vpn_policy ts) 0 (length ts)"
| "vpn_policy _ = Deletable"

datatype vpn_out =
    VpnStateChanged vpn_state | ControllerInitialize | ComponentsInitialized
  | AuthenticationStarted | AuthenticationAborted | AuthenticationCompleted | AuthMaybeChanged
  | DeviceRemoved string | DeviceRemoving string
  | StopSubscription | StartSubscription string | StartRestoreSubscription | StopProductsRegistration
  | DeleteOSTunnelConfig | SubscriptionNotFoundNotification | ConnectionFailureNotification
  | UpdatingChanged | UpdateSoon | ControllerQuit | TerminateSession | AccountDeleted
  | AssertFailed string

text \<open>
  What the handlers read of the rest of the client: the Qt parsers, the orders and the ranking of
  the server list, this device, the clock, features, the controller and the connection's health.
\<close>

record vpn_env =
  ve_parseDoc :: "string \<Rightarrow> json"
  ve_printDoc :: "json \<Rightarrow> string"
  ve_isoDate :: "string \<Rightarrow> int option"
  ve_inProd :: bool
  ve_ltCity :: "string \<Rightarrow> string \<Rightarrow> bool"
  ve_ltCountry :: "server_country \<Rightarrow> server_country \<Rightarrow> bool"
  ve_recommended :: "server_country_model \<Rightarrow> server_city list"
  ve_deviceName :: string
  ve_uniqueId :: string
  ve_versionString :: string
  ve_now :: int
  ve_webPurchase :: bool
  ve_productsRegistered :: bool
  ve_controller :: controller_state
  ve_unsettled :: bool
  ve_locationInitialized :: bool
  ve_platform :: platform

record mozilla_vpn =
  mv_state :: vpn_state
  mv_settings :: vpn_settings
  mv_user :: user
  mv_keys :: keys
  mv_devices :: device_model
  mv_servers :: server_country_model
  mv_serverData :: server_data
  mv_sdSettings :: server_settings
  mv_errors :: "vpn_env error_handler"
  mv_periodic :: bool
  mv_initialized :: bool
  mv_updating :: bool
  mv_controllerInitialized :: bool
  mv_tasks :: "vpn_task list"
  mv_rescheduled :: "vpn_task list"
  mv_out :: "vpn_out list"

definition vpn_emit :: "vpn_out \<Rightarrow> mozilla_vpn \<Rightarrow> mozilla_vpn" where
  "vpn_emit x s = s\<lparr>mv_out := mv_out s @ [x]\<rparr>"

text \<open>\<^verbatim>\<open>Q_ASSERT\<close>: a failed assertion is recorded; a release build goes on.\<close>

definition vpn_assert :: "string \<Rightarrow> bool \<Rightarrow> mozilla_vpn \<Rightarrow> mozilla_vpn" where
  "vpn_assert what ok s = (if ok then s else vpn_emit (AssertFailed what) s)"

definition vpn_schedule :: "vpn_task \<Rightarrow> mozilla_vpn \<Rightarrow> mozilla_vpn" where
  "vpn_schedule t s = s\<lparr>mv_tasks := mv_tasks s @ [t]\<rparr>"

text \<open>
  \<^verbatim>\<open>TaskScheduler::deleteTasks\<close>: the running task is cancelled only if it is deletable, of the others
  only those that may not be deleted stay; the reschedulable ones come back through the event loop.
\<close>

definition vpn_deleteTasks :: "mozilla_vpn \<Rightarrow> mozilla_vpn" where
  "vpn_deleteTasks s =
    (case mv_tasks s of
       [] \<Rightarrow> s
     | t # ts \<Rightarrow>
         s\<lparr>mv_tasks := (if vpn_policy t = Deletable then [] else [t]) @ filter (\<lambda>t. vpn_policy t = NonDeletable) ts,
           mv_rescheduled := mv_rescheduled s @ filter (\<lambda>t. vpn_policy t = Reschedulable) ts\<rparr>)"

section \<open>State changes, reset and errors\<close>

text \<open>\<^verbatim>\<open>App::setState\<close> with the slot that the constructor connects to \<^verbatim>\<open>stateChanged\<close>.\<close>

definition vpn_stateChanged :: "vpn_env \<Rightarrow> mozilla_vpn \<Rightarrow> mozilla_vpn" where
  "vpn_stateChanged env s =
    (if mv_state s = VsMain \<or> mv_state s = VsOnboarding
     then (if ve_controller env = StateInitializing then vpn_emit ControllerInitialize s else s)\<lparr>mv_periodic := True\<rparr>
     else vpn_schedule (TkControllerAction EDeactivate) (s\<lparr>mv_periodic := False\<rparr>))"

definition vpn_setState :: "vpn_env \<Rightarrow> vpn_state \<Rightarrow> mozilla_vpn \<Rightarrow> mozilla_vpn" where
  "vpn_setState env st s = vpn_stateChanged env (vpn_emit (VpnStateChanged st) (s\<lparr>mv_state := st\<rparr>))"

definition userAuthenticated :: "mozilla_vpn \<Rightarrow> bool" where
  "userAuthenticated s = (mv_state s \<notin> {VsInitialize, VsAuthenticating} \<and> st_token (mv_settings s) \<noteq> None)"

text \<open>\<^verbatim>\<open>SettingsManager::reset\<close>: the settings marked so go back to their defaults.\<close>

definition resetSettings :: "vpn_settings \<Rightarrow> vpn_settings" where
  "resetSettings st =
     st\<lparr>st_token := None, st_privateKey := [], st_publicKey := [], st_devices := [], st_servers := [],
        st_userAvatar := None, st_userDisplayName := None, st_userEmail := None, st_userMaxDevices := None,
        st_userSubscriptionNeeded := None, st_deviceKeyVersion := None, st_keyRegenerationTimeSec := None\<rparr>"

definition emptySdSettings :: server_settings where
  "emptySdSettings = \<lparr>st_serverData = None, st_currentCountryDeprecated = None, st_currentCityDeprecated = None,
     st_entryCountryDeprecated = None, st_entryCityDeprecated = None\<rparr>"

definition vpn_resetSettings :: "mozilla_vpn \<Rightarrow> mozilla_vpn" where
  "vpn_resetSettings s = s\<lparr>mv_settings := resetSettings (mv_settings s), mv_sdSettings := emptySdSettings\<rparr>"

definition vpn_activate :: "(mozilla_vpn \<Rightarrow> mozilla_vpn) \<Rightarrow> mozilla_vpn \<Rightarrow> mozilla_vpn" where
  "vpn_activate regenerate s = vpn_schedule (TkControllerAction EActivate) (regenerate (vpn_deleteTasks s))"

definition vpn_deactivate :: "mozilla_vpn \<Rightarrow> mozilla_vpn" where
  "vpn_deactivate s = vpn_schedule (TkControllerAction EDeactivate) (vpn_deleteTasks s)"

definition vpn_silentSwitch :: "mozilla_vpn \<Rightarrow> mozilla_vpn" where
  "vpn_silentSwitch s = vpn_schedule (TkControllerAction ESilentSwitch) (vpn_deleteTasks s)"

definition vpn_reset :: "vpn_env \<Rightarrow> bool \<Rightarrow> mozilla_vpn \<Rightarrow> mozilla_vpn" where
  "vpn_reset env forceInitialState s =
    (let s1 = vpn_resetSettings (vpn_deactivate s);
         s2 = s1\<lparr>mv_keys := forgetKeys (mv_keys s1), mv_serverData := forget (mv_serverData s1)\<rparr>;
         s3 = vpn_emit StopSubscription (vpn_emit DeleteOSTunnelConfig s2);
         s4 = (if ve_webPurchase env then s3 else vpn_emit StopProductsRegistration s3)
     in if forceInitialState then vpn_setState env VsInitialize s4 else vpn_emit AuthMaybeChanged s4)"

definition vpn_errorHandled :: "vpn_env \<Rightarrow> mozilla_vpn \<Rightarrow> mozilla_vpn" where
  "vpn_errorHandled env s =
    (let alert = eh_alert (mv_errors s);
         s1 = (if alert = ControllerErrorAlert then vpn_emit ConnectionFailureNotification s else s)
     in if mv_state s1 = VsAuthenticating then vpn_reset env True s1
        else if alert = AuthenticationFailedAlert then vpn_reset env True s1
        else s1)"

text \<open>What the error handler has done, with the slot behind its signal.\<close>

definition vpn_after_error :: "vpn_env \<Rightarrow> vpn_env error_handler option \<Rightarrow> mozilla_vpn \<Rightarrow> mozilla_vpn" where
  "vpn_after_error env result s =
    (case result of
       None \<Rightarrow> s
     | Some h \<Rightarrow>
         let s1 = s\<lparr>mv_errors := h\<rparr>
         in if ErrorHandled \<in> set (drop (length (eh_out (mv_errors s))) (eh_out h)) then vpn_errorHandled env s1 else s1)"

definition reportError :: "vpn_env \<Rightarrow> error_type \<Rightarrow> mozilla_vpn \<Rightarrow> mozilla_vpn" where
  "reportError env e s = vpn_after_error env (errorHandle env e (mv_errors s)) s"

definition reportNetworkError :: "vpn_env \<Rightarrow> network_error \<Rightarrow> propagation_policy \<Rightarrow> mozilla_vpn \<Rightarrow> mozilla_vpn" where
  "reportNetworkError env e policy s = vpn_after_error env (networkErrorHandle env e policy (mv_errors s)) s"

definition registerErrorHandlers :: "vpn_env error_handler \<Rightarrow> vpn_env error_handler" where
  "registerErrorHandlers h =
     registerCustomErrorHandler DependentConnectionError True
       (\<lambda>env. if ve_controller env = StateOn \<or> ve_controller env = StateConfirming then NoAlert
              else if ve_controller env = StateOff then NoConnectionAlert
              else ConnectionFailedAlert)
       (registerCustomErrorHandler NoConnectionError True
          (\<lambda>env. if ve_unsettled env then NoAlert else NoConnectionAlert) h)"

section \<open>Towards the main view\<close>

definition modelsInitialized :: "mozilla_vpn \<Rightarrow> bool" where
  "modelsInitialized s =
     (us_initialized (mv_user s) \<and> scm_initialized (mv_servers s) \<and> dm_initialized (mv_devices s) \<and>
      hasCurrentDevice (mv_keys s) (mv_devices s) \<and> keys_initialized (mv_keys s))"

definition scheduleRefreshDataTasks :: "vpn_env \<Rightarrow> mozilla_vpn \<Rightarrow> mozilla_vpn" where
  "scheduleRefreshDataTasks env s =
    (let s1 = (if \<not> ve_locationInitialized env \<and> (ve_controller env = StateOff \<or> ve_controller env = StateInitializing)
               then vpn_schedule (TkGetLocation PropagateError) s else s)
     in vpn_schedule (TkGroup [TkAccount PropagateError, TkServers PropagateError, TkCaptivePortalLookup PropagateError,
                               TkGetSubscriptionDetails PropagateError]) s1)"

definition addCurrentDeviceAndRefreshData :: "vpn_env \<Rightarrow> mozilla_vpn \<Rightarrow> mozilla_vpn" where
  "addCurrentDeviceAndRefreshData env s = scheduleRefreshDataTasks env (vpn_schedule TkAddDevice s)"

definition maybeRegenerateDeviceKey :: "vpn_env \<Rightarrow> mozilla_vpn \<Rightarrow> mozilla_vpn" where
  "maybeRegenerateDeviceKey env s =
    (let st = mv_settings s
     in if (\<exists>v \<in> set_option (st_deviceKeyVersion st). 0 \<le> compareVersions v ''2.5.0'') then s
        else if st_dnsProviderFlags st = dns_Gateway then s
        else vpn_schedule (TkFunction CbKeyRegeneration)
               (addCurrentDeviceAndRefreshData env
                  (vpn_assert ''maybeRegenerateDeviceKey'' (hasCurrentDevice (mv_keys s) (mv_devices s)) s)))"

definition maybeStateMain :: "vpn_env \<Rightarrow> mozilla_vpn \<Rightarrow> mozilla_vpn" where
  "maybeStateMain env s =
    (if us_initialized (mv_user s) \<and> mv_state s \<noteq> VsSubscriptionBlocked \<and> us_subscriptionNeeded (mv_user s)
     then vpn_setState env VsSubscriptionNeeded s
     else if us_initialized (mv_user s) \<and> mv_state s = VsSubscriptionBlocked then s
     else if \<not> hasCurrentDevice (mv_keys s) (mv_devices s)
     then vpn_setState env VsDeviceLimit
            (vpn_assert ''maybeStateMain devices'' (activeDevices (mv_devices s) = us_maxDevices (mv_user s)) s)
     else if \<not> st_onboardingCompleted (mv_settings s)
     then let s1 = vpn_setState env VsOnboarding s
          in s1\<lparr>mv_settings := (mv_settings s1)\<lparr>st_onboardingStarted := True\<rparr>\<rparr>
     else if \<not> modelsInitialized s
     then vpn_setState env VsInitialize (reportError env RemoteServiceError (vpn_resetSettings s))
     else
       let s1 = maybeRegenerateDeviceKey env (vpn_assert ''maybeStateMain server'' (hasServerData (mv_serverData s)) s)
       in if mv_state s1 \<noteq> VsUpdateRequired
          then let s2 = vpn_setState env VsMain (s1\<lparr>mv_settings := (mv_settings s1)\<lparr>st_onboardingCompleted := True\<rparr>\<rparr>)
               in s2\<lparr>mv_settings := (mv_settings s2)\<lparr>st_onboardingStep := 0, st_onboardingDataCollectionEnabled := False\<rparr>\<rparr>
          else s1)"

datatype removal_option = DeviceNotFound | DeviceStillValid | DeviceToRemove

definition maybeRemoveCurrentDevice :: "vpn_env \<Rightarrow> mozilla_vpn \<Rightarrow> removal_option \<times> mozilla_vpn" where
  "maybeRemoveCurrentDevice env s =
    (case deviceFromUniqueId (ve_uniqueId env) (mv_devices s) of
       None \<Rightarrow> (DeviceNotFound, s)
     | Some d \<Rightarrow>
         if dv_publicKey d = ks_publicKey (mv_keys s) \<and> ks_privateKey (mv_keys s) \<noteq> [] then (DeviceStillValid, s)
         else (DeviceToRemove, vpn_schedule (TkRemoveDevice (dv_publicKey d)) s))"

definition completeActivation :: "vpn_env \<Rightarrow> mozilla_vpn \<Rightarrow> mozilla_vpn" where
  "completeActivation env s =
    (let (opt, s1) = maybeRemoveCurrentDevice env s;
         deviceCount = (if opt = DeviceToRemove then activeDevices (mv_devices s) - 1 else activeDevices (mv_devices s))
     in if us_maxDevices (mv_user s1) \<le> deviceCount \<and> opt = DeviceNotFound then maybeStateMain env s1
        else vpn_schedule (TkFunction CbMaybeStateMain)
               (if opt \<noteq> DeviceStillValid then addCurrentDeviceAndRefreshData env s1 else scheduleRefreshDataTasks env s1))"

text \<open>Outside the device-limit state the check always succeeds, whether the device is there or not.\<close>

definition checkCurrentDevice :: "mozilla_vpn \<Rightarrow> bool" where
  "checkCurrentDevice s = (mv_state s \<noteq> VsDeviceLimit)"

section \<open>Start, sign-in and devices\<close>

definition keys_from :: "vpn_env \<Rightarrow> mozilla_vpn \<Rightarrow> bool \<times> mozilla_vpn" where
  "keys_from env s =
    (let (ok, st, k) = keys_fromSettings (ve_parseDoc env) (ve_isoDate env) (ve_deviceName env) (mv_settings s) (mv_keys s)
     in (ok, s\<lparr>mv_settings := st, mv_keys := k\<rparr>))"

text \<open>\<^verbatim>\<open>ServerData\<close> is given its state with the settings; its signals go elsewhere.\<close>

definition vpn_pickServer :: "vpn_env \<Rightarrow> mozilla_vpn \<Rightarrow> mozilla_vpn" where
  "vpn_pickServer env s =
    (case pickBest (ve_recommended env (mv_servers s)) of
       country # city # _ \<Rightarrow>
         let (d, st, out) = sd_update (ve_parseDoc env) (ve_printDoc env) (mv_servers s) country city [] []
                              (mv_serverData s, mv_sdSettings s, [])
         in vpn_assert ''server data'' (hasServerData d) (s\<lparr>mv_serverData := d, mv_sdSettings := st\<rparr>)
     | _ \<Rightarrow> vpn_assert ''pickBest'' False s)"

definition server_from_settings :: "vpn_env \<Rightarrow> mozilla_vpn \<Rightarrow> mozilla_vpn" where
  "server_from_settings env s =
    (let (ok, d, st, out) = sd_fromSettings (ve_parseDoc env) (ve_printDoc env) (mv_servers s)
                              (mv_serverData s, mv_sdSettings s, []);
         s1 = s\<lparr>mv_serverData := d, mv_sdSettings := st\<rparr>
     in if ok then s1 else vpn_pickServer env s1)"

definition initialize_models :: "vpn_env \<Rightarrow> mozilla_vpn \<Rightarrow> mozilla_vpn" where
  "initialize_models env s =
    (let (ok1, s1) = keys_from env s
     in if \<not> ok1 then vpn_resetSettings s1
        else let (ok2, scm) = scm_fromSettings (ve_parseDoc env) (ve_inProd env) (ve_ltCity env) (ve_ltCountry env)
                                (st_servers (mv_settings s1)) (mv_servers s1);
                 s2 = s1\<lparr>mv_servers := scm\<rparr>
             in if \<not> ok2 then vpn_resetSettings s2
                else let (ok3, dm) = dm_fromSettings (ve_parseDoc env) (ve_isoDate env) (mv_keys s2) (mv_settings s2) (mv_devices s2);
                         s3 = s2\<lparr>mv_devices := dm\<rparr>
                     in if \<not> ok3 then vpn_resetSettings s3
                        else if \<not> checkCurrentDevice s3 then s3
                        else if \<not> modelsInitialized s3 then vpn_resetSettings s3
                        else maybeStateMain env
                               (scheduleRefreshDataTasks env
                                 (server_from_settings env
                                   (vpn_assert ''no server data'' (\<not> hasServerData (mv_serverData s3)) s3))))"

definition vpn_initialize :: "vpn_env \<Rightarrow> mozilla_vpn \<Rightarrow> mozilla_vpn" where
  "vpn_initialize env s =
    (let s1 = vpn_assert ''first state'' (mv_state s = VsInitialize)
                ((vpn_assert ''initialized once'' (\<not> mv_initialized s) s)\<lparr>mv_initialized := True\<rparr>);
         s2 = vpn_schedule (TkGroup [TkAddonIndex]) (vpn_emit ComponentsInitialized s1)
     in if st_token (mv_settings s2) = None then s2
        else let (ok, u) = user_fromSettings (mv_settings s2) (mv_user s2); s3 = s2\<lparr>mv_user := u\<rparr>
             in if \<not> ok then s3
                else if us_subscriptionNeeded u then vpn_schedule (TkFunction CbMaybeStateMain) (vpn_setState env VsAuthenticating s3)
                else initialize_models env s3)"

definition vpn_authenticate :: "vpn_env \<Rightarrow> mozilla_vpn \<Rightarrow> mozilla_vpn" where
  "vpn_authenticate env s =
    (let s1 = vpn_setState env VsAuthenticating (vpn_assert ''authenticate'' (mv_state s = VsInitialize) s);
         s2 = s1\<lparr>mv_errors := setAlert NoAlert (mv_errors s1)\<rparr>
     in vpn_emit AuthenticationStarted (vpn_schedule TkAuthenticate (vpn_schedule TkHeartbeat s2)))"

definition abortAuthentication :: "vpn_env \<Rightarrow> mozilla_vpn \<Rightarrow> mozilla_vpn" where
  "abortAuthentication env s =
     vpn_emit AuthenticationAborted
       (vpn_setState env VsInitialize (vpn_assert ''abortAuthentication'' (mv_state s = VsAuthenticating) s))"

definition completeAuthentication :: "vpn_env \<Rightarrow> string \<Rightarrow> string \<Rightarrow> mozilla_vpn \<Rightarrow> mozilla_vpn" where
  "completeAuthentication env json token s =
    (let s1 = vpn_emit AuthenticationCompleted s;
         (ok, u) = user_fromJson (ve_parseDoc env) json (mv_user s1);
         s2 = s1\<lparr>mv_user := u\<rparr>
     in if \<not> ok then reportError env RemoteServiceError s2
        else let (ok', dm) = dm_fromJson (ve_parseDoc env) (ve_isoDate env) (mv_keys s2) json (mv_devices s2);
                 s3 = s2\<lparr>mv_devices := dm\<rparr>
             in if \<not> ok' then reportError env RemoteServiceError s3
                else let s4 = s3\<lparr>mv_settings := (dm_writeSettings dm (user_writeSettings u (mv_settings s3)))\<lparr>st_token := Some token\<rparr>\<rparr>
                     in if us_subscriptionNeeded u then maybeStateMain env s4
                        else completeActivation env (if ve_webPurchase env then vpn_emit StopSubscription s4 else s4))"

definition authenticationCompletedInternal :: "vpn_env \<Rightarrow> string \<Rightarrow> mozilla_vpn \<Rightarrow> mozilla_vpn" where
  "authenticationCompletedInternal env reply s =
    (let doc = ve_parseDoc env reply; obj = toObject doc; userObj = obj_value obj ''user''; token = obj_value obj ''token''
     in if doc = JNull \<or> \<not> isObject userObj \<or> \<not> isString token then reportError env RemoteServiceError s
        else completeAuthentication env (ve_printDoc env userObj) (toString token) s)"

definition deviceAdded :: "vpn_env \<Rightarrow> string \<Rightarrow> string \<Rightarrow> mozilla_vpn \<Rightarrow> mozilla_vpn" where
  "deviceAdded env publicKey privateKey s =
     s\<lparr>mv_settings := (mv_settings s)\<lparr>st_privateKey := privateKey, st_publicKey := publicKey,
          st_deviceKeyVersion := Some (ve_versionString env), st_keyRegenerationTimeSec := Some (ve_now env)\<rparr>,
       mv_keys := storeKeys privateKey publicKey (mv_keys s)\<rparr>"

definition vpn_removeDevice :: "vpn_env \<Rightarrow> string \<Rightarrow> mozilla_vpn \<Rightarrow> mozilla_vpn" where
  "vpn_removeDevice env publicKey s =
    (let s1 = vpn_emit (DeviceRemoved ''TaskRemoveDevice'') (s\<lparr>mv_devices := removeDeviceFromPublicKey publicKey (mv_devices s)\<rparr>)
     in if mv_state s1 \<noteq> VsDeviceLimit then s1
        else vpn_schedule (TkFunction CbDeviceLimit)
               (addCurrentDeviceAndRefreshData env
                 (vpn_assert ''removeDevice'' (\<not> hasCurrentDevice (mv_keys s1) (mv_devices s1)) s1)))"

definition deviceRemovalCompleted :: "string \<Rightarrow> mozilla_vpn \<Rightarrow> mozilla_vpn" where
  "deviceRemovalCompleted publicKey s = s\<lparr>mv_devices := stopDeviceRemoval publicKey (mv_keys s) (mv_devices s)\<rparr>"

definition vpn_requestRemoval :: "string \<Rightarrow> mozilla_vpn \<Rightarrow> mozilla_vpn" where
  "vpn_requestRemoval publicKey s =
    (let s1 = vpn_schedule (TkRemoveDevice publicKey) (vpn_emit (DeviceRemoving publicKey) s)
     in if mv_state s1 \<noteq> VsDeviceLimit then s1\<lparr>mv_devices := startDeviceRemoval publicKey (mv_devices s1)\<rparr> else s1)"

definition serversFetched :: "vpn_env \<Rightarrow> string \<Rightarrow> mozilla_vpn \<Rightarrow> mozilla_vpn" where
  "serversFetched env json s =
    (let (ok, changed, scm) = scm_fromJson (ve_parseDoc env) (ve_inProd env) (ve_ltCity env) (ve_ltCountry env) json (mv_servers s);
         s1 = s\<lparr>mv_servers := scm\<rparr>
     in if \<not> ok then s1
        else let s2 = s1\<lparr>mv_settings := (mv_settings s1)\<lparr>st_servers := json\<rparr>\<rparr>; d = mv_serverData s2
             in if \<not> hasServerData d \<or> \<not> scm_exists scm (sd_exitCountryCode d) (sd_exitCityName d)
                then vpn_pickServer env s2 else s2)"

definition vpn_accountChecked :: "vpn_env \<Rightarrow> string \<Rightarrow> mozilla_vpn \<Rightarrow> mozilla_vpn" where
  "vpn_accountChecked env json s =
    (let (ok, u) = user_fromJson (ve_parseDoc env) json (mv_user s); s1 = s\<lparr>mv_user := u\<rparr>
     in if \<not> ok then s1
        else let (ok', dm) = dm_fromJson (ve_parseDoc env) (ve_isoDate env) (mv_keys s1) json (mv_devices s1);
                 s2 = s1\<lparr>mv_devices := dm\<rparr>
             in if \<not> ok' then s2
                else let s3 = s2\<lparr>mv_settings := dm_writeSettings dm (user_writeSettings u (mv_settings s2))\<rparr>
                     in if \<not> checkCurrentDevice s3 then s3
                        else if us_subscriptionNeeded u \<and> mv_state s3 = VsMain
                        then maybeStateMain env (vpn_emit SubscriptionNotFoundNotification s3)
                        else s3)"

definition cancelAuthentication :: "vpn_env \<Rightarrow> mozilla_vpn \<Rightarrow> mozilla_vpn" where
  "cancelAuthentication env s =
     (if mv_state s \<noteq> VsAuthenticating then s else vpn_reset env True (vpn_emit AuthenticationAborted s))"

definition cancelReauthentication :: "vpn_env \<Rightarrow> mozilla_vpn \<Rightarrow> mozilla_vpn" where
  "cancelReauthentication env s = cancelAuthentication env (vpn_emit TerminateSession s)"

definition vpn_logout :: "vpn_env \<Rightarrow> mozilla_vpn \<Rightarrow> mozilla_vpn" where
  "vpn_logout env s =
    (let s1 = vpn_deleteTasks (vpn_deactivate (s\<lparr>mv_errors := requestAlert LogoutAlert (mv_errors s)\<rparr>));
         s2 = (if hasCurrentDevice (mv_keys s1) (mv_devices s1)
               then vpn_schedule (TkRemoveDevice (ks_publicKey (mv_keys s1))) s1 else s1)
     in vpn_reset env (mv_state s2 \<noteq> VsUpdateRequired) s2)"

definition vpn_onboardingCompleted :: "vpn_env \<Rightarrow> mozilla_vpn \<Rightarrow> mozilla_vpn" where
  "vpn_onboardingCompleted env s =
    (let st = mv_settings s;
         s1 = s\<lparr>mv_settings := st\<lparr>st_onboardingCompleted := True, st_gleanEnabled := st_onboardingDataCollectionEnabled st\<rparr>\<rparr>
     in if mv_state s1 = VsUpdateRequired then s1
        else if \<not> userAuthenticated s1 then vpn_authenticate env s1
        else maybeStateMain env s1)"

definition refreshDevices :: "mozilla_vpn \<Rightarrow> mozilla_vpn" where
  "refreshDevices s = (if mv_state s = VsMain then vpn_schedule (TkAccount DoNotPropagateError) s else s)"

section \<open>Subscription, update and heartbeat\<close>

definition subscriptionStarted :: "vpn_env \<Rightarrow> string \<Rightarrow> mozilla_vpn \<Rightarrow> mozilla_vpn" where
  "subscriptionStarted env product s =
    (let s1 = vpn_setState env VsSubscriptionInProgress s
     in vpn_emit (StartSubscription product)
          (if ve_webPurchase env then s1 else vpn_assert ''products'' (ve_productsRegistered env) s1))"

definition restoreSubscriptionStarted :: "vpn_env \<Rightarrow> mozilla_vpn \<Rightarrow> mozilla_vpn" where
  "restoreSubscriptionStarted env s = vpn_emit StartRestoreSubscription (vpn_setState env VsSubscriptionInProgress s)"

definition subscriptionCompleted :: "vpn_env \<Rightarrow> mozilla_vpn \<Rightarrow> mozilla_vpn" where
  "subscriptionCompleted env s =
     (if ve_platform env = Android \<and> mv_state s \<noteq> VsSubscriptionInProgress then s else completeActivation env s)"

definition billingNotAvailable :: "vpn_env \<Rightarrow> mozilla_vpn \<Rightarrow> mozilla_vpn" where
  "billingNotAvailable env s = (if us_subscriptionNeeded (mv_user s) then vpn_setState env VsBillingNotAvailable s else s)"

definition subscriptionNotValidated :: "vpn_env \<Rightarrow> mozilla_vpn \<Rightarrow> mozilla_vpn" where
  "subscriptionNotValidated env s = vpn_setState env VsSubscriptionNotValidated s"

definition subscriptionFailedInternal :: "vpn_env \<Rightarrow> bool \<Rightarrow> mozilla_vpn \<Rightarrow> mozilla_vpn" where
  "subscriptionFailedInternal env canceledByUser s =
    (if ve_platform env = Ios \<and> mv_state s \<noteq> VsSubscriptionInProgress then s
     else let s1 = vpn_setState env VsSubscriptionNeeded s
          in vpn_schedule (TkFunction CbSubscriptionFailed)
               (if canceledByUser then s1 else reportError env SubscriptionFailureError s1))"

definition alreadySubscribed :: "vpn_env \<Rightarrow> mozilla_vpn \<Rightarrow> mozilla_vpn" where
  "alreadySubscribed env s =
     (if ve_platform env = Ios \<and> mv_state s \<noteq> VsSubscriptionInProgress then s else vpn_setState env VsSubscriptionBlocked s)"

definition vpn_update :: "vpn_env \<Rightarrow> mozilla_vpn \<Rightarrow> mozilla_vpn" where
  "vpn_update env s =
    (let s1 = vpn_emit UpdatingChanged (s\<lparr>mv_updating := True\<rparr>)
     in if ve_platform env \<noteq> Windows \<and> ve_controller env \<noteq> StateOff \<and> ve_controller env \<noteq> StateInitializing
        then vpn_deactivate s1 else vpn_emit UpdateSoon s1)"

definition controllerStateChanged :: "vpn_env \<Rightarrow> mozilla_vpn \<Rightarrow> mozilla_vpn" where
  "controllerStateChanged env s =
    (let s1 = (if \<not> mv_controllerInitialized s
               then let s0 = s\<lparr>mv_controllerInitialized := True\<rparr>
                    in if st_startAtBoot (mv_settings s0) then vpn_activate (maybeRegenerateDeviceKey env) s0 else s0
               else s)
     in if mv_updating s1 \<and> ve_controller env = StateOff then vpn_update env s1 else s1)"

definition heartbeatCompleted :: "vpn_env \<Rightarrow> bool \<Rightarrow> mozilla_vpn \<Rightarrow> mozilla_vpn" where
  "heartbeatCompleted env success s =
    (if \<not> success \<and> mv_state s = VsAuthenticating then vpn_setState env VsHeartbeatFailure (vpn_deleteTasks s)
     else if mv_state s \<noteq> VsHeartbeatFailure then s
     else if \<not> modelsInitialized s \<or> \<not> userAuthenticated s then vpn_setState env VsInitialize s
     else maybeStateMain env s)"

text \<open>The two replies of the heartbeat: the status of a failure, or the document.\<close>

definition heartbeat_failed :: "int \<Rightarrow> bool" where
  "heartbeat_failed status = (\<not> (500 \<le> status \<and> status \<le> 509) \<and> \<not> (400 \<le> status \<and> status \<le> 409))"

definition heartbeat_reply :: "json_object \<Rightarrow> bool" where
  "heartbeat_reply obj =
    (let mullvad = obj_value obj ''mullvadOK''; db = obj_value obj ''dbOK''
     in \<not> isBool mullvad \<or> \<not> isBool db \<or> (toBool mullvad \<and> toBool db))"

text \<open>\<^verbatim>\<open>SettingsManager::hardReset\<close> brings every setting back to its default.\<close>

definition defaultSettings :: vpn_settings where
  "defaultSettings = \<lparr>st_token = None, st_privateKey = [], st_publicKey = [], st_devices = [], st_servers = [],
     st_userAvatar = None, st_userDisplayName = None, st_userEmail = None, st_userMaxDevices = None,
     st_userSubscriptionNeeded = None, st_deviceKeyVersion = None, st_keyRegenerationTimeSec = None,
     st_onboardingStarted = False, st_onboardingCompleted = False, st_onboardingStep = 0,
     st_onboardingDataCollectionEnabled = False, st_gleanEnabled = True, st_dnsProviderFlags = dns_Gateway,
     st_startAtBoot = False\<rparr>"

definition vpn_hardReset :: "mozilla_vpn \<Rightarrow> mozilla_vpn" where
  "vpn_hardReset s = vpn_emit DeleteOSTunnelConfig (s\<lparr>mv_settings := defaultSettings, mv_sdSettings := emptySdSettings\<rparr>)"

definition hardResetAndQuit :: "mozilla_vpn \<Rightarrow> mozilla_vpn" where
  "hardResetAndQuit s = vpn_emit ControllerQuit (vpn_hardReset s)"

fun run_callback :: "vpn_env \<Rightarrow> vpn_callback \<Rightarrow> mozilla_vpn \<Rightarrow> mozilla_vpn" where
  "run_callback env CbMaybeStateMain s = maybeStateMain env s"
| "run_callback env CbDeviceLimit s = (if mv_state s \<noteq> VsDeviceLimit then s else maybeStateMain env s)"
| "run_callback env CbSubscriptionFailed s =
     (if \<not> us_subscriptionNeeded (mv_user s) \<and> mv_state s = VsSubscriptionNeeded then maybeStateMain env s else s)"
| "run_callback env CbKeyRegeneration s =
     (if modelsInitialized s then s else vpn_setState env VsInitialize (reportError env RemoteServiceError s))"

section \<open>Events\<close>

text \<open>
  The events: calls of the interface and of the other components, signals of the purchase handler,
  timers, and the progress of the running task, which is the first of the queue.  The replies of a
  task inside a running group arrive while the group runs.
\<close>

datatype vpn_event =
    EvInitialize | EvAuthenticate | EvCancelAuthentication | EvCancelReauthentication
  | EvOnboardingCompleted | EvLogout | EvReset bool | EvRequestRemoval string | EvRefreshDevices
  | EvSubscriptionStarted string | EvRestoreSubscriptionStarted | EvSubscriptionCompleted | EvBillingNotAvailable
  | EvSubscriptionNotValidated | EvSubscriptionFailed bool | EvAlreadySubscribed
  | EvUpdate | EvActivate | EvDeactivate | EvSilentSwitch | EvTriggerHeartbeat | EvRequestDeleteAccount | EvHardResetAndQuit
  | EvControllerChanged | EvReadyToUpdate | EvError error_type | EvNetworkError network_error propagation_policy | EvAlertTimeout
  | EvAccountData string | EvPeriodic | EvReschedule
  | EvTaskDone | EvFunction | EvAuthReply string | EvAuthAborted
  | EvAddDeviceReply "(string \<times> string) option" network_error
  | EvRemoveDeviceReply bool network_error
  | EvAccountReply "string option" network_error | EvServersReply "string option" network_error
  | EvHeartbeatFailed int | EvHeartbeatReply json_object

definition runs_task :: "(vpn_task \<Rightarrow> bool) \<Rightarrow> mozilla_vpn \<Rightarrow> bool" where
  "runs_task P s =
    (case mv_tasks s of [] \<Rightarrow> False | t # ts \<Rightarrow> P t \<or> (case t of TkGroup us \<Rightarrow> list_ex P us | _ \<Rightarrow> False))"

fun is_function :: "vpn_task \<Rightarrow> bool" where
  "is_function (TkFunction cb) = True"
| "is_function t = False"

fun is_account :: "vpn_task \<Rightarrow> bool" where
  "is_account (TkAccount p) = True"
| "is_account t = False"

fun is_servers :: "vpn_task \<Rightarrow> bool" where
  "is_servers (TkServers p) = True"
| "is_servers t = False"

fun is_removal :: "vpn_task \<Rightarrow> bool" where
  "is_removal (TkRemoveDevice pk) = True"
| "is_removal t = False"

definition first_is :: "vpn_task \<Rightarrow> mozilla_vpn \<Rightarrow> bool" where
  "first_is t s = (case mv_tasks s of [] \<Rightarrow> False | u # us \<Rightarrow> u = t)"

fun vpn_guard :: "mozilla_vpn \<Rightarrow> vpn_env \<times> vpn_event \<Rightarrow> bool" where
  "vpn_guard s (env, EvPeriodic) = mv_periodic s"
| "vpn_guard s (env, EvTaskDone) = (mv_tasks s \<noteq> [] \<and> \<not> is_function (hd (mv_tasks s)))"
| "vpn_guard s (env, EvFunction) = (mv_tasks s \<noteq> [] \<and> is_function (hd (mv_tasks s)))"
| "vpn_guard s (env, EvAuthReply r) = first_is TkAuthenticate s"
| "vpn_guard s (env, EvAuthAborted) = first_is TkAuthenticate s"
| "vpn_guard s (env, EvAddDeviceReply r e) = first_is TkAddDevice s"
| "vpn_guard s (env, EvRemoveDeviceReply r e) = (mv_tasks s \<noteq> [] \<and> is_removal (hd (mv_tasks s)))"
| "vpn_guard s (env, EvAccountReply r e) = runs_task is_account s"
| "vpn_guard s (env, EvServersReply r e) = runs_task is_servers s"
| "vpn_guard s (env, EvHeartbeatFailed n) = runs_task (\<lambda>t. t = TkHeartbeat) s"
| "vpn_guard s (env, EvHeartbeatReply r) = runs_task (\<lambda>t. t = TkHeartbeat) s"
| "vpn_guard s (env, EvReschedule) = (mv_rescheduled s \<noteq> [])"
| "vpn_guard s (env, _) = True"

text \<open>The completion of a task: the next one becomes the running one, and a removal is concluded.\<close>

definition vpn_completed :: "vpn_task \<Rightarrow> mozilla_vpn \<Rightarrow> mozilla_vpn" where
  "vpn_completed t s =
    (if first_is t s
     then let s1 = s\<lparr>mv_tasks := tl (mv_tasks s)\<rparr>
          in case t of TkRemoveDevice pk \<Rightarrow> deviceRemovalCompleted pk s1 | _ \<Rightarrow> s1
     else s)"

text \<open>A reply belongs to the running task itself, or to a member of the running group, which goes on.\<close>

definition reply_done :: "(vpn_task \<Rightarrow> bool) \<Rightarrow> vpn_task \<Rightarrow> mozilla_vpn \<Rightarrow> mozilla_vpn" where
  "reply_done P t s = (if P t then vpn_completed t s else s)"

definition account_policy :: "mozilla_vpn \<Rightarrow> propagation_policy" where
  "account_policy s =
    (case mv_tasks s of
       TkAccount p # ts \<Rightarrow> p
     | TkGroup us # ts \<Rightarrow> (if TkAccount PropagateError \<in> set us then PropagateError else DoNotPropagateError)
     | _ \<Rightarrow> DoNotPropagateError)"

definition servers_policy :: "mozilla_vpn \<Rightarrow> propagation_policy" where
  "servers_policy s =
    (case mv_tasks s of
       TkServers p # ts \<Rightarrow> p
     | TkGroup us # ts \<Rightarrow> (if TkServers PropagateError \<in> set us then PropagateError else DoNotPropagateError)
     | _ \<Rightarrow> DoNotPropagateError)"

definition addDevice_reply :: "vpn_env \<Rightarrow> (string \<times> string) option \<Rightarrow> network_error \<Rightarrow> mozilla_vpn \<Rightarrow> mozilla_vpn" where
  "addDevice_reply env r e s =
     vpn_completed TkAddDevice
       (case r of Some (pub, priv) \<Rightarrow> deviceAdded env pub priv s | None \<Rightarrow> reportNetworkError env e PropagateError s)"

definition removeDevice_reply :: "vpn_env \<Rightarrow> bool \<Rightarrow> network_error \<Rightarrow> string \<Rightarrow> mozilla_vpn \<Rightarrow> mozilla_vpn" where
  "removeDevice_reply env ok e pk s =
     vpn_completed (TkRemoveDevice pk)
       (if ok \<or> e = ContentNotFoundError then vpn_removeDevice env pk s else reportNetworkError env e PropagateError s)"

definition account_task_reply :: "vpn_env \<Rightarrow> string option \<Rightarrow> network_error \<Rightarrow> mozilla_vpn \<Rightarrow> mozilla_vpn" where
  "account_task_reply env r e s =
     reply_done is_account (hd (mv_tasks s))
       (case r of Some json \<Rightarrow> vpn_accountChecked env json s | None \<Rightarrow> reportNetworkError env e (account_policy s) s)"

definition servers_reply :: "vpn_env \<Rightarrow> string option \<Rightarrow> network_error \<Rightarrow> mozilla_vpn \<Rightarrow> mozilla_vpn" where
  "servers_reply env r e s =
     reply_done is_servers (hd (mv_tasks s))
       (case r of Some json \<Rightarrow> serversFetched env json s | None \<Rightarrow> reportNetworkError env e (servers_policy s) s)"

definition heartbeat_done :: "vpn_env \<Rightarrow> bool \<Rightarrow> mozilla_vpn \<Rightarrow> mozilla_vpn" where
  "heartbeat_done env ok s = reply_done (\<lambda>t. t = TkHeartbeat) (hd (mv_tasks s)) (heartbeatCompleted env ok s)"

definition periodic_tasks :: vpn_task where
  "periodic_tasks = TkGroup [TkAccount DoNotPropagateError, TkServers DoNotPropagateError,
     TkCaptivePortalLookup DoNotPropagateError, TkHeartbeat, TkAddonIndex, TkGetSubscriptionDetails PropagateError]"

definition run_function :: "vpn_env \<Rightarrow> mozilla_vpn \<Rightarrow> mozilla_vpn" where
  "run_function env s =
    (case mv_tasks s of TkFunction cb # ts \<Rightarrow> vpn_completed (TkFunction cb) (run_callback env cb s) | _ \<Rightarrow> s)"

definition removal_reply :: "vpn_env \<Rightarrow> bool \<Rightarrow> network_error \<Rightarrow> mozilla_vpn \<Rightarrow> mozilla_vpn" where
  "removal_reply env ok e s =
    (case mv_tasks s of TkRemoveDevice pk # ts \<Rightarrow> removeDevice_reply env ok e pk s | _ \<Rightarrow> s)"

fun vpn_step :: "mozilla_vpn \<Rightarrow> vpn_env \<times> vpn_event \<Rightarrow> mozilla_vpn" where
  "vpn_step s (env, EvInitialize) = vpn_initialize env s"
| "vpn_step s (env, EvAuthenticate) = vpn_authenticate env s"
| "vpn_step s (env, EvCancelAuthentication) = cancelAuthentication env s"
| "vpn_step s (env, EvCancelReauthentication) = cancelReauthentication env s"
| "vpn_step s (env, EvOnboardingCompleted) = vpn_onboardingCompleted env s"
| "vpn_step s (env, EvLogout) = vpn_logout env s"
| "vpn_step s (env, EvReset b) = vpn_reset env b s"
| "vpn_step s (env, EvRequestRemoval pk) = vpn_requestRemoval pk s"
| "vpn_step s (env, EvRefreshDevices) = refreshDevices s"
| "vpn_step s (env, EvSubscriptionStarted p) = subscriptionStarted env p s"
| "vpn_step s (env, EvRestoreSubscriptionStarted) = restoreSubscriptionStarted env s"
| "vpn_step s (env, EvSubscriptionCompleted) = subscriptionCompleted env s"
| "vpn_step s (env, EvBillingNotAvailable) = billingNotAvailable env s"
| "vpn_step s (env, EvSubscriptionNotValidated) = subscriptionNotValidated env s"
| "vpn_step s (env, EvSubscriptionFailed b) = subscriptionFailedInternal env b s"
| "vpn_step s (env, EvAlreadySubscribed) = alreadySubscribed env s"
| "vpn_step s (env, EvUpdate) = vpn_update env s"
| "vpn_step s (env, EvActivate) = vpn_activate (maybeRegenerateDeviceKey env) s"
| "vpn_step s (env, EvDeactivate) = vpn_deactivate s"
| "vpn_step s (env, EvSilentSwitch) = vpn_silentSwitch s"
| "vpn_step s (env, EvTriggerHeartbeat) = vpn_schedule TkHeartbeat s"
| "vpn_step s (env, EvRequestDeleteAccount) = vpn_schedule (TkDeleteAccount (us_email (mv_user s))) s"
| "vpn_step s (env, EvHardResetAndQuit) = hardResetAndQuit s"
| "vpn_step s (env, EvControllerChanged) = controllerStateChanged env s"
| "vpn_step s (env, EvReadyToUpdate) = vpn_setState env VsUpdateRequired s"
| "vpn_step s (env, EvError e) = reportError env e s"
| "vpn_step s (env, EvNetworkError e p) = reportNetworkError env e p s"
| "vpn_step s (env, EvAlertTimeout) = s\<lparr>mv_errors := alertTimeout (mv_errors s)\<rparr>"
| "vpn_step s (env, EvAccountData json) = vpn_accountChecked env json s"
| "vpn_step s (env, EvPeriodic) = vpn_schedule periodic_tasks s"
| "vpn_step s (env, EvReschedule) =
     vpn_schedule (hd (mv_rescheduled s)) (s\<lparr>mv_rescheduled := tl (mv_rescheduled s)\<rparr>)"
| "vpn_step s (env, EvTaskDone) = vpn_completed (hd (mv_tasks s)) s"
| "vpn_step s (env, EvFunction) = run_function env s"
| "vpn_step s (env, EvAuthReply r) = authenticationCompletedInternal env r s"
| "vpn_step s (env, EvAuthAborted) = abortAuthentication env s"
| "vpn_step s (env, EvAddDeviceReply r e) = addDevice_reply env r e s"
| "vpn_step s (env, EvRemoveDeviceReply ok e) = removal_reply env ok e s"
| "vpn_step s (env, EvAccountReply r e) = account_task_reply env r e s"
| "vpn_step s (env, EvServersReply r e) = servers_reply env r e s"
| "vpn_step s (env, EvHeartbeatFailed n) = heartbeat_done env (heartbeat_failed n) s"
| "vpn_step s (env, EvHeartbeatReply r) = heartbeat_done env (heartbeat_reply r) s"

text \<open>The application as constructed, over the settings it finds.\<close>

definition newVpn :: "vpn_settings \<Rightarrow> server_settings \<Rightarrow> mozilla_vpn" where
  "newVpn st sd =
     \<lparr>mv_state = VsInitialize, mv_settings = st, mv_user = newUser, mv_keys = \<lparr>ks_privateKey = [], ks_publicKey = []\<rparr>,
      mv_devices = newDeviceModel, mv_servers = emptyModel, mv_serverData = emptyServerData, mv_sdSettings = sd,
      mv_errors = registerErrorHandlers emptyErrorHandler, mv_periodic = False, mv_initialized = False, mv_updating = False,
      mv_controllerInitialized = False, mv_tasks = [], mv_rescheduled = [], mv_out = []\<rparr>"

definition vpn_init :: "mozilla_vpn \<Rightarrow> bool" where
  "vpn_init s = (\<exists>st sd. s = newVpn st sd)"

end
