(* ===== verification/MozillaVpnProperties.thy ===== *)
theory MozillaVpnProperties
  imports MozillaVpn
begin

text \<open>
  Properties of the application state: what the main view presupposes, when the periodic work runs,
  what a logout leaves behind, and the runs in which the state machine goes wrong.
\<close>

section \<open>Frames\<close>

lemma vpn_emit_simps [simp]:
  "mv_state (vpn_emit x s) = mv_state s" "mv_settings (vpn_emit x s) = mv_settings s" "mv_user (vpn_emit x s) = mv_user s"
  "mv_keys (vpn_emit x s) = mv_keys s" "mv_devices (vpn_emit x s) = mv_devices s" "mv_servers (vpn_emit x s) = mv_servers s"
  "mv_serverData (vpn_emit x s) = mv_serverData s" "mv_errors (vpn_emit x s) = mv_errors s"
  "mv_periodic (vpn_emit x s) = mv_periodic s" "mv_tasks (vpn_emit x s) = mv_tasks s"
  "mv_sdSettings (vpn_emit x s) = mv_sdSettings s" "mv_rescheduled (vpn_emit x s) = mv_rescheduled s"
  by (simp_all add: vpn_emit_def)

lemma vpn_assert_simps [simp]:
  "mv_state (vpn_assert w b s) = mv_state s" "mv_settings (vpn_assert w b s) = mv_settings s"
  "mv_user (vpn_assert w b s) = mv_user s" "mv_keys (vpn_assert w b s) = mv_keys s"
  "mv_devices (vpn_assert w b s) = mv_devices s" "mv_servers (vpn_assert w b s) = mv_servers s"
  "mv_serverData (vpn_assert w b s) = mv_serverData s" "mv_errors (vpn_assert w b s) = mv_errors s"
  "mv_periodic (vpn_assert w b s) = mv_periodic s" "mv_tasks (vpn_assert w b s) = mv_tasks s"
  by (simp_all add: vpn_assert_def)

lemma vpn_schedule_simps [simp]:
  "mv_state (vpn_schedule t s) = mv_state s" "mv_settings (vpn_schedule t s) = mv_settings s"
  "mv_user (vpn_schedule t s) = mv_user s" "mv_keys (vpn_schedule t s) = mv_keys s"
  "mv_devices (vpn_schedule t s) = mv_devices s" "mv_servers (vpn_schedule t s) = mv_servers s"
  "mv_serverData (vpn_schedule t s) = mv_serverData s" "mv_errors (vpn_schedule t s) = mv_errors s"
  "mv_periodic (vpn_schedule t s) = mv_periodic s" "mv_tasks (vpn_schedule t s) = mv_tasks s @ [t]"
  by (simp_all add: vpn_schedule_def)

lemma vpn_deleteTasks_simps [simp]:
  "mv_state (vpn_deleteTasks s) = mv_state s" "mv_settings (vpn_deleteTasks s) = mv_settings s"
  "mv_user (vpn_deleteTasks s) = mv_user s" "mv_keys (vpn_deleteTasks s) = mv_keys s"
  "mv_devices (vpn_deleteTasks s) = mv_devices s" "mv_servers (vpn_deleteTasks s) = mv_servers s"
  "mv_serverData (vpn_deleteTasks s) = mv_serverData s" "mv_errors (vpn_deleteTasks s) = mv_errors s"
  "mv_periodic (vpn_deleteTasks s) = mv_periodic s"
  by (simp_all add: vpn_deleteTasks_def split: list.splits)

lemma vpn_setState_simps [simp]:
  "mv_state (vpn_setState env st s) = st" "mv_settings (vpn_setState env st s) = mv_settings s"
  "mv_user (vpn_setState env st s) = mv_user s" "mv_keys (vpn_setState env st s) = mv_keys s"
  "mv_devices (vpn_setState env st s) = mv_devices s" "mv_servers (vpn_setState env st s) = mv_servers s"
  "mv_serverData (vpn_setState env st s) = mv_serverData s" "mv_errors (vpn_setState env st s) = mv_errors s"
  "mv_periodic (vpn_setState env st s) = (st = VsMain \<or> st = VsOnboarding)"
  "mv_tasks (vpn_setState env st s) =
     (if st = VsMain \<or> st = VsOnboarding then mv_tasks s else mv_tasks s @ [TkControllerAction EDeactivate])"
  by (simp_all add: vpn_setState_def vpn_stateChanged_def)

lemma vpn_resetSettings_simps [simp]:
  "mv_state (vpn_resetSettings s) = mv_state s" "mv_settings (vpn_resetSettings s) = resetSettings (mv_settings s)"
  "mv_user (vpn_resetSettings s) = mv_user s" "mv_keys (vpn_resetSettings s) = mv_keys s"
  "mv_devices (vpn_resetSettings s) = mv_devices s" "mv_periodic (vpn_resetSettings s) = mv_periodic s"
  "mv_tasks (vpn_resetSettings s) = mv_tasks s" "mv_errors (vpn_resetSettings s) = mv_errors s"
  "mv_servers (vpn_resetSettings s) = mv_servers s" "mv_serverData (vpn_resetSettings s) = mv_serverData s"
  by (simp_all add: vpn_resetSettings_def)

lemma refresh_simps [simp]:
  "mv_state (scheduleRefreshDataTasks env s) = mv_state s" "mv_settings (scheduleRefreshDataTasks env s) = mv_settings s"
  "mv_user (scheduleRefreshDataTasks env s) = mv_user s" "mv_keys (scheduleRefreshDataTasks env s) = mv_keys s"
  "mv_devices (scheduleRefreshDataTasks env s) = mv_devices s" "mv_servers (scheduleRefreshDataTasks env s) = mv_servers s"
  "mv_periodic (scheduleRefreshDataTasks env s) = mv_periodic s" "mv_errors (scheduleRefreshDataTasks env s) = mv_errors s"
  by (simp_all add: scheduleRefreshDataTasks_def Let_def)

lemma add_refresh_simps [simp]:
  "mv_state (addCurrentDeviceAndRefreshData env s) = mv_state s"
  "mv_settings (addCurrentDeviceAndRefreshData env s) = mv_settings s"
  "mv_user (addCurrentDeviceAndRefreshData env s) = mv_user s" "mv_keys (addCurrentDeviceAndRefreshData env s) = mv_keys s"
  "mv_devices (addCurrentDeviceAndRefreshData env s) = mv_devices s"
  "mv_servers (addCurrentDeviceAndRefreshData env s) = mv_servers s"
  "mv_periodic (addCurrentDeviceAndRefreshData env s) = mv_periodic s"
  "mv_errors (addCurrentDeviceAndRefreshData env s) = mv_errors s"
  by (simp_all add: addCurrentDeviceAndRefreshData_def)

lemma regenerate_simps [simp]:
  "mv_state (maybeRegenerateDeviceKey env s) = mv_state s" "mv_settings (maybeRegenerateDeviceKey env s) = mv_settings s"
  "mv_user (maybeRegenerateDeviceKey env s) = mv_user s" "mv_keys (maybeRegenerateDeviceKey env s) = mv_keys s"
  "mv_devices (maybeRegenerateDeviceKey env s) = mv_devices s" "mv_servers (maybeRegenerateDeviceKey env s) = mv_servers s"
  "mv_periodic (maybeRegenerateDeviceKey env s) = mv_periodic s" "mv_errors (maybeRegenerateDeviceKey env s) = mv_errors s"
  by (simp_all add: maybeRegenerateDeviceKey_def Let_def)

lemma deactivate_simps [simp]:
  "mv_state (vpn_deactivate s) = mv_state s" "mv_settings (vpn_deactivate s) = mv_settings s"
  "mv_keys (vpn_deactivate s) = mv_keys s" "mv_devices (vpn_deactivate s) = mv_devices s"
  "mv_user (vpn_deactivate s) = mv_user s" "mv_servers (vpn_deactivate s) = mv_servers s"
  "mv_errors (vpn_deactivate s) = mv_errors s" "mv_periodic (vpn_deactivate s) = mv_periodic s"
  by (simp_all add: vpn_deactivate_def)

lemma pick_server_simps [simp]:
  "mv_state (vpn_pickServer env s) = mv_state s" "mv_periodic (vpn_pickServer env s) = mv_periodic s"
  "mv_user (vpn_pickServer env s) = mv_user s" "mv_keys (vpn_pickServer env s) = mv_keys s"
  "mv_devices (vpn_pickServer env s) = mv_devices s" "mv_servers (vpn_pickServer env s) = mv_servers s"
  "mv_settings (vpn_pickServer env s) = mv_settings s"
  by (simp_all add: vpn_pickServer_def Let_def split: list.splits prod.splits)

lemma server_from_settings_simps [simp]:
  "mv_state (server_from_settings env s) = mv_state s" "mv_periodic (server_from_settings env s) = mv_periodic s"
  "mv_user (server_from_settings env s) = mv_user s" "mv_keys (server_from_settings env s) = mv_keys s"
  "mv_devices (server_from_settings env s) = mv_devices s" "mv_servers (server_from_settings env s) = mv_servers s"
  by (simp_all add: server_from_settings_def Let_def split: prod.splits)

lemma vpn_reset_simps [simp]:
  "mv_state (vpn_reset env force s) = (if force then VsInitialize else mv_state s)"
  "mv_periodic (vpn_reset env force s) = (\<not> force \<and> mv_periodic s)"
  "mv_settings (vpn_reset env force s) = resetSettings (mv_settings s)"
  "mv_keys (vpn_reset env force s) = forgetKeys (mv_keys s)"
  "mv_user (vpn_reset env force s) = mv_user s" "mv_devices (vpn_reset env force s) = mv_devices s"
  "mv_servers (vpn_reset env force s) = mv_servers s" "mv_errors (vpn_reset env force s) = mv_errors s"
  by (simp_all add: vpn_reset_def Let_def)

section \<open>Entering the main view\<close>

text \<open>What the main view needs, and the periodic work that runs there and during the onboarding only.\<close>

definition main_ok :: "mozilla_vpn \<Rightarrow> bool" where
  "main_ok s = (modelsInitialized s \<and> \<not> us_subscriptionNeeded (mv_user s) \<and> st_onboardingCompleted (mv_settings s))"

definition timer_ok :: "mozilla_vpn \<Rightarrow> bool" where
  "timer_ok s = (mv_periodic s = (mv_state s = VsMain \<or> mv_state s = VsOnboarding))"

text \<open>A step keeps the timer right and enters the main view only with what it needs.\<close>

definition tracks :: "mozilla_vpn \<Rightarrow> mozilla_vpn \<Rightarrow> bool" where
  "tracks s t = ((timer_ok s \<longrightarrow> timer_ok t) \<and> (mv_state t = VsMain \<longrightarrow> mv_state s = VsMain \<or> main_ok t))"

named_theorems tracks_intros

lemma tracks_same [tracks_intros]: "mv_state t = mv_state s \<Longrightarrow> mv_periodic t = mv_periodic s \<Longrightarrow> tracks s t"
  by (simp add: tracks_def timer_ok_def)

lemma tracks_setState [tracks_intros]: "st \<noteq> VsMain \<Longrightarrow> tracks s (vpn_setState env st t)"
  by (simp add: tracks_def timer_ok_def)

lemma tracks_reset:
  "mv_state t = mv_state s \<Longrightarrow> mv_periodic t = mv_periodic s \<Longrightarrow> tracks s (vpn_reset env force t)"
  by (simp add: tracks_def timer_ok_def)

lemma tracks_refl [simp]: "tracks s s"
  by (simp add: tracks_def)

lemma tracks_output [simp]:
  "tracks s (vpn_emit x t) = tracks s t" "tracks s (vpn_schedule k t) = tracks s t" "tracks s (vpn_assert w b t) = tracks s t"
  by (simp_all add: tracks_def timer_ok_def main_ok_def modelsInitialized_def)

text \<open>What an error may do to the state machine: nothing, or go back to the first state.\<close>

definition error_frame :: "mozilla_vpn \<Rightarrow> mozilla_vpn \<Rightarrow> bool" where
  "error_frame s t = (mv_state t = VsInitialize \<and> \<not> mv_periodic t \<or> mv_state t = mv_state s \<and> mv_periodic t = mv_periodic s)"

lemma error_tracks: "error_frame s t \<Longrightarrow> tracks s t"
  by (auto simp: error_frame_def tracks_def timer_ok_def)

lemma errorHandled_frame: "error_frame s (vpn_errorHandled env s)"
  by (simp add: error_frame_def vpn_errorHandled_def Let_def)

lemma after_error_frame: "error_frame s (vpn_after_error env r s)"
proof (cases r)
  case (Some h)
  have "error_frame (s\<lparr>mv_errors := h\<rparr>) (vpn_errorHandled env (s\<lparr>mv_errors := h\<rparr>))" by (rule errorHandled_frame)
  then show ?thesis using Some by (simp add: vpn_after_error_def Let_def error_frame_def)
qed (simp add: vpn_after_error_def error_frame_def)

lemma reportError_tracks:
  "mv_state t = mv_state s \<Longrightarrow> mv_periodic t = mv_periodic s \<Longrightarrow> tracks s (reportError env e t)"
  "mv_state t = mv_state s \<Longrightarrow> mv_periodic t = mv_periodic s \<Longrightarrow> tracks s (reportNetworkError env ne p t)"
  using after_error_frame [of t env] error_tracks
  unfolding reportError_def reportNetworkError_def error_frame_def by metis+

lemma maybeStateMain_tracks:
  assumes "mv_state t = mv_state s" "mv_periodic t = mv_periodic s"
  shows "tracks s (maybeStateMain env t)"
  using assms
  by (auto simp: maybeStateMain_def tracks_def timer_ok_def main_ok_def modelsInitialized_def Let_def)

lemma removal_frame:
  "mv_state (snd (maybeRemoveCurrentDevice env s)) = mv_state s" "mv_periodic (snd (maybeRemoveCurrentDevice env s)) = mv_periodic s"
  "mv_user (snd (maybeRemoveCurrentDevice env s)) = mv_user s"
  by (simp_all add: maybeRemoveCurrentDevice_def split: option.splits)

lemma completeActivation_tracks:
  "mv_state t = mv_state s \<Longrightarrow> mv_periodic t = mv_periodic s \<Longrightarrow> tracks s (completeActivation env t)"
  using removal_frame [of env t]
  by (auto simp: completeActivation_def Let_def split: prod.splits intro: maybeStateMain_tracks tracks_same)

lemma initialize_models_tracks:
  "mv_state t = mv_state s \<Longrightarrow> mv_periodic t = mv_periodic s \<Longrightarrow> tracks s (initialize_models env t)"
  by (auto simp: initialize_models_def keys_from_def Let_def split: prod.splits intro: tracks_same maybeStateMain_tracks)

lemma vpn_initialize_tracks: "tracks s (vpn_initialize env s)"
  unfolding vpn_initialize_def Let_def
  by (auto split: prod.splits intro: tracks_same initialize_models_tracks tracks_setState)

lemma completeAuthentication_tracks: "tracks s (completeAuthentication env json token s)"
  unfolding completeAuthentication_def Let_def
  by (auto split: prod.splits intro!: reportError_tracks maybeStateMain_tracks completeActivation_tracks)

lemma authReply_tracks: "tracks s (authenticationCompletedInternal env r s)"
  by (auto simp: authenticationCompletedInternal_def Let_def intro!: reportError_tracks completeAuthentication_tracks)

lemma authenticate_tracks:
  "mv_state t = mv_state s \<Longrightarrow> mv_periodic t = mv_periodic s \<Longrightarrow> tracks s (vpn_authenticate env t)"
  by (simp add: vpn_authenticate_def Let_def tracks_def timer_ok_def)

lemma cancel_tracks: "mv_state t = mv_state s \<Longrightarrow> mv_periodic t = mv_periodic s \<Longrightarrow> tracks s (cancelAuthentication env t)"
  by (auto simp: cancelAuthentication_def intro: tracks_same tracks_reset)

lemma logout_tracks: "tracks s (vpn_logout env s)"
  by (auto simp: vpn_logout_def Let_def intro!: tracks_reset)

lemma accountChecked_tracks: "tracks s (vpn_accountChecked env json s)"
  by (auto simp: vpn_accountChecked_def Let_def split: prod.splits intro: tracks_same maybeStateMain_tracks)

lemma serversFetched_tracks: "tracks s (serversFetched env json s)"
  by (auto simp: serversFetched_def Let_def split: prod.splits intro!: tracks_same)

lemma heartbeat_tracks: "tracks s (heartbeatCompleted env ok s)"
  by (auto simp: heartbeatCompleted_def intro: tracks_same tracks_setState maybeStateMain_tracks)

lemma callback_tracks: "tracks s (run_callback env cb s)"
  by (cases cb) (auto intro: tracks_same tracks_setState maybeStateMain_tracks)

lemma reportError_setState: "st \<noteq> VsMain \<Longrightarrow> tracks s (reportError env e (vpn_setState env st t))"
  using after_error_frame [of "vpn_setState env st t" env "errorHandle env e (mv_errors t)"]
  by (auto simp: reportError_def error_frame_def tracks_def timer_ok_def)

lemma failed_tracks: "tracks s (subscriptionFailedInternal env b s)"
  by (auto simp: subscriptionFailedInternal_def Let_def intro: tracks_setState reportError_setState)

lemma completed_simps [simp]:
  "mv_state (vpn_completed t s) = mv_state s" "mv_periodic (vpn_completed t s) = mv_periodic s"
  by (simp_all add: vpn_completed_def Let_def deviceRemovalCompleted_def split: vpn_task.splits)

lemma completed_main_ok: "\<not> is_removal t \<Longrightarrow> main_ok (vpn_completed t s) = main_ok s"
  by (cases t) (simp_all add: vpn_completed_def Let_def main_ok_def modelsInitialized_def)

lemma completed_tracks: "\<not> is_removal t \<Longrightarrow> tracks s u \<Longrightarrow> tracks s (vpn_completed t u)"
  by (simp add: tracks_def timer_ok_def completed_main_ok)

lemma reply_done_tracks: "\<forall>t. P t \<longrightarrow> \<not> is_removal t \<Longrightarrow> tracks s u \<Longrightarrow> tracks s (reply_done P t u)"
  by (auto simp: reply_done_def intro: completed_tracks)

lemma removeDevice_simps [simp]:
  "mv_state (vpn_removeDevice env pk s) = mv_state s" "mv_periodic (vpn_removeDevice env pk s) = mv_periodic s"
  by (simp_all add: vpn_removeDevice_def Let_def)

lemma error_not_entering: "mv_state (reportNetworkError env e p s) = VsMain \<Longrightarrow> mv_state s = VsMain"
  using after_error_frame [of s env "networkErrorHandle env e p (mv_errors s)"]
  by (auto simp: reportNetworkError_def error_frame_def)

lemma removal_reply_tracks: "tracks s (removal_reply env ok e s)"
proof -
  have "tracks s (removeDevice_reply env ok e pk s)" for pk
    using reportError_tracks(2) [of s s env e PropagateError] error_not_entering [of env e PropagateError s]
    by (auto simp: removeDevice_reply_def tracks_def timer_ok_def)
  then show ?thesis by (auto simp: removal_reply_def tracks_def split: list.splits vpn_task.splits)
qed

lemma addDevice_reply_tracks: "tracks s (addDevice_reply env r e s)"
  by (auto simp: addDevice_reply_def deviceAdded_def split: option.splits
      intro: completed_tracks tracks_same reportError_tracks)

lemma account_reply_tracks: "tracks s (account_task_reply env r e s)"
  unfolding account_task_reply_def
  by (intro reply_done_tracks) (auto split: option.splits elim: is_account.elims intro!: accountChecked_tracks reportError_tracks)

lemma servers_reply_tracks: "tracks s (servers_reply env r e s)"
  unfolding servers_reply_def
  by (intro reply_done_tracks) (auto split: option.splits elim: is_servers.elims intro!: serversFetched_tracks reportError_tracks)

lemma heartbeat_done_tracks: "tracks s (heartbeat_done env ok s)"
  by (simp add: heartbeat_done_def reply_done_tracks heartbeat_tracks)

lemma run_function_tracks: "tracks s (run_function env s)"
  by (auto simp: run_function_def split: list.splits vpn_task.splits intro!: completed_tracks callback_tracks)

lemmas slot_tracks =
  vpn_initialize_tracks authenticate_tracks cancel_tracks logout_tracks tracks_reset tracks_setState
  accountChecked_tracks reportError_tracks authReply_tracks addDevice_reply_tracks removal_reply_tracks
  account_reply_tracks servers_reply_tracks heartbeat_done_tracks run_function_tracks failed_tracks
  maybeStateMain_tracks completeActivation_tracks

lemma vpn_step_tracks: "tracks s (vpn_step s (env, e))"
proof (cases e)
  case EvCancelReauthentication
  then show ?thesis by (auto simp: cancelReauthentication_def intro!: slot_tracks)
next
  case EvOnboardingCompleted
  then show ?thesis by (auto simp: vpn_onboardingCompleted_def Let_def intro: slot_tracks tracks_same)
next
  case (EvRequestRemoval pk)
  then show ?thesis by (auto simp: vpn_requestRemoval_def Let_def intro!: tracks_same)
next
  case (EvSubscriptionStarted pid)
  then show ?thesis by (simp add: subscriptionStarted_def Let_def tracks_def timer_ok_def)
next
  case EvRestoreSubscriptionStarted
  then show ?thesis by (simp add: restoreSubscriptionStarted_def tracks_def timer_ok_def)
next
  case EvUpdate
  then show ?thesis by (auto simp: vpn_update_def Let_def intro!: tracks_same)
next
  case EvControllerChanged
  then show ?thesis
    by (auto simp: controllerStateChanged_def vpn_activate_def vpn_update_def Let_def intro!: tracks_same)
next
  case EvAuthAborted
  then show ?thesis by (simp add: abortAuthentication_def tracks_def timer_ok_def)
qed (auto simp: refreshDevices_def subscriptionCompleted_def billingNotAvailable_def subscriptionNotValidated_def
    alreadySubscribed_def vpn_activate_def vpn_silentSwitch_def hardResetAndQuit_def vpn_hardReset_def
    intro: slot_tracks tracks_same)

interpretation vp: transition_system vpn_init vpn_step vpn_guard timer_ok
  by unfold_locales (use vpn_step_tracks in \<open>auto simp: vpn_init_def newVpn_def timer_ok_def tracks_def split_paired_all\<close>)

text \<open>
  C2: The main view is entered only by a client that can use it.  Whatever the interface, the
  server, the store and the errors do, in any order, a step that enters the main view leaves behind
  a user with an active subscription, a device of this account registered under the current keys,
  keys, a server list and a completed onboarding; and in every state the periodic refresh runs
  exactly in the main view and during the onboarding.
\<close>

theorem main_needs_everything:
  assumes "vp.reach s" "vpn_guard s (env, e)"
  shows "(mv_periodic s \<longleftrightarrow> mv_state s = VsMain \<or> mv_state s = VsOnboarding) \<and>
    (mv_state s \<noteq> VsMain \<and> mv_state (vpn_step s (env, e)) = VsMain \<longrightarrow>
       (let t = vpn_step s (env, e)
        in us_initialized (mv_user t) \<and> \<not> us_subscriptionNeeded (mv_user t) \<and>
           hasCurrentDevice (mv_keys t) (mv_devices t) \<and> keys_initialized (mv_keys t) \<and>
           scm_initialized (mv_servers t) \<and> st_onboardingCompleted (mv_settings t)))"
  using vp.reach_inv [OF assms(1)] vpn_step_tracks [of s env e]
  by (auto simp: timer_ok_def tracks_def main_ok_def modelsInitialized_def Let_def)

section \<open>Logging out\<close>

text \<open>A queue that \<^verbatim>\<open>deleteTasks\<close> leaves alone, as it is after it.\<close>

definition settled :: "vpn_task list \<Rightarrow> bool" where
  "settled ts = (case ts of [] \<Rightarrow> True | t # us \<Rightarrow> vpn_policy t \<noteq> Deletable \<and> (\<forall>u \<in> set us. vpn_policy u = NonDeletable))"

lemma settled_nondeletable: "\<forall>t \<in> set ts. vpn_policy t = NonDeletable \<Longrightarrow> settled ts"
  by (auto simp: settled_def split: list.splits)

lemma settled_append [simp]: "settled ts \<Longrightarrow> \<forall>u \<in> set us. vpn_policy u = NonDeletable \<Longrightarrow> settled (ts @ us)"
  by (cases ts) (auto simp: settled_def intro: settled_nondeletable [unfolded settled_def])

lemma settled_deleteTasks [simp]: "settled (mv_tasks (vpn_deleteTasks s))"
proof (cases "mv_tasks s")
  case (Cons t ts)
  have "settled (filter (\<lambda>t. vpn_policy t = NonDeletable) ts)" by (rule settled_nondeletable) simp
  then show ?thesis using Cons by (auto simp: vpn_deleteTasks_def settled_def)
qed (simp add: vpn_deleteTasks_def settled_def)

lemma deleteTasks_settled: "settled (mv_tasks s) \<Longrightarrow> mv_tasks (vpn_deleteTasks s) = mv_tasks s"
  by (auto simp: settled_def vpn_deleteTasks_def split: list.splits)

lemma deactivate_settled: "settled (mv_tasks s) \<Longrightarrow> mv_tasks (vpn_deactivate s) = mv_tasks s @ [TkControllerAction EDeactivate]"
  by (simp add: vpn_deactivate_def deleteTasks_settled)

lemma reset_settled:
  "settled (mv_tasks s) \<Longrightarrow>
    mv_tasks (vpn_reset env force s) =
      mv_tasks s @ TkControllerAction EDeactivate # (if force then [TkControllerAction EDeactivate] else [])"
  by (simp add: vpn_reset_def Let_def deactivate_settled)

lemma deleteTasks_errors [simp]: "vpn_deleteTasks (s\<lparr>mv_errors := h\<rparr>) = (vpn_deleteTasks s)\<lparr>mv_errors := h\<rparr>"
  by (simp add: vpn_deleteTasks_def split: list.splits)

lemma deactivate_tasks: "mv_tasks (vpn_deactivate s) = mv_tasks (vpn_deleteTasks s) @ [TkControllerAction EDeactivate]"
  by (simp add: vpn_deactivate_def)

lemma logout_tasks:
  "mv_tasks (vpn_logout env s) =
     mv_tasks (vpn_deleteTasks s) @ [TkControllerAction EDeactivate] @
     (if hasCurrentDevice (mv_keys s) (mv_devices s) then [TkRemoveDevice (ks_publicKey (mv_keys s))] else []) @
     [TkControllerAction EDeactivate] @ (if mv_state s = VsUpdateRequired then [] else [TkControllerAction EDeactivate])"
proof -
  let ?s1 = "vpn_deleteTasks (vpn_deactivate (s\<lparr>mv_errors := requestAlert LogoutAlert (mv_errors s)\<rparr>))"
  have "mv_tasks ?s1 = mv_tasks (vpn_deleteTasks s) @ [TkControllerAction EDeactivate]"
    by (simp add: deleteTasks_settled deactivate_tasks)
  then show ?thesis by (auto simp: vpn_logout_def Let_def reset_settled)
qed

lemma logout_state:
  "mv_state (vpn_logout env s) = (if mv_state s = VsUpdateRequired then VsUpdateRequired else VsInitialize)"
  "mv_settings (vpn_logout env s) = resetSettings (mv_settings s)"
  "mv_keys (vpn_logout env s) = \<lparr>ks_privateKey = [], ks_publicKey = []\<rparr>"
  "eh_alert (mv_errors (vpn_logout env s)) = LogoutAlert"
  by (simp_all add: vpn_logout_def Let_def forgetKeys_def requestAlert_def setAlert_def)

text \<open>
  C9: What a logout does.  It forgets the token and the keys in the settings and in memory, goes to
  the first state unless an update is required, which is kept, shows the logout alert, and leaves
  in the queue only what may not be deleted, then a deactivation, the removal of this device if the
  account knows it, and the deactivations of the reset and of the state change.
\<close>

theorem logout_exact:
  "mv_state (vpn_logout env s) = (if mv_state s = VsUpdateRequired then VsUpdateRequired else VsInitialize) \<and>
   mv_settings (vpn_logout env s) = resetSettings (mv_settings s) \<and>
   mv_keys (vpn_logout env s) = \<lparr>ks_privateKey = [], ks_publicKey = []\<rparr> \<and>
   eh_alert (mv_errors (vpn_logout env s)) = LogoutAlert \<and>
   mv_tasks (vpn_logout env s) =
     mv_tasks (vpn_deleteTasks s) @ [TkControllerAction EDeactivate] @
     (if hasCurrentDevice (mv_keys s) (mv_devices s) then [TkRemoveDevice (ks_publicKey (mv_keys s))] else []) @
     [TkControllerAction EDeactivate] @ (if mv_state s = VsUpdateRequired then [] else [TkControllerAction EDeactivate])"
  by (simp only: logout_tasks logout_state simp_thms)

text \<open>
  C27: A registration outlives the logout.  If the user logs out while this device is being added,
  the task goes on, and its reply stores the new keys in the settings and in memory although the
  token is gone and the client is back in its first state.
\<close>

theorem registration_survives_logout:
  assumes "first_is TkAddDevice s" "mv_state s \<noteq> VsUpdateRequired"
  shows "let s1 = vpn_step s (env, EvLogout); reply = EvAddDeviceReply (Some (publicKey, privateKey)) e;
             s2 = vpn_step s1 (env', reply)
         in vpn_guard s1 (env', reply) \<and> mv_state s2 = VsInitialize \<and> st_token (mv_settings s2) = None \<and>
            st_privateKey (mv_settings s2) = privateKey \<and> mv_keys s2 = \<lparr>ks_privateKey = privateKey, ks_publicKey = publicKey\<rparr>"
proof -
  obtain ts where ts: "mv_tasks s = TkAddDevice # ts" using assms(1) by (auto simp: first_is_def split: list.splits)
  have "first_is TkAddDevice (vpn_logout env s)"
    using logout_tasks [of env s] ts by (simp add: first_is_def vpn_deleteTasks_def)
  moreover have "mv_settings (vpn_completed TkAddDevice t) = mv_settings t" "mv_keys (vpn_completed TkAddDevice t) = mv_keys t" for t
    by (simp_all add: vpn_completed_def Let_def)
  ultimately show ?thesis
    using logout_state [of env s] assms(2)
    by (simp add: Let_def addDevice_reply_def deviceAdded_def storeKeys_def resetSettings_def)
qed

section \<open>Where the state machine goes wrong\<close>

text \<open>
  A required update is forgotten.  If the update becomes required while the user signs in, the
  sign-in goes on behind the update screen; when its reply says that a subscription is needed, the
  client leaves the update screen for the subscription.  Only the way into the main view respects
  the required update.
\<close>

theorem update_required_lost:
  assumes "first_is TkAuthenticate s" "ve_parseDoc env reply = JObject obj" "obj_value obj ''user'' = JObject userObj"
    "obj_value obj ''token'' = JString token"
    "user_fromJson (ve_parseDoc env) (ve_printDoc env (JObject userObj)) (mv_user s) = (True, u)"
    "us_initialized u" "us_subscriptionNeeded u"
    "dm_fromJson (ve_parseDoc env) (ve_isoDate env) (mv_keys s) (ve_printDoc env (JObject userObj)) (mv_devices s) = (True, dm)"
  shows "(let s1 = vpn_step s (env', EvReadyToUpdate)
          in mv_state s1 = VsUpdateRequired \<and> vpn_guard s1 (env, EvAuthReply reply) \<and>
             mv_state (vpn_step s1 (env, EvAuthReply reply)) = VsSubscriptionNeeded) \<and>
    (\<forall>t. mv_state t = VsUpdateRequired \<and> main_ok t \<longrightarrow> mv_state (maybeStateMain env t) = VsUpdateRequired)"
  using assms
  by (auto simp: Let_def first_is_def authenticationCompletedInternal_def completeAuthentication_def maybeStateMain_def
      main_ok_def modelsInitialized_def split: list.splits)

lemma quiet_errorHandled:
  assumes "mv_state s \<noteq> VsAuthenticating" "eh_alert (mv_errors s) \<noteq> AuthenticationFailedAlert"
  shows "\<exists>xs. vpn_errorHandled env s = s\<lparr>mv_out := mv_out s @ xs\<rparr>"
proof (cases "eh_alert (mv_errors s) = ControllerErrorAlert")
  case True
  then show ?thesis using assms
    by (intro exI [of _ "[ConnectionFailureNotification]"]) (simp add: vpn_errorHandled_def vpn_emit_def)
qed (use assms in \<open>intro exI [of _ "[]"], simp add: vpn_errorHandled_def\<close>)

lemma quiet_network_error:
  assumes "networkErrorHandle env e policy (mv_errors s) = Some h" "mv_state s \<noteq> VsAuthenticating"
    "eh_alert h \<noteq> AuthenticationFailedAlert"
  shows "\<exists>out. reportNetworkError env e policy s = s\<lparr>mv_errors := h, mv_out := out\<rparr>"
  using assms quiet_errorHandled [of "s\<lparr>mv_errors := h\<rparr>" env]
  by (auto simp: reportNetworkError_def vpn_after_error_def Let_def)
    (metis mozilla_vpn.surjective mozilla_vpn.update_convs(16))

text \<open>
  The device limit without a limit.  If this device cannot be registered after the
  subscription, because its request fails with an error that does not end the session, the
  function scheduled to enter the main view shows the device-limit screen although the account has
  room for the device, and an assertion of the code fails.
\<close>

theorem device_limit_without_limit:
  assumes "mv_state s = VsSubscriptionInProgress" "mv_tasks s = []" "us_initialized (mv_user s)"
    "\<not> us_subscriptionNeeded (mv_user s)" "\<not> hasCurrentDevice (mv_keys s) (mv_devices s)"
    "deviceFromUniqueId (ve_uniqueId env) (mv_devices s) = None"
    "activeDevices (mv_devices s) < us_maxDevices (mv_user s)" "ve_locationInitialized env"
    "networkErrorHandle env e PropagateError (mv_errors s) = Some h" "eh_alert h \<noteq> AuthenticationFailedAlert"
  shows "let run = [(env, EvSubscriptionCompleted), (env, EvAddDeviceReply None e), (env, EvTaskDone), (env, EvFunction)];
             t = fold (\<lambda>x s. vpn_step s x) run s
         in vp.enabled_run s run \<and> mv_state t = VsDeviceLimit \<and> activeDevices (mv_devices t) < us_maxDevices (mv_user t) \<and>
            AssertFailed ''maybeStateMain devices'' \<in> set (mv_out t)"
proof -
  let ?group = "TkGroup [TkAccount PropagateError, TkServers PropagateError, TkCaptivePortalLookup PropagateError,
    TkGetSubscriptionDetails PropagateError]"
  let ?s1 = "s\<lparr>mv_tasks := [TkAddDevice, ?group, TkFunction CbMaybeStateMain]\<rparr>"
  have s1: "subscriptionCompleted env s = ?s1"
    using assms by (simp add: subscriptionCompleted_def completeActivation_def maybeRemoveCurrentDevice_def Let_def
        addCurrentDeviceAndRefreshData_def scheduleRefreshDataTasks_def vpn_schedule_def)
  obtain out where "reportNetworkError env e PropagateError ?s1 = ?s1\<lparr>mv_errors := h, mv_out := out\<rparr>"
    using quiet_network_error [of env e PropagateError ?s1 h] assms(1,9,10) by auto
  then have s2: "addDevice_reply env None e ?s1 =
      s\<lparr>mv_tasks := [?group, TkFunction CbMaybeStateMain], mv_errors := h, mv_out := out\<rparr>"
    by (simp add: addDevice_reply_def vpn_completed_def first_is_def)
  show ?thesis
    using assms
    by (simp add: s1 s2 first_is_def vpn_completed_def run_function_def maybeStateMain_def vpn_assert_def Let_def)
      (simp add: vpn_emit_def vpn_setState_def vpn_stateChanged_def vpn_schedule_def)
qed

text \<open>
  C20: A malformed account reply is not ignored.  If, in the main view, a device of a new account reply
  cannot be read, while the user's data in it can, the slot stores nothing and gives no sign, but it has replaced the device list by the devices
  before the malformed one (those whose removal is in progress aside), unsorted: the client stays in
  the main view with its models no longer initialised, and its current device is the one among these
  devices, if any.  If there is none, the next hop the controller activates reports an
  authentication error and asks for a reset instead of configuring the tunnel.  An authentication
  error then ends the session, where its handler shows the authentication alert.
\<close>

theorem malformed_account_reply:
  assumes "mv_state s = VsMain" "ve_parseDoc env json = JObject obj" "obj_contains obj ''devices''"
    "obj_value obj ''devices'' = JArray (vs1 @ v # vs2)" "map (device_fromJson (ve_isoDate env)) vs1 = map Some ds"
    "device_fromJson (ve_isoDate env) v = None" "json \<noteq> []" "dm_rawJson (mv_devices s) \<noteq> json"
    "findError error_type.AuthenticationError (mv_errors s) = Some d" "ed_getAlert d env = AuthenticationFailedAlert"
    "fst (user_fromJson (ve_parseDoc env) json (mv_user s))"
  shows "let hidden = map dv_publicKey (dm_removedDevices (mv_devices s));
             kept = filter (\<lambda>d. dv_publicKey d \<notin> set hidden) ds;
             s1 = vpn_accountChecked env json s;
             current = currentDevice (mv_keys s1) (mv_devices s1);
             s2 = vpn_step s1 (env, EvError error_type.AuthenticationError)
         in mv_state s1 = VsMain \<and> mv_settings s1 = mv_settings s \<and> mv_out s1 = mv_out s \<and> mv_tasks s1 = mv_tasks s \<and>
            \<not> modelsInitialized s1 \<and> dm_devices (mv_devices s1) = kept \<and>
            current = find (isCurrentDevice (mv_keys s)) kept \<and>
            (\<forall>cenv c. list_all (\<lambda>d. \<not> isCurrentDevice (mv_keys s) d) kept \<longrightarrow>
               ce_device cenv = map_option (\<lambda>d. (dv_ipv4Address d, dv_ipv6Address d)) current \<longrightarrow>
               ct_out (Controller.activateNext cenv c) = ct_out c @ [ctl_out.AuthenticationError, VpnReset]) \<and>
            mv_state s2 = VsInitialize \<and> st_token (mv_settings s2) = None"
proof -
  let ?hidden = "map dv_publicKey (dm_removedDevices (mv_devices s))"
  let ?dm = "\<lparr>dm_rawJson = [], dm_devices = filter (\<lambda>d. dv_publicKey d \<notin> set ?hidden) ds,
    dm_removedDevices = filter (\<lambda>d. dv_publicKey d \<in> set ?hidden) ds\<rparr>"
  obtain u where "user_fromJson (ve_parseDoc env) json (mv_user s) = (True, u)"
    using assms(11) by (metis (full_types) eq_fst_iff)
  then have s1: "vpn_accountChecked env json s = s\<lparr>mv_user := u, mv_devices := ?dm\<rparr>"
    using assms(2-4,7,8) read_devices_stops [OF assms(5,6)]
    by (simp add: vpn_accountChecked_def dm_fromJson_def dm_fromJsonInternal_def Let_def)
  have alert: "ErrorHandled \<in> set (drop (length (eh_out (mv_errors s))) (eh_out h))" "eh_alert h = AuthenticationFailedAlert"
    if "errorHandle env error_type.AuthenticationError (mv_errors s) = Some h" for h
    using that assms(9,10) by (auto simp: errorHandle_def setAlert_def Let_def)
  let ?s2 = "vpn_step (vpn_accountChecked env json s) (env, EvError error_type.AuthenticationError)"
  have "mv_state ?s2 = VsInitialize \<and> st_token (mv_settings ?s2) = None"
    using assms(1,9,10)
    by (auto simp: s1 Let_def reportError_def vpn_after_error_def vpn_errorHandled_def errorHandle_def
        setAlert_def resetSettings_def)
  moreover have "find P xs = None" if "list_all (\<lambda>d. \<not> P d) xs" for P and xs :: "device list"
    using that by (simp add: find_None_iff list_all_iff)
  ultimately show ?thesis
    using assms(1)
    by (simp add: s1 Let_def modelsInitialized_def dm_initialized_def currentDevice_def
        Controller.activateNext_def ctl_emit_def del: vpn_step.simps)
qed

section \<open>Concrete runs\<close>

definition demo_vpn_env :: vpn_env where
  "demo_vpn_env =
     \<lparr>ve_parseDoc = (\<lambda>s. if s = ''signed in'' then JObject [(''user'', JObject [(''avatar'', JString [])]), (''token'', JString ''t'')]
                         else JObject
       ([(''avatar'', JString []), (''display_name'', JString []), (''email'', JString ''a@b''), (''max_devices'', JDouble 5),
         (''subscriptions'', JObject (if s = ''paid'' then [(''vpn'', JObject [(''active'', JBool True)])] else [])),
         (''devices'', JArray (if s = ''paid'' then [JNull] else []))])),
      ve_printDoc = (\<lambda>j. ''unpaid''), ve_isoDate = demo_date, ve_inProd = True, ve_ltCity = (\<lambda>a b. False),
      ve_ltCountry = (\<lambda>a b. False), ve_recommended = (\<lambda>m. []), ve_deviceName = ''laptop'', ve_uniqueId = ''id'',
      ve_versionString = ''2.21.0'', ve_now = 0, ve_webPurchase = True, ve_productsRegistered = False,
      ve_controller = StateOff, ve_unsettled = False, ve_locationInitialized = True, ve_platform = Linux\<rparr>"

definition demo_vpn :: mozilla_vpn where
  "demo_vpn = newVpn defaultSettings emptySdSettings"

lemma main_needs_everything_witness:
  "let s = vpn_step demo_vpn (demo_vpn_env, EvInitialize)
   in vp.reach s \<and> vpn_guard s (demo_vpn_env, EvAuthenticate) \<and> mv_state s = VsInitialize \<and> \<not> mv_periodic s"
proof -
  have "vp.reach demo_vpn" by (rule vp.reach_init) (auto simp: vpn_init_def demo_vpn_def)
  then have "vp.reach (vpn_step demo_vpn (demo_vpn_env, EvInitialize))"
    by (rule vp.reach_step) simp
  then show ?thesis
    using main_needs_everything [of "vpn_step demo_vpn (demo_vpn_env, EvInitialize)" demo_vpn_env EvAuthenticate]
    by (simp add: Let_def vpn_initialize_def demo_vpn_def newVpn_def defaultSettings_def)
qed

lemma registration_survives_logout_witness:
  "let s1 = vpn_step (demo_vpn\<lparr>mv_tasks := [TkAddDevice], mv_state := VsMain\<rparr>) (demo_vpn_env, EvLogout);
       s2 = vpn_step s1 (demo_vpn_env, EvAddDeviceReply (Some (''pub'', ''priv'')) ContentNotFoundError)
   in mv_state s2 = VsInitialize \<and> st_token (mv_settings s2) = None \<and> st_privateKey (mv_settings s2) = ''priv''"
  using registration_survives_logout [of "demo_vpn\<lparr>mv_tasks := [TkAddDevice], mv_state := VsMain\<rparr>" demo_vpn_env
      "''pub''" "''priv''" ContentNotFoundError demo_vpn_env]
  by (simp add: first_is_def Let_def del: vpn_step.simps)

lemma update_required_lost_witness:
  "let s1 = vpn_step (demo_vpn\<lparr>mv_tasks := [TkAuthenticate], mv_state := VsAuthenticating\<rparr>) (demo_vpn_env, EvReadyToUpdate)
   in mv_state s1 = VsUpdateRequired \<and> mv_state (vpn_step s1 (demo_vpn_env, EvAuthReply ''signed in'')) = VsSubscriptionNeeded"
proof -
  let ?s = "demo_vpn\<lparr>mv_tasks := [TkAuthenticate], mv_state := VsAuthenticating\<rparr>"
  let ?u = "\<lparr>us_avatar = [], us_displayName = [], us_email = ''a@b'', us_maxDevices = 5, us_subscriptionNeeded = True,
    us_initialized = True\<rparr>"
  have "user_fromJson (ve_parseDoc demo_vpn_env) ''unpaid'' newUser = (True, ?u)"
    using toInt_of_int [of 5]
    by (simp add: user_fromJson_def demo_vpn_env_def obj_value_def subscription_needed_def obj_contains_def newUser_def Let_def)
  moreover have "dm_fromJson (ve_parseDoc demo_vpn_env) (ve_isoDate demo_vpn_env) k ''unpaid'' newDeviceModel =
      (True, \<lparr>dm_rawJson = ''unpaid'', dm_devices = [], dm_removedDevices = []\<rparr>)" for k
    by (simp add: dm_fromJson_def dm_fromJsonInternal_def demo_vpn_env_def obj_value_def obj_contains_def newDeviceModel_def
        std_sort_def Let_def)
  moreover have "ve_parseDoc demo_vpn_env ''signed in'' =
      JObject [(''user'', JObject [(''avatar'', JString [])]), (''token'', JString ''t'')]" "ve_printDoc demo_vpn_env j = ''unpaid''" for j
    by (simp_all add: demo_vpn_env_def)
  ultimately show ?thesis
    using update_required_lost [of ?s demo_vpn_env "''signed in''"
        "[(''user'', JObject [(''avatar'', JString [])]), (''token'', JString ''t'')]" "[(''avatar'', JString [])]" "''t''" ?u
        "\<lparr>dm_rawJson = ''unpaid'', dm_devices = [], dm_removedDevices = []\<rparr>" demo_vpn_env]
    by (simp add: first_is_def obj_value_def demo_vpn_def newVpn_def Let_def del: vpn_step.simps)
qed

lemma demo_errors:
  "networkErrorHandle demo_vpn_env HostNotFoundError PropagateError (registerErrorHandlers emptyErrorHandler) =
     Some (setAlert NoConnectionAlert (registerErrorHandlers emptyErrorHandler)
       \<lparr>eh_out := [AlertChanged NoConnectionAlert, ErrorHandled]\<rparr>)"
  "\<exists>d. findError error_type.AuthenticationError (registerErrorHandlers emptyErrorHandler) = Some d \<and>
     ed_getAlert d demo_vpn_env = AuthenticationFailedAlert"
  by (simp_all add: networkErrorHandle_def findError_def registerErrorHandlers_def registerCustomErrorHandler_def
      emptyErrorHandler_def s_errorData_def errorHandle_def setAlert_def toErrorType_def demo_vpn_env_def Let_def)

definition demo_user :: user where
  "demo_user = \<lparr>us_avatar = [], us_displayName = [], us_email = ''a@b'', us_maxDevices = 5, us_subscriptionNeeded = False,
     us_initialized = True\<rparr>"

lemma device_limit_without_limit_witness:
  "let run = [(demo_vpn_env, EvSubscriptionCompleted), (demo_vpn_env, EvAddDeviceReply None HostNotFoundError),
              (demo_vpn_env, EvTaskDone), (demo_vpn_env, EvFunction)];
       t = fold (\<lambda>x s. vpn_step s x) run (demo_vpn\<lparr>mv_state := VsSubscriptionInProgress, mv_user := demo_user\<rparr>)
   in mv_state t = VsDeviceLimit \<and> activeDevices (mv_devices t) < us_maxDevices (mv_user t)"
proof -
  let ?s = "demo_vpn\<lparr>mv_state := VsSubscriptionInProgress, mv_user := demo_user\<rparr>"
  obtain h where "networkErrorHandle demo_vpn_env HostNotFoundError PropagateError (mv_errors ?s) = Some h" "eh_alert h = NoConnectionAlert"
    using demo_errors(1) by (simp add: demo_vpn_def newVpn_def setAlert_def)
  moreover have "mv_tasks ?s = []" "us_initialized (mv_user ?s)" "\<not> us_subscriptionNeeded (mv_user ?s)"
    "\<not> hasCurrentDevice (mv_keys ?s) (mv_devices ?s)" "deviceFromUniqueId (ve_uniqueId demo_vpn_env) (mv_devices ?s) = None"
    "activeDevices (mv_devices ?s) < us_maxDevices (mv_user ?s)" "ve_locationInitialized demo_vpn_env"
    by (simp_all add: demo_vpn_def newVpn_def demo_user_def hasCurrentDevice_def currentDevice_def deviceFromUniqueId_def
        activeDevices_def demo_vpn_env_def newDeviceModel_def)
  ultimately show ?thesis
    using device_limit_without_limit [of ?s demo_vpn_env HostNotFoundError h] by (simp add: Let_def del: vpn_step.simps fold_simps)
qed

definition torn_reply_env :: vpn_env where
  "torn_reply_env = demo_vpn_env\<lparr>ve_parseDoc := (\<lambda>s. JObject
     [(''avatar'', JString []), (''display_name'', JString []), (''email'', JString ''a@b''), (''max_devices'', JDouble 5),
      (''subscriptions'', JObject [(''vpn'', JObject [(''active'', JBool True)])]),
      (''devices'', JArray [demo_device_json ''bb'' ''bb'', JNull, demo_device_json ''a'' ''a''])])\<rparr>"

lemma malformed_account_reply_witness:
  "let s = demo_vpn\<lparr>mv_state := VsMain, mv_user := demo_user, mv_keys := \<lparr>ks_privateKey = ''x'', ks_publicKey = ''a''\<rparr>\<rparr>;
       s1 = vpn_accountChecked torn_reply_env ''paid'' s
   in mv_state s1 = VsMain \<and> dm_devices (mv_devices s1) = [demo_device ''bb'' 2] \<and>
      currentDevice (mv_keys s1) (mv_devices s1) = None \<and>
      mv_state (vpn_step s1 (torn_reply_env, EvError error_type.AuthenticationError)) = VsInitialize"
proof -
  let ?s = "demo_vpn\<lparr>mv_state := VsMain, mv_user := demo_user, mv_keys := \<lparr>ks_privateKey = ''x'', ks_publicKey = ''a''\<rparr>\<rparr>"
  let ?obj = "toObject (ve_parseDoc torn_reply_env ''paid'')"
  obtain d where d: "findError error_type.AuthenticationError (mv_errors ?s) = Some d" "ed_getAlert d torn_reply_env = AuthenticationFailedAlert"
    using demo_errors(2) by (auto simp: demo_vpn_def newVpn_def torn_reply_env_def findError_def registerErrorHandlers_def
        registerCustomErrorHandler_def emptyErrorHandler_def s_errorData_def)
  have "ve_parseDoc torn_reply_env ''paid'' = JObject ?obj" "obj_contains ?obj ''devices''"
    "obj_value ?obj ''devices'' = JArray ([demo_device_json ''bb'' ''bb''] @ JNull # [demo_device_json ''a'' ''a''])"
    "map (device_fromJson (ve_isoDate torn_reply_env)) [demo_device_json ''bb'' ''bb''] = map Some [demo_device ''bb'' 2]"
    "device_fromJson (ve_isoDate torn_reply_env) JNull = None" "dm_rawJson (mv_devices ?s) \<noteq> ''paid''"
    "fst (user_fromJson (ve_parseDoc torn_reply_env) ''paid'' (mv_user ?s))"
    by (simp_all add: torn_reply_env_def demo_vpn_env_def obj_contains_def obj_value_def demo_device_read demo_vpn_def newVpn_def
        newDeviceModel_def user_fromJson_def subscription_needed_def) (simp add: device_fromJson_def)
  then show ?thesis
    using malformed_account_reply [of ?s torn_reply_env "''paid''" ?obj "[demo_device_json ''bb'' ''bb'']" JNull
        "[demo_device_json ''a'' ''a'']" "[demo_device ''bb'' 2]" d] d
    by (simp add: Let_def demo_device_def isCurrentDevice_def demo_vpn_def newVpn_def newDeviceModel_def del: vpn_step.simps)
qed

end
