(* ===== verification/CheckedInt.thy ===== *)
theory CheckedInt
  imports Prelude "HOL-Library.Signed_Division"
begin

text \<open>
  Model of \<^verbatim>\<open>src/mfbt/mozilla/CheckedInt.h\<close>: integers that remember whether a computation has left
  the range of its type.  A machine integer is a word, and \<open>sg\<close> tells whether its type is signed.
  The validity checks are the portable ones, which the code uses where the compiler has no overflow
  builtins; the builtins are documented to compute what the theorem shows these to compute.
\<close>

unbundle bit_operations_syntax

section \<open>Machine integers\<close>

definition ival :: "bool \<Rightarrow> 'a::len word \<Rightarrow> int" where
  "ival sg w = (if sg then sint w else uint w)"

definition int_max :: "bool \<Rightarrow> 'a::len itself \<Rightarrow> int" where
  "int_max sg T = (if sg then 2 ^ (LENGTH('a) - 1) - 1 else 2 ^ LENGTH('a) - 1)"

definition int_min :: "bool \<Rightarrow> 'a::len itself \<Rightarrow> int" where
  "int_min sg T = (if sg then - (2 ^ (LENGTH('a) - 1)) else 0)"

definition in_range :: "bool \<Rightarrow> 'a::len itself \<Rightarrow> int \<Rightarrow> bool" where
  "in_range sg T n = (int_min sg T \<le> n \<and> n \<le> int_max sg T)"

section \<open>The checks\<close>

text \<open>\<^verbatim>\<open>HasSignBit\<close> shifts the unsigned value; \<^verbatim>\<open>BinaryComplement\<close> is the complement.\<close>

definition HasSignBit :: "'a::len word \<Rightarrow> bool" where
  "HasSignBit w = (drop_bit (LENGTH('a) - 1) w \<noteq> 0)"

text \<open>
  \<^verbatim>\<open>IsInRange\<close> of a value of another type, of the given size and sign: always true when the type
  covers it, otherwise compared with the limits, an unsigned limit converted to the other type.
\<close>

definition rangeContains :: "bool \<Rightarrow> nat \<Rightarrow> bool \<Rightarrow> nat \<Rightarrow> bool" where
  "rangeContains sgT sizeT sgU sizeU =
    (if sgT = sgU then sizeU \<le> sizeT else if sgT then sizeU < sizeT else False)"

definition IsInRange :: "bool \<Rightarrow> 'a::len itself \<Rightarrow> bool \<Rightarrow> 'b::len word \<Rightarrow> bool" where
  "IsInRange sgT T sgU x =
    (if rangeContains sgT LENGTH('a) sgU LENGTH('b) then True
     else if sgT \<and> sgU then ival True x \<le> int_max True T \<and> int_min True T \<le> ival True x
     else if \<not> sgT \<and> \<not> sgU then ival False x \<le> int_max False T
     else if sgT then LENGTH('b) < LENGTH('a) \<or> ival False x \<le> int_max True T
     else if LENGTH('b) \<le> LENGTH('a) then 0 \<le> ival True x
     else 0 \<le> ival True x \<and> ival True x \<le> int_max False T)"

definition IsAddValid :: "bool \<Rightarrow> 'a::len word \<Rightarrow> 'a word \<Rightarrow> bool" where
  "IsAddValid sg x y =
    (let result = x + y
     in if sg then HasSignBit (NOT ((result XOR x) AND (result XOR y))) else uint y \<le> uint (NOT x))"

definition IsSubValid :: "bool \<Rightarrow> 'a::len word \<Rightarrow> 'a word \<Rightarrow> bool" where
  "IsSubValid sg x y =
    (let result = x - y
     in if sg then HasSignBit (NOT ((result XOR x) AND (x XOR y))) else uint y \<le> uint x)"

text \<open>
  Multiplication: in the type of twice the size where there is one, with its wrap-around written
  out, and by division in the largest type.
\<close>

definition IsMulValid_twice :: "bool \<Rightarrow> 'a::len word \<Rightarrow> 'a word \<Rightarrow> bool" where
  "IsMulValid_twice sg x y =
    (let p = ival sg x * ival sg y;
         product = (if sg then signed_take_bit (2 * LENGTH('a) - 1) p else take_bit (2 * LENGTH('a)) p)
     in in_range sg TYPE('a) product)"

definition IsMulValid_signed :: "'a::len word \<Rightarrow> 'a word \<Rightarrow> bool" where
  "IsMulValid_signed x y =
    (let a = sint x; b = sint y; max = int_max True TYPE('a); min = int_min True TYPE('a)
     in if a = 0 \<or> b = 0 then True
        else if a > 0 then (if b > 0 then a \<le> max sdiv b else b \<ge> min sdiv a)
        else if b > 0 then a \<ge> min sdiv b else b \<ge> max sdiv a)"

definition IsMulValid_unsigned :: "'a::len word \<Rightarrow> 'a word \<Rightarrow> bool" where
  "IsMulValid_unsigned x y = (y = 0 \<or> uint x \<le> int_max False TYPE('a) div uint y)"

definition IsMulValid :: "bool \<Rightarrow> 'a::len word \<Rightarrow> 'a word \<Rightarrow> bool" where
  "IsMulValid sg x y =
    (if LENGTH('a) < 64 then IsMulValid_twice sg x y
     else if sg then IsMulValid_signed x y else IsMulValid_unsigned x y)"

definition IsDivValid :: "bool \<Rightarrow> 'a::len word \<Rightarrow> 'a word \<Rightarrow> bool" where
  "IsDivValid sg x y = (y \<noteq> 0 \<and> \<not> (sg \<and> ival sg x = int_min sg TYPE('a) \<and> y = - 1))"

definition IsModValid :: "bool \<Rightarrow> 'a::len word \<Rightarrow> 'a word \<Rightarrow> bool" where
  "IsModValid sg x y = (if sg then (if ival sg x < 0 then False else 1 \<le> ival sg y) else 1 \<le> ival sg y)"

section \<open>Checked integers\<close>

record 'w checked_int =
  mValue :: 'w
  mIsValid :: bool

text \<open>The constructor from a value of any type.\<close>

definition checkedInt :: "bool \<Rightarrow> bool \<Rightarrow> 'b::len word \<Rightarrow> 'a::len word checked_int" where
  "checkedInt sgT sgU x = \<lparr>mValue = word_of_int (ival sgU x), mIsValid = IsInRange sgT TYPE('a) sgU x\<rparr>"

text \<open>The conversion of a checked integer to another type.\<close>

definition toChecked :: "bool \<Rightarrow> bool \<Rightarrow> 'b::len word checked_int \<Rightarrow> 'a::len word checked_int" where
  "toChecked sgT sgU c = (let ret = checkedInt sgT sgU (mValue c) in ret\<lparr>mIsValid := mIsValid ret \<and> mIsValid c\<rparr>)"

text \<open>The macro of the binary operators: an invalid operation gives 0.\<close>

definition checked_op ::
    "('a::len word \<Rightarrow> 'a word \<Rightarrow> bool) \<Rightarrow> ('a word \<Rightarrow> 'a word \<Rightarrow> 'a word) \<Rightarrow> 'a word checked_int \<Rightarrow> 'a word checked_int \<Rightarrow> 'a word checked_int" where
  "checked_op valid f a b =
    (if \<not> valid (mValue a) (mValue b) then \<lparr>mValue = 0, mIsValid = False\<rparr>
     else \<lparr>mValue = f (mValue a) (mValue b), mIsValid = mIsValid a \<and> mIsValid b\<rparr>)"

definition word_quot :: "bool \<Rightarrow> 'a::len word \<Rightarrow> 'a word \<Rightarrow> 'a word" where
  "word_quot sg x y = word_of_int (ival sg x sdiv ival sg y)"

definition word_rem :: "bool \<Rightarrow> 'a::len word \<Rightarrow> 'a word \<Rightarrow> 'a word" where
  "word_rem sg x y = word_of_int (ival sg x smod ival sg y)"

definition checked_add :: "bool \<Rightarrow> 'a::len word checked_int \<Rightarrow> 'a word checked_int \<Rightarrow> 'a word checked_int" where
  "checked_add sg = checked_op (IsAddValid sg) (+)"

definition checked_sub :: "bool \<Rightarrow> 'a::len word checked_int \<Rightarrow> 'a word checked_int \<Rightarrow> 'a word checked_int" where
  "checked_sub sg = checked_op (IsSubValid sg) (-)"

definition checked_mul :: "bool \<Rightarrow> 'a::len word checked_int \<Rightarrow> 'a word checked_int \<Rightarrow> 'a word checked_int" where
  "checked_mul sg = checked_op (IsMulValid sg) (*)"

definition checked_div :: "bool \<Rightarrow> 'a::len word checked_int \<Rightarrow> 'a word checked_int \<Rightarrow> 'a word checked_int" where
  "checked_div sg = checked_op (IsDivValid sg) (word_quot sg)"

definition checked_mod :: "bool \<Rightarrow> 'a::len word checked_int \<Rightarrow> 'a word checked_int \<Rightarrow> 'a word checked_int" where
  "checked_mod sg = checked_op (IsModValid sg) (word_rem sg)"

definition checked_neg :: "bool \<Rightarrow> 'a::len word checked_int \<Rightarrow> 'a word checked_int" where
  "checked_neg sg a =
    (if sg
     then if \<not> mIsValid a \<or> ival sg (mValue a) = int_min sg TYPE('a) then \<lparr>mValue = mValue a, mIsValid = False\<rparr>
          else \<lparr>mValue = - mValue a, mIsValid = True\<rparr>
     else \<lparr>mValue = 0, mIsValid = mIsValid a \<and> mValue a = 0\<rparr>)"

definition checked_eq :: "'a::len word checked_int \<Rightarrow> 'a word checked_int \<Rightarrow> bool" where
  "checked_eq a b = (mIsValid a \<and> mIsValid b \<and> mValue a = mValue b)"

section \<open>Exactness\<close>

lemma ival_range: "in_range sg TYPE('a) (ival sg (w :: 'a::len word))"
  using sint_ge [of w] sint_lt [of w] uint_lt2p [of w]
  by (auto simp: in_range_def ival_def int_min_def int_max_def)

lemma HasSignBit_bit: "HasSignBit (w :: 'a::len word) = bit w (LENGTH('a) - 1)"
proof -
  have "bit w (LENGTH('a) - 1 + n) = bit (of_bool (bit w (LENGTH('a) - 1)) :: 'a word) n" if "n < LENGTH('a)" for n
  proof (cases "n = 0")
    case False
    then have "\<not> LENGTH('a) - 1 + n < LENGTH('a)" by simp
    then have "\<not> bit w (LENGTH('a) - 1 + n)" using bit_imp_le_length [of w] by blast
    then show ?thesis using False by (simp add: bit_of_bool_iff)
  qed (simp add: bit_of_bool_iff)
  then have "drop_bit (LENGTH('a) - 1) w = of_bool (bit w (LENGTH('a) - 1))"
    by (intro bit_word_eqI) (simp add: bit_drop_bit_eq)
  then show ?thesis by (simp add: HasSignBit_def)
qed

lemma ival_word_of_int: "in_range sg TYPE('a) n \<Longrightarrow> ival sg (word_of_int n :: 'a::len word) = n"
  by (auto simp: in_range_def ival_def int_min_def int_max_def signed_of_int signed_take_bit_int_eq_self
      unsigned_of_int take_bit_int_eq_self)

lemma sint_sign: "bit (w :: 'a::len word) (LENGTH('a) - 1) = (sint w < 0)"
  by (simp add: bit_last_iff)

lemma sint_wrap:
  fixes x :: "'a::len word"
  assumes "- (2 ^ LENGTH('a)) \<le> n" "n < 2 ^ LENGTH('a)" "x = word_of_int n"
  shows "sint x = (if n < - (2 ^ (LENGTH('a) - 1)) then n + 2 ^ LENGTH('a)
                   else if 2 ^ (LENGTH('a) - 1) \<le> n then n - 2 ^ LENGTH('a) else n)"
proof -
  obtain k where k: "LENGTH('a) = Suc k" by (metis len_gt_0 gr0_implies_Suc)
  have "sint x = signed_take_bit k n" using assms(3) k by (simp add: signed_of_int)
  also have "\<dots> = (n + 2 ^ k) mod 2 ^ Suc k - 2 ^ k" by (simp add: signed_take_bit_eq_take_bit_shift take_bit_eq_mod)
  finally have eq: "sint x = (n + 2 ^ k) mod 2 ^ Suc k - 2 ^ k" .
  have "(n + 2 ^ k) mod 2 ^ Suc k =
      (if n < - (2 ^ k) then n + 2 ^ k + 2 ^ Suc k else if 2 ^ k \<le> n then n + 2 ^ k - 2 ^ Suc k else n + 2 ^ k)"
  proof -
    have trivial: "(n + 2 ^ k) mod 2 ^ Suc k = n + 2 ^ k + j * 2 ^ Suc k"
      if "0 \<le> n + 2 ^ k + j * 2 ^ Suc k" "n + 2 ^ k + j * 2 ^ Suc k < 2 ^ Suc k" for j
      using mod_pos_pos_trivial [OF that] by (metis mod_mult_self1 add.commute mult.commute)
    show ?thesis using trivial [of 1] trivial [of "-1"] trivial [of 0] assms(1,2) k by simp
  qed
  then show ?thesis using eq k by simp
qed

lemma sint_bounds: "- (2 ^ (LENGTH('a) - 1)) \<le> sint (w :: 'a::len word)" "sint w < 2 ^ (LENGTH('a) - 1)"
  by (rule sint_ge, rule sint_lt)

lemma twice_half: "(2 :: int) ^ LENGTH('a::len) = 2 * 2 ^ (LENGTH('a) - 1)"
  by (metis len_gt_0 power_eq_if neq0_conv)

lemma uint_not: "uint (NOT (x :: 'a::len word)) = 2 ^ LENGTH('a) - 1 - uint x"
  using uint_lt2p [of x] by (simp add: unsigned_not_eq take_bit_not_eq_mask_diff mask_eq_exp_minus_1 take_bit_int_eq_self)

lemma sign_bits:
  "HasSignBit (NOT ((r XOR x) AND (r XOR y))) = (\<not> ((sint r < 0) \<noteq> (sint x < 0) \<and> (sint r < 0) \<noteq> (sint y < 0)))"
  for x :: "'a::len word"
  using sint_sign [of r] sint_sign [of x] sint_sign [of y]
  by (auto simp: HasSignBit_bit bit_simps)

lemma add_valid: "IsAddValid sg x y = in_range sg TYPE('a) (ival sg x + ival sg y)" for x :: "'a::len word"
proof (cases sg)
  case True
  have "sint (x + y) = (if sint x + sint y < - (2 ^ (LENGTH('a) - 1)) then sint x + sint y + 2 ^ LENGTH('a)
      else if 2 ^ (LENGTH('a) - 1) \<le> sint x + sint y then sint x + sint y - 2 ^ LENGTH('a) else sint x + sint y)"
    using sint_bounds [of x] sint_bounds [of y]
    by (intro sint_wrap) (simp_all add: twice_half)
  then show ?thesis
    using True sint_bounds [of x] sint_bounds [of y]
    unfolding IsAddValid_def Let_def sign_bits
    by (auto simp: in_range_def ival_def int_min_def int_max_def twice_half split: if_splits)
next
  case False
  then show ?thesis
    by (auto simp: IsAddValid_def uint_not in_range_def ival_def int_min_def int_max_def)
qed

lemma sign_bits_sub:
  "HasSignBit (NOT ((r XOR x) AND (x XOR y))) = (\<not> ((sint r < 0) \<noteq> (sint x < 0) \<and> (sint x < 0) \<noteq> (sint y < 0)))"
  for x :: "'a::len word"
  using sint_sign [of r] sint_sign [of x] sint_sign [of y]
  by (auto simp: HasSignBit_bit bit_simps)

lemma sub_valid: "IsSubValid sg x y = in_range sg TYPE('a) (ival sg x - ival sg y)" for x :: "'a::len word"
proof (cases sg)
  case True
  have "sint (x - y) = (if sint x - sint y < - (2 ^ (LENGTH('a) - 1)) then sint x - sint y + 2 ^ LENGTH('a)
      else if 2 ^ (LENGTH('a) - 1) \<le> sint x - sint y then sint x - sint y - 2 ^ LENGTH('a) else sint x - sint y)"
    using sint_bounds [of x] sint_bounds [of y]
    by (intro sint_wrap) (simp_all add: twice_half)
  then show ?thesis
    using True sint_bounds [of x] sint_bounds [of y]
    unfolding IsSubValid_def Let_def sign_bits_sub
    by (auto simp: in_range_def ival_def int_min_def int_max_def twice_half split: if_splits)
next
  case False
  then show ?thesis using uint_lt2p [of x] uint_lt2p [of y] unsigned_greater_eq [of y]
    by (auto simp: IsSubValid_def in_range_def ival_def int_min_def int_max_def)
qed

lemma mul_valid_twice: "IsMulValid_twice sg x y = in_range sg TYPE('a) (ival sg x * ival sg y)" for x :: "'a::len word"
proof (cases sg)
  case True
  let ?P = "(2 :: int) ^ (LENGTH('a) - 1)"
  have len: "2 * LENGTH('a) - 1 = Suc ((LENGTH('a) - 1) + (LENGTH('a) - 1))" using len_gt_0 [where 'a = 'a] by arith
  have "\<bar>sint x * sint y\<bar> \<le> ?P * ?P"
    using sint_bounds [of x] sint_bounds [of y] unfolding abs_mult by (intro mult_mono) auto
  moreover have "?P * ?P < 2 ^ (2 * LENGTH('a) - 1)" unfolding len by (simp add: power_add)
  ultimately have "signed_take_bit (2 * LENGTH('a) - 1) (sint x * sint y) = sint x * sint y"
    by (intro signed_take_bit_int_eq_self) auto
  then show ?thesis using True by (simp add: IsMulValid_twice_def ival_def)
next
  case False
  have "uint x * uint y < 2 ^ LENGTH('a) * 2 ^ LENGTH('a)"
    using uint_lt2p [of x] uint_lt2p [of y] by (intro mult_strict_mono') auto
  then have "take_bit (2 * LENGTH('a)) (uint x * uint y) = uint x * uint y"
    by (intro take_bit_int_eq_self) (simp_all add: mult_2 power_add)
  then show ?thesis using False by (simp add: IsMulValid_twice_def ival_def)
qed

lemma le_div_iff: "0 < b \<Longrightarrow> a \<le> m div b \<longleftrightarrow> a * b \<le> m" for a :: int
proof
  assume b: "0 < b" and "a \<le> m div b"
  then have "a * b \<le> (m div b) * b" by (simp add: mult_right_mono)
  then show "a * b \<le> m" using div_mult_mod_eq [of m b] pos_mod_sign [OF b, of m] by linarith
next
  assume b: "0 < b" and "a * b \<le> m"
  then show "a \<le> m div b" using zdiv_mono1 [of "a * b" m b] by simp
qed

lemma sdiv_nonneg: "0 \<le> m \<Longrightarrow> 0 < b \<Longrightarrow> m sdiv b = m div b" for m b :: int
  by (cases "m = 0") (simp_all add: signed_divide_int_def)

lemma sdiv_neg: "0 \<le> m \<Longrightarrow> b < 0 \<Longrightarrow> m sdiv b = - (m div - b)" "0 \<le> m \<Longrightarrow> 0 < b \<Longrightarrow> - m sdiv b = - (m div b)" for m b :: int
  by (cases "m = 0"; simp add: signed_divide_int_def)+

lemma mul_valid_signed: "IsMulValid_signed x y = in_range True TYPE('a) (ival True x * ival True y)" for x :: "'a::len word"
proof -
  let ?P = "(2 :: int) ^ (LENGTH('a) - 1)"
  define a b where "a = sint x" and "b = sint y"
  have P: "- ?P < 0" by simp
  consider "a = 0 \<or> b = 0" | "a > 0" "b > 0" | "a > 0" "b < 0" | "a < 0" "b > 0" | "a < 0" "b < 0" by linarith
  then have "IsMulValid_signed x y = (- ?P \<le> a * b \<and> a * b < ?P)"
  proof cases
    case 2
    then have "(a \<le> (?P - 1) sdiv b) = (a * b \<le> ?P - 1)" by (simp add: sdiv_nonneg le_div_iff)
    moreover have "0 < a * b" using 2 by (rule mult_pos_pos)
    moreover from this have "- ?P \<le> a * b" using P by linarith
    ultimately show ?thesis using 2 P by (auto simp: IsMulValid_signed_def a_def b_def Let_def int_max_def)
  next
    case 3
    then have "(b \<ge> (- ?P) sdiv a) = (- b * a \<le> ?P)"
      using le_div_iff [of a "- b" ?P] by (auto simp: sdiv_neg sdiv_nonneg)
    moreover have "a * b < 0" using 3 by (rule mult_pos_neg)
    moreover from this have "a * b < ?P" using P by linarith
    ultimately show ?thesis using 3 P by (auto simp: IsMulValid_signed_def a_def b_def Let_def int_min_def mult.commute)
  next
    case 4
    then have "(a \<ge> (- ?P) sdiv b) = (- a * b \<le> ?P)"
      using le_div_iff [of b "- a" ?P] by (auto simp: sdiv_neg sdiv_nonneg)
    moreover have "a * b < 0" using 4 by (rule mult_neg_pos)
    moreover from this have "a * b < ?P" using P by linarith
    ultimately show ?thesis using 4 P by (auto simp: IsMulValid_signed_def a_def b_def Let_def int_min_def)
  next
    case 5
    then have "(b \<ge> (?P - 1) sdiv a) = (b * a \<le> ?P - 1)"
      using le_div_iff [of "- a" "- b" "?P - 1"] by (auto simp: sdiv_neg sdiv_nonneg)
    moreover have "0 < a * b" using 5 by (rule mult_neg_neg)
    moreover from this have "- ?P \<le> a * b" using P by linarith
    ultimately show ?thesis using 5 P by (auto simp: IsMulValid_signed_def a_def b_def Let_def int_max_def mult.commute)
  qed (auto simp: IsMulValid_signed_def a_def b_def Let_def)
  then show ?thesis by (auto simp: in_range_def ival_def int_min_def int_max_def a_def b_def)
qed

lemma mul_valid: "IsMulValid sg x y = in_range sg TYPE('a) (ival sg x * ival sg y)" for x :: "'a::len word"
proof -
  have "IsMulValid_unsigned x y = in_range False TYPE('a) (ival False x * ival False y)"
  proof (cases "y = 0")
    case False
    then have "uint y \<noteq> 0" by (simp add: unsigned_eq_0_iff)
    moreover have "0 \<le> uint y" by simp
    ultimately have "0 < uint y" by linarith
    then show ?thesis using False
      by (simp add: IsMulValid_unsigned_def in_range_def ival_def int_min_def int_max_def le_div_iff)
  qed (simp add: IsMulValid_unsigned_def in_range_def ival_def int_min_def int_max_def)
  then show ?thesis by (cases sg) (simp_all add: IsMulValid_def mul_valid_twice mul_valid_signed)
qed

lemma sdiv_abs_less: "a \<noteq> 0 \<Longrightarrow> 1 < \<bar>b\<bar> \<Longrightarrow> \<bar>a sdiv b\<bar> < \<bar>a\<bar>" for a b :: int
proof -
  assume ab: "a \<noteq> 0" "1 < \<bar>b\<bar>"
  have "b \<noteq> 0" using ab by auto
  then have "\<bar>a sdiv b\<bar> = \<bar>a\<bar> div \<bar>b\<bar>"
    using ab by (simp add: signed_divide_int_def abs_mult abs_sgn_eq pos_imp_zdiv_nonneg_iff)
  then show ?thesis using int_div_less_self [of "\<bar>a\<bar>" "\<bar>b\<bar>"] ab by simp
qed

lemma sint_minus_one: "(y = - 1) = (sint y = - 1)" for y :: "'a::len word"
proof
  assume "sint y = - 1"
  then have "sint y = sint (- 1 :: 'a word)" by simp
  then show "y = - 1" by (rule signed_word_eqI)
qed simp

lemma div_valid: "IsDivValid sg x y = (ival sg y \<noteq> 0 \<and> in_range sg TYPE('a) (ival sg x sdiv ival sg y))" for x :: "'a::len word"
proof (cases sg)
  case True
  define a b where "a = sint x" and "b = sint y"
  have bounds: "- (2 ^ (LENGTH('a) - 1)) \<le> a" "a < 2 ^ (LENGTH('a) - 1)" unfolding a_def by (rule sint_bounds)+
  have pos: "(0 :: int) < 2 ^ (LENGTH('a) - 1)" by simp
  have "in_range True TYPE('a) (a sdiv b) = (\<not> (a = - (2 ^ (LENGTH('a) - 1)) \<and> b = - 1))" if "b \<noteq> 0"
  proof (cases "1 < \<bar>b\<bar> \<and> a \<noteq> 0")
    case True
    then have "\<bar>a sdiv b\<bar> < \<bar>a\<bar>" by (simp add: sdiv_abs_less)
    then show ?thesis using True bounds by (auto simp: in_range_def int_min_def int_max_def abs_if split: if_splits)
  next
    case False
    with that consider "a = 0" | "b = 1" | "b = - 1" by linarith
    then show ?thesis using bounds pos
      by cases (auto simp: in_range_def int_min_def int_max_def signed_divide_int_def sgn_if abs_if)
  qed
  then show ?thesis
    using True by (auto simp: IsDivValid_def ival_def int_min_def a_def b_def sint_minus_one signed_eq_0_iff)
next
  case False
  show ?thesis
  proof (cases "y = 0")
    case nonzero: False
    then have "uint y \<noteq> 0" by (simp add: unsigned_eq_0_iff)
    moreover have "0 \<le> uint y" by simp
    ultimately have pos: "0 < uint y" by linarith
    then have "uint x div uint y \<le> uint x" "0 \<le> uint x div uint y"
      using zdiv_mono2 [of "uint x" 1 "uint y"] by (simp_all add: pos_imp_zdiv_nonneg_iff)
    moreover from this(1) have "uint x div uint y < 2 ^ LENGTH('a)" by (rule le_less_trans) simp
    ultimately show ?thesis
      using False nonzero pos sdiv_nonneg [of "uint x" "uint y"]
      by (auto simp: IsDivValid_def ival_def in_range_def int_min_def int_max_def)
  qed (simp add: IsDivValid_def ival_def)
qed

lemma mod_valid: "IsModValid sg x y = (0 \<le> ival sg x \<and> 0 < ival sg y)"
  by (auto simp: IsModValid_def ival_def)

lemma mod_range: "0 \<le> ival sg x \<Longrightarrow> 0 < ival sg y \<Longrightarrow> in_range sg TYPE('a) (ival sg x mod ival sg y)" for x :: "'a::len word"
proof -
  assume nonneg: "0 \<le> ival sg x" "0 < ival sg y"
  have "ival sg x mod ival sg y \<le> ival sg x" using nonneg by (simp add: zmod_le_nonneg_dividend)
  moreover have "0 \<le> ival sg x mod ival sg y" using nonneg by simp
  moreover have "int_min sg TYPE('a) \<le> 0" by (simp add: int_min_def)
  ultimately show ?thesis using ival_range [of sg x] by (simp add: in_range_def)
qed

lemma range_valid:
  "IsInRange sg TYPE('a) sgU x = in_range sg TYPE('a::len) (ival sgU x)" for x :: "'b::len word"
proof -
  define A A' B B' where "A = (2 :: int) ^ LENGTH('a)" and "A' = (2 :: int) ^ (LENGTH('a) - 1)"
    and "B = (2 :: int) ^ LENGTH('b)" and "B' = (2 :: int) ^ (LENGTH('b) - 1)"
  have le: "LENGTH('b) \<le> LENGTH('a) \<Longrightarrow> B \<le> A" "LENGTH('b) \<le> LENGTH('a) \<Longrightarrow> B' \<le> A'" "LENGTH('b) < LENGTH('a) \<Longrightarrow> B \<le> A'"
    "B' \<le> B" "0 < A'"
    unfolding A_def A'_def B_def B'_def by (auto intro!: power_increasing)
  have limits: "int_max sg TYPE('a) = (if sg then A' - 1 else A - 1)" "int_min sg TYPE('a) = (if sg then - A' else 0)"
    "int_max sg TYPE('b) = (if sg then B' - 1 else B - 1)" "int_min sg TYPE('b) = (if sg then - B' else 0)" for sg
    by (simp_all add: int_max_def int_min_def A_def A'_def B_def B'_def)
  have x: "in_range sgU TYPE('b) (ival sgU x)" by (rule ival_range)
  show ?thesis
    using x le by (cases sg; cases sgU) (auto simp: IsInRange_def rangeContains_def in_range_def limits)
qed

section \<open>Expressions\<close>

text \<open>
  Expressions over checked integers: the leaves are values of a 64-bit type.  Next to their
  evaluation with checked integers, their value in the integers, undefined where an operand of a
  division or a remainder is not allowed or a result of any operation leaves the type.
\<close>

datatype checked_expr =
    CVal bool "64 word" | CAdd checked_expr checked_expr | CSub checked_expr checked_expr
  | CMul checked_expr checked_expr | CDiv checked_expr checked_expr | CMod checked_expr checked_expr | CNeg checked_expr

fun checked_eval :: "bool \<Rightarrow> checked_expr \<Rightarrow> 'a::len word checked_int" where
  "checked_eval sg (CVal sgU w) = checkedInt sg sgU w"
| "checked_eval sg (CAdd e f) = checked_add sg (checked_eval sg e) (checked_eval sg f)"
| "checked_eval sg (CSub e f) = checked_sub sg (checked_eval sg e) (checked_eval sg f)"
| "checked_eval sg (CMul e f) = checked_mul sg (checked_eval sg e) (checked_eval sg f)"
| "checked_eval sg (CDiv e f) = checked_div sg (checked_eval sg e) (checked_eval sg f)"
| "checked_eval sg (CMod e f) = checked_mod sg (checked_eval sg e) (checked_eval sg f)"
| "checked_eval sg (CNeg e) = checked_neg sg (checked_eval sg e)"

definition ranged :: "bool \<Rightarrow> 'a::len itself \<Rightarrow> int \<Rightarrow> int option" where
  "ranged sg T n = (if in_range sg T n then Some n else None)"

definition both :: "(int \<Rightarrow> int \<Rightarrow> int option) \<Rightarrow> int option \<Rightarrow> int option \<Rightarrow> int option" where
  "both f a b = (case (a, b) of (Some m, Some n) \<Rightarrow> f m n | _ \<Rightarrow> None)"

fun exact_eval :: "bool \<Rightarrow> 'a::len itself \<Rightarrow> checked_expr \<Rightarrow> int option" where
  "exact_eval sg T (CVal sgU w) = ranged sg T (ival sgU w)"
| "exact_eval sg T (CAdd e f) = both (\<lambda>m n. ranged sg T (m + n)) (exact_eval sg T e) (exact_eval sg T f)"
| "exact_eval sg T (CSub e f) = both (\<lambda>m n. ranged sg T (m - n)) (exact_eval sg T e) (exact_eval sg T f)"
| "exact_eval sg T (CMul e f) = both (\<lambda>m n. ranged sg T (m * n)) (exact_eval sg T e) (exact_eval sg T f)"
| "exact_eval sg T (CDiv e f) =
     both (\<lambda>m n. if n = 0 then None else ranged sg T (m sdiv n)) (exact_eval sg T e) (exact_eval sg T f)"
| "exact_eval sg T (CMod e f) =
     both (\<lambda>m n. if m < 0 \<or> n \<le> 0 then None else Some (m mod n)) (exact_eval sg T e) (exact_eval sg T f)"
| "exact_eval sg T (CNeg e) = both (\<lambda>m n. ranged sg T (- m)) (exact_eval sg T e) (Some 0)"

text \<open>What a checked integer tells: its value if it is valid.\<close>

definition checked_value :: "bool \<Rightarrow> 'a::len word checked_int \<Rightarrow> int option" where
  "checked_value sg c = (if mIsValid c then Some (ival sg (mValue c)) else None)"

lemma toChecked_value:
  "checked_value sgT (toChecked sgT sgU c :: 'a::len word checked_int) =
     both (\<lambda>m n. ranged sgT TYPE('a) m) (checked_value sgU c) (Some 0)"
  by (simp add: toChecked_def checkedInt_def checked_value_def both_def ranged_def range_valid ival_word_of_int)

lemma checked_op_value:
  assumes "\<And>x y. valid x y \<Longrightarrow> g (ival sg x) (ival sg y) = Some (ival sg (f x y))"
    "\<And>x y. \<not> valid x y \<Longrightarrow> g (ival sg x) (ival sg y) = None"
  shows "checked_value sg (checked_op valid f a b) = both g (checked_value sg a) (checked_value sg b)"
  using assms by (auto simp: checked_value_def checked_op_def both_def)

lemma word_result: "in_range sg TYPE('a) n \<Longrightarrow> w = word_of_int n \<Longrightarrow> ranged sg TYPE('a) n = Some (ival sg (w :: 'a::len word))"
  by (simp add: ranged_def ival_word_of_int)

lemma word_of_ival: "word_of_int (ival sg (w :: 'a::len word)) = w"
  by (simp add: ival_def)

lemma ival_hom:
  "in_range sg TYPE('a) (ival sg x + ival sg y) \<Longrightarrow> ival sg (x + y) = ival sg x + ival sg y"
  "in_range sg TYPE('a) (ival sg x - ival sg y) \<Longrightarrow> ival sg (x - y) = ival sg x - ival sg y"
  "in_range sg TYPE('a) (ival sg x * ival sg y) \<Longrightarrow> ival sg (x * y) = ival sg x * ival sg y"
  "in_range sg TYPE('a) (- ival sg x) \<Longrightarrow> ival sg (- x) = - ival sg x" for x :: "'a::len word"
  using ival_word_of_int [of sg "ival sg x + ival sg y", where 'a = 'a] ival_word_of_int [of sg "ival sg x - ival sg y", where 'a = 'a]
    ival_word_of_int [of sg "ival sg x * ival sg y", where 'a = 'a] ival_word_of_int [of sg "- ival sg x", where 'a = 'a]
  by (simp_all add: word_of_ival)

lemma checked_ops_value:
  "checked_value sg (checked_add sg a b) = both (\<lambda>m n. ranged sg TYPE('a) (m + n)) (checked_value sg a) (checked_value sg b)"
  "checked_value sg (checked_sub sg a b) = both (\<lambda>m n. ranged sg TYPE('a) (m - n)) (checked_value sg a) (checked_value sg b)"
  "checked_value sg (checked_mul sg a b) = both (\<lambda>m n. ranged sg TYPE('a) (m * n)) (checked_value sg a) (checked_value sg b)"
  "checked_value sg (checked_div sg a b) =
     both (\<lambda>m n. if n = 0 then None else ranged sg TYPE('a) (m sdiv n)) (checked_value sg a) (checked_value sg b)"
  "checked_value sg (checked_mod sg a b) =
     both (\<lambda>m n. if m < 0 \<or> n \<le> 0 then None else Some (m mod n)) (checked_value sg a) (checked_value sg b)"
  for a b :: "'a::len word checked_int"
proof -
  have smod: "m smod n = m mod n" if "0 \<le> m" "0 < n" for m n :: int
    using that by (cases "m = 0") (simp_all add: signed_modulo_int_def sdiv_nonneg minus_div_mult_eq_mod mult.commute)
  show "checked_value sg (checked_add sg a b) = both (\<lambda>m n. ranged sg TYPE('a) (m + n)) (checked_value sg a) (checked_value sg b)"
    unfolding checked_add_def
    by (rule checked_op_value) (auto simp: add_valid ranged_def ival_hom)
  show "checked_value sg (checked_sub sg a b) = both (\<lambda>m n. ranged sg TYPE('a) (m - n)) (checked_value sg a) (checked_value sg b)"
    unfolding checked_sub_def
    by (rule checked_op_value) (auto simp: sub_valid ranged_def ival_hom)
  show "checked_value sg (checked_mul sg a b) = both (\<lambda>m n. ranged sg TYPE('a) (m * n)) (checked_value sg a) (checked_value sg b)"
    unfolding checked_mul_def
    by (rule checked_op_value) (auto simp: mul_valid ranged_def ival_hom)
  show "checked_value sg (checked_div sg a b) =
     both (\<lambda>m n. if n = 0 then None else ranged sg TYPE('a) (m sdiv n)) (checked_value sg a) (checked_value sg b)"
    unfolding checked_div_def
    by (rule checked_op_value) (auto simp: div_valid ranged_def word_quot_def ival_word_of_int)
  show "checked_value sg (checked_mod sg a b) =
     both (\<lambda>m n. if m < 0 \<or> n \<le> 0 then None else Some (m mod n)) (checked_value sg a) (checked_value sg b)"
    unfolding checked_mod_def
    by (rule checked_op_value) (auto simp: mod_valid word_rem_def smod mod_range ival_word_of_int)
qed

lemma checked_neg_value:
  "checked_value sg (checked_neg sg a) = both (\<lambda>m n. ranged sg TYPE('a) (- m)) (checked_value sg a) (Some 0)"
  for a :: "'a::len word checked_int"
proof -
  have range: "in_range sg TYPE('a) (- ival sg x) = (if sg then ival sg x \<noteq> int_min sg TYPE('a) else x = 0)" for x :: "'a word"
    using ival_range [of sg x] unsigned_eq_0_iff [of x] uint_lt2p [of x]
    by (auto simp: in_range_def int_min_def int_max_def ival_def)
  show ?thesis
    using range [of "mValue a"] ival_hom(4) [of sg "mValue a"]
    by (cases sg; cases "mIsValid a") (auto simp: checked_value_def checked_neg_def both_def ranged_def ival_def)
qed

text \<open>
  C33: Checked arithmetic is exact.  For every type of 8 to 64 bits, signed or not, and every
  expression, the checked integer is valid if and only if every operation of the expression stays
  in the range of the type over the integers, no divisor is zero and no operand of a remainder is
  negative; and then its value is the value of the expression over the integers.
\<close>

theorem checked_exact:
  "checked_value sg (checked_eval sg e :: 'a::len word checked_int) = exact_eval sg TYPE('a) e"
proof (induction e)
  case (CVal sgU w)
  then show ?case by (simp add: checked_value_def checkedInt_def range_valid ranged_def ival_word_of_int)
qed (simp_all add: checked_ops_value checked_neg_value)

end
