(* ===== verification/KeyRegenerator.thy ===== *)
theory KeyRegenerator
  imports MozillaVpnProperties CheckedInt
begin

text \<open>
  Model of \<^verbatim>\<open>src/keyregenerator.cpp\<close>: the slot that replaces the WireGuard key of this device when it
  is too old.  It reads and writes the state of the application, and keeps a timer of its own that
  calls the slot again.  Times are in seconds, the timer in milliseconds; the clock and the age
  limit are 64-bit integers of the code, the timer's interval is a 32-bit checked integer.
\<close>

section \<open>The slot\<close>

definition keyRegeneratorTimeSec :: "vpn_env \<Rightarrow> int" where
  "keyRegeneratorTimeSec env = (if ve_inProd env then 604800 else 300)"

record key_regenerator =
  kr_vpn :: mozilla_vpn
  kr_timer :: "int option"

text \<open>The interval of a time in seconds: its conversion to \<^verbatim>\<open>int\<close>, then a checked multiplication.\<close>

definition timer_value :: "32 word \<Rightarrow> int" where
  "timer_value secs =
    (let value = checked_mul True (checkedInt True True secs) (checkedInt True True (1000 :: 32 word) :: 32 word checked_int)
     in if mIsValid value then sint (mValue value) else int_max True TYPE(32))"

definition timer_value_cast :: "int \<Rightarrow> int" where
  "timer_value_cast diff = timer_value (word_of_int diff)"

text \<open>The second use of the checked integer converts the constant itself, which is in range.\<close>

definition timer_value_const :: "int \<Rightarrow> int" where
  "timer_value_const secs =
    (let value = checked_mul True (checkedInt True True (word_of_int secs :: 64 word)) (checkedInt True True (1000 :: 32 word) :: 32 word checked_int)
     in if mIsValid value then sint (mValue value) else int_max True TYPE(32))"

definition keyRegenerator_stateChanged :: "vpn_env \<Rightarrow> bool \<Rightarrow> key_regenerator \<Rightarrow> key_regenerator" where
  "keyRegenerator_stateChanged env supported k =
    (let k = k\<lparr>kr_timer := None\<rparr>; s = kr_vpn k
     in if \<not> supported then k
        else if mv_state s \<noteq> VsMain \<or> ve_controller env \<noteq> StateOff then k
        else let st = (if st_keyRegenerationTimeSec (mv_settings s) = None
                       then (mv_settings s)\<lparr>st_keyRegenerationTimeSec := Some (ve_now env)\<rparr> else mv_settings s);
                 s = s\<lparr>mv_settings := st\<rparr>;
                 diff = keyRegeneratorTimeSec env - (ve_now env - the (st_keyRegenerationTimeSec st))
             in if diff > 0 then k\<lparr>kr_vpn := s, kr_timer := Some (timer_value_cast diff)\<rparr>
                else k\<lparr>kr_vpn := vpn_schedule (TkAccount PropagateError) (vpn_schedule TkAddDevice s),
                       kr_timer := Some (timer_value_const (keyRegeneratorTimeSec env))\<rparr>)"

section \<open>The interval\<close>

definition value_or_max :: "32 word checked_int \<Rightarrow> int" where
  "value_or_max c = (case checked_value True c of Some n \<Rightarrow> n | None \<Rightarrow> int_max True TYPE(32))"

lemma value_or_max: "(if mIsValid c then sint (mValue c) else int_max True TYPE(32)) = value_or_max c"
  by (simp add: value_or_max_def checked_value_def ival_def)

lemma thousand: "checked_value True (checkedInt True True (1000 :: 32 word) :: 32 word checked_int) = Some 1000"
  by (simp add: checked_value_def checkedInt_def range_valid in_range_def int_min_def int_max_def ival_def)

lemma times_thousand:
  "value_or_max (checked_mul True c (checkedInt True True (1000 :: 32 word))) =
     (case checked_value True c of None \<Rightarrow> 2 ^ 31 - 1
      | Some n \<Rightarrow> if in_range True TYPE(32) (n * 1000) then n * 1000 else 2 ^ 31 - 1)"
  by (simp add: value_or_max_def checked_ops_value thousand both_def ranged_def int_max_def split: option.split)

lemma int_value:
  assumes "- (2 ^ 31) \<le> n" "n < 2 ^ 31"
  shows "checked_value True (checkedInt True True (word_of_int n :: 32 word) :: 32 word checked_int) = Some n"
    "checked_value True (checkedInt True True (word_of_int n :: 64 word) :: 32 word checked_int) = Some n"
proof -
  have r: "in_range True TYPE(32) n" "in_range True TYPE(64) n"
    using assms by (simp_all add: in_range_def int_min_def int_max_def)
  then show "checked_value True (checkedInt True True (word_of_int n :: 32 word) :: 32 word checked_int) = Some n"
    "checked_value True (checkedInt True True (word_of_int n :: 64 word) :: 32 word checked_int) = Some n"
    by (simp_all add: checked_value_def checkedInt_def range_valid ival_word_of_int)
qed

text \<open>Up to 24 days the interval is exact, from there to 68 years it is the longest one.\<close>

lemma timer_value_cast:
  assumes "0 < diff" "diff < 2 ^ 31"
  shows "timer_value_cast diff = (if diff \<le> 2147483 then diff * 1000 else 2 ^ 31 - 1)"
  using assms int_value(1) [of diff]
  by (auto simp: timer_value_cast_def timer_value_def Let_def value_or_max times_thousand in_range_def int_min_def int_max_def)

lemma timer_value_const: "timer_value_const (keyRegeneratorTimeSec env) = keyRegeneratorTimeSec env * 1000"
  using int_value(2) [of "keyRegeneratorTimeSec env"]
  by (auto simp: timer_value_const_def Let_def value_or_max times_thousand keyRegeneratorTimeSec_def in_range_def int_min_def int_max_def)

section \<open>The age of the key\<close>

text \<open>The time from which the age is counted.\<close>

definition key_time :: "vpn_env \<Rightarrow> mozilla_vpn \<Rightarrow> int" where
  "key_time env s = (case st_keyRegenerationTimeSec (mv_settings s) of None \<Rightarrow> ve_now env | Some t \<Rightarrow> t)"

definition may_regenerate :: "vpn_env \<Rightarrow> bool \<Rightarrow> mozilla_vpn \<Rightarrow> bool" where
  "may_regenerate env supported s = (supported \<and> mv_state s = VsMain \<and> ve_controller env = StateOff)"

lemma slot_idle:
  "\<not> may_regenerate env supported (kr_vpn k) \<Longrightarrow> keyRegenerator_stateChanged env supported k = k\<lparr>kr_timer := None\<rparr>"
  by (auto simp: keyRegenerator_stateChanged_def may_regenerate_def Let_def)

lemma slot_young:
  assumes "may_regenerate env supported (kr_vpn k)" "key_time env (kr_vpn k) \<le> ve_now env"
    "ve_now env < key_time env (kr_vpn k) + keyRegeneratorTimeSec env"
  shows "keyRegenerator_stateChanged env supported k =
    k\<lparr>kr_vpn := (kr_vpn k)\<lparr>mv_settings := (mv_settings (kr_vpn k))\<lparr>st_keyRegenerationTimeSec := Some (key_time env (kr_vpn k))\<rparr>\<rparr>,
      kr_timer := Some ((key_time env (kr_vpn k) + keyRegeneratorTimeSec env - ve_now env) * 1000)\<rparr>"
proof -
  have diff: "keyRegeneratorTimeSec env - (ve_now env - t) = t + keyRegeneratorTimeSec env - ve_now env" for t by simp
  have val: "timer_value_cast (key_time env (kr_vpn k) + keyRegeneratorTimeSec env - ve_now env) =
      (key_time env (kr_vpn k) + keyRegeneratorTimeSec env - ve_now env) * 1000"
    using assms(2,3) by (subst timer_value_cast) (auto simp: keyRegeneratorTimeSec_def split: if_splits)
  show ?thesis
  proof (cases "st_keyRegenerationTimeSec (mv_settings (kr_vpn k))")
    case None
    then have "key_time env (kr_vpn k) = ve_now env" by (simp add: key_time_def)
    then show ?thesis
      using assms(1,3) val None unfolding keyRegenerator_stateChanged_def diff
      by (simp add: may_regenerate_def Let_def)
  next
    case (Some t)
    then have "key_time env (kr_vpn k) = t" by (simp add: key_time_def)
    moreover have "mv_settings (kr_vpn k) = (mv_settings (kr_vpn k))\<lparr>st_keyRegenerationTimeSec := Some t\<rparr>"
      using Some by simp
    ultimately show ?thesis
      using assms(1,3) val Some unfolding keyRegenerator_stateChanged_def diff
      by (simp add: may_regenerate_def Let_def)
  qed
qed

lemma slot_old:
  assumes "may_regenerate env supported (kr_vpn k)"
    "key_time env (kr_vpn k) + keyRegeneratorTimeSec env \<le> ve_now env"
  shows "keyRegenerator_stateChanged env supported k =
    k\<lparr>kr_vpn := (kr_vpn k)\<lparr>mv_tasks := mv_tasks (kr_vpn k) @ [TkAddDevice, TkAccount PropagateError]\<rparr>,
      kr_timer := Some (keyRegeneratorTimeSec env * 1000)\<rparr>"
proof (cases "st_keyRegenerationTimeSec (mv_settings (kr_vpn k))")
  case None
  then show ?thesis using assms(2) by (simp add: key_time_def keyRegeneratorTimeSec_def split: if_splits)
next
  case (Some t)
  then have "keyRegeneratorTimeSec env - (ve_now env - t) \<le> 0" using assms(2) by (simp add: key_time_def)
  then show ?thesis
    using assms(1) Some unfolding keyRegenerator_stateChanged_def timer_value_const
    by (simp add: may_regenerate_def vpn_schedule_def Let_def)
qed

lemma limit_range: "0 < keyRegeneratorTimeSec env" "keyRegeneratorTimeSec env * 1000 < 2 ^ 31"
  by (simp_all add: keyRegeneratorTimeSec_def)

text \<open>What the slot does to the queue and to its timer at a key of age \<open>a\<close> seconds.\<close>

definition age_answer :: "int \<Rightarrow> int \<Rightarrow> vpn_task list \<times> int" where
  "age_answer limit a = (if a < limit then ([], (limit - a) * 1000) else ([TkAddDevice, TkAccount PropagateError], limit * 1000))"

text \<open>
  C34: The age of the key is bounded.  The slot changes nothing but its timer while the feature is
  off, the main view is not shown or the tunnel is not off.  Otherwise, if the stored time is
  not in the future, a key younger than the limit (a week, five minutes in staging) is kept and
  the timer runs for exactly the rest of the limit in milliseconds, which fits the 32-bit
  interval; an older key is replaced by queueing a registration and an account check, and the next
  check is a full limit later.  So when the timer of a young key has expired, the slot queues the
  registration; and once the registration is answered, the age is counted anew from the answer.
\<close>

theorem key_age_bounded:
  assumes "key_time env (kr_vpn k) \<le> ve_now env"
    "k' = keyRegenerator_stateChanged env supported k"
    "(tasks, i) = age_answer (keyRegeneratorTimeSec env) (ve_now env - key_time env (kr_vpn k))"
  shows "(\<not> may_regenerate env supported (kr_vpn k) \<longrightarrow> k' = k\<lparr>kr_timer := None\<rparr>) \<and>
    (may_regenerate env supported (kr_vpn k) \<longrightarrow>
       mv_tasks (kr_vpn k') = mv_tasks (kr_vpn k) @ tasks \<and> kr_timer k' = Some i \<and> 0 < i \<and> i < 2 ^ 31 \<and>
       (\<forall>later. tasks = [] \<and> may_regenerate later supported (kr_vpn k') \<and> ve_inProd later = ve_inProd env \<and>
          i \<le> (ve_now later - ve_now env) * 1000 \<longrightarrow>
          mv_tasks (kr_vpn (keyRegenerator_stateChanged later supported k')) =
            mv_tasks (kr_vpn k') @ [TkAddDevice, TkAccount PropagateError]) \<and>
       (\<forall>later pub priv. may_regenerate later supported (kr_vpn k') \<longrightarrow>
          (let answered = k'\<lparr>kr_vpn := deviceAdded later pub priv (kr_vpn k')\<rparr>;
               next_check = keyRegenerator_stateChanged later supported answered
           in mv_tasks (kr_vpn next_check) = mv_tasks (kr_vpn k') \<and>
              kr_timer next_check = Some (keyRegeneratorTimeSec later * 1000))))"
proof (intro conjI impI allI)
  let ?t = "key_time env (kr_vpn k)" and ?T = "keyRegeneratorTimeSec env"
  show "\<not> may_regenerate env supported (kr_vpn k) \<Longrightarrow> k' = k\<lparr>kr_timer := None\<rparr>" using assms(2) slot_idle by simp
  assume may: "may_regenerate env supported (kr_vpn k)"
  have answer: "mv_tasks (kr_vpn k') = mv_tasks (kr_vpn k) @ tasks \<and> kr_timer k' = Some i \<and> 0 < i \<and> i < 2 ^ 31"
  proof (cases "ve_now env < ?t + ?T")
    case True
    have le: "i \<le> ?T * 1000" "0 < i" "i = (?t + ?T - ve_now env) * 1000" "tasks = []"
      using True assms(1,3) by (simp_all add: age_answer_def)
    then show ?thesis
      using assms(2) limit_range(2) [of env] slot_young [OF may assms(1) True] by simp
  next
    case False
    then show ?thesis using assms(2,3) limit_range [of env] slot_old [OF may] by (simp add: age_answer_def)
  qed
  show "mv_tasks (kr_vpn k') = mv_tasks (kr_vpn k) @ tasks" "kr_timer k' = Some i" "0 < i" "i < 2 ^ 31"
    using answer by blast+
  {
    fix later
    assume l: "tasks = [] \<and> may_regenerate later supported (kr_vpn k') \<and> ve_inProd later = ve_inProd env \<and>
      i \<le> (ve_now later - ve_now env) * 1000"
    then have young: "ve_now env < ?t + ?T" "i = (?t + ?T - ve_now env) * 1000"
      using assms(3) by (auto simp: age_answer_def split: if_splits)
    have "key_time later (kr_vpn k') = ?t" using assms(2) slot_young [OF may assms(1) young(1)] by (simp add: key_time_def)
    moreover have "keyRegeneratorTimeSec later = ?T" using l by (simp add: keyRegeneratorTimeSec_def)
    ultimately have "key_time later (kr_vpn k') + keyRegeneratorTimeSec later \<le> ve_now later"
      using l young(2) by simp
    then show "mv_tasks (kr_vpn (keyRegenerator_stateChanged later supported k')) = mv_tasks (kr_vpn k') @ [TkAddDevice, TkAccount PropagateError]"
      using slot_old [of later supported k'] l by simp
  }
  fix later pub priv
  assume l: "may_regenerate later supported (kr_vpn k')"
  define answered where "answered = k'\<lparr>kr_vpn := deviceAdded later pub priv (kr_vpn k')\<rparr>"
  have "may_regenerate later supported (kr_vpn answered)" "key_time later (kr_vpn answered) = ve_now later"
    "mv_tasks (kr_vpn answered) = mv_tasks (kr_vpn k')"
    using l by (simp_all add: answered_def may_regenerate_def key_time_def deviceAdded_def)
  then have "mv_tasks (kr_vpn (keyRegenerator_stateChanged later supported answered)) = mv_tasks (kr_vpn k') \<and>
      kr_timer (keyRegenerator_stateChanged later supported answered) = Some (keyRegeneratorTimeSec later * 1000)"
    using limit_range(1) [of later] slot_young [of later supported answered] by simp
  then show "let answered = k'\<lparr>kr_vpn := deviceAdded later pub priv (kr_vpn k')\<rparr>;
               next_check = keyRegenerator_stateChanged later supported answered
           in mv_tasks (kr_vpn next_check) = mv_tasks (kr_vpn k') \<and>
              kr_timer next_check = Some (keyRegeneratorTimeSec later * 1000)"
    by (simp add: answered_def Let_def)
qed

lemma key_age_bounded_witness:
  "let k = \<lparr>kr_vpn = demo_vpn\<lparr>mv_state := VsMain\<rparr>, kr_timer = None\<rparr>;
       k' = keyRegenerator_stateChanged demo_vpn_env True k
   in kr_timer k' = Some 604800000 \<and>
      mv_tasks (kr_vpn (keyRegenerator_stateChanged (demo_vpn_env\<lparr>ve_now := 604800\<rparr>) True k')) = [TkAddDevice, TkAccount PropagateError]"
proof -
  let ?k = "\<lparr>kr_vpn = demo_vpn\<lparr>mv_state := VsMain\<rparr>, kr_timer = None\<rparr>"
  have k: "may_regenerate demo_vpn_env True (kr_vpn ?k)" "key_time demo_vpn_env (kr_vpn ?k) = 0"
    "key_time demo_vpn_env (kr_vpn ?k) \<le> ve_now demo_vpn_env" "mv_tasks (kr_vpn ?k) = []"
    "([], 604800000) = age_answer (keyRegeneratorTimeSec demo_vpn_env) (ve_now demo_vpn_env - key_time demo_vpn_env (kr_vpn ?k))"
    by (simp_all add: may_regenerate_def demo_vpn_def demo_vpn_env_def newVpn_def key_time_def defaultSettings_def
        age_answer_def keyRegeneratorTimeSec_def)
  then have later: "may_regenerate (demo_vpn_env\<lparr>ve_now := 604800\<rparr>) True (kr_vpn (keyRegenerator_stateChanged demo_vpn_env True ?k))"
    using slot_young [OF k(1,3)] by (simp add: may_regenerate_def keyRegeneratorTimeSec_def demo_vpn_env_def)
  show ?thesis
    using key_age_bounded [OF k(3) refl k(5)] k(1,4) later
    by (simp add: Let_def demo_vpn_env_def)
qed

end
