(* ===== verification/WindowsFirewall.thy ===== *)
theory WindowsFirewall
  imports Daemon
begin

text \<open>
  Model of \<^verbatim>\<open>src/platforms/windows/daemon/windowsfirewall.cpp\<close>, the kill switch of the Windows daemon:
  which filters it hands to the Windows filtering platform, in which transactions, and which
  filter ids it remembers to remove them.  The platform is a parameter, a record of its calls; what
  the code relies on of it is stated as \<open>wfp_laws\<close> and \<open>arbitration\<close>, both as the platform documents
  them.  Names and descriptions of filters, which only a system tool shows, are left out.
\<close>

section \<open>Filters\<close>

datatype fw_layer = ConnectV4 | RecvAcceptV4 | ConnectV6 | RecvAcceptV6 | OutboundMac | InboundMac

datatype fw_action = FwPermit | FwBlock

datatype fw_value = FwUint32 "32 word" | FwByteArray16 "8 word list"

datatype fw_cond =
    CondAppId string | CondInterfaceIndex int | CondIpProtocol "8 word"
  | CondLocalPort "16 word" | CondRemotePort "16 word"
  | CondRemoteAddress fw_value | CondRemoteRange fw_value fw_value | CondVm2Vm

record fw_filter =
  ff_layer :: fw_layer
  ff_action :: fw_action
  ff_weight :: nat
  ff_conds :: "fw_cond list"
  ff_hard :: bool

definition LOW_WEIGHT :: nat where "LOW_WEIGHT = 0"
definition MED_WEIGHT :: nat where "MED_WEIGHT = 7"
definition HIGH_WEIGHT :: nat where "HIGH_WEIGHT = 13"
definition MAX_WEIGHT :: nat where "MAX_WEIGHT = 15"

definition IPPROTO_TCP :: "8 word" where "IPPROTO_TCP = 6"
definition IPPROTO_UDP :: "8 word" where "IPPROTO_UDP = 17"

text \<open>
  \<^verbatim>\<open>importAddress\<close>: a 32-bit number, or sixteen bytes; \<^verbatim>\<open>toIPv6Address\<close> of a null address is zero.
\<close>

fun importAddress :: "host_address \<Rightarrow> fw_value" where
  "importAddress (IPv4 w) = FwUint32 w"
| "importAddress (IPv6 bs) = FwByteArray16 bs"
| "importAddress NullAddress = FwByteArray16 (replicate 16 0)"

section \<open>The platform\<close>

text \<open>
  Its calls: transactions, adding (a new id, or an error) and deleting filters, the id of an
  executable; and what else the code asks: the path of the module for a buffer size, the path of
  another file in its directory, and the network interfaces with their index, loopback or not.
\<close>

record 'e wfp =
  wfp_begin :: "'e \<Rightarrow> bool \<times> 'e"
  wfp_commit :: "'e \<Rightarrow> bool \<times> 'e"
  wfp_abort :: "'e \<Rightarrow> 'e"
  wfp_add :: "fw_filter \<Rightarrow> 'e \<Rightarrow> nat option \<times> 'e"
  wfp_delete :: "nat \<Rightarrow> 'e \<Rightarrow> 'e"
  wfp_appId :: "string \<Rightarrow> string option"
  wfp_module :: "nat \<Rightarrow> nat \<times> string"
  wfp_sibling :: "string \<Rightarrow> string \<Rightarrow> string"
  wfp_interfaces :: "(int \<times> bool) list"

text \<open>\<^verbatim>\<open>m_peerRules\<close>, a \<^verbatim>\<open>QMultiMap\<close>, is the list of its pairs, the last inserted first.\<close>

record 'e firewall =
  fw_activeRules :: "nat list"
  fw_peerRules :: "(string \<times> nat) list"
  fw_engine :: 'e

definition fw_call :: "('e \<Rightarrow> bool \<times> 'e) \<Rightarrow> 'e firewall \<Rightarrow> bool \<times> 'e firewall" where
  "fw_call f s = (let (ok, e) = f (fw_engine s) in (ok, s\<lparr>fw_engine := e\<rparr>))"

definition fw_abort :: "'e wfp \<Rightarrow> 'e firewall \<Rightarrow> 'e firewall" where
  "fw_abort W s = s\<lparr>fw_engine := wfp_abort W (fw_engine s)\<rparr>"

definition fw_delete :: "'e wfp \<Rightarrow> nat list \<Rightarrow> 'e firewall \<Rightarrow> 'e firewall" where
  "fw_delete W ids s = s\<lparr>fw_engine := fold (wfp_delete W) ids (fw_engine s)\<rparr>"

section \<open>Adding filters\<close>

definition enableFilter :: "'e wfp \<Rightarrow> string \<Rightarrow> fw_filter \<Rightarrow> 'e firewall \<Rightarrow> bool \<times> 'e firewall" where
  "enableFilter W peer f s =
    (case wfp_add W f (fw_engine s) of
       (None, e) \<Rightarrow> (False, s\<lparr>fw_engine := e\<rparr>)
     | (Some filterID, e) \<Rightarrow>
         (True, if peer = [] then s\<lparr>fw_engine := e, fw_activeRules := fw_activeRules s @ [filterID]\<rparr>
                else s\<lparr>fw_engine := e, fw_peerRules := (peer, filterID) # fw_peerRules s\<rparr>))"

definition enableFilters :: "'e wfp \<Rightarrow> string \<Rightarrow> fw_filter list \<Rightarrow> 'e firewall \<Rightarrow> bool \<times> 'e firewall" where
  "enableFilters W peer fs = try_all (map (enableFilter W peer) fs)"

text \<open>The filter base of a rule, put on each of its layers in turn.\<close>

definition on_layers :: "fw_action \<Rightarrow> nat \<Rightarrow> bool \<Rightarrow> fw_cond list \<Rightarrow> fw_layer list \<Rightarrow> fw_filter list" where
  "on_layers action weight hard conds layers =
     map (\<lambda>l. \<lparr>ff_layer = l, ff_action = action, ff_weight = weight, ff_conds = conds, ff_hard = hard\<rparr>) layers"

definition all_layers :: "fw_layer list" where
  "all_layers = [ConnectV4, RecvAcceptV4, ConnectV6, RecvAcceptV6]"

definition layers_of :: "protocol \<Rightarrow> fw_layer list" where
  "layers_of p = (if p = IPv4Protocol then [ConnectV4, RecvAcceptV4] else [ConnectV6, RecvAcceptV6])"

definition app_filters :: "string \<Rightarrow> nat \<Rightarrow> fw_filter list" where
  "app_filters appID weight = on_layers FwPermit weight True [CondAppId appID] all_layers"

definition allowTrafficForAppOnAll :: "'e wfp \<Rightarrow> string \<Rightarrow> nat \<Rightarrow> 'e firewall \<Rightarrow> bool \<times> 'e firewall" where
  "allowTrafficForAppOnAll W exePath weight s =
    (case wfp_appId W exePath of None \<Rightarrow> (False, s) | Some appID \<Rightarrow> enableFilters W [] (app_filters appID weight) s)"

definition adapter_filters :: "int \<Rightarrow> nat \<Rightarrow> fw_filter list" where
  "adapter_filters networkAdapter weight = on_layers FwPermit weight False [CondInterfaceIndex networkAdapter] all_layers"

definition allowTrafficOfAdapter :: "'e wfp \<Rightarrow> int \<Rightarrow> nat \<Rightarrow> 'e firewall \<Rightarrow> bool \<times> 'e firewall" where
  "allowTrafficOfAdapter W networkAdapter weight = enableFilters W [] (adapter_filters networkAdapter weight)"

definition range_filters :: "fw_action \<Rightarrow> ip_address \<Rightarrow> nat \<Rightarrow> fw_filter list" where
  "range_filters action addr weight =
     on_layers action weight False
       [CondRemoteRange (importAddress (m_address addr)) (importAddress (broadcastAddress addr))]
       (layers_of (protocol_of (m_address addr)))"

definition allowTrafficTo :: "'e wfp \<Rightarrow> string \<Rightarrow> nat \<Rightarrow> ip_address \<Rightarrow> 'e firewall \<Rightarrow> bool \<times> 'e firewall" where
  "allowTrafficTo W peer weight addr = enableFilters W peer (range_filters FwPermit addr weight)"

definition port_filters :: "host_address \<Rightarrow> 16 word \<Rightarrow> nat \<Rightarrow> fw_filter list" where
  "port_filters targetIP port weight =
     on_layers FwPermit weight True
       [CondIpProtocol IPPROTO_UDP, CondIpProtocol IPPROTO_TCP, CondRemotePort port, CondRemoteAddress (importAddress targetIP)]
       (layers_of (protocol_of targetIP))"

definition allowTrafficToPort ::
    "'e wfp \<Rightarrow> string \<Rightarrow> host_address \<Rightarrow> 16 word \<Rightarrow> nat \<Rightarrow> 'e firewall \<Rightarrow> bool \<times> 'e firewall" where
  "allowTrafficToPort W peer targetIP port weight = enableFilters W peer (port_filters targetIP port weight)"

text \<open>The same local port 68 and remote port 67 on all four layers, the one for IPv4 connections also with the broadcast address.\<close>

definition dhcp_conds :: "fw_cond list" where
  "dhcp_conds = [CondIpProtocol IPPROTO_UDP, CondLocalPort 68, CondRemotePort 67]"

definition dhcp_filters :: "nat \<Rightarrow> fw_filter list" where
  "dhcp_filters weight =
     on_layers FwPermit weight False (dhcp_conds @ [CondRemoteAddress (FwUint32 0xffffffff)]) [ConnectV4] @
     on_layers FwPermit weight False dhcp_conds [RecvAcceptV4] @
     on_layers FwPermit weight False dhcp_conds [ConnectV6] @
     on_layers FwPermit weight False dhcp_conds [RecvAcceptV6]"

definition allowDHCPTraffic :: "'e wfp \<Rightarrow> nat \<Rightarrow> 'e firewall \<Rightarrow> bool \<times> 'e firewall" where
  "allowDHCPTraffic W weight = enableFilters W [] (dhcp_filters weight)"

definition hyperV_filters :: "nat \<Rightarrow> fw_filter list" where
  "hyperV_filters weight = on_layers FwPermit weight False [CondVm2Vm] [OutboundMac, InboundMac]"

definition allowHyperVTraffic :: "'e wfp \<Rightarrow> nat \<Rightarrow> 'e firewall \<Rightarrow> bool \<times> 'e firewall" where
  "allowHyperVTraffic W weight = enableFilters W [] (hyperV_filters weight)"

definition blockTrafficTo :: "'e wfp \<Rightarrow> string \<Rightarrow> nat \<Rightarrow> ip_address \<Rightarrow> 'e firewall \<Rightarrow> bool \<times> 'e firewall" where
  "blockTrafficTo W peer weight addr = enableFilters W peer (range_filters FwBlock addr weight)"

definition blockTrafficToList :: "'e wfp \<Rightarrow> string \<Rightarrow> nat \<Rightarrow> ip_address list \<Rightarrow> 'e firewall \<Rightarrow> bool \<times> 'e firewall" where
  "blockTrafficToList W peer weight rangeList = try_all (map (blockTrafficTo W peer weight) rangeList)"

definition block_port_filters :: "16 word \<Rightarrow> nat \<Rightarrow> fw_filter list" where
  "block_port_filters port weight =
     on_layers FwBlock weight False [CondIpProtocol IPPROTO_UDP, CondIpProtocol IPPROTO_TCP, CondRemotePort port]
       [ConnectV6, ConnectV4, RecvAcceptV4, RecvAcceptV6]"

definition blockTrafficOnPort :: "'e wfp \<Rightarrow> 16 word \<Rightarrow> nat \<Rightarrow> 'e firewall \<Rightarrow> bool \<times> 'e firewall" where
  "blockTrafficOnPort W port weight = enableFilters W [] (block_port_filters port weight)"

definition loopbacks :: "'e wfp \<Rightarrow> int list" where
  "loopbacks W = map fst (filter snd (wfp_interfaces W))"

definition allowLoopbackTraffic :: "'e wfp \<Rightarrow> nat \<Rightarrow> 'e firewall \<Rightarrow> bool \<times> 'e firewall" where
  "allowLoopbackTraffic W weight = try_all (map (\<lambda>i. allowTrafficOfAdapter W i weight) (loopbacks W))"

text \<open>The return value, a length, is compared with the error code 122 as the code does.\<close>

definition getCurrentPath :: "'e wfp \<Rightarrow> string" where
  "getCurrentPath W =
    (let (ok, buffer) = wfp_module W 2048;
         (ok, buffer) = (if ok = 122 then wfp_module W 4096 else (ok, buffer))
     in if ok = 0 then [] else buffer)"

definition getProxyPath :: "'e wfp \<Rightarrow> string" where
  "getProxyPath W =
    (let execPath = getCurrentPath W in if execPath = [] then [] else wfp_sibling W execPath ''socksproxy.exe'')"

section \<open>Operations\<close>

definition disableKillSwitch :: "'e wfp \<Rightarrow> 'e firewall \<Rightarrow> bool \<times> 'e firewall" where
  "disableKillSwitch W s =
    (let (ok, s1) = fw_call (wfp_begin W) s
     in if \<not> ok then (False, fw_abort W s1)
        else let s2 = fw_delete W (map snd (fw_peerRules s1) @ fw_activeRules s1) s1;
                 (ok, s3) = fw_call (wfp_commit W) s2
             in if \<not> ok then (False, fw_abort W s3)
                else (True, s3\<lparr>fw_peerRules := [], fw_activeRules := []\<rparr>))"

text \<open>\<^verbatim>\<open>FW_OK\<close>: a rule in a transaction of its own.  A failing commit leaves the kill switch as it is.\<close>

definition FW_OK :: "'e wfp \<Rightarrow> ('e firewall \<Rightarrow> bool \<times> 'e firewall) \<Rightarrow> 'e firewall \<Rightarrow> bool \<times> 'e firewall" where
  "FW_OK W rule s =
    (let (ok, s1) = fw_call (wfp_begin W) s
     in if \<not> ok then (False, snd (disableKillSwitch W s1))
        else let (ok, s2) = rule s1
             in if \<not> ok then (False, snd (disableKillSwitch W (fw_abort W s2)))
                else fw_call (wfp_commit W) s2)"

definition enableInterface :: "'e wfp \<Rightarrow> int \<Rightarrow> 'e firewall \<Rightarrow> bool \<times> 'e firewall" where
  "enableInterface W vpnAdapterIndex =
     try_all
       [FW_OK W (allowTrafficOfAdapter W vpnAdapterIndex MED_WEIGHT),
        FW_OK W (allowDHCPTraffic W MED_WEIGHT),
        FW_OK W (allowHyperVTraffic W MED_WEIGHT),
        FW_OK W (allowTrafficForAppOnAll W (getCurrentPath W) MAX_WEIGHT),
        FW_OK W (allowTrafficForAppOnAll W (getProxyPath W) MAX_WEIGHT),
        FW_OK W (blockTrafficOnPort W 53 MED_WEIGHT),
        FW_OK W (allowLoopbackTraffic W MED_WEIGHT)]"

text \<open>A transaction whose scope guard aborts it and disables the kill switch on any failure.\<close>

definition guarded :: "'e wfp \<Rightarrow> ('e firewall \<Rightarrow> bool \<times> 'e firewall) \<Rightarrow> 'e firewall \<Rightarrow> bool \<times> 'e firewall" where
  "guarded W rules s =
    (let (ok, s1) = fw_call (wfp_begin W) s
     in if \<not> ok then (False, snd (disableKillSwitch W s1))
        else let (ok, s2) = try_all [rules, fw_call (wfp_commit W)] s1
             in if ok then (True, s2) else (False, snd (disableKillSwitch W (fw_abort W s2))))"

definition enableLanBypass :: "'e wfp \<Rightarrow> ip_address list \<Rightarrow> 'e firewall \<Rightarrow> bool \<times> 'e firewall" where
  "enableLanBypass W ranges = guarded W (try_all (map (allowTrafficTo W [] (LOW_WEIGHT + 1)) ranges))"

definition dns_rules :: "'e wfp \<Rightarrow> (string \<Rightarrow> host_address) \<Rightarrow> interface_config \<Rightarrow> 'e firewall \<Rightarrow> bool \<times> 'e firewall" where
  "dns_rules W parseHost config =
    (let peer = qchars (ic_serverPublicKey config)
     in try_all
          (if qchars (ic_dnsServer config) = [] then []
           else [allowTrafficToPort W peer (parseHost (qchars (ic_dnsServer config))) 53 HIGH_WEIGHT] @
                (if qeq (ic_dnsServer config) (ic_serverIpv4Gateway config)
                 then [allowTrafficToPort W peer (parseHost (qchars (ic_serverIpv6Gateway config))) 53 HIGH_WEIGHT]
                 else [])))"

definition enablePeerTraffic :: "'e wfp \<Rightarrow> (string \<Rightarrow> host_address) \<Rightarrow> interface_config \<Rightarrow> 'e firewall \<Rightarrow> bool \<times> 'e firewall" where
  "enablePeerTraffic W parseHost config =
     guarded W
       (try_all [blockTrafficToList W (qchars (ic_serverPublicKey config)) LOW_WEIGHT (ic_allowedIPAddressRanges config),
                 dns_rules W parseHost config])"

text \<open>The ids of the peer are forgotten before the commit.\<close>

definition disablePeerTraffic :: "'e wfp \<Rightarrow> string \<Rightarrow> 'e firewall \<Rightarrow> bool \<times> 'e firewall" where
  "disablePeerTraffic W pubkey s =
    (let (ok, s1) = fw_call (wfp_begin W) s
     in if \<not> ok then (False, fw_abort W s1)
        else let ids = map snd (filter (\<lambda>r. fst r = pubkey) (fw_peerRules s1));
                 s2 = (fw_delete W ids s1)\<lparr>fw_peerRules := filter (\<lambda>r. fst r \<noteq> pubkey) (fw_peerRules s1)\<rparr>;
                 (ok, s3) = fw_call (wfp_commit W) s2
             in if \<not> ok then (False, fw_abort W s3) else (True, s3))"

section \<open>What the platform promises\<close>

text \<open>
  The filters in effect and, inside a transaction, those that a commit would put into effect:
  a transaction starts from the filters in effect and changes them only when it is committed;
  adding gives an id that is not in use.
\<close>

type_synonym fw_rules = "nat \<rightharpoonup> fw_filter"

definition wfp_laws :: "'e wfp \<Rightarrow> ('e \<Rightarrow> fw_rules) \<Rightarrow> ('e \<Rightarrow> fw_rules option) \<Rightarrow> bool" where
  "wfp_laws W rules txn \<longleftrightarrow>
     (\<forall>e e'. wfp_begin W e = (True, e') \<longrightarrow> rules e' = rules e \<and> txn e' = Some (rules e)) \<and>
     (\<forall>e e'. wfp_begin W e = (False, e') \<longrightarrow> rules e' = rules e) \<and>
     (\<forall>e e'. wfp_commit W e = (True, e') \<longrightarrow> txn e = Some (rules e') \<and> txn e' = None) \<and>
     (\<forall>e e'. wfp_commit W e = (False, e') \<longrightarrow> rules e' = rules e) \<and>
     (\<forall>e. rules (wfp_abort W e) = rules e \<and> txn (wfp_abort W e) = None) \<and>
     (\<forall>e f r i e'. txn e = Some r \<and> wfp_add W f e = (Some i, e') \<longrightarrow>
        i \<notin> dom r \<and> txn e' = Some (r(i \<mapsto> f)) \<and> rules e' = rules e) \<and>
     (\<forall>e f r e'. txn e = Some r \<and> wfp_add W f e = (None, e') \<longrightarrow> txn e' = Some r \<and> rules e' = rules e) \<and>
     (\<forall>e r i. txn e = Some r \<longrightarrow> txn (wfp_delete W i e) = Some (r(i := None)) \<and> rules (wfp_delete W i e) = rules e)"

lemma wfp_lawsD:
  assumes "wfp_laws W rules txn"
  shows "wfp_begin W e = (True, e') \<Longrightarrow> rules e' = rules e \<and> txn e' = Some (rules e)"
    "wfp_begin W e = (False, e') \<Longrightarrow> rules e' = rules e"
    "wfp_commit W e = (True, e') \<Longrightarrow> txn e = Some (rules e') \<and> txn e' = None"
    "wfp_commit W e = (False, e') \<Longrightarrow> rules e' = rules e"
    "rules (wfp_abort W e) = rules e" "txn (wfp_abort W e) = None"
    "txn e = Some r \<Longrightarrow> wfp_add W f e = (Some i, e') \<Longrightarrow> i \<notin> dom r \<and> txn e' = Some (r(i \<mapsto> f)) \<and> rules e' = rules e"
    "txn e = Some r \<Longrightarrow> wfp_add W f e = (None, e') \<Longrightarrow> txn e' = Some r \<and> rules e' = rules e"
    "txn e = Some r \<Longrightarrow> txn (wfp_delete W i e) = Some (r(i := None)) \<and> rules (wfp_delete W i e) = rules e"
  using assms unfolding wfp_laws_def by - (elim conjE, metis)+

text \<open>
  A connection, as the layers see it, and the conditions of a filter: those on one field are
  alternatives, those on different fields must all hold.  Among the matching filters of the
  sublayer one of the greatest weight decides; without a matching filter the traffic passes.
\<close>

record fw_conn =
  co_layer :: fw_layer
  co_app :: string
  co_interface :: int
  co_protocol :: "8 word"
  co_localPort :: "16 word"
  co_remotePort :: "16 word"
  co_remote :: host_address
  co_vm2vm :: bool

fun fw_number :: "fw_value \<Rightarrow> nat" where
  "fw_number (FwUint32 w) = unat w"
| "fw_number (FwByteArray16 bs) = foldl (\<lambda>n b. n * 256 + unat b) 0 bs"

fun cond_holds :: "fw_conn \<Rightarrow> fw_cond \<Rightarrow> bool" where
  "cond_holds c (CondAppId a) = (co_app c = a)"
| "cond_holds c (CondInterfaceIndex i) = (co_interface c = i)"
| "cond_holds c (CondIpProtocol p) = (co_protocol c = p)"
| "cond_holds c (CondLocalPort p) = (co_localPort c = p)"
| "cond_holds c (CondRemotePort p) = (co_remotePort c = p)"
| "cond_holds c (CondRemoteAddress v) = (importAddress (co_remote c) = v)"
| "cond_holds c (CondRemoteRange lo hi) =
     (fw_number lo \<le> fw_number (importAddress (co_remote c)) \<and> fw_number (importAddress (co_remote c)) \<le> fw_number hi)"
| "cond_holds c CondVm2Vm = co_vm2vm c"

fun cond_field :: "fw_cond \<Rightarrow> nat" where
  "cond_field (CondAppId _) = 0"
| "cond_field (CondInterfaceIndex _) = 1"
| "cond_field (CondIpProtocol _) = 2"
| "cond_field (CondLocalPort _) = 3"
| "cond_field (CondRemotePort _) = 4"
| "cond_field (CondRemoteAddress _) = 5"
| "cond_field (CondRemoteRange _ _) = 5"
| "cond_field CondVm2Vm = 6"

definition fw_match :: "fw_conn \<Rightarrow> fw_filter \<Rightarrow> bool" where
  "fw_match c f \<longleftrightarrow> ff_layer f = co_layer c \<and>
     (\<forall>k \<in> set (ff_conds f). \<exists>k' \<in> set (ff_conds f). cond_field k' = cond_field k \<and> cond_holds c k')"

definition decided :: "fw_action \<Rightarrow> fw_filter set \<Rightarrow> fw_conn \<Rightarrow> bool" where
  "decided a F c \<longleftrightarrow> (\<exists>f \<in> F. fw_match c f \<and> ff_action f = a \<and>
     (\<forall>g \<in> F. fw_match c g \<and> ff_action g \<noteq> a \<longrightarrow> ff_weight g < ff_weight f))"

definition arbitration :: "(fw_filter set \<Rightarrow> fw_conn \<Rightarrow> bool) \<Rightarrow> bool" where
  "arbitration permits \<longleftrightarrow>
     (\<forall>F c. (decided FwBlock F c \<longrightarrow> \<not> permits F c) \<and> (decided FwPermit F c \<longrightarrow> permits F c) \<and>
        ((\<forall>f \<in> F. \<not> fw_match c f) \<longrightarrow> permits F c))"

section \<open>Filters in effect\<close>

datatype fw_op =
    EnableInterface int | EnableLanBypass "ip_address list" | EnablePeerTraffic interface_config
  | DisablePeerTraffic string | DisableKillSwitch

fun fw_do :: "'e wfp \<Rightarrow> (string \<Rightarrow> host_address) \<Rightarrow> fw_op \<Rightarrow> 'e firewall \<Rightarrow> bool \<times> 'e firewall" where
  "fw_do W ph (EnableInterface i) = enableInterface W i"
| "fw_do W ph (EnableLanBypass rs) = enableLanBypass W rs"
| "fw_do W ph (EnablePeerTraffic c) = enablePeerTraffic W ph c"
| "fw_do W ph (DisablePeerTraffic k) = disablePeerTraffic W k"
| "fw_do W ph DisableKillSwitch = disableKillSwitch W"

definition newFirewall :: "'e \<Rightarrow> 'e firewall" where
  "newFirewall e = \<lparr>fw_activeRules = [], fw_peerRules = [], fw_engine = e\<rparr>"

text \<open>The operations of a run that are in force at its end.\<close>

fun op_key :: "fw_op \<Rightarrow> string" where
  "op_key (EnablePeerTraffic c) = qchars (ic_serverPublicKey c)"
| "op_key _ = []"

fun in_force :: "fw_op list \<Rightarrow> fw_op \<Rightarrow> fw_op list" where
  "in_force L (DisablePeerTraffic k) = filter (\<lambda>x. op_key x = [] \<or> op_key x \<noteq> k) L"
| "in_force L DisableKillSwitch = []"
| "in_force L x = L @ [x]"

text \<open>The filters each of them stands for.\<close>

definition interface_filters :: "'e wfp \<Rightarrow> int \<Rightarrow> fw_filter set" where
  "interface_filters W i =
     set (adapter_filters i MED_WEIGHT) \<union> set (dhcp_filters MED_WEIGHT) \<union> set (hyperV_filters MED_WEIGHT) \<union>
     (\<Union>a \<in> set_option (wfp_appId W (getCurrentPath W)) \<union> set_option (wfp_appId W (getProxyPath W)). set (app_filters a MAX_WEIGHT)) \<union>
     set (block_port_filters 53 MED_WEIGHT) \<union> (\<Union>j \<in> set (loopbacks W). set (adapter_filters j MED_WEIGHT))"

definition dns_hosts :: "(string \<Rightarrow> host_address) \<Rightarrow> interface_config \<Rightarrow> host_address set" where
  "dns_hosts ph c =
    (if qchars (ic_dnsServer c) = [] then {}
     else {ph (qchars (ic_dnsServer c))} \<union>
       (if qeq (ic_dnsServer c) (ic_serverIpv4Gateway c) then {ph (qchars (ic_serverIpv6Gateway c))} else {}))"

definition peer_filters :: "(string \<Rightarrow> host_address) \<Rightarrow> interface_config \<Rightarrow> fw_filter set" where
  "peer_filters ph c =
     (\<Union>r \<in> set (ic_allowedIPAddressRanges c). set (range_filters FwBlock r LOW_WEIGHT)) \<union>
     (\<Union>h \<in> dns_hosts ph c. set (port_filters h 53 HIGH_WEIGHT))"

fun op_filters :: "'e wfp \<Rightarrow> (string \<Rightarrow> host_address) \<Rightarrow> fw_op \<Rightarrow> fw_filter set" where
  "op_filters W ph (EnableInterface i) = interface_filters W i"
| "op_filters W ph (EnableLanBypass rs) = (\<Union>r \<in> set rs. set (range_filters FwPermit r (LOW_WEIGHT + 1)))"
| "op_filters W ph (EnablePeerTraffic c) = peer_filters ph c"
| "op_filters W ph _ = {}"

text \<open>
  The ids the firewall remembers are the ids of the filters in \<open>r\<close>, each once: those without a peer
  are \<open>G\<close>, those of a peer \<open>P\<close>.
\<close>

definition tracked :: "fw_rules \<Rightarrow> 'e firewall \<Rightarrow> fw_filter set \<Rightarrow> (string \<Rightarrow> fw_filter set) \<Rightarrow> bool" where
  "tracked r s G P \<longleftrightarrow>
     distinct (fw_activeRules s @ map snd (fw_peerRules s)) \<and>
     dom r = set (fw_activeRules s) \<union> snd ` set (fw_peerRules s) \<and>
     G = (\<lambda>i. the (r i)) ` set (fw_activeRules s) \<and>
     (\<forall>k. P k = (\<lambda>p. the (r (snd p))) ` set (filter (\<lambda>p. fst p = k) (fw_peerRules s)))"

definition add_G :: "string \<Rightarrow> fw_filter set \<Rightarrow> fw_filter set \<Rightarrow> fw_filter set" where
  "add_G peer F G = (if peer = [] then G \<union> F else G)"

definition add_P :: "string \<Rightarrow> fw_filter set \<Rightarrow> (string \<Rightarrow> fw_filter set) \<Rightarrow> string \<Rightarrow> fw_filter set" where
  "add_P peer F P = (if peer = [] then P else P(peer := P peer \<union> F))"

lemma add_twice:
  "add_G p F (add_G p F' G) = add_G p (F' \<union> F) G" "add_P p F (add_P p F' P) = add_P p (F' \<union> F) P"
  "add_G p {} G = G" "add_P p {} P = P"
  by (auto simp: add_G_def add_P_def Un_assoc)

lemma tracked_add:
  assumes "tracked r s G P" "i \<notin> dom r"
  shows "tracked (r(i \<mapsto> f))
    (if peer = [] then s\<lparr>fw_engine := e, fw_activeRules := fw_activeRules s @ [i]\<rparr>
     else s\<lparr>fw_engine := e, fw_peerRules := (peer, i) # fw_peerRules s\<rparr>) (add_G peer {f} G) (add_P peer {f} P)"
proof -
  have dom: "dom r = set (fw_activeRules s) \<union> snd ` set (fw_peerRules s)" using assms(1) by (simp add: tracked_def)
  then have fresh: "i \<notin> set (fw_activeRules s)" and d: "i \<notin> snd ` set (fw_peerRules s)" using assms(2) by blast+
  then have fresh2: "(k, j) \<in> set (fw_peerRules s) \<Longrightarrow> j \<noteq> i" for k j by force
  have same: "(\<lambda>j. the ((r(i \<mapsto> f)) j)) ` set (fw_activeRules s) = (\<lambda>j. the (r j)) ` set (fw_activeRules s)"
    using fresh by (intro image_cong) auto
  have same': "(\<lambda>p. the ((r(i \<mapsto> f)) (snd p))) ` set (filter (\<lambda>p. fst p = k) (fw_peerRules s)) =
      (\<lambda>p. the (r (snd p))) ` set (filter (\<lambda>p. fst p = k) (fw_peerRules s))" for k
    using d by (intro image_cong) auto
  show ?thesis
  proof (cases "peer = []")
    case True
    then show ?thesis
      using assms(1) fresh d same same' by (auto simp: tracked_def add_G_def add_P_def)
  next
    case False
    have "(\<lambda>p. the ((r(i \<mapsto> f)) (snd p))) ` set (filter (\<lambda>p. fst p = k) ((peer, i) # fw_peerRules s)) =
        (add_P peer {f} P) k" for k
    proof -
      have "P k = (\<lambda>p. the (r (snd p))) ` set (filter (\<lambda>p. fst p = k) (fw_peerRules s))" for k
        using assms(1) by (simp add: tracked_def)
      then show ?thesis using same' [of k] False by (cases "k = peer") (simp_all add: add_P_def)
    qed
    then show ?thesis
      using assms(1) fresh d same False by (simp add: tracked_def add_G_def Un_commute)
  qed
qed

text \<open>\<open>adds\<close>: inside a transaction the operation, if it succeeds, adds the filters \<open>F\<close> of the peer.\<close>

definition adds ::
    "('e \<Rightarrow> fw_rules) \<Rightarrow> ('e \<Rightarrow> fw_rules option) \<Rightarrow> string \<Rightarrow> fw_filter set \<Rightarrow> ('e firewall \<Rightarrow> bool \<times> 'e firewall) \<Rightarrow> bool" where
  "adds rules txn peer F f \<longleftrightarrow>
     (\<forall>s r G P s'. txn (fw_engine s) = Some r \<and> tracked r s G P \<and> f s = (True, s') \<longrightarrow>
        (\<exists>r'. txn (fw_engine s') = Some r' \<and> tracked r' s' (add_G peer F G) (add_P peer F P)))"

lemma addsD:
  "adds rules txn peer F f \<Longrightarrow> txn (fw_engine s) = Some r \<Longrightarrow> tracked r s G P \<Longrightarrow> f s = (True, s') \<Longrightarrow>
     \<exists>r'. txn (fw_engine s') = Some r' \<and> tracked r' s' (add_G peer F G) (add_P peer F P)"
  unfolding adds_def by blast

lemma adds_enableFilter:
  assumes "wfp_laws W rules txn"
  shows "adds rules txn peer {f} (enableFilter W peer f)"
  unfolding adds_def
proof (intro allI impI, elim conjE)
  fix s r G P s'
  assume a: "txn (fw_engine s) = Some r" "tracked r s G P" "enableFilter W peer f s = (True, s')"
  obtain i e where add: "wfp_add W f (fw_engine s) = (Some i, e)"
    using a(3) by (auto simp: enableFilter_def split: prod.splits option.splits)
  then have new: "i \<notin> dom r" "txn e = Some (r(i \<mapsto> f))"
    using wfp_lawsD(7) [OF assms a(1) add] by blast+
  have s': "s' = (if peer = [] then s\<lparr>fw_engine := e, fw_activeRules := fw_activeRules s @ [i]\<rparr>
     else s\<lparr>fw_engine := e, fw_peerRules := (peer, i) # fw_peerRules s\<rparr>)"
    using a(3) by (simp add: enableFilter_def add)
  show "\<exists>r'. txn (fw_engine s') = Some r' \<and> tracked r' s' (add_G peer {f} G) (add_P peer {f} P)"
    using tracked_add [OF a(2) new(1), where peer = peer and e = e and f = f] new(2) by (auto simp: s')
qed

lemma adds_try_all:
  "(\<And>i. i < length fs \<Longrightarrow> adds rules txn peer (Fs ! i) (fs ! i)) \<Longrightarrow> length Fs = length fs \<Longrightarrow>
     adds rules txn peer (\<Union> (set Fs)) (try_all fs)"
proof (induction fs arbitrary: Fs)
  case Nil
  then show ?case by (auto simp: adds_def add_twice)
next
  case (Cons f fs)
  obtain F Fs' where Fs: "Fs = F # Fs'" using Cons.prems(2) by (cases Fs) auto
  have f: "adds rules txn peer F f" using Cons.prems(1) [of 0] by (simp add: Fs)
  have fs: "adds rules txn peer (\<Union> (set Fs')) (try_all fs)"
  proof (rule Cons.IH)
    show "adds rules txn peer (Fs' ! i) (fs ! i)" if "i < length fs" for i
      using Cons.prems(1) [of "Suc i"] that by (simp add: Fs)
    show "length Fs' = length fs" using Cons.prems(2) by (simp add: Fs)
  qed
  show ?case unfolding adds_def
  proof (intro allI impI, elim conjE)
    fix s r G P s'
    assume a: "txn (fw_engine s) = Some r" "tracked r s G P" "try_all (f # fs) s = (True, s')"
    obtain s1 where s1: "f s = (True, s1)" "try_all fs s1 = (True, s')"
      using a(3) by (auto split: prod.splits if_splits)
    obtain r1 where r1: "txn (fw_engine s1) = Some r1" "tracked r1 s1 (add_G peer F G) (add_P peer F P)"
      using addsD [OF f a(1,2) s1(1)] by blast
    show "\<exists>r'. txn (fw_engine s') = Some r' \<and> tracked r' s' (add_G peer (\<Union> (set Fs)) G) (add_P peer (\<Union> (set Fs)) P)"
      using addsD [OF fs r1 s1(2)] by (simp add: add_twice Fs)
  qed
qed

lemma adds_map:
  "(\<And>x. x \<in> set xs \<Longrightarrow> adds rules txn peer (F x) (f x)) \<Longrightarrow> adds rules txn peer (\<Union>x \<in> set xs. F x) (try_all (map f xs))"
  using adds_try_all [of "map f xs" rules txn peer "map F xs"] by simp

lemma adds_two:
  "adds rules txn peer F f \<Longrightarrow> adds rules txn peer G g \<Longrightarrow> adds rules txn peer (F \<union> G) (try_all [f, g])"
  using adds_try_all [of "[f, g]" rules txn peer "[F, G]"] by (fastforce simp: less_Suc_eq nth_Cons split: nat.splits)

lemma adds_enableFilters:
  assumes "wfp_laws W rules txn"
  shows "adds rules txn peer (set fs) (enableFilters W peer fs)"
proof -
  have "adds rules txn peer (\<Union>f \<in> set fs. {f}) (try_all (map (enableFilter W peer) fs))"
    by (rule adds_map) (rule adds_enableFilter [OF assms])
  then show ?thesis by (simp add: enableFilters_def)
qed

lemma adds_rules:
  assumes "wfp_laws W rules txn"
  shows "adds rules txn [] (set (adapter_filters i w)) (allowTrafficOfAdapter W i w)"
    "adds rules txn [] (set (dhcp_filters w)) (allowDHCPTraffic W w)"
    "adds rules txn [] (set (hyperV_filters w)) (allowHyperVTraffic W w)"
    "adds rules txn [] (set (block_port_filters p w)) (blockTrafficOnPort W p w)"
    "adds rules txn [] (\<Union>a \<in> set_option (wfp_appId W path). set (app_filters a w)) (allowTrafficForAppOnAll W path w)"
    "adds rules txn [] (\<Union>j \<in> set (loopbacks W). set (adapter_filters j w)) (allowLoopbackTraffic W w)"
    "adds rules txn peer (set (range_filters FwPermit r w)) (allowTrafficTo W peer w r)"
    "adds rules txn peer (set (range_filters FwBlock r w)) (blockTrafficTo W peer w r)"
    "adds rules txn peer (set (port_filters h p w)) (allowTrafficToPort W peer h p w)"
    "adds rules txn peer (\<Union>r \<in> set rs. set (range_filters FwBlock r w)) (blockTrafficToList W peer w rs)"
proof -
  note ef = adds_enableFilters [OF assms]
  show "adds rules txn [] (set (adapter_filters i w)) (allowTrafficOfAdapter W i w)" for i
    by (simp add: allowTrafficOfAdapter_def ef)
  then show "adds rules txn [] (\<Union>j \<in> set (loopbacks W). set (adapter_filters j w)) (allowLoopbackTraffic W w)"
    unfolding allowLoopbackTraffic_def by (intro adds_map) simp
  show "adds rules txn [] (\<Union>a \<in> set_option (wfp_appId W path). set (app_filters a w)) (allowTrafficForAppOnAll W path w)"
  proof (cases "wfp_appId W path")
    case None
    then show ?thesis by (simp add: adds_def allowTrafficForAppOnAll_def)
  next
    case (Some a)
    then have "allowTrafficForAppOnAll W path w = enableFilters W [] (app_filters a w)"
      by (simp add: allowTrafficForAppOnAll_def fun_eq_iff)
    then show ?thesis using ef Some by simp
  qed
  show block: "adds rules txn peer (set (range_filters FwBlock r w)) (blockTrafficTo W peer w r)" for r
    by (simp add: blockTrafficTo_def ef)
  then show "adds rules txn peer (\<Union>r \<in> set rs. set (range_filters FwBlock r w)) (blockTrafficToList W peer w rs)"
    unfolding blockTrafficToList_def by (intro adds_map) simp
qed (simp_all add: allowDHCPTraffic_def allowHyperVTraffic_def blockTrafficOnPort_def allowTrafficTo_def allowTrafficToPort_def
      adds_enableFilters [OF assms])

lemma adds_dns_rules:
  assumes "wfp_laws W rules txn"
  shows "adds rules txn (qchars (ic_serverPublicKey c)) (\<Union>h \<in> dns_hosts ph c. set (port_filters h 53 HIGH_WEIGHT)) (dns_rules W ph c)"
proof -
  let ?peer = "qchars (ic_serverPublicKey c)"
  define hs where "hs = (if qchars (ic_dnsServer c) = [] then []
     else ph (qchars (ic_dnsServer c)) #
       (if qeq (ic_dnsServer c) (ic_serverIpv4Gateway c) then [ph (qchars (ic_serverIpv6Gateway c))] else []))"
  have "dns_rules W ph c = try_all (map (\<lambda>h. allowTrafficToPort W ?peer h 53 HIGH_WEIGHT) hs)"
    by (simp add: dns_rules_def hs_def Let_def)
  moreover have "dns_hosts ph c = set hs" by (simp add: dns_hosts_def hs_def)
  ultimately show ?thesis using adds_map [of hs rules txn ?peer] adds_rules(9) [OF assms] by simp
qed

section \<open>Transactions\<close>

lemma tracked_engine [simp]: "tracked r (s\<lparr>fw_engine := e\<rparr>) G P = tracked r s G P"
  by (simp add: tracked_def)

definition committed_adds ::
    "('e \<Rightarrow> fw_rules) \<Rightarrow> string \<Rightarrow> fw_filter set \<Rightarrow> ('e firewall \<Rightarrow> bool \<times> 'e firewall) \<Rightarrow> bool" where
  "committed_adds rules peer F f \<longleftrightarrow>
     (\<forall>s G P s'. tracked (rules (fw_engine s)) s G P \<and> f s = (True, s') \<longrightarrow>
        tracked (rules (fw_engine s')) s' (add_G peer F G) (add_P peer F P))"

lemma commit_rule:
  assumes "wfp_laws W rules txn" "adds rules txn peer F rule" "tracked (rules (fw_engine s)) s G P"
    "fw_call (wfp_begin W) s = (True, s1)" "rule s1 = (True, s2)" "fw_call (wfp_commit W) s2 = (True, s')"
  shows "tracked (rules (fw_engine s')) s' (add_G peer F G) (add_P peer F P)"
proof -
  have s1: "s1 = s\<lparr>fw_engine := fw_engine s1\<rparr>" "wfp_begin W (fw_engine s) = (True, fw_engine s1)"
    using assms(4) by (auto simp: fw_call_def split: prod.splits)
  then have "txn (fw_engine s1) = Some (rules (fw_engine s))" using wfp_lawsD(1) [OF assms(1)] by blast
  moreover have "tracked (rules (fw_engine s)) s1 G P" using assms(3) s1(1) by (metis tracked_engine)
  ultimately obtain r where r: "txn (fw_engine s2) = Some r" "tracked r s2 (add_G peer F G) (add_P peer F P)"
    using addsD [OF assms(2) _ _ assms(5)] by blast
  have s': "s' = s2\<lparr>fw_engine := fw_engine s'\<rparr>" "wfp_commit W (fw_engine s2) = (True, fw_engine s')"
    using assms(6) by (auto simp: fw_call_def split: prod.splits)
  then have "rules (fw_engine s') = r" using r(1) wfp_lawsD(3) [OF assms(1)] by fastforce
  then show ?thesis using r(2) s'(1) by (metis tracked_engine)
qed

lemma committed_FW_OK:
  assumes "wfp_laws W rules txn" "adds rules txn peer F rule"
  shows "committed_adds rules peer F (FW_OK W rule)"
  unfolding committed_adds_def
  by (auto simp: FW_OK_def Let_def split: prod.splits if_splits intro: commit_rule [OF assms])

lemma committed_guarded:
  assumes "wfp_laws W rules txn" "adds rules txn peer F rule"
  shows "committed_adds rules peer F (guarded W rule)"
  unfolding committed_adds_def
  by (auto simp: guarded_def Let_def split: prod.splits if_splits intro: commit_rule [OF assms])

lemma committed_try_all:
  "list_all2 (committed_adds rules peer) Fs fs \<Longrightarrow> committed_adds rules peer (\<Union> (set Fs)) (try_all fs)"
proof (induction fs arbitrary: Fs)
  case Nil
  then show ?case by (simp add: committed_adds_def add_twice)
next
  case (Cons f fs)
  then obtain F Fs' where Fs: "Fs = F # Fs'" "committed_adds rules peer F f" "list_all2 (committed_adds rules peer) Fs' fs"
    by (auto simp: list_all2_Cons2)
  show ?case unfolding committed_adds_def
  proof (intro allI impI, elim conjE)
    fix s G P s'
    assume a: "tracked (rules (fw_engine s)) s G P" "try_all (f # fs) s = (True, s')"
    then obtain s1 where s1: "f s = (True, s1)" "try_all fs s1 = (True, s')"
      by (auto split: prod.splits if_splits)
    then have "tracked (rules (fw_engine s1)) s1 (add_G peer F G) (add_P peer F P)"
      using Fs(2) a(1) unfolding committed_adds_def by blast
    then have "tracked (rules (fw_engine s')) s' (add_G peer (\<Union> (set Fs')) (add_G peer F G)) (add_P peer (\<Union> (set Fs')) (add_P peer F P))"
      using Cons.IH [OF Fs(3)] s1(2) unfolding committed_adds_def by blast
    then show "tracked (rules (fw_engine s')) s' (add_G peer (\<Union> (set Fs)) G) (add_P peer (\<Union> (set Fs)) P)"
      by (simp add: add_twice Fs)
  qed
qed

lemma fold_delete:
  assumes "wfp_laws W rules txn"
  shows "txn e = Some r \<Longrightarrow> txn (fold (wfp_delete W) ids e) = Some (r |` (- set ids))"
proof (induction ids arbitrary: e r)
  case (Cons i ids)
  then have "txn (wfp_delete W i e) = Some (r(i := None))" using wfp_lawsD(9) [OF assms] by blast
  then have "txn (fold (wfp_delete W) ids (wfp_delete W i e)) = Some (r(i := None) |` (- set ids))" by (rule Cons.IH)
  moreover have "r(i := None) |` (- set ids) = r |` (- set (i # ids))" by (auto simp: restrict_map_def fun_eq_iff)
  ultimately show ?case by simp
qed (simp add: restrict_map_def fun_eq_iff)

text \<open>Deleting ids in a transaction that commits.\<close>

lemma commit_deleted:
  assumes "wfp_laws W rules txn" "fw_call (wfp_begin W) s = (True, s1)"
    "fw_call (wfp_commit W) (s2\<lparr>fw_engine := fold (wfp_delete W) ids (fw_engine s1)\<rparr>) = (True, s')"
  shows "rules (fw_engine s') = rules (fw_engine s) |` (- set ids)" "s' = s2\<lparr>fw_engine := fw_engine s'\<rparr>"
    "s1 = s\<lparr>fw_engine := fw_engine s1\<rparr>"
proof -
  have s1: "wfp_begin W (fw_engine s) = (True, fw_engine s1)"
    using assms(2) by (auto simp: fw_call_def split: prod.splits)
  then have "txn (fw_engine s1) = Some (rules (fw_engine s))" using wfp_lawsD(1) [OF assms(1)] by blast
  then have txn: "txn (fold (wfp_delete W) ids (fw_engine s1)) = Some (rules (fw_engine s) |` (- set ids))"
    by (rule fold_delete [OF assms(1)])
  have "wfp_commit W (fold (wfp_delete W) ids (fw_engine s1)) = (True, fw_engine s')"
    using assms(3) by (auto simp: fw_call_def split: prod.splits)
  then show "rules (fw_engine s') = rules (fw_engine s) |` (- set ids)"
    using txn wfp_lawsD(3) [OF assms(1)] by fastforce
  show "s' = s2\<lparr>fw_engine := fw_engine s'\<rparr>" "s1 = s\<lparr>fw_engine := fw_engine s1\<rparr>"
    using assms(2,3) by (auto simp: fw_call_def split: prod.splits)
qed

lemma disableKillSwitch_empty:
  assumes "wfp_laws W rules txn" "disableKillSwitch W s = (True, s')" "dom (rules (fw_engine s)) \<subseteq> set (fw_activeRules s) \<union> snd ` set (fw_peerRules s)"
  shows "fw_activeRules s' = [] \<and> fw_peerRules s' = [] \<and> rules (fw_engine s') = Map.empty"
proof -
  define ids where "ids s1 = map snd (fw_peerRules s1) @ fw_activeRules s1" for s1 :: "'a firewall"
  obtain s1 s3 where s1: "fw_call (wfp_begin W) s = (True, s1)"
    "fw_call (wfp_commit W) (s1\<lparr>fw_engine := fold (wfp_delete W) (ids s1) (fw_engine s1)\<rparr>) = (True, s3)"
    "s' = s3\<lparr>fw_peerRules := [], fw_activeRules := []\<rparr>"
    using assms(2) by (auto simp: disableKillSwitch_def Let_def fw_delete_def ids_def split: prod.splits if_splits)
  note c = commit_deleted [OF assms(1) s1(1,2)]
  have "ids s1 = ids s" using c(3) by (metis ids_def firewall.select_convs(1,2) firewall.surjective firewall.update_convs(3))
  then have "rules (fw_engine s3) = rules (fw_engine s) |` (- (set (fw_activeRules s) \<union> snd ` set (fw_peerRules s)))"
    using c(1) by (simp add: ids_def Un_commute)
  also have "\<dots> = Map.empty" using assms(3) by (auto simp: restrict_map_def fun_eq_iff)
  finally show ?thesis using s1(3) by simp
qed

lemma tracked_disable:
  assumes "wfp_laws W rules txn" "disableKillSwitch W s = (True, s')" "tracked (rules (fw_engine s)) s G P"
  shows "tracked (rules (fw_engine s')) s' {} (\<lambda>k. {})"
  using disableKillSwitch_empty [OF assms(1,2)] assms(3) by (simp add: tracked_def)

lemma tracked_disablePeer:
  assumes "wfp_laws W rules txn" "disablePeerTraffic W key s = (True, s')" "tracked (rules (fw_engine s)) s G P"
  shows "tracked (rules (fw_engine s')) s' G (P(key := {}))"
proof -
  let ?ids = "\<lambda>s1 :: 'a firewall. map snd (filter (\<lambda>r. fst r = key) (fw_peerRules s1))"
  let ?rest = "\<lambda>s1 :: 'a firewall. filter (\<lambda>r. fst r \<noteq> key) (fw_peerRules s1)"
  have swap: "t\<lparr>fw_engine := e, fw_peerRules := p\<rparr> = t\<lparr>fw_peerRules := p, fw_engine := e\<rparr>" for t :: "'a firewall" and e p by simp
  obtain s1 where s1: "fw_call (wfp_begin W) s = (True, s1)"
    "fw_call (wfp_commit W) ((s1\<lparr>fw_peerRules := ?rest s1\<rparr>)\<lparr>fw_engine := fold (wfp_delete W) (?ids s1) (fw_engine s1)\<rparr>) = (True, s')"
    using assms(2) unfolding disablePeerTraffic_def Let_def fw_delete_def swap
    by (auto split: prod.splits if_splits)
  note c = commit_deleted [OF assms(1) s1]
  have same: "fw_peerRules s1 = fw_peerRules s" "fw_activeRules s1 = fw_activeRules s"
    using c(3) by (metis firewall.select_convs(1,2) firewall.surjective firewall.update_convs(3))+
  have s': "fw_peerRules s' = ?rest s" "fw_activeRules s' = fw_activeRules s"
    using c(2) same by (metis firewall.select_convs(1,2) firewall.surjective firewall.update_convs(2,3))+
  define r where "r = rules (fw_engine s)"
  have r': "rules (fw_engine s') = r |` (- set (?ids s))" using c(1) same by (simp add: r_def)
  have t: "distinct (fw_activeRules s @ map snd (fw_peerRules s))" "dom r = set (fw_activeRules s) \<union> snd ` set (fw_peerRules s)"
    "G = (\<lambda>i. the (r i)) ` set (fw_activeRules s)" "P k = (\<lambda>p. the (r (snd p))) ` set (filter (\<lambda>p. fst p = k) (fw_peerRules s))" for k
    using assms(3) by (simp_all add: tracked_def r_def)
  have inj: "inj_on snd (set (fw_peerRules s))" using t(1) by (simp add: distinct_map)
  then have rest: "snd p \<notin> set (?ids s)" if "p \<in> set (?rest s)" for p
    using that by (auto simp: inj_on_def)
  have act: "i \<notin> set (?ids s)" if "i \<in> set (fw_activeRules s)" for i using t(1) that by auto
  have split_set: "D = X \<union> C \<Longrightarrow> A \<union> B = C \<Longrightarrow> A \<inter> B = {} \<Longrightarrow> (\<And>i. i \<in> X \<Longrightarrow> i \<notin> A) \<Longrightarrow> D - A = X \<union> B"
    for A B C D X :: "nat set" by blast
  have all: "set (?ids s) \<union> snd ` set (?rest s) = snd ` set (fw_peerRules s)" by auto
  have disjoint: "set (?ids s) \<inter> snd ` set (?rest s) = {}" using rest by blast
  have "dom (r |` (- set (?ids s))) = dom r - set (?ids s)" by (simp only: dom_restrict Diff_eq)
  also have "\<dots> = set (fw_activeRules s) \<union> snd ` set (?rest s)"
    by (rule split_set [OF t(2) all disjoint act])
  finally have "dom (r |` (- set (?ids s))) = set (fw_activeRules s) \<union> snd ` set (?rest s)" .
  moreover have "distinct (fw_activeRules s @ map snd (?rest s))"
    using t(1) by (auto simp: distinct_map inj_on_def)
  moreover have "G = (\<lambda>i. the ((r |` (- set (?ids s))) i)) ` set (fw_activeRules s)"
    unfolding t(3) using act by (intro image_cong) auto
  moreover have "(P(key := {})) k = (\<lambda>p. the ((r |` (- set (?ids s))) (snd p))) ` set (filter (\<lambda>p. fst p = k) (?rest s))" for k
  proof (cases "k = key")
    case False
    then have "set (filter (\<lambda>p. fst p = k) (?rest s)) = set (filter (\<lambda>p. fst p = k) (fw_peerRules s))" by auto
    then show ?thesis using False rest by (simp add: t(4) cong: image_cong_simp)
  qed auto
  ultimately show ?thesis unfolding tracked_def r' s' by blast
qed

section \<open>Refinement\<close>

definition general_of :: "'e wfp \<Rightarrow> (string \<Rightarrow> host_address) \<Rightarrow> fw_op list \<Rightarrow> fw_filter set" where
  "general_of W ph L = (\<Union>x \<in> {x \<in> set L. op_key x = []}. op_filters W ph x)"

definition peer_of :: "'e wfp \<Rightarrow> (string \<Rightarrow> host_address) \<Rightarrow> fw_op list \<Rightarrow> string \<Rightarrow> fw_filter set" where
  "peer_of W ph L k = (if k = [] then {} else \<Union>x \<in> {x \<in> set L. op_key x = k}. op_filters W ph x)"

lemma of_append:
  "general_of W ph (L @ [x]) = add_G (op_key x) (op_filters W ph x) (general_of W ph L)"
  "peer_of W ph (L @ [x]) = add_P (op_key x) (op_filters W ph x) (peer_of W ph L)"
  by (auto simp: general_of_def peer_of_def add_G_def add_P_def fun_eq_iff)

lemma committed_interface:
  assumes "wfp_laws W rules txn"
  shows "committed_adds rules [] (interface_filters W i) (enableInterface W i)"
proof -
  note c = committed_FW_OK [OF assms] and a = adds_rules [OF assms]
  have "interface_filters W i = \<Union> (set
      [set (adapter_filters i MED_WEIGHT), set (dhcp_filters MED_WEIGHT), set (hyperV_filters MED_WEIGHT),
       \<Union>a \<in> set_option (wfp_appId W (getCurrentPath W)). set (app_filters a MAX_WEIGHT),
       \<Union>a \<in> set_option (wfp_appId W (getProxyPath W)). set (app_filters a MAX_WEIGHT),
       set (block_port_filters 53 MED_WEIGHT), \<Union>j \<in> set (loopbacks W). set (adapter_filters j MED_WEIGHT)])"
    by (simp add: interface_filters_def Un_ac)
  then show ?thesis
    unfolding enableInterface_def
    by (simp only:) (intro committed_try_all list_all2_Cons [THEN iffD2] conjI list.rel_inject(1) c a; simp)
qed

lemma refine_step:
  assumes laws: "wfp_laws W rules txn" and ok: "fw_do W ph x s = (True, s')"
    and t: "tracked (rules (fw_engine s)) s (general_of W ph L) (peer_of W ph L)"
  shows "tracked (rules (fw_engine s')) s' (general_of W ph (in_force L x)) (peer_of W ph (in_force L x))"
proof -
  have add: "tracked (rules (fw_engine s')) s' (general_of W ph (L @ [x])) (peer_of W ph (L @ [x]))"
    if "committed_adds rules (op_key x) (op_filters W ph x) (fw_do W ph x)"
    using that ok t unfolding of_append committed_adds_def by blast
  show ?thesis
  proof (cases x)
    case (EnableInterface i)
    then show ?thesis using add committed_interface [OF laws] by simp
  next
    case (EnableLanBypass rs)
    have "committed_adds rules [] (\<Union>r \<in> set rs. set (range_filters FwPermit r (LOW_WEIGHT + 1))) (enableLanBypass W rs)"
      unfolding enableLanBypass_def by (intro committed_guarded [OF laws] adds_map adds_rules [OF laws])
    then show ?thesis using add EnableLanBypass by simp
  next
    case (EnablePeerTraffic c)
    have "committed_adds rules (op_key x) (peer_filters ph c) (enablePeerTraffic W ph c)"
      unfolding EnablePeerTraffic op_key.simps enablePeerTraffic_def peer_filters_def
      by (intro committed_guarded [OF laws] adds_two adds_rules [OF laws] adds_dns_rules [OF laws])
    then show ?thesis using add EnablePeerTraffic by simp
  next
    case (DisablePeerTraffic k)
    have "general_of W ph (in_force L x) = general_of W ph L" by (auto simp: general_of_def DisablePeerTraffic)
    moreover have "peer_of W ph (in_force L x) = (peer_of W ph L)(k := {})"
      by (auto simp: peer_of_def DisablePeerTraffic fun_eq_iff)
    ultimately show ?thesis
      using tracked_disablePeer [OF laws _ t] ok DisablePeerTraffic by simp
  next
    case DisableKillSwitch
    have "general_of W ph (in_force L x) = {}" "peer_of W ph (in_force L x) = (\<lambda>k. {})"
      by (simp_all add: general_of_def peer_of_def DisableKillSwitch fun_eq_iff)
    then show ?thesis using tracked_disable [OF laws _ t] ok DisableKillSwitch by simp
  qed
qed

lemma refine_run:
  assumes "wfp_laws W rules txn"
  shows "try_all (map (fw_do W ph) ops) s = (True, s') \<Longrightarrow>
    tracked (rules (fw_engine s)) s (general_of W ph L) (peer_of W ph L) \<Longrightarrow>
    tracked (rules (fw_engine s')) s' (general_of W ph (foldl in_force L ops)) (peer_of W ph (foldl in_force L ops))"
proof (induction ops arbitrary: s L)
  case (Cons x ops)
  obtain s1 where s1: "fw_do W ph x s = (True, s1)" "try_all (map (fw_do W ph) ops) s1 = (True, s')"
    using Cons.prems(1) by (auto split: prod.splits if_splits)
  show ?case using Cons.IH [OF s1(2) refine_step [OF assms s1(1) Cons.prems(2)]] by simp
qed simp

lemma tracked_ran: "tracked r s G P \<Longrightarrow> ran r = G \<union> (\<Union>k. P k)"
proof -
  assume t: "tracked r s G P"
  have "ran r = (\<lambda>i. the (r i)) ` dom r" by (force simp: ran_def dom_def)
  also have "dom r = set (fw_activeRules s) \<union> snd ` set (fw_peerRules s)" using t by (simp add: tracked_def)
  also have "(\<lambda>i. the (r i)) ` (set (fw_activeRules s) \<union> snd ` set (fw_peerRules s)) =
      G \<union> (\<lambda>p. the (r (snd p))) ` set (fw_peerRules s)"
    using t by (simp add: tracked_def image_Un image_image)
  also have "(\<lambda>p. the (r (snd p))) ` set (fw_peerRules s) = (\<Union>k. P k)" using t by (auto simp: tracked_def)
  finally show ?thesis .
qed

lemma of_all: "general_of W ph L \<union> (\<Union>k. peer_of W ph L k) = (\<Union>x \<in> set L. op_filters W ph x)"
  by (auto simp: general_of_def peer_of_def)

lemma run_filters:
  assumes "wfp_laws W rules txn" "rules e = Map.empty" "try_all (map (fw_do W ph) ops) (newFirewall e) = (True, s)"
  shows "ran (rules (fw_engine s)) = (\<Union>x \<in> set (foldl in_force [] ops). op_filters W ph x)"
proof -
  have "tracked (rules (fw_engine (newFirewall e))) (newFirewall e) (general_of W ph []) (peer_of W ph [])"
    using assms(2) by (simp add: tracked_def newFirewall_def general_of_def peer_of_def)
  from tracked_ran [OF refine_run [OF assms(1,3) this]] show ?thesis by (simp only: of_all)
qed

end
