(* ===== verification/KillSwitch.thy ===== *)
theory KillSwitch
  imports WindowsFirewall
begin

text \<open>
  What the filters of the Windows firewall do to connections, what failing platform calls leave
  behind, and a platform that keeps the promises.
\<close>

section \<open>Address ranges\<close>

definition bits_number :: "bool list \<Rightarrow> nat" where
  "bits_number bs = horner_sum of_bool 2 (rev bs)"

lemma bits_number_append: "bits_number (xs @ ys) = bits_number xs * 2 ^ length ys + bits_number ys"
  by (simp add: bits_number_def horner_sum_append algebra_simps)

lemma bits_number_less: "bits_number xs < 2 ^ length xs"
  unfolding bits_number_def using horner_sum_bound [of "rev xs"] by simp

lemma bits_number_const: "bits_number (replicate n False) = 0" "bits_number (replicate n True) = 2 ^ n - 1"
proof (induction n)
  case (Suc n)
  then show "bits_number (replicate (Suc n) False) = 0" "bits_number (replicate (Suc n) True) = 2 ^ Suc n - 1"
    using bits_number_append [of "[False]" "replicate n False"] bits_number_append [of "[True]" "replicate n True"]
    by (simp_all add: bits_number_def)
qed (simp_all add: bits_number_def)

lemma bits_number_inj: "length xs = length ys \<Longrightarrow> bits_number xs = bits_number ys \<Longrightarrow> xs = ys"
proof (induction xs arbitrary: ys rule: rev_induct)
  case (snoc x xs)
  then obtain y ys' where ys: "ys = ys' @ [y]" "length xs = length ys'" by (cases ys rule: rev_cases) auto
  have "2 * bits_number xs + of_bool x = 2 * bits_number ys' + of_bool y"
    using snoc.prems(2) ys bits_number_append [of xs "[x]"] bits_number_append [of ys' "[y]"] by (simp add: bits_number_def)
  then have "bits_number xs = bits_number ys' \<and> x = y" by (cases x; cases y) (simp_all, presburger+)
  then show ?case using snoc.IH ys by auto
qed simp

lemma number_wbits: "unat (w :: 'a::len word) = bits_number (wbits w)"
proof -
  have "rev (wbits w) = map (bit w) [0..<LENGTH('a)]" by (simp add: wbits_def rev_map)
  then have "bits_number (wbits w) = horner_sum of_bool 2 (map (bit (unat w)) [0..<LENGTH('a)])"
    by (simp add: bits_number_def bit_unsigned_iff cong: map_cong)
  also have "\<dots> = take_bit LENGTH('a) (unat w)" by (simp only: horner_sum_bit_eq_take_bit)
  also have "\<dots> = unat w" by (rule take_bit_nat_eq_self) (rule unsigned_less)
  finally show ?thesis by (rule sym)
qed

lemma number_bytes: "foldl (\<lambda>n b. n * 256 + unat b) 0 (bs :: 8 word list) = bits_number (bytes_bits bs)"
proof (induction bs rule: rev_induct)
  case (snoc b bs)
  then show ?case
    using bits_number_append [of "bytes_bits bs" "wbits b"] number_wbits [of b] by (simp add: bytes_bits_def)
qed (simp add: bits_number_def bytes_bits_def)

lemma number_host: "wf_host h \<Longrightarrow> fw_number (importAddress h) = bits_number (host_bits h)"
  by (cases h) (simp_all add: number_bytes number_wbits [where 'a = 32])

text \<open>The range from a network address to its broadcast address holds the addresses of the network.\<close>

definition in_filter_range :: "ip_address \<Rightarrow> host_address \<Rightarrow> bool" where
  "in_filter_range ip a \<longleftrightarrow>
     fw_number (importAddress (m_address ip)) \<le> fw_number (importAddress a) \<and>
     fw_number (importAddress a) \<le> fw_number (importAddress (broadcastAddress ip))"

lemma between_bits:
  assumes "length x = n + k" "length p = n"
  shows "bits_number (p @ replicate k False) \<le> bits_number x \<and> bits_number x \<le> bits_number (p @ replicate k True) \<longleftrightarrow> take n x = p"
proof -
  define q r where "q = bits_number (take n x)" and "r = bits_number (drop n x)"
  have x: "bits_number x = q * 2 ^ k + r" "r < 2 ^ k"
    using bits_number_append [of "take n x" "drop n x"] bits_number_less [of "drop n x"] assms(1) by (simp_all add: q_def r_def)
  define P where "P = bits_number p"
  have "bits_number (p @ replicate k False) = P * 2 ^ k" "bits_number (p @ replicate k True) = P * 2 ^ k + (2 ^ k - 1)"
    by (simp_all add: bits_number_append bits_number_const P_def)
  moreover have "P * 2 ^ k \<le> q * 2 ^ k + r \<and> q * 2 ^ k + r \<le> P * 2 ^ k + (2 ^ k - 1) \<longleftrightarrow> q = P"
  proof
    assume b: "P * 2 ^ k \<le> q * 2 ^ k + r \<and> q * 2 ^ k + r \<le> P * 2 ^ k + (2 ^ k - 1)"
    have "(q * 2 ^ k + r) div 2 ^ k = q" using x(2) by simp
    moreover have "(P * 2 ^ k) div 2 ^ k \<le> (q * 2 ^ k + r) div 2 ^ k" using b by (intro div_le_mono) simp
    moreover have "(q * 2 ^ k + r) div 2 ^ k \<le> (P * 2 ^ k + (2 ^ k - 1)) div 2 ^ k" using b by (intro div_le_mono) simp
    moreover have "(P * 2 ^ k + d) div 2 ^ k = P" if "d < 2 ^ k" for d :: nat using that by simp
    then have "(P * 2 ^ k + (2 ^ k - 1)) div 2 ^ k = P" by (metis diff_less zero_less_numeral zero_less_one zero_less_power)
    ultimately show "q = P" by simp
  next
    assume "q = P"
    then show "P * 2 ^ k \<le> q * 2 ^ k + r \<and> q * 2 ^ k + r \<le> P * 2 ^ k + (2 ^ k - 1)" using x(2) by simp
  qed
  moreover have "q = P \<longleftrightarrow> take n x = p"
    using bits_number_inj [of "take n x" p] assms by (auto simp: q_def P_def)
  ultimately show ?thesis using x(1) by simp
qed

lemma wf_broadcast: "wf_ip ip \<Longrightarrow> wf_host (broadcastAddress ip)"
  by (cases "m_address ip") (auto simp: wf_ip_def broadcastAddress_def)

lemma range_addrs:
  assumes "network ip" "wf_host a" "protocol_of a = protocol_of (m_address ip)"
  shows "in_filter_range ip a \<longleftrightarrow> a \<in> addrs ip"
proof -
  let ?n = "pfx ip" and ?w = "width_of (m_address ip)" and ?bs = "host_bits (m_address ip)"
  have wf: "wf_ip ip" "wf_host (m_address ip)" using assms(1) by (auto simp: network_def wf_ip_def)
  have n: "?n \<le> ?w" using wf(1) by (auto simp: wf_ip_def)
  have len: "length ?bs = ?w" by (rule length_host_bits) fact
  have len_a: "length (host_bits a) = ?w"
    using length_host_bits [OF assms(2)] width_protocol [OF assms(3)] by simp
  have "drop ?n ?bs = replicate (?w - ?n) False"
    using assms(1) len by (intro replicate_eqI) (auto simp: network_def list_all_iff)
  then have low: "?bs = take ?n ?bs @ replicate (?w - ?n) False" by (metis append_take_drop_id)
  have high: "host_bits (broadcastAddress ip) = take ?n ?bs @ replicate (?w - ?n) True"
    using masks_and_broadcast [OF wf(1)] by blast
  have "in_filter_range ip a \<longleftrightarrow> take ?n (host_bits a) = take ?n ?bs"
    unfolding in_filter_range_def number_host [OF wf(2)] number_host [OF assms(2)] number_host [OF wf_broadcast [OF wf(1)]] high
    by (subst low) (rule between_bits, use n len_a len in simp_all)
  then show ?thesis using assms(2,3) by (simp add: addrs_def)
qed

section \<open>Verdicts\<close>

definition is_dns :: "fw_conn \<Rightarrow> bool" where
  "is_dns c \<longleftrightarrow> co_remotePort c = 53 \<and> (co_protocol c = IPPROTO_UDP \<or> co_protocol c = IPPROTO_TCP)"

definition is_dhcp :: "fw_conn \<Rightarrow> bool" where
  "is_dhcp c \<longleftrightarrow> co_protocol c = IPPROTO_UDP \<and> co_localPort c = 68 \<and> co_remotePort c = 67"

text \<open>Traffic of the client and its proxy, of the tunnel and of the loopback interfaces.\<close>

definition own_traffic :: "'e wfp \<Rightarrow> fw_op list \<Rightarrow> fw_conn \<Rightarrow> bool" where
  "own_traffic W L c \<longleftrightarrow> EnableInterface (co_interface c) \<in> set L \<or> co_interface c \<in> set (loopbacks W) \<or>
     co_app c \<in> set_option (wfp_appId W (getCurrentPath W)) \<union> set_option (wfp_appId W (getProxyPath W))"

definition lan_traffic :: "fw_op list \<Rightarrow> fw_conn \<Rightarrow> bool" where
  "lan_traffic L c \<longleftrightarrow> (\<exists>rs r. EnableLanBypass rs \<in> set L \<and> r \<in> set rs \<and> co_remote c \<in> addrs r)"

definition to_dns_host :: "(string \<Rightarrow> host_address) \<Rightarrow> fw_op list \<Rightarrow> fw_conn \<Rightarrow> bool" where
  "to_dns_host ph L c \<longleftrightarrow>
     (\<exists>cfg h. EnablePeerTraffic cfg \<in> set L \<and> h \<in> dns_hosts ph cfg \<and> importAddress (co_remote c) = importAddress h)"

definition tunnelled :: "fw_op list \<Rightarrow> fw_conn \<Rightarrow> bool" where
  "tunnelled L c \<longleftrightarrow>
     (\<exists>cfg r. EnablePeerTraffic cfg \<in> set L \<and> r \<in> set (ic_allowedIPAddressRanges cfg) \<and> co_remote c \<in> addrs r)"

definition wf_conn :: "fw_conn \<Rightarrow> bool" where
  "wf_conn c \<longleftrightarrow> wf_host (co_remote c) \<and> co_layer c \<in> set (layers_of (protocol_of (co_remote c)))"

fun op_networks :: "fw_op \<Rightarrow> bool" where
  "op_networks (EnableLanBypass rs) = list_all network rs"
| "op_networks (EnablePeerTraffic c) = list_all network (ic_allowedIPAddressRanges c)"
| "op_networks _ = True"

lemmas filter_lists = adapter_filters_def dhcp_filters_def hyperV_filters_def app_filters_def range_filters_def
  port_filters_def block_port_filters_def dhcp_conds_def

lemma on_layers_member:
  "f \<in> set (on_layers a w h cs ls) \<longleftrightarrow> f = \<lparr>ff_layer = ff_layer f, ff_action = a, ff_weight = w, ff_conds = cs, ff_hard = h\<rparr> \<and> ff_layer f \<in> set ls"
  by (cases f) (auto simp: on_layers_def)

lemma matching_member:
  "f \<in> set (on_layers a w h cs ls) \<Longrightarrow> fw_match c f \<Longrightarrow>
     ff_action f = a \<and> ff_weight f = w \<and> co_layer c \<in> set ls \<and>
     (\<forall>k \<in> set cs. \<exists>k' \<in> set cs. cond_field k' = cond_field k \<and> cond_holds c k')"
  unfolding on_layers_member fw_match_def by (metis fw_filter.select_convs)

lemma auth_layer: "wf_conn c \<Longrightarrow> co_layer c \<noteq> OutboundMac \<and> co_layer c \<noteq> InboundMac"
  by (auto simp: wf_conn_def layers_of_def split: if_splits)

lemma matching_permit:
  assumes "f \<in> op_filters W ph x" "fw_match c f" "ff_action f = FwPermit" "wf_conn c"
  shows "(\<exists>i. x = EnableInterface i \<and> (own_traffic W [x] c \<or> is_dhcp c)) \<or>
    (\<exists>rs r. x = EnableLanBypass rs \<and> r \<in> set rs \<and> in_filter_range r (co_remote c) \<and>
       co_layer c \<in> set (layers_of (protocol_of (m_address r))) \<and> ff_weight f = 1) \<or>
    (is_dns c \<and> to_dns_host ph [x] c)"
proof (cases x)
  case (EnableInterface i)
  have "own_traffic W [x] c \<or> is_dhcp c"
    using assms auth_layer [OF assms(4)] EnableInterface
    by (auto simp: interface_filters_def filter_lists own_traffic_def is_dhcp_def dest!: matching_member split: option.splits)
  then show ?thesis using EnableInterface by blast
next
  case (EnableLanBypass rs)
  then show ?thesis using assms
    by (auto simp: filter_lists in_filter_range_def LOW_WEIGHT_def dest!: matching_member)
next
  case (EnablePeerTraffic cfg)
  then show ?thesis using assms
    by (auto simp: peer_filters_def filter_lists is_dns_def to_dns_host_def dest!: matching_member)
qed (use assms in auto)

lemma matching_block:
  assumes "f \<in> op_filters W ph x" "fw_match c f" "ff_action f = FwBlock"
  shows "ff_weight f = LOW_WEIGHT \<or> (ff_weight f = MED_WEIGHT \<and> is_dns c)"
  using assms
  by (cases x) (auto simp: interface_filters_def peer_filters_def filter_lists is_dns_def dest!: matching_member)

lemma matches_on_layer:
  assumes "co_layer c \<in> set ls" "\<forall>k \<in> set cs. \<exists>k' \<in> set cs. cond_field k' = cond_field k \<and> cond_holds c k'"
  shows "\<exists>f \<in> set (on_layers a w h cs ls). fw_match c f \<and> ff_action f = a \<and> ff_weight f = w"
  using assms
  by (intro bexI [of _ "\<lparr>ff_layer = co_layer c, ff_action = a, ff_weight = w, ff_conds = cs, ff_hard = h\<rparr>"])
    (auto simp: fw_match_def on_layers_member)

lemma layers_protocol:
  "l \<in> set (layers_of p) \<Longrightarrow> l \<in> set (layers_of q) \<Longrightarrow> p \<noteq> UnknownNetworkLayerProtocol \<Longrightarrow> q \<noteq> UnknownNetworkLayerProtocol \<Longrightarrow> p = q"
  by (cases p; cases q) (auto simp: layers_of_def)

lemma wf_host_protocol: "wf_host h \<Longrightarrow> protocol_of h \<noteq> UnknownNetworkLayerProtocol"
  by (cases h) auto

lemma range_layer:
  assumes "network r" "wf_conn c" "co_layer c \<in> set (layers_of (protocol_of (m_address r)))"
  shows "in_filter_range r (co_remote c) \<longleftrightarrow> co_remote c \<in> addrs r"
proof (rule range_addrs)
  show "wf_host (co_remote c)" using assms(2) by (simp add: wf_conn_def)
  have "wf_host (m_address r)" using assms(1) by (simp add: network_def wf_ip_def)
  then show "protocol_of (co_remote c) = protocol_of (m_address r)"
    using assms(2,3) layers_protocol wf_host_protocol by (metis wf_conn_def)
qed fact

lemma own_member: "x \<in> set L \<Longrightarrow> own_traffic W [x] c \<Longrightarrow> own_traffic W L c"
  by (auto simp: own_traffic_def)

lemma dns_member: "x \<in> set L \<Longrightarrow> to_dns_host ph [x] c \<Longrightarrow> to_dns_host ph L c"
  by (auto simp: to_dns_host_def)

text \<open>The permits that can match: of the interface, of the local networks with weight 1, of the DNS server.\<close>

lemma no_permit:
  assumes F: "F = (\<Union>x \<in> set L. op_filters W ph x)" and c: "wf_conn c" and nets: "list_all op_networks L"
    and no: "\<not> own_traffic W L c" "\<not> is_dhcp c" "\<not> (is_dns c \<and> to_dns_host ph L c)"
    and g: "g \<in> F" "fw_match c g" "ff_action g = FwPermit"
  shows "ff_weight g = 1 \<and> lan_traffic L c"
proof -
  obtain x where x: "x \<in> set L" "g \<in> op_filters W ph x" using g(1) F by blast
  have "\<not> own_traffic W [x] c" "\<not> to_dns_host ph [x] c \<or> \<not> is_dns c" using no own_member dns_member x(1) by metis+
  then obtain rs r where r: "x = EnableLanBypass rs" "r \<in> set rs" "in_filter_range r (co_remote c)"
    "co_layer c \<in> set (layers_of (protocol_of (m_address r)))" "ff_weight g = 1"
    using matching_permit [OF x(2) g(2,3) c] no(2) by blast
  have "network r" using nets x(1) r(1,2) by (auto simp: list_all_iff)
  then have "co_remote c \<in> addrs r" using range_layer [OF _ c r(4)] r(3) by blast
  then show ?thesis using r x(1) by (auto simp: lan_traffic_def)
qed

lemma block_weights:
  assumes "F = (\<Union>x \<in> set L. op_filters W ph x)" "g \<in> F" "fw_match c g" "ff_action g = FwBlock"
  shows "ff_weight g = LOW_WEIGHT \<or> (ff_weight g = MED_WEIGHT \<and> is_dns c)"
  using assms matching_block by blast

lemma not_action: "ff_action g \<noteq> FwBlock \<longleftrightarrow> ff_action g = FwPermit" "ff_action g \<noteq> FwPermit \<longleftrightarrow> ff_action g = FwBlock"
  by (cases "ff_action g"; simp)+

lemma decidedI:
  assumes "\<exists>f \<in> set fs. fw_match c f \<and> ff_action f = a \<and> ff_weight f = w" "set fs \<subseteq> F"
    "\<And>g. g \<in> F \<Longrightarrow> fw_match c g \<Longrightarrow> ff_action g \<noteq> a \<Longrightarrow> ff_weight g < w"
  shows "decided a F c"
  using assms unfolding decided_def by blast

lemma tunnel_decided:
  assumes F: "F = (\<Union>x \<in> set L. op_filters W ph x)" and nets: "list_all op_networks L" and c: "wf_conn c"
    and a: "tunnelled L c" "\<not> own_traffic W L c" "\<not> lan_traffic L c" "\<not> (is_dns c \<and> to_dns_host ph L c)" "\<not> is_dhcp c"
  shows "decided FwBlock F c"
proof -
  obtain cfg r where r: "EnablePeerTraffic cfg \<in> set L" "r \<in> set (ic_allowedIPAddressRanges cfg)" "co_remote c \<in> addrs r"
    using a(1) by (auto simp: tunnelled_def)
  have "protocol_of (m_address r) = protocol_of (co_remote c)" "network r"
    using r nets by (auto simp: addrs_def list_all_iff)
  then have "\<exists>f \<in> set (range_filters FwBlock r LOW_WEIGHT). fw_match c f \<and> ff_action f = FwBlock \<and> ff_weight f = LOW_WEIGHT"
    unfolding range_filters_def using r(3) range_layer [of r c] c
    by (intro matches_on_layer) (auto simp: in_filter_range_def wf_conn_def)
  moreover have "set (range_filters FwBlock r LOW_WEIGHT) \<subseteq> op_filters W ph (EnablePeerTraffic cfg)"
    using r(2) by (auto simp: peer_filters_def)
  then have "set (range_filters FwBlock r LOW_WEIGHT) \<subseteq> F" using r(1) F by blast
  moreover have "\<not> (g \<in> F \<and> fw_match c g \<and> ff_action g \<noteq> FwBlock)" for g
    using no_permit [OF F c nets a(2,5,4)] a(3) not_action(1) by blast
  ultimately show ?thesis by (blast intro: decidedI)
qed

lemma dns_decided:
  assumes F: "F = (\<Union>x \<in> set L. op_filters W ph x)" and nets: "list_all op_networks L" and c: "wf_conn c"
    and a: "is_dns c" "EnableInterface i \<in> set L" "\<not> own_traffic W L c" "\<not> to_dns_host ph L c"
  shows "decided FwBlock F c"
proof (rule decidedI)
  show "\<exists>f \<in> set (block_port_filters 53 MED_WEIGHT). fw_match c f \<and> ff_action f = FwBlock \<and> ff_weight f = MED_WEIGHT"
    unfolding block_port_filters_def using a(1) c
    by (intro matches_on_layer) (auto simp: is_dns_def wf_conn_def layers_of_def split: if_splits)
  have "set (block_port_filters 53 MED_WEIGHT) \<subseteq> op_filters W ph (EnableInterface i)" by (auto simp: interface_filters_def)
  then show "set (block_port_filters 53 MED_WEIGHT) \<subseteq> F" using a(2) F by blast
  have "\<not> is_dhcp c" using a(1) by (auto simp: is_dns_def is_dhcp_def)
  then show "ff_weight g < MED_WEIGHT" if "g \<in> F" "fw_match c g" "ff_action g \<noteq> FwBlock" for g
    using no_permit [OF F c nets a(3) _ _ that(1,2)] a(4) that(3) not_action(1) [of g] by (simp add: MED_WEIGHT_def)
qed

lemma interface_decided:
  assumes F: "F = (\<Union>x \<in> set L. op_filters W ph x)" and c: "wf_conn c"
    and a: "EnableInterface (co_interface c) \<in> set L" "\<not> is_dns c"
  shows "decided FwPermit F c"
proof (rule decidedI)
  show "\<exists>f \<in> set (adapter_filters (co_interface c) MED_WEIGHT). fw_match c f \<and> ff_action f = FwPermit \<and> ff_weight f = MED_WEIGHT"
    unfolding adapter_filters_def using c
    by (intro matches_on_layer) (auto simp: all_layers_def wf_conn_def layers_of_def split: if_splits)
  have "set (adapter_filters (co_interface c) MED_WEIGHT) \<subseteq> op_filters W ph (EnableInterface (co_interface c))"
    by (auto simp: interface_filters_def)
  then show "set (adapter_filters (co_interface c) MED_WEIGHT) \<subseteq> F" using a(1) F by blast
  show "ff_weight g < MED_WEIGHT" if "g \<in> F" "fw_match c g" "ff_action g \<noteq> FwPermit" for g
    using block_weights [OF F that(1,2)] that(3) not_action(2) [of g] a(2) by (auto simp: MED_WEIGHT_def LOW_WEIGHT_def)
qed

lemma dns_host_decided:
  assumes F: "F = (\<Union>x \<in> set L. op_filters W ph x)" and c: "wf_conn c" and a: "is_dns c" "to_dns_host ph L c"
  shows "decided FwPermit F c"
proof -
  obtain cfg h where h: "EnablePeerTraffic cfg \<in> set L" "h \<in> dns_hosts ph cfg" "importAddress (co_remote c) = importAddress h"
    using a(2) by (auto simp: to_dns_host_def)
  have "layers_of (protocol_of h) = layers_of (protocol_of (co_remote c))"
    using h(3) by (cases h; cases "co_remote c") (auto simp: layers_of_def)
  then have "\<exists>f \<in> set (port_filters h 53 HIGH_WEIGHT). fw_match c f \<and> ff_action f = FwPermit \<and> ff_weight f = HIGH_WEIGHT"
    unfolding port_filters_def using c h(3) a(1)
    by (intro matches_on_layer) (auto simp: is_dns_def wf_conn_def)
  moreover have "set (port_filters h 53 HIGH_WEIGHT) \<subseteq> op_filters W ph (EnablePeerTraffic cfg)"
    using h(2) by (auto simp: peer_filters_def)
  then have "set (port_filters h 53 HIGH_WEIGHT) \<subseteq> F" using h(1) F by blast
  moreover have "ff_weight g < HIGH_WEIGHT" if "g \<in> F" "fw_match c g" "ff_action g \<noteq> FwPermit" for g
    using block_weights [OF F that(1,2)] not_action(2) [of g] that(3) by (auto simp: MED_WEIGHT_def LOW_WEIGHT_def HIGH_WEIGHT_def)
  ultimately show ?thesis by (blast intro: decidedI)
qed

text \<open>
  C5: The kill switch does not leak.  Take any sequence of successful operations of the firewall on
  any filtering platform that behaves as documented, whose address ranges are networks (no bits of
  the address beyond the prefix), and the operations still in force at its end.
  A well-formed connection on any layer to or from an address that belongs to the tunnel of an enabled peer is
  blocked unless it is traffic of the client itself, of the tunnel or a loopback interface, of an
  admitted local network, DNS to the server of a peer, or matches the DHCP ports.  DNS to any other
  server is blocked, also in local networks.  Traffic of the tunnel interface other than DNS and
  DNS to the server of a peer is let through.
\<close>

theorem killswitch_exact:
  assumes laws: "wfp_laws W rules txn" and arb: "arbitration permits"
    and fresh: "rules e = Map.empty" and run: "try_all (map (fw_do W ph) ops) (newFirewall e) = (True, s)"
    and L: "L = foldl in_force [] ops" and nets: "list_all op_networks L" and c: "wf_conn c"
  shows "(tunnelled L c \<and> \<not> own_traffic W L c \<and> \<not> lan_traffic L c \<and> \<not> (is_dns c \<and> to_dns_host ph L c) \<and> \<not> is_dhcp c \<longrightarrow>
            \<not> permits (ran (rules (fw_engine s))) c) \<and>
         (is_dns c \<and> EnableInterface i \<in> set L \<and> \<not> own_traffic W L c \<and> \<not> to_dns_host ph L c \<longrightarrow>
            \<not> permits (ran (rules (fw_engine s))) c) \<and>
         (EnableInterface (co_interface c) \<in> set L \<and> \<not> is_dns c \<longrightarrow> permits (ran (rules (fw_engine s))) c) \<and>
         (is_dns c \<and> to_dns_host ph L c \<longrightarrow> permits (ran (rules (fw_engine s))) c)"
proof -
  note F = run_filters [OF laws fresh run, folded L]
  show ?thesis
    using arb tunnel_decided [OF F nets c] dns_decided [OF F nets c] interface_decided [OF F c] dns_host_decided [OF F c]
    unfolding arbitration_def by blast
qed

section \<open>Failures\<close>

definition fw_ids :: "'e firewall \<Rightarrow> nat set" where
  "fw_ids s = set (fw_activeRules s) \<union> snd ` set (fw_peerRules s)"

definition covered :: "('e \<Rightarrow> fw_rules) \<Rightarrow> 'e firewall \<Rightarrow> bool" where
  "covered rules s \<longleftrightarrow> dom (rules (fw_engine s)) \<subseteq> fw_ids s"

text \<open>
  What the rules do inside a transaction, whatever their outcome: the filters in effect stay, and
  every id that the transaction holds is remembered.
\<close>

definition tx_keeps ::
    "('e \<Rightarrow> fw_rules) \<Rightarrow> ('e \<Rightarrow> fw_rules option) \<Rightarrow> ('e firewall \<Rightarrow> bool \<times> 'e firewall) \<Rightarrow> bool" where
  "tx_keeps rules txn f \<longleftrightarrow>
     (\<forall>s r ok s'. txn (fw_engine s) = Some r \<and> dom r \<subseteq> fw_ids s \<and> f s = (ok, s') \<longrightarrow>
        rules (fw_engine s') = rules (fw_engine s) \<and> fw_ids s \<subseteq> fw_ids s' \<and>
        (\<exists>r'. txn (fw_engine s') = Some r' \<and> dom r' \<subseteq> fw_ids s'))"

lemma keepsD:
  assumes "tx_keeps rules txn f" "txn (fw_engine s) = Some r" "dom r \<subseteq> fw_ids s" "f s = (ok, s')"
  shows "rules (fw_engine s') = rules (fw_engine s)" "fw_ids s \<subseteq> fw_ids s'"
    "\<exists>r'. txn (fw_engine s') = Some r' \<and> dom r' \<subseteq> fw_ids s'"
  using assms unfolding tx_keeps_def by blast+

lemma fw_ids_simps [simp]:
  "fw_ids (s\<lparr>fw_engine := e\<rparr>) = fw_ids s"
  "fw_ids (s\<lparr>fw_engine := e, fw_activeRules := fw_activeRules s @ [i]\<rparr>) = insert i (fw_ids s)"
  "fw_ids (s\<lparr>fw_engine := e, fw_peerRules := (k, i) # fw_peerRules s\<rparr>) = insert i (fw_ids s)"
  by (auto simp: fw_ids_def)

lemma keeps_enableFilter:
  assumes "wfp_laws W rules txn"
  shows "tx_keeps rules txn (enableFilter W peer f)"
  unfolding tx_keeps_def
proof (intro allI impI, elim conjE)
  fix s r ok s'
  assume a: "txn (fw_engine s) = Some r" "dom r \<subseteq> fw_ids s" "enableFilter W peer f s = (ok, s')"
  obtain i e where add: "wfp_add W f (fw_engine s) = (i, e)" by (cases "wfp_add W f (fw_engine s)")
  show "rules (fw_engine s') = rules (fw_engine s) \<and> fw_ids s \<subseteq> fw_ids s' \<and>
      (\<exists>r'. txn (fw_engine s') = Some r' \<and> dom r' \<subseteq> fw_ids s')"
  proof (cases i)
    case None
    then show ?thesis using a add wfp_lawsD(8) [OF assms a(1)] by (auto simp: enableFilter_def)
  next
    case (Some j)
    then have new: "txn e = Some (r(j \<mapsto> f))" "rules e = rules (fw_engine s)"
      using wfp_lawsD(7) [OF assms a(1)] add by blast+
    have "dom (r(j \<mapsto> f)) \<subseteq> insert j (fw_ids s)" using a(2) by auto
    then show ?thesis
      using a(3) add Some new by (cases "peer = []") (auto simp: enableFilter_def)
  qed
qed

lemma keeps_try_all: "(\<And>f. f \<in> set fs \<Longrightarrow> tx_keeps rules txn f) \<Longrightarrow> tx_keeps rules txn (try_all fs)"
proof (induction fs)
  case (Cons f fs)
  show ?case unfolding tx_keeps_def
  proof (intro allI impI, elim conjE)
    fix s r ok s'
    assume a: "txn (fw_engine s) = Some r" "dom r \<subseteq> fw_ids s" "try_all (f # fs) s = (ok, s')"
    obtain ok1 s1 where s1: "f s = (ok1, s1)" by (cases "f s")
    have f: "tx_keeps rules txn f" and fs: "tx_keeps rules txn (try_all fs)" using Cons by auto
    note k = keepsD [OF f a(1,2) s1]
    from k(3) obtain r1 where r1: "txn (fw_engine s1) = Some r1" "dom r1 \<subseteq> fw_ids s1" by blast
    show "rules (fw_engine s') = rules (fw_engine s) \<and> fw_ids s \<subseteq> fw_ids s' \<and>
        (\<exists>r'. txn (fw_engine s') = Some r' \<and> dom r' \<subseteq> fw_ids s')"
    proof (cases ok1)
      case True
      then have "try_all fs s1 = (ok, s')" using a(3) s1 by simp
      then show ?thesis using keepsD [OF fs r1] k by auto
    next
      case False
      then show ?thesis using a(3) s1 k by simp
    qed
  qed
qed (auto simp: tx_keeps_def)

lemma keeps_rules:
  assumes "wfp_laws W rules txn"
  shows "tx_keeps rules txn (enableFilters W peer fs)"
    "tx_keeps rules txn (allowTrafficForAppOnAll W path w)"
    "tx_keeps rules txn (allowTrafficOfAdapter W i w)"
    "tx_keeps rules txn (allowDHCPTraffic W w)"
    "tx_keeps rules txn (allowHyperVTraffic W w)"
    "tx_keeps rules txn (blockTrafficOnPort W p w)"
    "tx_keeps rules txn (allowLoopbackTraffic W w)"
    "tx_keeps rules txn (allowTrafficTo W peer w r)"
    "tx_keeps rules txn (blockTrafficToList W peer w rs)"
    "tx_keeps rules txn (dns_rules W ph c)"
proof -
  have ef: "tx_keeps rules txn (enableFilters W peer fs)" for peer fs
    unfolding enableFilters_def using keeps_enableFilter [OF assms] by (intro keeps_try_all) auto
  show "tx_keeps rules txn (enableFilters W peer fs)" by (rule ef)
  show "tx_keeps rules txn (allowTrafficForAppOnAll W path w)"
  proof (cases "wfp_appId W path")
    case None
    then show ?thesis by (auto simp: tx_keeps_def allowTrafficForAppOnAll_def)
  next
    case (Some a)
    then have "allowTrafficForAppOnAll W path w = enableFilters W [] (app_filters a w)"
      by (simp add: allowTrafficForAppOnAll_def fun_eq_iff)
    then show ?thesis using ef by simp
  qed
  show "tx_keeps rules txn (allowTrafficOfAdapter W i w)" "tx_keeps rules txn (allowDHCPTraffic W w)"
    "tx_keeps rules txn (allowHyperVTraffic W w)" "tx_keeps rules txn (blockTrafficOnPort W p w)"
    "tx_keeps rules txn (allowTrafficTo W peer w r)"
    by (simp_all add: ef allowTrafficOfAdapter_def allowDHCPTraffic_def allowHyperVTraffic_def blockTrafficOnPort_def allowTrafficTo_def)
  show "tx_keeps rules txn (allowLoopbackTraffic W w)"
    unfolding allowLoopbackTraffic_def by (rule keeps_try_all) (auto simp: allowTrafficOfAdapter_def ef)
  show "tx_keeps rules txn (blockTrafficToList W peer w rs)"
    unfolding blockTrafficToList_def by (rule keeps_try_all) (auto simp: blockTrafficTo_def ef)
  show "tx_keeps rules txn (dns_rules W ph c)"
    unfolding dns_rules_def Let_def by (rule keeps_try_all) (auto simp: allowTrafficToPort_def ef split: if_splits)
qed

lemma fw_call_frame: "fw_call f s = (ok, s') \<Longrightarrow> s' = s\<lparr>fw_engine := fw_engine s'\<rparr> \<and> f (fw_engine s) = (ok, fw_engine s')"
  by (auto simp: fw_call_def split: prod.splits)

lemma fw_call_ids: "fw_call f s = (ok, s') \<Longrightarrow> fw_ids s' = fw_ids s"
  by (metis fw_call_frame fw_ids_simps(1))

lemma fw_abort_same: "wfp_laws W rules txn \<Longrightarrow> rules (fw_engine (fw_abort W s)) = rules (fw_engine s) \<and> fw_ids (fw_abort W s) = fw_ids s"
  by (simp add: fw_abort_def wfp_lawsD(5))

lemma begin_outcome:
  assumes "wfp_laws W rules txn" "fw_call (wfp_begin W) s = (ok, s1)"
  shows "rules (fw_engine s1) = rules (fw_engine s)" "fw_ids s1 = fw_ids s"
    "ok \<Longrightarrow> txn (fw_engine s1) = Some (rules (fw_engine s))"
  using fw_call_frame [OF assms(2)] fw_call_ids [OF assms(2)] wfp_lawsD(1,2) [OF assms(1), of "fw_engine s" "fw_engine s1"]
  by (cases ok; simp)+

lemma fold_delete_keeps:
  assumes "wfp_laws W rules txn"
  shows "txn t = Some r \<Longrightarrow> rules (fold (wfp_delete W) ids t) = rules t"
proof (induction ids arbitrary: t r)
  case (Cons i ids)
  then show ?case using wfp_lawsD(9) [OF assms Cons.prems, of i] by fastforce
qed simp

lemma disable_outcome:
  assumes laws: "wfp_laws W rules txn" and cov: "covered rules s" and d: "disableKillSwitch W s = (ok, s')"
  shows "if ok then rules (fw_engine s') = Map.empty \<and> fw_ids s' = {}
    else rules (fw_engine s') = rules (fw_engine s) \<and> fw_ids s' = fw_ids s"
proof (cases ok)
  case True
  then show ?thesis
    using disableKillSwitch_empty [OF laws] d cov by (simp add: covered_def fw_ids_def)
next
  case False
  obtain okb s1 where b: "fw_call (wfp_begin W) s = (okb, s1)" by (cases "fw_call (wfp_begin W) s")
  note b' = begin_outcome [OF laws b]
  show ?thesis
  proof (cases okb)
    case False
    then show ?thesis using d b b' fw_abort_same [OF laws] \<open>\<not> ok\<close> by (auto simp: disableKillSwitch_def)
  next
    case True
    define e where "e = fold (wfp_delete W) (map snd (fw_peerRules s1) @ fw_activeRules s1) (fw_engine s1)"
    obtain s3 where s3: "fw_call (wfp_commit W) (s1\<lparr>fw_engine := e\<rparr>) = (False, s3)" "s' = fw_abort W s3"
      using d b True \<open>\<not> ok\<close> by (auto simp: disableKillSwitch_def fw_delete_def e_def Let_def split: prod.splits if_splits)
    have "rules (fw_engine s3) = rules e"
      using fw_call_frame [OF s3(1)] wfp_lawsD(4) [OF laws, of e] by simp
    also have "\<dots> = rules (fw_engine s1)" unfolding e_def by (rule fold_delete_keeps [OF laws b'(3) [OF True]])
    finally show ?thesis
      using s3 b' fw_call_ids [OF s3(1)] fw_abort_same [OF laws] \<open>\<not> ok\<close> by simp
  qed
qed

text \<open>Either everything is as before, or the kill switch is off and nothing is remembered.\<close>

definition reverted :: "('e \<Rightarrow> fw_rules) \<Rightarrow> 'e firewall \<Rightarrow> 'e firewall \<Rightarrow> bool" where
  "reverted rules s s' \<longleftrightarrow> rules (fw_engine s') = rules (fw_engine s) \<or> (rules (fw_engine s') = Map.empty \<and> fw_ids s' = {})"

lemma disable_reverted:
  assumes "wfp_laws W rules txn" "covered rules s" "rules (fw_engine t) = rules (fw_engine s)" "fw_ids s \<subseteq> fw_ids t"
  shows "covered rules (snd (disableKillSwitch W t)) \<and> reverted rules s (snd (disableKillSwitch W t))"
proof -
  obtain ok t' where d: "disableKillSwitch W t = (ok, t')" by (cases "disableKillSwitch W t")
  have cov: "covered rules t" using assms(2-4) by (auto simp: covered_def)
  show ?thesis
    using disable_outcome [OF assms(1) cov d] d assms cov by (auto simp: covered_def reverted_def split: if_splits)
qed

lemma commit_outcome:
  assumes "wfp_laws W rules txn" "fw_call (wfp_commit W) s = (ok, s')"
  shows "fw_ids s' = fw_ids s" "ok \<Longrightarrow> txn (fw_engine s) = Some (rules (fw_engine s'))"
    "\<not> ok \<Longrightarrow> rules (fw_engine s') = rules (fw_engine s)"
  using fw_call_frame [OF assms(2)] fw_call_ids [OF assms(2)] wfp_lawsD(3,4) [OF assms(1), of "fw_engine s" "fw_engine s'"]
  by (cases ok; simp)+

lemma transaction_outcome:
  assumes laws: "wfp_laws W rules txn" and cov: "covered rules s" and k: "tx_keeps rules txn rule"
    and b: "fw_call (wfp_begin W) s = (True, s1)" and r: "rule s1 = (ok, s2)"
  shows "rules (fw_engine s2) = rules (fw_engine s)" "fw_ids s \<subseteq> fw_ids s2"
    "fw_call (wfp_commit W) s2 = (ok', s3) \<Longrightarrow>
       covered rules s3 \<and> fw_ids s \<subseteq> fw_ids s3 \<and> (\<not> ok' \<longrightarrow> rules (fw_engine s3) = rules (fw_engine s))"
proof -
  note b' = begin_outcome [OF laws b, simplified]
  have "dom (rules (fw_engine s)) \<subseteq> fw_ids s1" using cov b'(2) by (simp add: covered_def)
  note k' = keepsD [OF k b'(3) this r]
  show same: "rules (fw_engine s2) = rules (fw_engine s)" "fw_ids s \<subseteq> fw_ids s2" using k'(1,2) b' by simp_all
  obtain r' where r': "txn (fw_engine s2) = Some r'" "dom r' \<subseteq> fw_ids s2" using k'(3) by blast
  show "covered rules s3 \<and> fw_ids s \<subseteq> fw_ids s3 \<and> (\<not> ok' \<longrightarrow> rules (fw_engine s3) = rules (fw_engine s))"
    if "fw_call (wfp_commit W) s2 = (ok', s3)"
    using commit_outcome [OF laws that] r' same cov by (cases ok') (auto simp: covered_def)
qed

lemma guarded_outcome:
  assumes laws: "wfp_laws W rules txn" and cov: "covered rules s" and k: "tx_keeps rules txn rule" and g: "guarded W rule s = (ok, s')"
  shows "covered rules s' \<and> (\<not> ok \<longrightarrow> reverted rules s s')"
proof -
  obtain okb s1 where b: "fw_call (wfp_begin W) s = (okb, s1)" by (cases "fw_call (wfp_begin W) s")
  obtain okr s2 where r: "rule s1 = (okr, s2)" by (cases "rule s1")
  obtain okc s3 where c: "fw_call (wfp_commit W) s2 = (okc, s3)" by (cases "fw_call (wfp_commit W) s2")
  note dis = disable_reverted [OF laws cov] and ab = fw_abort_same [OF laws]
  show ?thesis
  proof (cases okb)
    case False
    then show ?thesis using g b dis [of s1] begin_outcome [OF laws b] by (auto simp: guarded_def)
  next
    case True
    then have "fw_call (wfp_begin W) s = (True, s1)" using b by simp
    note t = transaction_outcome [OF laws cov k this r]
    show ?thesis
      using g b True r c t(1,2) t(3) [OF c] dis [of "fw_abort W s2"] dis [of "fw_abort W s3"] ab [of s2] ab [of s3]
      by (auto simp: guarded_def split: if_splits)
  qed
qed

lemma FW_OK_outcome:
  assumes laws: "wfp_laws W rules txn" and cov: "covered rules s" and k: "tx_keeps rules txn rule" and g: "FW_OK W rule s = (ok, s')"
  shows "covered rules s'"
proof -
  obtain okb s1 where b: "fw_call (wfp_begin W) s = (okb, s1)" by (cases "fw_call (wfp_begin W) s")
  obtain okr s2 where r: "rule s1 = (okr, s2)" by (cases "rule s1")
  obtain okc s3 where c: "fw_call (wfp_commit W) s2 = (okc, s3)" by (cases "fw_call (wfp_commit W) s2")
  note dis = disable_reverted [OF laws cov] and ab = fw_abort_same [OF laws]
  show ?thesis
  proof (cases okb)
    case False
    then show ?thesis using g b dis [of s1] begin_outcome [OF laws b] by (auto simp: FW_OK_def)
  next
    case True
    then have "fw_call (wfp_begin W) s = (True, s1)" using b by simp
    note t = transaction_outcome [OF laws cov k this r]
    show ?thesis
      using g b True r c t(1,2) t(3) [OF c] dis [of "fw_abort W s2"] ab [of s2]
      by (auto simp: FW_OK_def split: if_splits)
  qed
qed

lemma fw_call_lists:
  "fw_call f s = (ok, s') \<Longrightarrow> fw_peerRules s' = fw_peerRules s \<and> fw_activeRules s' = fw_activeRules s"
  by (auto simp: fw_call_def split: prod.splits)

definition stays_covered :: "('e \<Rightarrow> fw_rules) \<Rightarrow> ('e firewall \<Rightarrow> bool \<times> 'e firewall) \<Rightarrow> bool" where
  "stays_covered rules f \<longleftrightarrow> (\<forall>s. covered rules s \<longrightarrow> covered rules (snd (f s)))"

lemma covered_try_all: "list_all (stays_covered rules) fs \<Longrightarrow> stays_covered rules (try_all fs)"
proof (induction fs)
  case (Cons f fs)
  then have "covered rules (snd (f s))" "covered rules (snd (try_all fs (snd (f s))))" if "covered rules s" for s
    using that by (simp_all add: stays_covered_def)
  moreover have "snd (try_all (f # fs) s) = (if fst (f s) then snd (try_all fs (snd (f s))) else snd (f s))" for s
    by (simp add: case_prod_beta)
  ultimately show ?case by (simp add: stays_covered_def)
qed (simp add: stays_covered_def)

lemma interface_outcome:
  assumes laws: "wfp_laws W rules txn"
  shows "stays_covered rules (enableInterface W i)"
proof -
  have ok: "stays_covered rules (FW_OK W rule)" if "tx_keeps rules txn rule" for rule
    using FW_OK_outcome [OF laws _ that] unfolding stays_covered_def by (metis prod.collapse)
  show ?thesis
    unfolding enableInterface_def
    by (rule covered_try_all) (simp only: list.pred_inject ok [OF keeps_rules(2) [OF laws]] ok [OF keeps_rules(3) [OF laws]]
        ok [OF keeps_rules(4) [OF laws]] ok [OF keeps_rules(5) [OF laws]] ok [OF keeps_rules(6) [OF laws]]
        ok [OF keeps_rules(7) [OF laws]] simp_thms)
qed

lemma disablePeer_covered:
  assumes "wfp_laws W rules txn" "covered rules s" "disablePeerTraffic W key s = (True, s')"
  shows "covered rules s'"
proof -
  let ?ids = "map snd (filter (\<lambda>r. fst r = key) (fw_peerRules s))"
  let ?rest = "filter (\<lambda>r. fst r \<noteq> key) (fw_peerRules s)"
  have swap: "t\<lparr>fw_engine := e, fw_peerRules := p\<rparr> = t\<lparr>fw_peerRules := p, fw_engine := e\<rparr>" for t :: "'a firewall" and e p by simp
  obtain okb s1 where b: "fw_call (wfp_begin W) s = (okb, s1)" by (cases "fw_call (wfp_begin W) s")
  then have okb: okb using assms(3) by (cases okb) (simp_all add: disablePeerTraffic_def)
  with b have s1: "fw_call (wfp_begin W) s = (True, s1)" by simp
  note lists = fw_call_lists [OF s1]
  have c: "fw_call (wfp_commit W) ((s1\<lparr>fw_peerRules := ?rest\<rparr>)\<lparr>fw_engine := fold (wfp_delete W) ?ids (fw_engine s1)\<rparr>) = (True, s')"
    using assms(3) s1 lists unfolding disablePeerTraffic_def Let_def fw_delete_def swap
    by (auto split: prod.splits if_splits)
  note d = commit_deleted [OF assms(1) s1 c]
  have "fw_ids s' = set (fw_activeRules s) \<union> snd ` set ?rest"
    using fw_call_ids [OF c] lists by (simp add: fw_ids_def)
  moreover have "snd ` set (fw_peerRules s) = set ?ids \<union> snd ` set ?rest" by auto
  moreover have "dom (rules (fw_engine s')) = dom (rules (fw_engine s)) - set ?ids"
    unfolding d(1) by (simp only: dom_restrict Diff_eq)
  moreover have "D \<subseteq> X \<union> C \<Longrightarrow> C = A \<union> B \<Longrightarrow> D - A \<subseteq> X \<union> B" for A B C D X :: "nat set" by blast
  ultimately show ?thesis using assms(2) unfolding covered_def fw_ids_def by metis
qed

text \<open>
  C28: Failures leave no stray filters.  If every filter in effect is remembered, this is so after
  every operation of the firewall, whatever fails inside it, except a failing
  \<^verbatim>\<open>disablePeerTraffic\<close>; so disabling the kill switch then removes every filter.  An operation other
  than \<^verbatim>\<open>enableInterface\<close> that fails has changed nothing of the filters in effect, or the kill switch
  is off.
\<close>

theorem failures_revert:
  assumes laws: "wfp_laws W rules txn" and cov: "covered rules s" and run: "fw_do W ph x s = (ok, s')"
    and x: "ok \<or> (\<forall>k. x \<noteq> DisablePeerTraffic k)"
  shows "covered rules s' \<and> (\<not> ok \<and> (\<forall>i. x \<noteq> EnableInterface i) \<longrightarrow> reverted rules s s') \<and>
    (disableKillSwitch W s' = (True, s'') \<longrightarrow> rules (fw_engine s'') = Map.empty)"
proof -
  have "covered rules s' \<and> (\<not> ok \<and> (\<forall>i. x \<noteq> EnableInterface i) \<longrightarrow> reverted rules s s')"
  proof (cases x)
    case (EnableInterface i)
    then show ?thesis using interface_outcome [OF laws] cov run unfolding stays_covered_def by (metis fw_do.simps(1) snd_conv)
  next
    case (EnableLanBypass rs)
    have "tx_keeps rules txn (try_all (map (allowTrafficTo W [] (LOW_WEIGHT + 1)) rs))"
      using keeps_rules(8) [OF laws] by (intro keeps_try_all) auto
    then show ?thesis using guarded_outcome [OF laws cov] run EnableLanBypass by (simp add: enableLanBypass_def)
  next
    case (EnablePeerTraffic c)
    have "tx_keeps rules txn (try_all [blockTrafficToList W (qchars (ic_serverPublicKey c)) LOW_WEIGHT (ic_allowedIPAddressRanges c), dns_rules W ph c])"
      using keeps_rules(9,10) [OF laws] by (intro keeps_try_all) auto
    then show ?thesis using guarded_outcome [OF laws cov] run EnablePeerTraffic by (simp add: enablePeerTraffic_def)
  next
    case (DisablePeerTraffic k)
    then show ?thesis using disablePeer_covered [OF laws cov] run x by simp
  next
    case DisableKillSwitch
    then show ?thesis
      using disable_outcome [OF laws cov, of ok s'] run cov by (auto simp: covered_def reverted_def split: if_splits)
  qed
  then show ?thesis using disable_outcome [OF laws, of s' True s''] by auto
qed

lemma failed_disablePeer:
  assumes laws: "wfp_laws W rules txn" and b: "fst (wfp_begin W (fw_engine s))"
    and f: "disablePeerTraffic W key s = (False, s1)"
  shows "fw_peerRules s1 = filter (\<lambda>r. fst r \<noteq> key) (fw_peerRules s) \<and> fw_activeRules s1 = fw_activeRules s \<and>
    rules (fw_engine s1) = rules (fw_engine s)"
proof -
  let ?ids = "map snd (filter (\<lambda>r. fst r = key) (fw_peerRules s))"
  let ?rest = "filter (\<lambda>r. fst r \<noteq> key) (fw_peerRules s)"
  have sb: "fw_call (wfp_begin W) s = (True, s\<lparr>fw_engine := snd (wfp_begin W (fw_engine s))\<rparr>)"
    using b by (simp add: fw_call_def case_prod_beta)
  define sb where "sb = s\<lparr>fw_engine := snd (wfp_begin W (fw_engine s))\<rparr>"
  note sb = sb [folded sb_def]
  note lists = fw_call_lists [OF sb]
  define e where "e = fold (wfp_delete W) ?ids (fw_engine sb)"
  have swap: "t\<lparr>fw_engine := e, fw_peerRules := p\<rparr> = t\<lparr>fw_peerRules := p, fw_engine := e\<rparr>" for t :: "'a firewall" and e p by simp
  obtain s3 where s3: "fw_call (wfp_commit W) (sb\<lparr>fw_peerRules := ?rest, fw_engine := e\<rparr>) = (False, s3)" "s1 = fw_abort W s3"
    using f sb lists unfolding disablePeerTraffic_def Let_def fw_delete_def swap e_def
    by (auto split: prod.splits if_splits)
  have "rules (fw_engine s3) = rules e" using commit_outcome(3) [OF laws s3(1)] by simp
  also have "\<dots> = rules (fw_engine sb)"
    unfolding e_def by (rule fold_delete_keeps [OF laws begin_outcome(3) [OF laws sb]]) simp
  finally show ?thesis
    using s3(2) fw_call_lists [OF s3(1)] lists begin_outcome(1) [OF laws sb] fw_abort_same [OF laws, of s3]
    by (simp add: fw_abort_def)
qed

text \<open>
  C37: A failing removal of a peer leaves its filters behind for good.  When the commit in
  \<^verbatim>\<open>disablePeerTraffic\<close> fails, the filters of the peer stay in effect but their ids are forgotten,
  so that disabling the kill switch later succeeds and leaves them in effect: the addresses of the
  tunnel stay blocked with the VPN off.
\<close>

theorem peer_filters_orphaned:
  assumes laws: "wfp_laws W rules txn" and t: "tracked (rules (fw_engine s)) s G P"
    and b: "fst (wfp_begin W (fw_engine s))" and f: "disablePeerTraffic W key s = (False, s1)"
    and d: "disableKillSwitch W s1 = (True, s2)" and p: "flt \<in> P key"
  shows "flt \<in> ran (rules (fw_engine s2)) \<and> fw_activeRules s2 = [] \<and> fw_peerRules s2 = []"
proof -
  let ?rest = "filter (\<lambda>r. fst r \<noteq> key) (fw_peerRules s)"
  obtain i where i: "(key, i) \<in> set (fw_peerRules s)" "flt = the (rules (fw_engine s) i)"
    using t p by (auto simp: tracked_def)
  have dist: "distinct (fw_activeRules s @ map snd (fw_peerRules s))" "dom (rules (fw_engine s)) = fw_ids s"
    using t by (simp_all add: tracked_def fw_ids_def)
  have "i \<in> fw_ids s" using i(1) by (force simp: fw_ids_def)
  then have eff: "rules (fw_engine s) i = Some flt" using dist(2) i(2) by (metis domD option.sel)
  have "inj_on snd (set (fw_peerRules s))" using dist(1) by (simp add: distinct_map)
  then have "i \<notin> snd ` set ?rest" using i(1) by (force simp: inj_on_def)
  moreover have "i \<in> snd ` set (fw_peerRules s)" using i(1) by force
  then have "i \<notin> set (fw_activeRules s)" using dist(1) by auto
  ultimately have forgotten: "i \<notin> set (fw_activeRules s) \<union> snd ` set ?rest" by simp
  note f' = failed_disablePeer [OF laws b f]
  obtain s3 s4 where s4: "fw_call (wfp_begin W) s1 = (True, s3)"
    "fw_call (wfp_commit W) (s3\<lparr>fw_engine := fold (wfp_delete W) (map snd (fw_peerRules s3) @ fw_activeRules s3) (fw_engine s3)\<rparr>) = (True, s4)"
    "s2 = s4\<lparr>fw_peerRules := [], fw_activeRules := []\<rparr>"
    using d by (auto simp: disableKillSwitch_def Let_def fw_delete_def split: prod.splits if_splits)
  have "rules (fw_engine s2) i = Some flt"
    using commit_deleted(1) [OF laws s4(1,2)] fw_call_lists [OF s4(1)] f' forgotten eff s4(3) by simp
  then show ?thesis using s4(3) by (auto simp: ran_def)
qed

section \<open>A filtering platform\<close>

text \<open>A platform that keeps the promises: a table of filters, and the outcomes of the next commits.\<close>

record fw_table =
  ft_rules :: "(nat \<times> fw_filter) list"
  ft_txn :: "(nat \<times> fw_filter) list option"
  ft_commits :: "bool list"

fun table_commit :: "fw_table \<Rightarrow> bool \<times> fw_table" where
  "table_commit e =
    (case (ft_txn e, ft_commits e) of
       (None, _) \<Rightarrow> (False, e)
     | (Some t, False # cs) \<Rightarrow> (False, e\<lparr>ft_txn := None, ft_commits := cs\<rparr>)
     | (Some t, cs) \<Rightarrow> (True, \<lparr>ft_rules = t, ft_txn = None, ft_commits = tl cs\<rparr>))"

fun table_add :: "fw_filter \<Rightarrow> fw_table \<Rightarrow> nat option \<times> fw_table" where
  "table_add f e =
    (case ft_txn e of None \<Rightarrow> (None, e)
     | Some t \<Rightarrow> let i = Suc (fold max (map fst t) 0) in (Some i, e\<lparr>ft_txn := Some ((i, f) # t)\<rparr>))"

definition table_wfp :: "fw_table wfp" where
  "table_wfp =
     \<lparr>wfp_begin = (\<lambda>e. (True, e\<lparr>ft_txn := Some (ft_rules e)\<rparr>)),
      wfp_commit = table_commit,
      wfp_abort = (\<lambda>e. e\<lparr>ft_txn := None\<rparr>),
      wfp_add = table_add,
      wfp_delete = (\<lambda>i e. e\<lparr>ft_txn := map_option (filter (\<lambda>p. fst p \<noteq> i)) (ft_txn e)\<rparr>),
      wfp_appId = Some, wfp_module = (\<lambda>n. (5, ''a.exe'')), wfp_sibling = (\<lambda>path f. f),
      wfp_interfaces = [(1, True), (3, False)]\<rparr>"

definition table_rules :: "fw_table \<Rightarrow> fw_rules" where "table_rules e = map_of (ft_rules e)"
definition table_txn :: "fw_table \<Rightarrow> fw_rules option" where "table_txn e = map_option map_of (ft_txn e)"

lemma fresh_id: "i \<in> set ids \<Longrightarrow> i < Suc (fold max ids (0 :: nat))"
proof -
  have "i \<in> set ids \<or> i \<le> n \<Longrightarrow> i \<le> fold max ids n" for n
    by (induction ids arbitrary: n) (auto simp: max_def split: if_splits)
  then show "i \<in> set ids \<Longrightarrow> i < Suc (fold max ids (0 :: nat))" by (simp add: less_Suc_eq_le)
qed

lemma map_of_without: "map_of (filter (\<lambda>p. fst p \<noteq> i) t) = (map_of t)(i := None)"
  by (induction t) (auto simp: fun_eq_iff)

lemma table_laws: "wfp_laws table_wfp table_rules table_txn"
  unfolding wfp_laws_def table_rules_def table_txn_def
proof (intro conjI allI impI)
  fix e e' f r i
  assume a: "map_option map_of (ft_txn e) = Some r \<and> wfp_add table_wfp f e = (Some i, e')"
  then obtain t where t: "ft_txn e = Some t" "r = map_of t" by auto
  have "i = Suc (fold max (map fst t) 0)" using a t by (simp add: table_wfp_def Let_def)
  then have "i \<notin> set (map fst t)" using fresh_id [of i "map fst t"] by auto
  then show "i \<notin> dom r" using t(2) by (simp add: dom_map_of_conv_image_fst)
  show "map_option map_of (ft_txn e') = Some (r(i \<mapsto> f))" "map_of (ft_rules e') = map_of (ft_rules e)"
    using a t by (auto simp: table_wfp_def Let_def)
qed (auto simp: table_wfp_def map_of_without split: option.splits list.splits bool.splits)

definition table_permits :: "fw_filter set \<Rightarrow> fw_conn \<Rightarrow> bool" where
  "table_permits F c = (\<not> decided FwBlock F c)"

lemma table_arbitration: "arbitration table_permits"
  unfolding arbitration_def
proof (intro allI conjI impI)
  fix F c
  show "decided FwBlock F c \<Longrightarrow> \<not> table_permits F c" by (simp add: table_permits_def)
  show "table_permits F c" if "decided FwPermit F c"
  proof -
    obtain f where f: "f \<in> F" "fw_match c f" "ff_action f = FwPermit"
      "\<And>g. g \<in> F \<Longrightarrow> fw_match c g \<Longrightarrow> ff_action g \<noteq> FwPermit \<Longrightarrow> ff_weight g < ff_weight f"
      using \<open>decided FwPermit F c\<close> unfolding decided_def by blast
    have "\<not> decided FwBlock F c"
    proof
      assume "decided FwBlock F c"
      then obtain g where g: "g \<in> F" "fw_match c g" "ff_action g = FwBlock" "ff_weight f < ff_weight g"
        using f unfolding decided_def by (metis fw_action.distinct(1))
      then show False using f(4) [of g] by simp
    qed
    then show ?thesis by (simp add: table_permits_def)
  qed
  show "\<forall>f\<in>F. \<not> fw_match c f \<Longrightarrow> table_permits F c" by (auto simp: table_permits_def decided_def)
qed

definition demo_peer :: interface_config where
  "demo_peer = emptyConfig\<lparr>ic_serverPublicKey := Some ''key'', ic_dnsServer := Some ''10.64.0.1'',
     ic_allowedIPAddressRanges := [\<lparr>m_address = IPv4 0, m_prefixLength = 0\<rparr>]\<rparr>"

definition demo_ops :: "fw_op list" where
  "demo_ops = [EnableInterface 7, EnableLanBypass [\<lparr>m_address = IPv4 0x0A000000, m_prefixLength = 8\<rparr>], EnablePeerTraffic demo_peer]"

definition demo_host :: "string \<Rightarrow> host_address" where "demo_host s = IPv4 0x0A400001"

definition demo_table :: "bool list \<Rightarrow> fw_table firewall" where
  "demo_table commits = newFirewall \<lparr>ft_rules = [], ft_txn = None, ft_commits = commits\<rparr>"

text \<open>A browser on the network adapter, to a web server and to a public resolver.\<close>

definition demo_conn :: "16 word \<Rightarrow> fw_conn" where
  "demo_conn port = \<lparr>co_layer = ConnectV4, co_app = ''browser.exe'', co_interface = 3, co_protocol = IPPROTO_TCP,
     co_localPort = 50000, co_remotePort = port, co_remote = IPv4 0x08080808, co_vm2vm = False\<rparr>"

definition demo_run :: "fw_table firewall" where
  "demo_run = snd (try_all (map (fw_do table_wfp demo_host) demo_ops) (demo_table []))"

lemma demo_run: "try_all (map (fw_do table_wfp demo_host) demo_ops) (demo_table []) = (True, demo_run)"
proof -
  have "fst (try_all (map (fw_do table_wfp demo_host) demo_ops) (demo_table [])) = True" by code_simp
  then show ?thesis by (simp add: demo_run_def prod_eq_iff)
qed

lemma demo_conn_facts:
  "wf_conn (demo_conn p)" "\<not> own_traffic table_wfp demo_ops (demo_conn p)" "\<not> lan_traffic demo_ops (demo_conn p)"
  "\<not> to_dns_host demo_host demo_ops (demo_conn p)" "\<not> is_dhcp (demo_conn p)" "tunnelled demo_ops (demo_conn p)"
  "foldl in_force [] demo_ops = demo_ops" "list_all op_networks demo_ops"
proof -
  have lan: "take 8 (wbits (0x08080808 :: 32 word)) \<noteq> take 8 (wbits (0x0A000000 :: 32 word))" by code_simp
  show "wf_conn (demo_conn p)" "\<not> is_dhcp (demo_conn p)" "foldl in_force [] demo_ops = demo_ops"
    by (simp_all add: wf_conn_def demo_conn_def layers_of_def is_dhcp_def IPPROTO_TCP_def IPPROTO_UDP_def demo_ops_def)
  show "\<not> own_traffic table_wfp demo_ops (demo_conn p)"
    by (simp add: own_traffic_def demo_ops_def demo_conn_def loopbacks_def table_wfp_def getCurrentPath_def getProxyPath_def)
  show "\<not> lan_traffic demo_ops (demo_conn p)"
    using lan by (simp add: lan_traffic_def demo_ops_def demo_conn_def addrs_def)
  show "\<not> to_dns_host demo_host demo_ops (demo_conn p)"
    by (auto simp: to_dns_host_def demo_ops_def demo_conn_def dns_hosts_def demo_host_def split: if_splits)
  show "tunnelled demo_ops (demo_conn p)"
    by (simp add: tunnelled_def demo_ops_def demo_peer_def demo_conn_def addrs_def)
  have "drop 8 (wbits (0x0A000000 :: 32 word)) = replicate 24 False" "wbits (0 :: 32 word) = replicate 32 False" by code_simp+
  then show "list_all op_networks demo_ops"
    by (simp add: demo_ops_def demo_peer_def network_def wf_ip_def list_all_iff)
qed

lemma killswitch_exact_witness:
  "\<not> table_permits (ran (table_rules (fw_engine demo_run))) (demo_conn 443) \<and>
   \<not> table_permits (ran (table_rules (fw_engine demo_run))) (demo_conn 53)"
proof -
  have e: "table_rules \<lparr>ft_rules = [], ft_txn = None, ft_commits = []\<rparr> = Map.empty" by (simp add: table_rules_def)
  note k = killswitch_exact [OF table_laws table_arbitration e demo_run [unfolded demo_table_def] refl]
  have "is_dns (demo_conn 53)" "\<not> is_dns (demo_conn 443)" by (simp_all add: is_dns_def demo_conn_def)
  then show ?thesis
    using k [of "demo_conn 443" 7] k [of "demo_conn 53" 7] demo_conn_facts by (simp add: demo_ops_def [symmetric])
qed

lemma failures_revert_witness:
  "covered table_rules (snd (fw_do table_wfp demo_host (EnablePeerTraffic demo_peer) (demo_table [False])))"
proof -
  have cov: "covered table_rules (demo_table [False])"
    by (simp add: covered_def demo_table_def newFirewall_def table_rules_def)
  show ?thesis
    using failures_revert [OF table_laws cov surjective_pairing, of demo_host "EnablePeerTraffic demo_peer"] by blast
qed

text \<open>The commit of the removal of the peer fails, the one of disabling the kill switch does not.\<close>

definition demo_orphans :: "fw_table firewall" where
  "demo_orphans = snd (fw_do table_wfp demo_host (EnablePeerTraffic demo_peer) (demo_table [True, False]))"

lemma peer_filters_orphaned_witness:
  "let s1 = snd (disablePeerTraffic table_wfp ''key'' demo_orphans); s2 = snd (disableKillSwitch table_wfp s1)
   in (\<exists>f \<in> set (range_filters FwBlock \<lparr>m_address = IPv4 0, m_prefixLength = 0\<rparr> LOW_WEIGHT). f \<in> ran (table_rules (fw_engine s2))) \<and>
      fw_peerRules s2 = []"
proof -
  let ?s = demo_orphans
  let ?s1 = "snd (disablePeerTraffic table_wfp ''key'' ?s)"
  have ok: "fst (fw_do table_wfp demo_host (EnablePeerTraffic demo_peer) (demo_table [True, False])) = True"
    "fst (disablePeerTraffic table_wfp ''key'' ?s) = False" "fst (disableKillSwitch table_wfp ?s1) = True"
    by code_simp+
  have "fw_do table_wfp demo_host (EnablePeerTraffic demo_peer) (demo_table [True, False]) = (True, ?s)"
    using ok(1) by (simp add: demo_orphans_def prod_eq_iff)
  moreover have "tracked (table_rules (fw_engine (demo_table [True, False]))) (demo_table [True, False])
      (general_of table_wfp demo_host []) (peer_of table_wfp demo_host [])"
    by (simp add: tracked_def demo_table_def newFirewall_def general_of_def peer_of_def table_rules_def)
  ultimately have t: "tracked (table_rules (fw_engine ?s)) ?s (general_of table_wfp demo_host (in_force [] (EnablePeerTraffic demo_peer)))
      (peer_of table_wfp demo_host (in_force [] (EnablePeerTraffic demo_peer)))"
    by (rule refine_step [OF table_laws])
  define flt where "flt = hd (range_filters FwBlock \<lparr>m_address = IPv4 0, m_prefixLength = 0\<rparr> LOW_WEIGHT)"
  have flt: "flt \<in> set (range_filters FwBlock \<lparr>m_address = IPv4 0, m_prefixLength = 0\<rparr> LOW_WEIGHT)"
    by (simp add: flt_def range_filters_def on_layers_def layers_of_def)
  then have p: "flt \<in> peer_of table_wfp demo_host (in_force [] (EnablePeerTraffic demo_peer)) ''key''"
    by (simp add: peer_of_def demo_peer_def peer_filters_def)
  have f: "disablePeerTraffic table_wfp ''key'' ?s = (False, ?s1)"
    "disableKillSwitch table_wfp ?s1 = (True, snd (disableKillSwitch table_wfp ?s1))"
    using ok(2,3) by (simp_all add: prod_eq_iff)
  have b: "fst (wfp_begin table_wfp (fw_engine ?s))" by (simp add: table_wfp_def)
  show ?thesis using peer_filters_orphaned [OF table_laws t b f p] flt by (auto simp: Let_def)
qed

end
