(* ===== verification/WindowsRouteMonitor.thy ===== *)
theory WindowsRouteMonitor
  imports IPAddress
begin

text \<open>
  Model of \<^verbatim>\<open>src/platforms/windows/daemon/windowsroutemonitor.cpp\<close>: the routes that keep the VPN
  servers and the local networks outside the tunnel, which follow the best route of the system's
  routing table, and the clones that draw more specific routes of the table into the tunnel.  The
  routing table of the system is a parameter, a record of its calls.
\<close>

unbundle bit_operations_syntax

section \<open>Routes\<close>

text \<open>
  A socket address: the address and, as one number, everything else in the structure (the port, the
  flow information, the scope), which the code copies and compares with it.
\<close>

record sockaddr_inet =
  sa_address :: host_address
  sa_rest :: nat

text \<open>A row of the routing table: the fields of \<^verbatim>\<open>MIB_IPFORWARD_ROW2\<close> that the code reads or varies.\<close>

record mib_row =
  rt_prefix :: ip_address
  rt_luid :: nat
  rt_nextHop :: sockaddr_inet
  rt_protocol :: nat
  rt_metric :: "32 word"
  rt_age :: nat

abbreviation rt_family :: "mib_row \<Rightarrow> protocol" where
  "rt_family row \<equiv> protocol_of (m_address (rt_prefix row))"

definition EXCLUSION_ROUTE_METRIC :: "32 word" where "EXCLUSION_ROUTE_METRIC = 0x5e72"
definition NO_ERROR :: nat where "NO_ERROR = 0"
definition MIB_IPPROTO_NETMGMT :: nat where "MIB_IPPROTO_NETMGMT = 3"

text \<open>The next hop of a row whose next hop is not set: the null address of its family, all else zero.\<close>

fun null_address :: "protocol \<Rightarrow> host_address" where
  "null_address IPv4Protocol = IPv4 0"
| "null_address IPv6Protocol = IPv6 (replicate 16 0)"
| "null_address UnknownNetworkLayerProtocol = NullAddress"

definition any_address :: "protocol \<Rightarrow> sockaddr_inet" where
  "any_address p = \<lparr>sa_address = null_address p, sa_rest = 0\<rparr>"

text \<open>A row of the table of interfaces.\<close>

record mib_interface =
  if_luid :: nat
  if_family :: protocol
  if_connected :: bool
  if_metric :: "32 word"

text \<open>
  The calls: the two tables of a family, or of both, or an error; creating and deleting a route,
  with the error code.
\<close>

record 'r ip_helper =
  ih_table :: "protocol option \<Rightarrow> 'r \<Rightarrow> mib_row list option"
  ih_interfaces :: "protocol option \<Rightarrow> 'r \<Rightarrow> mib_interface list option"
  ih_create :: "mib_row \<Rightarrow> 'r \<Rightarrow> nat \<times> 'r"
  ih_delete :: "mib_row \<Rightarrow> 'r \<Rightarrow> nat \<times> 'r"

text \<open>
  The two hash tables are lists of pairs, whose order, which a hash table does not promise, is the
  order of insertion.
\<close>

record 'r route_monitor =
  rm_luid :: nat
  rm_exclusionRoutes :: "(ip_address \<times> mib_row) list"
  rm_metricsIpv4 :: "nat \<rightharpoonup> 32 word"
  rm_metricsIpv6 :: "nat \<rightharpoonup> 32 word"
  rm_defaultRouteCapture :: bool
  rm_clonedRoutes :: "(ip_address \<times> mib_row) list"
  rm_system :: 'r

definition newRouteMonitor :: "nat \<Rightarrow> 'r \<Rightarrow> 'r route_monitor" where
  "newRouteMonitor luid r = \<lparr>rm_luid = luid, rm_exclusionRoutes = [], rm_metricsIpv4 = Map.empty,
     rm_metricsIpv6 = Map.empty, rm_defaultRouteCapture = False, rm_clonedRoutes = [], rm_system = r\<rparr>"

section \<open>Prefixes\<close>

text \<open>The bytes of an address in network order.\<close>

fun address_bytes :: "host_address \<Rightarrow> 8 word list" where
  "address_bytes (IPv4 w) = map (\<lambda>i. ucast (drop_bit (24 - 8 * i) w)) [0..<4]"
| "address_bytes (IPv6 bs) = bs"
| "address_bytes NullAddress = []"

text \<open>\<^verbatim>\<open>prefixcmp\<close>, whose result is only compared with zero.\<close>

definition prefixcmp :: "8 word list \<Rightarrow> 8 word list \<Rightarrow> nat \<Rightarrow> bool" where
  "prefixcmp a b bits =
    (let bytes = bits div 8
     in if bytes > 0 \<and> take bytes a \<noteq> take bytes b then False
        else if bits mod 8 \<noteq> 0 then drop_bit (8 - bits mod 8) (a ! bytes) = drop_bit (8 - bits mod 8) (b ! bytes)
        else True)"

definition routeContainsDest :: "ip_address \<Rightarrow> ip_address \<Rightarrow> bool" where
  "routeContainsDest route dest =
    (if protocol_of (m_address route) \<noteq> protocol_of (m_address dest) then False
     else if m_prefixLength route > m_prefixLength dest then False
     else if protocol_of (m_address route) = UnknownNetworkLayerProtocol then False
     else prefixcmp (address_bytes (m_address route)) (address_bytes (m_address dest)) (pfx route))"

definition isRouteExcluded :: "ip_address \<Rightarrow> 'r route_monitor \<Rightarrow> bool" where
  "isRouteExcluded dest s = list_ex (\<lambda>p. routeContainsDest (rt_prefix (snd p)) dest) (rm_exclusionRoutes s)"

section \<open>Operations\<close>

definition concerns :: "protocol option \<Rightarrow> protocol \<Rightarrow> bool" where
  "concerns family p = (family = None \<or> family = Some p)"

definition interface_metrics :: "nat \<Rightarrow> protocol \<Rightarrow> mib_interface list \<Rightarrow> nat \<rightharpoonup> 32 word" where
  "interface_metrics luid p rows =
     map_of (rev (map (\<lambda>r. (if_luid r, if_metric r)) (filter (\<lambda>r. if_luid r \<noteq> luid \<and> if_connected r \<and> if_family r = p) rows)))"

definition updateInterfaceMetrics :: "'r ip_helper \<Rightarrow> protocol option \<Rightarrow> 'r route_monitor \<Rightarrow> 'r route_monitor" where
  "updateInterfaceMetrics H family s =
    (case ih_interfaces H family (rm_system s) of
       None \<Rightarrow> s
     | Some rows \<Rightarrow>
         s\<lparr>rm_metricsIpv4 := (if concerns family IPv4Protocol then Map.empty else rm_metricsIpv4 s) ++
              interface_metrics (rm_luid s) IPv4Protocol rows,
           rm_metricsIpv6 := (if concerns family IPv6Protocol then Map.empty else rm_metricsIpv6 s) ++
              interface_metrics (rm_luid s) IPv6Protocol rows\<rparr>)"

text \<open>The combined metric of a row for a destination: none where the interface is not valid for routing, saturating.\<close>

definition routeMetric :: "'r route_monitor \<Rightarrow> protocol \<Rightarrow> mib_row \<Rightarrow> 32 word option" where
  "routeMetric s family row =
    (case (case family of IPv6Protocol \<Rightarrow> rm_metricsIpv6 s (rt_luid row) | IPv4Protocol \<Rightarrow> rm_metricsIpv4 s (rt_luid row)
           | UnknownNetworkLayerProtocol \<Rightarrow> None) of
       None \<Rightarrow> None
     | Some m \<Rightarrow> let routeMetric = rt_metric row + m in Some (if routeMetric < rt_metric row then - 1 else routeMetric))"

text \<open>The search for the best route: next hop, interface, prefix length and metric of the best match so far.\<close>

record best_route =
  br_nexthop :: sockaddr_inet
  br_luid :: nat
  br_match :: int
  br_metric :: "32 word"

definition exclusion_step :: "'r route_monitor \<Rightarrow> mib_row \<Rightarrow> mib_row \<Rightarrow> best_route \<Rightarrow> best_route" where
  "exclusion_step s data row b =
    (if rt_luid row = rm_luid s then b
     else if m_prefixLength (rt_prefix row) < br_match b then b
     else if rt_protocol row = rt_protocol data \<and> rt_metric row = rt_metric data then b
     else if \<not> routeContainsDest (rt_prefix row) (rt_prefix data) then b
     else case routeMetric s (rt_family data) row of
       None \<Rightarrow> b
     | Some metric \<Rightarrow>
         if m_prefixLength (rt_prefix row) = br_match b \<and> metric \<ge> br_metric b then b
         else \<lparr>br_nexthop = rt_nextHop row,
               br_luid = (if m_prefixLength (rt_prefix row) = m_prefixLength (rt_prefix data) then 0 else rt_luid row),
               br_match = m_prefixLength (rt_prefix row), br_metric = metric\<rparr>)"

definition best_exclusion :: "'r route_monitor \<Rightarrow> mib_row \<Rightarrow> mib_row list \<Rightarrow> best_route" where
  "best_exclusion s data table =
     fold (exclusion_step s data) table
       \<lparr>br_nexthop = any_address (rt_family data), br_luid = 0, br_match = - 1, br_metric = - 1\<rparr>"

definition updateExclusionRoute ::
    "'r ip_helper \<Rightarrow> mib_row list \<Rightarrow> mib_row \<Rightarrow> 'r route_monitor \<Rightarrow> mib_row \<times> 'r route_monitor" where
  "updateExclusionRoute H table data s =
    (let b = best_exclusion s data table
     in if rt_luid data = br_luid b \<and> br_nexthop b = rt_nextHop data then (data, s)
        else let s1 = (if rt_luid data \<noteq> 0 then s\<lparr>rm_system := snd (ih_delete H data (rm_system s))\<rparr> else s);
                 data' = data\<lparr>rt_luid := br_luid b, rt_nextHop := br_nexthop b\<rparr>
             in (data', if rt_luid data' \<noteq> 0 then s1\<lparr>rm_system := snd (ih_create H data' (rm_system s1))\<rparr> else s1))"

text \<open>
  Route capture: a more specific route of the table that is not excluded is cloned into the tunnel.
  \<open>special\<close> tells loopback, broadcast, link-local and multicast addresses.
\<close>

definition captured :: "(host_address \<Rightarrow> bool) \<Rightarrow> 'r route_monitor \<Rightarrow> mib_row \<Rightarrow> bool" where
  "captured special s row =
    (rt_luid row \<noteq> rm_luid s \<and> m_prefixLength (rt_prefix row) \<noteq> 0 \<and>
     \<not> (rt_protocol row = MIB_IPPROTO_NETMGMT \<and> rt_metric row = EXCLUSION_ROUTE_METRIC) \<and>
     \<not> isRouteExcluded (rt_prefix row) s \<and> \<not> special (m_address (rt_prefix row)))"

definition clone_row :: "nat \<Rightarrow> ip_address \<Rightarrow> mib_row" where
  "clone_row luid prefix = \<lparr>rt_prefix = prefix, rt_luid = luid, rt_nextHop = any_address (protocol_of (m_address prefix)),
     rt_protocol = MIB_IPPROTO_NETMGMT, rt_metric = 0, rt_age = 0\<rparr>"

definition count_age :: "ip_address \<Rightarrow> (ip_address \<times> mib_row) list \<Rightarrow> (ip_address \<times> mib_row) list" where
  "count_age prefix = map (\<lambda>(k, data). (k, if k = prefix then data\<lparr>rt_age := rt_age data + 1\<rparr> else data))"

definition capture_row :: "'r ip_helper \<Rightarrow> (host_address \<Rightarrow> bool) \<Rightarrow> mib_row \<Rightarrow> 'r route_monitor \<Rightarrow> 'r route_monitor" where
  "capture_row H special row s =
    (if \<not> captured special s row then s
     else if rt_prefix row \<in> fst ` set (rm_clonedRoutes s)
     then s\<lparr>rm_clonedRoutes := count_age (rt_prefix row) (rm_clonedRoutes s)\<rparr>
     else let data = clone_row (rm_luid s) (rt_prefix row); (result, r) = ih_create H data (rm_system s)
          in if result \<noteq> NO_ERROR then s\<lparr>rm_system := r\<rparr>
             else s\<lparr>rm_system := r, rm_clonedRoutes := rm_clonedRoutes s @ [(rt_prefix row, data\<lparr>rt_age := 1\<rparr>)]\<rparr>)"

definition sweep_clones :: "'r ip_helper \<Rightarrow> protocol option \<Rightarrow> 'r route_monitor \<Rightarrow> 'r route_monitor" where
  "sweep_clones H family s =
    (let gone = (\<lambda>p :: ip_address \<times> mib_row. rt_age (snd p) = 0 \<and> concerns family (rt_family (snd p)))
     in s\<lparr>rm_system := fold (\<lambda>p r. snd (ih_delete H (snd p) r)) (filter gone (rm_clonedRoutes s)) (rm_system s),
          rm_clonedRoutes := map (\<lambda>(k, data). (k, data\<lparr>rt_age := 0\<rparr>)) (filter (\<lambda>p. \<not> gone p) (rm_clonedRoutes s))\<rparr>)"

definition updateCapturedRoutes ::
    "'r ip_helper \<Rightarrow> (host_address \<Rightarrow> bool) \<Rightarrow> protocol option \<Rightarrow> mib_row list \<Rightarrow> 'r route_monitor \<Rightarrow> 'r route_monitor" where
  "updateCapturedRoutes H special family table s =
    (if \<not> rm_defaultRouteCapture s then s else sweep_clones H family (fold (capture_row H special) table s))"

text \<open>
  The overload that reads the table itself goes on only when reading the table has failed, with
  whatever the uninitialised pointer then holds: the argument \<open>garbage\<close>.
\<close>

definition updateCapturedRoutes_family ::
    "'r ip_helper \<Rightarrow> (host_address \<Rightarrow> bool) \<Rightarrow> mib_row list \<Rightarrow> protocol \<Rightarrow> 'r route_monitor \<Rightarrow> 'r route_monitor" where
  "updateCapturedRoutes_family H special garbage family s =
    (if \<not> rm_defaultRouteCapture s then s
     else if ih_table H (Some family) (rm_system s) = None
     then updateCapturedRoutes H special (Some family) garbage s
     else s)"

text \<open>The row of an exclusion; an address that is not one is taken for the null address of IPv4.\<close>

definition exclusion_row :: "ip_address \<Rightarrow> mib_row" where
  "exclusion_row prefix =
    (let dest = (if m_address prefix = NullAddress then prefix\<lparr>m_address := IPv4 0\<rparr> else prefix)
     in \<lparr>rt_prefix = dest, rt_luid = 0, rt_nextHop = any_address (protocol_of (m_address dest)),
         rt_protocol = MIB_IPPROTO_NETMGMT, rt_metric = EXCLUSION_ROUTE_METRIC, rt_age = 0\<rparr>)"

definition addExclusionRoute ::
    "'r ip_helper \<Rightarrow> (host_address \<Rightarrow> bool) \<Rightarrow> ip_address \<Rightarrow> 'r route_monitor \<Rightarrow> bool \<times> 'r route_monitor" where
  "addExclusionRoute H special prefix s =
    (if special (m_address prefix) then (True, s)
     else if prefix \<in> fst ` set (rm_exclusionRoutes s) then (False, s)
     else let family = (if protocol_of (m_address prefix) = IPv6Protocol then IPv6Protocol else IPv4Protocol)
          in case ih_table H (Some family) (rm_system s) of
               None \<Rightarrow> (False, s)
             | Some table \<Rightarrow>
                 let s1 = updateInterfaceMetrics H (Some family) s;
                     s2 = updateCapturedRoutes H special (Some family) table s1;
                     (data, s3) = updateExclusionRoute H table (exclusion_row prefix) s2
                 in (True, s3\<lparr>rm_exclusionRoutes := rm_exclusionRoutes s3 @ [(prefix, data)]\<rparr>))"

definition deleteExclusionRoute ::
    "'r ip_helper \<Rightarrow> (host_address \<Rightarrow> bool) \<Rightarrow> mib_row list \<Rightarrow> ip_address \<Rightarrow> 'r route_monitor \<Rightarrow> bool \<times> 'r route_monitor" where
  "deleteExclusionRoute H special garbage prefix s =
    (case map_of (rm_exclusionRoutes s) prefix of
       None \<Rightarrow> (True, s)
     | Some data \<Rightarrow>
         (True, updateCapturedRoutes_family H special garbage (rt_family data)
            (s\<lparr>rm_exclusionRoutes := filter (\<lambda>p. fst p \<noteq> prefix) (rm_exclusionRoutes s),
               rm_system := snd (ih_delete H data (rm_system s))\<rparr>)))"

definition flush_routes :: "'r ip_helper \<Rightarrow> (ip_address \<times> mib_row) list \<Rightarrow> 'r \<Rightarrow> 'r" where
  "flush_routes H table r = fold (\<lambda>p r. snd (ih_delete H (snd p) r)) table r"

definition setDefaultRouteCapture :: "'r ip_helper \<Rightarrow> bool \<Rightarrow> 'r route_monitor \<Rightarrow> 'r route_monitor" where
  "setDefaultRouteCapture H enable s =
    (if enable then s\<lparr>rm_defaultRouteCapture := True\<rparr>
     else s\<lparr>rm_defaultRouteCapture := False, rm_clonedRoutes := [], rm_system := flush_routes H (rm_clonedRoutes s) (rm_system s)\<rparr>)"

definition refresh_exclusions :: "'r ip_helper \<Rightarrow> mib_row list \<Rightarrow> 'r route_monitor \<Rightarrow> 'r route_monitor" where
  "refresh_exclusions H table s =
     fold (\<lambda>(k, data) s. let (data', s') = updateExclusionRoute H table data s
            in s'\<lparr>rm_exclusionRoutes := map (\<lambda>(k', d). (k', if k' = k then data' else d)) (rm_exclusionRoutes s')\<rparr>)
       (rm_exclusionRoutes s) s"

definition routeChanged :: "'r ip_helper \<Rightarrow> (host_address \<Rightarrow> bool) \<Rightarrow> 'r route_monitor \<Rightarrow> 'r route_monitor" where
  "routeChanged H special s =
    (case ih_table H None (rm_system s) of
       None \<Rightarrow> s
     | Some table \<Rightarrow>
         refresh_exclusions H table (updateCapturedRoutes H special None table (updateInterfaceMetrics H None s)))"

definition destroyRouteMonitor :: "'r ip_helper \<Rightarrow> 'r route_monitor \<Rightarrow> 'r" where
  "destroyRouteMonitor H s = flush_routes H (rm_clonedRoutes s) (flush_routes H (rm_exclusionRoutes s) (rm_system s))"


section \<open>Prefix matching\<close>

lemma address_bits: "wf_host h \<Longrightarrow> bytes_bits (address_bytes h) = host_bits h"
proof (cases h)
  case (IPv4 w)
  have len: "length (bytes_bits (address_bytes (IPv4 w))) = 32" by (simp add: bytes_bits_def upt_rec)
  have "bytes_bits (address_bytes (IPv4 w)) = wbits w"
  proof (rule sym, rule wbits_eqI)
    fix i :: nat
    assume i: "i < LENGTH(32)"
    then have k: "i div 8 < 4" by simp
    have "i = 8 * (i div 8) + i mod 8" "i mod 8 < 8" by simp_all
    have lt: "7 - i mod 8 < 8" by simp
    from \<open>i = _\<close> \<open>i mod 8 < 8\<close> k have pos: "24 - 8 * (i div 8) + (7 - i mod 8) = LENGTH(32) - Suc i" by simp
    have "bytes_bits (address_bytes (IPv4 w)) ! i = bit (address_bytes (IPv4 w) ! (i div 8)) (7 - i mod 8)"
      using i by (intro nth_bytes_bits) simp
    also have "\<dots> = bit w (24 - 8 * (i div 8) + (7 - i mod 8))"
      using k lt by (simp add: bit_ucast_iff bit_drop_bit_eq)
    finally show "bit w (LENGTH(32) - Suc i) = bytes_bits (address_bytes (IPv4 w)) ! i" unfolding pos by (rule sym)
  qed (use len in simp)
  then show ?thesis using IPv4 by simp
qed auto

lemma xor_bits_zero: "a XOR b = 0 \<longleftrightarrow> a = b" for a b :: "'a::len word"
  by (auto simp: bit_eq_iff bit_xor_iff)

lemma prefixcmp_bits:
  assumes "length a = l" "length b = l" "n \<le> 8 * l"
  shows "prefixcmp a b n \<longleftrightarrow> take n (bytes_bits a) = take n (bytes_bits b)"
proof -
  define k where "k = n div 8"
  define m where "m = n mod 8"
  have bound: "m = 0 \<or> k < l" and "m < 8" using assms(3) unfolding k_def m_def by presburger+
  have tk: "take n (bytes_bits c) = bytes_bits (take k c) @ (if m = 0 then [] else take m (wbits (c ! k)))"
    if "length c = l" for c :: "8 word list"
  proof -
    have "take n (concat (map wbits c)) = concat (take k (map wbits c)) @ (if m = 0 then [] else take m (map wbits c ! k))"
      unfolding k_def m_def by (rule concat_take_uniform) (use assms that in auto)
    with bound that show ?thesis by (auto simp: bytes_bits_def take_map)
  qed
  have inj: "bytes_bits (take k a) = bytes_bits (take k b) \<longleftrightarrow> take k a = take k b"
    using bytes_bits_inject [of "take k a" "take k b"] assms by auto
  have byte: "drop_bit (8 - m) x = drop_bit (8 - m) y \<longleftrightarrow> take m (wbits x) = take m (wbits y)" for x y :: "8 word"
    using drop_bit_xor_eq_0_iff [of m x y] \<open>m < 8\<close> by (simp add: drop_bit_xor xor_bits_zero)
  have "length (bytes_bits (take k a)) = length (bytes_bits (take k b))" using assms by simp
  then show ?thesis
    unfolding prefixcmp_def Let_def k_def [symmetric] m_def [symmetric]
    by (auto simp: tk assms inj byte)
qed

text \<open>A route contains a destination exactly when the addresses of the destination are addresses of the route.\<close>

lemma routeContainsDest_iff:
  assumes "wf_ip route" "wf_ip dest"
  shows "routeContainsDest route dest \<longleftrightarrow> m_prefixLength route \<le> m_prefixLength dest \<and> m_address dest \<in> addrs route"
proof (cases "protocol_of (m_address route) = protocol_of (m_address dest)")
  case True
  have wf: "wf_host (m_address route)" "wf_host (m_address dest)" using assms by (simp_all add: wf_ip_def)
  have "prefixcmp (address_bytes (m_address route)) (address_bytes (m_address dest)) (pfx route) \<longleftrightarrow>
      take (pfx route) (host_bits (m_address route)) = take (pfx route) (host_bits (m_address dest))"
  proof -
    obtain l where l: "length (address_bytes (m_address route)) = l" "length (address_bytes (m_address dest)) = l" "8 * l = width_of (m_address route)"
      using wf True by (cases "m_address route"; cases "m_address dest") auto
    have "pfx route \<le> 8 * l" using assms(1) l(3) by (auto simp: wf_ip_def)
    then show ?thesis using prefixcmp_bits [OF l(1,2)] wf by (simp add: address_bits)
  qed
  moreover have "protocol_of (m_address route) \<noteq> UnknownNetworkLayerProtocol" using wf by (cases "m_address route") auto
  ultimately show ?thesis using True wf by (auto simp: routeContainsDest_def addrs_def)
next
  case False
  then show ?thesis by (auto simp: routeContainsDest_def addrs_def)
qed

section \<open>The best route\<close>

definition eligible :: "'r route_monitor \<Rightarrow> mib_row \<Rightarrow> mib_row \<Rightarrow> bool" where
  "eligible s data row \<longleftrightarrow> rt_luid row \<noteq> rm_luid s \<and>
     \<not> (rt_protocol row = rt_protocol data \<and> rt_metric row = rt_metric data) \<and>
     routeContainsDest (rt_prefix row) (rt_prefix data) \<and> routeMetric s (rt_family data) row \<noteq> None"

definition metric_of :: "'r route_monitor \<Rightarrow> mib_row \<Rightarrow> mib_row \<Rightarrow> 32 word" where
  "metric_of s data row = the (routeMetric s (rt_family data) row)"

text \<open>Longer prefixes are better, then lower metrics.\<close>

definition no_better :: "'r route_monitor \<Rightarrow> mib_row \<Rightarrow> mib_row \<Rightarrow> mib_row \<Rightarrow> bool" where
  "no_better s data r row \<longleftrightarrow> m_prefixLength (rt_prefix r) < m_prefixLength (rt_prefix row) \<or>
     (m_prefixLength (rt_prefix r) = m_prefixLength (rt_prefix row) \<and> metric_of s data row \<le> metric_of s data r)"

definition is_best :: "'r route_monitor \<Rightarrow> mib_row \<Rightarrow> mib_row list \<Rightarrow> best_route \<Rightarrow> bool" where
  "is_best s data rows b \<longleftrightarrow>
     (if rows = [] then b = \<lparr>br_nexthop = any_address (rt_family data), br_luid = 0, br_match = - 1, br_metric = - 1\<rparr>
      else \<exists>row \<in> set rows. (\<forall>r \<in> set rows. no_better s data r row) \<and>
        b = \<lparr>br_nexthop = rt_nextHop row,
             br_luid = (if m_prefixLength (rt_prefix row) = m_prefixLength (rt_prefix data) then 0 else rt_luid row),
             br_match = m_prefixLength (rt_prefix row), br_metric = metric_of s data row\<rparr>)"

lemma best_step:
  assumes "is_best s data (filter (eligible s data) rows) b" "0 \<le> m_prefixLength (rt_prefix row)"
  shows "is_best s data (filter (eligible s data) (rows @ [row])) (exclusion_step s data row b)"
proof (cases "eligible s data row")
  case False
  then have "exclusion_step s data row b = b" by (auto simp: exclusion_step_def eligible_def split: option.split)
  then show ?thesis using assms(1) False by simp
next
  case el: True
  let ?new = "\<lparr>br_nexthop = rt_nextHop row,
             br_luid = (if m_prefixLength (rt_prefix row) = m_prefixLength (rt_prefix data) then 0 else rt_luid row),
             br_match = m_prefixLength (rt_prefix row), br_metric = metric_of s data row\<rparr>"
  have step: "exclusion_step s data row b =
      (if m_prefixLength (rt_prefix row) < br_match b \<or>
          (m_prefixLength (rt_prefix row) = br_match b \<and> br_metric b \<le> metric_of s data row) then b else ?new)"
    using el by (auto simp: exclusion_step_def eligible_def metric_of_def)
  show ?thesis
  proof (cases "filter (eligible s data) rows = []")
    case True
    then have "br_match b = - 1" using assms(1) by (simp add: is_best_def)
    then show ?thesis using step assms(2) el True by (simp add: is_best_def no_better_def)
  next
    case False
    then obtain r0 where r0: "r0 \<in> set (filter (eligible s data) rows)"
      "\<And>r. r \<in> set (filter (eligible s data) rows) \<Longrightarrow> no_better s data r r0"
      "b = \<lparr>br_nexthop = rt_nextHop r0,
             br_luid = (if m_prefixLength (rt_prefix r0) = m_prefixLength (rt_prefix data) then 0 else rt_luid r0),
             br_match = m_prefixLength (rt_prefix r0), br_metric = metric_of s data r0\<rparr>"
      using assms(1) unfolding is_best_def by auto
    have total: "\<not> no_better s data row r0 \<Longrightarrow> no_better s data r0 row"
      by (auto simp: no_better_def)
    have trans: "no_better s data r r0 \<Longrightarrow> no_better s data r0 row \<Longrightarrow> no_better s data r row" for r
      by (auto simp: no_better_def)
    have upd: "exclusion_step s data row b = (if no_better s data row r0 then b else ?new)"
      using step r0(3) by (auto simp: no_better_def)
    then show ?thesis
    proof (cases "no_better s data row r0")
      case True
      then show ?thesis using upd r0 el
        unfolding is_best_def by (auto intro!: bexI [of _ r0])
    next
      case worse: False
      have "no_better s data row row" by (simp add: no_better_def)
      then show ?thesis using upd worse el trans [OF r0(2) total [OF worse]]
        unfolding is_best_def by (auto intro!: bexI [of _ row])
    qed
  qed
qed

lemma best_exclusion_best:
  "\<forall>row \<in> set table. 0 \<le> m_prefixLength (rt_prefix row) \<Longrightarrow>
     is_best s data (filter (eligible s data) table) (best_exclusion s data table)"
proof (induction table rule: rev_induct)
  case Nil
  then show ?case by (simp add: is_best_def best_exclusion_def)
next
  case (snoc row rows)
  then show ?case using best_step [of s data rows "best_exclusion s data rows" row] by (simp add: best_exclusion_def)
qed

text \<open>
  C36: An exclusion route follows the best route outside the tunnel.  After its update for a routing
  table, its next hop and interface are those of a row of the table that contains the destination,
  is not a route into the tunnel or one of the monitor's own, and whose interface is valid for
  routing, such that no other such row has a longer prefix, or an equal one and a lower metric, the
  sum of the metrics of route and interface, saturating.  The route is not installed (interface 0)
  if there is no such row, or the table has a route for exactly the destination.
\<close>

theorem exclusion_route_best:
  assumes "\<forall>row \<in> set table. wf_ip (rt_prefix row)" "wf_ip (rt_prefix data)"
    "updateExclusionRoute H table data s = (data', s')" "rows = filter (eligible s data) table"
  shows "rt_prefix data' = rt_prefix data \<and> (rows = [] \<longrightarrow> rt_luid data' = 0) \<and>
    (rows \<noteq> [] \<longrightarrow> (\<exists>row \<in> set rows. (\<forall>r \<in> set rows. no_better s data r row) \<and>
       rt_luid row \<noteq> rm_luid s \<and> m_address (rt_prefix data) \<in> addrs (rt_prefix row) \<and>
       rt_nextHop data' = rt_nextHop row \<and>
       rt_luid data' = (if m_prefixLength (rt_prefix row) = m_prefixLength (rt_prefix data) then 0 else rt_luid row)))"
proof -
  define b where "b = best_exclusion s data table"
  have "\<forall>row \<in> set table. 0 \<le> m_prefixLength (rt_prefix row)" using assms(1) by (auto simp: wf_ip_def)
  then have best: "is_best s data rows b" unfolding assms(4) b_def by (rule best_exclusion_best)
  have data': "rt_prefix data' = rt_prefix data" "rt_luid data' = br_luid b" "rt_nextHop data' = br_nexthop b"
    using assms(3) by (auto simp: updateExclusionRoute_def Let_def b_def [symmetric] split: if_splits)
  have member: "rt_luid row \<noteq> rm_luid s \<and> m_address (rt_prefix data) \<in> addrs (rt_prefix row)" if "row \<in> set rows" for row
    using that assms(1,2) routeContainsDest_iff by (auto simp: assms(4) eligible_def)
  show ?thesis
  proof (cases "rows = []")
    case True
    then show ?thesis using best data' by (simp add: is_best_def)
  next
    case False
    then obtain row where "row \<in> set rows" "\<forall>r \<in> set rows. no_better s data r row" "br_nexthop b = rt_nextHop row"
      "br_luid b = (if m_prefixLength (rt_prefix row) = m_prefixLength (rt_prefix data) then 0 else rt_luid row)"
      using best unfolding is_best_def by auto
    then show ?thesis using False data' member by auto
  qed
qed

section \<open>Route capture\<close>
























text \<open>
  Ending an exclusion leaves route capture stale.  Although the monitor means to update the clones
  when an exclusion ends, whenever the routing table can be read the clones stay as they are, so a
  route that the exclusion has covered is not captured, and its traffic stays outside the tunnel
  until the next change of the routes.
\<close>

theorem ended_exclusion_not_captured:
  assumes "map_of (rm_exclusionRoutes s) prefix = Some data"
    "ih_table H (Some (rt_family data)) (snd (ih_delete H data (rm_system s))) \<noteq> None"
    "s' = snd (deleteExclusionRoute H special garbage prefix s)"
  shows "rm_clonedRoutes s' = rm_clonedRoutes s \<and> prefix \<notin> fst ` set (rm_exclusionRoutes s') \<and>
    rm_system s' = snd (ih_delete H data (rm_system s))"
  using assms by (auto simp: deleteExclusionRoute_def updateCapturedRoutes_family_def)

section \<open>A routing table\<close>

text \<open>A system that keeps its routes in a list, with one other interface.\<close>

definition list_helper :: "mib_row list ip_helper" where
  "list_helper = \<lparr>ih_table = (\<lambda>f r. Some (filter (\<lambda>row. concerns f (rt_family row)) r)),
     ih_interfaces = (\<lambda>f r. Some [\<lparr>if_luid = 5, if_family = IPv4Protocol, if_connected = True, if_metric = 10\<rparr>]),
     ih_create = (\<lambda>row r. (NO_ERROR, r @ [row])), ih_delete = (\<lambda>row r. (NO_ERROR, remove1 row r))\<rparr>"

definition demo_route :: "32 word \<Rightarrow> int \<Rightarrow> mib_row" where
  "demo_route addr len = \<lparr>rt_prefix = \<lparr>m_address = IPv4 addr, m_prefixLength = len\<rparr>, rt_luid = 5,
     rt_nextHop = \<lparr>sa_address = IPv4 0xC0A80101, sa_rest = 0\<rparr>,
     rt_protocol = 2, rt_metric = 1, rt_age = 0\<rparr>"

text \<open>A default route and a company network; the monitor captures, and excludes the company network.\<close>

definition demo_system :: "mib_row list" where
  "demo_system = [demo_route 0 0, demo_route 0xAC100000 16]"

definition demo_network :: ip_address where
  "demo_network = \<lparr>m_address = IPv4 0xAC100000, m_prefixLength = 12\<rparr>"

definition demo_monitor :: "mib_row list route_monitor" where
  "demo_monitor = routeChanged list_helper (\<lambda>a. False) (setDefaultRouteCapture list_helper True
     (snd (addExclusionRoute list_helper (\<lambda>a. False) demo_network (newRouteMonitor 9 demo_system))))"

lemma exclusion_route_best_witness:
  "let data' = fst (updateExclusionRoute list_helper demo_system (exclusion_row demo_network)
       (updateInterfaceMetrics list_helper None (newRouteMonitor 9 demo_system)))
   in rt_luid data' = 5 \<and> rt_nextHop data' = \<lparr>sa_address = IPv4 0xC0A80101, sa_rest = 0\<rparr>"
proof -
  let ?s = "updateInterfaceMetrics list_helper None (newRouteMonitor 9 demo_system)"
  let ?data = "exclusion_row demo_network"
  have wf: "\<forall>row \<in> set demo_system. wf_ip (rt_prefix row)" "wf_ip (rt_prefix ?data)"
    by (simp_all add: demo_system_def demo_route_def wf_ip_def exclusion_row_def demo_network_def)
  have rows: "filter (eligible ?s ?data) demo_system = [demo_route 0 0]"
    unfolding demo_system_def eligible_def by code_simp
  show ?thesis
    using exclusion_route_best [OF wf surjective_pairing refl, of list_helper ?s] unfolding rows
    by (simp add: Let_def demo_route_def exclusion_row_def demo_network_def)
qed


lemma ended_exclusion_not_captured_witness:
  "let s' = snd (deleteExclusionRoute list_helper (\<lambda>a. False) [] demo_network demo_monitor)
   in rm_clonedRoutes s' = rm_clonedRoutes demo_monitor \<and>
      rm_clonedRoutes (routeChanged list_helper (\<lambda>a. False) s') \<noteq> rm_clonedRoutes s'"
proof -
  let ?s' = "snd (deleteExclusionRoute list_helper (\<lambda>a. False) [] demo_network demo_monitor)"
  have "map_of (rm_exclusionRoutes demo_monitor) demo_network \<noteq> None" by code_simp
  then obtain data where d: "map_of (rm_exclusionRoutes demo_monitor) demo_network = Some data" by blast
  have "ih_table list_helper (Some (rt_family data)) (snd (ih_delete list_helper data (rm_system demo_monitor))) \<noteq> None"
    by (simp add: list_helper_def)
  note e = ended_exclusion_not_captured [OF d this refl, of "\<lambda>a. False" "[]"]
  have "map fst (rm_clonedRoutes (routeChanged list_helper (\<lambda>a. False) ?s')) \<noteq> map fst (rm_clonedRoutes ?s')" by code_simp
  then show ?thesis using e by (auto simp: Let_def)
qed

end
