(* ===== verification/WindowsSplitTunnel.thy ===== *)
theory WindowsSplitTunnel
  imports Chacha20 IPAddress
begin

text \<open>
  Model of \<^verbatim>\<open>src/platforms/windows/daemon/windowssplittunnel.cpp\<close>: the talk with the driver that keeps
  chosen applications outside the tunnel, and the blobs of bytes that tell it the applications, the
  running processes and the addresses.  The driver is a parameter.  Structures are laid out as on
  64-bit Windows: sizes and handles take eight bytes, and an entry that ends in a 16-bit length is
  padded to a multiple of eight.
\<close>

unbundle bit_operations_syntax

section \<open>Control codes and driver states\<close>

definition CTL_CODE :: "32 word \<Rightarrow> 32 word \<Rightarrow> 32 word \<Rightarrow> 32 word \<Rightarrow> 32 word" where
  "CTL_CODE device_type func method access =
     (push_bit 16 device_type OR push_bit 14 access OR push_bit 2 func OR method)"

definition FILE_ANY_ACCESS :: "32 word" where "FILE_ANY_ACCESS = 0"
definition METHOD_BUFFERED :: "32 word" where "METHOD_BUFFERED = 0"
definition METHOD_NEITHER :: "32 word" where "METHOD_NEITHER = 3"

definition IOCTL_INITIALIZE :: "32 word" where "IOCTL_INITIALIZE = CTL_CODE 0x8000 1 METHOD_NEITHER FILE_ANY_ACCESS"
definition IOCTL_REGISTER_PROCESSES :: "32 word" where "IOCTL_REGISTER_PROCESSES = CTL_CODE 0x8000 3 METHOD_BUFFERED FILE_ANY_ACCESS"
definition IOCTL_REGISTER_IP_ADDRESSES :: "32 word" where "IOCTL_REGISTER_IP_ADDRESSES = CTL_CODE 0x8000 4 METHOD_BUFFERED FILE_ANY_ACCESS"
definition IOCTL_SET_CONFIGURATION :: "32 word" where "IOCTL_SET_CONFIGURATION = CTL_CODE 0x8000 6 METHOD_BUFFERED FILE_ANY_ACCESS"
definition IOCTL_CLEAR_CONFIGURATION :: "32 word" where "IOCTL_CLEAR_CONFIGURATION = CTL_CODE 0x8000 8 METHOD_NEITHER FILE_ANY_ACCESS"
definition IOCTL_GET_STATE :: "32 word" where "IOCTL_GET_STATE = CTL_CODE 0x8000 9 METHOD_BUFFERED FILE_ANY_ACCESS"
definition IOCTL_ST_RESET :: "32 word" where "IOCTL_ST_RESET = CTL_CODE 0x8000 11 METHOD_NEITHER FILE_ANY_ACCESS"

definition STATE_UNKNOWN :: int where "STATE_UNKNOWN = - 1"
definition STATE_STARTED :: int where "STATE_STARTED = 1"
definition STATE_INITIALIZED :: int where "STATE_INITIALIZED = 2"
definition STATE_READY :: int where "STATE_READY = 3"
definition STATE_RUNNING :: int where "STATE_RUNNING = 4"

section \<open>Blobs\<close>

type_synonym wstring = "16 word list"

definition wide :: "wstring \<Rightarrow> bytes" where
  "wide ws = concat (map (\<lambda>c. to_le 2 (uint c)) ws)"

text \<open>An entry of the configuration: the offset of the name, its length as a 16-bit number, and padding.\<close>

definition config_entry :: "nat \<Rightarrow> nat \<Rightarrow> bytes" where
  "config_entry off len = to_le 8 (int off) @ to_le 2 (int len) @ replicate 6 0"

fun config_entries :: "nat \<Rightarrow> wstring list \<Rightarrow> bytes" where
  "config_entries off [] = []"
| "config_entries off (p # ps) = config_entry off (length (wide p)) @ config_entries (off + length (wide p)) ps"

definition blob_header :: "nat \<Rightarrow> nat \<Rightarrow> bytes" where
  "blob_header n len = to_le 8 (int n) @ to_le 8 (int len)"

text \<open>\<^verbatim>\<open>generateAppConfiguration\<close>, of the converted paths.\<close>

definition generateAppConfiguration :: "wstring list \<Rightarrow> bytes" where
  "generateAppConfiguration dosPaths =
    (let strings = concat (map wide dosPaths); bufferSize = 16 + 16 * length dosPaths + length strings
     in blob_header (length dosPaths) bufferSize @ config_entries 0 dosPaths @ strings)"

text \<open>A process: its id, that of its parent, and the device path of its image, empty if unknown.\<close>

type_synonym process_info = "32 word \<times> 32 word \<times> wstring"

definition process_entry :: "nat \<Rightarrow> process_info \<Rightarrow> bytes" where
  "process_entry off p =
    (case p of (pid, parent, path) \<Rightarrow>
       to_le 8 (uint pid) @ to_le 8 (uint parent) @
       (if path = [] then to_le 8 0 @ to_le 2 0 else to_le 8 (int off) @ to_le 2 (int (length (wide path)))) @ replicate 6 0)"

fun process_entries :: "nat \<Rightarrow> process_info list \<Rightarrow> bytes" where
  "process_entries off [] = []"
| "process_entries off (p # ps) = process_entry off p @ process_entries (off + length (wide (snd (snd p)))) ps"

text \<open>\<^verbatim>\<open>QMap::insert\<close> of the snapshot in turn: ordered by the id, the last of two with one id stays.\<close>

definition process_map :: "process_info list \<Rightarrow> process_info list" where
  "process_map snapshot =
    (let ids = sorted_list_of_set (fst ` set snapshot)
     in map (\<lambda>i. last (filter (\<lambda>p. fst p = i) snapshot)) ids)"

definition generateProcessBlob :: "process_info list option \<Rightarrow> bytes" where
  "generateProcessBlob snapshot =
    (case snapshot of None \<Rightarrow> []
     | Some procs \<Rightarrow>
         let processes = process_map procs; strings = concat (map (\<lambda>p. wide (snd (snd p))) processes)
         in if processes = [] then []
            else blob_header (length processes) (16 + 32 * length processes + length strings) @
              process_entries 0 processes @ strings)"

text \<open>
  The addresses of an adapter, in network order: none without an IPv4 address, zeros without an IPv6
  one.  An address comes with whether the system's parser, unlike Qt, accepts its text.
\<close>

definition getAddress :: "(host_address \<times> bool) list \<Rightarrow> (bytes \<times> bytes) option" where
  "getAddress entries =
    (case find (\<lambda>a. protocol_of (fst a) = IPv4Protocol) entries of
       Some (IPv4 w, True) \<Rightarrow>
         (case find (\<lambda>a. protocol_of (fst a) = IPv6Protocol) entries of
            None \<Rightarrow> Some (rev (to_le 4 (uint w)), replicate 16 0)
          | Some (IPv6 bs, True) \<Rightarrow> Some (rev (to_le 4 (uint w)), bs)
          | _ \<Rightarrow> None)
     | _ \<Rightarrow> None)"

definition generateIPConfiguration :: "(int \<Rightarrow> (host_address \<times> bool) list) \<Rightarrow> int \<Rightarrow> int \<Rightarrow> bytes" where
  "generateIPConfiguration addresses vpn inetAdapterIndex =
    (case getAddress (addresses vpn) of None \<Rightarrow> []
     | Some (tunnel4, tunnel6) \<Rightarrow>
         (case getAddress (addresses inetAdapterIndex) of None \<Rightarrow> []
          | Some (inet4, inet6) \<Rightarrow> tunnel4 @ inet4 @ tunnel6 @ inet6))"

section \<open>The driver\<close>

text \<open>
  The driver's control call with its success, the reply to the state query (none if it fails or is
  empty), and what the code asks the system: the snapshot of the processes, the device of a drive,
  the addresses of an adapter, and the index of the tunnel.
\<close>

record 'd st_driver =
  sd_ioctl :: "32 word \<Rightarrow> bytes \<Rightarrow> 'd \<Rightarrow> bool \<times> 'd"
  sd_state :: "'d \<Rightarrow> int option"
  sd_snapshot :: "'d \<Rightarrow> process_info list option"
  sd_device :: "wstring \<Rightarrow> wstring option"
  sd_addresses :: "int \<Rightarrow> (host_address \<times> bool) list"
  sd_vpnAdapter :: int

definition getState :: "'d st_driver \<Rightarrow> 'd \<Rightarrow> int" where
  "getState D d = (case sd_state D d of None \<Rightarrow> STATE_UNKNOWN | Some s \<Rightarrow> s)"

definition resetDriver :: "'d st_driver \<Rightarrow> 'd \<Rightarrow> bool \<times> 'd" where
  "resetDriver D = sd_ioctl D IOCTL_ST_RESET []"

definition initDriver :: "'d st_driver \<Rightarrow> 'd \<Rightarrow> bool \<times> 'd" where
  "initDriver D d =
    (let state = getState D d
     in if state = STATE_UNKNOWN then (False, d)
        else let d1 = (if state \<ge> STATE_INITIALIZED then snd (resetDriver D d) else d)
             in if state \<ge> STATE_INITIALIZED \<and> getState D d1 \<ge> STATE_INITIALIZED then (False, d1)
                else sd_ioctl D IOCTL_INITIALIZE [] d1)"

text \<open>\<^verbatim>\<open>convertPath\<close>: the drive is replaced by its device, slashes become backslashes; else nothing.\<close>

fun split_path :: "'a \<Rightarrow> 'a list \<Rightarrow> 'a list list" where
  "split_path c [] = [[]]"
| "split_path c (x # xs) =
    (if x = c then [] # split_path c xs else case split_path c xs of [] \<Rightarrow> [[x]] | p # ps \<Rightarrow> (x # p) # ps)"

fun join_with :: "'a \<Rightarrow> 'a list list \<Rightarrow> 'a list" where
  "join_with c [] = []"
| "join_with c [p] = p"
| "join_with c (p # ps) = p @ c # join_with c ps"

definition convertPath :: "'d st_driver \<Rightarrow> wstring \<Rightarrow> wstring" where
  "convertPath D path =
    (case split_path 0x2F path of [] \<Rightarrow> []
     | driveLetter # parts \<Rightarrow>
         if (0x3A :: 16 word) \<notin> set driveLetter \<or> parts = [] then []
         else case sd_device D driveLetter of None \<Rightarrow> [] | Some deviceName \<Rightarrow> join_with 0x5C (deviceName # parts))"

definition excludeApps :: "'d st_driver \<Rightarrow> wstring list \<Rightarrow> 'd \<Rightarrow> bool \<times> 'd" where
  "excludeApps D appPaths d =
    (if getState D d \<noteq> STATE_READY \<and> getState D d \<noteq> STATE_RUNNING then (False, d)
     else sd_ioctl D IOCTL_SET_CONFIGURATION (generateAppConfiguration (map (convertPath D) appPaths)) d)"

definition st_start :: "'d st_driver \<Rightarrow> int \<Rightarrow> 'd \<Rightarrow> bool \<times> 'd" where
  "st_start D inetAdapterIndex d =
    (let (ok, d1) = (if getState D d = STATE_STARTED then sd_ioctl D IOCTL_INITIALIZE [] d else (True, d))
     in if \<not> ok then (False, d1)
        else let (ok, d2) = (if getState D d1 = STATE_INITIALIZED
                             then sd_ioctl D IOCTL_REGISTER_PROCESSES (generateProcessBlob (sd_snapshot D d1)) d1 else (True, d1))
             in if \<not> ok then (False, d2)
                else if getState D d2 = STATE_INITIALIZED then (False, d2)
                else let config = generateIPConfiguration (sd_addresses D) (sd_vpnAdapter D) inetAdapterIndex
                     in if config = [] then (False, d2) else sd_ioctl D IOCTL_REGISTER_IP_ADDRESSES config d2)"

definition st_stop :: "'d st_driver \<Rightarrow> 'd \<Rightarrow> 'd" where
  "st_stop D d = snd (sd_ioctl D IOCTL_CLEAR_CONFIGURATION [] d)"

definition st_isRunning :: "'d st_driver \<Rightarrow> 'd \<Rightarrow> bool" where
  "st_isRunning D d = (getState D d = STATE_RUNNING)"

section \<open>Reading the blobs\<close>

text \<open>
  A reader of the layout that the structures describe: the offsets count from the end of the
  entries.
\<close>

definition field :: "nat \<Rightarrow> nat \<Rightarrow> bytes \<Rightarrow> nat" where
  "field off n bs = nat (le_num (take n (drop off bs)))"

definition readAppConfiguration :: "bytes \<Rightarrow> bytes list option" where
  "readAppConfiguration blob =
    (let n = field 0 8 blob; base = 16 + 16 * n
     in if field 8 8 blob \<noteq> length blob \<or> length blob < base then None
        else Some (map (\<lambda>i. let entry = drop (16 + 16 * i) blob
                            in take (field 8 2 entry) (drop (base + field 0 8 entry) blob)) [0..<n]))"

definition readProcessBlob :: "bytes \<Rightarrow> (nat \<times> nat \<times> bytes) list option" where
  "readProcessBlob blob =
    (let n = field 0 8 blob; base = 16 + 32 * n
     in if field 8 8 blob \<noteq> length blob \<or> length blob < base then None
        else Some (map (\<lambda>i. let entry = drop (16 + 32 * i) blob
                            in (field 0 8 entry, field 8 8 entry, take (field 24 2 entry) (drop (base + field 16 8 entry) blob))) [0..<n]))"

lemma field_to_le:
  "0 \<le> x \<Longrightarrow> x < 256 ^ n \<Longrightarrow> field (length pre) n (pre @ to_le n x @ post) = nat x"
  by (simp add: field_def le_num_to_le)

lemma field_nat: "x < 256 ^ n \<Longrightarrow> length pre = off \<Longrightarrow> field off n (pre @ to_le n (int x) @ post) = x"
proof -
  assume "x < 256 ^ n" and off: "length pre = off"
  then have "int x < int (256 ^ n)" by (simp only: of_nat_less_iff)
  then have "int x < 256 ^ n" by simp
  from field_to_le [OF _ this] off show ?thesis by auto
qed

lemma length_concat_blocks: "\<forall>b \<in> set bs. length b = k \<Longrightarrow> length (concat bs) = k * length bs"
  by (induction bs) auto

lemma concat_slice:
  "i < length ws \<Longrightarrow> take (length (ws ! i)) (drop (length (concat (take i ws))) (concat ws)) = ws ! i"
proof -
  assume i: "i < length ws"
  have "concat ws = concat (take i ws) @ ws ! i @ concat (drop (Suc i) ws)"
    by (metis append_take_drop_id concat.simps(2) concat_append Cons_nth_drop_Suc i)
  then show ?thesis by (metis append_eq_conv_conj drop_append diff_self_eq_0 drop0 drop_all le_refl self_append_conv2)
qed

lemma concat_blocks:
  assumes "\<forall>b \<in> set bs. length b = k" "i < length bs"
  shows "drop (k * i) (concat bs) = bs ! i @ concat (drop (Suc i) bs)"
proof -
  have "length (concat (take i bs)) = k * i"
    using assms by (induction i) (auto simp: take_Suc_conv_app_nth)
  moreover have "concat bs = concat (take i bs) @ bs ! i @ concat (drop (Suc i) bs)"
    by (metis append_take_drop_id concat.simps(2) concat_append Cons_nth_drop_Suc assms(2))
  ultimately show ?thesis by (metis append_eq_conv_conj)
qed

lemma entries_blocks:
  "config_entries off ps = concat (map (\<lambda>i. config_entry (off + length (concat (map wide (take i ps)))) (length (wide (ps ! i)))) [0..<length ps])"
  "process_entries off qs = concat (map (\<lambda>i. process_entry (off + length (concat (map (\<lambda>p. wide (snd (snd p))) (take i qs)))) (qs ! i)) [0..<length qs])"
proof -
  show "config_entries off ps = concat (map (\<lambda>i. config_entry (off + length (concat (map wide (take i ps)))) (length (wide (ps ! i)))) [0..<length ps])"
    by (induction ps arbitrary: off) (simp_all add: upt_conv_Cons map_Suc_upt [symmetric] add.assoc comp_def del: upt_Suc)
  show "process_entries off qs = concat (map (\<lambda>i. process_entry (off + length (concat (map (\<lambda>p. wide (snd (snd p))) (take i qs)))) (qs ! i)) [0..<length qs])"
    by (induction qs arbitrary: off) (simp_all add: upt_conv_Cons map_Suc_upt [symmetric] add.assoc comp_def del: upt_Suc)
qed

lemma length_entry: "length (config_entry off len) = 16" "length (process_entry off p) = 32"
  by (auto simp: config_entry_def process_entry_def split: prod.split)

text \<open>A blob of a header, entries of one size and strings: what is found at each place.\<close>

lemma blob_places:
  assumes bs: "\<forall>b \<in> set bs. length b = k" "length bs = n" "0 < k" and total: "16 + k * n + length strings < 256 ^ 8"
    and blob: "blob = blob_header n (16 + k * n + length strings) @ concat bs @ strings"
  shows "field 0 8 blob = n" "field 8 8 blob = length blob" "length blob = 16 + k * n + length strings"
    "i < n \<Longrightarrow> \<exists>rest. drop (16 + k * i) blob = bs ! i @ rest" "drop (16 + k * n + off) blob = drop off strings"
proof -
  have len: "length (concat bs) = k * n"
    using length_concat_blocks [OF bs(1)] bs(2) by simp
  show l: "length blob = 16 + k * n + length strings" using len by (simp add: blob blob_header_def)
  have "n \<le> k * n" using bs(3) by simp
  then have "n < 256 ^ 8" using total by linarith
  then show "field 0 8 blob = n"
    using field_nat [of n 8 "[]" 0 "to_le 8 (int (16 + k * n + length strings)) @ concat bs @ strings"]
    by (simp add: blob blob_header_def)
  show "field 8 8 blob = length blob"
    unfolding l using field_nat [OF total, of "to_le 8 (int n)" 8 "concat bs @ strings"]
    by (simp add: blob blob_header_def del: of_nat_add of_nat_mult)
  show "\<exists>rest. drop (16 + k * i) blob = bs ! i @ rest" if "i < n"
  proof -
    have "drop (k * i) (concat bs) = bs ! i @ concat (drop (Suc i) bs)" using concat_blocks [OF bs(1)] that bs(2) by simp
    moreover have "k * i \<le> length (concat bs)" using len that by simp
    ultimately have "drop (16 + k * i) blob = bs ! i @ concat (drop (Suc i) bs) @ strings"
      by (simp add: blob blob_header_def)
    then show ?thesis by blast
  qed
  show "drop (16 + k * n + off) blob = drop off strings" using len by (simp add: blob blob_header_def)
qed

text \<open>The longest path that the 16-bit length of an entry can hold.\<close>

definition fits :: "wstring \<Rightarrow> bool" where
  "fits p \<longleftrightarrow> length (wide p) < 65536"

lemma name_place:
  assumes "i < length ps" "off = length (concat (map wide (take i ps)))"
  shows "take (length (wide (ps ! i))) (drop off (concat (map wide ps))) = wide (ps ! i)"
    "off \<le> length (concat (map wide ps))"
proof -
  show "take (length (wide (ps ! i))) (drop off (concat (map wide ps))) = wide (ps ! i)"
    using concat_slice [of i "map wide ps"] assms by (simp add: take_map)
  have "concat (map wide ps) = concat (map wide (take i ps)) @ concat (map wide (drop i ps))"
    by (metis append_take_drop_id concat_append map_append)
  then show "off \<le> length (concat (map wide ps))" using assms(2) by simp
qed

text \<open>
  C39: The driver reads the applications as they are configured.  For any paths that fit the 16-bit
  length of an entry and a blob below 256^8 bytes, reading the blob of \<^verbatim>\<open>generateAppConfiguration\<close>
  by its own layout gives exactly the names, in order.
\<close>

theorem app_configuration_roundtrip:
  assumes "list_all fits paths" "length (generateAppConfiguration paths) < 256 ^ 8"
  shows "readAppConfiguration (generateAppConfiguration paths) = Some (map wide paths)"
proof -
  define blob where "blob = generateAppConfiguration paths"
  define strings where "strings = concat (map wide paths)"
  define off where "off i = length (concat (map wide (take i paths)))" for i
  define bs where "bs = map (\<lambda>i. config_entry (off i) (length (wide (paths ! i)))) [0..<length paths]"
  have bs: "\<forall>b \<in> set bs. length b = 16" "length bs = length paths" by (auto simp: bs_def length_entry)
  have blob: "blob = blob_header (length paths) (16 + 16 * length paths + length strings) @ concat bs @ strings"
    by (simp add: blob_def generateAppConfiguration_def strings_def bs_def off_def entries_blocks(1) Let_def)
  moreover have "length (concat bs) = 16 * length paths" using length_concat_blocks [OF bs(1)] bs(2) by simp
  ultimately have total: "16 + 16 * length paths + length strings < 256 ^ 8"
    using assms(2) by (simp add: blob_def [symmetric] blob_header_def)
  note places = blob_places [OF bs _ total blob, simplified]
  have entry: "(let entry = drop (16 + 16 * i) blob in take (field 8 2 entry) (drop (16 + 16 * length paths + field 0 8 entry) blob)) =
      wide (paths ! i)" if i: "i < length paths" for i
  proof -
    obtain rest where "drop (16 + 16 * i) blob = bs ! i @ rest" using places(4) [OF i] by auto
    then have e: "drop (16 + 16 * i) blob = config_entry (off i) (length (wide (paths ! i))) @ rest" using i by (simp add: bs_def)
    have "off i \<le> length strings" using name_place(2) [OF i] by (simp add: off_def strings_def)
    then have "off i < 256 ^ 8" using total by linarith
    then have f1: "field 0 8 (config_entry (off i) (length (wide (paths ! i))) @ rest) = off i"
      using field_nat [of "off i" 8 "[]" 0] by (simp add: config_entry_def)
    have "length (wide (paths ! i)) < 65536" using assms(1) i by (simp add: list_all_length fits_def)
    then have f2: "field 8 2 (config_entry (off i) (length (wide (paths ! i))) @ rest) = length (wide (paths ! i))"
      using field_nat [of "length (wide (paths ! i))" 2 "to_le 8 (int (off i))" 8 "replicate 6 0 @ rest"] by (simp add: config_entry_def)
    show ?thesis
      unfolding Let_def e f1 f2 places(5) unfolding strings_def off_def by (rule name_place(1) [OF i refl])
  qed
  have "readAppConfiguration blob = Some (map (\<lambda>i. wide (paths ! i)) [0..<length paths])"
    using places(1-3) entry by (simp add: readAppConfiguration_def Let_def)
  also have "map (\<lambda>i. wide (paths ! i)) [0..<length paths] = map wide paths" by (rule nth_equalityI) simp_all
  finally show ?thesis by (simp add: blob_def)
qed

lemma app_configuration_roundtrip_witness:
  "readAppConfiguration (generateAppConfiguration [[0x5C, 0x44], [], [0x100]]) = Some (map wide [[0x5C, 0x44], [], [0x100]])"
proof -
  have "list_all fits [[0x5C, 0x44], [], [0x100]]" by (simp add: fits_def wide_def)
  moreover have "length (generateAppConfiguration [[0x5C, 0x44], [], [0x100]]) < 256 ^ 8"
    by (simp add: generateAppConfiguration_def wide_def blob_header_def Let_def length_entry)
  ultimately show ?thesis by (rule app_configuration_roundtrip)
qed

lemma process_blob_roundtrip:
  assumes "process_map snapshot \<noteq> []" "list_all (\<lambda>p. fits (snd (snd p))) (process_map snapshot)"
    "length (generateProcessBlob (Some snapshot)) < 256 ^ 8"
  shows "readProcessBlob (generateProcessBlob (Some snapshot)) =
    Some (map (\<lambda>(pid, parent, path). (unat pid, unat parent, wide path)) (process_map snapshot))"
proof -
  define qs where "qs = process_map snapshot"
  define blob where "blob = generateProcessBlob (Some snapshot)"
  define paths where "paths = map (\<lambda>p. snd (snd p)) qs"
  define strings where "strings = concat (map wide paths)"
  define off where "off i = length (concat (map wide (take i paths)))" for i
  define bs where "bs = map (\<lambda>i. process_entry (off i) (qs ! i)) [0..<length qs]"
  have bs: "\<forall>b \<in> set bs. length b = 32" "length bs = length qs" by (auto simp: bs_def length_entry)
  have blob: "blob = blob_header (length qs) (16 + 32 * length qs + length strings) @ concat bs @ strings"
    using assms(1) by (simp add: blob_def generateProcessBlob_def strings_def bs_def off_def paths_def entries_blocks(2) Let_def
        qs_def [symmetric] take_map comp_def)
  moreover have "length (concat bs) = 32 * length qs" using length_concat_blocks [OF bs(1)] bs(2) by simp
  ultimately have total: "16 + 32 * length qs + length strings < 256 ^ 8"
    using assms(3) by (simp add: blob_def [symmetric] blob_header_def)
  note places = blob_places [OF bs _ total blob, simplified]
  have entry: "(let entry = drop (16 + 32 * i) blob
        in (field 0 8 entry, field 8 8 entry, take (field 24 2 entry) (drop (16 + 32 * length qs + field 16 8 entry) blob))) =
      (case qs ! i of (pid, parent, path) \<Rightarrow> (unat pid, unat parent, wide path))" if i: "i < length qs" for i
  proof -
    obtain pid parent path where q: "qs ! i = (pid, parent, path)" by (cases "qs ! i")
    then have path: "paths ! i = path" "i < length paths" using i by (simp_all add: paths_def)
    obtain rest where "drop (16 + 32 * i) blob = bs ! i @ rest" using places(4) [OF i] by auto
    then have e: "drop (16 + 32 * i) blob = process_entry (off i) (pid, parent, path) @ rest" using i q by (simp add: bs_def)
    have ids: "int (unat w) = uint w" "unat w < 256 ^ 8" for w :: "32 word"
      using unsigned_less [of w, where 'a = nat] by simp_all
    define o_len where "o_len = (if path = [] then (0, 0) else (off i, length (wide path)))"
    have pe: "process_entry (off i) (pid, parent, path) =
        to_le 8 (int (unat pid)) @ to_le 8 (int (unat parent)) @ to_le 8 (int (fst o_len)) @ to_le 2 (int (snd o_len)) @ replicate 6 0"
      by (simp add: process_entry_def o_len_def ids(1) wide_def)
    have le: "off i \<le> length strings" using name_place(2) [OF path(2)] by (simp add: off_def strings_def)
    then have "off i < 256 ^ 8" using total by linarith
    then have o_less: "fst o_len < 256 ^ 8" by (simp add: o_len_def)
    have "fits (snd (snd (qs ! i)))" using assms(2) i by (simp add: list_all_length qs_def)
    then have "length (wide path) < 65536" by (simp add: q fits_def)
    then have l_less: "snd o_len < 256 ^ 2" by (simp add: o_len_def)
    have f: "field 0 8 (process_entry (off i) (pid, parent, path) @ rest) = unat pid"
      "field 8 8 (process_entry (off i) (pid, parent, path) @ rest) = unat parent"
      "field 16 8 (process_entry (off i) (pid, parent, path) @ rest) = fst o_len"
      "field 24 2 (process_entry (off i) (pid, parent, path) @ rest) = snd o_len"
      unfolding pe
      using field_nat [OF ids(2) [of pid], of "[]" 0] field_nat [OF ids(2) [of parent], of "to_le 8 (int (unat pid))" 8]
        field_nat [OF o_less, of "to_le 8 (int (unat pid)) @ to_le 8 (int (unat parent))" 16]
        field_nat [OF l_less, of "to_le 8 (int (unat pid)) @ to_le 8 (int (unat parent)) @ to_le 8 (int (fst o_len))" 24]
      by simp_all
    have "take (snd o_len) (drop (fst o_len) strings) = wide path"
      using name_place(1) [OF path(2) refl] path(1) by (auto simp: o_len_def off_def strings_def wide_def)
    then show ?thesis unfolding Let_def e f places(5) q by simp
  qed
  have "readProcessBlob blob = Some (map (\<lambda>i. case qs ! i of (pid, parent, path) \<Rightarrow> (unat pid, unat parent, wide path)) [0..<length qs])"
    using places(1-3) entry by (simp add: readProcessBlob_def Let_def)
  also have "map (\<lambda>i. case qs ! i of (pid, parent, path) \<Rightarrow> (unat pid, unat parent, wide path)) [0..<length qs] =
      map (\<lambda>(pid, parent, path). (unat pid, unat parent, wide path)) qs" by (rule nth_equalityI) simp_all
  finally show ?thesis by (simp add: blob_def qs_def)
qed

end
