(* ===== verification/WindowsDaemon.thy ===== *)
theory WindowsDaemon
  imports KillSwitch WindowsRouteMonitor WindowsSplitTunnel
begin

text \<open>
  Model of \<^verbatim>\<open>src/platforms/windows/daemon/wireguardutilswindows.cpp\<close> and \<^verbatim>\<open>windowsdaemon.cpp\<close>: the
  backend of the daemon on Windows, which drives the WireGuard library, the firewall, the route
  monitor and the split tunnel.  The library and the rest of the system are a parameter; the
  resolvers of \<^verbatim>\<open>dnsutilswindows.cpp\<close> belong to it.
\<close>

section \<open>State\<close>

text \<open>A peer in the answer of the library: keepalive period, whether its key is set, key, last handshake, bytes.\<close>

record nt_peer =
  np_keepalive :: nat
  np_hasKey :: bool
  np_publicKey :: bytes
  np_lastHandshake :: int
  np_rxBytes :: int
  np_txBytes :: int

definition WG_KEEPALIVE_PERIOD :: nat where "WG_KEEPALIVE_PERIOD = 60"

text \<open>
  The calls on the system: adapters of the library, named by their interface id, private key, peers
  and configuration; addresses of an adapter; resolvers; Qt's parsers and base64; the index of an
  adapter and of the one that routes to an address.  A handle 0 of an address is a failure.
\<close>

record ('w, 'e, 'r) win_api =
  wa_wfp :: "'e wfp"
  wa_ip :: "'r ip_helper"
  wa_special :: "host_address \<Rightarrow> bool"
  wa_garbage :: "mib_row list"
  wa_splitTunnel :: "'w st_driver option"
  wa_parseHost :: "string \<Rightarrow> host_address"
  wa_parseSubnet :: "string \<Rightarrow> host_address \<times> int"
  wa_isIPv4 :: "string \<Rightarrow> bool"
  wa_fromBase64 :: "string \<Rightarrow> bytes"
  wa_toBase64 :: "bytes \<Rightarrow> string"
  wa_createAdapter :: "'w \<Rightarrow> nat option \<times> 'w"
  wa_closeAdapter :: "'w \<Rightarrow> 'w"
  wa_setPrivateKey :: "bytes \<Rightarrow> 'w \<Rightarrow> bool \<times> 'w"
  wa_setAdapterState :: "bool \<Rightarrow> 'w \<Rightarrow> bool \<times> 'w"
  wa_setPeer :: "bytes \<Rightarrow> string \<Rightarrow> int \<Rightarrow> 'w \<Rightarrow> bool \<times> 'w"
  wa_removePeer :: "bytes \<Rightarrow> 'w \<Rightarrow> bool \<times> 'w"
  wa_getConfiguration :: "'w \<Rightarrow> nt_peer list option"
  wa_ifIndex :: "nat \<Rightarrow> int"
  wa_addIPAddress :: "host_address \<Rightarrow> host_address \<Rightarrow> 'w \<Rightarrow> nat \<times> 'w"
  wa_createUnicast :: "host_address \<Rightarrow> int \<Rightarrow> 'w \<Rightarrow> bool \<times> 'w"
  wa_deleteIPAddress :: "nat \<Rightarrow> 'w \<Rightarrow> 'w"
  wa_updateResolvers :: "host_address list \<Rightarrow> 'w \<Rightarrow> bool \<times> 'w"
  wa_restoreResolvers :: "'w \<Rightarrow> bool \<times> 'w"
  wa_adapterIndexTo :: "host_address \<Rightarrow> int"

datatype split_error = SplitTunnelInitFailure | SplitTunnelStartFailure | SplitTunnelExcludeFailure

text \<open>
  \<^verbatim>\<open>m_routeMonitor\<close> is a guarded pointer: a monitor on which \<^verbatim>\<open>deleteLater\<close> was called stays until
  the event loop runs, also when the pointer has moved on to a new one.  \<open>wn_overflow\<close> records that
  a key was copied past the end of its array of 32 bytes.
\<close>

record ('w, 'e, 'r) win_backend =
  wn_world :: 'w
  wn_firewall :: "'e firewall"
  wn_routes :: 'r
  wn_monitor :: "'r route_monitor option"
  wn_monitorDoomed :: bool
  wn_doomed :: "'r route_monitor list"
  wn_luid :: nat
  wn_adapter :: bool
  wn_ipv4Handle :: nat
  wn_inetAdapter :: int
  wn_overflow :: bool
  wn_failures :: "split_error list"

text \<open>Calls on the parts of the state.\<close>

definition on_world :: "('w \<Rightarrow> bool \<times> 'w) \<Rightarrow> ('w, 'e, 'r) win_backend \<Rightarrow> bool \<times> ('w, 'e, 'r) win_backend" where
  "on_world f s = (let (ok, w) = f (wn_world s) in (ok, s\<lparr>wn_world := w\<rparr>))"

definition on_firewall :: "('e firewall \<Rightarrow> bool \<times> 'e firewall) \<Rightarrow> ('w, 'e, 'r) win_backend \<Rightarrow> bool \<times> ('w, 'e, 'r) win_backend" where
  "on_firewall f s = (let (ok, fw) = f (wn_firewall s) in (ok, s\<lparr>wn_firewall := fw\<rparr>))"

text \<open>A call on the monitor, if there is one, which works on the current routing table.\<close>

definition on_monitor ::
    "('r route_monitor \<Rightarrow> bool \<times> 'r route_monitor) \<Rightarrow> ('w, 'e, 'r) win_backend \<Rightarrow> bool \<times> ('w, 'e, 'r) win_backend" where
  "on_monitor f s =
    (case wn_monitor s of None \<Rightarrow> (True, s)
     | Some m \<Rightarrow> let (ok, m') = f (m\<lparr>rm_system := wn_routes s\<rparr>)
                 in (ok, s\<lparr>wn_monitor := Some m', wn_routes := rm_system m'\<rparr>))"

section \<open>Interfaces\<close>

text \<open>\<^verbatim>\<open>std::copy\<close> of a decoded key into an array of 32 zero bytes.\<close>

definition copy_key :: "bytes \<Rightarrow> bytes" where
  "copy_key key = take 32 key @ replicate (32 - length key) 0"

definition key_overflows :: "bytes \<Rightarrow> bool" where
  "key_overflows key = (length key > 32)"

definition set_private_key ::
    "('w, 'e, 'r) win_api \<Rightarrow> interface_config \<Rightarrow> ('w, 'e, 'r) win_backend \<Rightarrow> bool \<times> ('w, 'e, 'r) win_backend" where
  "set_private_key A config s =
    (let key = wa_fromBase64 A (qchars (ic_privateKey config))
     in on_world (wa_setPrivateKey A (copy_key key)) (s\<lparr>wn_overflow := wn_overflow s \<or> key_overflows key\<rparr>))"

definition ip_of_string :: "('w, 'e, 'r) win_api \<Rightarrow> string \<Rightarrow> ip_address" where
  "ip_of_string A = IPAddress_of_string (wa_parseSubnet A) (wa_parseHost A)"

definition setIPv4AddressAndMask ::
    "('w, 'e, 'r) win_api \<Rightarrow> interface_config \<Rightarrow> ('w, 'e, 'r) win_backend \<Rightarrow> bool \<times> ('w, 'e, 'r) win_backend" where
  "setIPv4AddressAndMask A config s =
    (let ip = ip_of_string A (qchars (ic_deviceIpv4Address config));
         (nteContext, w) = (if protocol_of (m_address ip) = IPv4Protocol
                            then wa_addIPAddress A (m_address ip) (netmask ip) (wn_world s) else (0, wn_world s))
     in (nteContext \<noteq> 0, s\<lparr>wn_world := w, wn_ipv4Handle := nteContext\<rparr>))"

definition setIPv6AddressAndMask ::
    "('w, 'e, 'r) win_api \<Rightarrow> interface_config \<Rightarrow> ('w, 'e, 'r) win_backend \<Rightarrow> bool \<times> ('w, 'e, 'r) win_backend" where
  "setIPv6AddressAndMask A config s =
    (let ip = ip_of_string A (qchars (ic_deviceIpv6Address config))
     in if protocol_of (m_address ip) = IPv6Protocol
        then on_world (wa_createUnicast A (m_address ip) (m_prefixLength ip)) s else (False, s))"

definition enable_firewall ::
    "('w, 'e, 'r) win_api \<Rightarrow> nat \<Rightarrow> ('w, 'e, 'r) win_backend \<Rightarrow> bool \<times> ('w, 'e, 'r) win_backend" where
  "enable_firewall A luid s =
    (let (ok, s1) = on_firewall (enableInterface (wa_wfp A) (wa_ifIndex A luid)) s
     in if ok then (True, s1) else (False, snd (on_firewall (disableKillSwitch (wa_wfp A)) s1)))"

text \<open>A new monitor; the pointer leaves a deleted one to the event loop.\<close>

definition new_monitor :: "nat \<Rightarrow> ('w, 'e, 'r) win_backend \<Rightarrow> ('w, 'e, 'r) win_backend" where
  "new_monitor luid s =
     s\<lparr>wn_luid := luid, wn_monitor := Some (newRouteMonitor luid (wn_routes s)), wn_monitorDoomed := False,
       wn_doomed := wn_doomed s @ (if wn_monitorDoomed s then case wn_monitor s of None \<Rightarrow> [] | Some m \<Rightarrow> [m] else [])\<rparr>"

definition close_adapter :: "('w, 'e, 'r) win_api \<Rightarrow> ('w, 'e, 'r) win_backend \<Rightarrow> ('w, 'e, 'r) win_backend" where
  "close_adapter A s = s\<lparr>wn_world := wa_closeAdapter A (wn_world s)\<rparr>"

definition win_addInterface ::
    "('w, 'e, 'r) win_api \<Rightarrow> interface_config \<Rightarrow> ('w, 'e, 'r) win_backend \<Rightarrow> bool \<times> ('w, 'e, 'r) win_backend" where
  "win_addInterface A config s =
    (case wa_createAdapter A (wn_world s) of
       (None, w) \<Rightarrow> (False, s\<lparr>wn_world := w\<rparr>)
     | (Some luid, w) \<Rightarrow>
         let (ok, s1) = try_all [set_private_key A config, on_world (wa_setAdapterState A True)] (s\<lparr>wn_world := w\<rparr>)
         in if \<not> ok then (False, close_adapter A s1)
            else let (ok, s2) = try_all [setIPv4AddressAndMask A config, setIPv6AddressAndMask A config, enable_firewall A luid]
                        (new_monitor luid s1)
                 in if \<not> ok then (False, close_adapter A (s2\<lparr>wn_monitorDoomed := True\<rparr>))
                    else (True, s2\<lparr>wn_adapter := True\<rparr>))"

definition win_deleteInterface ::
    "('w, 'e, 'r) win_api \<Rightarrow> ('w, 'e, 'r) win_backend \<Rightarrow> bool \<times> ('w, 'e, 'r) win_backend" where
  "win_deleteInterface A s =
    (if \<not> wn_adapter s then (False, s)
     else let s1 = (if wn_monitor s \<noteq> None then s\<lparr>wn_monitorDoomed := True\<rparr> else s);
              s2 = (if wn_ipv4Handle s1 \<noteq> 0 then s1\<lparr>wn_world := wa_deleteIPAddress A (wn_ipv4Handle s1) (wn_world s1)\<rparr> else s1);
              s3 = snd (on_firewall (disableKillSwitch (wa_wfp A)) s2);
              s4 = snd (on_world (wa_setAdapterState A False) s3)
          in (True, (close_adapter A s4)\<lparr>wn_adapter := False\<rparr>))"

text \<open>What the event loop then does: the deleted monitors remove their routes.\<close>

definition win_eventLoop :: "('w, 'e, 'r) win_api \<Rightarrow> ('w, 'e, 'r) win_backend \<Rightarrow> ('w, 'e, 'r) win_backend" where
  "win_eventLoop A s =
    (let gone = wn_doomed s @ (if wn_monitorDoomed s then case wn_monitor s of None \<Rightarrow> [] | Some m \<Rightarrow> [m] else [])
     in s\<lparr>wn_routes := fold (\<lambda>m r. destroyRouteMonitor (wa_ip A) (m\<lparr>rm_system := r\<rparr>)) gone (wn_routes s),
          wn_doomed := [], wn_monitor := (if wn_monitorDoomed s then None else wn_monitor s), wn_monitorDoomed := False\<rparr>)"

section \<open>Peers and routes\<close>

definition win_updatePeer ::
    "('w, 'e, 'r) win_api \<Rightarrow> interface_config \<Rightarrow> ('w, 'e, 'r) win_backend \<Rightarrow> bool \<times> ('w, 'e, 'r) win_backend" where
  "win_updatePeer A config s =
    (let (ok, s1) = on_firewall (enablePeerTraffic (wa_wfp A) (wa_parseHost A) config) s
     in if \<not> ok then (False, s1)
        else if \<not> wa_isIPv4 A (qchars (ic_serverIpv4AddrIn config)) then (False, s1)
        else let key = wa_fromBase64 A (qchars (ic_serverPublicKey config));
                 (ok, s2) = on_world (wa_setPeer A (copy_key key) (qchars (ic_serverIpv4AddrIn config)) (ic_serverPort config))
                              (s1\<lparr>wn_overflow := wn_overflow s1 \<or> key_overflows key\<rparr>)
             in if \<not> ok then (False, s2)
                else if ic_hopType config = MultiHopExit then (True, s2)
                else let add = (\<lambda>a. on_monitor (addExclusionRoute (wa_ip A) (wa_special A) (ip_of_string A a)));
                         s3 = snd (add (qchars (ic_serverIpv4AddrIn config)) s2)
                     in (True, if qchars (ic_serverIpv6AddrIn config) = [] then s3
                               else snd (add (qchars (ic_serverIpv6AddrIn config)) s3)))"

text \<open>
  \<^verbatim>\<open>getPeerStatus\<close> walks the answer until it has found as many valid peers as the answer counts; if
  one of them is not valid, it walks off the end and returns nothing.
\<close>

definition valid_peer :: "nt_peer \<Rightarrow> bool" where
  "valid_peer p = (np_keepalive p = WG_KEEPALIVE_PERIOD \<and> np_hasKey p)"

definition win_getPeerStatus :: "('w, 'e, 'r) win_api \<Rightarrow> ('w, 'e, 'r) win_backend \<Rightarrow> peer_status list" where
  "win_getPeerStatus A s =
    (if \<not> wn_adapter s then []
     else case wa_getConfiguration A (wn_world s) of None \<Rightarrow> []
     | Some peers \<Rightarrow>
         if list_all valid_peer peers
         then map (\<lambda>p. \<lparr>ps_pubkey = wa_toBase64 A (np_publicKey p), ps_handshake = np_lastHandshake p,
                        ps_rxBytes = np_rxBytes p, ps_txBytes = np_txBytes p\<rparr>) peers
         else [])"

definition win_deletePeer ::
    "('w, 'e, 'r) win_api \<Rightarrow> interface_config \<Rightarrow> ('w, 'e, 'r) win_backend \<Rightarrow> bool \<times> ('w, 'e, 'r) win_backend" where
  "win_deletePeer A config s =
    (let key = wa_fromBase64 A (qchars (ic_serverPublicKey config));
         (ok, s1) = on_world (wa_removePeer A (copy_key key)) (s\<lparr>wn_overflow := wn_overflow s \<or> key_overflows key\<rparr>)
     in if \<not> ok then (False, s1)
        else let del = (\<lambda>a. on_monitor (deleteExclusionRoute (wa_ip A) (wa_special A) (wa_garbage A) (ip_of_string A a)));
                 s2 = (if ic_hopType config = MultiHopExit then s1
                       else snd (del (qchars (ic_serverIpv6AddrIn config)) (snd (del (qchars (ic_serverIpv4AddrIn config)) s1))))
             in (True, snd (on_firewall (disablePeerTraffic (wa_wfp A) (qchars (ic_serverPublicKey config))) s2)))"

definition mib_forward_row :: "nat \<Rightarrow> ip_address \<Rightarrow> mib_row" where
  "mib_forward_row luid prefix =
    (let dest = (if m_address prefix = NullAddress then prefix\<lparr>m_address := IPv4 0\<rparr> else prefix)
     in \<lparr>rt_prefix = dest, rt_luid = luid, rt_nextHop = any_address (protocol_of (m_address dest)),
         rt_protocol = MIB_IPPROTO_NETMGMT, rt_metric = 0, rt_age = 0\<rparr>)"

definition ERROR_OBJECT_ALREADY_EXISTS :: nat where "ERROR_OBJECT_ALREADY_EXISTS = 5010"
definition ERROR_NOT_FOUND :: nat where "ERROR_NOT_FOUND = 1168"

definition capture_default ::
    "('w, 'e, 'r) win_api \<Rightarrow> bool \<Rightarrow> ip_address \<Rightarrow> ('w, 'e, 'r) win_backend \<Rightarrow> ('w, 'e, 'r) win_backend" where
  "capture_default A enable prefix s =
    (if m_prefixLength prefix = 0 then snd (on_monitor (\<lambda>m. (True, setDefaultRouteCapture (wa_ip A) enable m)) s) else s)"

definition win_updateRoutePrefix ::
    "('w, 'e, 'r) win_api \<Rightarrow> ip_address \<Rightarrow> ('w, 'e, 'r) win_backend \<Rightarrow> bool \<times> ('w, 'e, 'r) win_backend" where
  "win_updateRoutePrefix A prefix s =
    (let s1 = capture_default A True prefix s;
         (result, r) = ih_create (wa_ip A) (mib_forward_row (wn_luid s1) prefix) (wn_routes s1)
     in (result = ERROR_OBJECT_ALREADY_EXISTS \<or> result = NO_ERROR, s1\<lparr>wn_routes := r\<rparr>))"

definition win_deleteRoutePrefix ::
    "('w, 'e, 'r) win_api \<Rightarrow> ip_address \<Rightarrow> ('w, 'e, 'r) win_backend \<Rightarrow> bool \<times> ('w, 'e, 'r) win_backend" where
  "win_deleteRoutePrefix A prefix s =
    (let s1 = capture_default A False prefix s;
         (result, r) = ih_delete (wa_ip A) (mib_forward_row (wn_luid s1) prefix) (wn_routes s1)
     in (result = ERROR_NOT_FOUND \<or> result = NO_ERROR, s1\<lparr>wn_routes := r\<rparr>))"

definition win_excludeLocalNetworks ::
    "('w, 'e, 'r) win_api \<Rightarrow> ip_address list \<Rightarrow> ('w, 'e, 'r) win_backend \<Rightarrow> bool \<times> ('w, 'e, 'r) win_backend" where
  "win_excludeLocalNetworks A addresses s =
    (let (ok, s1) = fold (\<lambda>prefix (ok, s). let (ok', s') = on_monitor (addExclusionRoute (wa_ip A) (wa_special A) prefix) s
                            in (ok \<and> ok', s')) addresses (True, s);
         (ok', s2) = on_firewall (enableLanBypass (wa_wfp A) addresses) s1
     in (ok \<and> ok', s2))"

section \<open>The daemon\<close>

definition win_prepareActivation :: "('w, 'e, 'r) win_api \<Rightarrow> interface_config \<Rightarrow> ('w, 'e, 'r) win_backend \<Rightarrow> ('w, 'e, 'r) win_backend" where
  "win_prepareActivation A config s =
     s\<lparr>wn_inetAdapter := wa_adapterIndexTo A (wa_parseHost A (qchars (ic_serverIpv4AddrIn config)))\<rparr>"

definition fail_split :: "bool \<Rightarrow> split_error \<Rightarrow> ('w, 'e, 'r) win_backend \<Rightarrow> ('w, 'e, 'r) win_backend" where
  "fail_split failed e s = (if failed then s\<lparr>wn_failures := wn_failures s @ [e]\<rparr> else s)"

definition wide_string :: "string \<Rightarrow> wstring" where
  "wide_string = map (\<lambda>c. word_of_nat (of_char c))"

definition win_run :: "('w, 'e, 'r) win_api \<Rightarrow> daemon_op \<Rightarrow> interface_config \<Rightarrow> ('w, 'e, 'r) win_backend \<Rightarrow> bool \<times> ('w, 'e, 'r) win_backend" where
  "win_run A op config s =
    (True,
     case wa_splitTunnel A of
       None \<Rightarrow> fail_split (ic_vpnDisabledApps config \<noteq> []) SplitTunnelInitFailure s
     | Some D \<Rightarrow>
         if op = OpDown then s\<lparr>wn_world := st_stop D (wn_world s)\<rparr>
         else if ic_vpnDisabledApps config \<noteq> []
         then let (ok, s1) = on_world (st_start D (wn_inetAdapter s)) s;
                  s2 = fail_split (\<not> ok) SplitTunnelStartFailure s1;
                  (ok, s3) = on_world (excludeApps D (map wide_string (ic_vpnDisabledApps config))) s2;
                  s4 = fail_split (\<not> ok) SplitTunnelExcludeFailure s3
              in fail_split (\<not> st_isRunning D (wn_world s4)) SplitTunnelStartFailure s4
         else s\<lparr>wn_world := st_stop D (wn_world s)\<rparr>)"

definition windows_backend :: "('w, 'e, 'r) win_api \<Rightarrow> ('w, 'e, 'r) win_backend backend" where
  "windows_backend A =
     \<lparr>be_interfaceExists = wn_adapter,
      be_addInterface = win_addInterface A,
      be_deleteInterface = win_deleteInterface A,
      be_updatePeer = win_updatePeer A,
      be_deletePeer = win_deletePeer A,
      be_getPeerStatus = win_getPeerStatus A,
      be_updateRoutePrefix = win_updateRoutePrefix A,
      be_deleteRoutePrefix = win_deleteRoutePrefix A,
      be_excludeLocalNetworks = win_excludeLocalNetworks A,
      be_updateResolvers = (\<lambda>hs. on_world (wa_updateResolvers A hs)),
      be_restoreResolvers = on_world (wa_restoreResolvers A),
      be_supportIPUtils = False,
      be_addInterfaceIPs = (\<lambda>c s. (True, s)),
      be_setMTUAndUp = (\<lambda>c s. (True, s)),
      be_run = win_run A,
      be_prepareActivation = win_prepareActivation A\<rparr>"

text \<open>\<^verbatim>\<open>activate\<close> with the slot of \<^verbatim>\<open>activationFailure\<close>, which disables the kill switch.\<close>

definition win_activate ::
    "('w, 'e, 'r) win_api \<Rightarrow> interface_config \<Rightarrow> ('w, 'e, 'r) win_backend daemon \<Rightarrow> bool \<times> ('w, 'e, 'r) win_backend daemon" where
  "win_activate A config s =
    (let (ok, s1) = activate (windows_backend A) (wa_parseHost A) config s;
         failures = length (filter (\<lambda>x. x = DActivationFailure) (drop (length (dm_out s)) (dm_out s1)))
     in (ok, s1\<lparr>dm_backend := ((\<lambda>b. snd (on_firewall (disableKillSwitch (wa_wfp A)) b)) ^^ failures) (dm_backend s1)\<rparr>))"

definition newWindowsDaemon :: "'w \<Rightarrow> 'e \<Rightarrow> 'r \<Rightarrow> ('w, 'e, 'r) win_backend daemon" where
  "newWindowsDaemon w e r =
     \<lparr>dm_connections = Map.empty, dm_handshakeTimer = False, dm_out = [],
      dm_backend = \<lparr>wn_world = w, wn_firewall = newFirewall e, wn_routes = r, wn_monitor = None, wn_monitorDoomed = False,
        wn_doomed = [], wn_luid = 0, wn_adapter = False, wn_ipv4Handle = 0, wn_inetAdapter = - 1, wn_overflow = False, wn_failures = []\<rparr>\<rparr>"

text \<open>The slot of \<^verbatim>\<open>backendFailure\<close>.\<close>

definition monitorBackendFailure ::
    "('w, 'e, 'r) win_api \<Rightarrow> ('w, 'e, 'r) win_backend daemon \<Rightarrow> ('w, 'e, 'r) win_backend daemon" where
  "monitorBackendFailure A s = snd (deactivate (windows_backend A) True s)"

section \<open>The filters of a daemon\<close>

text \<open>The filters in effect are those of the operations \<open>L\<close>.\<close>

definition in_effect ::
    "('w, 'e, 'r) win_api \<Rightarrow> ('e \<Rightarrow> fw_rules) \<Rightarrow> fw_op list \<Rightarrow> ('w, 'e, 'r) win_backend \<Rightarrow> bool" where
  "in_effect A rules L b \<longleftrightarrow>
     tracked (rules (fw_engine (wn_firewall b))) (wn_firewall b)
       (general_of (wa_wfp A) (wa_parseHost A) L) (peer_of (wa_wfp A) (wa_parseHost A) L)"

text \<open>A call that, when it succeeds, keeps the adapter and adds the operations \<open>xs\<close>.\<close>

definition logs ::
    "('s \<Rightarrow> ('w, 'e, 'r) win_backend) \<Rightarrow> ('w, 'e, 'r) win_api \<Rightarrow> ('e \<Rightarrow> fw_rules) \<Rightarrow> fw_op list \<Rightarrow> ('s \<Rightarrow> bool \<times> 's) \<Rightarrow> bool" where
  "logs p A rules xs f \<longleftrightarrow>
     (\<forall>L s s'. f s = (True, s') \<and> in_effect A rules L (p s) \<longrightarrow>
        in_effect A rules (L @ xs) (p s') \<and> wn_adapter (p s') = wn_adapter (p s) \<and> wn_luid (p s') = wn_luid (p s))"

text \<open>A call that touches neither the firewall nor the adapter.\<close>

definition quiet :: "(('w, 'e, 'r) win_backend \<Rightarrow> bool \<times> ('w, 'e, 'r) win_backend) \<Rightarrow> bool" where
  "quiet f \<longleftrightarrow> (\<forall>b. wn_firewall (snd (f b)) = wn_firewall b \<and> wn_adapter (snd (f b)) = wn_adapter b \<and>
     wn_luid (snd (f b)) = wn_luid b)"

lemma logsD:
  "logs p A rules xs f \<Longrightarrow> f s = (True, s') \<Longrightarrow> in_effect A rules L (p s) \<Longrightarrow>
     in_effect A rules (L @ xs) (p s') \<and> wn_adapter (p s') = wn_adapter (p s) \<and> wn_luid (p s') = wn_luid (p s)"
  by (simp add: logs_def)

lemma logs_quiet: "quiet f \<Longrightarrow> logs (\<lambda>b. b) A rules [] f"
  unfolding quiet_def logs_def in_effect_def by (metis append.right_neutral snd_conv)

lemma logs_call: "logs (\<lambda>b. b) A rules xs f \<Longrightarrow> logs dm_backend A rules xs (backend_call f)"
  unfolding logs_def backend_call_def by (auto split: prod.splits)

lemma logs_try_all: "list_all2 (\<lambda>xs f. logs p A rules xs f) xss fs \<Longrightarrow> logs p A rules (concat xss) (try_all fs)"
proof (induction fs arbitrary: xss)
  case (Cons f fs)
  then obtain xs yss where x: "xss = xs # yss" "logs p A rules xs f" "list_all2 (\<lambda>xs f. logs p A rules xs f) yss fs"
    by (auto simp: list_all2_Cons2)
  show ?case unfolding logs_def
  proof (intro allI impI, elim conjE)
    fix L s s'
    assume a: "try_all (f # fs) s = (True, s')" "in_effect A rules L (p s)"
    then obtain s1 where s1: "f s = (True, s1)" "try_all fs s1 = (True, s')" by (auto split: prod.splits if_splits)
    note l1 = logsD [OF x(2) s1(1) a(2)]
    show "in_effect A rules (L @ concat xss) (p s') \<and> wn_adapter (p s') = wn_adapter (p s) \<and> wn_luid (p s') = wn_luid (p s)"
      using logsD [OF Cons.IH [OF x(3)] s1(2)] l1 x(1) by force
  qed
qed (simp add: logs_def)

lemma quiet_world [simp]: "quiet (on_world f)"
  by (simp add: quiet_def on_world_def case_prod_beta Let_def)

lemma quiet_monitor [simp]: "quiet (on_monitor f)"
  by (auto simp: quiet_def on_monitor_def case_prod_beta Let_def split: option.splits)

lemma quiet_calls [simp]:
  "wn_firewall (snd (on_world f b)) = wn_firewall b" "wn_adapter (snd (on_world f b)) = wn_adapter b"
  "wn_luid (snd (on_world f b)) = wn_luid b" "wn_firewall (snd (on_monitor g b)) = wn_firewall b"
  "wn_adapter (snd (on_monitor g b)) = wn_adapter b" "wn_luid (snd (on_monitor g b)) = wn_luid b"
  using quiet_world [of f] quiet_monitor [of g] unfolding quiet_def by blast+

lemma quietD:
  "quiet f \<Longrightarrow> f b = (ok, b') \<Longrightarrow> wn_firewall b' = wn_firewall b \<and> wn_adapter b' = wn_adapter b \<and> wn_luid b' = wn_luid b"
  unfolding quiet_def by (metis snd_conv)

lemma quiet_backend [simp]:
  "quiet (set_private_key A c)" "quiet (setIPv4AddressAndMask A c)" "quiet (setIPv6AddressAndMask A c)"
  "quiet (win_updateRoutePrefix A ip)" "quiet (win_run A op c)"
proof -
  show "quiet (set_private_key A c)" "quiet (setIPv4AddressAndMask A c)" "quiet (setIPv6AddressAndMask A c)"
    by (auto simp: quiet_def set_private_key_def setIPv4AddressAndMask_def setIPv6AddressAndMask_def on_world_def Let_def case_prod_beta)
  have "wn_firewall (capture_default A True ip b) = wn_firewall b \<and> wn_adapter (capture_default A True ip b) = wn_adapter b \<and>
      wn_luid (capture_default A True ip b) = wn_luid b" for b
    using quiet_monitor unfolding capture_default_def quiet_def by auto
  then show "quiet (win_updateRoutePrefix A ip)" by (simp add: quiet_def win_updateRoutePrefix_def Let_def case_prod_beta)
  show "quiet (win_run A op c)"
    by (auto simp: quiet_def win_run_def fail_split_def on_world_def Let_def case_prod_beta split: option.splits)
qed

lemma logs_firewall:
  assumes "wfp_laws (wa_wfp A) rules txn" "\<And>L. in_force L x = L @ [x]"
  shows "logs (\<lambda>b. b) A rules [x] (on_firewall (fw_do (wa_wfp A) (wa_parseHost A) x))"
  unfolding logs_def
proof (intro allI impI, elim conjE)
  fix L b b'
  assume a: "on_firewall (fw_do (wa_wfp A) (wa_parseHost A) x) b = (True, b')" "in_effect A rules L b"
  then obtain fw where fw: "fw_do (wa_wfp A) (wa_parseHost A) x (wn_firewall b) = (True, fw)" "b' = b\<lparr>wn_firewall := fw\<rparr>"
    by (auto simp: on_firewall_def split: prod.splits)
  show "in_effect A rules (L @ [x]) b' \<and> wn_adapter b' = wn_adapter b \<and> wn_luid b' = wn_luid b"
    using refine_step [OF assms(1) fw(1)] a(2) fw(2) assms(2) by (simp add: in_effect_def)
qed

lemma logs_exclude:
  assumes "wfp_laws (wa_wfp A) rules txn"
  shows "logs (\<lambda>b. b) A rules [EnableLanBypass ns] (win_excludeLocalNetworks A ns)"
  unfolding logs_def
proof (intro allI impI, elim conjE)
  fix L b b'
  let ?step = "\<lambda>prefix (ok, b). let (ok', b') = on_monitor (addExclusionRoute (wa_ip A) (wa_special A) prefix) b in (ok \<and> ok', b')"
  assume a: "win_excludeLocalNetworks A ns b = (True, b')" "in_effect A rules L b"
  have fold: "quiet (\<lambda>b. fold ?step ns (ok, b))" for ok
  proof (induction ns arbitrary: ok)
    case (Cons n ns)
    then show ?case
      using quiet_monitor [of "addExclusionRoute (wa_ip A) (wa_special A) n"]
      by (simp add: quiet_def case_prod_beta Let_def)
  qed (simp add: quiet_def)
  obtain ok b1 where b1: "fold ?step ns (True, b) = (ok, b1)" by fastforce
  note q = quietD [OF fold b1]
  have "on_firewall (enableLanBypass (wa_wfp A) ns) b1 = (True, b')"
    using a(1) b1 by (auto simp: win_excludeLocalNetworks_def split: prod.splits)
  moreover have "in_effect A rules L b1" using a(2) q by (simp add: in_effect_def)
  ultimately show "in_effect A rules (L @ [EnableLanBypass ns]) b' \<and> wn_adapter b' = wn_adapter b \<and> wn_luid b' = wn_luid b"
    using logsD [OF logs_firewall [OF assms, of "EnableLanBypass ns"]] q by simp
qed

lemma logs_updatePeer:
  assumes "wfp_laws (wa_wfp A) rules txn"
  shows "logs (\<lambda>b. b) A rules [EnablePeerTraffic c] (win_updatePeer A c)"
  unfolding logs_def
proof (intro allI impI, elim conjE)
  fix L b b'
  assume a: "win_updatePeer A c b = (True, b')" "in_effect A rules L b"
  obtain ok b1 where b1: "on_firewall (enablePeerTraffic (wa_wfp A) (wa_parseHost A) c) b = (ok, b1)" by fastforce
  have ok using a(1) b1 by (auto simp: win_updatePeer_def split: if_splits)
  with b1 have l: "in_effect A rules (L @ [EnablePeerTraffic c]) b1 \<and> wn_adapter b1 = wn_adapter b \<and> wn_luid b1 = wn_luid b"
    using logsD [OF logs_firewall [OF assms, of "EnablePeerTraffic c"] _ a(2)] by simp
  have "wn_firewall b' = wn_firewall b1 \<and> wn_adapter b' = wn_adapter b1 \<and> wn_luid b' = wn_luid b1"
    using a(1) b1 by (auto simp: win_updatePeer_def Let_def case_prod_beta split: if_splits)
  then show "in_effect A rules (L @ [EnablePeerTraffic c]) b' \<and> wn_adapter b' = wn_adapter b \<and> wn_luid b' = wn_luid b"
    using l by (simp add: in_effect_def)
qed

lemma addInterface_steps:
  assumes "win_addInterface A c b = (True, b')"
  obtains luid w b1 b2 where "wa_createAdapter A (wn_world b) = (Some luid, w)"
    "try_all [set_private_key A c, on_world (wa_setAdapterState A True)] (b\<lparr>wn_world := w\<rparr>) = (True, b1)"
    "try_all [setIPv4AddressAndMask A c, setIPv6AddressAndMask A c, enable_firewall A luid] (new_monitor luid b1) = (True, b2)"
    "b' = b2\<lparr>wn_adapter := True\<rparr>"
  using assms unfolding win_addInterface_def Let_def by (auto split: prod.splits option.splits if_splits)

lemma logs_addInterface:
  assumes laws: "wfp_laws (wa_wfp A) rules txn" and a: "win_addInterface A c b = (True, b')" "in_effect A rules L b"
  shows "in_effect A rules (L @ [EnableInterface (wa_ifIndex A (wn_luid b'))]) b' \<and> wn_adapter b'"
proof -
  obtain luid w b1 b2 where st: "wa_createAdapter A (wn_world b) = (Some luid, w)"
    "try_all [set_private_key A c, on_world (wa_setAdapterState A True)] (b\<lparr>wn_world := w\<rparr>) = (True, b1)"
    "try_all [setIPv4AddressAndMask A c, setIPv6AddressAndMask A c, enable_firewall A luid] (new_monitor luid b1) = (True, b2)"
    "b' = b2\<lparr>wn_adapter := True\<rparr>"
    by (rule addInterface_steps [OF a(1)])
  have l1: "logs (\<lambda>b. b) A rules (concat [[], []]) (try_all [set_private_key A c, on_world (wa_setAdapterState A True)])"
    by (intro logs_try_all) (simp add: logs_quiet)
  have b1: "in_effect A rules L b1" using logsD [OF l1 st(2)] a(2) by (simp add: in_effect_def)
  have "on_firewall (enableInterface (wa_wfp A) (wa_ifIndex A luid)) t = (True, t')" if "enable_firewall A luid t = (True, t')" for t t'
    using that by (auto simp: enable_firewall_def split: prod.splits if_splits)
  moreover have "logs (\<lambda>b. b) A rules [EnableInterface (wa_ifIndex A luid)] (on_firewall (enableInterface (wa_wfp A) (wa_ifIndex A luid)))"
    using logs_firewall [OF laws, of "EnableInterface (wa_ifIndex A luid)"] by simp
  ultimately have "logs (\<lambda>b. b) A rules [EnableInterface (wa_ifIndex A luid)] (enable_firewall A luid)"
    unfolding logs_def by blast
  then have "logs (\<lambda>b. b) A rules (concat [[], [], [EnableInterface (wa_ifIndex A luid)]])
      (try_all [setIPv4AddressAndMask A c, setIPv6AddressAndMask A c, enable_firewall A luid])"
    by (intro logs_try_all) (simp add: logs_quiet)
  from logsD [OF this st(3)] b1 show ?thesis
    using st(4) by (simp add: in_effect_def new_monitor_def)
qed

section \<open>Activation\<close>

definition local_networks :: "ip_address list" where
  "local_networks = flatten getExcludedIPAddressRanges"

text \<open>The operations in force after the hops \<open>cs\<close> were activated on an adapter with index \<open>i\<close>.\<close>

definition hop_ops :: "int \<Rightarrow> interface_config list \<Rightarrow> fw_op list" where
  "hop_ops i cs = (if cs = [] then [] else [EnableInterface i, EnableLanBypass local_networks] @ map EnablePeerTraffic cs)"

lemma bring_up_ops:
  assumes laws: "wfp_laws (wa_wfp A) rules txn" and up: "bring_up (windows_backend A) c s = (True, s')"
    and b: "in_effect A rules (hop_ops (wa_ifIndex A (wn_luid (dm_backend s))) cs) (dm_backend s)"
    and ad: "wn_adapter (dm_backend s) \<longleftrightarrow> cs \<noteq> []"
  shows "in_effect A rules ([EnableInterface (wa_ifIndex A (wn_luid (dm_backend s'))), EnableLanBypass local_networks] @ map EnablePeerTraffic cs)
      (dm_backend s') \<and> wn_adapter (dm_backend s')"
proof (cases "cs = []")
  case True
  then obtain b1 where b1: "win_addInterface A c (dm_backend s) = (True, b1)"
    "win_excludeLocalNetworks A local_networks b1 = (True, dm_backend s')"
    using up ad by (auto simp: bring_up_def windows_backend_def backend_call_def local_networks_def split: prod.splits if_splits)
  have "in_effect A rules [] (dm_backend s)" using b True by (simp add: hop_ops_def)
  note add = logs_addInterface [OF laws b1(1) this]
  show ?thesis using logsD [OF logs_exclude [OF laws] b1(2)] add True by fastforce
next
  case False
  then show ?thesis using up b ad by (auto simp: bring_up_def windows_backend_def hop_ops_def)
qed

lemma activate_up_ops:
  assumes laws: "wfp_laws (wa_wfp A) rules txn" and up: "activate_up (windows_backend A) (wa_parseHost A) c s = (True, s')"
    and b: "in_effect A rules (hop_ops (wa_ifIndex A (wn_luid (dm_backend s))) cs) (dm_backend s)"
    and ad: "wn_adapter (dm_backend s) \<longleftrightarrow> cs \<noteq> []"
  shows "in_effect A rules (hop_ops (wa_ifIndex A (wn_luid (dm_backend s'))) (cs @ [c])) (dm_backend s') \<and> wn_adapter (dm_backend s')"
proof -
  let ?B = "windows_backend A"
  let ?s = "s\<lparr>dm_backend := be_prepareActivation ?B c (dm_backend s)\<rparr>"
  let ?rest = "[backend_call (be_updatePeer ?B c), maybeUpdateResolvers ?B (wa_parseHost A) c] @
      map (\<lambda>ip. backend_call (be_updateRoutePrefix ?B ip)) (ic_allowedIPAddressRanges c) @ [backend_call (be_run ?B OpUp c), commit_connection c]"
  have prep: "wn_firewall (dm_backend ?s) = wn_firewall (dm_backend s)" "wn_adapter (dm_backend ?s) = wn_adapter (dm_backend s)"
    "wn_luid (dm_backend ?s) = wn_luid (dm_backend s)"
    by (simp_all add: windows_backend_def win_prepareActivation_def)
  obtain s1 where s1: "bring_up ?B c ?s = (True, s1)" "try_all ?rest s1 = (True, s')"
    using up unfolding activate_up_def by (auto simp del: append.simps simp: append_Cons [of "bring_up ?B c"] split: prod.splits if_splits)
  have "in_effect A rules (hop_ops (wa_ifIndex A (wn_luid (dm_backend ?s))) cs) (dm_backend ?s)" "wn_adapter (dm_backend ?s) \<longleftrightarrow> cs \<noteq> []"
    using b ad prep by (simp_all add: in_effect_def)
  note up1 = bring_up_ops [OF laws s1(1) this]
  have q: "logs dm_backend A rules [] (backend_call f)" if "quiet f" for f
    using that by (intro logs_call logs_quiet)
  have resolvers: "logs dm_backend A rules [] (maybeUpdateResolvers ?B (wa_parseHost A) c)"
  proof (cases "ic_hopType c = MultiHopExit \<or> ic_hopType c = SingleHop")
    case True
    then show ?thesis using q unfolding maybeUpdateResolvers_def Let_def by (simp add: windows_backend_def)
  qed (simp add: maybeUpdateResolvers_def logs_def)
  have commit: "logs dm_backend A rules [] (commit_connection c)"
    by (simp add: logs_def commit_connection_def set_connection_def)
  have peer: "logs dm_backend A rules [EnablePeerTraffic c] (backend_call (be_updatePeer ?B c))"
    using logs_updatePeer [OF laws] by (intro logs_call) (simp add: windows_backend_def)
  have "list_all2 (logs dm_backend A rules) ([[EnablePeerTraffic c], []] @ map (\<lambda>ip. []) (ic_allowedIPAddressRanges c) @ [[], []]) ?rest"
    using peer resolvers commit q by (auto simp: list_all2_map1 list_all2_map2 list_all2_same windows_backend_def intro!: list_all2_appendI)
  then have "logs dm_backend A rules (concat ([[EnablePeerTraffic c], []] @ map (\<lambda>ip. []) (ic_allowedIPAddressRanges c) @ [[], []])) (try_all ?rest)"
    by (rule logs_try_all)
  moreover have "concat (map (\<lambda>ip. []) xs) = ([] :: fw_op list)" for xs :: "ip_address list" by (induction xs) simp_all
  ultimately have "logs dm_backend A rules [EnablePeerTraffic c] (try_all ?rest)" by simp
  from logsD [OF this s1(2) up1 [THEN conjunct1]] up1 show ?thesis by (simp add: hop_ops_def)
qed

lemma activations_ops:
  assumes laws: "wfp_laws (wa_wfp A) rules txn"
  shows "try_all (map (win_activate A) cs) s = (True, s') \<Longrightarrow> distinct (map ic_hopType cs) \<Longrightarrow>
    \<forall>c \<in> set cs. dm_connections s (ic_hopType c) = None \<Longrightarrow>
    in_effect A rules (hop_ops (wa_ifIndex A (wn_luid (dm_backend s))) ds) (dm_backend s) \<Longrightarrow>
    (wn_adapter (dm_backend s) \<longleftrightarrow> ds \<noteq> []) \<Longrightarrow>
    in_effect A rules (hop_ops (wa_ifIndex A (wn_luid (dm_backend s'))) (ds @ cs)) (dm_backend s')"
proof (induction cs arbitrary: s ds)
  case (Cons c cs)
  obtain s1 where s1: "win_activate A c s = (True, s1)" "try_all (map (win_activate A) cs) s1 = (True, s')"
    using Cons.prems(1) by (auto split: prod.splits if_splits)
  have "activate (windows_backend A) (wa_parseHost A) c s = failure_guard (activate_up (windows_backend A) (wa_parseHost A) c s)"
    using Cons.prems(3) by (subst activate.simps) simp
  then obtain s0 where s0: "activate_up (windows_backend A) (wa_parseHost A) c s = (True, s0)"
    "activate (windows_backend A) (wa_parseHost A) c s = (True, s0)"
    using s1(1) by (auto simp: win_activate_def failure_guard_def Let_def split: prod.splits if_splits)
  note front = activate_up_front [OF s0(1)]
  have "s1 = s0" using s1(1) s0(2) front by (simp add: win_activate_def)
  with s0(1) have up: "activate_up (windows_backend A) (wa_parseHost A) c s = (True, s1)" by simp
  note ops = activate_up_ops [OF laws up Cons.prems(4,5)]
  have "\<forall>c' \<in> set cs. dm_connections s1 (ic_hopType c') = None"
    using Cons.prems(2,3) front \<open>s1 = s0\<close> by (force simp: image_iff)
  from Cons.IH [OF s1(2) _ this, of "ds @ [c]"] ops Cons.prems(2) show ?case by simp
qed (simp add: Let_def)

text \<open>
  C6: The daemon never reports a tunnel without its kill switch.  Take a new Windows daemon on a
  filtering platform that behaves as documented, and any successful activations of hops of different
  types whose address ranges are networks (no bits of the address beyond the prefix).  Then a
  well-formed connection outside the tunnel into the address ranges of any of the hops is blocked
  unless it is exempt: traffic of the client, of the tunnel's adapter or a loopback interface, of a
  local network of the excluded ranges, DNS to the configured server, or DHCP.  DNS to any other server
  is blocked, also in local networks.
\<close>

theorem activation_protects:
  assumes laws: "wfp_laws (wa_wfp A) rules txn" and arb: "arbitration permits" and fresh: "rules e = Map.empty"
    and run: "try_all (map (win_activate A) cs) (newWindowsDaemon w e r) = (True, s)"
    and cs: "cs \<noteq> []" "distinct (map ic_hopType cs)" "\<forall>cfg \<in> set cs. list_all network (ic_allowedIPAddressRanges cfg)"
    and L: "L = hop_ops (wa_ifIndex A (wn_luid (dm_backend s))) cs" and c: "wf_conn c"
    and out: "\<not> own_traffic (wa_wfp A) L c" "\<not> (is_dns c \<and> to_dns_host (wa_parseHost A) L c)"
    and inside: "(\<exists>cfg \<in> set cs. \<exists>range \<in> set (ic_allowedIPAddressRanges cfg). co_remote c \<in> addrs range) \<and>
       \<not> (\<exists>range \<in> set local_networks. co_remote c \<in> addrs range) \<and> \<not> is_dhcp c \<or> is_dns c"
  shows "\<not> permits (ran (rules (fw_engine (wn_firewall (dm_backend s))))) c"
proof -
  have "in_effect A rules (hop_ops i []) (dm_backend (newWindowsDaemon w e r))" for i
    using fresh by (simp add: in_effect_def tracked_def newWindowsDaemon_def newFirewall_def hop_ops_def general_of_def peer_of_def)
  then have "in_effect A rules L (dm_backend s)"
    using activations_ops [OF laws run cs(2), of "[]"] L by (simp add: newWindowsDaemon_def)
  then have F: "ran (rules (fw_engine (wn_firewall (dm_backend s)))) = (\<Union>x \<in> set L. op_filters (wa_wfp A) (wa_parseHost A) x)"
    using tracked_ran of_all unfolding in_effect_def by metis
  have nets: "list_all op_networks L"
    using cs(3) excluded_v4_networks excluded_v6_networks
    by (simp add: L hop_ops_def list_all_iff local_networks_def flatten_def) blast
  have "lan_traffic L c \<longleftrightarrow> (\<exists>range \<in> set local_networks. co_remote c \<in> addrs range)"
    using cs(1) by (auto simp: L hop_ops_def lan_traffic_def)
  moreover have "tunnelled L c \<longleftrightarrow> (\<exists>cfg \<in> set cs. \<exists>range \<in> set (ic_allowedIPAddressRanges cfg). co_remote c \<in> addrs range)"
    using cs(1) by (auto simp: L hop_ops_def tunnelled_def)
  moreover have "EnableInterface (wa_ifIndex A (wn_luid (dm_backend s))) \<in> set L" using cs(1) by (simp add: L hop_ops_def)
  ultimately have "decided FwBlock (\<Union>x \<in> set L. op_filters (wa_wfp A) (wa_parseHost A) x) c"
    using inside out tunnel_decided [OF refl nets c] dns_decided [OF refl nets c] by blast
  then show ?thesis using arb F unfolding arbitration_def by metis
qed

section \<open>A failed switch\<close>

lemma covered_peer:
  assumes "wfp_laws W rules txn" "covered rules s"
  shows "covered rules (snd (enablePeerTraffic W ph c s))"
proof -
  have "tx_keeps rules txn (try_all [blockTrafficToList W (qchars (ic_serverPublicKey c)) LOW_WEIGHT (ic_allowedIPAddressRanges c), dns_rules W ph c])"
    using keeps_rules(9,10) [OF assms(1)] by (intro keeps_try_all) auto
  then show ?thesis
    using guarded_outcome [OF assms] unfolding enablePeerTraffic_def by (metis prod.collapse)
qed

lemma failed_updatePeer:
  "win_updatePeer A c b = (False, b') \<Longrightarrow> wn_firewall b' = snd (enablePeerTraffic (wa_wfp A) (wa_parseHost A) c (wn_firewall b)) \<and>
     wn_adapter b' = wn_adapter b"
  by (auto simp: win_updatePeer_def on_firewall_def on_world_def Let_def case_prod_beta split: if_splits)

text \<open>
  C29: A failed switch of servers turns the kill switch off under a running tunnel.  When the daemon
  cannot install the new peer, for instance because the server's address does not parse, it keeps its
  connection and its adapter, but removes every filter.
\<close>

theorem failed_switch_unprotected:
  assumes laws: "wfp_laws (wa_wfp A) rules txn" and cov: "covered rules (wn_firewall (dm_backend s))"
    and sw: "supportServerSwitching cfg s" and f: "win_updatePeer A cfg (dm_backend s) = (False, b)"
    and off: "fst (disableKillSwitch (wa_wfp A) (wn_firewall b))" and act: "win_activate A cfg s = (ok, s')"
  shows "\<not> ok \<and> dm_connections s' = dm_connections s \<and> wn_adapter (dm_backend s') = wn_adapter (dm_backend s) \<and>
    rules (fw_engine (wn_firewall (dm_backend s'))) = Map.empty"
proof -
  have conn: "dm_connections s (ic_hopType cfg) \<noteq> None" using sw by (auto simp: supportServerSwitching_def split: option.splits)
  have "backend_call (be_updatePeer (windows_backend A) cfg) s = (False, s\<lparr>dm_backend := b\<rparr>)"
    using f by (simp add: backend_call_def windows_backend_def)
  then have "switchServer (windows_backend A) cfg s = (False, s\<lparr>dm_backend := b\<rparr>)" by (simp add: switchServer_def)
  then have "activate_switch (windows_backend A) (wa_parseHost A) cfg s = (False, s\<lparr>dm_backend := b\<rparr>)" by (simp add: activate_switch_def)
  then have "activate (windows_backend A) (wa_parseHost A) cfg s = (False, dm_emit DActivationFailure (s\<lparr>dm_backend := b\<rparr>))"
    using conn sw by (subst activate.simps) (simp add: failure_guard_def)
  then have s': "ok = False" "s' = (dm_emit DActivationFailure (s\<lparr>dm_backend := b\<rparr>))
      \<lparr>dm_backend := snd (on_firewall (disableKillSwitch (wa_wfp A)) b)\<rparr>"
    using act by (simp_all add: win_activate_def dm_emit_def)
  have "covered rules (wn_firewall b)" using covered_peer [OF laws cov] failed_updatePeer [OF f] by simp
  then have "rules (fw_engine (snd (disableKillSwitch (wa_wfp A) (wn_firewall b)))) = Map.empty"
    using disable_outcome [OF laws, of "wn_firewall b" True] off by (metis prod.collapse)
  then show ?thesis
    using s' failed_updatePeer [OF f] by (simp add: dm_emit_def on_firewall_def case_prod_beta Let_def)
qed

section \<open>Keys\<close>

text \<open>A call that, when it succeeds, copies a key past the end of its array exactly if \<open>k\<close>.\<close>

definition copies :: "('s \<Rightarrow> ('w, 'e, 'r) win_backend) \<Rightarrow> bool \<Rightarrow> ('s \<Rightarrow> bool \<times> 's) \<Rightarrow> bool" where
  "copies p k f \<longleftrightarrow> (\<forall>s s'. f s = (True, s') \<longrightarrow> wn_overflow (p s') = (wn_overflow (p s) \<or> k))"

lemma copies_call: "copies (\<lambda>b. b) k f \<Longrightarrow> copies dm_backend k (backend_call f)"
  unfolding copies_def backend_call_def by (auto split: prod.splits)

lemma copies_try_all: "list_all2 (copies p) ks fs \<Longrightarrow> copies p (True \<in> set ks) (try_all fs)"
proof (induction fs arbitrary: ks)
  case (Cons f fs)
  then obtain k ks' where k: "ks = k # ks'" "copies p k f" "list_all2 (copies p) ks' fs" by (auto simp: list_all2_Cons2)
  then show ?case
    using Cons.IH [OF k(3)] unfolding copies_def by (fastforce split: prod.splits if_splits)
qed (simp add: copies_def)

lemma overflow_calls [simp]:
  "wn_overflow (snd (on_world f b)) = wn_overflow b" "wn_overflow (snd (on_monitor g b)) = wn_overflow b"
  "wn_overflow (snd (on_firewall h b)) = wn_overflow b"
  by (auto simp: on_world_def on_monitor_def on_firewall_def Let_def case_prod_beta split: option.splits)

lemma copies_sndI: "(\<And>b. wn_overflow (snd (f b)) = wn_overflow b) \<Longrightarrow> copies (\<lambda>b. b) False f"
  unfolding copies_def by (metis snd_conv)

lemma copies_backend:
  "copies (\<lambda>b. b) False (on_world g)" "copies (\<lambda>b. b) False (setIPv4AddressAndMask A c)"
  "copies (\<lambda>b. b) False (setIPv6AddressAndMask A c)" "copies (\<lambda>b. b) False (enable_firewall A i)"
  "copies (\<lambda>b. b) False (win_updateRoutePrefix A ip)" "copies (\<lambda>b. b) False (win_run A op c)"
  "copies (\<lambda>b. b) False (win_excludeLocalNetworks A ns)"
  "copies (\<lambda>b. b) (key_overflows (wa_fromBase64 A (qchars (ic_privateKey c)))) (set_private_key A c)"
  "copies (\<lambda>b. b) (key_overflows (wa_fromBase64 A (qchars (ic_serverPublicKey c)))) (win_updatePeer A c)"
proof -
  show "copies (\<lambda>b. b) False (on_world g)" "copies (\<lambda>b. b) False (setIPv4AddressAndMask A c)"
    "copies (\<lambda>b. b) False (setIPv6AddressAndMask A c)" "copies (\<lambda>b. b) False (enable_firewall A i)"
    by (intro copies_sndI; simp add: setIPv4AddressAndMask_def setIPv6AddressAndMask_def enable_firewall_def Let_def case_prod_beta)+
  show "copies (\<lambda>b. b) False (win_updateRoutePrefix A ip)"
    by (intro copies_sndI) (simp add: win_updateRoutePrefix_def capture_default_def Let_def case_prod_beta)
  show "copies (\<lambda>b. b) False (win_run A op c)"
    by (intro copies_sndI) (simp add: win_run_def fail_split_def Let_def case_prod_beta split: option.splits)
  let ?step = "\<lambda>prefix (ok, b). let (ok', b') = on_monitor (addExclusionRoute (wa_ip A) (wa_special A) prefix) b in (ok \<and> ok', b')"
  have "wn_overflow (snd (fold ?step ns (ok, b))) = wn_overflow b" for ok b
    by (induction ns arbitrary: ok b) (simp_all add: case_prod_beta Let_def)
  then show "copies (\<lambda>b. b) False (win_excludeLocalNetworks A ns)"
    by (intro copies_sndI) (simp add: win_excludeLocalNetworks_def case_prod_beta Let_def)
  have "wn_overflow (snd (set_private_key A c b)) = (wn_overflow b \<or> key_overflows (wa_fromBase64 A (qchars (ic_privateKey c))))" for b
    by (simp add: set_private_key_def Let_def)
  then show "copies (\<lambda>b. b) (key_overflows (wa_fromBase64 A (qchars (ic_privateKey c)))) (set_private_key A c)"
    unfolding copies_def by (metis snd_conv)
  show "copies (\<lambda>b. b) (key_overflows (wa_fromBase64 A (qchars (ic_serverPublicKey c)))) (win_updatePeer A c)"
    unfolding copies_def by (auto simp: win_updatePeer_def Let_def case_prod_beta split: if_splits)
qed

lemma copies_addInterface:
  "copies (\<lambda>b. b) (key_overflows (wa_fromBase64 A (qchars (ic_privateKey c)))) (win_addInterface A c)"
  unfolding copies_def
proof (intro allI impI)
  let ?k = "key_overflows (wa_fromBase64 A (qchars (ic_privateKey c)))"
  fix b b'
  assume "win_addInterface A c b = (True, b')"
  then obtain luid w b1 b2 where st: "wa_createAdapter A (wn_world b) = (Some luid, w)"
    "try_all [set_private_key A c, on_world (wa_setAdapterState A True)] (b\<lparr>wn_world := w\<rparr>) = (True, b1)"
    "try_all [setIPv4AddressAndMask A c, setIPv6AddressAndMask A c, enable_firewall A luid] (new_monitor luid b1) = (True, b2)"
    "b' = b2\<lparr>wn_adapter := True\<rparr>"
    by (rule addInterface_steps)
  have "copies (\<lambda>b. b) (True \<in> set [?k, False]) (try_all [set_private_key A c, on_world (wa_setAdapterState A True)])"
    "copies (\<lambda>b. b) (True \<in> set [False, False, False]) (try_all [setIPv4AddressAndMask A c, setIPv6AddressAndMask A c, enable_firewall A luid])"
    by (intro copies_try_all; simp add: copies_backend)+
  then show "wn_overflow b' = (wn_overflow b \<or> ?k)" using st(2-4) unfolding copies_def by (fastforce simp: new_monitor_def)
qed

text \<open>
  C30: The daemon does not check the length of a key.  A successful activation that creates the adapter
  has written past the end of an array of 32 bytes on the stack exactly when the private key or the
  peer's public key of the configuration decodes to more than 32 bytes.
\<close>

theorem long_keys_overflow:
  assumes act: "activate (windows_backend A) (wa_parseHost A) cfg s = (True, s')"
    and new: "dm_connections s (ic_hopType cfg) = None" "\<not> wn_adapter (dm_backend s)" "\<not> wn_overflow (dm_backend s)"
  shows "wn_overflow (dm_backend s') \<longleftrightarrow>
    length (wa_fromBase64 A (qchars (ic_privateKey cfg))) > 32 \<or> length (wa_fromBase64 A (qchars (ic_serverPublicKey cfg))) > 32"
proof -
  let ?B = "windows_backend A"
  let ?s = "s\<lparr>dm_backend := be_prepareActivation ?B cfg (dm_backend s)\<rparr>"
  let ?k = "key_overflows (wa_fromBase64 A (qchars (ic_privateKey cfg)))"
  let ?k' = "key_overflows (wa_fromBase64 A (qchars (ic_serverPublicKey cfg)))"
  let ?ips = "map (\<lambda>ip. backend_call (be_updateRoutePrefix ?B ip)) (ic_allowedIPAddressRanges cfg)"
  let ?fs = "[bring_up ?B cfg, backend_call (be_updatePeer ?B cfg), maybeUpdateResolvers ?B (wa_parseHost A) cfg] @ ?ips @
    [backend_call (be_run ?B OpUp cfg), commit_connection cfg]"
  have up: "try_all ?fs ?s = (True, s')"
    using act new(1) by (subst (asm) activate.simps) (auto simp: failure_guard_def activate_up_def split: prod.splits if_splits)
  obtain s1 where s1: "bring_up ?B cfg ?s = (True, s1)" "try_all (tl ?fs) s1 = (True, s')"
    using up by (auto split: prod.splits if_splits)
  have "copies dm_backend (True \<in> set [?k, False])
      (try_all [backend_call (be_addInterface ?B cfg), backend_call (be_excludeLocalNetworks ?B local_networks)])"
    by (intro copies_try_all) (simp add: windows_backend_def copies_call copies_backend copies_addInterface)
  moreover have "bring_up ?B cfg ?s = try_all [backend_call (be_addInterface ?B cfg), backend_call (be_excludeLocalNetworks ?B local_networks)] ?s"
    using new(2) by (simp add: bring_up_def local_networks_def windows_backend_def win_prepareActivation_def)
  ultimately have o1: "wn_overflow (dm_backend s1) \<longleftrightarrow> ?k"
    using s1(1) new(3) unfolding copies_def by (auto simp: windows_backend_def win_prepareActivation_def)
  have "copies dm_backend False (maybeUpdateResolvers ?B (wa_parseHost A) cfg)"
  proof (cases "ic_hopType cfg = MultiHopExit \<or> ic_hopType cfg = SingleHop")
    case True
    then show ?thesis unfolding maybeUpdateResolvers_def Let_def by (simp add: windows_backend_def copies_call copies_backend)
  qed (simp add: maybeUpdateResolvers_def copies_def)
  moreover have "copies dm_backend False (commit_connection cfg)"
    by (simp add: copies_def commit_connection_def set_connection_def)
  ultimately have "list_all2 (copies dm_backend) ([?k', False] @ map (\<lambda>ip. False) (ic_allowedIPAddressRanges cfg) @ [False, False]) (tl ?fs)"
    by (auto simp: list_all2_map1 list_all2_map2 list_all2_same windows_backend_def copies_call copies_backend intro!: list_all2_appendI)
  from copies_try_all [OF this] have "copies dm_backend ?k' (try_all (tl ?fs))" by (simp add: image_constant_conv split: if_split_asm)
  then show ?thesis using s1(2) o1 unfolding copies_def key_overflows_def by blast
qed

section \<open>A system\<close>

text \<open>A system on which every call succeeds; base64 text stands for itself here.\<close>

definition win_host :: "string \<Rightarrow> host_address" where
  "win_host s = (if CHR '':'' \<in> set s then IPv6 (replicate 16 0) else IPv4 0x0A400001)"

definition demo_api :: "(nat, fw_table, mib_row list) win_api" where
  "demo_api =
     \<lparr>wa_wfp = table_wfp, wa_ip = list_helper, wa_special = (\<lambda>a. False), wa_garbage = [], wa_splitTunnel = None,
      wa_parseHost = win_host, wa_parseSubnet = (\<lambda>s. (win_host s, 32)), wa_isIPv4 = (\<lambda>s. s \<noteq> []),
      wa_fromBase64 = (\<lambda>s. map (\<lambda>c. word_of_nat (of_char c)) s), wa_toBase64 = (\<lambda>b. []),
      wa_createAdapter = (\<lambda>w. (Some 9, w + 1)), wa_closeAdapter = (\<lambda>w. w - 1),
      wa_setPrivateKey = (\<lambda>k w. (True, w)), wa_setAdapterState = (\<lambda>up w. (True, w)),
      wa_setPeer = (\<lambda>k a p w. (True, w)), wa_removePeer = (\<lambda>k w. (True, w)), wa_getConfiguration = (\<lambda>w. None),
      wa_ifIndex = (\<lambda>luid. 7), wa_addIPAddress = (\<lambda>a m w. (1, w)), wa_createUnicast = (\<lambda>a n w. (True, w)),
      wa_deleteIPAddress = (\<lambda>h w. w), wa_updateResolvers = (\<lambda>hs w. (True, w)), wa_restoreResolvers = (\<lambda>w. (True, w)),
      wa_adapterIndexTo = (\<lambda>a. 3)\<rparr>"

definition win_config :: "string \<Rightarrow> string \<Rightarrow> interface_config" where
  "win_config key server = demo_peer\<lparr>ic_privateKey := Some ''private'', ic_deviceIpv4Address := Some ''10.64.0.2'',
     ic_deviceIpv6Address := Some ''fc00::2'', ic_serverPublicKey := Some key, ic_serverIpv4AddrIn := Some server\<rparr>"

definition win_start :: "(nat, fw_table, mib_row list) win_backend daemon" where
  "win_start = newWindowsDaemon 0 \<lparr>ft_rules = [], ft_txn = None, ft_commits = []\<rparr> demo_system"

definition win_active :: "(nat, fw_table, mib_row list) win_backend daemon" where
  "win_active = snd (win_activate demo_api (win_config ''key'' ''185.1.2.3'') win_start)"

lemma win_active: "win_activate demo_api (win_config ''key'' ''185.1.2.3'') win_start = (True, win_active)"
proof -
  have "fst (win_activate demo_api (win_config ''key'' ''185.1.2.3'') win_start) = True" by code_simp
  then show ?thesis by (simp add: win_active_def prod_eq_iff)
qed

lemma demo_api_simps [simp]:
  "wa_wfp demo_api = table_wfp" "wa_parseHost demo_api = win_host" "wa_ifIndex demo_api = (\<lambda>luid. 7)"
  by (simp_all add: demo_api_def)

lemma demo_not_local: "r \<in> set local_networks \<Longrightarrow> co_remote (demo_conn p) \<notin> addrs r"
proof -
  have "list_all (\<lambda>r. \<not> (protocol_of (m_address r) = IPv4Protocol \<and>
      take (pfx r) (wbits (0x08080808 :: 32 word)) = take (pfx r) (host_bits (m_address r)))) local_networks"
    by code_simp
  then show "r \<in> set local_networks \<Longrightarrow> co_remote (demo_conn p) \<notin> addrs r"
    by (auto simp: demo_conn_def addrs_def list_all_iff)
qed

lemma activation_protects_witness:
  "\<not> table_permits (ran (table_rules (fw_engine (wn_firewall (dm_backend win_active))))) (demo_conn 443) \<and>
   \<not> table_permits (ran (table_rules (fw_engine (wn_firewall (dm_backend win_active))))) (demo_conn 53)"
proof -
  let ?cs = "[win_config ''key'' ''185.1.2.3'']" and ?L = "hop_ops 7 [win_config ''key'' ''185.1.2.3'']"
  have run: "try_all (map (win_activate demo_api) ?cs) (newWindowsDaemon 0 \<lparr>ft_rules = [], ft_txn = None, ft_commits = []\<rparr> demo_system) = (True, win_active)"
    using win_active by (simp add: win_start_def)
  have e: "table_rules \<lparr>ft_rules = [], ft_txn = None, ft_commits = []\<rparr> = Map.empty" by (simp add: table_rules_def)
  have nets: "\<forall>cfg \<in> set ?cs. list_all network (ic_allowedIPAddressRanges cfg)"
    using demo_conn_facts(8) by (simp add: demo_ops_def win_config_def)
  have own: "\<not> own_traffic (wa_wfp demo_api) ?L (demo_conn p)" for p
    using demo_conn_facts(2) [of p] by (simp add: own_traffic_def hop_ops_def demo_ops_def)
  have dns: "\<not> to_dns_host (wa_parseHost demo_api) ?L (demo_conn p)" for p
    by (auto simp: to_dns_host_def hop_ops_def demo_conn_def dns_hosts_def win_host_def win_config_def demo_peer_def emptyConfig_def split: if_splits)
  have "co_remote (demo_conn p) \<in> addrs \<lparr>m_address = IPv4 0, m_prefixLength = 0\<rparr>" for p
    by (simp add: demo_conn_def addrs_def)
  then have "\<exists>cfg \<in> set ?cs. \<exists>range \<in> set (ic_allowedIPAddressRanges cfg). co_remote (demo_conn p) \<in> addrs range" for p
    by (simp add: win_config_def demo_peer_def)
  moreover note demo_not_local demo_conn_facts(1,5)
  ultimately show ?thesis
    using activation_protects [OF table_laws [folded demo_api_simps(1)] table_arbitration e run _ _ nets refl]
      own dns by simp
qed

text \<open>The next server's address does not parse.\<close>

definition win_switched :: "(nat, fw_table, mib_row list) win_backend daemon" where
  "win_switched = snd (win_activate demo_api (win_config ''other'' []) win_active)"

lemma failed_switch_unprotected_witness:
  "dm_connections win_switched SingleHop \<noteq> None \<and> wn_adapter (dm_backend win_switched) \<and>
   table_rules (fw_engine (wn_firewall (dm_backend win_switched))) = Map.empty"
proof -
  let ?cfg = "win_config ''other'' []"
  have facts: "let s = win_active; b = win_updatePeer demo_api ?cfg (dm_backend s); fw = wn_firewall (dm_backend s)
     in \<not> fst b \<and> supportServerSwitching ?cfg s \<and> wn_adapter (dm_backend s) \<and>
        fst (disableKillSwitch (wa_wfp demo_api) (wn_firewall (snd b))) \<and>
        list_all (\<lambda>i. i \<in> set (fw_activeRules fw @ map snd (fw_peerRules fw))) (map fst (ft_rules (fw_engine fw)))"
    by code_simp
  then have cov: "covered table_rules (wn_firewall (dm_backend win_active))"
    by (auto simp: Let_def covered_def fw_ids_def table_rules_def list_all_iff dom_map_of_conv_image_fst)
  from facts have sw: "supportServerSwitching ?cfg win_active" "wn_adapter (dm_backend win_active)"
    "fst (disableKillSwitch (wa_wfp demo_api) (wn_firewall (snd (win_updatePeer demo_api ?cfg (dm_backend win_active)))))"
    "\<not> fst (win_updatePeer demo_api ?cfg (dm_backend win_active))"
    by (simp_all only: Let_def simp_thms)
  then have conn: "dm_connections win_active SingleHop \<noteq> None"
    by (auto simp: supportServerSwitching_def win_config_def demo_peer_def emptyConfig_def split: option.splits)
  have u: "win_updatePeer demo_api ?cfg (dm_backend win_active) = (False, snd (win_updatePeer demo_api ?cfg (dm_backend win_active)))"
    using sw(4) by (simp add: prod_eq_iff)
  show ?thesis
    using failed_switch_unprotected [OF table_laws [folded demo_api_simps(1)] cov sw(1) u sw(3) surjective_pairing] sw(2) conn
    by (simp add: win_switched_def)
qed

lemma long_keys_overflow_witness:
  "wn_overflow (dm_backend (snd (activate (windows_backend demo_api) win_host
     (win_config (replicate 33 CHR ''A'') ''185.1.2.3'') win_start)))"
proof -
  let ?cfg = "win_config (replicate 33 CHR ''A'') ''185.1.2.3''"
  have ok: "fst (activate (windows_backend demo_api) (wa_parseHost demo_api) ?cfg win_start) = True" by code_simp
  have a: "activate (windows_backend demo_api) (wa_parseHost demo_api) ?cfg win_start =
      (True, snd (activate (windows_backend demo_api) (wa_parseHost demo_api) ?cfg win_start))"
    using ok by (simp add: prod_eq_iff)
  have "dm_connections win_start (ic_hopType ?cfg) = None" "\<not> wn_adapter (dm_backend win_start)" "\<not> wn_overflow (dm_backend win_start)"
    by (simp_all add: win_start_def newWindowsDaemon_def)
  from long_keys_overflow [OF a this] show ?thesis by (simp add: win_config_def demo_api_def)
qed

end
