(* ===== verification/Spec2Isabelle.thy ===== *)
theory Spec2Isabelle
  imports RecommendedLocationModel DaemonConnection ControllerProperties ConnectionHealth LocalSocketController
    TaskControllerAction TaskScheduler CryptoSettings AuthenticationFlow EmailValidation
    MozillaVpnProperties KeyRegenerator WindowsDaemon
begin

text \<open>
  A verification development of the Mozilla VPN client. File names below are relative to the C++
  sources, \<^verbatim>\<open>src/src\<close>.

  THE PROGRAM AND ITS PARTS.  The client is an unprivileged process with a user interface. Its
  \<^verbatim>\<open>Controller\<close> decides what the tunnel should do; it hands a list of hops to a platform
  implementation, in the modelled case \<^verbatim>\<open>LocalSocketController\<close>, which writes one JSON object per
  line into the socket of a privileged daemon. The daemon (\<^verbatim>\<open>Daemon\<close>, \<^verbatim>\<open>DaemonLocalServerConnection\<close>,
  \<^verbatim>\<open>DaemonAccessControl\<close>) parses the configuration, checks who is asking, and drives a WireGuard
  backend. Which server is used follows from the server list, the measured latencies, the user's
  location and the saved choice. Around this core are the task queue, the encrypted settings file,
  the sign-in, the classification of errors and the measurement of the connection.

  THE THEORIES.

  \<^verbatim>\<open>Prelude\<close>: theorem collections, facts on lists, bits and words, and the locale of transition
  systems that every stateful component instantiates to lift a step invariant to runs.

  \<^verbatim>\<open>Json\<close>: the accessors of QJsonValue and QJsonObject with their defaults.

  \<^verbatim>\<open>IPAddress\<close>, \<^verbatim>\<open>RoutingPolicy\<close> (\<^verbatim>\<open>ipaddress.cpp\<close>, \<^verbatim>\<open>rfc/\<close>, range functions of \<^verbatim>\<open>controller.cpp\<close>, route
  list of \<^verbatim>\<open>androidcontroller.cpp\<close>): prefixes on 32 and 128 bit words; excluding a list of prefixes
  from another yields exactly the set difference.

  \<^verbatim>\<open>Server\<close>, \<^verbatim>\<open>ServerCountryModel\<close>, \<^verbatim>\<open>Location\<close>, \<^verbatim>\<open>ServerLatency\<close>, \<^verbatim>\<open>RecommendedLocationModel\<close>,
  \<^verbatim>\<open>ServerData\<close> (\<^verbatim>\<open>models/\<close>, \<^verbatim>\<open>serverlatency.cpp\<close>): parsing, the port and server choice, scores,
  cooldowns, the ping queue with its invariant, the ranking of cities, the saved choice.

  \<^verbatim>\<open>DnsHelper\<close>, \<^verbatim>\<open>InterfaceConfig\<close> (\<^verbatim>\<open>dnshelper.cpp\<close>, \<^verbatim>\<open>interfaceconfig.cpp\<close>): the DNS of a connection,
  the configuration of a hop and its JSON and configuration-file forms.

  \<^verbatim>\<open>Daemon\<close>, \<^verbatim>\<open>DaemonConnection\<close> (\<^verbatim>\<open>daemon/\<close>): the daemon's state (peers, handshake polling,
  exclusions), every request, the access control, the framing of the socket.

  \<^verbatim>\<open>Controller\<close>, \<^verbatim>\<open>ControllerProperties\<close> (\<^verbatim>\<open>controller.cpp\<close>): state, timers and queues of the client
  side; each slot, timer and signal is one operation and one event of the step relation.

  \<^verbatim>\<open>LocalSocketController\<close>, \<^verbatim>\<open>DnsPing\<close>, \<^verbatim>\<open>PingHelper\<close>, \<^verbatim>\<open>ConnectionHealth\<close>: the client end of the
  socket, the ping protocol, its statistics, and the verdict on the connection.

  \<^verbatim>\<open>TaskScheduler\<close>, \<^verbatim>\<open>TaskControllerAction\<close> (\<^verbatim>\<open>taskscheduler.cpp\<close>, \<^verbatim>\<open>tasks/\<close>): the queue of tasks, with
  the group and function tasks and the tasks that drive the controller.

  \<^verbatim>\<open>Chacha20\<close>, \<^verbatim>\<open>Poly1305\<close>, \<^verbatim>\<open>Poly1305Spec\<close>, \<^verbatim>\<open>Aead\<close>, \<^verbatim>\<open>Hkdf\<close>, \<^verbatim>\<open>CryptoSettings\<close> (\<^verbatim>\<open>hacl-star/\<close>,
  \<^verbatim>\<open>hkdf.cpp\<close>, \<^verbatim>\<open>cryptosettings.cpp\<close>, \<^verbatim>\<open>platforms/linux/xdgcryptosettings.cpp\<close>): the cipher and the
  authenticator on 32 bit words and 26 bit limbs, their equivalence with RFC 8439, and the
  versions of the settings file.

  \<^verbatim>\<open>ErrorHandler\<close>, \<^verbatim>\<open>HawkAuth\<close>, \<^verbatim>\<open>AuthenticationInApp\<close>, \<^verbatim>\<open>AuthenticationFlow\<close>, \<^verbatim>\<open>EmailValidation\<close>
  (\<^verbatim>\<open>errorhandler.cpp\<close>, \<^verbatim>\<open>hawkauth.cpp\<close>, \<^verbatim>\<open>authenticationinapp/\<close>): error classes and alerts, request
  signatures, the sign-in session against a server that may answer anything, and the checks of
  addresses and passwords.

  \<^verbatim>\<open>DeviceModel\<close>, \<^verbatim>\<open>VersionUtils\<close>, \<^verbatim>\<open>MozillaVpn\<close>, \<^verbatim>\<open>MozillaVpnProperties\<close> (\<^verbatim>\<open>models/device*.cpp\<close>,
  \<^verbatim>\<open>models/keys.cpp\<close>, \<^verbatim>\<open>models/user.cpp\<close>, \<^verbatim>\<open>versionutils.cpp\<close>, \<^verbatim>\<open>mozillavpn.cpp\<close>, \<^verbatim>\<open>app.cpp\<close> and the tasks
  of the account): the account's data, and the state machine behind the screens over all of it, with
  the task queue as a list. It shows what the main view presupposes in every order of events, what a
  logout does exactly, and the runs in which the state machine goes wrong.

  \<^verbatim>\<open>CheckedInt\<close>, \<^verbatim>\<open>KeyRegenerator\<close> (\<^verbatim>\<open>mfbt/mozilla/CheckedInt.h\<close>, \<^verbatim>\<open>keyregenerator.cpp\<close>): integers that
  remember an overflow, exact for every expression, and the slot that replaces an old key, which
  computes its timer with them.

  \<^verbatim>\<open>WindowsFirewall\<close>, \<^verbatim>\<open>KillSwitch\<close> (\<^verbatim>\<open>platforms/windows/daemon/windowsfirewall.cpp\<close>): the filters of
  the Windows kill switch and their transactions over the calls of the filtering platform, which is
  a parameter with the laws it documents; a refinement to the set of filters of the operations in
  force, from it the verdict on every connection, and what failing calls leave behind.

  \<^verbatim>\<open>WindowsRouteMonitor\<close>, \<^verbatim>\<open>WindowsSplitTunnel\<close>, \<^verbatim>\<open>WindowsDaemon\<close> (\<^verbatim>\<open>platforms/windows/daemon/\<close>): the
  routes that stay outside the tunnel and those drawn into it, the blobs for the driver of the split
  tunnel, and the backend of the daemon built from them and the firewall. With \<^verbatim>\<open>Daemon\<close> they give the
  composed statement that an activation the daemon reports is one whose kill switch is in effect.

  HOW THE MODEL CORRESPONDS TO THE CODE.  A class is a record with the fields of its members, a
  method is a function from that record to an updated one, a signal or a call into another
  component is appended to an output list of the record, and a reply, timer or incoming signal is
  an event. Runs are lists of events in any order, so an interleaving is a list. Timers are flags
  of the record; the event of a timer can occur while its flag is set. Random numbers, clocks, and the results of Qt and of
  the platform are arguments. Machine integers are words where their width matters; JSON numbers
  are integers. Failures of the code are values of sum and option types.

  THE LEMMAS.  Each stateful theory defines a well-formedness predicate, shows that every operation
  keeps it, and interprets the transition-system locale, so the properties about reachable states
  are corollaries. Where a statement needs a habit of the environment that the code does not enforce
  (the platform controllers in \<^verbatim>\<open>Controller\<close>, the keys of the hops in \<^verbatim>\<open>Daemon\<close>, the readers of the
  settings file in \<^verbatim>\<open>CryptoSettings\<close>), the habit is a condition on runs that the statement names, and
  a lemma beside it shows a run without it in which the conclusion fails. The pure theories relate the code to a mathematical definition: sets of
  addresses, sums and minima over lists, polynomials modulo a prime, regular languages.

  BOUNDS AND FUEL.  Loops over lists are structural recursions. The loops of the controller that
  call back into themselves through a slot carry a measure (hops left to configure, retries left).
  Address masks and ranges keep the word width of the code. No theorem rests on a fuel
  parameter being large enough without a proof that it is.

  NOT MODELLED.  User interface and QML, platform bindings (the rest of Windows with its resolvers and service, macOS, Android, iOS, web, and
  the system calls of the Linux backend, for which the daemon model has a backend interface),
  HTTP, telemetry and logging, add-ons, the inspector, updates, translations, purchases, and the
  Curve25519 arithmetic. They are listed with their reasons in the manifest.
\<close>

end
